(* ===== verification/Prelude.thy ===== *)
theory Prelude
  imports Complex_Main "HOL-Library.Sublist"
begin

text \<open>
  The vocabulary shared by every component: Python exceptions as values, the result type of
  fallible calls, bounded deques, substring tests, and the interface that the two machine
  number systems of the program (28-digit \<open>Decimal\<close> and 53-bit \<open>float\<close>) both satisfy.
\<close>

named_theorems num_eval
  \<open>equations that evaluate rounded arithmetic on literals\<close>

section \<open>Exceptions and results\<close>

text \<open>
  The exceptions that the modelled code raises or lets escape. \<open>SignalRejected\<close>,
  \<open>BrokerError\<close>, \<open>RiskLimitExceeded\<close> and \<open>RateLimitExceeded\<close> are classes of
  \<open>moneymaker_common/exceptions.py\<close>; the others are Python's own.
\<close>

datatype pyexc =
    ValueError
  | KeyError
  | ZeroDivisionError
  | InvalidOperation
  | RiskLimitExceededError
  | RateLimitExceededError rat
  | RedisError
  | ImportError
  | TypeError
  | IndexError

type_synonym 'a result = "pyexc + 'a"

fun rbind :: "'e + 'a \<Rightarrow> ('a \<Rightarrow> 'e + 'b) \<Rightarrow> 'e + 'b" where
  "rbind (Inl e) f = Inl e"
| "rbind (Inr x) f = f x"

lemma rbind_eq_Inr [simp]: "rbind m f = Inr y \<longleftrightarrow> (\<exists>x. m = Inr x \<and> f x = Inr y)"
  by (cases m) auto

lemma rbind_eq_Inl: "rbind m f = Inl e \<longleftrightarrow> m = Inl e \<or> (\<exists>x. m = Inr x \<and> f x = Inl e)"
  by (cases m) auto

text \<open>\<open>d.get(key, default)\<close>, once the entry has been looked up.\<close>

definition opt_get :: "'a option \<Rightarrow> 'a \<Rightarrow> 'a" where
  "opt_get x d = (case x of None \<Rightarrow> d | Some v \<Rightarrow> v)"

lemma opt_get_simps [simp]: "opt_get None d = d" "opt_get (Some v) d = v"
  by (simp_all add: opt_get_def)

text \<open>A check that raises when its condition holds.\<close>

definition guard :: "bool \<Rightarrow> 'e \<Rightarrow> 'e + unit" where
  "guard b e = (if b then Inl e else Inr ())"

lemma guard_simps [simp]:
  "guard b e = Inr u \<longleftrightarrow> \<not> b" "guard b e = Inl e' \<longleftrightarrow> b \<and> e = e'" "guard False e = Inr ()" "guard True e = Inl e"
  by (auto simp: guard_def)

section \<open>Bounded deques and lists\<close>

text \<open>\<open>collections.deque(maxlen=n)\<close>: appending to a full deque drops the oldest element.\<close>

definition deque_append :: "nat \<Rightarrow> 'a list \<Rightarrow> 'a \<Rightarrow> 'a list" where
  "deque_append n xs x = drop (length xs + 1 - n) (xs @ [x])"

lemma length_deque_append [simp]: "length (deque_append n xs x) = min n (length xs + 1)"
  by (simp add: deque_append_def)

lemma set_deque_append: "set (deque_append n xs x) \<subseteq> insert x (set xs)"
  unfolding deque_append_def using set_drop_subset by fastforce

lemma last_deque_append [simp]: "0 < n \<Longrightarrow> last (deque_append n xs x) = x"
  by (simp add: deque_append_def)

lemma deque_append_grow: "length xs < n \<Longrightarrow> deque_append n xs x = xs @ [x]"
  by (simp add: deque_append_def)

lemma deque_append_full: "length xs = n \<Longrightarrow> 0 < n \<Longrightarrow> deque_append n xs x = tl xs @ [x]"
  by (cases xs) (auto simp: deque_append_def)

text \<open>A list slice \<open>xs[-n:]\<close> for \<open>n > 0\<close>.\<close>

definition last_n :: "nat \<Rightarrow> 'a list \<Rightarrow> 'a list" where
  "last_n n xs = drop (length xs - n) xs"

lemma length_last_n [simp]: "length (last_n n xs) = min n (length xs)"
  by (simp add: last_n_def)

lemma set_last_n: "set (last_n n xs) \<subseteq> set xs"
  unfolding last_n_def by (rule set_drop_subset)

lemma deque_append_last_n: "0 < n \<Longrightarrow> deque_append n (last_n n xs) x = last_n n (xs @ [x])"
  by (cases "n \<le> length xs") (auto simp: deque_append_def last_n_def not_le Suc_diff_le)

lemma last_deque_append': "deque_append n xs x \<noteq> [] \<Longrightarrow> last (deque_append n xs x) = x"
  by (cases "n = 0") (simp_all add: deque_append_def)

text \<open>The successive values of a loop's accumulator, the initial one included.\<close>

fun running :: "('a \<Rightarrow> 'b \<Rightarrow> 'a) \<Rightarrow> 'a \<Rightarrow> 'b list \<Rightarrow> 'a list" where
  "running f a [] = [a]"
| "running f a (x # xs) = a # running f (f a x) xs"

lemma running_nonempty [simp]: "running f a xs \<noteq> []"
  by (cases xs) simp_all

lemma length_running [simp]: "length (running f a xs) = length xs + 1"
  by (induction xs arbitrary: a) simp_all

lemma last_running: "last (running f a xs) = foldl f a xs"
  by (induction xs arbitrary: a) simp_all

text \<open>Rule induction for loops: what the body preserves holds of the result and of every intermediate value.\<close>

lemma foldl_invariant:
  "P a \<Longrightarrow> (\<And>a x. P a \<Longrightarrow> x \<in> set xs \<Longrightarrow> P (f a x)) \<Longrightarrow> P (foldl f a xs)"
  by (induction xs arbitrary: a) auto

lemma running_invariant:
  "P a \<Longrightarrow> (\<And>a x. P a \<Longrightarrow> x \<in> set xs \<Longrightarrow> P (f a x)) \<Longrightarrow> \<forall>b\<in>set (running f a xs). P b"
  by (induction xs arbitrary: a) auto

text \<open>The window of \<open>k\<close> entries that ends at index \<open>i\<close>.\<close>

definition window_at :: "nat \<Rightarrow> nat \<Rightarrow> 'a list \<Rightarrow> 'a list" where
  "window_at k i xs = take k (drop (i + 1 - k) xs)"

lemma set_window_at: "set (window_at k i xs) \<subseteq> set xs"
  unfolding window_at_def by (meson order_trans set_drop_subset set_take_subset)

lemma nth_in_window_at: "0 < k \<Longrightarrow> k \<le> i + 1 \<Longrightarrow> i < length xs \<Longrightarrow> xs ! i \<in> set (window_at k i xs)"
  unfolding window_at_def by (auto simp: in_set_conv_nth intro!: exI [of _ "k - 1"])

section \<open>Insertion-ordered dictionaries\<close>

text \<open>
  Where the iteration order of a Python \<open>dict\<close> matters it is an association list with distinct
  keys: storing a known key keeps its place, a new key goes to the end. Elsewhere a dictionary is
  a map.
\<close>

fun dict_set :: "'k \<Rightarrow> 'v \<Rightarrow> ('k \<times> 'v) list \<Rightarrow> ('k \<times> 'v) list" where
  "dict_set k v [] = [(k, v)]"
| "dict_set k v ((k', v') # xs) = (if k = k' then (k, v) # xs else (k', v') # dict_set k v xs)"

definition dict_del :: "'k \<Rightarrow> ('k \<times> 'v) list \<Rightarrow> ('k \<times> 'v) list" where
  "dict_del k xs = filter (\<lambda>p. fst p \<noteq> k) xs"

lemma map_of_dict_set [simp]: "map_of (dict_set k v xs) = (map_of xs)(k \<mapsto> v)"
  by (induction k v xs rule: dict_set.induct) auto

lemma keys_dict_set [simp]: "fst ` set (dict_set k v xs) = insert k (fst ` set xs)"
  by (induction k v xs rule: dict_set.induct) auto

lemma distinct_dict_set: "distinct (map fst xs) \<Longrightarrow> distinct (map fst (dict_set k v xs))"
proof (induction k v xs rule: dict_set.induct)
  case (2 k v k' v' xs)
  then show ?case using keys_dict_set [of k v xs] by auto
qed simp

lemma map_of_dict_del [simp]: "map_of (dict_del k xs) = (map_of xs)(k := None)"
  unfolding dict_del_def by (induction xs) auto

lemma distinct_dict_del: "distinct (map fst xs) \<Longrightarrow> distinct (map fst (dict_del k xs))"
  unfolding dict_del_def by (induction xs) auto

section \<open>Strings\<close>

text \<open>\<open>str.upper\<close> and \<open>str.lower\<close> on ASCII, \<open>needle in haystack\<close>, \<open>startswith\<close> and \<open>endswith\<close>.\<close>

definition upper_char :: "char \<Rightarrow> char" where
  "upper_char c =
     (case map_of (zip ''abcdefghijklmnopqrstuvwxyz'' ''ABCDEFGHIJKLMNOPQRSTUVWXYZ'') c of
        None \<Rightarrow> c | Some d \<Rightarrow> d)"

definition str_upper :: "string \<Rightarrow> string" where
  "str_upper s = map upper_char s"

definition lower_char :: "char \<Rightarrow> char" where
  "lower_char c =
     (case map_of (zip ''ABCDEFGHIJKLMNOPQRSTUVWXYZ'' ''abcdefghijklmnopqrstuvwxyz'') c of
        None \<Rightarrow> c | Some d \<Rightarrow> d)"

definition str_lower :: "string \<Rightarrow> string" where
  "str_lower s = map lower_char s"

definition str_starts :: "string \<Rightarrow> string \<Rightarrow> bool" where
  "str_starts p s = (take (length p) s = p)"

fun str_contains :: "string \<Rightarrow> string \<Rightarrow> bool" where
  "str_contains p [] = (p = [])"
| "str_contains p (c # s) = (str_starts p (c # s) \<or> str_contains p s)"

definition str_ends :: "string \<Rightarrow> string \<Rightarrow> bool" where
  "str_ends p s = str_starts (rev p) (rev s)"

lemma str_starts_prefix: "str_starts p s \<longleftrightarrow> prefix p s"
  unfolding str_starts_def by (metis append_eq_conv_conj prefix_def)

lemma str_contains_sublist: "str_contains p s \<longleftrightarrow> sublist p s"
  by (induction p s rule: str_contains.induct) (auto simp: str_starts_prefix sublist_Cons_right)

lemma str_ends_suffix: "str_ends p s \<longleftrightarrow> suffix p s"
  by (simp add: str_ends_def str_starts_prefix suffix_to_prefix)

section \<open>Clamping\<close>

definition clamp :: "'a::linorder \<Rightarrow> 'a \<Rightarrow> 'a \<Rightarrow> 'a" where
  "clamp lo hi x = (if x < lo then lo else if hi < x then hi else x)"

lemma clamp_bounds:
  assumes "lo \<le> hi"
  shows "lo \<le> clamp lo hi x" and "clamp lo hi x \<le> hi"
  using assms by (auto simp: clamp_def)

lemma clamp_id [simp]: "lo \<le> x \<Longrightarrow> x \<le> hi \<Longrightarrow> clamp lo hi x = x"
  by (auto simp: clamp_def)

lemma clamp_mono: "lo \<le> hi \<Longrightarrow> x \<le> y \<Longrightarrow> clamp lo hi x \<le> clamp lo hi y"
  by (auto simp: clamp_def)

section \<open>The interface of a rounded number system\<close>

text \<open>
  Every arithmetic operation of \<open>Decimal\<close> and of \<open>float\<close> computes the exact result and
  rounds it once. The components rely on the rounding only through these laws: it is
  monotone, odd, the identity on what it produces, and never turns a positive number into zero.
  A value is \<open>representable\<close> when rounding leaves it alone; a bound by a representable
  constant survives rounding (\<open>rnd_le\<close>, \<open>rnd_ge\<close>), which is what keeps clamped and
  averaged quantities inside their documented ranges.
\<close>

locale rounding =
  fixes rnd :: "rat \<Rightarrow> rat"
  assumes rnd_mono: "x \<le> y \<Longrightarrow> rnd x \<le> rnd y"
    and rnd_idem: "rnd (rnd x) = rnd x"
    and rnd_minus: "rnd (- x) = - rnd x"
    and rnd_pos: "0 < x \<Longrightarrow> 0 < rnd x"
begin

lemma rnd_0: "rnd 0 = 0"
  using rnd_minus [of 0] by simp

lemma rnd_nonneg: "0 \<le> x \<Longrightarrow> 0 \<le> rnd x"
  using rnd_mono [of 0 x] by (simp add: rnd_0)

lemma rnd_nonpos: "x \<le> 0 \<Longrightarrow> rnd x \<le> 0"
  using rnd_mono [of x 0] by (simp add: rnd_0)

lemma rnd_le: "rnd c = c \<Longrightarrow> x \<le> c \<Longrightarrow> rnd x \<le> c"
  using rnd_mono [of x c] by simp

lemma rnd_ge: "rnd c = c \<Longrightarrow> c \<le> x \<Longrightarrow> c \<le> rnd x"
  using rnd_mono [of c x] by simp

lemma rnd_neg: "x < 0 \<Longrightarrow> rnd x < 0"
  using rnd_pos [of "- x"] by (simp add: rnd_minus)

lemma rnd_eq_0: "rnd x = 0 \<longleftrightarrow> x = 0"
  using rnd_pos [of x] rnd_neg [of x] rnd_0 by (cases x "0 :: rat" rule: linorder_cases) auto

lemma rnd_pos_iff: "0 < rnd x \<longleftrightarrow> 0 < x"
  using rnd_pos [of x] rnd_nonpos [of x] by (cases "0 < x") auto

lemma rnd_neg_iff: "rnd x < 0 \<longleftrightarrow> x < 0"
  using rnd_neg [of x] rnd_nonneg [of x] by (cases "x < 0") auto

lemma rnd_abs: "rnd \<bar>x\<bar> = \<bar>rnd x\<bar>"
proof (cases "0 \<le> x")
  case True
  then show ?thesis using rnd_nonneg [of x] by simp
next
  case False
  then show ?thesis using rnd_neg [of x] by (simp add: rnd_minus abs_of_neg)
qed

lemma rnd_abs_le: "rnd c = c \<Longrightarrow> \<bar>x\<bar> \<le> c \<Longrightarrow> \<bar>rnd x\<bar> \<le> c"
  using rnd_le [of c "\<bar>x\<bar>"] by (simp add: rnd_abs)

text \<open>
  The exponential moving average \<open>(1 - a) * prev + a * new\<close>, rounded after each operation,
  stays inside every symmetric or one-sided interval that holds both inputs, as long as
  the weights and the interval's ends scaled by them are representable.
\<close>

lemma rnd_ema_le:
  assumes "rnd (b * c) = b * c" "rnd (a * c) = a * c" "rnd c = c" "a + b = 1"
    and "0 \<le> a" "0 \<le> b" "x \<le> c" "y \<le> c"
  shows "rnd (rnd (b * x) + rnd (a * y)) \<le> c"
proof -
  have "rnd (b * x) \<le> b * c" "rnd (a * y) \<le> a * c"
    using assms by (auto intro!: rnd_le mult_left_mono)
  then have "rnd (b * x) + rnd (a * y) \<le> (a + b) * c" by (simp add: algebra_simps)
  then show ?thesis using assms by (auto intro: rnd_le)
qed

lemma rnd_ema_ge:
  assumes "rnd (b * c) = b * c" "rnd (a * c) = a * c" "rnd c = c" "a + b = 1"
    and "0 \<le> a" "0 \<le> b" "c \<le> x" "c \<le> y"
  shows "c \<le> rnd (rnd (b * x) + rnd (a * y))"
proof -
  have "b * c \<le> rnd (b * x)" "a * c \<le> rnd (a * y)"
    using assms by (auto intro!: rnd_ge mult_left_mono)
  then have "(a + b) * c \<le> rnd (b * x) + rnd (a * y)" by (simp add: algebra_simps)
  then show ?thesis using assms by (auto intro: rnd_ge)
qed

end

end
