(* ===== verification/Decimals.thy ===== *)
theory Decimals
  imports Prelude
begin

text \<open>
  The number systems of the program and the helpers of
  \<open>shared/python-common/src/moneymaker_common/decimal_utils.py\<close>. A \<open>Decimal\<close> or \<open>float\<close>
  is the rational number it denotes, and every operation rounds its exact result the way the
  language does: to 28 decimal digits or to 53 bits, ties to even. Both roundings are proved to
  satisfy the interface \<open>rounding\<close> of the prelude.
\<close>

section \<open>Rounding to the nearest integer, ties to even\<close>

definition round_half_even :: "rat \<Rightarrow> int" where
  "round_half_even y =
     (if y - of_int \<lfloor>y\<rfloor> < 1 / 2 then \<lfloor>y\<rfloor>
      else if 1 / 2 < y - of_int \<lfloor>y\<rfloor> then \<lfloor>y\<rfloor> + 1
      else if even \<lfloor>y\<rfloor> then \<lfloor>y\<rfloor> else \<lfloor>y\<rfloor> + 1)"

lemma round_half_even_of_int [simp]: "round_half_even (of_int n) = n"
  by (simp add: round_half_even_def)

lemma round_half_even_bounds: "\<lfloor>y\<rfloor> \<le> round_half_even y" "round_half_even y \<le> \<lfloor>y\<rfloor> + 1"
  by (simp_all add: round_half_even_def)

lemma round_half_even_mono:
  assumes "x \<le> y"
  shows "round_half_even x \<le> round_half_even y"
proof (cases "\<lfloor>x\<rfloor> = \<lfloor>y\<rfloor>")
  case True
  with assms show ?thesis by (simp add: round_half_even_def)
next
  case False
  with assms have "\<lfloor>x\<rfloor> + 1 \<le> \<lfloor>y\<rfloor>" using floor_mono [OF assms] by linarith
  then show ?thesis using round_half_even_bounds [of x] round_half_even_bounds [of y] by linarith
qed

lemma round_half_even_minus: "round_half_even (- y) = - round_half_even y"
proof (cases "y = of_int \<lfloor>y\<rfloor>")
  case True
  then have "round_half_even y = \<lfloor>y\<rfloor>" by (metis round_half_even_of_int)
  moreover have "round_half_even (- y) = - \<lfloor>y\<rfloor>"
    using True by (metis of_int_minus round_half_even_of_int)
  ultimately show ?thesis by simp
next
  case False
  then have fl: "\<lfloor>- y\<rfloor> = - \<lfloor>y\<rfloor> - 1"
    by (intro floor_unique) (use floor_correct [of y] in linarith)+
  show ?thesis
    unfolding round_half_even_def fl by (simp add: algebra_simps)
qed

lemma round_half_even_error: "\<bar>of_int (round_half_even y) - y\<bar> \<le> 1 / 2"
  using floor_correct [of y] by (simp add: round_half_even_def)

section \<open>Rounding to significant digits\<close>

fun ndigits :: "nat \<Rightarrow> nat \<Rightarrow> nat" where
  "ndigits b n = (if n = 0 \<or> b < 2 then 0 else Suc (ndigits b (n div b)))"

declare ndigits.simps [simp del]

lemma ndigits_bounds:
  assumes "2 \<le> b" "0 < n"
  shows "b ^ (ndigits b n - 1) \<le> n \<and> n < b ^ ndigits b n \<and> 0 < ndigits b n"
  using assms(2)
proof (induction n rule: less_induct)
  case (less n)
  show ?case
  proof (cases "n < b")
    case True
    then show ?thesis using less.prems assms by (simp add: ndigits.simps [of b n] ndigits.simps [of b 0])
  next
    case False
    let ?k = "ndigits b (n div b)"
    have pos: "0 < n div b" using False assms by (simp add: div_greater_zero_iff)
    have lt: "n div b < n" using assms less.prems by simp
    note IH = less.IH [OF lt pos]
    have nd: "ndigits b n = Suc ?k" using less.prems assms by (simp add: ndigits.simps [of b n])
    have "b * b ^ (?k - 1) \<le> b * (n div b)" using IH by simp
    also have "\<dots> \<le> n" by simp
    finally have lo: "b ^ ?k \<le> n" using IH by (cases ?k) auto
    have "n div b + 1 \<le> b ^ ?k" using IH by simp
    then have "b * (n div b + 1) \<le> b * b ^ ?k" by (intro mult_le_mono) auto
    moreover have "n < b * (n div b + 1)"
      using assms by (simp add: distrib_left) (metis dividend_less_times_div less_le_trans zero_less_numeral mult.commute add.commute)
    ultimately show ?thesis using lo nd by simp
  qed
qed


text \<open>
  \<open>expo b x\<close> is the position of the leading base-\<open>b\<close> digit of \<open>x\<close>: the digit counts of
  numerator and denominator give it up to one, a comparison decides.
\<close>

definition expo :: "nat \<Rightarrow> rat \<Rightarrow> int" where
  "expo b x =
     (let q = quotient_of \<bar>x\<bar>;
          k = int (ndigits b (nat (fst q))) - int (ndigits b (nat (snd q)))
      in if rat_of_nat b powi k \<le> \<bar>x\<bar> then k else k - 1)"

lemma ndigits_bounds_rat:
  assumes "2 \<le> b" "0 < n"
  shows "rat_of_nat b powi (int (ndigits b n) - 1) \<le> rat_of_nat n"
    and "rat_of_nat n < rat_of_nat b powi int (ndigits b n)"
proof -
  note B = ndigits_bounds [OF assms]
  have eq: "int (ndigits b n) - 1 = int (ndigits b n - 1)" using B by simp
  have "rat_of_nat (b ^ (ndigits b n - 1)) \<le> rat_of_nat n" using B by (simp only: of_nat_le_iff)
  then show "rat_of_nat b powi (int (ndigits b n) - 1) \<le> rat_of_nat n"
    unfolding eq power_int_of_nat by simp
  have "rat_of_nat n < rat_of_nat (b ^ ndigits b n)" using B by (simp only: of_nat_less_iff)
  then show "rat_of_nat n < rat_of_nat b powi int (ndigits b n)"
    unfolding power_int_of_nat by simp
qed

lemma expo_bounds:
  assumes b: "2 \<le> b" and x: "x \<noteq> 0"
  shows "rat_of_nat b powi expo b x \<le> \<bar>x\<bar>"
    and "\<bar>x\<bar> < rat_of_nat b powi (expo b x + 1)"
proof -
  let ?B = "rat_of_nat b"
  obtain n d where q: "quotient_of \<bar>x\<bar> = (n, d)" by fastforce
  then have d: "0 < d" and xe: "\<bar>x\<bar> = of_int n / of_int d"
    using quotient_of_denom_pos quotient_of_div by blast+
  have n: "0 < n" using x d xe by (metis of_int_0_less_iff zero_less_abs_iff zero_less_divide_iff not_less_iff_gr_or_eq)
  let ?m = "nat n" and ?e = "nat d"
  have x2: "\<bar>x\<bar> = rat_of_nat ?m / rat_of_nat ?e" using xe n d by simp
  let ?i = "int (ndigits b ?m)" and ?j = "int (ndigits b ?e)"
  have Bp: "0 < ?B" "1 < ?B" using b by auto
  note M = ndigits_bounds_rat [OF b, of ?m] and E = ndigits_bounds_rat [OF b, of ?e]
  have mp: "0 < ?m" and ep: "0 < ?e" using n d by auto
  have "?B powi (?i - 1) / ?B powi ?j \<le> \<bar>x\<bar>"
    unfolding x2 using M(1) [OF mp] E(2) [OF ep] Bp ep by (intro frac_le) auto
  moreover have "?B powi (?i - 1 - ?j) = ?B powi (?i - 1) / ?B powi ?j"
    by (rule power_int_diff) (use Bp in simp)
  moreover have "?i - 1 - ?j = ?i - ?j - 1" by simp
  ultimately have lo: "?B powi (?i - ?j - 1) \<le> \<bar>x\<bar>" by metis
  have "\<bar>x\<bar> < ?B powi ?i / ?B powi (?j - 1)"
    unfolding x2 using M(2) [OF mp] E(1) [OF ep] Bp mp by (intro frac_less) auto
  moreover have "?B powi (?i - (?j - 1)) = ?B powi ?i / ?B powi (?j - 1)"
    by (rule power_int_diff) (use Bp in simp)
  moreover have "?i - (?j - 1) = ?i - ?j + 1" by simp
  ultimately have hi: "\<bar>x\<bar> < ?B powi (?i - ?j + 1)" by metis
  show "?B powi expo b x \<le> \<bar>x\<bar>" and "\<bar>x\<bar> < ?B powi (expo b x + 1)"
    using lo hi by (auto simp: expo_def q Let_def not_le)
qed

definition round_sig :: "nat \<Rightarrow> nat \<Rightarrow> rat \<Rightarrow> rat" where
  "round_sig b p x =
     (if x = 0 then 0
      else let u = rat_of_nat b powi (expo b x - int p + 1)
           in of_int (round_half_even (x / u)) * u)"


text \<open>
  The unit in the last place divides every power of the base above it, so the powers that
  bound the digit block are fixed points and the block's image stays between them.
\<close>

lemma round_unit_bounds:
  assumes b: "2 \<le> b" and p: "0 < p" and x: "0 < x"
  defines "u \<equiv> rat_of_nat b powi (expo b x - int p + 1)"
  shows "0 < u" "rat_of_nat b powi expo b x \<le> of_int (round_half_even (x / u)) * u"
    and "of_int (round_half_even (x / u)) * u \<le> rat_of_nat b powi (expo b x + 1)"
proof -
  let ?B = "rat_of_nat b"
  have Bp: "0 < ?B" using b by simp
  show u: "0 < u" unfolding u_def using Bp by (rule zero_less_power_int)
  have pw: "?B powi (expo b x) = of_int (int b ^ (p - 1)) * u"
    "?B powi (expo b x + 1) = of_int (int b ^ p) * u"
  proof -
    have "?B powi (expo b x) = ?B powi (int (p - 1) + (expo b x - int p + 1))" using p by simp
    also have "\<dots> = ?B powi int (p - 1) * u" unfolding u_def by (rule power_int_add) (use Bp in simp)
    finally show "?B powi (expo b x) = of_int (int b ^ (p - 1)) * u" by simp
    have "?B powi (expo b x + 1) = ?B powi (int p + (expo b x - int p + 1))" by simp
    also have "\<dots> = ?B powi int p * u" unfolding u_def by (rule power_int_add) (use Bp in simp)
    finally show "?B powi (expo b x + 1) = of_int (int b ^ p) * u" by simp
  qed
  have "of_int (int b ^ (p - 1)) \<le> x / u" "x / u \<le> of_int (int b ^ p)"
    using expo_bounds [OF b, of x] x u unfolding pw by (auto simp: pos_le_divide_eq pos_divide_le_eq)
  then have "int b ^ (p - 1) \<le> round_half_even (x / u)" "round_half_even (x / u) \<le> int b ^ p"
    using round_half_even_mono round_half_even_of_int by metis+
  then have "of_int (int b ^ (p - 1)) \<le> (of_int (round_half_even (x / u)) :: rat)"
    "(of_int (round_half_even (x / u)) :: rat) \<le> of_int (int b ^ p)"
    by (simp_all only: of_int_le_iff)
  then show "?B powi expo b x \<le> of_int (round_half_even (x / u)) * u"
    and "of_int (round_half_even (x / u)) * u \<le> ?B powi (expo b x + 1)"
    unfolding pw using u by (auto intro!: mult_right_mono simp del: of_int_power)
qed

lemma expo_mono:
  assumes "2 \<le> b" "0 < x" "x \<le> y"
  shows "expo b x \<le> expo b y"
proof (rule ccontr)
  assume "\<not> ?thesis"
  then have "expo b y + 1 \<le> expo b x" by simp
  then have "rat_of_nat b powi (expo b y + 1) \<le> rat_of_nat b powi expo b x"
    using assms by (intro power_int_increasing) auto
  then show False using expo_bounds [of b x] expo_bounds [of b y] assms by auto
qed

lemma expo_minus [simp]: "expo b (- x) = expo b x"
  by (simp add: expo_def)

lemma round_sig_0 [simp]: "round_sig b p 0 = 0"
  by (simp add: round_sig_def)

lemma round_sig_minus: "round_sig b p (- x) = - round_sig b p x"
  by (simp add: round_sig_def Let_def round_half_even_minus)

lemma round_sig_pos:
  assumes "2 \<le> b" "0 < p" "0 < x"
  shows "0 < round_sig b p x"
proof -
  have "0 < rat_of_nat b powi expo b x" using assms by (intro zero_less_power_int) auto
  also have "\<dots> \<le> round_sig b p x"
    using round_unit_bounds(2) [OF assms] assms by (simp add: round_sig_def Let_def)
  finally show ?thesis .
qed

lemma round_sig_mono_pos:
  assumes b: "2 \<le> b" and p: "0 < p" and x: "0 < x" and xy: "x \<le> y"
  shows "round_sig b p x \<le> round_sig b p y"
proof (cases "expo b x = expo b y")
  case True
  let ?u = "rat_of_nat b powi (expo b y - int p + 1)"
  have u: "0 < ?u" using b by (intro zero_less_power_int) auto
  then have "x / ?u \<le> y / ?u" using xy by (simp add: divide_right_mono)
  then have "of_int (round_half_even (x / ?u)) * ?u \<le> of_int (round_half_even (y / ?u)) * ?u"
    using u by (intro mult_right_mono) (auto intro: round_half_even_mono)
  then show ?thesis using x xy True by (simp add: round_sig_def Let_def)
next
  case False
  then have le: "expo b x + 1 \<le> expo b y" using expo_mono [OF b x xy] by simp
  have "round_sig b p x \<le> rat_of_nat b powi (expo b x + 1)"
    using round_unit_bounds(3) [OF b p x] x by (simp add: round_sig_def Let_def)
  also have "\<dots> \<le> rat_of_nat b powi expo b y"
    using b le by (intro power_int_increasing) auto
  also have "\<dots> \<le> round_sig b p y"
    using round_unit_bounds(2) [OF b p, of y] x xy by (simp add: round_sig_def Let_def)
  finally show ?thesis .
qed

lemma round_sig_mono:
  assumes b: "2 \<le> b" and p: "0 < p" and xy: "x \<le> y"
  shows "round_sig b p x \<le> round_sig b p y"
proof -
  consider "0 < x" | "x \<le> 0" "0 \<le> y" | "y < 0" using xy by linarith
  then show ?thesis
  proof cases
    case 1
    then show ?thesis using round_sig_mono_pos [OF b p _ xy] by simp
  next
    case 2
    have "0 \<le> round_sig b p y" if "y \<noteq> 0"
      using round_sig_pos [OF b p, of y] that 2 by simp
    moreover have "round_sig b p x \<le> 0" if "x \<noteq> 0"
      using round_sig_pos [OF b p, of "- x"] that 2 by (simp add: round_sig_minus)
    ultimately show ?thesis by (cases "x = 0"; cases "y = 0") auto
  next
    case 3
    then show ?thesis
      using round_sig_mono_pos [OF b p, of "- y" "- x"] xy by (simp add: round_sig_minus)
  qed
qed

text \<open>A number with at most \<open>p\<close> digits is left alone.\<close>

lemma round_sig_exact:
  assumes b: "2 \<le> b" and m: "\<bar>m\<bar> < int b ^ p" and x: "x = of_int m * rat_of_nat b powi k"
  shows "round_sig b p x = x"
proof (cases "x = 0")
  case False
  let ?B = "rat_of_nat b"
  have Bp: "0 < ?B" "1 < ?B" using b by auto
  have "\<bar>x\<bar> = of_int \<bar>m\<bar> * ?B powi k" using Bp unfolding x by (simp add: abs_mult zero_less_power_int less_imp_le)
  also have "\<dots> < of_int (int b ^ p) * ?B powi k"
    using m Bp by (intro mult_strict_right_mono) (simp_all only: of_int_less_iff zero_less_power_int)
  also have "\<dots> = ?B powi (int p + k)"
    using Bp power_int_add [of ?B "int p" k] by simp
  finally have "?B powi expo b x < ?B powi (int p + k)"
    using expo_bounds(1) [OF b False] by simp
  then have lt: "expo b x < int p + k" using Bp power_int_increasing [of "int p + k" "expo b x" ?B]
    by (meson not_le less_imp_le)
  define e where "e = expo b x - int p + 1"
  have "?B powi k = ?B powi (int (nat (k - e)) + e)" using lt by (simp add: e_def)
  also have "\<dots> = ?B powi int (nat (k - e)) * ?B powi e"
    by (rule power_int_add) (use Bp in simp)
  finally have k: "?B powi k = of_int (int b ^ nat (k - e)) * ?B powi e"
    by (simp only: power_int_of_nat of_int_power of_int_of_nat_eq)
  have xe: "x = of_int (m * int b ^ nat (k - e)) * ?B powi e"
    using x unfolding k by (simp only: of_int_mult ac_simps)
  then have "x / ?B powi e = of_int (m * int b ^ nat (k - e))"
    using zero_less_power_int [OF Bp(1), of e] b by simp
  then have "round_half_even (x / ?B powi e) = m * int b ^ nat (k - e)"
    by (simp only: round_half_even_of_int)
  then have "round_sig b p x = of_int (m * int b ^ nat (k - e)) * ?B powi e"
    using False by (simp only: round_sig_def Let_def if_False e_def)
  then show ?thesis using xe by (simp only:)
qed simp

lemma round_sig_form:
  assumes b: "2 \<le> b" and p: "0 < p"
  shows "round_sig b p (round_sig b p x) = round_sig b p x"
proof -
  have pos: "round_sig b p (round_sig b p x) = round_sig b p x" if x: "0 < x" for x
  proof -
    let ?u = "rat_of_nat b powi (expo b x - int p + 1)"
    let ?m = "round_half_even (x / ?u)"
    have r: "round_sig b p x = of_int ?m * ?u" using x by (simp add: round_sig_def Let_def)
    note R = round_unit_bounds [OF b p x]
    show ?thesis
    proof (cases "?m < int b ^ p")
      case True
      have "0 < of_int ?m * ?u" using round_sig_pos [OF b p x] r by simp
      then have "0 < ?m" using R(1) by (simp add: zero_less_mult_iff)
      then show ?thesis using round_sig_exact [OF b _ r] True by simp
    next
      case False
      have "of_int ?m * ?u \<le> of_int (int b ^ p) * ?u"
        using R(3) power_int_add [of "rat_of_nat b" "int p" "expo b x - int p + 1"] b by simp
      then have "?m \<le> int b ^ p" using R(1) by (simp del: of_int_power)
      then have "round_sig b p x = of_int 1 * rat_of_nat b powi (expo b x + 1)"
        using False r power_int_add [of "rat_of_nat b" "int p" "expo b x - int p + 1"] b by simp
      then show ?thesis by (rule round_sig_exact [OF b, rotated]) (use b p in simp)
    qed
  qed
  show ?thesis
    using pos [of x] pos [of "- x"] by (cases x "0 :: rat" rule: linorder_cases) (auto simp: round_sig_minus)
qed


section \<open>The two number systems\<close>

text \<open>
  \<open>Decimal\<close> under the default context (\<open>prec=28\<close>, \<open>ROUND_HALF_EVEN\<close>, the
  \<open>FINANCIAL_CONTEXT\<close> of \<open>decimal_utils.py\<close>) and IEEE binary64. Exponent range, signed
  zeros and trailing zeros are not represented: a value is the rational it denotes.
\<close>

type_synonym decimal = rat

definition dec_round :: "rat \<Rightarrow> decimal" where
  "dec_round = round_sig 10 28"

definition flt_round :: "rat \<Rightarrow> rat" where
  "flt_round = round_sig 2 53"

interpretation dec: rounding dec_round
  by unfold_locales
    (auto simp: dec_round_def round_sig_minus intro: round_sig_mono round_sig_form round_sig_pos)

interpretation flt: rounding flt_round
  by unfold_locales
    (auto simp: flt_round_def round_sig_minus intro: round_sig_mono round_sig_form round_sig_pos)

text \<open>The relative error of one rounding is at most half a unit of the last digit.\<close>

lemma round_sig_error:
  assumes b: "2 \<le> b" and p: "0 < p"
  shows "\<bar>round_sig b p x - x\<bar> * (2 * rat_of_nat b ^ (p - 1)) \<le> \<bar>x\<bar>"
proof (cases "x = 0")
  case False
  let ?B = "rat_of_nat b"
  define u where "u = ?B powi (expo b x - int p + 1)"
  have Bp: "0 < ?B" using b by simp
  have u: "0 < u" unfolding u_def using Bp by (rule zero_less_power_int)
  have r: "round_sig b p x = of_int (round_half_even (x / u)) * u" using False by (simp add: round_sig_def u_def Let_def)
  have "\<bar>of_int (round_half_even (x / u)) - x / u\<bar> * u \<le> 1 / 2 * u"
    using round_half_even_error u by (intro mult_right_mono) auto
  moreover have "\<bar>round_sig b p x - x\<bar> = \<bar>of_int (round_half_even (x / u)) - x / u\<bar> * u"
  proof -
    have "of_int (round_half_even (x / u)) * u - x = (of_int (round_half_even (x / u)) - x / u) * u"
      using u by (simp add: left_diff_distrib)
    then show ?thesis unfolding r using u by (simp add: abs_mult)
  qed
  ultimately have e: "\<bar>round_sig b p x - x\<bar> \<le> u / 2" by simp
  have "?B ^ (p - 1) * u = ?B powi int (p - 1) * ?B powi (expo b x - int p + 1)" by (simp add: u_def)
  also have "\<dots> = ?B powi (int (p - 1) + (expo b x - int p + 1))" by (rule power_int_add [symmetric]) (use Bp in simp)
  also have "\<dots> = ?B powi expo b x" using p by simp
  also have "\<dots> \<le> \<bar>x\<bar>" using expo_bounds(1) [OF b False] .
  finally have w: "?B ^ (p - 1) * u \<le> \<bar>x\<bar>" .
  have "\<bar>round_sig b p x - x\<bar> * (2 * ?B ^ (p - 1)) \<le> u / 2 * (2 * ?B ^ (p - 1))"
    using e Bp by (intro mult_right_mono) auto
  then show ?thesis using w by (simp add: ac_simps)
qed simp

lemma dec_round_error: "\<bar>dec_round x - x\<bar> \<le> \<bar>x\<bar> / 10"
  using round_sig_error [of 10 28 x] unfolding dec_round_def by simp

lemma dec_round_grid:
  assumes "x * 10 ^ k = of_int m" "\<bar>m\<bar> < 10 ^ 28"
  shows "dec_round x = x"
proof -
  have "x = of_int m * rat_of_nat 10 powi (- int k)"
    using assms(1) by (simp add: power_int_minus field_simps)
  then show ?thesis unfolding dec_round_def by (rule round_sig_exact [rotated -1]) (use assms in simp_all)
qed

lemma flt_round_int:
  assumes "\<bar>m\<bar> < 2 ^ 53"
  shows "flt_round (of_int m) = of_int m"
  unfolding flt_round_def
  by (rule round_sig_exact [where m = m and k = 0]) (use assms in simp_all)

lemma flt_round_grid:
  assumes "x * 2 ^ k = of_int m" "\<bar>m\<bar> < 2 ^ 53"
  shows "flt_round x = x"
proof -
  have "x = of_int m * rat_of_nat 2 powi (- int k)"
    using assms(1) by (simp add: power_int_minus field_simps)
  then show ?thesis unfolding flt_round_def by (rule round_sig_exact [rotated -1]) (use assms in simp_all)
qed

lemma flt_round_literal [num_eval]:
  "flt_round 0 = 0" "flt_round 1 = 1" "flt_round (1 / 2) = 1 / 2" "flt_round (1 / 4) = 1 / 4" "flt_round (3 / 2) = 3 / 2"
  using flt_round_grid [of 1 0 1] flt_round_grid [of "1 / 2" 1 1] flt_round_grid [of "1 / 4" 2 1]
    flt_round_grid [of "3 / 2" 1 3] flt_round_grid [of 0 0 0] by simp_all

lemma flt_round_numeral [num_eval]:
  "(numeral n :: int) < 2 ^ 53 \<Longrightarrow> flt_round (numeral n) = numeral n"
  using flt_round_int [of "numeral n"] by simp

text \<open>Literals with at most twelve decimals and sixteen integer digits are exact.\<close>

lemma dec_round_ratio:
  fixes n d :: int
  assumes d: "0 < d" and dvd: "d dvd 10 ^ k" and lt: "\<bar>n\<bar> * 10 ^ k < 10 ^ 28 * d"
  shows "dec_round (of_int n / of_int d) = of_int n / of_int d"
proof -
  obtain c where c: "10 ^ k = d * c" using dvd by (rule dvdE)
  have c0: "0 < c" using c d by (metis zero_less_mult_pos zero_less_numeral zero_less_power)
  show ?thesis
  proof (rule dec_round_grid)
    have "(10 :: rat) ^ k = of_int (10 ^ k)" by simp
    also have "\<dots> = of_int d * of_int c" unfolding c by simp
    finally show "of_int n / of_int d * 10 ^ k = (of_int (n * c) :: rat)" using d by simp
    have "(\<bar>n\<bar> * c) * d < 10 ^ 28 * d" using lt unfolding c by (simp only: ac_simps)
    then have "\<bar>n\<bar> * c < 10 ^ 28" using d by (rule mult_right_less_imp_less [OF _ less_imp_le])
    then show "\<bar>n * c\<bar> < 10 ^ 28" using c0 by (simp only: abs_mult abs_of_pos)
  qed
qed

lemma dec_round_divide [num_eval]:
  assumes "(10 :: int) ^ 12 mod numeral d = 0" "(numeral n :: int) * 10 ^ 12 < 10 ^ 28 * numeral d"
  shows "dec_round (numeral n / numeral d) = numeral n / numeral d"
  using dec_round_ratio [of "numeral d" 12 "numeral n"] assms
  by (simp only: of_int_numeral mod_eq_0_iff_dvd abs_numeral zero_less_numeral)

lemma dec_round_numeral [num_eval]:
  "(numeral n :: int) < 10 ^ 28 \<Longrightarrow> dec_round (numeral n) = numeral n"
  by (rule dec_round_grid [where k = 0 and m = "numeral n"]) auto

lemma dec_round_1_divide [num_eval]:
  "(10 :: int) ^ 12 mod numeral d = 0 \<Longrightarrow> dec_round (1 / numeral d) = 1 / numeral d"
proof -
  assume "(10 :: int) ^ 12 mod numeral d = 0"
  then have "numeral d dvd (10 :: int) ^ 12" by (simp only: mod_eq_0_iff_dvd)
  moreover have "\<bar>1 :: int\<bar> * 10 ^ 12 < 10 ^ 28 * numeral d"
  proof -
    have "\<bar>1 :: int\<bar> * 10 ^ 12 < 10 ^ 28 * 1" by simp
    also have "\<dots> \<le> 10 ^ 28 * numeral d"
      by (rule mult_left_mono) (simp_all only: one_le_numeral zero_le_power zero_le_numeral)
    finally show ?thesis .
  qed
  ultimately have "dec_round (of_int 1 / of_int (numeral d)) = of_int 1 / of_int (numeral d)"
    by (rule dec_round_ratio [OF zero_less_numeral])
  then show ?thesis by (simp only: of_int_numeral of_int_1)
qed

lemma dec_round_0_1 [simp, num_eval]: "dec_round 0 = 0" "dec_round 1 = 1"
  using dec_round_grid [of 1 0 1] by (auto simp: dec.rnd_0)

lemmas dec_round_minus [num_eval] = dec.rnd_minus

lemma dec_round_minus_divide [num_eval]: "dec_round (- x / y) = - dec_round (x / y)"
  by (simp add: dec.rnd_minus)


text \<open>Floors and half-even rounding of literal fractions.\<close>

lemma floor_literal [num_eval]:
  "\<lfloor>numeral a / numeral b :: rat\<rfloor> = numeral a div numeral b"
  "\<lfloor>1 / numeral b :: rat\<rfloor> = 1 div numeral b"
  "\<lfloor>- numeral a / numeral b :: rat\<rfloor> = - numeral a div numeral b"
  "\<lfloor>- (numeral a / numeral b) :: rat\<rfloor> = - numeral a div numeral b"
  using floor_divide_of_int_eq [of "numeral a" "numeral b", where ?'a = rat]
    floor_divide_of_int_eq [of 1 "numeral b", where ?'a = rat]
    floor_divide_of_int_eq [of "- numeral a" "numeral b", where ?'a = rat]
  by simp_all

lemma round_half_even_literal [num_eval]:
  "round_half_even (numeral n) = numeral n" "round_half_even 0 = 0" "round_half_even 1 = 1"
  using round_half_even_of_int [of "numeral n"] round_half_even_of_int [of 0] round_half_even_of_int [of 1]
  by simp_all

lemmas round_half_even_divide [num_eval] =
  round_half_even_def [of "numeral a / numeral b" for a b]
  round_half_even_def [of "1 / numeral b" for b]

lemmas round_half_even_neg [num_eval] = round_half_even_minus

section \<open>Decimal operations\<close>

text \<open>
  Comparisons, \<open>max\<close> and \<open>min\<close> are exact; the operators round. \<open>dec_div\<close> is \<open>/\<close> with a
  divisor that the code has already shown to be nonzero, \<open>dec_div_checked\<close> is \<open>/\<close> where it may be
  zero. \<open>quantize n\<close> rounds to \<open>n\<close> places and raises \<open>InvalidOperation\<close> when the result would
  need more than 28 digits.
\<close>

definition dec_add :: "decimal \<Rightarrow> decimal \<Rightarrow> decimal" where
  "dec_add x y = dec_round (x + y)"

definition dec_sub :: "decimal \<Rightarrow> decimal \<Rightarrow> decimal" where
  "dec_sub x y = dec_round (x - y)"

definition dec_mul :: "decimal \<Rightarrow> decimal \<Rightarrow> decimal" where
  "dec_mul x y = dec_round (x * y)"

definition dec_div :: "decimal \<Rightarrow> decimal \<Rightarrow> decimal" where
  "dec_div x y = dec_round (x / y)"

definition dec_div_checked :: "decimal \<Rightarrow> decimal \<Rightarrow> decimal result" where
  "dec_div_checked x y = (if y = 0 then Inl ZeroDivisionError else Inr (dec_div x y))"

definition dec_abs :: "decimal \<Rightarrow> decimal" where
  "dec_abs x = dec_round \<bar>x\<bar>"

definition dec_neg :: "decimal \<Rightarrow> decimal" where
  "dec_neg x = dec_round (- x)"

definition dec_sum :: "decimal list \<Rightarrow> decimal" where
  "dec_sum xs = foldl dec_add 0 xs"

definition quantize :: "nat \<Rightarrow> decimal \<Rightarrow> decimal result" where
  "quantize n x =
     (let m = round_half_even (x * 10 ^ n)
      in if 10 ^ 28 \<le> \<bar>m\<bar> then Inl InvalidOperation else Inr (of_int m / 10 ^ n))"

lemmas dec_ops = dec_add_def dec_sub_def dec_mul_def dec_div_def dec_abs_def dec_neg_def

text \<open>A value with at most \<open>n\<close> decimal places.\<close>

definition on_grid :: "nat \<Rightarrow> decimal \<Rightarrow> bool" where
  "on_grid n x \<longleftrightarrow> (\<exists>m. x * 10 ^ n = of_int m)"

lemma on_gridI: "x * 10 ^ n = of_int m \<Longrightarrow> on_grid n x"
  unfolding on_grid_def by blast

lemma on_grid_add: "on_grid n x \<Longrightarrow> on_grid n y \<Longrightarrow> on_grid n (x + y)"
  unfolding on_grid_def by (metis distrib_right of_int_add)

lemma on_grid_diff: "on_grid n x \<Longrightarrow> on_grid n y \<Longrightarrow> on_grid n (x - y)"
  unfolding on_grid_def by (metis left_diff_distrib of_int_diff)

lemma on_grid_minus: "on_grid n x \<Longrightarrow> on_grid n (- x)"
  unfolding on_grid_def by (metis mult_minus_left of_int_minus)

lemma quantize_grid: "quantize n x = Inr y \<Longrightarrow> on_grid n y"
  by (auto simp: quantize_def Let_def on_grid_def split: if_splits)

lemma quantize_exact:
  assumes "on_grid n x" "\<bar>x * 10 ^ n\<bar> < 10 ^ 28"
  shows "quantize n x = Inr x"
proof -
  obtain m where m: "x * 10 ^ n = of_int m" using assms(1) by (auto simp: on_grid_def)
  then have "\<bar>of_int m :: rat\<bar> < of_int (10 ^ 28)" using assms(2) by simp
  then have "\<bar>m\<bar> < 10 ^ 28" by (simp only: of_int_abs [symmetric] of_int_less_iff)
  moreover have "of_int m / 10 ^ n = x" using m by (simp add: field_simps)
  ultimately show ?thesis by (simp add: quantize_def m)
qed

lemma quantize_mono:
  assumes "quantize n x = Inr a" "quantize n y = Inr b" "x \<le> y"
  shows "a \<le> b"
proof -
  have "round_half_even (x * 10 ^ n) \<le> round_half_even (y * 10 ^ n)"
    using assms(3) by (intro round_half_even_mono mult_right_mono) auto
  then show ?thesis using assms(1,2) by (auto simp: quantize_def Let_def divide_right_mono split: if_splits)
qed

lemma quantize_ge:
  assumes "quantize n x = Inr y" "on_grid n c" "c \<le> x"
  shows "c \<le> y"
proof -
  obtain m where m: "c * 10 ^ n = of_int m" using assms(2) by (auto simp: on_grid_def)
  have "round_half_even (c * 10 ^ n) \<le> round_half_even (x * 10 ^ n)"
    using assms(3) by (intro round_half_even_mono mult_right_mono) auto
  then have "of_int m \<le> (of_int (round_half_even (x * 10 ^ n)) :: rat)" by (simp add: m)
  then have "c * 10 ^ n \<le> y * 10 ^ n"
    using assms(1) by (auto simp: quantize_def Let_def m split: if_splits)
  then show ?thesis by simp
qed

lemma quantize_le:
  assumes "quantize n x = Inr y" "on_grid n c" "x \<le> c"
  shows "y \<le> c"
proof -
  obtain m where m: "c * 10 ^ n = of_int m" using assms(2) by (auto simp: on_grid_def)
  have "round_half_even (x * 10 ^ n) \<le> round_half_even (c * 10 ^ n)"
    using assms(3) by (intro round_half_even_mono mult_right_mono) auto
  then have "(of_int (round_half_even (x * 10 ^ n)) :: rat) \<le> of_int m" by (simp add: m)
  then have "y * 10 ^ n \<le> c * 10 ^ n"
    using assms(1) by (auto simp: quantize_def Let_def m split: if_splits)
  then show ?thesis by simp
qed

lemma quantize_error:
  assumes "quantize n x = Inr y"
  shows "\<bar>y - x\<bar> * 10 ^ n \<le> 1 / 2"
proof -
  have "y * 10 ^ n = of_int (round_half_even (x * 10 ^ n))"
    using assms by (auto simp: quantize_def Let_def split: if_splits)
  then have "\<bar>y * 10 ^ n - x * 10 ^ n\<bar> \<le> 1 / 2"
    using round_half_even_error [of "x * 10 ^ n"] by simp
  then show ?thesis by (simp add: abs_mult left_diff_distrib [symmetric])
qed

lemma quantize_defined:
  assumes "\<bar>x\<bar> * 10 ^ n \<le> 10 ^ 28 - 1"
  shows "\<exists>y. quantize n x = Inr y"
proof -
  let ?m = "round_half_even (x * 10 ^ n)"
  have le: "\<bar>x * 10 ^ n\<bar> \<le> of_int (10 ^ 28 - 1)" using assms by (simp add: abs_mult)
  have "x * 10 ^ n \<le> of_int (10 ^ 28 - 1)" "of_int (- (10 ^ 28 - 1)) \<le> x * 10 ^ n"
    using abs_le_D1 [OF le] abs_le_D2 [OF le] by (simp_all only: of_int_minus minus_le_iff)
  then have "?m \<le> 10 ^ 28 - 1" "- (10 ^ 28 - 1) \<le> ?m"
    using round_half_even_mono round_half_even_of_int by metis+
  then have "\<bar>?m\<bar> < 10 ^ 28" by linarith
  then show ?thesis by (simp add: quantize_def Let_def)
qed

section \<open>Helpers of decimal\_utils.py\<close>

definition calculate_pips :: "decimal \<Rightarrow> decimal \<Rightarrow> decimal" where
  "calculate_pips price_diff pip_size = (if pip_size = 0 then 0 else dec_div price_diff pip_size)"

definition position_value :: "decimal \<Rightarrow> decimal \<Rightarrow> decimal \<Rightarrow> decimal" where
  "position_value lots price contract_size = dec_mul (dec_mul lots price) contract_size"

definition calculate_lot_size :: "decimal \<Rightarrow> decimal \<Rightarrow> decimal \<Rightarrow> decimal" where
  "calculate_lot_size risk_amount stop_loss_pips pip_value =
     (if stop_loss_pips = 0 \<or> pip_value = 0 then 0
      else dec_div risk_amount (dec_mul stop_loss_pips pip_value))"

definition pct_change :: "decimal \<Rightarrow> decimal \<Rightarrow> decimal" where
  "pct_change old_value new_value =
     (if old_value = 0 then 0
      else dec_mul (dec_div (dec_sub new_value old_value) old_value) 100)"

lemma dec_mul_pos_iff: "0 < x \<Longrightarrow> 0 < dec_mul x y \<longleftrightarrow> 0 < y"
  by (simp add: dec_mul_def dec.rnd_pos_iff zero_less_mult_iff)

lemma dec_div_pos_iff: "0 < y \<Longrightarrow> 0 < dec_div x y \<longleftrightarrow> 0 < x"
  by (simp add: dec_div_def dec.rnd_pos_iff zero_less_divide_iff)

lemma dec_sub_pos_iff: "0 < dec_sub x y \<longleftrightarrow> y < x"
  by (simp add: dec_sub_def dec.rnd_pos_iff)

lemma dec_sub_nonneg_iff: "0 \<le> dec_sub x y \<longleftrightarrow> y \<le> x"
  unfolding dec_sub_def using dec.rnd_neg_iff [of "x - y"] by linarith

lemma dec_sub_eq_0: "dec_sub x y = 0 \<longleftrightarrow> x = y"
  by (simp add: dec_sub_def dec.rnd_eq_0)

lemma dec_add_nonneg: "0 \<le> x \<Longrightarrow> 0 \<le> y \<Longrightarrow> 0 \<le> dec_add x y"
  by (simp add: dec_add_def dec.rnd_nonneg)

lemma dec_mul_nonneg: "0 \<le> x \<Longrightarrow> 0 \<le> y \<Longrightarrow> 0 \<le> dec_mul x y"
  by (simp add: dec_mul_def dec.rnd_nonneg)

lemma dec_div_nonneg: "0 \<le> x \<Longrightarrow> 0 \<le> y \<Longrightarrow> 0 \<le> dec_div x y"
  by (simp add: dec_div_def dec.rnd_nonneg)

lemma dec_add_mono: "x \<le> x' \<Longrightarrow> y \<le> y' \<Longrightarrow> dec_add x y \<le> dec_add x' y'"
  by (simp add: dec_add_def dec.rnd_mono add_mono)

lemma dec_sub_mono: "x \<le> x' \<Longrightarrow> y' \<le> y \<Longrightarrow> dec_sub x y \<le> dec_sub x' y'"
  by (simp add: dec_sub_def dec.rnd_mono diff_mono)

lemma dec_mul_mono: "0 \<le> x \<Longrightarrow> x \<le> x' \<Longrightarrow> 0 \<le> y \<Longrightarrow> y \<le> y' \<Longrightarrow> dec_mul x y \<le> dec_mul x' y'"
  by (simp add: dec_mul_def dec.rnd_mono mult_mono')

lemma dec_div_mono: "0 \<le> x \<Longrightarrow> x \<le> x' \<Longrightarrow> 0 < y \<Longrightarrow> y \<le> y' \<Longrightarrow> dec_div x y' \<le> dec_div x' y"
  by (simp add: dec_div_def dec.rnd_mono frac_le)

text \<open>\<open>pct_change\<close> is total and never reports a move in the wrong direction.\<close>

lemma pct_change_sign:
  assumes "0 < old_value"
  shows "0 < pct_change old_value new_value \<longleftrightarrow> old_value < new_value"
    and "pct_change old_value new_value = 0 \<longleftrightarrow> old_value = new_value"
  using assms
  by (auto simp: pct_change_def dec_ops dec.rnd_pos_iff dec.rnd_eq_0 zero_less_mult_iff zero_less_divide_iff)

end
