(* ===== verification/Market_Types.thy ===== *)
theory Market_Types
  imports Decimals
begin

text \<open>
  The vocabulary of \<open>moneymaker_common/enums.py\<close>, the candle of
  \<open>algo_engine/features/pipeline.py\<close>, the indicator dictionary and the trading signal that
  travels from the strategies to the broker.
\<close>

section \<open>Enumerations\<close>

datatype direction = BUY | SELL | HOLD

fun direction_value :: "direction \<Rightarrow> string" where
  "direction_value BUY = ''BUY''"
| "direction_value SELL = ''SELL''"
| "direction_value HOLD = ''HOLD''"

text \<open>
  \<open>Direction\<close> is a \<open>(str, Enum)\<close>: its members compare equal to their value, but \<open>str()\<close> of a
  member is \<open>Enum.__str__\<close>, the class name followed by the member's name.
\<close>

definition direction_str :: "direction \<Rightarrow> string" where
  "direction_str d = ''Direction.'' @ direction_value d"

text \<open>\<open>Direction(s)\<close>: the member with that value, or \<open>ValueError\<close>.\<close>

definition direction_of :: "string \<Rightarrow> direction result" where
  "direction_of s =
     (if s = ''BUY'' then Inr BUY else if s = ''SELL'' then Inr SELL
      else if s = ''HOLD'' then Inr HOLD else Inl ValueError)"

lemma direction_of_value [simp]: "direction_of (direction_value d) = Inr d"
  by (cases d) (simp_all add: direction_of_def)

datatype market_regime = TRENDING_UP | TRENDING_DOWN | RANGING | HIGH_VOLATILITY | REVERSAL

fun regime_value :: "market_regime \<Rightarrow> string" where
  "regime_value TRENDING_UP = ''trending_up''"
| "regime_value TRENDING_DOWN = ''trending_down''"
| "regime_value RANGING = ''ranging''"
| "regime_value HIGH_VOLATILITY = ''high_volatility''"
| "regime_value REVERSAL = ''reversal''"

lemma regime_value_inj: "regime_value r = regime_value r' \<longleftrightarrow> r = r'"
  by (cases r; cases r') simp_all

datatype source_tier = STATISTICAL_PRIMARY | TECHNICAL | SENTIMENT | RULE_BASED

section \<open>Candles and indicators\<close>

record ohlcv =
  bar_timestamp :: int
  bar_open :: decimal
  bar_high :: decimal
  bar_low :: decimal
  bar_close :: decimal
  bar_volume :: decimal

text \<open>
  The \<open>Decimal\<close>-valued entries of the feature dictionary; \<open>fget\<close> is \<open>features.get(key, default)\<close>.
\<close>

type_synonym features = "string \<rightharpoonup> decimal"

definition fget :: "features \<Rightarrow> string \<Rightarrow> decimal \<Rightarrow> decimal" where
  "fget f k d = (case f k of None \<Rightarrow> d | Some v \<Rightarrow> v)"

lemma fget_upd [simp]: "fget (f(k \<mapsto> v)) k d = v" "k \<noteq> k' \<Longrightarrow> fget (f(k \<mapsto> v)) k' d = fget f k' d"
  by (simp_all add: fget_def)

lemma fget_empty [simp]: "fget Map.empty k d = d"
  by (simp add: fget_def)

section \<open>Suggestions and signals\<close>

text \<open>
  \<open>SignalSuggestion\<close> of \<open>strategies/base.py\<close>; of its metadata only the two keys the engine and
  the generator read are kept.
\<close>

record suggestion =
  sug_direction :: direction
  sug_confidence :: decimal
  sug_strategy :: "string option"
  sug_order_type :: "string option"

text \<open>
  \<open>__post_init__\<close>: the constructor refuses an unknown direction and a confidence outside
  \<open>[0, 1]\<close>.
\<close>

definition SignalSuggestion ::
  "string \<Rightarrow> decimal \<Rightarrow> string option \<Rightarrow> string option \<Rightarrow> suggestion result" where
  "SignalSuggestion dir conf strat otype =
     rbind (direction_of dir) (\<lambda>d.
       if 0 \<le> conf \<and> conf \<le> 1
       then Inr \<lparr>sug_direction = d, sug_confidence = conf, sug_strategy = strat, sug_order_type = otype\<rparr>
       else Inl ValueError)"

definition valid_suggestion :: "suggestion \<Rightarrow> bool" where
  "valid_suggestion s \<longleftrightarrow> 0 \<le> sug_confidence s \<and> sug_confidence s \<le> 1"

lemma SignalSuggestion_valid:
  "SignalSuggestion dir conf st ot = Inr s \<Longrightarrow> valid_suggestion s"
  by (auto simp: SignalSuggestion_def valid_suggestion_def split: if_splits)

lemma SignalSuggestion_of_value:
  "SignalSuggestion (direction_value d) conf st ot =
     (if 0 \<le> conf \<and> conf \<le> 1
      then Inr \<lparr>sug_direction = d, sug_confidence = conf, sug_strategy = st, sug_order_type = ot\<rparr>
      else Inl ValueError)"
  by (simp add: SignalSuggestion_def)

text \<open>The dictionary built by \<open>SignalGenerator.generate_signal\<close> and completed by the engine.\<close>

record trading_signal =
  signal_id :: string
  sig_symbol :: string
  sig_direction :: direction
  sig_confidence :: decimal
  sig_entry_price :: decimal
  sig_stop_loss :: decimal
  sig_take_profit :: decimal
  sig_risk_reward :: decimal
  sig_order_type :: string
  sig_timestamp_ms :: int
  sig_lots :: "decimal option"
  sig_source_tier :: "source_tier option"

end
