(* ===== verification/Market_Filters.thy ===== *)
theory Market_Filters
  imports Market_Types
begin

text \<open>
  The four filters that the signal validator consults:
  \<open>features/sessions.py\<close>, \<open>features/spread_tracker.py\<close>, \<open>features/economic_calendar.py\<close> and
  \<open>signals/correlation.py\<close>. Where a filter answers with a formatted message, the answer here is
  its truth value and, for the calendar, the message.
\<close>

section \<open>Trading sessions\<close>

datatype trading_session = ASIAN | LONDON | US | LONDON_US_OVERLAP | OFF_HOURS

definition classify_session :: "int \<Rightarrow> trading_session" where
  "classify_session utc_hour =
     (if 0 \<le> utc_hour \<and> utc_hour < 8 then ASIAN
      else if 8 \<le> utc_hour \<and> utc_hour < 13 then LONDON
      else if 13 \<le> utc_hour \<and> utc_hour < 16 then LONDON_US_OVERLAP
      else if 16 \<le> utc_hour \<and> utc_hour < 21 then US
      else OFF_HOURS)"

text \<open>
  The boost is a \<open>float\<close> that its only caller turns into \<open>Decimal(str(boost))\<close>, the shortest
  decimal that reads back as the float: the literal of the table.
\<close>

fun confidence_boost :: "trading_session \<Rightarrow> decimal" where
  "confidence_boost ASIAN = - (5 / 100)"
| "confidence_boost LONDON = 0"
| "confidence_boost LONDON_US_OVERLAP = 5 / 100"
| "confidence_boost US = 0"
| "confidence_boost OFF_HOURS = - (10 / 100)"

section \<open>Spread percentiles\<close>

record spread_tracker =
  st_window :: nat
  st_reject_percentile :: int
  st_min_observations :: nat
  st_spreads :: "string \<rightharpoonup> decimal list"

definition new_spread_tracker :: "nat \<Rightarrow> int \<Rightarrow> nat \<Rightarrow> spread_tracker" where
  "new_spread_tracker w r n =
     \<lparr>st_window = w, st_reject_percentile = r, st_min_observations = n, st_spreads = Map.empty\<rparr>"

definition record_spread :: "spread_tracker \<Rightarrow> string \<Rightarrow> decimal \<Rightarrow> spread_tracker" where
  "record_spread st symbol spread =
     (let key = str_upper symbol;
          history = (case st_spreads st key of None \<Rightarrow> [] | Some h \<Rightarrow> h)
      in st\<lparr>st_spreads := (st_spreads st)(key \<mapsto> deque_append (st_window st) history spread)\<rparr>)"

text \<open>\<open>_compute_percentile\<close> of a nonempty history; an empty one divides by zero.\<close>

definition compute_percentile :: "decimal list \<Rightarrow> decimal \<Rightarrow> int result" where
  "compute_percentile history v =
     rbind (dec_div_checked (of_nat (length (filter (\<lambda>h. h < v) history))) (of_nat (length history))) (\<lambda>r.
       rbind (quantize 0 (dec_mul r 100)) (\<lambda>p. Inr \<lfloor>p\<rfloor>))"

definition spread_check :: "spread_tracker \<Rightarrow> string \<Rightarrow> decimal \<Rightarrow> bool result" where
  "spread_check st symbol current_spread =
     (case st_spreads st (str_upper symbol) of
        None \<Rightarrow> Inr True
      | Some history \<Rightarrow>
          if length history < st_min_observations st then Inr True
          else rbind (compute_percentile history current_spread) (\<lambda>p.
                 Inr (\<not> st_reject_percentile st \<le> p)))"

definition get_percentile :: "spread_tracker \<Rightarrow> string \<Rightarrow> decimal \<Rightarrow> int result" where
  "get_percentile st symbol spread =
     (case st_spreads st (str_upper symbol) of
        None \<Rightarrow> Inr 0
      | Some history \<Rightarrow> (if history = [] then Inr 0 else compute_percentile history spread))"

text \<open>\<open>get_stats\<close>: observations, minimum, maximum, median and 90th percentile, \<open>None\<close> when empty.\<close>

definition get_stats :: "spread_tracker \<Rightarrow> string \<Rightarrow> (nat \<times> decimal \<times> decimal \<times> decimal \<times> decimal) option" where
  "get_stats st symbol =
     (case st_spreads st (str_upper symbol) of
        None \<Rightarrow> None
      | Some history \<Rightarrow>
          if history = [] then None
          else let h = sort history; n = length h;
                   p90 = min (nat \<lfloor>flt_round (of_nat n * flt_round (9 / 10))\<rfloor>) (n - 1)
               in Some (n, h ! 0, h ! (n - 1), h ! (n div 2), h ! p90))"

section \<open>Economic calendar\<close>

definition EVENT_CURRENCY_MAP :: "string \<Rightarrow> string list" where
  "EVENT_CURRENCY_MAP cur =
     (case map_of
        [(''USD'', [''EURUSD'', ''GBPUSD'', ''USDJPY'', ''USDCHF'', ''AUDUSD'', ''NZDUSD'', ''USDCAD'', ''XAUUSD'']),
         (''EUR'', [''EURUSD'', ''EURGBP'', ''EURJPY'']), (''GBP'', [''GBPUSD'', ''EURGBP'', ''GBPJPY'']),
         (''JPY'', [''USDJPY'', ''EURJPY'', ''GBPJPY'']), (''AUD'', [''AUDUSD'']), (''NZD'', [''NZDUSD'']),
         (''CAD'', [''USDCAD'']), (''CHF'', [''USDCHF''])] cur of
        None \<Rightarrow> [] | Some s \<Rightarrow> s)"

text \<open>
  A \<open>datetime\<close> by the attributes the filter reads, and an event of the JSON file: \<open>ce_datetime\<close> is
  what parsing its \<open>datetime\<close> entry gives, in seconds, or the exception it raises.
\<close>

record utc_time =
  ut_seconds :: rat
  ut_weekday :: int
  ut_day :: int
  ut_hour :: int
  ut_minute :: int

record calendar_event =
  ce_datetime :: "rat result"
  ce_currency :: "string option"
  ce_impact :: "string option"
  ce_name :: "string option"

record calendar_filter =
  cf_before :: int
  cf_after :: int
  cf_events :: "calendar_event list"

text \<open>
  The event of the loop that blocks: high impact, affecting the symbol, and in its window.
\<close>

definition event_blocks :: "calendar_filter \<Rightarrow> string \<Rightarrow> rat \<Rightarrow> calendar_event \<Rightarrow> rat \<Rightarrow> bool" where
  "event_blocks cf symbol now ev event_time =
     (opt_get (ce_impact ev) ''low'' \<in> {''high'', ''critical''} \<and>
      symbol \<in> set (EVENT_CURRENCY_MAP (opt_get (ce_currency ev) [])) \<and>
      (let minutes_diff = flt_round (flt_round (now - event_time) / 60)
       in of_int (- cf_before cf) \<le> minutes_diff \<and> minutes_diff \<le> of_int (cf_after cf)))"

fun scan_events :: "calendar_filter \<Rightarrow> string \<Rightarrow> rat \<Rightarrow> calendar_event list \<Rightarrow> string option result" where
  "scan_events cf symbol now [] = Inr None"
| "scan_events cf symbol now (ev # evs) =
     rbind (ce_datetime ev) (\<lambda>event_time.
       if event_blocks cf symbol now ev event_time
       then Inr (Some (''Blackout: '' @ opt_get (ce_name ev) ''evento'' @ '' ('' @ opt_get (ce_currency ev) []
                       @ '', '' @ opt_get (ce_impact ev) ''low'' @ '')''))
       else scan_events cf symbol now evs)"

definition nfp_window :: "calendar_filter \<Rightarrow> string \<Rightarrow> utc_time \<Rightarrow> bool" where
  "nfp_window cf symbol t =
     (ut_weekday t = 4 \<and> ut_day t \<le> 7 \<and> symbol \<in> set (EVENT_CURRENCY_MAP ''USD'') \<and>
      (let diff = (ut_hour t * 60 + ut_minute t) - (13 * 60 + 30)
       in - cf_before cf \<le> diff \<and> diff \<le> cf_after cf))"

definition is_blackout :: "calendar_filter \<Rightarrow> string \<Rightarrow> utc_time \<Rightarrow> (bool \<times> string) result" where
  "is_blackout cf symbol t =
     rbind (scan_events cf symbol (ut_seconds t) (cf_events cf)) (\<lambda>hit.
       case hit of
         Some msg \<Rightarrow> Inr (True, msg)
       | None \<Rightarrow>
           Inr (if nfp_window cf symbol t
                then (True, ''Blackout: probabile NFP (primo venerd'' @ [CHR 0xEC] @ '' del mese)'')
                else (False, [])))"

section \<open>Currency exposure\<close>

definition CURRENCY_PAIRS :: "string \<rightharpoonup> string \<times> string" where
  "CURRENCY_PAIRS = map_of
     [(''EURUSD'', (''EUR'', ''USD'')), (''GBPUSD'', (''GBP'', ''USD'')), (''USDJPY'', (''USD'', ''JPY'')),
      (''USDCHF'', (''USD'', ''CHF'')), (''AUDUSD'', (''AUD'', ''USD'')), (''NZDUSD'', (''NZD'', ''USD'')),
      (''USDCAD'', (''USD'', ''CAD'')), (''EURGBP'', (''EUR'', ''GBP'')), (''EURJPY'', (''EUR'', ''JPY'')),
      (''GBPJPY'', (''GBP'', ''JPY'')), (''XAUUSD'', (''XAU'', ''USD'')), (''XAGUSD'', (''XAG'', ''USD''))]"

definition decompose_exposure :: "string \<Rightarrow> string \<Rightarrow> (string \<times> rat) list" where
  "decompose_exposure symbol dir =
     (case CURRENCY_PAIRS symbol of
        None \<Rightarrow> []
      | Some (base, quote) \<Rightarrow>
          let sign = (if dir = ''BUY'' then 1 else - 1) in [(base, sign), (quote, - sign)])"

type_synonym exposure = "string \<rightharpoonup> rat"

definition exposure_get :: "exposure \<Rightarrow> string \<Rightarrow> rat" where
  "exposure_get net cur = opt_get (net cur) 0"

definition add_exposure :: "exposure \<Rightarrow> string \<times> rat \<Rightarrow> exposure" where
  "add_exposure net ca = net(fst ca \<mapsto> flt_round (exposure_get net (fst ca) + snd ca))"

definition net_exposure :: "(string \<times> string) list \<Rightarrow> exposure" where
  "net_exposure positions =
     foldl (\<lambda>net p. foldl add_exposure net (decompose_exposure (fst p) (snd p))) Map.empty positions"

definition correlation_check :: "rat \<Rightarrow> string \<Rightarrow> string \<Rightarrow> (string \<times> string) list \<Rightarrow> bool" where
  "correlation_check max_exposure symbol dir open_positions =
     (let net = net_exposure open_positions; new_decomp = decompose_exposure symbol dir
      in if new_decomp = [] then True
         else list_all (\<lambda>(cur, amount). \<not> max_exposure < \<bar>flt_round (exposure_get net cur + amount)\<bar>) new_decomp)"

section \<open>Lemmas: percentiles\<close>

lemma length_filter_less_mono:
  "x \<le> y \<Longrightarrow> length (filter (\<lambda>h. h < x) hs) \<le> length (filter (\<lambda>h. h < (y :: rat)) hs)"
  by (induction hs) auto

lemma compute_percentile_range:
  assumes "hs \<noteq> []"
  shows "\<exists>p. compute_percentile hs v = Inr p \<and> 0 \<le> p \<and> p \<le> 100"
proof -
  let ?k = "length (filter (\<lambda>h. h < v) hs)" and ?n = "length hs"
  let ?q = "dec_div (of_nat ?k) (of_nat ?n)"
  have n: "0 < ?n" using assms by simp
  have "0 \<le> ?q" by (simp add: dec_div_nonneg)
  moreover have "?q \<le> 1" unfolding dec_div_def
    by (rule dec.rnd_le) (use n length_filter_le [of "\<lambda>h. h < v" hs] in \<open>simp_all add: divide_le_eq\<close>)
  ultimately have m: "0 \<le> dec_mul ?q 100" "dec_mul ?q 100 \<le> 100"
    unfolding dec_mul_def by (auto intro: dec.rnd_nonneg dec.rnd_le simp: num_eval)
  then obtain p where p: "quantize 0 (dec_mul ?q 100) = Inr p" using quantize_defined [of "dec_mul ?q 100" 0] by auto
  have "0 \<le> p" "p \<le> 100" using quantize_ge [OF p, of 0] quantize_le [OF p, of 100] m
    by (auto simp: on_gridI [of _ _ 0] on_gridI [of _ _ 100])
  then have "0 \<le> \<lfloor>p\<rfloor>" "\<lfloor>p\<rfloor> \<le> 100" by (auto simp: floor_le_iff)
  then show ?thesis using p n by (auto simp: compute_percentile_def dec_div_checked_def)
qed

lemma compute_percentile_mono:
  assumes "v \<le> w" "compute_percentile hs v = Inr p" "compute_percentile hs w = Inr q"
  shows "p \<le> q"
proof -
  let ?r = "\<lambda>v. dec_mul (dec_div (of_nat (length (filter (\<lambda>h. h < v) hs))) (of_nat (length hs))) 100"
  have n: "0 < length hs" using assms(2) by (auto simp: compute_percentile_def dec_div_checked_def split: if_splits)
  have le: "rat_of_nat (length (filter (\<lambda>h. h < v) hs)) \<le> rat_of_nat (length (filter (\<lambda>h. h < w) hs))"
    using length_filter_less_mono [OF assms(1)] by (simp only: of_nat_le_iff)
  have r: "?r v \<le> ?r w"
    by (intro dec_mul_mono dec_div_mono dec_div_nonneg le) (use n in simp_all)
  obtain a b where "quantize 0 (?r v) = Inr a" "p = \<lfloor>a\<rfloor>" "quantize 0 (?r w) = Inr b" "q = \<lfloor>b\<rfloor>"
    using assms(2,3) n by (auto simp: compute_percentile_def dec_div_checked_def)
  then show ?thesis using quantize_mono r by (simp add: floor_mono)
qed

lemma record_spread_window:
  assumes "\<And>k h. st_spreads st k = Some h \<Longrightarrow> length h \<le> st_window st"
    and "st_spreads (record_spread st s x) k = Some h"
  shows "length h \<le> st_window (record_spread st s x)"
  using assms by (auto simp: record_spread_def Let_def split: if_splits)

section \<open>Lemmas: exposure\<close>

text \<open>Below \<open>2^53\<close> positions the float sums are exact: the net exposure is an integer count.\<close>

definition contribution :: "string \<Rightarrow> string \<times> string \<Rightarrow> int" where
  "contribution cur p =
     (case CURRENCY_PAIRS (fst p) of
        None \<Rightarrow> 0
      | Some (b, q) \<Rightarrow>
          let sign = (if snd p = ''BUY'' then 1 else - 1)
          in (if cur = b then sign else 0) - (if cur = q then sign else 0))"

lemma CURRENCY_PAIRS_distinct: "CURRENCY_PAIRS s = Some (b, q) \<Longrightarrow> b \<noteq> q"
  by (auto simp: CURRENCY_PAIRS_def split: if_splits)

lemma contribution_abs: "\<bar>contribution cur p\<bar> \<le> 1"
  using CURRENCY_PAIRS_distinct [of "fst p"] by (auto simp: contribution_def Let_def split: option.split prod.split)

lemma sum_contribution_abs: "\<bar>\<Sum>p\<leftarrow>ps. contribution cur p\<bar> \<le> int (length ps)"
proof (induction ps)
  case (Cons p ps)
  then show ?case using contribution_abs [of cur p] by simp
qed simp

lemma flt_round_abs_int: "\<bar>m\<bar> < 2 ^ 53 \<Longrightarrow> x = of_int m \<Longrightarrow> flt_round x = x"
  using flt_round_int by simp

lemma add_position_exposure:
  assumes "exposure_get net cur = of_int n" "\<bar>n + contribution cur p\<bar> < 2 ^ 53"
  shows "exposure_get (foldl add_exposure net (decompose_exposure (fst p) (snd p))) cur = of_int (n + contribution cur p)"
proof (cases "CURRENCY_PAIRS (fst p)")
  case None
  then show ?thesis using assms by (simp add: decompose_exposure_def contribution_def)
next
  case (Some bq)
  obtain b q where bq: "bq = (b, q)" by (cases bq)
  then have "b \<noteq> q" using Some CURRENCY_PAIRS_distinct by simp
  then show ?thesis
    using Some bq assms flt_round_int [of "n + contribution cur p"]
    by (auto simp: decompose_exposure_def contribution_def add_exposure_def exposure_get_def opt_get_def Let_def)
qed

lemma net_exposure_exact:
  assumes "int (length ps) < 2 ^ 53"
  shows "exposure_get (net_exposure ps) cur = of_int (\<Sum>p\<leftarrow>ps. contribution cur p)"
  using assms
proof (induction ps rule: rev_induct)
  case Nil
  then show ?case by (simp add: net_exposure_def exposure_get_def opt_get_def)
next
  case (snoc p ps)
  have "\<bar>(\<Sum>p\<leftarrow>ps. contribution cur p) + contribution cur p\<bar> < 2 ^ 53"
    using sum_contribution_abs [of cur "ps @ [p]"] snoc.prems by simp
  then show ?case using add_position_exposure [of "net_exposure ps" cur _ p] snoc by (simp add: net_exposure_def)
qed

lemma correlation_check_iff:
  assumes "int (length ps) + 1 < 2 ^ 53" "CURRENCY_PAIRS symbol = Some (b, q)"
  shows "correlation_check mx symbol dir ps \<longleftrightarrow>
     (\<forall>cur \<in> {b, q}. of_int \<bar>\<Sum>p\<leftarrow>ps @ [(symbol, dir)]. contribution cur p\<bar> \<le> mx)"
proof -
  let ?s = "\<lambda>cur. (\<Sum>p\<leftarrow>ps. contribution cur p)"
  have bq: "b \<noteq> q" using CURRENCY_PAIRS_distinct assms(2) by simp
  have ex: "flt_round (of_int (?s cur) + of_int (contribution cur (symbol, dir)))
      = of_int (?s cur + contribution cur (symbol, dir))" for cur
    using sum_contribution_abs [of cur "ps @ [(symbol, dir)]"] assms(1)
      flt_round_int [of "?s cur + contribution cur (symbol, dir)"] by simp
  have d: "decompose_exposure symbol dir =
      [(b, of_int (contribution b (symbol, dir))), (q, of_int (contribution q (symbol, dir)))]"
    using assms(2) bq by (auto simp: decompose_exposure_def contribution_def Let_def)
  show ?thesis
    using assms(1) net_exposure_exact [of ps] unfolding correlation_check_def d Let_def
    by (simp add: ex not_less del: of_int_add)
qed

text \<open>Opening positions one after the other, each only when the check allows it.\<close>

definition open_if_allowed :: "rat \<Rightarrow> (string \<times> string) list \<Rightarrow> string \<times> string \<Rightarrow> (string \<times> string) list" where
  "open_if_allowed mx ps p = (if correlation_check mx (fst p) (snd p) ps then ps @ [p] else ps)"

lemma open_if_allowed_length: "length (foldl (open_if_allowed mx) ps reqs) \<le> length ps + length reqs"
proof (induction reqs arbitrary: ps)
  case (Cons r reqs)
  show ?case using Cons.IH [of "open_if_allowed mx ps r"] by (auto simp: open_if_allowed_def split: if_splits)
qed simp

lemma open_if_allowed_bounded:
  assumes "\<forall>cur. of_int \<bar>\<Sum>p\<leftarrow>ps. contribution cur p\<bar> \<le> mx" "int (length ps + length reqs) < 2 ^ 53"
  shows "of_int \<bar>\<Sum>p\<leftarrow>foldl (open_if_allowed mx) ps reqs. contribution cur p\<bar> \<le> mx"
  using assms
proof (induction reqs arbitrary: ps)
  case Nil
  then show ?case by simp
next
  case (Cons r reqs)
  let ?ps = "open_if_allowed mx ps r"
  have "\<forall>cur. of_int \<bar>\<Sum>p\<leftarrow>?ps. contribution cur p\<bar> \<le> mx"
  proof
    fix cur
    show "of_int \<bar>\<Sum>p\<leftarrow>?ps. contribution cur p\<bar> \<le> mx"
    proof (cases "correlation_check mx (fst r) (snd r) ps \<and> contribution cur r \<noteq> 0")
      case True
      then obtain b q where bq: "CURRENCY_PAIRS (fst r) = Some (b, q)" "cur \<in> {b, q}"
        by (auto simp: contribution_def Let_def split: option.splits if_splits)
      then have "of_int \<bar>\<Sum>p\<leftarrow>ps @ [(fst r, snd r)]. contribution cur p\<bar> \<le> mx"
        using correlation_check_iff [OF _ bq(1), of ps mx "snd r"] True Cons.prems(2) by auto
      then show ?thesis using True by (simp add: open_if_allowed_def)
    qed (use Cons.prems(1) in \<open>auto simp: open_if_allowed_def\<close>)
  qed
  moreover have "int (length ?ps + length reqs) < 2 ^ 53"
    using Cons.prems(2) by (simp add: open_if_allowed_def)
  ultimately show ?case using Cons.IH by simp
qed

lemma scan_events_hit:
  assumes "\<forall>ev \<in> set evs. \<exists>t. ce_datetime ev = Inr t"
  shows "\<exists>r. scan_events cf symbol now evs = Inr r \<and>
     (r \<noteq> None \<longleftrightarrow> (\<exists>ev \<in> set evs. \<exists>t. ce_datetime ev = Inr t \<and> event_blocks cf symbol now ev t))"
  using assms
proof (induction evs)
  case (Cons ev evs)
  then obtain t where "ce_datetime ev = Inr t" by auto
  with Cons show ?case by (cases "event_blocks cf symbol now ev t") auto
qed simp

section \<open>Properties\<close>

text \<open>
  C28. The correlation filter bounds the book: if positions are opened only when the check allows it,
  then after any sequence of requests the net exposure of the book the checker sees is, in every
  currency, exactly the signed count of positions and never exceeds the configured maximum.
\<close>

theorem correlation_bounds_book:
  assumes "0 \<le> mx" "int (length reqs) < 2 ^ 53"
  shows "let book = foldl (open_if_allowed mx) [] reqs in
     exposure_get (net_exposure book) cur = of_int (\<Sum>p\<leftarrow>book. contribution cur p) \<and>
     \<bar>exposure_get (net_exposure book) cur\<bar> \<le> mx"
proof -
  let ?book = "foldl (open_if_allowed mx) [] reqs"
  have "int (length ?book) < 2 ^ 53" using open_if_allowed_length [of mx "[]" reqs] assms(2) by simp
  then have "exposure_get (net_exposure ?book) cur = of_int (\<Sum>p\<leftarrow>?book. contribution cur p)"
    by (rule net_exposure_exact)
  then show ?thesis using open_if_allowed_bounded [of "[]" mx reqs cur] assms by simp
qed

theorem correlation_bounds_book_witness:
  "let book = foldl (open_if_allowed 1) [] [(''EURUSD'', ''BUY''), (''GBPUSD'', ''BUY''), (''USDJPY'', ''BUY'')] in
     exposure_get (net_exposure book) ''USD'' = of_int (\<Sum>p\<leftarrow>book. contribution ''USD'' p) \<and>
     \<bar>exposure_get (net_exposure book) ''USD''\<bar> \<le> 1"
  by (rule correlation_bounds_book) simp_all

text \<open>
  The spread filter is a threshold: once it has enough observations (a positive number), the
  percentile of any spread is defined and between 0 and 100, and if a spread is rejected every
  wider spread is rejected too.
\<close>

theorem spread_check_threshold:
  assumes "st_spreads st (str_upper symbol) = Some hs" "st_min_observations st \<le> length hs"
    and "0 < st_min_observations st" "x \<le> y"
  shows "\<exists>p a b. get_percentile st symbol x = Inr p \<and> 0 \<le> p \<and> p \<le> 100 \<and>
     spread_check st symbol x = Inr a \<and> spread_check st symbol y = Inr b \<and>
     (a \<longleftrightarrow> p < st_reject_percentile st) \<and> (\<not> a \<longrightarrow> \<not> b)"
proof -
  have ne: "hs \<noteq> []" using assms(2,3) by auto
  obtain p q where p: "compute_percentile hs x = Inr p" "0 \<le> p" "p \<le> 100" and q: "compute_percentile hs y = Inr q"
    using compute_percentile_range [OF ne] by metis
  then have "p \<le> q" using compute_percentile_mono [OF assms(4)] by simp
  then show ?thesis using p q assms ne by (auto simp: spread_check_def get_percentile_def)
qed

theorem spread_check_threshold_witness:
  "let st = \<lparr>st_window = 3, st_reject_percentile = 90, st_min_observations = 2,
             st_spreads = [''XAUUSD'' \<mapsto> [2, 3]]\<rparr>
   in \<exists>p a b. get_percentile st ''xauusd'' 1 = Inr p \<and> 0 \<le> p \<and> p \<le> 100 \<and>
     spread_check st ''xauusd'' 1 = Inr a \<and> spread_check st ''xauusd'' 8 = Inr b \<and>
     (a \<longleftrightarrow> p < st_reject_percentile st) \<and> (\<not> a \<longrightarrow> \<not> b)"
  using spread_check_threshold [of "\<lparr>st_window = 3, st_reject_percentile = 90, st_min_observations = 2,
             st_spreads = [''XAUUSD'' \<mapsto> [2, 3]]\<rparr>" "''xauusd''" "[2, 3]" 1 8]
  by (simp add: str_upper_def upper_char_def)

text \<open>
  The calendar blocks exactly when it should: if every event's time parses, trading a symbol is
  blacked out if and only if some high-impact event of an affected currency is inside its window or
  the first-Friday payroll window is open for a dollar symbol.
\<close>

theorem calendar_blackout_iff:
  assumes "\<forall>ev \<in> set (cf_events cf). \<exists>s. ce_datetime ev = Inr s"
  shows "\<exists>b msg. is_blackout cf symbol t = Inr (b, msg) \<and>
     (b \<longleftrightarrow> (\<exists>ev \<in> set (cf_events cf). \<exists>s. ce_datetime ev = Inr s \<and> event_blocks cf symbol (ut_seconds t) ev s) \<or>
            nfp_window cf symbol t)"
proof -
  obtain r where "scan_events cf symbol (ut_seconds t) (cf_events cf) = Inr r"
    "r \<noteq> None \<longleftrightarrow> (\<exists>ev \<in> set (cf_events cf). \<exists>s. ce_datetime ev = Inr s \<and> event_blocks cf symbol (ut_seconds t) ev s)"
    using scan_events_hit [OF assms] by blast
  then show ?thesis by (cases r) (auto simp: is_blackout_def)
qed

definition sample_calendar :: calendar_filter where
  "sample_calendar =
     \<lparr>cf_before = 15, cf_after = 15,
      cf_events = [\<lparr>ce_datetime = Inr 36000, ce_currency = Some ''EUR'', ce_impact = Some ''high'', ce_name = None\<rparr>]\<rparr>"

theorem calendar_blackout_iff_witness:
  "\<exists>b msg. is_blackout sample_calendar ''EURGBP''
       \<lparr>ut_seconds = 36060, ut_weekday = 0, ut_day = 12, ut_hour = 10, ut_minute = 1\<rparr> = Inr (b, msg) \<and>
     (b \<longleftrightarrow> (\<exists>ev \<in> set (cf_events sample_calendar). \<exists>s. ce_datetime ev = Inr s \<and>
              event_blocks sample_calendar ''EURGBP'' 36060 ev s) \<or>
            nfp_window sample_calendar ''EURGBP''
              \<lparr>ut_seconds = 36060, ut_weekday = 0, ut_day = 12, ut_hour = 10, ut_minute = 1\<rparr>)"
  using calendar_blackout_iff [of sample_calendar "''EURGBP''"
      "\<lparr>ut_seconds = 36060, ut_weekday = 0, ut_day = 12, ut_hour = 10, ut_minute = 1\<rparr>"]
  by (simp add: sample_calendar_def)

end
