(* ===== verification/Portfolio.thy ===== *)
theory Portfolio
  imports Market_Types "HOL-Library.Multiset"
begin

text \<open>
  \<open>algo_engine/portfolio.py\<close> (class \<open>PortfolioStateManager\<close>). The current UTC date is an argument, as
  is what Redis returned. The locale \<open>position_book\<close> is the contract of a book of open positions
  kept as a multiset; the manager's position list and counter are shown to implement it as long as
  every close names a position that is open.
\<close>

section \<open>The abstract book\<close>

text \<open>A trade event opens or closes a position; the payload is what the operation also records.\<close>

datatype ('p, 'x) trade_event = Open 'p 'x | Close 'p 'x

fun book_step :: "('p, 'x) trade_event \<Rightarrow> 'p multiset \<Rightarrow> 'p multiset" where
  "book_step (Open p x) b = add_mset p b"
| "book_step (Close p x) b = b - {#p#}"

text \<open>The histories a broker can produce: only valid positions, and a close only of what is open.\<close>

fun legal_history :: "('p \<Rightarrow> bool) \<Rightarrow> ('p, 'x) trade_event list \<Rightarrow> 'p multiset \<Rightarrow> bool" where
  "legal_history ok [] b = True"
| "legal_history ok (Open p x # es) b = (ok p \<and> legal_history ok es (add_mset p b))"
| "legal_history ok (Close p x # es) b = (ok p \<and> p \<in># b \<and> legal_history ok es (b - {#p#}))"

locale position_book =
  fixes book :: "'s \<Rightarrow> 'p multiset"
    and count_of :: "'s \<Rightarrow> nat"
    and step :: "('p, 'x) trade_event \<Rightarrow> 's \<Rightarrow> 's"
    and ok :: "'p \<Rightarrow> bool"
  assumes open_book: "ok p \<Longrightarrow> book (step (Open p x) s) = add_mset p (book s)"
    and open_count: "ok p \<Longrightarrow> count_of (step (Open p x) s) = Suc (count_of s)"
    and close_book: "ok p \<Longrightarrow> p \<in># book s \<Longrightarrow> book (step (Close p x) s) = book s - {#p#}"
    and close_count: "ok p \<Longrightarrow> p \<in># book s \<Longrightarrow> count_of (step (Close p x) s) = count_of s - 1"
begin

lemma run_refines:
  "legal_history ok es (book s) \<Longrightarrow> book (fold step es s) = fold book_step es (book s)"
proof (induction es arbitrary: s)
  case (Cons e es)
  then show ?case by (cases e) (auto simp: open_book close_book)
qed simp

lemma run_counts:
  assumes "legal_history ok es (book s)" "count_of s = size (book s)"
  shows "count_of (fold step es s) = size (book (fold step es s))"
  using assms
proof (induction es arbitrary: s)
  case (Cons e es)
  then show ?case
    by (cases e) (auto simp: open_book close_book open_count close_count size_Diff_singleton)
qed simp

end

section \<open>State\<close>

record portfolio =
  pf_open_position_count :: nat
  pf_current_drawdown_pct :: decimal
  pf_daily_loss_pct :: decimal
  pf_last_reset_date :: string
  pf_total_exposure :: decimal
  pf_unrealized_pnl :: decimal
  pf_symbols_exposed :: "string set"
  pf_win_count :: nat
  pf_loss_count :: nat
  pf_last_trade_result :: string
  pf_positions_detail :: "(string \<times> string) list"
  pf_equity :: decimal
  pf_used_margin :: decimal

definition new_portfolio :: "string \<Rightarrow> portfolio" where
  "new_portfolio today =
     \<lparr>pf_open_position_count = 0, pf_current_drawdown_pct = 0, pf_daily_loss_pct = 0,
      pf_last_reset_date = today, pf_total_exposure = 0, pf_unrealized_pnl = 0, pf_symbols_exposed = {},
      pf_win_count = 0, pf_loss_count = 0, pf_last_trade_result = [], pf_positions_detail = [],
      pf_equity = 1000, pf_used_margin = 0\<rparr>"

definition check_daily_reset :: "string \<Rightarrow> portfolio \<Rightarrow> portfolio" where
  "check_daily_reset today pf =
     (if today \<noteq> pf_last_reset_date pf
      then pf\<lparr>pf_daily_loss_pct := 0, pf_last_reset_date := today\<rparr> else pf)"

definition win_rate :: "portfolio \<Rightarrow> decimal" where
  "win_rate pf =
     (let total = pf_win_count pf + pf_loss_count pf
      in if total = 0 then 50 / 100 else dec_div (of_nat (pf_win_count pf)) (of_nat total))"

text \<open>The dictionary of \<open>get_state\<close>.\<close>

record portfolio_state =
  gs_open_position_count :: nat
  gs_current_drawdown_pct :: decimal
  gs_daily_loss_pct :: decimal
  gs_total_exposure :: decimal
  gs_unrealized_pnl :: decimal
  gs_symbols_exposed :: "string set"
  gs_win_rate :: decimal
  gs_last_trade_result :: string
  gs_positions_detail :: "(string \<times> string) list"
  gs_equity :: decimal
  gs_used_margin :: decimal

definition get_state :: "string \<Rightarrow> portfolio \<Rightarrow> portfolio_state \<times> portfolio" where
  "get_state today pf =
     (let pf = check_daily_reset today pf
      in (\<lparr>gs_open_position_count = pf_open_position_count pf,
           gs_current_drawdown_pct = pf_current_drawdown_pct pf, gs_daily_loss_pct = pf_daily_loss_pct pf,
           gs_total_exposure = pf_total_exposure pf, gs_unrealized_pnl = pf_unrealized_pnl pf,
           gs_symbols_exposed = pf_symbols_exposed pf, gs_win_rate = win_rate pf,
           gs_last_trade_result = pf_last_trade_result pf, gs_positions_detail = pf_positions_detail pf,
           gs_equity = pf_equity pf, gs_used_margin = pf_used_margin pf\<rparr>, pf))"

definition record_fill :: "string \<Rightarrow> decimal \<Rightarrow> string \<Rightarrow> portfolio \<Rightarrow> portfolio" where
  "record_fill symbol lots dir pf =
     (let pf = pf\<lparr>pf_open_position_count := pf_open_position_count pf + 1,
                 pf_total_exposure := dec_add (pf_total_exposure pf) lots\<rparr>;
          pf = (if symbol \<noteq> [] then pf\<lparr>pf_symbols_exposed := insert symbol (pf_symbols_exposed pf)\<rparr> else pf)
      in if symbol \<noteq> [] \<and> dir \<noteq> []
         then pf\<lparr>pf_positions_detail := pf_positions_detail pf @ [(symbol, dir)]\<rparr> else pf)"

definition pf_record_trade_result :: "decimal \<Rightarrow> portfolio \<Rightarrow> portfolio" where
  "pf_record_trade_result profit pf =
     (if 0 < profit then pf\<lparr>pf_win_count := pf_win_count pf + 1, pf_last_trade_result := ''win''\<rparr>
      else if profit < 0 then pf\<lparr>pf_loss_count := pf_loss_count pf + 1, pf_last_trade_result := ''loss''\<rparr>
      else pf)"

fun pop_first :: "('a \<Rightarrow> bool) \<Rightarrow> 'a list \<Rightarrow> 'a list" where
  "pop_first P [] = []"
| "pop_first P (x # xs) = (if P x then xs else x # pop_first P xs)"

definition record_close :: "string \<Rightarrow> decimal \<Rightarrow> decimal \<Rightarrow> string \<Rightarrow> portfolio \<Rightarrow> portfolio" where
  "record_close symbol lots profit dir pf =
     (let pf = pf\<lparr>pf_open_position_count := pf_open_position_count pf - 1,
                 pf_total_exposure := max 0 (dec_sub (pf_total_exposure pf) lots)\<rparr>;
          pf = (if symbol \<noteq> [] \<and> pf_open_position_count pf = 0
                then pf\<lparr>pf_symbols_exposed := pf_symbols_exposed pf - {symbol}\<rparr> else pf);
          pf = pf\<lparr>pf_positions_detail :=
                   pop_first (\<lambda>p. fst p = symbol \<and> (dir = [] \<or> snd p = dir)) (pf_positions_detail pf)\<rparr>
      in pf_record_trade_result profit pf)"

definition update_drawdown :: "decimal \<Rightarrow> portfolio \<Rightarrow> portfolio" where
  "update_drawdown pct pf = pf\<lparr>pf_current_drawdown_pct := pct\<rparr>"

definition update_daily_loss :: "string \<Rightarrow> decimal \<Rightarrow> portfolio \<Rightarrow> portfolio" where
  "update_daily_loss today pct pf = (check_daily_reset today pf)\<lparr>pf_daily_loss_pct := pct\<rparr>"

definition update_unrealized_pnl :: "decimal \<Rightarrow> portfolio \<Rightarrow> portfolio" where
  "update_unrealized_pnl pnl pf = pf\<lparr>pf_unrealized_pnl := pnl\<rparr>"

definition update_equity :: "decimal \<Rightarrow> portfolio \<Rightarrow> portfolio" where
  "update_equity e pf = pf\<lparr>pf_equity := e\<rparr>"

definition update_used_margin :: "decimal \<Rightarrow> portfolio \<Rightarrow> portfolio" where
  "update_used_margin u pf = pf\<lparr>pf_used_margin := u\<rparr>"

text \<open>
  Redis: the key of the day, the value written under it, and what a read does (\<open>None\<close>: no client, no
  value, or any exception).
\<close>

definition daily_loss_key :: "string \<Rightarrow> string" where
  "daily_loss_key today = ''moneymaker:daily_loss:'' @ today"

definition portfolio_persist :: "string \<Rightarrow> portfolio \<Rightarrow> string \<times> decimal" where
  "portfolio_persist today pf = (daily_loss_key today, pf_daily_loss_pct pf)"

definition portfolio_sync :: "decimal option \<Rightarrow> portfolio \<Rightarrow> portfolio" where
  "portfolio_sync reply pf = (case reply of None \<Rightarrow> pf | Some v \<Rightarrow> pf\<lparr>pf_daily_loss_pct := v\<rparr>)"

section \<open>Lemmas\<close>

lemma pop_first_eq: "pop_first (\<lambda>p. fst p = s \<and> snd p = d) xs = remove1 (s, d) xs"
  by (induction xs) auto

lemma set_pop_first: "set (pop_first P xs) \<subseteq> set xs"
  by (induction xs) auto

lemma record_fill_positions:
  "symbol \<noteq> [] \<Longrightarrow> dir \<noteq> [] \<Longrightarrow>
     pf_positions_detail (record_fill symbol lots dir pf) = pf_positions_detail pf @ [(symbol, dir)]"
  by (simp add: record_fill_def Let_def)

lemma record_fill_count [simp]:
  "pf_open_position_count (record_fill symbol lots dir pf) = Suc (pf_open_position_count pf)"
  by (simp add: record_fill_def Let_def)

lemma pf_record_trade_result_frame [simp]:
  "pf_open_position_count (pf_record_trade_result x pf) = pf_open_position_count pf"
  "pf_positions_detail (pf_record_trade_result x pf) = pf_positions_detail pf"
  "pf_total_exposure (pf_record_trade_result x pf) = pf_total_exposure pf"
  "pf_symbols_exposed (pf_record_trade_result x pf) = pf_symbols_exposed pf"
  "pf_daily_loss_pct (pf_record_trade_result x pf) = pf_daily_loss_pct pf"
  by (simp_all add: pf_record_trade_result_def)

lemma record_close_positions:
  "dir \<noteq> [] \<Longrightarrow>
     pf_positions_detail (record_close symbol lots profit dir pf) = remove1 (symbol, dir) (pf_positions_detail pf)"
  by (simp add: record_close_def Let_def pop_first_eq)

lemma record_close_count [simp]:
  "pf_open_position_count (record_close symbol lots profit dir pf) = pf_open_position_count pf - 1"
  by (simp add: record_close_def Let_def)

text \<open>The manager as a book: payloads are the lots and the profit.\<close>

fun portfolio_step :: "(string \<times> string, decimal \<times> decimal) trade_event \<Rightarrow> portfolio \<Rightarrow> portfolio" where
  "portfolio_step (Open p x) pf = record_fill (fst p) (fst x) (snd p) pf"
| "portfolio_step (Close p x) pf = record_close (fst p) (fst x) (snd x) (snd p) pf"

definition named_position :: "string \<times> string \<Rightarrow> bool" where
  "named_position p \<longleftrightarrow> fst p \<noteq> [] \<and> snd p \<noteq> []"

interpretation pf_book: position_book "\<lambda>pf. mset (pf_positions_detail pf)" pf_open_position_count
  portfolio_step named_position
  by unfold_locales (auto simp: named_position_def record_fill_positions record_close_positions)

lemma exposure_nonneg_fill: "0 \<le> pf_total_exposure pf \<Longrightarrow> 0 \<le> lots \<Longrightarrow> 0 \<le> pf_total_exposure (record_fill s lots d pf)"
  by (simp add: record_fill_def Let_def dec_add_nonneg)

lemma exposure_nonneg_close: "0 \<le> pf_total_exposure (record_close s lots profit d pf)"
  by (simp add: record_close_def Let_def)

lemma win_rate_range: "0 \<le> win_rate pf \<and> win_rate pf \<le> 1"
proof (cases "pf_win_count pf + pf_loss_count pf = 0")
  case False
  then have "rat_of_nat (pf_win_count pf) / of_nat (pf_win_count pf + pf_loss_count pf) \<le> 1"
    by (simp add: divide_le_eq)
  then have "dec_div (of_nat (pf_win_count pf)) (of_nat (pf_win_count pf + pf_loss_count pf)) \<le> 1"
    unfolding dec_div_def by (intro dec.rnd_le) auto
  then show ?thesis using False by (simp add: win_rate_def Let_def dec_div_nonneg)
qed (simp add: win_rate_def)

section \<open>Properties\<close>

text \<open>
  C9. The manager refines a book of open positions: after any history of fills and closes in which
  every close names an open position, the position list is (as a multiset) exactly what was opened
  and not closed, and the position counter that the validator reads is its size.
\<close>

theorem portfolio_refines_book:
  assumes "legal_history named_position es {#}"
  shows "mset (pf_positions_detail (fold portfolio_step es (new_portfolio today))) = fold book_step es {#} \<and>
     pf_open_position_count (fold portfolio_step es (new_portfolio today)) = size (fold book_step es {#})"
  using pf_book.run_refines [of es "new_portfolio today"] pf_book.run_counts [of es "new_portfolio today"] assms
  by (simp add: new_portfolio_def)

theorem portfolio_refines_book_witness:
  "let es = [Open (''EURUSD'', ''BUY'') (1 / 10, 0), Open (''XAUUSD'', ''SELL'') (1 / 10, 0),
             Close (''EURUSD'', ''BUY'') (1 / 10, 5)]
   in mset (pf_positions_detail (fold portfolio_step es (new_portfolio ''2026-01-05''))) = fold book_step es {#} \<and>
      pf_open_position_count (fold portfolio_step es (new_portfolio ''2026-01-05'')) = size (fold book_step es {#})"
  unfolding Let_def by (rule portfolio_refines_book) (simp add: named_position_def)

text \<open>
  What the validator reads is well formed: after any sequence of fills with nonnegative lots and of
  closes, legal or not, exposure is nonnegative and the win rate is in [0, 1]; and the first reading on
  a new date reports a daily loss of zero while a reading on the same date keeps it.
\<close>

theorem portfolio_state_well_formed:
  assumes "\<And>p x. Open p x \<in> set es \<Longrightarrow> 0 \<le> fst x"
  shows "let pf = fold portfolio_step es (new_portfolio day); st = fst (get_state today pf)
     in 0 \<le> gs_total_exposure st \<and> 0 \<le> gs_win_rate st \<and> gs_win_rate st \<le> 1 \<and>
        gs_daily_loss_pct (fst (get_state today (update_daily_loss day loss pf))) = (if today = day then loss else 0)"
proof -
  have nonneg: "0 \<le> pf_total_exposure pf \<Longrightarrow> 0 \<le> pf_total_exposure (fold portfolio_step es pf)" for pf
    using assms
  proof (induction es arbitrary: pf)
    case (Cons e es)
    have IH: "0 \<le> pf_total_exposure q \<Longrightarrow> 0 \<le> pf_total_exposure (fold portfolio_step es q)" for q
      using Cons.IH Cons.prems(2) by (meson list.set_intros(2))
    show ?case
    proof (cases e)
      case (Open p x)
      then have "0 \<le> fst x" using Cons.prems(2) [of p x] by simp
      then show ?thesis using Open IH exposure_nonneg_fill Cons.prems(1) by simp
    next
      case (Close p x)
      then show ?thesis using IH exposure_nonneg_close by simp
    qed
  qed simp
  have "0 \<le> pf_total_exposure (fold portfolio_step es (new_portfolio day))"
    by (rule nonneg) (simp add: new_portfolio_def)
  then show ?thesis
    using win_rate_range by (simp add: get_state_def check_daily_reset_def update_daily_loss_def Let_def)
qed

theorem portfolio_state_well_formed_witness:
  "let pf = fold portfolio_step [Open (''EURUSD'', ''BUY'') (1 / 10, 0), Close (''EURUSD'', ''BUY'') (2 / 10, 5)]
              (new_portfolio ''2026-01-05'');
       st = fst (get_state ''2026-01-06'' pf)
   in 0 \<le> gs_total_exposure st \<and> 0 \<le> gs_win_rate st \<and> gs_win_rate st \<le> 1 \<and>
      gs_daily_loss_pct (fst (get_state ''2026-01-06'' (update_daily_loss ''2026-01-05'' 2 pf)))
        = (if ''2026-01-06'' = ''2026-01-05'' then 2 else 0)"
  by (rule portfolio_state_well_formed) auto

end
