(* ===== verification/Extended_Decimals.thy ===== *)
theory Extended_Decimals
  imports Decimals
begin

text \<open>
  Decimals as they arrive from outside: a dictionary entry or a protobuf string may be absent, garbage,
  infinite or NaN. Ordering comparisons with NaN raise \<open>InvalidOperation\<close>, as the default decimal
  context traps it. The validator and the order manager read their inputs through these definitions.
\<close>

section \<open>Decimals with infinities and NaN\<close>

datatype xdecimal = Fin decimal | PosInf | NegInf | NaN

datatype num_field = Absent | Num xdecimal | Garbage

text \<open>\<open>Decimal(str(d.get(key, default)))\<close>.\<close>

fun parse_num :: "decimal \<Rightarrow> num_field \<Rightarrow> xdecimal result" where
  "parse_num d Absent = Inr (Fin d)"
| "parse_num d (Num x) = Inr x"
| "parse_num d Garbage = Inl InvalidOperation"

fun xless :: "xdecimal \<Rightarrow> xdecimal \<Rightarrow> bool result" where
  "xless NaN y = Inl InvalidOperation"
| "xless x NaN = Inl InvalidOperation"
| "xless (Fin x) (Fin y) = Inr (x < y)"
| "xless NegInf y = Inr (y \<noteq> NegInf)"
| "xless x NegInf = Inr False"
| "xless x PosInf = Inr (x \<noteq> PosInf)"
| "xless PosInf y = Inr False"

definition xge :: "xdecimal \<Rightarrow> xdecimal \<Rightarrow> bool result" where
  "xge x y = rbind (xless x y) (\<lambda>b. Inr (\<not> b))"

fun xsign :: "xdecimal \<Rightarrow> int" where
  "xsign (Fin x) = (if 0 < x then 1 else if x < 0 then - 1 else 0)"
| "xsign PosInf = 1"
| "xsign NegInf = - 1"
| "xsign NaN = 0"

text \<open>Products and differences: NaN propagates, \<open>0 * Infinity\<close> and \<open>Infinity - Infinity\<close> raise.\<close>

fun xmul :: "xdecimal \<Rightarrow> xdecimal \<Rightarrow> xdecimal result" where
  "xmul NaN y = Inr NaN"
| "xmul x NaN = Inr NaN"
| "xmul (Fin x) (Fin y) = Inr (Fin (dec_mul x y))"
| "xmul x y = (let s = xsign x * xsign y
               in if s = 0 then Inl InvalidOperation else if 0 < s then Inr PosInf else Inr NegInf)"

fun xsub :: "xdecimal \<Rightarrow> xdecimal \<Rightarrow> xdecimal result" where
  "xsub NaN y = Inr NaN"
| "xsub x NaN = Inr NaN"
| "xsub (Fin x) (Fin y) = Inr (Fin (dec_sub x y))"
| "xsub (Fin x) PosInf = Inr NegInf"
| "xsub (Fin x) NegInf = Inr PosInf"
| "xsub PosInf PosInf = Inl InvalidOperation"
| "xsub NegInf NegInf = Inl InvalidOperation"
| "xsub x y = Inr x"

text \<open>Division by \<open>Decimal(str(leverage))\<close>, an integer.\<close>

fun xdiv_int :: "xdecimal \<Rightarrow> int \<Rightarrow> xdecimal result" where
  "xdiv_int NaN n = Inr NaN"
| "xdiv_int (Fin x) n =
     (if n = 0 then (if x = 0 then Inl InvalidOperation else Inl ZeroDivisionError)
      else Inr (Fin (dec_div x (of_int n))))"
| "xdiv_int PosInf n = Inr (if n < 0 then NegInf else PosInf)"
| "xdiv_int NegInf n = Inr (if n < 0 then PosInf else NegInf)"

fun xquantize :: "nat \<Rightarrow> xdecimal \<Rightarrow> xdecimal result" where
  "xquantize n (Fin x) = rbind (quantize n x) (\<lambda>y. Inr (Fin y))"
| "xquantize n NaN = Inr NaN"
| "xquantize n x = Inl InvalidOperation"

definition is_special :: "xdecimal \<Rightarrow> bool" where
  "is_special x \<longleftrightarrow> x = NaN \<or> x = PosInf \<or> x = NegInf"

section \<open>Lemmas\<close>

lemma xge_Fin [simp]: "xge (Fin x) (Fin y) = Inr (y \<le> x)"
  by (auto simp: xge_def)

lemma is_special_simps [simp]:
  "\<not> is_special (Fin x)" "is_special NaN" "is_special PosInf" "is_special NegInf"
  by (simp_all add: is_special_def)

lemma not_special_Fin: "\<not> is_special x \<Longrightarrow> \<exists>y. x = Fin y"
  by (cases x) simp_all

end
