(* ===== verification/Validator.thy ===== *)
theory Validator
  imports Market_Filters Portfolio Extended_Decimals
begin

text \<open>
  \<open>algo_engine/signals/validator.py\<close> (class \<open>SignalValidator\<close>): the eleven checks in the order
  of the code. Signal and portfolio are dictionaries whose numeric entries may be absent, garbage,
  infinite or NaN, so a numeric entry is a \<open>num_field\<close> and reading it may raise. The reason text of a
  rejection is represented by the check that produced it.
\<close>

section \<open>The validator\<close>

record validator =
  v_max_open_positions :: int
  v_max_drawdown_pct :: decimal
  v_max_daily_loss_pct :: decimal
  v_min_confidence :: decimal
  v_min_risk_reward_ratio :: decimal
  v_correlation :: "rat option"
  v_session :: bool
  v_calendar :: "calendar_filter option"
  v_spread_tracker :: "spread_tracker option"
  v_default_leverage :: int
  v_margin_buffer_pct :: decimal

text \<open>
  The signal and portfolio dictionaries. A spread is finite when present; a leverage entry is the
  outcome of \<open>int(...)\<close>.
\<close>

record vsignal =
  vs_direction :: "string option"
  vs_symbol :: "string option"
  vs_confidence :: num_field
  vs_spread :: "decimal option"
  vs_stop_loss :: num_field
  vs_entry_price :: num_field
  vs_risk_reward :: num_field
  vs_suggested_lots :: num_field

record vstate =
  vp_open_position_count :: "int option"
  vp_current_drawdown_pct :: num_field
  vp_daily_loss_pct :: num_field
  vp_equity :: num_field
  vp_used_margin :: num_field
  vp_leverage :: "int result option"
  vp_positions_detail :: "(string \<times> string) list option"

datatype rejection =
    RHold | RMaxPositions | RDrawdown | RDailyLoss | RConfidenceSpecial | RConfidenceLow | RSpread
  | REntrySpecial | RStopSpecial | RStopZero | RStopBuySide | RStopSellSide | RRiskReward | RMargin
  | RCorrelation | RSession | RCalendar

datatype verdict = Accepted | Rejected rejection

definition normalise_direction :: "string option \<Rightarrow> direction" where
  "normalise_direction d =
     (case d of None \<Rightarrow> HOLD | Some s \<Rightarrow> (case direction_of s of Inl _ \<Rightarrow> HOLD | Inr x \<Rightarrow> x))"

definition vsymbol :: "vsignal \<Rightarrow> string" where
  "vsymbol s = opt_get (vs_symbol s) []"

text \<open>Checks 5b, 8, 9, 10 and 11 in their own definitions; \<open>Inr True\<close> lets the signal pass.\<close>

definition spread_gate :: "validator \<Rightarrow> vsignal \<Rightarrow> bool result" where
  "spread_gate v s =
     (case v_spread_tracker v of
        None \<Rightarrow> Inr True
      | Some st \<Rightarrow>
          let current_spread = opt_get (vs_spread s) 0
          in if 0 < current_spread then spread_check st (vsymbol s) current_spread else Inr True)"

definition contract_size :: "string \<Rightarrow> decimal" where
  "contract_size symbol =
     (if str_contains ''XAU'' symbol then 100 else if str_contains ''XAG'' symbol then 5000 else 100000)"

definition account_leverage :: "validator \<Rightarrow> vstate \<Rightarrow> int result" where
  "account_leverage v p =
     rbind (case vp_leverage p of None \<Rightarrow> Inr (v_default_leverage v) | Some l \<Rightarrow> l) (\<lambda>l.
       Inr (if l \<le> 0 then v_default_leverage v else l))"

definition margin_gate :: "validator \<Rightarrow> vsignal \<Rightarrow> vstate \<Rightarrow> xdecimal \<Rightarrow> bool result" where
  "margin_gate v s p entry_price =
     rbind (parse_num 0 (vp_equity p)) (\<lambda>equity.
     rbind (parse_num 0 (vp_used_margin p)) (\<lambda>used_margin.
     rbind (parse_num 0 (vs_suggested_lots s)) (\<lambda>lots.
     rbind (xless (Fin 0) equity) (\<lambda>equity_pos.
     if \<not> equity_pos then Inr True
     else rbind (xless (Fin 0) lots) (\<lambda>lots_pos.
     if \<not> lots_pos then Inr True
     else rbind (account_leverage v p) (\<lambda>leverage.
          rbind (xmul lots (Fin (contract_size (vsymbol s)))) (\<lambda>a.
          rbind (xmul a entry_price) (\<lambda>b.
          rbind (xdiv_int b leverage) (\<lambda>estimated_margin.
          rbind (xsub equity used_margin) (\<lambda>available_margin.
          rbind (xmul available_margin (Fin (v_margin_buffer_pct v))) (\<lambda>margin_buffer.
          rbind (xless margin_buffer estimated_margin) (\<lambda>too_much. Inr (\<not> too_much)))))))))))))"

definition correlation_gate :: "validator \<Rightarrow> vsignal \<Rightarrow> vstate \<Rightarrow> direction \<Rightarrow> bool" where
  "correlation_gate v s p d =
     (case v_correlation v of
        None \<Rightarrow> True
      | Some mx \<Rightarrow> correlation_check mx (vsymbol s) (direction_value d) (opt_get (vp_positions_detail p) []))"

definition session_threshold :: "validator \<Rightarrow> int \<Rightarrow> decimal" where
  "session_threshold v utc_hour =
     max (30 / 100) (dec_sub (v_min_confidence v) (confidence_boost (classify_session utc_hour)))"

definition session_gate :: "validator \<Rightarrow> int \<Rightarrow> decimal \<Rightarrow> bool" where
  "session_gate v utc_hour confidence = (\<not> v_session v \<or> \<not> confidence < session_threshold v utc_hour)"

definition calendar_gate :: "validator \<Rightarrow> vsignal \<Rightarrow> utc_time \<Rightarrow> bool result" where
  "calendar_gate v s now =
     (case v_calendar v of
        None \<Rightarrow> Inr True
      | Some cf \<Rightarrow> rbind (is_blackout cf (vsymbol s) now) (\<lambda>r. Inr (\<not> fst r)))"

text \<open>Checks 6 to 11, after the confidence is known to be the finite \<open>confidence\<close>.\<close>

definition validate_prices ::
  "validator \<Rightarrow> int \<Rightarrow> utc_time \<Rightarrow> vsignal \<Rightarrow> vstate \<Rightarrow> direction \<Rightarrow> decimal \<Rightarrow> verdict result" where
  "validate_prices v utc_hour now s p d confidence =
     rbind (parse_num 0 (vs_stop_loss s)) (\<lambda>stop_loss.
     rbind (parse_num 0 (vs_entry_price s)) (\<lambda>entry_price.
     if is_special entry_price then Inr (Rejected REntrySpecial)
     else if is_special stop_loss then Inr (Rejected RStopSpecial)
     else if stop_loss = Fin 0 then Inr (Rejected RStopZero)
     else rbind (xge stop_loss entry_price) (\<lambda>at_or_above.
          if d = BUY \<and> at_or_above then Inr (Rejected RStopBuySide)
     else rbind (xge entry_price stop_loss) (\<lambda>at_or_below.
          if d = SELL \<and> at_or_below then Inr (Rejected RStopSellSide)
     else rbind (parse_num 0 (vs_risk_reward s)) (\<lambda>risk_reward.
          rbind (xless risk_reward (Fin (v_min_risk_reward_ratio v))) (\<lambda>low_rr.
          if low_rr \<and> 0 < v_min_risk_reward_ratio v then Inr (Rejected RRiskReward)
     else rbind (margin_gate v s p entry_price) (\<lambda>margin_ok.
          if \<not> margin_ok then Inr (Rejected RMargin)
     else if \<not> correlation_gate v s p d then Inr (Rejected RCorrelation)
     else if \<not> session_gate v utc_hour confidence then Inr (Rejected RSession)
     else rbind (calendar_gate v s now) (\<lambda>calendar_ok.
          if \<not> calendar_ok then Inr (Rejected RCalendar) else Inr Accepted))))))))"

definition validate :: "validator \<Rightarrow> int \<Rightarrow> utc_time \<Rightarrow> vsignal \<Rightarrow> vstate \<Rightarrow> verdict result" where
  "validate v utc_hour now s p =
     (let d = normalise_direction (vs_direction s)
      in if d = HOLD then Inr (Rejected RHold)
         else if v_max_open_positions v \<le> opt_get (vp_open_position_count p) 0 then Inr (Rejected RMaxPositions)
         else rbind (parse_num 0 (vp_current_drawdown_pct p)) (\<lambda>current_drawdown.
              rbind (xge current_drawdown (Fin (v_max_drawdown_pct v))) (\<lambda>dd_hit.
              if dd_hit then Inr (Rejected RDrawdown)
         else rbind (parse_num 0 (vp_daily_loss_pct p)) (\<lambda>daily_loss.
              rbind (xge daily_loss (Fin (v_max_daily_loss_pct v))) (\<lambda>loss_hit.
              if loss_hit then Inr (Rejected RDailyLoss)
         else rbind (parse_num 0 (vs_confidence s)) (\<lambda>conf.
              case conf of
                Fin confidence \<Rightarrow>
                  (if confidence < v_min_confidence v then Inr (Rejected RConfidenceLow)
                   else rbind (spread_gate v s) (\<lambda>spread_ok.
                        if \<not> spread_ok then Inr (Rejected RSpread)
                        else validate_prices v utc_hour now s p d confidence))
              | _ \<Rightarrow> Inr (Rejected RConfidenceSpecial)))))))"

section \<open>Lemmas\<close>

lemma Rejected_not_Accepted [simp]: "Rejected r \<noteq> Accepted" "Accepted \<noteq> Rejected r"
  by simp_all

text \<open>The margin check on finite fields.\<close>

lemma margin_gate_finite:
  assumes "parse_num 0 (vp_equity p) = Inr (Fin eqty)" "parse_num 0 (vp_used_margin p) = Inr (Fin used)"
    "parse_num 0 (vs_suggested_lots s) = Inr (Fin lots)" "account_leverage v p = Inr lev" "lev \<noteq> 0"
  shows "margin_gate v s p (Fin entry) =
     Inr (0 < eqty \<and> 0 < lots \<longrightarrow>
        dec_div (dec_mul (dec_mul lots (contract_size (vsymbol s))) entry) (of_int lev)
          \<le> dec_mul (dec_sub eqty used) (v_margin_buffer_pct v))"
  using assms by (auto simp: margin_gate_def not_less)

text \<open>Acceptance by the second half, on prices known to be finite.\<close>

lemma validate_prices_finite:
  assumes "parse_num 0 (vs_stop_loss s) = Inr (Fin sl)" "parse_num 0 (vs_entry_price s) = Inr (Fin entry)"
    "parse_num 0 (vs_risk_reward s) = Inr (Fin rr)" "margin_gate v s p (Fin entry) = Inr mg"
    "calendar_gate v s now = Inr cal"
  shows "\<exists>r. validate_prices v h now s p d c = Inr r \<and>
     (r = Accepted \<longleftrightarrow> sl \<noteq> 0 \<and> (d = BUY \<longrightarrow> sl < entry) \<and> (d = SELL \<longrightarrow> entry < sl) \<and>
        (0 < v_min_risk_reward_ratio v \<longrightarrow> v_min_risk_reward_ratio v \<le> rr) \<and> mg \<and>
        correlation_gate v s p d \<and> session_gate v h c \<and> cal)"
  using assms by (auto simp: validate_prices_def not_le not_less)

lemma validate_prices_sound:
  assumes "validate_prices v h now s p d c = Inr Accepted"
  shows "\<exists>sl entry. parse_num 0 (vs_stop_loss s) = Inr (Fin sl) \<and> parse_num 0 (vs_entry_price s) = Inr (Fin entry) \<and>
     sl \<noteq> 0 \<and> (d = BUY \<longrightarrow> sl < entry) \<and> (d = SELL \<longrightarrow> entry < sl) \<and>
     correlation_gate v s p d \<and> session_gate v h c \<and> calendar_gate v s now = Inr True"
proof -
  obtain x y where xy: "parse_num 0 (vs_stop_loss s) = Inr x" "parse_num 0 (vs_entry_price s) = Inr y"
    "\<not> is_special x" "\<not> is_special y"
    using assms by (auto simp: validate_prices_def split: if_splits)
  then obtain sl entry where "x = Fin sl" "y = Fin entry" using not_special_Fin by blast
  then show ?thesis using xy assms by (auto simp: validate_prices_def not_le split: if_splits)
qed

text \<open>The two halves together: acceptance characterised on finite inputs, and its facts on all inputs.\<close>

lemma validate_finite_iff:
  assumes "parse_num 0 (vp_current_drawdown_pct p) = Inr (Fin dd)" "parse_num 0 (vp_daily_loss_pct p) = Inr (Fin dl)"
    and "parse_num 0 (vs_confidence s) = Inr (Fin c)" "parse_num 0 (vs_stop_loss s) = Inr (Fin sl)"
    and "parse_num 0 (vs_entry_price s) = Inr (Fin entry)" "parse_num 0 (vs_risk_reward s) = Inr (Fin rr)"
    and "parse_num 0 (vp_equity p) = Inr (Fin eqty)" "parse_num 0 (vp_used_margin p) = Inr (Fin used)"
    and "parse_num 0 (vs_suggested_lots s) = Inr (Fin lots)" "account_leverage v p = Inr lev" "lev \<noteq> 0"
    and "spread_gate v s = Inr spread_ok" "calendar_gate v s now = Inr cal_ok"
  shows "\<exists>r. validate v h now s p = Inr r \<and>
     (r = Accepted \<longleftrightarrow>
        normalise_direction (vs_direction s) \<noteq> HOLD \<and>
        opt_get (vp_open_position_count p) 0 < v_max_open_positions v \<and>
        dd < v_max_drawdown_pct v \<and> dl < v_max_daily_loss_pct v \<and> v_min_confidence v \<le> c \<and> spread_ok \<and>
        sl \<noteq> 0 \<and> (normalise_direction (vs_direction s) = BUY \<longrightarrow> sl < entry) \<and>
        (normalise_direction (vs_direction s) = SELL \<longrightarrow> entry < sl) \<and>
        (0 < v_min_risk_reward_ratio v \<longrightarrow> v_min_risk_reward_ratio v \<le> rr) \<and>
        (0 < eqty \<and> 0 < lots \<longrightarrow>
           dec_div (dec_mul (dec_mul lots (contract_size (vsymbol s))) entry) (of_int lev)
             \<le> dec_mul (dec_sub eqty used) (v_margin_buffer_pct v)) \<and>
        correlation_gate v s p (normalise_direction (vs_direction s)) \<and> session_gate v h c \<and> cal_ok)"
proof -
  let ?d = "normalise_direction (vs_direction s)"
  obtain r where r: "validate_prices v h now s p ?d c = Inr r"
    "r = Accepted \<longleftrightarrow> sl \<noteq> 0 \<and> (?d = BUY \<longrightarrow> sl < entry) \<and> (?d = SELL \<longrightarrow> entry < sl) \<and>
        (0 < v_min_risk_reward_ratio v \<longrightarrow> v_min_risk_reward_ratio v \<le> rr) \<and>
        (0 < eqty \<and> 0 < lots \<longrightarrow>
           dec_div (dec_mul (dec_mul lots (contract_size (vsymbol s))) entry) (of_int lev)
             \<le> dec_mul (dec_sub eqty used) (v_margin_buffer_pct v)) \<and>
        correlation_gate v s p ?d \<and> session_gate v h c \<and> cal_ok"
    using validate_prices_finite [OF assms(4-6) margin_gate_finite [OF assms(7-11)] assms(13), of h ?d c] by blast
  show ?thesis
    using assms(1-3,12) r(1) unfolding validate_def Let_def
    by (cases "?d = HOLD"; cases "v_max_open_positions v \<le> opt_get (vp_open_position_count p) 0";
        cases "v_max_drawdown_pct v \<le> dd"; cases "v_max_daily_loss_pct v \<le> dl";
        cases "c < v_min_confidence v"; cases spread_ok) (simp_all add: r(2))
qed

lemma validate_accepted_facts:
  assumes "validate v h now s p = Inr Accepted"
  shows "\<exists>c sl entry. parse_num 0 (vs_confidence s) = Inr (Fin c) \<and> v_min_confidence v \<le> c \<and>
     parse_num 0 (vs_stop_loss s) = Inr (Fin sl) \<and> parse_num 0 (vs_entry_price s) = Inr (Fin entry) \<and> sl \<noteq> 0 \<and>
     opt_get (vp_open_position_count p) 0 < v_max_open_positions v \<and>
     (normalise_direction (vs_direction s) = BUY \<and> sl < entry \<or>
      normalise_direction (vs_direction s) = SELL \<and> entry < sl)"
proof -
  let ?d = "normalise_direction (vs_direction s)"
  obtain x where x: "parse_num 0 (vs_confidence s) = Inr x"
    and acc: "(case x of
                Fin confidence \<Rightarrow>
                  (if confidence < v_min_confidence v then Inr (Rejected RConfidenceLow)
                   else rbind (spread_gate v s) (\<lambda>spread_ok.
                        if \<not> spread_ok then Inr (Rejected RSpread)
                        else validate_prices v h now s p ?d confidence))
              | _ \<Rightarrow> Inr (Rejected RConfidenceSpecial)) = Inr Accepted"
    and d: "?d \<noteq> HOLD" and n: "opt_get (vp_open_position_count p) 0 < v_max_open_positions v"
    using assms by (auto simp: validate_def Let_def not_le split: if_splits)
  obtain c where c: "x = Fin c" "v_min_confidence v \<le> c" "validate_prices v h now s p ?d c = Inr Accepted"
    using acc by (cases x) (auto split: if_splits)
  then show ?thesis using validate_prices_sound [OF c(3)] x d n by (cases ?d) auto
qed

section \<open>Properties\<close>

text \<open>
  C4. Functional correctness of the risk validator: on finite inputs, with a nonzero leverage and
  with the spread and calendar filters returning, it returns a verdict, and it accepts if and only if all
  of its documented conditions hold (direction, open positions, drawdown, daily loss, confidence, spread,
  stop-loss side, risk/reward, margin, correlation, session, calendar).
\<close>

theorem validate_accepts_iff:
  assumes "parse_num 0 (vp_current_drawdown_pct p) = Inr (Fin dd)" "parse_num 0 (vp_daily_loss_pct p) = Inr (Fin dl)"
    and "parse_num 0 (vs_confidence s) = Inr (Fin c)" "parse_num 0 (vs_stop_loss s) = Inr (Fin sl)"
    and "parse_num 0 (vs_entry_price s) = Inr (Fin entry)" "parse_num 0 (vs_risk_reward s) = Inr (Fin rr)"
    and "parse_num 0 (vp_equity p) = Inr (Fin eqty)" "parse_num 0 (vp_used_margin p) = Inr (Fin used)"
    and "parse_num 0 (vs_suggested_lots s) = Inr (Fin lots)" "account_leverage v p = Inr lev" "lev \<noteq> 0"
    and "spread_gate v s = Inr spread_ok" "calendar_gate v s now = Inr cal_ok"
  shows "\<exists>r. validate v h now s p = Inr r \<and>
     (r = Accepted \<longleftrightarrow>
        normalise_direction (vs_direction s) \<noteq> HOLD \<and>
        opt_get (vp_open_position_count p) 0 < v_max_open_positions v \<and>
        dd < v_max_drawdown_pct v \<and> dl < v_max_daily_loss_pct v \<and> v_min_confidence v \<le> c \<and> spread_ok \<and>
        sl \<noteq> 0 \<and> (normalise_direction (vs_direction s) = BUY \<longrightarrow> sl < entry) \<and>
        (normalise_direction (vs_direction s) = SELL \<longrightarrow> entry < sl) \<and>
        (0 < v_min_risk_reward_ratio v \<longrightarrow> v_min_risk_reward_ratio v \<le> rr) \<and>
        (0 < eqty \<and> 0 < lots \<longrightarrow>
           dec_div (dec_mul (dec_mul lots (contract_size (vsymbol s))) entry) (of_int lev)
             \<le> dec_mul (dec_sub eqty used) (v_margin_buffer_pct v)) \<and>
        correlation_gate v s p (normalise_direction (vs_direction s)) \<and> session_gate v h c \<and> cal_ok)"
  using validate_finite_iff [OF assms] .

definition sample_validator :: validator where
  "sample_validator =
     \<lparr>v_max_open_positions = 5, v_max_drawdown_pct = 5, v_max_daily_loss_pct = 2, v_min_confidence = 65 / 100,
      v_min_risk_reward_ratio = 1, v_correlation = Some 3, v_session = True, v_calendar = None,
      v_spread_tracker = None, v_default_leverage = 100, v_margin_buffer_pct = 80 / 100\<rparr>"

definition sample_vsignal :: vsignal where
  "sample_vsignal =
     \<lparr>vs_direction = Some ''BUY'', vs_symbol = Some ''EURUSD'', vs_confidence = Num (Fin (7 / 10)),
      vs_spread = None, vs_stop_loss = Num (Fin (109 / 100)), vs_entry_price = Num (Fin (11 / 10)),
      vs_risk_reward = Num (Fin 2), vs_suggested_lots = Num (Fin (1 / 10))\<rparr>"

definition sample_vstate :: vstate where
  "sample_vstate =
     \<lparr>vp_open_position_count = Some 1, vp_current_drawdown_pct = Num (Fin 1), vp_daily_loss_pct = Absent,
      vp_equity = Num (Fin 1000), vp_used_margin = Num (Fin 0), vp_leverage = None,
      vp_positions_detail = Some [(''EURUSD'', ''BUY'')]\<rparr>"

lemma sample_gates:
  "account_leverage sample_validator sample_vstate = Inr 100" "spread_gate sample_validator sample_vsignal = Inr True"
  "calendar_gate sample_validator sample_vsignal now = Inr True"
  by (simp_all add: account_leverage_def spread_gate_def calendar_gate_def sample_validator_def
      sample_vstate_def sample_vsignal_def)

theorem validate_accepts_iff_witness:
  "\<forall>now. validate sample_validator 9 now sample_vsignal sample_vstate = Inr Accepted"
proof
  fix now
  have net: "net_exposure [(''EURUSD'', ''BUY'')] = [''EUR'' \<mapsto> 1, ''USD'' \<mapsto> -1]"
    using flt_round_int [of 1] flt_round_int [of "-1"]
    by (simp add: net_exposure_def decompose_exposure_def CURRENCY_PAIRS_def add_exposure_def exposure_get_def opt_get_def)
  have "correlation_gate sample_validator sample_vsignal sample_vstate BUY"
    using flt_round_int [of 2] flt_round_int [of "-2"]
    by (simp add: correlation_gate_def correlation_check_def net decompose_exposure_def CURRENCY_PAIRS_def
        sample_validator_def sample_vsignal_def sample_vstate_def vsymbol_def opt_get_def exposure_get_def)
  moreover have "session_gate sample_validator 9 (7 / 10)"
    by (simp add: session_gate_def session_threshold_def classify_session_def sample_validator_def dec_sub_def num_eval)
  moreover have "normalise_direction (vs_direction sample_vsignal) = BUY"
    by (simp add: normalise_direction_def direction_of_def sample_vsignal_def)
  moreover have "\<not> str_contains ''XAU'' ''EURUSD''" "\<not> str_contains ''XAG'' ''EURUSD''"
    by (simp_all add: str_starts_def)
  ultimately show "validate sample_validator 9 now sample_vsignal sample_vstate = Inr Accepted"
    using validate_accepts_iff [of sample_vstate 1 0 sample_vsignal "7 / 10" "109 / 100" "11 / 10" 2 1000 0
        "1 / 10" sample_validator 100 True now True 9]
    by (simp add: sample_gates)
      (simp add: sample_vstate_def sample_vsignal_def sample_validator_def opt_get_def contract_size_def
        vsymbol_def dec_ops num_eval)
qed

text \<open>
  Soundness on arbitrary dictionaries: whatever is missing, garbage, infinite or NaN, a signal that is
  accepted has a BUY or SELL direction, free position slots, a finite confidence of at least the minimum,
  and finite entry and nonzero stop prices with the stop on the protective side of the entry.
\<close>

theorem validate_sound:
  assumes "validate v h now s p = Inr Accepted"
  shows "\<exists>c sl entry. parse_num 0 (vs_confidence s) = Inr (Fin c) \<and> v_min_confidence v \<le> c \<and>
     parse_num 0 (vs_stop_loss s) = Inr (Fin sl) \<and> parse_num 0 (vs_entry_price s) = Inr (Fin entry) \<and> sl \<noteq> 0 \<and>
     opt_get (vp_open_position_count p) 0 < v_max_open_positions v \<and>
     (normalise_direction (vs_direction s) = BUY \<and> sl < entry \<or>
      normalise_direction (vs_direction s) = SELL \<and> entry < sl)"
  using validate_accepted_facts [OF assms] .

theorem validate_sound_witness:
  "\<exists>c sl entry. parse_num 0 (vs_confidence sample_vsignal) = Inr (Fin c) \<and> v_min_confidence sample_validator \<le> c \<and>
     parse_num 0 (vs_stop_loss sample_vsignal) = Inr (Fin sl) \<and>
     parse_num 0 (vs_entry_price sample_vsignal) = Inr (Fin entry) \<and> sl \<noteq> 0 \<and>
     opt_get (vp_open_position_count \<lparr>vp_open_position_count = Some 0, vp_current_drawdown_pct = Num NegInf,
       vp_daily_loss_pct = Absent, vp_equity = Absent, vp_used_margin = Absent, vp_leverage = None,
       vp_positions_detail = None\<rparr>) 0 < v_max_open_positions sample_validator \<and>
     (normalise_direction (vs_direction sample_vsignal) = BUY \<and> sl < entry \<or>
      normalise_direction (vs_direction sample_vsignal) = SELL \<and> entry < sl)"
proof -
  let ?p = "\<lparr>vp_open_position_count = Some 0, vp_current_drawdown_pct = Num NegInf,
       vp_daily_loss_pct = Absent, vp_equity = Absent, vp_used_margin = Absent, vp_leverage = None,
       vp_positions_detail = None\<rparr>"
  let ?v = "sample_validator\<lparr>v_correlation := None, v_session := False\<rparr>"
  have "validate ?v 9 \<lparr>ut_seconds = 0, ut_weekday = 0, ut_day = 1, ut_hour = 9, ut_minute = 0\<rparr> sample_vsignal ?p
      = Inr Accepted"
    by (simp add: validate_def validate_prices_def normalise_direction_def direction_of_def sample_vsignal_def
        sample_validator_def opt_get_def spread_gate_def margin_gate_def correlation_gate_def session_gate_def
        calendar_gate_def xge_def)
  from validate_sound [OF this] show ?thesis by (simp add: sample_validator_def)
qed

text \<open>
  The session bonus is dead code: during the London/US overlap the threshold is lowered, but check 5
  has already required the full minimum confidence, so switching the session check off changes
  nothing at those hours.
\<close>

theorem overlap_boost_has_no_effect:
  assumes "13 \<le> h" "h < 16" "30 / 100 \<le> v_min_confidence v" "dec_round (v_min_confidence v) = v_min_confidence v"
  shows "validate v h now s p = validate (v\<lparr>v_session := False\<rparr>) h now s p"
proof -
  have "session_threshold v h \<le> v_min_confidence v"
    using assms unfolding session_threshold_def by (auto simp: classify_session_def dec_sub_def intro: dec.rnd_le)
  then have g: "v_min_confidence v \<le> c \<Longrightarrow> session_gate v h c" for c by (simp add: session_gate_def)
  have al: "account_leverage (v\<lparr>v_session := False\<rparr>) = account_leverage v"
    by (simp add: fun_eq_iff account_leverage_def cong: option.case_cong if_cong)
  have same: "margin_gate (v\<lparr>v_session := False\<rparr>) = margin_gate v"
    "correlation_gate (v\<lparr>v_session := False\<rparr>) = correlation_gate v"
    "calendar_gate (v\<lparr>v_session := False\<rparr>) = calendar_gate v"
    "spread_gate (v\<lparr>v_session := False\<rparr>) = spread_gate v" "session_gate (v\<lparr>v_session := False\<rparr>) h c" for c
    by (simp_all add: fun_eq_iff margin_gate_def al correlation_gate_def calendar_gate_def
        spread_gate_def session_gate_def cong: if_cong)
  have p: "validate_prices (v\<lparr>v_session := False\<rparr>) h now s p d c = validate_prices v h now s p d c"
    if "v_min_confidence v \<le> c" for d c
    using g [OF that] by (simp add: validate_prices_def same cong: if_cong)
  show ?thesis
    by (simp add: validate_def same p not_less Let_def cong: if_cong xdecimal.case_cong)
qed

theorem overlap_boost_has_no_effect_witness:
  "\<forall>now. validate sample_validator 14 now (sample_vsignal\<lparr>vs_confidence := Num (Fin (62 / 100))\<rparr>) sample_vstate =
     validate (sample_validator\<lparr>v_session := False\<rparr>) 14 now (sample_vsignal\<lparr>vs_confidence := Num (Fin (62 / 100))\<rparr>) sample_vstate"
  using overlap_boost_has_no_effect [of 14 sample_validator] by (simp add: sample_validator_def num_eval)

text \<open>
  NaN is handled unevenly: a NaN confidence, entry or stop is a rejection, but a NaN drawdown (with
  free slots and a direction) raises \<open>InvalidOperation\<close> out of \<open>validate\<close>.
\<close>

theorem validate_nan_drawdown_raises:
  assumes "normalise_direction (vs_direction s) \<noteq> HOLD"
    "opt_get (vp_open_position_count p) 0 < v_max_open_positions v" "vp_current_drawdown_pct p = Num NaN"
  shows "validate v h now s p = Inl InvalidOperation"
  using assms by (simp add: validate_def xge_def)

theorem validate_nan_drawdown_raises_witness:
  "\<forall>now. validate sample_validator 9 now sample_vsignal (sample_vstate\<lparr>vp_current_drawdown_pct := Num NaN\<rparr>)
     = Inl InvalidOperation"
  using validate_nan_drawdown_raises [of sample_vsignal "sample_vstate\<lparr>vp_current_drawdown_pct := Num NaN\<rparr>"
      sample_validator 9]
  by (simp add: sample_vsignal_def sample_vstate_def sample_validator_def normalise_direction_def direction_of_def
      opt_get_def)

end
