(* ===== verification/Market_Data.thy ===== *)
theory Market_Data
  imports Market_Types
begin

text \<open>
  The entrance of the pipeline: \<open>features/data_quality.py\<close> (class \<open>DataQualityChecker\<close>) and the
  topic classification and \<open>BarBuffer\<close> of \<open>zmq_adapter.py\<close>. Gap detection by timestamp only writes
  a log line and is not kept. The buffer is shown to be the last-n window of each symbol's own
  history, whatever the interleaving of symbols.
\<close>

section \<open>DataQualityChecker\<close>

record quality_checker =
  dq_max_spike :: decimal
  dq_avg_range :: decimal
  dq_bar_count :: nat

definition new_quality_checker :: "decimal \<Rightarrow> quality_checker" where
  "new_quality_checker max_spike = \<lparr>dq_max_spike = max_spike, dq_avg_range = 0, dq_bar_count = 0\<rparr>"

definition ohlc_ordered :: "ohlcv \<Rightarrow> bool" where
  "ohlc_ordered b =
     (\<not> (bar_high b < bar_open b \<or> bar_high b < bar_close b) \<and>
      \<not> (bar_open b < bar_low b \<or> bar_close b < bar_low b) \<and> \<not> bar_high b < bar_low b)"

definition update_range :: "decimal \<Rightarrow> quality_checker \<Rightarrow> quality_checker" where
  "update_range bar_range q =
     q\<lparr>dq_bar_count := dq_bar_count q + 1,
       dq_avg_range := (if dq_avg_range q = 0 then bar_range
          else let alpha = 5 / 100
               in dec_add (dec_mul alpha bar_range) (dec_mul (dec_sub 1 alpha) (dq_avg_range q)))\<rparr>"

definition is_spike :: "decimal \<Rightarrow> quality_checker \<Rightarrow> bool" where
  "is_spike bar_range q =
     (20 < dq_bar_count q \<and> 0 < dq_avg_range q \<and> dq_max_spike q < dec_div bar_range (dq_avg_range q))"

definition price_jump :: "ohlcv \<Rightarrow> decimal option \<Rightarrow> quality_checker \<Rightarrow> bool" where
  "price_jump b prev_close q =
     (case prev_close of
        None \<Rightarrow> False
      | Some pc \<Rightarrow> 0 < pc \<and> 0 < dq_avg_range q \<and>
          dec_mul (dq_avg_range q) (dq_max_spike q) < dec_abs (dec_sub (bar_open b) pc))"

definition validate_bar :: "ohlcv \<Rightarrow> decimal option \<Rightarrow> quality_checker \<Rightarrow> bool \<times> quality_checker" where
  "validate_bar b prev_close q =
     (if \<not> ohlc_ordered b then (False, q)
      else let bar_range = dec_sub (bar_high b) (bar_low b);
               q' = (if 0 < bar_range then update_range bar_range q else q)
           in if 0 < bar_range \<and> is_spike bar_range q' then (False, q')
              else (\<not> price_jump b prev_close q', q'))"

section \<open>Topics and the bar buffer\<close>

definition determine_message_type :: "string \<Rightarrow> string" where
  "determine_message_type topic =
     (if str_starts ''bar.'' topic then ''bar'' else if str_starts ''trade.'' topic then ''tick'' else ''unknown'')"

record bar_buffer =
  bb_window_size :: nat
  bb_min_bars :: nat
  bb_buffers :: "string \<rightharpoonup> ohlcv list"

definition new_bar_buffer :: "nat \<Rightarrow> nat \<Rightarrow> bar_buffer" where
  "new_bar_buffer w m = \<lparr>bb_window_size = w, bb_min_bars = m, bb_buffers = Map.empty\<rparr>"

definition add_bar :: "string \<Rightarrow> ohlcv \<Rightarrow> bar_buffer \<Rightarrow> ohlcv list option \<times> bar_buffer" where
  "add_bar symbol b bb =
     (let old = (case bb_buffers bb symbol of None \<Rightarrow> [] | Some xs \<Rightarrow> xs);
          buf = deque_append (bb_window_size bb) old b
      in (if bb_min_bars bb \<le> length buf then Some buf else None,
          bb\<lparr>bb_buffers := (bb_buffers bb)(symbol \<mapsto> buf)\<rparr>))"

definition bar_count :: "string \<Rightarrow> bar_buffer \<Rightarrow> nat" where
  "bar_count symbol bb = (case bb_buffers bb symbol of None \<Rightarrow> 0 | Some buf \<Rightarrow> length buf)"

section \<open>Lemmas: the range average\<close>

lemma update_range_pos:
  assumes "0 < r" "0 \<le> dq_avg_range q"
  shows "0 < dq_avg_range (update_range r q)"
proof -
  have "0 < dec_mul (5 / 100) r" using assms(1) by (simp add: dec_mul_pos_iff)
  moreover have "0 \<le> dec_mul (dec_sub 1 (5 / 100)) (dq_avg_range q)"
    using assms(2) by (intro dec_mul_nonneg) (simp_all add: dec_sub_def num_eval)
  ultimately show ?thesis using assms(1)
    by (simp add: update_range_def dec_add_def dec.rnd_pos add_pos_nonneg Let_def)
qed

lemma validate_bar_average:
  "0 \<le> dq_avg_range q \<Longrightarrow> validate_bar b pc q = (ok, q') \<Longrightarrow> 0 \<le> dq_avg_range q'"
  using update_range_pos [of "dec_sub (bar_high b) (bar_low b)" q]
  by (auto simp: validate_bar_def Let_def split: if_splits)

section \<open>Lemmas: the buffer is a window of the history\<close>

text \<open>Feeding bars of several symbols; \<open>history\<close> is what arrived for one symbol.\<close>

definition feed :: "(string \<times> ohlcv) list \<Rightarrow> bar_buffer \<Rightarrow> bar_buffer" where
  "feed xs bb = foldl (\<lambda>bb x. snd (add_bar (fst x) (snd x) bb)) bb xs"

definition history :: "string \<Rightarrow> (string \<times> ohlcv) list \<Rightarrow> ohlcv list" where
  "history symbol xs = [b. (s, b) \<leftarrow> xs, s = symbol]"

lemma history_snoc: "history symbol (xs @ [(s, b)]) = history symbol xs @ (if s = symbol then [b] else [])"
  by (simp add: history_def)

lemma feed_frame: "bb_window_size (feed xs bb) = bb_window_size bb \<and> bb_min_bars (feed xs bb) = bb_min_bars bb"
  by (induction xs rule: rev_induct) (auto simp: feed_def add_bar_def Let_def)

lemma feed_window:
  assumes "0 < w"
  shows "bb_buffers (feed xs (new_bar_buffer w m)) symbol =
     (if history symbol xs = [] then None else Some (last_n w (history symbol xs)))"
proof (induction xs rule: rev_induct)
  case Nil
  then show ?case by (simp add: feed_def history_def new_bar_buffer_def)
next
  case (snoc x xs)
  obtain s b where x: "x = (s, b)" by (cases x)
  let ?bb = "feed xs (new_bar_buffer w m)"
  have step: "feed (xs @ [x]) (new_bar_buffer w m) = snd (add_bar s b ?bb)" by (simp add: feed_def x)
  have w: "bb_window_size ?bb = w" using feed_frame by (simp add: new_bar_buffer_def)
  show ?case
  proof (cases "s = symbol")
    case True
    have "deque_append w (case bb_buffers ?bb symbol of None \<Rightarrow> [] | Some xs \<Rightarrow> xs) b = last_n w (history symbol xs @ [b])"
      using snoc deque_append_last_n [OF assms, of "history symbol xs" b] by (auto simp: last_n_def)
    then show ?thesis using True step w by (simp add: x history_snoc add_bar_def Let_def)
  next
    case False
    then show ?thesis using snoc step by (simp add: x history_snoc add_bar_def Let_def)
  qed
qed

text \<open>
  The average that a bar is compared with already contains the bar: at an average range of 1, a bar of
  range 6 passes the default limit of five times the average.
\<close>

lemma spike_limit_is_diluted:
  "fst (validate_bar \<lparr>bar_timestamp = 0, bar_open = 10, bar_high = 16, bar_low = 10, bar_close = 16, bar_volume = 1\<rparr>
     None \<lparr>dq_max_spike = 5, dq_avg_range = 1, dq_bar_count = 30\<rparr>)"
  by (simp add: validate_bar_def ohlc_ordered_def update_range_def is_spike_def price_jump_def dec_ops num_eval Let_def)

section \<open>Properties\<close>

text \<open>
  What passes the quality gate is well formed: an accepted bar has its open and close between low and
  high; after the warm-up of 20 bars its range is at most the spike limit times the updated average; and
  the jump from a known previous close is limited too.
\<close>

theorem quality_gate_sound:
  assumes "validate_bar b pc q = (True, q')" "0 \<le> dq_avg_range q"
  shows "bar_low b \<le> min (bar_open b) (bar_close b) \<and> max (bar_open b) (bar_close b) \<le> bar_high b \<and>
     0 \<le> dq_avg_range q' \<and>
     (20 < dq_bar_count q' \<and> bar_low b < bar_high b \<longrightarrow>
        dec_div (dec_sub (bar_high b) (bar_low b)) (dq_avg_range q') \<le> dq_max_spike q') \<and>
     (\<forall>c. pc = Some c \<and> 0 < c \<and> 0 < dq_avg_range q' \<longrightarrow>
        dec_abs (dec_sub (bar_open b) c) \<le> dec_mul (dq_avg_range q') (dq_max_spike q'))"
proof -
  let ?r = "dec_sub (bar_high b) (bar_low b)"
  have ord: "ohlc_ordered b" using assms(1) by (auto simp: validate_bar_def split: if_splits)
  have q': "q' = (if 0 < ?r then update_range ?r q else q)" "\<not> (0 < ?r \<and> is_spike ?r q')" "\<not> price_jump b pc q'"
    using assms(1) ord by (auto simp: validate_bar_def Let_def split: if_splits)
  have "0 < dq_avg_range q'" if "0 < ?r" using that q'(1) update_range_pos assms(2) by simp
  then show ?thesis
    using ord q'(2,3) validate_bar_average [OF assms(2,1)]
    by (auto simp: ohlc_ordered_def is_spike_def price_jump_def dec_sub_pos_iff)
qed

theorem quality_gate_sound_witness:
  "let b = \<lparr>bar_timestamp = 0, bar_open = 10, bar_high = 12, bar_low = 10, bar_close = 11, bar_volume = 1\<rparr>;
       r = validate_bar b (Some 10) \<lparr>dq_max_spike = 5, dq_avg_range = 2, dq_bar_count = 30\<rparr>
   in fst r \<and> dec_div (dec_sub (bar_high b) (bar_low b)) (dq_avg_range (snd r)) \<le> dq_max_spike (snd r)"
proof -
  let ?b = "\<lparr>bar_timestamp = 0, bar_open = 10, bar_high = 12, bar_low = 10, bar_close = 11, bar_volume = 1\<rparr> :: ohlcv"
  let ?q = "\<lparr>dq_max_spike = 5, dq_avg_range = 2, dq_bar_count = 30\<rparr>"
  have e: "validate_bar ?b (Some 10) ?q = (True, \<lparr>dq_max_spike = 5, dq_avg_range = 2, dq_bar_count = 31\<rparr>)"
    by (simp add: validate_bar_def ohlc_ordered_def update_range_def is_spike_def price_jump_def dec_ops num_eval Let_def)
  show ?thesis using quality_gate_sound [OF e] by (simp add: e)
qed

text \<open>
  The bar buffer is a per-symbol window: after any interleaving of bars of any symbols, the next bar of a
  symbol returns exactly the last \<open>window_size\<close> bars of that symbol in order of arrival, and returns
  them if and only if at least \<open>min_bars\<close> are in the window.
\<close>

theorem bar_buffer_window:
  assumes "0 < w"
  shows "fst (add_bar symbol b (feed xs (new_bar_buffer w m))) =
     (if m \<le> min w (length (history symbol xs) + 1) then Some (last_n w (history symbol xs @ [b])) else None)"
proof -
  let ?bb = "feed xs (new_bar_buffer w m)"
  have fr: "bb_window_size ?bb = w" "bb_min_bars ?bb = m" using feed_frame by (simp_all add: new_bar_buffer_def)
  have buf: "deque_append w (case bb_buffers ?bb symbol of None \<Rightarrow> [] | Some xs \<Rightarrow> xs) b = last_n w (history symbol xs @ [b])"
    using feed_window [OF assms, of xs m symbol] deque_append_last_n [OF assms, of "history symbol xs" b]
    by (auto simp: last_n_def)
  have len: "length (last_n w (history symbol xs @ [b])) = min w (length (history symbol xs) + 1)" by simp
  show ?thesis unfolding add_bar_def fr buf Let_def len by simp
qed

theorem bar_buffer_window_witness:
  "let b = \<lambda>t. \<lparr>bar_timestamp = t, bar_open = 1, bar_high = 1, bar_low = 1, bar_close = 1, bar_volume = 1\<rparr> :: ohlcv
   in fst (add_bar ''EURUSD'' (b 4) (feed [(''EURUSD'', b 1), (''XAUUSD'', b 2), (''EURUSD'', b 3)] (new_bar_buffer 2 2)))
      = Some [b 3, b 4]"
  using bar_buffer_window [of 2]
  by (simp add: history_def last_n_def)

end
