(* ===== verification/Regime.thy ===== *)
theory Regime
  imports Market_Types
begin

text \<open>
  \<open>algo_engine/features/regime.py\<close> (class \<open>RegimeClassifier\<close>): threshold rules with separate entry
  and exit levels, then a counter that only lets the reported regime change after a run of equal raw
  classifications. The lemmas make that run visible: a ghost list of raw classifications goes along with
  the classifier's state.
\<close>

section \<open>State\<close>

record regime_classifier =
  rc_atr_window :: nat
  rc_atr_history :: "decimal list"
  rc_prev_adx :: "decimal option"
  rc_hysteresis_bars :: nat
  rc_current :: market_regime
  rc_candidate :: "market_regime option"
  rc_candidate_count :: nat

definition new_regime_classifier :: "nat \<Rightarrow> nat \<Rightarrow> regime_classifier" where
  "new_regime_classifier window bars =
     \<lparr>rc_atr_window = window, rc_atr_history = [], rc_prev_adx = None, rc_hysteresis_bars = bars,
      rc_current = RANGING, rc_candidate = None, rc_candidate_count = 0\<rparr>"

record regime_classification =
  cl_regime :: market_regime
  cl_confidence :: decimal
  cl_adx :: decimal
  cl_atr_ratio :: decimal

section \<open>Rules\<close>

definition volatility_confidence :: "decimal \<Rightarrow> decimal" where
  "volatility_confidence atr_ratio =
     max (min (dec_add (50 / 100) (dec_mul (dec_sub atr_ratio 2) (25 / 100))) (95 / 100)) (50 / 100)"

definition regime_trend_confidence :: "decimal \<Rightarrow> decimal" where
  "regime_trend_confidence adx = min (dec_add (50 / 100) (dec_div adx 100)) (90 / 100)"

definition ranging_confidence :: "decimal \<Rightarrow> decimal" where
  "ranging_confidence adx = (if adx < 20 then 70 / 100 else 60 / 100)"

text \<open>Rule 1: high volatility, with a lower level once in it.\<close>

definition in_volatility :: "regime_classifier \<Rightarrow> decimal \<Rightarrow> decimal \<Rightarrow> bool" where
  "in_volatility rc atr_ratio avg_atr =
     (0 < avg_atr \<and> (if rc_current rc = HIGH_VOLATILITY then 15 / 10 < atr_ratio else 2 < atr_ratio))"

text \<open>Rules 2 and 3: a trend, with a lower ADX level once in one.\<close>

definition in_trend :: "regime_classifier \<Rightarrow> decimal \<Rightarrow> decimal \<Rightarrow> bool" where
  "in_trend rc adx ema_slow =
     (0 < ema_slow \<and> (if rc_current rc \<in> {TRENDING_UP, TRENDING_DOWN} then 23 else 27) < adx)"

definition in_reversal :: "regime_classifier \<Rightarrow> decimal \<Rightarrow> decimal \<Rightarrow> bool" where
  "in_reversal rc adx rsi =
     (case rc_prev_adx rc of
        None \<Rightarrow> False
      | Some prev \<Rightarrow> 40 < prev \<and> adx < prev \<and> (70 < rsi \<or> rsi < 30))"

definition classify_raw ::
  "regime_classifier \<Rightarrow> decimal \<Rightarrow> decimal \<Rightarrow> decimal \<Rightarrow> decimal \<Rightarrow> decimal \<Rightarrow> decimal \<Rightarrow> market_regime \<times> decimal" where
  "classify_raw rc adx atr_ratio avg_atr rsi ema_fast ema_slow =
     (if in_volatility rc atr_ratio avg_atr then (HIGH_VOLATILITY, volatility_confidence atr_ratio)
      else if in_trend rc adx ema_slow \<and> ema_slow < ema_fast then (TRENDING_UP, regime_trend_confidence adx)
      else if in_trend rc adx ema_slow \<and> ema_fast < ema_slow then (TRENDING_DOWN, regime_trend_confidence adx)
      else if in_reversal rc adx rsi then (REVERSAL, 55 / 100)
      else (RANGING, ranging_confidence adx))"

definition confidence_for_regime :: "market_regime \<Rightarrow> decimal \<Rightarrow> decimal \<Rightarrow> decimal" where
  "confidence_for_regime regime adx atr_ratio =
     (case regime of
        HIGH_VOLATILITY \<Rightarrow> volatility_confidence atr_ratio
      | TRENDING_UP \<Rightarrow> regime_trend_confidence adx
      | TRENDING_DOWN \<Rightarrow> regime_trend_confidence adx
      | REVERSAL \<Rightarrow> 55 / 100
      | RANGING \<Rightarrow> ranging_confidence adx)"

definition apply_hysteresis :: "market_regime \<Rightarrow> regime_classifier \<Rightarrow> market_regime \<times> regime_classifier" where
  "apply_hysteresis raw rc =
     (if raw = rc_current rc
      then (rc_current rc, rc\<lparr>rc_candidate := None, rc_candidate_count := 0\<rparr>)
      else let rc = (if rc_candidate rc = Some raw then rc\<lparr>rc_candidate_count := rc_candidate_count rc + 1\<rparr>
                     else rc\<lparr>rc_candidate := Some raw, rc_candidate_count := 1\<rparr>)
           in if rc_hysteresis_bars rc \<le> rc_candidate_count rc
              then (raw, rc\<lparr>rc_current := raw, rc_candidate := None, rc_candidate_count := 0\<rparr>)
              else (rc_current rc, rc))"

section \<open>classify\<close>

definition average_atr :: "regime_classifier \<Rightarrow> decimal" where
  "average_atr rc =
     (if rc_atr_history rc = [] then 0
      else dec_div (dec_sum (rc_atr_history rc)) (of_nat (length (rc_atr_history rc))))"

definition atr_ratio_of :: "regime_classifier \<Rightarrow> features \<Rightarrow> decimal" where
  "atr_ratio_of rc f = (if 0 < average_atr rc then dec_div (fget f ''atr'' 0) (average_atr rc) else 0)"

definition raw_of :: "regime_classifier \<Rightarrow> features \<Rightarrow> market_regime \<times> decimal" where
  "raw_of rc f =
     classify_raw rc (fget f ''adx'' 0) (atr_ratio_of rc f) (average_atr rc) (fget f ''rsi'' 0)
       (fget f ''ema_fast'' 0) (fget f ''ema_slow'' 0)"

definition classify :: "features \<Rightarrow> regime_classifier \<Rightarrow> regime_classification \<times> regime_classifier" where
  "classify f rc =
     (let adx = fget f ''adx'' 0; atr = fget f ''atr'' 0; atr_ratio = atr_ratio_of rc f;
          (raw, conf) = raw_of rc f;
          rc1 = (if 0 < atr then rc\<lparr>rc_atr_history := deque_append (rc_atr_window rc) (rc_atr_history rc) atr\<rparr> else rc);
          (final, rc2) = apply_hysteresis raw rc1
      in (\<lparr>cl_regime = final,
           cl_confidence = (if final \<noteq> raw then confidence_for_regime final adx atr_ratio else conf),
           cl_adx = adx, cl_atr_ratio = atr_ratio\<rparr>,
          rc2\<lparr>rc_prev_adx := Some adx\<rparr>))"

section \<open>Lemmas: hysteresis\<close>

text \<open>
  A run of the classifier with the raw classifications it saw, newest first, and the reported
  regimes, newest first.
\<close>

fun classify_run :: "features list \<Rightarrow> regime_classifier \<times> market_regime list \<Rightarrow> regime_classifier \<times> market_regime list" where
  "classify_run [] st = st"
| "classify_run (f # fs) (rc, raws) = classify_run fs (snd (classify f rc), fst (raw_of rc f) # raws)"

definition hysteresis_inv :: "regime_classifier \<times> market_regime list \<Rightarrow> bool" where
  "hysteresis_inv st \<longleftrightarrow>
     (case st of (rc, raws) \<Rightarrow>
        0 < rc_hysteresis_bars rc \<and>
        (case rc_candidate rc of
           None \<Rightarrow> rc_candidate_count rc = 0
         | Some r \<Rightarrow> r \<noteq> rc_current rc \<and> rc_candidate_count rc < rc_hysteresis_bars rc \<and>
             take (rc_candidate_count rc) raws = replicate (rc_candidate_count rc) r \<and>
             rc_candidate_count rc \<le> length raws))"

lemma apply_hysteresis_frame:
  "apply_hysteresis raw rc = (final, rc') \<Longrightarrow>
     rc_hysteresis_bars rc' = rc_hysteresis_bars rc \<and> rc_atr_window rc' = rc_atr_window rc \<and>
     rc_atr_history rc' = rc_atr_history rc \<and> rc_current rc' = final"
  by (auto simp: apply_hysteresis_def Let_def split: if_splits)

lemma apply_hysteresis_inv:
  assumes "hysteresis_inv (rc, raws)" "apply_hysteresis raw rc = (final, rc')"
  shows "hysteresis_inv (rc', raw # raws) \<and>
     (final \<noteq> rc_current rc \<longrightarrow> take (rc_hysteresis_bars rc) (raw # raws) = replicate (rc_hysteresis_bars rc) final)"
proof -
  let ?n = "rc_candidate_count rc" and ?N = "rc_hysteresis_bars rc"
  consider "raw = rc_current rc" | "raw \<noteq> rc_current rc" "rc_candidate rc = Some raw"
    | "raw \<noteq> rc_current rc" "rc_candidate rc \<noteq> Some raw" by blast
  then show ?thesis
  proof cases
    case 1
    then show ?thesis using assms by (auto simp: apply_hysteresis_def hysteresis_inv_def)
  next
    case 2
    then have "?n < ?N" "take ?n raws = replicate ?n raw" "?n \<le> length raws" using assms(1) by (auto simp: hysteresis_inv_def)
    note c = this
    show ?thesis
    proof (cases "?N \<le> Suc ?n")
      case True
      then have N: "?N = Suc ?n" using c by simp
      show ?thesis using 2 assms c True unfolding N
        by (auto simp: apply_hysteresis_def hysteresis_inv_def Let_def N)
    next
      case False
      then show ?thesis using 2 assms c by (auto simp: apply_hysteresis_def hysteresis_inv_def Let_def)
    qed
  next
    case 3
    have "0 < ?N" using assms(1) by (auto simp: hysteresis_inv_def)
    show ?thesis
    proof (cases "?N \<le> 1")
      case True
      then have "?N = Suc 0" using \<open>0 < ?N\<close> by simp
      then show ?thesis using 3 assms by (auto simp: apply_hysteresis_def hysteresis_inv_def Let_def)
    next
      case False
      then show ?thesis using 3 assms by (auto simp: apply_hysteresis_def hysteresis_inv_def Let_def)
    qed
  qed
qed

lemma hysteresis_inv_cong:
  assumes "hysteresis_inv (rc, raws)" "rc_hysteresis_bars rc' = rc_hysteresis_bars rc" "rc_candidate rc' = rc_candidate rc"
    "rc_candidate_count rc' = rc_candidate_count rc" "rc_current rc' = rc_current rc"
  shows "hysteresis_inv (rc', raws)"
  using assms by (cases "rc_candidate rc") (simp_all add: hysteresis_inv_def)

lemma classify_spec:
  assumes "hysteresis_inv (rc, raws)" "classify f rc = (cl, rc')"
  shows "hysteresis_inv (rc', fst (raw_of rc f) # raws)" "rc_current rc' = cl_regime cl"
    "rc_hysteresis_bars rc' = rc_hysteresis_bars rc"
    "cl_regime cl \<noteq> rc_current rc \<Longrightarrow>
       take (rc_hysteresis_bars rc) (fst (raw_of rc f) # raws) = replicate (rc_hysteresis_bars rc) (cl_regime cl)"
proof -
  define rc1 where "rc1 = (if 0 < fget f ''atr'' 0
     then rc\<lparr>rc_atr_history := deque_append (rc_atr_window rc) (rc_atr_history rc) (fget f ''atr'' 0)\<rparr> else rc)"
  obtain final rc2 where h: "apply_hysteresis (fst (raw_of rc f)) rc1 = (final, rc2)" by fastforce
  have eq: "rc_hysteresis_bars rc1 = rc_hysteresis_bars rc" "rc_candidate rc1 = rc_candidate rc"
    "rc_candidate_count rc1 = rc_candidate_count rc" "rc_current rc1 = rc_current rc"
    by (simp_all add: rc1_def)
  have inv1: "hysteresis_inv (rc1, raws)" by (rule hysteresis_inv_cong [OF assms(1) eq])
  have cl: "rc' = rc2\<lparr>rc_prev_adx := Some (fget f ''adx'' 0)\<rparr>" "cl_regime cl = final"
    using assms(2) h by (auto simp: classify_def rc1_def [symmetric] Let_def split: prod.splits)
  note A = apply_hysteresis_inv [OF inv1 h] and F = apply_hysteresis_frame [OF h]
  show "hysteresis_inv (rc', fst (raw_of rc f) # raws)"
    using hysteresis_inv_cong [of rc2 _ rc'] A cl by simp
  show "rc_current rc' = cl_regime cl" "rc_hysteresis_bars rc' = rc_hysteresis_bars rc" using cl F eq by simp_all
  show "cl_regime cl \<noteq> rc_current rc \<Longrightarrow>
       take (rc_hysteresis_bars rc) (fst (raw_of rc f) # raws) = replicate (rc_hysteresis_bars rc) (cl_regime cl)"
    using A cl eq by simp
qed

lemma classify_run_inv:
  "hysteresis_inv st \<Longrightarrow> hysteresis_inv (classify_run fs st) \<and>
     rc_hysteresis_bars (fst (classify_run fs st)) = rc_hysteresis_bars (fst st)"
proof (induction fs arbitrary: st)
  case (Cons f fs)
  obtain rc raws where st: "st = (rc, raws)" by (cases st)
  obtain cl rc' where c: "classify f rc = (cl, rc')" by fastforce
  note S = classify_spec [OF Cons.prems [unfolded st] c]
  show ?case using Cons.IH [OF S(1)] S(3) st c by simp
qed simp

section \<open>Lemmas: confidence\<close>

lemma volatility_confidence_range: "50 / 100 \<le> volatility_confidence x \<and> volatility_confidence x \<le> 95 / 100"
  by (auto simp: volatility_confidence_def max_def min_def)

lemma regime_trend_confidence_range:
  assumes "0 \<le> adx"
  shows "1 / 2 \<le> regime_trend_confidence adx \<and> regime_trend_confidence adx \<le> 9 / 10"
proof -
  have "1 / 2 \<le> dec_add (50 / 100) (dec_div adx 100)"
    unfolding dec_add_def by (rule dec.rnd_ge) (use assms dec_div_nonneg in \<open>simp_all add: num_eval\<close>)
  then show ?thesis by (simp add: regime_trend_confidence_def)
qed

lemma ranging_confidence_range: "1 / 2 \<le> ranging_confidence x \<and> ranging_confidence x \<le> 95 / 100"
  by (simp add: ranging_confidence_def)

lemma confidence_for_regime_range:
  "0 \<le> adx \<Longrightarrow> 1 / 2 \<le> confidence_for_regime r adx ratio \<and> confidence_for_regime r adx ratio \<le> 95 / 100"
  using volatility_confidence_range [of ratio] regime_trend_confidence_range [of adx] ranging_confidence_range [of adx]
  by (cases r) (auto simp: confidence_for_regime_def)

lemma raw_confidence: "snd (raw_of rc f) = confidence_for_regime (fst (raw_of rc f)) (fget f ''adx'' 0) (atr_ratio_of rc f)"
  by (simp add: raw_of_def classify_raw_def confidence_for_regime_def)

section \<open>Properties\<close>

text \<open>
  C22. No flip-flopping: whatever bars came before, the reported regime changes at a bar only if the last
  N raw classifications (N the configured number of confirmation bars), this bar's included, all equal the
  new regime.
\<close>

theorem regime_change_needs_confirmation:
  assumes "0 < n" "classify_run fs (new_regime_classifier w n, []) = (rc, raws)" "classify f rc = (cl, rc')"
    and "cl_regime cl \<noteq> rc_current rc"
  shows "take n (fst (raw_of rc f) # raws) = replicate n (cl_regime cl)"
proof -
  have "hysteresis_inv (new_regime_classifier w n, [])"
    using assms(1) by (simp add: hysteresis_inv_def new_regime_classifier_def)
  from classify_run_inv [OF this, of fs] have inv: "hysteresis_inv (rc, raws)" and n: "rc_hysteresis_bars rc = n"
    using assms(2) by (simp_all add: new_regime_classifier_def)
  show ?thesis using classify_spec(4) [OF inv assms(3,4)] n by simp
qed

definition trending_bar :: features where
  "trending_bar = [''adx'' \<mapsto> 30, ''ema_fast'' \<mapsto> 11 / 10, ''ema_slow'' \<mapsto> 1]"

theorem regime_change_needs_confirmation_witness:
  "let (rc, raws) = classify_run [trending_bar] (new_regime_classifier 50 2, []) in
     cl_regime (fst (classify trending_bar rc)) = TRENDING_UP \<and>
     take 2 (fst (raw_of rc trending_bar) # raws) = replicate 2 TRENDING_UP"
proof -
  let ?st = "classify_run [trending_bar] (new_regime_classifier 50 2, [])"
  have eval: "cl_regime (fst (classify trending_bar (fst ?st))) = TRENDING_UP" "rc_current (fst ?st) = RANGING"
    by (simp_all add: classify_def raw_of_def classify_raw_def apply_hysteresis_def new_regime_classifier_def
        trending_bar_def fget_def in_volatility_def in_trend_def in_reversal_def average_atr_def Let_def)
  have "take 2 (fst (raw_of (fst ?st) trending_bar) # snd ?st)
      = replicate 2 (cl_regime (fst (classify trending_bar (fst ?st))))"
    by (rule regime_change_needs_confirmation [of 2 "[trending_bar]" 50 _ _ _ _ "snd (classify trending_bar (fst ?st))"])
      (use eval in simp_all)
  then show ?thesis using eval by (simp add: case_prod_beta)
qed

text \<open>
  The classifier's confidence is calibrated: for a nonnegative ADX it lies between 0.50 and 0.95 and is
  the one of the regime that is reported, also when hysteresis overrides the raw classification; and the
  ATR history never exceeds its window.
\<close>

theorem regime_confidence_calibrated:
  assumes "classify f rc = (cl, rc')" "0 \<le> fget f ''adx'' 0" "length (rc_atr_history rc) \<le> rc_atr_window rc"
  shows "1 / 2 \<le> cl_confidence cl \<and> cl_confidence cl \<le> 95 / 100 \<and>
     cl_confidence cl = confidence_for_regime (cl_regime cl) (cl_adx cl) (cl_atr_ratio cl) \<and>
     length (rc_atr_history rc') \<le> rc_atr_window rc'"
proof -
  define rc1 where "rc1 = (if 0 < fget f ''atr'' 0
     then rc\<lparr>rc_atr_history := deque_append (rc_atr_window rc) (rc_atr_history rc) (fget f ''atr'' 0)\<rparr> else rc)"
  obtain final rc2 where h: "apply_hysteresis (fst (raw_of rc f)) rc1 = (final, rc2)" by fastforce
  have cl: "rc' = rc2\<lparr>rc_prev_adx := Some (fget f ''adx'' 0)\<rparr>" "cl_regime cl = final" "cl_adx cl = fget f ''adx'' 0"
    "cl_atr_ratio cl = atr_ratio_of rc f"
    and conf: "cl_confidence cl = confidence_for_regime final (fget f ''adx'' 0) (atr_ratio_of rc f)"
    using assms(1) h raw_confidence [of rc f] by (auto simp: classify_def rc1_def [symmetric] Let_def split: prod.splits)
  have "length (rc_atr_history rc1) \<le> rc_atr_window rc1" using assms(3) by (simp add: rc1_def)
  then show ?thesis
    using conf cl confidence_for_regime_range [OF assms(2), of final "atr_ratio_of rc f"] apply_hysteresis_frame [OF h]
    by simp
qed

theorem regime_confidence_calibrated_witness:
  "let cl = fst (classify trending_bar (new_regime_classifier 50 3)) in
     1 / 2 \<le> cl_confidence cl \<and> cl_confidence cl \<le> 95 / 100"
proof -
  have "classify trending_bar (new_regime_classifier 50 3) =
      (fst (classify trending_bar (new_regime_classifier 50 3)), snd (classify trending_bar (new_regime_classifier 50 3)))"
    by simp
  from regime_confidence_calibrated [OF this] show ?thesis
    by (simp add: trending_bar_def fget_def new_regime_classifier_def Let_def)
qed

end
