(* ===== verification/Strategies.thy ===== *)
theory Strategies
  imports Market_Types
begin

text \<open>
  \<open>algo_engine/strategies/\<close>: the trend-following, mean-reversion, breakout, defensive and
  volatility-momentum strategies, the regime router with its deterministic and probabilistic modes, and
  \<open>build_algo_router\<close>. The locale \<open>trading_strategy\<close> is the contract that \<open>base.py\<close> states for
  \<open>analyze\<close>, with the confidence band that the engine's thresholds are tuned to; it is interpreted
  on every strategy and on the router. The free-text \<open>reasoning\<close> of a suggestion is not kept.
\<close>

section \<open>The contract of a strategy\<close>

definition good_suggestion :: "suggestion result \<Rightarrow> bool" where
  "good_suggestion r \<longleftrightarrow>
     (\<exists>s. r = Inr s \<and> valid_suggestion s \<and>
          (sug_direction s \<noteq> HOLD \<longrightarrow> 1 / 2 \<le> sug_confidence s \<and> sug_confidence s \<le> 9 / 10))"

locale trading_strategy =
  fixes analyze :: "features \<Rightarrow> suggestion result"
  assumes analyze_good: "good_suggestion (analyze f)"
begin

lemma analyze_returns: "\<exists>s. analyze f = Inr s"
  using analyze_good [of f] by (auto simp: good_suggestion_def)

lemma analyze_valid: "analyze f = Inr s \<Longrightarrow> valid_suggestion s"
  using analyze_good [of f] by (auto simp: good_suggestion_def)

lemma actionable_band:
  "analyze f = Inr s \<Longrightarrow> sug_direction s \<noteq> HOLD \<Longrightarrow> 1 / 2 \<le> sug_confidence s \<and> sug_confidence s \<le> 9 / 10"
  using analyze_good [of f] by (auto simp: good_suggestion_def)

end

section \<open>TrendFollowingStrategy\<close>

text \<open>The confirmations collected by checks 1 to 3, for one direction.\<close>

definition trend_votes :: "features \<Rightarrow> nat \<times> nat" where
  "trend_votes f =
     (let ema_fast = fget f ''ema_fast'' 0; ema_slow = fget f ''ema_slow'' 0;
          sma_200 = fget f ''sma_200'' 0; latest_close = fget f ''latest_close'' 0;
          macd_histogram = fget f ''macd_histogram'' 0;
          ema_ok = (0 < ema_fast \<and> 0 < ema_slow); sma_ok = (0 < sma_200 \<and> 0 < latest_close)
      in (of_bool (ema_ok \<and> ema_slow < ema_fast) + of_bool (sma_ok \<and> sma_200 < latest_close)
            + of_bool (0 < macd_histogram),
          of_bool (ema_ok \<and> ema_fast < ema_slow) + of_bool (sma_ok \<and> latest_close < sma_200)
            + of_bool (macd_histogram < 0)))"

definition trend_adx :: "features \<Rightarrow> decimal" where
  "trend_adx f = max 0 (min (fget f ''adx'' 0) 100)"

definition trend_confidence :: "decimal \<Rightarrow> decimal" where
  "trend_confidence adx = min (dec_add (50 / 100) (dec_div adx 100)) (90 / 100)"

definition trend_following :: "features \<Rightarrow> suggestion result" where
  "trend_following f =
     (let adx = trend_adx f; buy = fst (trend_votes f); sell = snd (trend_votes f);
          buy_count = (if 25 < adx \<and> sell < buy then buy + 1 else buy);
          sell_count = (if 25 < adx \<and> buy < sell then sell + 1 else sell)
      in if 3 \<le> buy_count \<and> sell_count < buy_count
         then SignalSuggestion (direction_value BUY) (trend_confidence adx) None None
         else if 3 \<le> sell_count \<and> buy_count < sell_count
         then SignalSuggestion (direction_value SELL) (trend_confidence adx) None None
         else SignalSuggestion (direction_value HOLD) (30 / 100) None None)"

section \<open>MeanReversionStrategy\<close>

definition mean_reversion :: "features \<Rightarrow> suggestion result" where
  "mean_reversion f =
     (let bb_pct_b = fget f ''bb_pct_b'' (5 / 10); rsi = fget f ''rsi'' 50; stoch_k = fget f ''stoch_k'' 50
      in if bb_pct_b < 10 / 100 \<and> rsi < 30
         then let confidence = (if stoch_k < 20 then dec_add (65 / 100) (10 / 100) else 65 / 100)
              in SignalSuggestion (direction_value BUY) (min confidence (85 / 100)) None None
         else if 90 / 100 < bb_pct_b \<and> 70 < rsi
         then let confidence = (if 80 < stoch_k then dec_add (65 / 100) (10 / 100) else 65 / 100)
              in SignalSuggestion (direction_value SELL) (min confidence (85 / 100)) None None
         else SignalSuggestion (direction_value HOLD) (40 / 100) None None)"

section \<open>BreakoutStrategy\<close>

definition breakout_confirmations :: "features \<Rightarrow> nat" where
  "breakout_confirmations f =
     (let adx = fget f ''adx'' 0; atr = fget f ''atr'' 0; volume_ratio = fget f ''volume_ratio'' 1;
          atr_sma = fget f ''atr_sma'' atr
      in of_bool (20 < adx) + of_bool (0 < atr_sma \<and> dec_mul atr_sma (12 / 10) < atr)
         + of_bool (15 / 10 < volume_ratio))"

definition breakout :: "features \<Rightarrow> suggestion result" where
  "breakout f =
     (let close = fget f ''latest_close'' 0; upper = fget f ''donchian_upper'' 0;
          lower = fget f ''donchian_lower'' 0
      in if upper = 0 \<or> lower = 0 then SignalSuggestion (direction_value HOLD) (30 / 100) None None
         else if \<not> upper \<le> close \<and> \<not> close \<le> lower
         then SignalSuggestion (direction_value HOLD) (40 / 100) None None
         else let confidence =
                    min (dec_add (50 / 100) (dec_mul (of_nat (breakout_confirmations f)) (10 / 100))) (85 / 100)
              in SignalSuggestion (direction_value (if upper \<le> close then BUY else SELL)) confidence
                   (Some ''breakout_donchian'') None)"

section \<open>DefensiveStrategy\<close>

definition defensive :: "features \<Rightarrow> suggestion result" where
  "defensive f = SignalSuggestion (direction_value HOLD) (80 / 100) (Some ''defensive'') None"

section \<open>VolScaledMomentumStrategy\<close>

text \<open>
  \<open>sqrt_ann\<close> is \<open>Decimal(str(math.sqrt(annualization_factor)))\<close>; the default is that of 252.
\<close>

record vol_momentum_config =
  vm_target_vol :: decimal
  vm_min_vol :: decimal
  vm_sqrt_ann :: decimal

definition default_vol_momentum :: vol_momentum_config where
  "default_vol_momentum =
     \<lparr>vm_target_vol = 15 / 100, vm_min_vol = 5 / 100, vm_sqrt_ann = 15874507866387544 / 10 ^ 15\<rparr>"

definition momentum_confidence :: "features \<Rightarrow> decimal \<Rightarrow> decimal \<Rightarrow> decimal" where
  "momentum_confidence f roc vol_scalar =
     (let confidence = min (dec_add (50 / 100) (dec_div (dec_mul (dec_abs roc) vol_scalar) 20)) (85 / 100)
      in case f ''hurst'' of
           None \<Rightarrow> confidence
         | Some hurst \<Rightarrow>
             (if 55 / 100 < hurst then min (dec_add confidence (5 / 100)) (85 / 100) else confidence))"

definition vol_momentum :: "vol_momentum_config \<Rightarrow> features \<Rightarrow> suggestion result" where
  "vol_momentum c f =
     (let roc = fget f ''roc'' 0; atr_pct = fget f ''atr_pct'' 0; adx = fget f ''adx'' 0;
          realized_vol = max (dec_div (dec_mul atr_pct (vm_sqrt_ann c)) 100) (vm_min_vol c);
          nm = Some ''vol_scaled_momentum_v1''
      in rbind (dec_div_checked (vm_target_vol c) realized_vol) (\<lambda>ratio.
           let vol_scalar = min ratio 2
           in if roc = 0 \<or> adx < 15 then SignalSuggestion (direction_value HOLD) (20 / 100) nm None
              else if adx < 20 then SignalSuggestion (direction_value HOLD) (25 / 100) nm None
              else SignalSuggestion (direction_value (if 0 < roc then BUY else SELL))
                     (momentum_confidence f roc vol_scalar) nm None))"

section \<open>RegimeRouter\<close>

record strategy =
  st_name :: string
  st_analyze :: "features \<Rightarrow> suggestion result"

record router =
  rt_strategies :: "string \<rightharpoonup> strategy"
  rt_default :: "strategy option"

definition new_router :: router where
  "new_router = \<lparr>rt_strategies = Map.empty, rt_default = None\<rparr>"

definition register_strategy :: "string \<Rightarrow> strategy \<Rightarrow> router \<Rightarrow> router" where
  "register_strategy regime st r = r\<lparr>rt_strategies := (rt_strategies r)(regime \<mapsto> st)\<rparr>"

definition set_default_strategy :: "strategy \<Rightarrow> router \<Rightarrow> router" where
  "set_default_strategy st r = r\<lparr>rt_default := Some st\<rparr>"

definition setdefault_name :: "string \<Rightarrow> suggestion \<Rightarrow> suggestion" where
  "setdefault_name n s = (case sug_strategy s of None \<Rightarrow> s\<lparr>sug_strategy := Some n\<rparr> | Some _ \<Rightarrow> s)"

definition route :: "router \<Rightarrow> string \<Rightarrow> features \<Rightarrow> suggestion result" where
  "route r regime f =
     (case (case rt_strategies r regime of Some st \<Rightarrow> Some st | None \<Rightarrow> rt_default r) of
        None \<Rightarrow> SignalSuggestion (direction_value HOLD) 0 None None
      | Some st \<Rightarrow> rbind (st_analyze st f) (\<lambda>s. Inr (setdefault_name (st_name st) s)))"

text \<open>Probabilistic routing: the posteriors in dictionary order, then one pass of blending.\<close>

fun collect_suggestions :: "router \<Rightarrow> features \<Rightarrow> (string \<times> decimal) list \<Rightarrow> (decimal \<times> suggestion) list result" where
  "collect_suggestions r f [] = Inr []"
| "collect_suggestions r f ((regime, posterior) # ps) =
     (if posterior < 10 / 100 then collect_suggestions r f ps
      else case rt_strategies r regime of
             None \<Rightarrow> collect_suggestions r f ps
           | Some st \<Rightarrow>
               rbind (st_analyze st f) (\<lambda>s.
               rbind (collect_suggestions r f ps) (\<lambda>rest. Inr ((posterior, s) # rest))))"

record blend =
  bl_total :: decimal
  bl_score :: decimal
  bl_conf :: decimal

definition blend_step :: "blend \<Rightarrow> decimal \<times> suggestion \<Rightarrow> blend" where
  "blend_step b ws =
     (case ws of (w, s) \<Rightarrow>
        let wc = dec_mul w (sug_confidence s)
        in \<lparr>bl_total = dec_add (bl_total b) w,
            bl_score = (case sug_direction s of BUY \<Rightarrow> dec_add (bl_score b) wc
                        | SELL \<Rightarrow> dec_sub (bl_score b) wc | HOLD \<Rightarrow> bl_score b),
            bl_conf = dec_add (bl_conf b) wc\<rparr>)"

definition blend_all :: "(decimal \<times> suggestion) list \<Rightarrow> blend" where
  "blend_all ws =
     (let b = foldl blend_step \<lparr>bl_total = 0, bl_score = 0, bl_conf = 0\<rparr> ws
      in if 0 < bl_total b
         then b\<lparr>bl_score := dec_div (bl_score b) (bl_total b), bl_conf := dec_div (bl_conf b) (bl_total b)\<rparr>
         else b)"

definition route_probabilistic :: "router \<Rightarrow> (string \<times> decimal) list \<Rightarrow> features \<Rightarrow> suggestion result" where
  "route_probabilistic r posteriors f =
     rbind (collect_suggestions r f posteriors) (\<lambda>ws.
       if ws = []
       then (case rt_default r of
               Some st \<Rightarrow> st_analyze st f
             | None \<Rightarrow> SignalSuggestion (direction_value HOLD) 0 None None)
       else let b = blend_all ws; nm = Some ''probabilistic_router''
            in if dec_abs (bl_score b) < 10 / 100
               then SignalSuggestion (direction_value HOLD) (30 / 100) nm None
               else if 0 < bl_score b
               then SignalSuggestion (direction_value BUY) (min (bl_conf b) (85 / 100)) nm None
               else SignalSuggestion (direction_value SELL) (min (bl_conf b) (85 / 100)) nm None)"

definition algo_router :: router where
  "algo_router =
     (let trend = \<lparr>st_name = ''trend_following_v1'', st_analyze = trend_following\<rparr>;
          mean_rev = \<lparr>st_name = ''mean_reversion_v1'', st_analyze = mean_reversion\<rparr>;
          def = \<lparr>st_name = ''defensive_v1'', st_analyze = defensive\<rparr>;
          brk = \<lparr>st_name = ''breakout_donchian'', st_analyze = breakout\<rparr>;
          r = register_strategy (regime_value TRENDING_UP) trend new_router;
          r = register_strategy (regime_value TRENDING_DOWN) trend r;
          r = register_strategy (regime_value RANGING) mean_rev r;
          r = register_strategy (regime_value HIGH_VOLATILITY) def r;
          r = register_strategy (regime_value REVERSAL) brk r
      in set_default_strategy def r)"

section \<open>Lemmas: the contract holds for every strategy\<close>

lemma good_constructor [simp]:
  "good_suggestion (SignalSuggestion ''HOLD'' c nm ot) \<longleftrightarrow> 0 \<le> c \<and> c \<le> 1"
  "good_suggestion (SignalSuggestion ''BUY'' c nm ot) \<longleftrightarrow> 1 / 2 \<le> c \<and> c \<le> 9 / 10"
  "good_suggestion (SignalSuggestion ''SELL'' c nm ot) \<longleftrightarrow> 1 / 2 \<le> c \<and> c \<le> 9 / 10"
  by (auto simp: good_suggestion_def SignalSuggestion_def direction_of_def valid_suggestion_def)

lemma half_ge: "0 \<le> x \<Longrightarrow> 1 / 2 \<le> dec_add (50 / 100) x"
  unfolding dec_add_def by (rule dec.rnd_ge) (simp_all add: num_eval)

lemma trend_confidence_band: "1 / 2 \<le> trend_confidence (trend_adx f) \<and> trend_confidence (trend_adx f) \<le> 9 / 10"
  using half_ge [of "dec_div (trend_adx f) 100"] dec_div_nonneg [of "trend_adx f" 100]
  by (simp add: trend_confidence_def trend_adx_def)

lemma mean_reversion_band: "dec_add (13 / 20) (1 / 10) = 3 / 4"
  by (simp add: dec_add_def num_eval)

lemma breakout_band:
  "1 / 2 \<le> min (dec_add (50 / 100) (dec_mul (of_nat n) (10 / 100))) (85 / 100)"
  using half_ge [of "dec_mul (of_nat n) (10 / 100)"] dec_mul_nonneg [of "of_nat n" "10 / 100"] by simp

lemma momentum_band:
  assumes "0 \<le> vol"
  shows "1 / 2 \<le> momentum_confidence f roc vol \<and> momentum_confidence f roc vol \<le> 85 / 100"
proof -
  have "0 \<le> dec_abs roc" by (simp add: dec_abs_def dec.rnd_nonneg)
  then have "0 \<le> dec_div (dec_mul (dec_abs roc) vol) 20" using assms by (simp add: dec_div_nonneg dec_mul_nonneg)
  note h = half_ge [OF this]
  define c where "c = min (dec_add (50 / 100) (dec_div (dec_mul (dec_abs roc) vol) 20)) (85 / 100)"
  have c: "1 / 2 \<le> c" "c \<le> 85 / 100" unfolding c_def using h by (auto simp: min_le_iff_disj)
  have "1 / 2 \<le> dec_add c (5 / 100)" unfolding dec_add_def by (rule dec.rnd_ge) (use c in \<open>simp_all add: num_eval\<close>)
  then have "1 / 2 \<le> min (dec_add c (5 / 100)) (85 / 100)" by simp
  then show ?thesis using c unfolding momentum_confidence_def Let_def c_def [symmetric]
    by (auto split: option.split)
qed

lemma vol_momentum_good:
  assumes "0 < vm_min_vol c" "0 \<le> vm_target_vol c"
  shows "good_suggestion (vol_momentum c f)"
proof -
  let ?rv = "max (dec_div (dec_mul (fget f ''atr_pct'' 0) (vm_sqrt_ann c)) 100) (vm_min_vol c)"
  have rv: "0 < ?rv" using assms(1) by (simp add: less_max_iff_disj)
  then have "0 \<le> min (dec_div (vm_target_vol c) ?rv) 2" using assms(2) by (simp add: dec_div_nonneg)
  note b = momentum_band [OF this, of f "fget f ''roc'' 0"]
  have "dec_div_checked (vm_target_vol c) ?rv = Inr (dec_div (vm_target_vol c) ?rv)"
    unfolding dec_div_checked_def using rv by simp
  then show ?thesis using b unfolding vol_momentum_def Let_def by auto
qed

interpretation trend: trading_strategy trend_following
  using trend_confidence_band by unfold_locales (auto simp: trend_following_def Let_def)

interpretation mean_rev: trading_strategy mean_reversion
  by unfold_locales (auto simp: mean_reversion_def Let_def mean_reversion_band)

interpretation brk: trading_strategy breakout
  using breakout_band by unfold_locales (auto simp: breakout_def Let_def min_le_iff_disj)

interpretation defens: trading_strategy defensive
  by unfold_locales (auto simp: defensive_def)

interpretation momentum: trading_strategy "vol_momentum default_vol_momentum"
  by unfold_locales (rule vol_momentum_good, simp_all add: default_vol_momentum_def)

section \<open>Lemmas: routing\<close>

text \<open>A router is sound when everything registered with it meets the contract.\<close>

definition router_sound :: "router \<Rightarrow> bool" where
  "router_sound r \<longleftrightarrow>
     (\<forall>regime st. rt_strategies r regime = Some st \<longrightarrow> trading_strategy (st_analyze st)) \<and>
     (\<forall>st. rt_default r = Some st \<longrightarrow> trading_strategy (st_analyze st))"

lemma new_router_sound: "router_sound new_router"
  by (simp add: router_sound_def new_router_def)

lemma register_sound: "router_sound r \<Longrightarrow> trading_strategy (st_analyze st) \<Longrightarrow> router_sound (register_strategy regime st r)"
  by (simp add: router_sound_def register_strategy_def)

lemma set_default_sound: "router_sound r \<Longrightarrow> trading_strategy (st_analyze st) \<Longrightarrow> router_sound (set_default_strategy st r)"
  by (simp add: router_sound_def set_default_strategy_def)

lemma algo_router_sound: "router_sound algo_router"
  unfolding algo_router_def Let_def
  by (intro set_default_sound register_sound new_router_sound)
    (simp_all add: trend.trading_strategy_axioms mean_rev.trading_strategy_axioms brk.trading_strategy_axioms
      defens.trading_strategy_axioms)

lemma good_setdefault_name: "good_suggestion r \<Longrightarrow> good_suggestion (rbind r (\<lambda>s. Inr (setdefault_name n s)))"
proof -
  assume "good_suggestion r"
  then obtain s where s: "r = Inr s" "good_suggestion (Inr s)" by (auto simp: good_suggestion_def)
  then have "good_suggestion (Inr (setdefault_name n s))"
    by (cases "sug_strategy s") (simp_all add: good_suggestion_def setdefault_name_def valid_suggestion_def)
  then show ?thesis using s by simp
qed

lemma route_good:
  assumes "router_sound r"
  shows "good_suggestion (route r regime f)"
  using assms trading_strategy.analyze_good
  by (auto simp: route_def router_sound_def split: option.split intro!: good_setdefault_name)

interpretation routed: trading_strategy "route algo_router regime" for regime
  using route_good [OF algo_router_sound] by unfold_locales

text \<open>The weighted vote: the blended confidence always dominates the directional score.\<close>

lemma blend_step_dominates:
  assumes "\<bar>bl_score b\<bar> \<le> bl_conf b" "dec_round (bl_score b) = bl_score b" "dec_round (bl_conf b) = bl_conf b"
    "0 \<le> w" "0 \<le> sug_confidence s"
  shows "\<bar>bl_score (blend_step b (w, s))\<bar> \<le> bl_conf (blend_step b (w, s)) \<and>
    dec_round (bl_score (blend_step b (w, s))) = bl_score (blend_step b (w, s)) \<and>
    dec_round (bl_conf (blend_step b (w, s))) = bl_conf (blend_step b (w, s))"
proof -
  let ?wc = "dec_mul w (sug_confidence s)"
  have wc: "0 \<le> ?wc" using assms by (simp add: dec_mul_nonneg)
  have "\<bar>dec_add (bl_score b) ?wc\<bar> \<le> dec_add (bl_conf b) ?wc" "\<bar>dec_sub (bl_score b) ?wc\<bar> \<le> dec_add (bl_conf b) ?wc"
    unfolding dec_add_def dec_sub_def dec.rnd_abs [symmetric]
    by (intro dec.rnd_mono; use wc assms(1) in linarith)+
  moreover have "bl_conf b \<le> dec_add (bl_conf b) ?wc"
    unfolding dec_add_def using assms(3) wc by (intro dec.rnd_ge) auto
  ultimately show ?thesis
    using assms by (cases "sug_direction s") (auto simp: blend_step_def Let_def dec_ops dec.rnd_idem)
qed

lemma blend_fold_dominates:
  assumes "\<forall>(w, s) \<in> set ws. 0 < w \<and> 0 \<le> sug_confidence s" "\<bar>bl_score b\<bar> \<le> bl_conf b" "0 \<le> bl_total b"
    "dec_round (bl_score b) = bl_score b" "dec_round (bl_conf b) = bl_conf b"
  shows "\<bar>bl_score (foldl blend_step b ws)\<bar> \<le> bl_conf (foldl blend_step b ws) \<and>
    (ws \<noteq> [] \<longrightarrow> 0 < bl_total (foldl blend_step b ws))"
  using assms
proof (induction ws arbitrary: b)
  case Nil
  then show ?case by simp
next
  case (Cons x ws)
  obtain w s where x: "x = (w, s)" by (cases x)
  have ws: "0 < w" "0 \<le> sug_confidence s" using Cons.prems x by auto
  have "0 < bl_total b + w" using ws Cons.prems(3) by simp
  then have tot: "0 < bl_total (blend_step b x)" by (simp add: x blend_step_def Let_def dec_add_def dec.rnd_pos)
  have "foldl blend_step b (x # ws) = foldl blend_step (blend_step b x) ws" by simp
  then show ?case
    using Cons.IH [of "blend_step b x"] blend_step_dominates [of b w s] Cons.prems ws tot x by (cases "ws = []") auto
qed

lemma collect_suggestions_spec:
  assumes "router_sound r"
  shows "\<exists>ws. collect_suggestions r f ps = Inr ws \<and> (\<forall>(w, s) \<in> set ws. 10 / 100 \<le> w \<and> valid_suggestion s)"
proof (induction ps)
  case (Cons p ps)
  obtain regime posterior where p: "p = (regime, posterior)" by (cases p)
  show ?case
  proof (cases "rt_strategies r regime")
    case (Some st)
    then obtain s where "st_analyze st f = Inr s" "valid_suggestion s"
      using assms trading_strategy.analyze_good [of "st_analyze st" f] by (auto simp: router_sound_def good_suggestion_def)
    then show ?thesis using Cons.IH Some p by (auto simp: not_less)
  qed (use Cons.IH p in auto)
qed simp

lemma blend_all_bounds:
  assumes "ws \<noteq> []" "\<forall>(w, s) \<in> set ws. 10 / 100 \<le> w \<and> valid_suggestion s"
  shows "\<bar>bl_score (blend_all ws)\<bar> \<le> bl_conf (blend_all ws)"
proof -
  let ?b = "foldl blend_step \<lparr>bl_total = 0, bl_score = 0, bl_conf = 0\<rparr> ws"
  have "\<forall>(w, s) \<in> set ws. 0 < w \<and> 0 \<le> sug_confidence s" using assms(2) by (fastforce simp: valid_suggestion_def)
  then have b: "\<bar>bl_score ?b\<bar> \<le> bl_conf ?b" "0 < bl_total ?b"
    using blend_fold_dominates [of ws "\<lparr>bl_total = 0, bl_score = 0, bl_conf = 0\<rparr>"] assms(1) by auto
  have "\<bar>bl_score ?b / bl_total ?b\<bar> \<le> bl_conf ?b / bl_total ?b"
    using b by (simp add: divide_right_mono)
  then show ?thesis
    using b(2) by (simp add: blend_all_def Let_def dec_div_def dec.rnd_abs [symmetric] dec.rnd_mono)
qed

text \<open>The score is a rounded quotient or zero, so taking its absolute value does not round again.\<close>

lemma foldl_blend_score_rep:
  "dec_round (bl_score b) = bl_score b \<Longrightarrow> dec_round (bl_score (foldl blend_step b ws)) = bl_score (foldl blend_step b ws)"
proof (induction ws arbitrary: b)
  case (Cons x ws)
  have "dec_round (bl_score (blend_step b x)) = bl_score (blend_step b x)"
    using Cons.prems by (cases x) (auto simp: blend_step_def Let_def dec_ops dec.rnd_idem split: direction.split)
  then show ?case using Cons.IH [of "blend_step b x"] by simp
qed simp

lemma dec_abs_blend: "dec_abs (bl_score (blend_all ws)) = \<bar>bl_score (blend_all ws)\<bar>"
proof -
  have "dec_round (bl_score (blend_all ws)) = bl_score (blend_all ws)"
    using foldl_blend_score_rep [of "\<lparr>bl_total = 0, bl_score = 0, bl_conf = 0\<rparr>" ws]
    by (simp add: blend_all_def Let_def dec_div_def dec.rnd_idem)
  then show ?thesis by (simp add: dec_abs_def dec.rnd_abs)
qed

section \<open>Properties\<close>

text \<open>
  C29. Routing is safe for every regime label and every indicator dictionary: the router built by
  \<open>build_algo_router\<close> always returns a suggestion, its confidence lies in [0, 1], every BUY or SELL has
  confidence between 0.50 and 0.90, and an unknown regime or high volatility always gives HOLD.
\<close>

theorem routing_safe:
  "\<exists>s. route algo_router regime f = Inr s \<and> valid_suggestion s \<and>
     (sug_direction s \<noteq> HOLD \<longrightarrow> 1 / 2 \<le> sug_confidence s \<and> sug_confidence s \<le> 9 / 10) \<and>
     (regime \<notin> {''trending_up'', ''trending_down'', ''ranging'', ''reversal''} \<longrightarrow> sug_direction s = HOLD)"
proof -
  obtain s where s: "route algo_router regime f = Inr s" "valid_suggestion s"
    "sug_direction s \<noteq> HOLD \<longrightarrow> 1 / 2 \<le> sug_confidence s \<and> sug_confidence s \<le> 9 / 10"
    using routed.analyze_good [of regime f] by (auto simp: good_suggestion_def)
  have "sug_direction s = HOLD" if "regime \<notin> {''trending_up'', ''trending_down'', ''ranging'', ''reversal''}"
    using that s(1)
    by (cases "regime = ''high_volatility''")
      (auto simp: route_def algo_router_def register_strategy_def set_default_strategy_def new_router_def
        defensive_def SignalSuggestion_def direction_of_def setdefault_name_def Let_def)
  then show ?thesis using s by blast
qed

theorem routing_safe_witness:
  "\<exists>s. route algo_router ''volatile'' (Map.empty(''adx'' \<mapsto> 40)) = Inr s \<and> valid_suggestion s \<and> sug_direction s = HOLD"
  using routing_safe [of "''volatile''" "Map.empty(''adx'' \<mapsto> 40)"] by auto

text \<open>
  Trend votes decide the trend strategy: it goes long only with at least three bullish confirmations
  in total (the ADX bonus included) and more than bearish ones, so that at least two of the three
  directional indicators agree, and symmetrically for short; its confidence is a function of the ADX.
\<close>

theorem trend_needs_agreement:
  assumes "trend_following f = Inr s"
  shows "(sug_direction s = BUY \<longrightarrow> 2 \<le> fst (trend_votes f) \<and> snd (trend_votes f) < fst (trend_votes f)) \<and>
    (sug_direction s = SELL \<longrightarrow> 2 \<le> snd (trend_votes f) \<and> fst (trend_votes f) < snd (trend_votes f)) \<and>
    (sug_direction s \<noteq> HOLD \<longrightarrow> sug_confidence s = trend_confidence (trend_adx f))"
  using assms
  by (auto simp: trend_following_def Let_def SignalSuggestion_def direction_of_def split: if_splits)

definition sample_features :: features where
  "sample_features = [''ema_fast'' \<mapsto> 11 / 10, ''ema_slow'' \<mapsto> 1, ''sma_200'' \<mapsto> 1, ''latest_close'' \<mapsto> 12 / 10,
     ''macd_histogram'' \<mapsto> 1, ''adx'' \<mapsto> 30]"

theorem trend_needs_agreement_witness:
  "\<exists>s. trend_following sample_features = Inr s \<and> sug_direction s = BUY \<and> 2 \<le> fst (trend_votes sample_features)"
proof -
  have "trend_votes sample_features = (3, 0)" by (simp add: trend_votes_def sample_features_def fget_def Let_def)
  moreover have "trend_adx sample_features = 30" by (simp add: trend_adx_def sample_features_def fget_def)
  ultimately obtain s where s: "trend_following sample_features = Inr s" "sug_direction s = BUY"
    by (simp add: trend_following_def trend_confidence_def dec_ops num_eval SignalSuggestion_def direction_of_def)
  then show ?thesis using trend_needs_agreement [OF s(1)] by blast
qed

text \<open>
  Probabilistic routing always returns: over any sound set of strategies and any posteriors the
  consensus is a suggestion with confidence in [0, 1]; when it is not the default strategy's answer, a
  BUY or SELL means the weighted score has that sign and magnitude at least 0.10, and its confidence is at
  least that of the score capped at 0.85.
\<close>

theorem probabilistic_consensus:
  assumes "router_sound r" "collect_suggestions r f posteriors = Inr ws"
  shows "\<exists>s. route_probabilistic r posteriors f = Inr s \<and> valid_suggestion s \<and>
     (ws \<noteq> [] \<longrightarrow>
        (sug_direction s = BUY \<longleftrightarrow> 1 / 10 \<le> bl_score (blend_all ws)) \<and>
        (sug_direction s = SELL \<longleftrightarrow> bl_score (blend_all ws) \<le> - (1 / 10)) \<and>
        (sug_direction s \<noteq> HOLD \<longrightarrow>
           min \<bar>bl_score (blend_all ws)\<bar> (85 / 100) \<le> sug_confidence s \<and> sug_confidence s \<le> 85 / 100))"
proof (cases "ws = []")
  case True
  have "good_suggestion (route_probabilistic r posteriors f)"
    using assms trading_strategy.analyze_good True
    by (auto simp: route_probabilistic_def router_sound_def split: option.split)
  then show ?thesis using True by (auto simp: good_suggestion_def)
next
  case False
  define b where "b = blend_all ws"
  have "\<forall>(w, s) \<in> set ws. 10 / 100 \<le> w \<and> valid_suggestion s"
    using collect_suggestions_spec [OF assms(1), of f posteriors] assms(2) by auto
  then have dom: "\<bar>bl_score b\<bar> \<le> bl_conf b" unfolding b_def by (rule blend_all_bounds [OF False])
  have abs: "dec_abs (bl_score b) < 1 / 10 \<longleftrightarrow> \<bar>bl_score b\<bar> < 1 / 10"
    using dec_abs_blend [of ws] unfolding b_def by simp
  have le: "0 \<le> min (bl_conf b) (85 / 100)" "min (bl_conf b) (85 / 100) \<le> 1" using dom by auto
  show ?thesis
    using False assms(2) dom abs le unfolding route_probabilistic_def b_def [symmetric]
    by (auto simp: Let_def SignalSuggestion_def direction_of_def valid_suggestion_def b_def [symmetric])
qed

theorem probabilistic_consensus_witness:
  "\<exists>ws s. collect_suggestions algo_router sample_features [(''trending_up'', 6 / 10), (''ranging'', 3 / 10)] = Inr ws \<and>
     route_probabilistic algo_router [(''trending_up'', 6 / 10), (''ranging'', 3 / 10)] sample_features = Inr s \<and>
     valid_suggestion s \<and> (ws \<noteq> [] \<longrightarrow> (sug_direction s = BUY \<longleftrightarrow> 1 / 10 \<le> bl_score (blend_all ws)))"
proof -
  let ?ps = "[(''trending_up'', 6 / 10), (''ranging'', 3 / 10)]"
  obtain ws where ws: "collect_suggestions algo_router sample_features ?ps = Inr ws"
    using collect_suggestions_spec [OF algo_router_sound] by blast
  then show ?thesis using probabilistic_consensus [OF algo_router_sound ws] by blast
qed

end
