(* ===== verification/Signal_Generator.thy ===== *)
theory Signal_Generator
  imports Market_Types
begin

text \<open>
  \<open>algo_engine/signals/generator.py\<close> (class \<open>SignalGenerator\<close>) and
  \<open>algo_engine/analytics/attribution.py\<close>. The UUID is an argument, as is the clock reading. On prices of
  ordinary precision every step is exact, which gives the stop and target in closed form.
\<close>

section \<open>SignalGenerator\<close>

record generator =
  gn_sl_mult :: decimal
  gn_tp_mult :: decimal

definition default_generator :: generator where
  "default_generator = \<lparr>gn_sl_mult = 15 / 10, gn_tp_mult = 25 / 10\<rparr>"

definition stop_and_target :: "generator \<Rightarrow> direction \<Rightarrow> decimal \<Rightarrow> decimal \<Rightarrow> decimal \<times> decimal" where
  "stop_and_target g d current_price atr =
     (let sl_distance = dec_mul atr (gn_sl_mult g); tp_distance = dec_mul atr (gn_tp_mult g)
      in if 0 < atr
         then (case d of
                 BUY \<Rightarrow> (dec_sub current_price sl_distance, dec_add current_price tp_distance)
               | SELL \<Rightarrow> (dec_add current_price sl_distance, dec_sub current_price tp_distance)
               | HOLD \<Rightarrow> (0, 0))
         else (0, 0))"

definition risk_reward_ratio :: "decimal \<Rightarrow> decimal \<Rightarrow> decimal \<Rightarrow> decimal" where
  "risk_reward_ratio current_price stop_loss take_profit =
     (if stop_loss \<noteq> 0 \<and> take_profit \<noteq> 0
      then let risk = dec_abs (dec_sub current_price stop_loss);
               reward = dec_abs (dec_sub take_profit current_price)
           in if 0 < risk then dec_div reward risk else 0
      else 0)"

definition generate_signal ::
  "generator \<Rightarrow> string \<Rightarrow> rat \<Rightarrow> string \<Rightarrow> suggestion \<Rightarrow> decimal \<Rightarrow> decimal \<Rightarrow> trading_signal option" where
  "generate_signal g uuid now symbol s current_price atr =
     (if sug_direction s \<noteq> HOLD \<and> atr \<le> 0 then None
      else let (stop_loss, take_profit) = stop_and_target g (sug_direction s) current_price atr
           in Some \<lparr>signal_id = uuid, sig_symbol = symbol, sig_direction = sug_direction s,
                    sig_confidence = sug_confidence s, sig_entry_price = current_price,
                    sig_stop_loss = stop_loss, sig_take_profit = take_profit,
                    sig_risk_reward = risk_reward_ratio current_price stop_loss take_profit,
                    sig_order_type = (case sug_order_type s of None \<Rightarrow> ''MARKET'' | Some t \<Rightarrow> t),
                    sig_timestamp_ms = \<lfloor>flt_round (now * 1000)\<rfloor>, sig_lots = None, sig_source_tier = None\<rparr>)"

section \<open>StrategyAttribution\<close>

record strategy_stats =
  ss_signals :: nat
  ss_wins :: nat
  ss_losses :: nat
  ss_total_profit :: decimal
  ss_total_loss :: decimal
  ss_confidence_sum :: decimal

type_synonym attribution = "string \<rightharpoonup> strategy_stats"

definition empty_stats :: strategy_stats where
  "empty_stats = \<lparr>ss_signals = 0, ss_wins = 0, ss_losses = 0, ss_total_profit = 0, ss_total_loss = 0, ss_confidence_sum = 0\<rparr>"

definition ensure_stats :: "attribution \<Rightarrow> string \<Rightarrow> strategy_stats" where
  "ensure_stats a n = (case a n of None \<Rightarrow> empty_stats | Some s \<Rightarrow> s)"

definition record_signal :: "string \<Rightarrow> decimal \<Rightarrow> attribution \<Rightarrow> attribution" where
  "record_signal n confidence a =
     (let s = ensure_stats a n
      in a(n \<mapsto> s\<lparr>ss_signals := ss_signals s + 1, ss_confidence_sum := dec_add (ss_confidence_sum s) confidence\<rparr>))"

definition record_outcome :: "string \<Rightarrow> decimal \<Rightarrow> attribution \<Rightarrow> attribution" where
  "record_outcome n profit a =
     (let s = ensure_stats a n
      in a(n \<mapsto> (if 0 < profit
                  then s\<lparr>ss_wins := ss_wins s + 1, ss_total_profit := dec_add (ss_total_profit s) profit\<rparr>
                  else if profit < 0
                  then s\<lparr>ss_losses := ss_losses s + 1, ss_total_loss := dec_add (ss_total_loss s) profit\<rparr>
                  else s)))"

definition stats_win_rate :: "strategy_stats \<Rightarrow> decimal" where
  "stats_win_rate s =
     (let total = ss_wins s + ss_losses s in if total = 0 then 0 else dec_div (of_nat (ss_wins s)) (of_nat total))"

text \<open>\<open>None\<close> is \<open>Decimal("Infinity")\<close>.\<close>

definition stats_profit_factor :: "strategy_stats \<Rightarrow> decimal option" where
  "stats_profit_factor s =
     (if ss_total_loss s = 0 then (if 0 < ss_total_profit s then None else Some 0)
      else Some (dec_abs (dec_div (ss_total_profit s) (ss_total_loss s))))"

definition stats_net_profit :: "strategy_stats \<Rightarrow> decimal" where
  "stats_net_profit s = dec_add (ss_total_profit s) (ss_total_loss s)"

definition stats_avg_confidence :: "strategy_stats \<Rightarrow> decimal" where
  "stats_avg_confidence s =
     (if ss_signals s = 0 then 0 else dec_div (ss_confidence_sum s) (of_nat (ss_signals s)))"

section \<open>Lemmas\<close>

text \<open>
  A price with at most eight decimals and at most \<open>10^9\<close> in size: its sums, differences and products with
  a two-decimal multiplier are representable.
\<close>

definition ordinary_price :: "decimal \<Rightarrow> bool" where
  "ordinary_price p \<longleftrightarrow> on_grid 8 p \<and> \<bar>p\<bar> \<le> 10 ^ 9"

definition ordinary_mult :: "decimal \<Rightarrow> bool" where
  "ordinary_mult m \<longleftrightarrow> on_grid 2 m \<and> 0 < m \<and> m \<le> 1000"

lemma on_grid_rep:
  assumes "on_grid n x" "\<bar>x\<bar> * 10 ^ n < 10 ^ 28"
  shows "dec_round x = x"
proof -
  obtain m where m: "x * 10 ^ n = of_int m" using assms(1) by (auto simp: on_grid_def)
  have "\<bar>x\<bar> * 10 ^ n = of_int \<bar>m\<bar>" by (metis abs_mult abs_of_pos m of_int_abs zero_less_numeral zero_less_power)
  then have "of_int \<bar>m\<bar> < (of_int (10 ^ 28) :: rat)" using assms(2) by simp
  then have "\<bar>m\<bar> < 10 ^ 28" by (simp only: of_int_less_iff)
  then show ?thesis using dec_round_grid [OF m] by blast
qed

lemma on_grid_weaken:
  assumes "on_grid n x" "n \<le> k"
  shows "on_grid k x"
proof -
  obtain m where m: "x * 10 ^ n = of_int m" using assms(1) by (auto simp: on_grid_def)
  have "x * 10 ^ k = x * 10 ^ n * 10 ^ (k - n)" using assms(2) by (simp add: power_add [symmetric])
  also have "\<dots> = of_int (m * 10 ^ (k - n))" by (simp add: m)
  finally show ?thesis by (rule on_gridI)
qed

lemma on_grid_mult: "on_grid n x \<Longrightarrow> on_grid k y \<Longrightarrow> on_grid (n + k) (x * y)"
proof -
  assume "on_grid n x" "on_grid k y"
  then obtain a b where "x * 10 ^ n = of_int a" "y * 10 ^ k = of_int b" by (auto simp: on_grid_def)
  moreover have "x * y * 10 ^ (n + k) = (x * 10 ^ n) * (y * 10 ^ k)" by (simp add: power_add)
  ultimately have "x * y * 10 ^ (n + k) = of_int (a * b)" by simp
  then show ?thesis by (rule on_gridI)
qed

lemma distance_exact:
  assumes "ordinary_price a" "ordinary_mult m"
  shows "dec_mul a m = a * m" "on_grid 10 (a * m)" "\<bar>a * m\<bar> \<le> 10 ^ 12"
proof -
  show g: "on_grid 10 (a * m)" using on_grid_mult [of 8 a 2 m] assms by (simp add: ordinary_price_def ordinary_mult_def)
  have "\<bar>a\<bar> * \<bar>m\<bar> \<le> 10 ^ 9 * 1000" using assms unfolding ordinary_price_def ordinary_mult_def by (intro mult_mono) auto
  then show b: "\<bar>a * m\<bar> \<le> 10 ^ 12" by (simp add: abs_mult)
  show "dec_mul a m = a * m" unfolding dec_mul_def using on_grid_rep [OF g] b by simp
qed

lemma price_shift_exact:
  assumes "ordinary_price p" "on_grid 10 d" "\<bar>d\<bar> \<le> 10 ^ 12"
  shows "dec_add p d = p + d" "dec_sub p d = p - d" "dec_sub d p = d - p"
    "dec_sub p (p - d) = d" "dec_sub p (p + d) = - d" "dec_sub (p + d) p = d" "dec_sub (p - d) p = - d"
proof -
  have p: "on_grid 10 p" "\<bar>p\<bar> \<le> 10 ^ 9" using assms(1) on_grid_weaken [of 8 p 10] by (simp_all add: ordinary_price_def)
  have b: "\<bar>p + d\<bar> \<le> 10 ^ 13" "\<bar>p - d\<bar> \<le> 10 ^ 13" "\<bar>d - p\<bar> \<le> 10 ^ 13" using p(2) assms(3) unfolding abs_le_iff by simp_all
  have r: "dec_round (p + d) = p + d" "dec_round (p - d) = p - d" "dec_round (d - p) = d - p" "dec_round d = d"
    using on_grid_rep [OF on_grid_add [OF p(1) assms(2)]] on_grid_rep [OF on_grid_diff [OF p(1) assms(2)]]
      on_grid_rep [OF on_grid_diff [OF assms(2) p(1)]] on_grid_rep [OF assms(2)] b assms(3) by simp_all
  then show "dec_add p d = p + d" "dec_sub p d = p - d" "dec_sub d p = d - p"
    "dec_sub p (p - d) = d" "dec_sub p (p + d) = - d" "dec_sub (p + d) p = d" "dec_sub (p - d) p = - d"
    by (simp_all add: dec_ops dec.rnd_minus)
qed

section \<open>Properties\<close>

text \<open>
  Stops and targets are where they should be: for ordinary prices the generator places the stop exactly
  \<open>atr * sl_mult\<close> against the trade and the target exactly \<open>atr * tp_mult\<close> in its favour, the stop strictly
  on the losing side and the target strictly on the winning side; and unless one of the two prices
  happens to be zero the reported risk/reward is the rounded quotient of the two distances.
\<close>

theorem generated_levels:
  assumes "ordinary_price p" "ordinary_price atr" "0 < atr" "ordinary_mult (gn_sl_mult g)" "ordinary_mult (gn_tp_mult g)"
    and "sug_direction s \<noteq> HOLD"
  shows "\<exists>sig. generate_signal g uuid now symbol s p atr = Some sig \<and>
     sig_direction sig = sug_direction s \<and> sig_entry_price sig = p \<and> sig_confidence sig = sug_confidence s \<and>
     (sug_direction s = BUY \<longrightarrow> sig_stop_loss sig = p - atr * gn_sl_mult g \<and> sig_take_profit sig = p + atr * gn_tp_mult g \<and>
        sig_stop_loss sig < p \<and> p < sig_take_profit sig) \<and>
     (sug_direction s = SELL \<longrightarrow> sig_stop_loss sig = p + atr * gn_sl_mult g \<and> sig_take_profit sig = p - atr * gn_tp_mult g \<and>
        p < sig_stop_loss sig \<and> sig_take_profit sig < p) \<and>
     (sig_stop_loss sig \<noteq> 0 \<and> sig_take_profit sig \<noteq> 0 \<longrightarrow>
        sig_risk_reward sig = dec_div (atr * gn_tp_mult g) (atr * gn_sl_mult g))"
proof -
  let ?s = "atr * gn_sl_mult g" and ?t = "atr * gn_tp_mult g"
  note S = distance_exact [OF assms(2,4)] and T = distance_exact [OF assms(2,5)]
  note PS = price_shift_exact [OF assms(1) S(2,3)] and PT = price_shift_exact [OF assms(1) T(2,3)]
  have pos: "0 < ?s" "0 < ?t" using assms by (simp_all add: ordinary_mult_def)
  have rep: "dec_abs ?s = ?s" "dec_abs ?t = ?t" "dec_abs (- ?s) = ?s" "dec_abs (- ?t) = ?t"
    using S(1) T(1) pos by (simp_all add: dec_abs_def dec_mul_def)
  show ?thesis
    using assms(3,6) pos rep
    by (cases "sug_direction s")
      (simp_all add: generate_signal_def stop_and_target_def risk_reward_ratio_def S(1) T(1) PS PT Let_def)
qed

theorem generated_levels_witness:
  "\<exists>sig. generate_signal default_generator ''id'' 0 ''EURUSD''
       \<lparr>sug_direction = BUY, sug_confidence = 7 / 10, sug_strategy = None, sug_order_type = None\<rparr> (11 / 10) (1 / 100) = Some sig \<and>
     sig_stop_loss sig = 1085 / 1000 \<and> sig_take_profit sig = 1125 / 1000"
proof -
  have "ordinary_price (11 / 10)" "ordinary_price (1 / 100)"
    by (auto simp: ordinary_price_def intro: on_gridI [of _ _ 110000000] on_gridI [of _ _ 1000000])
  moreover have "ordinary_mult (gn_sl_mult default_generator)" "ordinary_mult (gn_tp_mult default_generator)"
    by (auto simp: ordinary_mult_def default_generator_def intro: on_gridI [of _ _ 150] on_gridI [of _ _ 250])
  ultimately show ?thesis
    using generated_levels [of "11 / 10" "1 / 100" default_generator
        "\<lparr>sug_direction = BUY, sug_confidence = 7 / 10, sug_strategy = None, sug_order_type = None\<rparr>" "''id''" 0 "''EURUSD''"]
    by (auto simp: default_generator_def)
qed

end
