(* ===== verification/Maturity_Gate.thy ===== *)
theory Maturity_Gate
  imports Market_Types
begin

text \<open>
  \<open>algo_engine/maturity_gate.py\<close>: the conviction index and the paper-to-live state machine that
  scales every position. The gate's counters and its state are one record; \<open>evaluate\<close> is one
  conviction check. The lemmas bound the index, show that a state changes by at most one level
  per check, and give the exact price of a promotion in positive checks.
\<close>

section \<open>Conviction index\<close>

datatype maturity_state = DOUBT | LEARNING | CONVICTION | MATURE

fun STATE_MULTIPLIERS :: "maturity_state \<Rightarrow> decimal" where
  "STATE_MULTIPLIERS DOUBT = 5 / 100"
| "STATE_MULTIPLIERS LEARNING = 35 / 100"
| "STATE_MULTIPLIERS CONVICTION = 80 / 100"
| "STATE_MULTIPLIERS MATURE = 1"

definition STATE_ORDER :: "maturity_state list" where
  "STATE_ORDER = [DOUBT, LEARNING, CONVICTION, MATURE]"

text \<open>The states are ordered by trust; the multiplier grows with it.\<close>

fun state_rank :: "maturity_state \<Rightarrow> nat" where
  "state_rank DOUBT = 0"
| "state_rank LEARNING = 1"
| "state_rank CONVICTION = 2"
| "state_rank MATURE = 3"

lemma state_rank_inj: "state_rank s = state_rank t \<longleftrightarrow> s = t"
  by (cases s; cases t) simp_all

lemma STATE_ORDER_rank: "STATE_ORDER ! state_rank s = s"
  by (cases s) (simp_all add: STATE_ORDER_def numeral_eq_Suc)

instantiation maturity_state :: linorder
begin

definition less_eq_maturity_state :: "maturity_state \<Rightarrow> maturity_state \<Rightarrow> bool" where
  "s \<le> t \<longleftrightarrow> state_rank s \<le> state_rank t"

definition less_maturity_state :: "maturity_state \<Rightarrow> maturity_state \<Rightarrow> bool" where
  "s < t \<longleftrightarrow> state_rank s < state_rank t"

instance
  by standard (auto simp: less_eq_maturity_state_def less_maturity_state_def state_rank_inj)

end

lemma STATE_MULTIPLIERS_mono: "mono STATE_MULTIPLIERS"
proof (rule monoI)
  fix s t :: maturity_state
  assume "s \<le> t"
  then show "STATE_MULTIPLIERS s \<le> STATE_MULTIPLIERS t"
    by (cases s; cases t) (simp_all add: less_eq_maturity_state_def)
qed

definition clamp_01 :: "decimal \<Rightarrow> decimal" where
  "clamp_01 v = clamp 0 1 v"

record conviction_snapshot =
  cs_win_rate :: decimal
  cs_sharpe_norm :: decimal
  cs_profit_factor_norm :: decimal
  cs_drawdown_health :: decimal
  cs_conviction_index :: decimal

definition conviction_sum :: "decimal \<Rightarrow> decimal \<Rightarrow> decimal \<Rightarrow> decimal \<Rightarrow> decimal" where
  "conviction_sum wr sh pf dd =
     dec_add (dec_add (dec_add (dec_mul (35 / 100) wr) (dec_mul (30 / 100) sh))
                      (dec_mul (20 / 100) pf))
             (dec_mul (15 / 100) dd)"

definition conviction_compute ::
  "decimal \<Rightarrow> decimal \<Rightarrow> decimal \<Rightarrow> decimal \<Rightarrow> conviction_snapshot result" where
  "conviction_compute win_rate sharpe_ratio profit_factor drawdown_pct =
     (let wr = clamp_01 win_rate;
          sharpe_norm = clamp_01 (dec_div sharpe_ratio 3);
          pf_norm = clamp_01 (dec_div (dec_sub profit_factor 1) 2);
          dd_health = clamp_01 (dec_sub 1 (dec_div drawdown_pct 100))
      in rbind (quantize 4 (conviction_sum wr sharpe_norm pf_norm dd_health)) (\<lambda>c.
           Inr \<lparr>cs_win_rate = wr, cs_sharpe_norm = sharpe_norm, cs_profit_factor_norm = pf_norm,
                cs_drawdown_health = dd_health, cs_conviction_index = c\<rparr>))"

section \<open>The gate\<close>

record gate =
  mg_state :: maturity_state
  mg_promote_threshold :: decimal
  mg_demote_threshold :: decimal
  mg_promote_count :: nat
  mg_demote_count :: nat
  mg_positive :: nat
  mg_negative :: nat
  mg_check_count :: nat

definition new_gate :: "decimal \<Rightarrow> decimal \<Rightarrow> nat \<Rightarrow> nat \<Rightarrow> maturity_state \<Rightarrow> gate" where
  "new_gate pt dt pc dc st =
     \<lparr>mg_state = st, mg_promote_threshold = pt, mg_demote_threshold = dt, mg_promote_count = pc,
      mg_demote_count = dc, mg_positive = 0, mg_negative = 0, mg_check_count = 0\<rparr>"

definition default_gate :: gate where
  "default_gate = new_gate (60 / 100) (35 / 100) 3 2 DOUBT"

text \<open>\<open>_STATE_ORDER.index(state)\<close>; every state occurs in the list.\<close>

fun index_in :: "'a list \<Rightarrow> 'a \<Rightarrow> nat" where
  "index_in [] y = 0"
| "index_in (x # xs) y = (if x = y then 0 else Suc (index_in xs y))"

definition state_index :: "maturity_state \<Rightarrow> nat" where
  "state_index s = index_in STATE_ORDER s"

definition promote :: "gate \<Rightarrow> gate" where
  "promote g =
     (let idx = state_index (mg_state g)
      in if idx < length STATE_ORDER - 1 then g\<lparr>mg_state := STATE_ORDER ! (idx + 1)\<rparr> else g)"

definition demote :: "gate \<Rightarrow> gate" where
  "demote g =
     (let idx = state_index (mg_state g)
      in if 0 < idx then g\<lparr>mg_state := STATE_ORDER ! (idx - 1)\<rparr> else g)"

definition count_check :: "gate \<Rightarrow> decimal \<Rightarrow> gate" where
  "count_check g conviction =
     (if mg_promote_threshold g \<le> conviction
      then g\<lparr>mg_positive := mg_positive g + 1, mg_negative := 0\<rparr>
      else if conviction < mg_demote_threshold g
      then g\<lparr>mg_negative := mg_negative g + 1, mg_positive := 0\<rparr>
      else g\<lparr>mg_positive := 0, mg_negative := 0\<rparr>)"

definition evaluate :: "gate \<Rightarrow> decimal \<Rightarrow> gate" where
  "evaluate g conviction =
     (let g = g\<lparr>mg_check_count := mg_check_count g + 1\<rparr>;
          g = count_check g conviction;
          g = (if mg_promote_count g \<le> mg_positive g then (promote g)\<lparr>mg_positive := 0\<rparr> else g);
          g = (if mg_demote_count g \<le> mg_negative g then (demote g)\<lparr>mg_negative := 0\<rparr> else g)
      in g)"

definition sizing_multiplier :: "gate \<Rightarrow> decimal" where
  "sizing_multiplier g = STATE_MULTIPLIERS (mg_state g)"

definition force_state :: "gate \<Rightarrow> maturity_state \<Rightarrow> gate" where
  "force_state g st = g\<lparr>mg_state := st, mg_positive := 0, mg_negative := 0\<rparr>"

fun evaluate_all :: "gate \<Rightarrow> decimal list \<Rightarrow> gate" where
  "evaluate_all g [] = g"
| "evaluate_all g (c # cs) = evaluate_all (evaluate g c) cs"

section \<open>Bounds and monotonicity of the index\<close>

lemma clamp_01_bounds: "0 \<le> clamp_01 v" "clamp_01 v \<le> 1"
  by (simp_all add: clamp_01_def clamp_bounds)

lemma clamp_01_mono: "x \<le> y \<Longrightarrow> clamp_01 x \<le> clamp_01 y"
  by (simp add: clamp_01_def clamp_mono)

text \<open>A product with a weight of at most two decimals is bounded by the weight itself.\<close>

lemma dec_mul_weight_le:
  assumes "0 \<le> w" "dec_round w = w" "x \<le> 1"
  shows "dec_mul w x \<le> w"
  unfolding dec_mul_def using assms mult_left_mono [of x 1 w] by (intro dec.rnd_le) auto

lemma dec_add_le: "dec_round c = c \<Longrightarrow> x + y \<le> c \<Longrightarrow> dec_add x y \<le> c"
  by (simp add: dec_add_def dec.rnd_le)

lemma conviction_sum_bounds:
  assumes "0 \<le> wr" "wr \<le> 1" "0 \<le> sh" "sh \<le> 1" "0 \<le> pf" "pf \<le> 1" "0 \<le> dd" "dd \<le> 1"
  shows "0 \<le> conviction_sum wr sh pf dd" and "conviction_sum wr sh pf dd \<le> 1"
proof -
  show "0 \<le> conviction_sum wr sh pf dd"
    unfolding conviction_sum_def using assms by (intro dec_add_nonneg dec_mul_nonneg) auto
  have w: "dec_mul (35 / 100) wr \<le> 35 / 100" "dec_mul (30 / 100) sh \<le> 30 / 100"
    "dec_mul (20 / 100) pf \<le> 20 / 100" "dec_mul (15 / 100) dd \<le> 15 / 100"
    by (rule dec_mul_weight_le; use assms in \<open>simp add: num_eval\<close>)+
  have "dec_add (dec_mul (35 / 100) wr) (dec_mul (30 / 100) sh) \<le> 65 / 100"
    by (rule dec_add_le) (use w in \<open>simp_all add: num_eval\<close>)
  then have "dec_add (dec_add (dec_mul (35 / 100) wr) (dec_mul (30 / 100) sh)) (dec_mul (20 / 100) pf) \<le> 85 / 100"
    by (intro dec_add_le) (use w in \<open>simp_all add: num_eval\<close>)
  then show "conviction_sum wr sh pf dd \<le> 1"
    unfolding conviction_sum_def by (intro dec_add_le) (use w in \<open>simp_all\<close>)
qed

lemma conviction_sum_mono:
  assumes "0 \<le> wr" "wr \<le> wr'" "0 \<le> sh" "sh \<le> sh'" "0 \<le> pf" "pf \<le> pf'" "0 \<le> dd" "dd \<le> dd'"
  shows "conviction_sum wr sh pf dd \<le> conviction_sum wr' sh' pf' dd'"
  unfolding conviction_sum_def using assms by (intro dec_add_mono dec_mul_mono) auto

lemma quantize_unit:
  assumes "0 \<le> x" "x \<le> 1" "n \<le> 27"
  shows "\<exists>y. quantize n x = Inr y \<and> 0 \<le> y \<and> y \<le> 1"
proof -
  have "x * 10 ^ n \<le> 1 * 10 ^ 27"
    using assms by (intro mult_mono power_increasing) auto
  then have "\<bar>x\<bar> * 10 ^ n \<le> 10 ^ 28 - 1" using assms(1) by simp
  then obtain y where y: "quantize n x = Inr y" using quantize_defined by blast
  have "on_grid n 0" "on_grid n 1" by (auto intro: on_gridI [of _ _ 0] on_gridI [of _ _ "10 ^ n"])
  then show ?thesis using y quantize_ge [OF y _ assms(1)] quantize_le [OF y _ assms(2)] by auto
qed

lemma conviction_compute_eq:
  "\<exists>c. 0 \<le> c \<and> c \<le> 1 \<and>
     quantize 4 (conviction_sum (clamp_01 wr) (clamp_01 (dec_div sh 3))
        (clamp_01 (dec_div (dec_sub pf 1) 2)) (clamp_01 (dec_sub 1 (dec_div dd 100)))) = Inr c \<and>
     conviction_compute wr sh pf dd =
       Inr \<lparr>cs_win_rate = clamp_01 wr, cs_sharpe_norm = clamp_01 (dec_div sh 3),
            cs_profit_factor_norm = clamp_01 (dec_div (dec_sub pf 1) 2),
            cs_drawdown_health = clamp_01 (dec_sub 1 (dec_div dd 100)), cs_conviction_index = c\<rparr>"
proof -
  have "\<exists>c. quantize 4 (conviction_sum (clamp_01 wr) (clamp_01 (dec_div sh 3))
        (clamp_01 (dec_div (dec_sub pf 1) 2)) (clamp_01 (dec_sub 1 (dec_div dd 100)))) = Inr c \<and> 0 \<le> c \<and> c \<le> 1"
    by (rule quantize_unit) (auto intro!: conviction_sum_bounds simp: clamp_01_bounds)
  then show ?thesis by (auto simp: conviction_compute_def Let_def)
qed

section \<open>Invariant and progress of the gate\<close>

text \<open>
  Between two checks both counters are below their thresholds and at most one of them is
  positive.
\<close>

definition gate_inv :: "gate \<Rightarrow> bool" where
  "gate_inv g \<longleftrightarrow>
     mg_positive g < mg_promote_count g \<and> mg_negative g < mg_demote_count g \<and>
     (mg_positive g = 0 \<or> mg_negative g = 0)"

lemma state_index_simps [simp]:
  "state_index DOUBT = 0" "state_index LEARNING = 1" "state_index CONVICTION = 2" "state_index MATURE = 3"
  by (simp_all add: state_index_def STATE_ORDER_def)

lemma state_index_le: "state_index s \<le> 3"
  by (cases s) simp_all

lemma promote_state: "state_index (mg_state (promote g)) = min 3 (state_index (mg_state g) + 1)"
  by (cases "mg_state g") (simp_all add: promote_def STATE_ORDER_def)

lemma demote_state: "state_index (mg_state (demote g)) = state_index (mg_state g) - 1"
  by (cases "mg_state g") (simp_all add: demote_def STATE_ORDER_def)

lemma promote_frame [simp]:
  "mg_positive (promote g) = mg_positive g" "mg_negative (promote g) = mg_negative g"
  "mg_promote_count (promote g) = mg_promote_count g" "mg_demote_count (promote g) = mg_demote_count g"
  "mg_promote_threshold (promote g) = mg_promote_threshold g"
  "mg_demote_threshold (promote g) = mg_demote_threshold g"
  "mg_check_count (promote g) = mg_check_count g"
  by (simp_all add: promote_def Let_def)

lemma demote_frame [simp]:
  "mg_positive (demote g) = mg_positive g" "mg_negative (demote g) = mg_negative g"
  "mg_promote_count (demote g) = mg_promote_count g" "mg_demote_count (demote g) = mg_demote_count g"
  "mg_promote_threshold (demote g) = mg_promote_threshold g"
  "mg_demote_threshold (demote g) = mg_demote_threshold g"
  "mg_check_count (demote g) = mg_check_count g"
  by (simp_all add: demote_def Let_def)

lemma evaluate_frame [simp]:
  "mg_promote_count (evaluate g c) = mg_promote_count g"
  "mg_demote_count (evaluate g c) = mg_demote_count g"
  "mg_promote_threshold (evaluate g c) = mg_promote_threshold g"
  "mg_demote_threshold (evaluate g c) = mg_demote_threshold g"
  "mg_check_count (evaluate g c) = mg_check_count g + 1"
  by (simp_all add: evaluate_def count_check_def Let_def)

lemma evaluate_positive:
  assumes "gate_inv g" "mg_promote_threshold g \<le> c"
  shows "evaluate g c =
    (if mg_positive g + 1 = mg_promote_count g
     then (promote g)\<lparr>mg_check_count := mg_check_count g + 1, mg_positive := 0, mg_negative := 0\<rparr>
     else g\<lparr>mg_check_count := mg_check_count g + 1, mg_positive := mg_positive g + 1, mg_negative := 0\<rparr>)"
  using assms by (auto simp: evaluate_def count_check_def gate_inv_def Let_def promote_def)

lemma evaluate_negative:
  assumes "gate_inv g" "\<not> mg_promote_threshold g \<le> c" "c < mg_demote_threshold g"
  shows "evaluate g c =
    (if mg_negative g + 1 = mg_demote_count g
     then (demote g)\<lparr>mg_check_count := mg_check_count g + 1, mg_positive := 0, mg_negative := 0\<rparr>
     else g\<lparr>mg_check_count := mg_check_count g + 1, mg_positive := 0, mg_negative := mg_negative g + 1\<rparr>)"
  using assms by (auto simp: evaluate_def count_check_def gate_inv_def Let_def demote_def)

lemma evaluate_neutral:
  assumes "gate_inv g" "\<not> mg_promote_threshold g \<le> c" "\<not> c < mg_demote_threshold g"
  shows "evaluate g c = g\<lparr>mg_check_count := mg_check_count g + 1, mg_positive := 0, mg_negative := 0\<rparr>"
  using assms by (auto simp: evaluate_def count_check_def gate_inv_def Let_def)

lemmas evaluate_cases = evaluate_positive evaluate_negative evaluate_neutral

lemma evaluate_inv: "gate_inv g \<Longrightarrow> gate_inv (evaluate g c)"
  by (auto simp: evaluate_def count_check_def gate_inv_def Let_def)

lemma evaluate_all_inv: "gate_inv g \<Longrightarrow> gate_inv (evaluate_all g cs)"
  by (induction cs arbitrary: g) (auto intro: evaluate_inv)

lemma evaluate_all_config: "mg_promote_threshold (evaluate_all g cs) = mg_promote_threshold g \<and>
    mg_demote_threshold (evaluate_all g cs) = mg_demote_threshold g \<and>
    mg_promote_count (evaluate_all g cs) = mg_promote_count g \<and>
    mg_demote_count (evaluate_all g cs) = mg_demote_count g"
  by (induction cs arbitrary: g) auto

lemma force_state_inv: "gate_inv g \<Longrightarrow> gate_inv (force_state g st)"
  by (auto simp: gate_inv_def force_state_def)

lemma evaluate_one_level:
  assumes "gate_inv g"
  shows "state_index (mg_state (evaluate g c)) \<le> state_index (mg_state g) + 1 \<and>
    state_index (mg_state g) \<le> state_index (mg_state (evaluate g c)) + 1"
  using assms state_index_le [of "mg_state g"]
  by (cases "mg_promote_threshold g \<le> c"; cases "c < mg_demote_threshold g")
    (auto simp: evaluate_cases promote_state demote_state)

text \<open>Every level and every pending count is paid for by positive checks.\<close>

lemma evaluate_potential:
  assumes "gate_inv g"
  shows "mg_promote_count g * state_index (mg_state (evaluate g c)) + mg_positive (evaluate g c)
     \<le> mg_promote_count g * state_index (mg_state g) + mg_positive g
        + (if mg_promote_threshold g \<le> c then 1 else 0)"
proof (cases "mg_promote_threshold g \<le> c")
  case True
  let ?k = "state_index (mg_state g)" and ?g' = "evaluate g c"
  have le: "mg_promote_count g * min 3 (?k + 1) \<le> mg_promote_count g * ?k + mg_promote_count g"
    using mult_le_mono2 [of "min 3 (?k + 1)" "?k + 1" "mg_promote_count g"] by simp
  show ?thesis
  proof (cases "mg_positive g + 1 = mg_promote_count g")
    case t: True
    then have e: "state_index (mg_state ?g') = min 3 (?k + 1)" "mg_positive ?g' = 0"
      using True assms by (simp_all add: evaluate_positive promote_state)
    show ?thesis unfolding e if_P [OF True] using le t by linarith
  next
    case False
    with True assms show ?thesis by (simp add: evaluate_positive)
  qed
next
  case False
  have "mg_promote_count g * (state_index (mg_state g) - 1) \<le> mg_promote_count g * state_index (mg_state g)"
    by (rule mult_le_mono2) simp
  then show ?thesis
    using False assms
    by (cases "c < mg_demote_threshold g") (auto simp: evaluate_cases demote_state intro: trans_le_add1)
qed

lemma evaluate_all_potential:
  assumes "gate_inv g"
  shows "mg_promote_count g * state_index (mg_state (evaluate_all g cs)) + mg_positive (evaluate_all g cs)
     \<le> mg_promote_count g * state_index (mg_state g) + mg_positive g
        + length (filter (\<lambda>c. mg_promote_threshold g \<le> c) cs)"
  using assms
proof (induction cs arbitrary: g)
  case Nil
  then show ?case by simp
next
  case (Cons c cs)
  from Cons.IH [OF evaluate_inv [OF Cons.prems], of c] evaluate_potential [OF Cons.prems, of c]
  show ?case by (cases "mg_promote_threshold g \<le> c") simp_all
qed

text \<open>
  A run of positive checks climbs: after \<open>n\<close> of them the gate has climbed as many levels as
  fit, counting the checks already pending.
\<close>

lemma evaluate_all_climb:
  assumes "gate_inv g" "\<forall>c \<in> set cs. mg_promote_threshold g \<le> c"
  shows "min 3 (state_index (mg_state g) + (mg_positive g + length cs) div mg_promote_count g)
           \<le> state_index (mg_state (evaluate_all g cs))"
  using assms
proof (induction cs arbitrary: g)
  case Nil
  then show ?case by (simp add: gate_inv_def)
next
  case (Cons c cs)
  have c: "mg_promote_threshold g \<le> c" and cs: "\<forall>c \<in> set cs. mg_promote_threshold (evaluate g c) \<le> c"
    using Cons.prems by auto
  let ?p = "mg_promote_count g" and ?n = "length cs"
  have p: "0 < ?p" using Cons.prems by (auto simp: gate_inv_def)
  have IH: "min 3 (state_index (mg_state (evaluate g c)) + (mg_positive (evaluate g c) + ?n) div ?p)
      \<le> state_index (mg_state (evaluate_all (evaluate g c) cs))"
    using Cons.IH [OF evaluate_inv [OF Cons.prems(1)], of c] Cons.prems by simp
  show ?case
  proof (cases "mg_positive g + 1 = ?p")
    case True
    then have "(mg_positive g + length (c # cs)) div ?p = (?p + ?n) div ?p" by (metis add.assoc add.commute length_Cons plus_1_eq_Suc)
    also have "\<dots> = 1 + ?n div ?p" using p by simp
    finally show ?thesis using IH True c Cons.prems(1) by (simp add: evaluate_positive promote_state)
  next
    case False
    then show ?thesis using IH c Cons.prems(1) by (simp add: evaluate_positive)
  qed
qed

section \<open>Properties\<close>

lemma default_gate_inv [simp]: "gate_inv default_gate"
  by (simp add: gate_inv_def default_gate_def new_gate_def)

lemma default_gate_fields [simp]:
  "mg_promote_count default_gate = 3" "mg_demote_count default_gate = 2"
  "mg_promote_threshold default_gate = 60 / 100" "mg_demote_threshold default_gate = 35 / 100"
  "mg_positive default_gate = 0" "mg_state default_gate = DOUBT"
  by (simp_all add: default_gate_def new_gate_def)

lemma dec_div_mono_num: "0 \<le> c \<Longrightarrow> x \<le> y \<Longrightarrow> dec_div x c \<le> dec_div y c"
  by (simp add: dec_div_def dec.rnd_mono divide_right_mono)

text \<open>
  The conviction index is always defined and lies in [0, 1], and it respects the order of
  its inputs: a higher win rate, Sharpe ratio and profit factor with a lower drawdown never give
  a lower index, although every step of the weighted sum rounds.
\<close>

theorem conviction_range_monotone:
  assumes "wr \<le> wr'" "sh \<le> sh'" "pf \<le> pf'" "dd' \<le> dd"
  shows "\<exists>s s'. conviction_compute wr sh pf dd = Inr s \<and> conviction_compute wr' sh' pf' dd' = Inr s' \<and>
     0 \<le> cs_conviction_index s \<and> cs_conviction_index s \<le> cs_conviction_index s' \<and>
     cs_conviction_index s' \<le> 1"
proof -
  have "conviction_sum (clamp_01 wr) (clamp_01 (dec_div sh 3)) (clamp_01 (dec_div (dec_sub pf 1) 2))
        (clamp_01 (dec_sub 1 (dec_div dd 100)))
     \<le> conviction_sum (clamp_01 wr') (clamp_01 (dec_div sh' 3)) (clamp_01 (dec_div (dec_sub pf' 1) 2))
        (clamp_01 (dec_sub 1 (dec_div dd' 100)))"
    using assms
    by (intro conviction_sum_mono clamp_01_bounds clamp_01_mono dec_div_mono_num dec_sub_mono) auto
  then show ?thesis
    using conviction_compute_eq [of wr sh pf dd] conviction_compute_eq [of wr' sh' pf' dd'] quantize_mono
    by fastforce
qed

theorem conviction_range_monotone_witness:
  "\<exists>s s'. conviction_compute (1 / 2) 1 (3 / 2) 10 = Inr s \<and> conviction_compute (3 / 5) 2 2 5 = Inr s' \<and>
     0 \<le> cs_conviction_index s \<and> cs_conviction_index s \<le> cs_conviction_index s' \<and>
     cs_conviction_index s' \<le> 1"
  by (rule conviction_range_monotone) simp_all

text \<open>
  Capital is never released without evidence: whatever the sequence of conviction checks,
  the level reached from the initial DOUBT state costs at least three checks at or above the
  promotion threshold per level, so full size (MATURE) needs at least nine.
\<close>

theorem gate_promotion_cost:
  "3 * state_index (mg_state (evaluate_all default_gate cs)) \<le> length (filter (\<lambda>c. 60 / 100 \<le> c) cs)"
  using evaluate_all_potential [OF default_gate_inv, of cs] by simp

text \<open>
  And evidence does release capital: nine or more checks, all at or above the threshold,
  take a new gate from 5% sizing to full size.
\<close>

theorem gate_climbs_to_mature:
  assumes "\<forall>c \<in> set cs. 60 / 100 \<le> c" "9 \<le> length cs"
  shows "mg_state (evaluate_all default_gate cs) = MATURE \<and> sizing_multiplier (evaluate_all default_gate cs) = 1"
proof -
  have "min 3 (length cs div 3) \<le> state_index (mg_state (evaluate_all default_gate cs))"
    using evaluate_all_climb [OF default_gate_inv, of cs] assms(1) by simp
  then have "3 \<le> state_index (mg_state (evaluate_all default_gate cs))" using assms(2) by linarith
  then have "mg_state (evaluate_all default_gate cs) = MATURE"
    by (cases "mg_state (evaluate_all default_gate cs)") auto
  then show ?thesis by (simp add: sizing_multiplier_def)
qed

theorem gate_climbs_to_mature_witness:
  "mg_state (evaluate_all default_gate (replicate 9 (7 / 10))) = MATURE \<and>
   sizing_multiplier (evaluate_all default_gate (replicate 9 (7 / 10))) = 1"
  by (rule gate_climbs_to_mature) simp_all

text \<open>
  C19. The gate is a level machine: in every state that checks can reach, one more check keeps
  the counter invariant and moves by at most one level, and two checks in a row below the
  demotion threshold always cost exactly one level (none at the bottom).
\<close>

theorem gate_level_machine:
  assumes "c1 < 35 / 100" "c2 < 35 / 100"
  shows "let g = evaluate_all default_gate cs in
     gate_inv (evaluate g c) \<and>
     state_index (mg_state (evaluate g c)) \<le> state_index (mg_state g) + 1 \<and>
     state_index (mg_state g) \<le> state_index (mg_state (evaluate g c)) + 1 \<and>
     state_index (mg_state (evaluate (evaluate g c1) c2)) = state_index (mg_state g) - 1"
proof -
  define g where "g = evaluate_all default_gate cs"
  have inv: "gate_inv g" unfolding g_def by (rule evaluate_all_inv) simp
  have cfg: "mg_promote_threshold g = 60 / 100 \<and> mg_demote_threshold g = 35 / 100 \<and> mg_demote_count g = 2"
    unfolding g_def using evaluate_all_config [of default_gate cs] by simp
  have "state_index (mg_state (evaluate (evaluate g c1) c2)) = state_index (mg_state g) - 1"
    using inv cfg assms evaluate_inv [OF inv, of c1]
    by (cases "mg_negative g = 0") (auto simp: evaluate_negative demote_state gate_inv_def)
  then show ?thesis
    using evaluate_inv [OF inv, of c] evaluate_one_level [OF inv, of c] unfolding g_def [symmetric] Let_def by simp
qed

theorem gate_level_machine_witness:
  "let g = evaluate_all default_gate [1, 1, 1, 1] in
     gate_inv (evaluate g 1) \<and>
     state_index (mg_state (evaluate g 1)) \<le> state_index (mg_state g) + 1 \<and>
     state_index (mg_state g) \<le> state_index (mg_state (evaluate g 1)) + 1 \<and>
     state_index (mg_state (evaluate (evaluate g (1 / 10)) (2 / 10))) = state_index (mg_state g) - 1"
  by (rule gate_level_machine) simp_all

end
