(* ===== verification/Confidence.thy ===== *)
theory Confidence
  imports Maturity_Gate
begin

text \<open>
  Two calibration components the engine may be given: \<open>features/belief_state.py\<close> (smoothed beliefs about
  trend, momentum, regime and edge) and \<open>signals/composite_confidence.py\<close> (a weighted score of indicator
  agreement, historical edge and signal quality). Their ranges rest on the laws of \<open>rounding\<close>.
\<close>

section \<open>BeliefState\<close>

record belief_state =
  bs_alpha :: decimal
  bs_one_minus_alpha :: decimal
  bs_trend :: decimal
  bs_momentum :: decimal
  bs_regime :: decimal
  bs_edge :: decimal
  bs_update_count :: nat

definition new_belief_state :: "decimal \<Rightarrow> belief_state" where
  "new_belief_state alpha =
     \<lparr>bs_alpha = alpha, bs_one_minus_alpha = dec_sub 1 alpha, bs_trend = 0, bs_momentum = 0, bs_regime = 0,
      bs_edge = 0, bs_update_count = 0\<rparr>"

definition clamp_unit :: "decimal \<Rightarrow> decimal" where
  "clamp_unit v = clamp (- 1) 1 v"

definition belief_ema :: "belief_state \<Rightarrow> decimal \<Rightarrow> decimal \<Rightarrow> decimal" where
  "belief_ema bs prev new = dec_add (dec_mul (bs_one_minus_alpha bs) prev) (dec_mul (bs_alpha bs) new)"

record beliefs =
  be_trend :: decimal
  be_momentum :: decimal
  be_regime :: decimal
  be_edge :: decimal

definition get_beliefs :: "belief_state \<Rightarrow> beliefs result" where
  "get_beliefs bs =
     rbind (quantize 4 (bs_trend bs)) (\<lambda>t. rbind (quantize 4 (bs_momentum bs)) (\<lambda>m.
     rbind (quantize 4 (bs_regime bs)) (\<lambda>r. rbind (quantize 4 (bs_edge bs)) (\<lambda>e.
       Inr \<lparr>be_trend = t, be_momentum = m, be_regime = r, be_edge = e\<rparr>))))"

definition belief_update ::
  "decimal \<Rightarrow> decimal \<Rightarrow> decimal \<Rightarrow> decimal option \<Rightarrow> belief_state \<Rightarrow> beliefs result \<times> belief_state" where
  "belief_update trend_score momentum_score regime_confidence trade_outcome bs =
     (let bs = bs\<lparr>bs_trend := belief_ema bs (bs_trend bs) (clamp_unit trend_score)\<rparr>;
          bs = bs\<lparr>bs_momentum := belief_ema bs (bs_momentum bs) (clamp_unit momentum_score)\<rparr>;
          bs = bs\<lparr>bs_regime := belief_ema bs (bs_regime bs) (clamp_unit regime_confidence)\<rparr>;
          bs = (case trade_outcome of None \<Rightarrow> bs
                | Some x \<Rightarrow> bs\<lparr>bs_edge := belief_ema bs (bs_edge bs) (clamp_unit x)\<rparr>);
          bs = bs\<lparr>bs_update_count := bs_update_count bs + 1\<rparr>
      in (get_beliefs bs, bs))"

section \<open>CompositeConfidence\<close>

record composite =
  cc_w_agreement :: decimal
  cc_w_edge :: decimal
  cc_w_quality :: decimal

definition default_composite :: composite where
  "default_composite = \<lparr>cc_w_agreement = 40 / 100, cc_w_edge = 35 / 100, cc_w_quality = 25 / 100\<rparr>"

text \<open>One vote: counted in the total when \<open>present\<close>, and for the direction when it points its way.\<close>

definition vote :: "bool \<Rightarrow> bool \<Rightarrow> decimal \<Rightarrow> decimal \<Rightarrow> nat \<times> nat" where
  "vote is_buy present x y =
     (of_bool (present \<and> (is_buy \<and> y < x \<or> \<not> is_buy \<and> x < y)), of_bool present)"

definition agreement_votes :: "features \<Rightarrow> bool \<Rightarrow> (nat \<times> nat) list" where
  "agreement_votes f is_buy =
     [vote is_buy (fget f ''ema_fast'' 0 \<noteq> 0 \<and> fget f ''ema_slow'' 0 \<noteq> 0) (fget f ''ema_fast'' 0) (fget f ''ema_slow'' 0),
      vote is_buy True (fget f ''rsi'' 50) 50,
      vote is_buy True (fget f ''macd_histogram'' 0) 0,
      vote is_buy True (fget f ''stoch_k'' 50) 50,
      vote is_buy (fget f ''plus_di'' 0 \<noteq> 0 \<or> fget f ''minus_di'' 0 \<noteq> 0) (fget f ''plus_di'' 0) (fget f ''minus_di'' 0)]"

definition indicator_agreement :: "features \<Rightarrow> string \<Rightarrow> decimal" where
  "indicator_agreement f dir =
     (let vs = agreement_votes f (dir = ''BUY''); votes = sum_list (map fst vs); total = sum_list (map snd vs)
      in if total = 0 then 5 / 10 else dec_div (of_nat votes) (of_nat total))"

definition historical_edge :: "decimal \<Rightarrow> decimal option \<Rightarrow> decimal" where
  "historical_edge belief_edge win_rate =
     (case win_rate of Some w \<Rightarrow> clamp_01 w | None \<Rightarrow> clamp_01 (dec_div (dec_add belief_edge 1) 2))"

definition signal_quality :: "features \<Rightarrow> string \<Rightarrow> decimal" where
  "signal_quality f dir =
     (let is_buy = (dir = ''BUY''); rsi = fget f ''rsi'' 50;
          rsi_dist = dec_div (dec_abs (dec_sub rsi 50)) 50;
          q = (if is_buy \<and> 50 < rsi \<or> \<not> is_buy \<and> rsi < 50 then dec_add 0 rsi_dist else 0);
          score = fget f ''feature_composite_score'' 0;
          q = (if score \<noteq> 0 \<and> (is_buy \<and> 0 < score \<or> \<not> is_buy \<and> score < 0) then dec_add q (dec_abs score) else q);
          bb = fget f ''bb_pct_b'' (5 / 10);
          bb_dist = dec_mul (dec_abs (dec_sub bb (5 / 10))) 2;
          q = (if is_buy \<and> 5 / 10 < bb \<or> \<not> is_buy \<and> bb < 5 / 10 then dec_add q bb_dist else q);
          count = (if score \<noteq> 0 then 3 else 2)
      in clamp_01 (dec_div q count))"

definition composite_compute ::
  "composite \<Rightarrow> features \<Rightarrow> string \<Rightarrow> decimal \<Rightarrow> decimal option \<Rightarrow> decimal result" where
  "composite_compute cc f dir belief_edge win_rate =
     (let agreement = indicator_agreement f dir; edge = historical_edge belief_edge win_rate;
          quality = signal_quality f dir;
          total = dec_add (dec_add (dec_mul (cc_w_agreement cc) agreement) (dec_mul (cc_w_edge cc) edge))
                    (dec_mul (cc_w_quality cc) quality)
      in quantize 4 (clamp_01 total))"

section \<open>Lemmas: beliefs stay in range\<close>

lemma clamp_unit_bounds: "- 1 \<le> clamp_unit v \<and> clamp_unit v \<le> 1"
  by (simp add: clamp_unit_def clamp_bounds)

text \<open>Smoothing weights that the code's \<open>1 - alpha\<close> computes exactly.\<close>

definition smoothing_ok :: "belief_state \<Rightarrow> bool" where
  "smoothing_ok bs \<longleftrightarrow> 0 \<le> bs_alpha bs \<and> 0 \<le> bs_one_minus_alpha bs \<and> bs_alpha bs + bs_one_minus_alpha bs = 1 \<and>
     dec_round (bs_alpha bs) = bs_alpha bs \<and> dec_round (bs_one_minus_alpha bs) = bs_one_minus_alpha bs"

definition in_unit :: "decimal \<Rightarrow> bool" where
  "in_unit x \<longleftrightarrow> - 1 \<le> x \<and> x \<le> 1"

lemma belief_ema_in_unit:
  assumes "smoothing_ok bs" "in_unit prev" "in_unit new"
  shows "in_unit (belief_ema bs prev new)"
proof -
  have s: "dec_round (bs_one_minus_alpha bs * 1) = bs_one_minus_alpha bs * 1" "dec_round (bs_alpha bs * 1) = bs_alpha bs * 1"
    "dec_round (bs_one_minus_alpha bs * - 1) = bs_one_minus_alpha bs * - 1" "dec_round (bs_alpha bs * - 1) = bs_alpha bs * - 1"
    "bs_alpha bs + bs_one_minus_alpha bs = 1" "0 \<le> bs_alpha bs" "0 \<le> bs_one_minus_alpha bs"
    using assms(1) by (simp_all add: smoothing_ok_def dec.rnd_minus)
  have "dec_round (- 1) = - 1" by (simp add: dec.rnd_minus)
  then show ?thesis
    using dec.rnd_ema_le [OF s(1,2) dec_round_0_1(2) s(5,6,7), of prev new]
      dec.rnd_ema_ge [OF s(3,4) _ s(5,6,7), of prev new] assms(2,3)
    by (simp add: belief_ema_def dec_ops in_unit_def)
qed

definition belief_inv :: "belief_state \<Rightarrow> bool" where
  "belief_inv bs \<longleftrightarrow> smoothing_ok bs \<and> in_unit (bs_trend bs) \<and> in_unit (bs_momentum bs) \<and>
     in_unit (bs_regime bs) \<and> in_unit (bs_edge bs)"

lemma quantize_in_unit:
  assumes "in_unit x"
  shows "\<exists>y. quantize 4 x = Inr y \<and> in_unit y"
proof -
  have "\<bar>x\<bar> * 10 ^ 4 \<le> 10 ^ 28 - 1" using assms by (simp add: in_unit_def abs_if)
  then obtain y where y: "quantize 4 x = Inr y" using quantize_defined by blast
  have "on_grid 4 (- 1)" "on_grid 4 1" by (auto intro: on_gridI [of _ _ "- 10000"] on_gridI [of _ _ 10000])
  then show ?thesis using quantize_ge [OF y, of "- 1"] quantize_le [OF y, of 1] assms y by (simp add: in_unit_def)
qed

lemma belief_update_inv:
  assumes "belief_inv bs"
  shows "belief_inv (snd (belief_update t m r x bs))"
proof -
  have c: "in_unit (clamp_unit v)" for v using clamp_unit_bounds by (simp add: in_unit_def)
  have e: "in_unit prev \<Longrightarrow> in_unit (belief_ema b prev (clamp_unit v))"
    if "bs_alpha b = bs_alpha bs" "bs_one_minus_alpha b = bs_one_minus_alpha bs" for b prev v
    using assms that belief_ema_in_unit [of b] c by (simp add: belief_inv_def smoothing_ok_def)
  show ?thesis
    using assms e by (cases x) (simp_all add: belief_update_def belief_inv_def smoothing_ok_def Let_def)
qed

lemma get_beliefs_range:
  assumes "belief_inv bs"
  shows "\<exists>b. get_beliefs bs = Inr b \<and> in_unit (be_trend b) \<and> in_unit (be_momentum b) \<and> in_unit (be_regime b) \<and> in_unit (be_edge b)"
proof -
  obtain t m r e where "quantize 4 (bs_trend bs) = Inr t" "in_unit t" "quantize 4 (bs_momentum bs) = Inr m" "in_unit m"
    "quantize 4 (bs_regime bs) = Inr r" "in_unit r" "quantize 4 (bs_edge bs) = Inr e" "in_unit e"
    using assms quantize_in_unit unfolding belief_inv_def by metis
  then show ?thesis by (simp add: get_beliefs_def)
qed

section \<open>Lemmas: the composite score\<close>

lemma vote_le: "fst (vote b p x y) \<le> snd (vote b p x y)"
  by (auto simp: vote_def)

lemma indicator_agreement_range: "0 \<le> indicator_agreement f dir \<and> indicator_agreement f dir \<le> 1"
proof -
  let ?vs = "agreement_votes f (dir = ''BUY'')"
  have le: "sum_list (map fst ?vs) \<le> sum_list (map snd ?vs)"
    by (rule sum_list_mono) (auto simp: agreement_votes_def vote_le)
  have pos: "0 < sum_list (map snd ?vs)" by (simp add: agreement_votes_def vote_def)
  have "rat_of_nat (sum_list (map fst ?vs)) / of_nat (sum_list (map snd ?vs)) \<le> 1"
    using le pos by (simp only: divide_le_eq_1 of_nat_0_less_iff of_nat_le_iff) simp
  then have "dec_div (of_nat (sum_list (map fst ?vs))) (of_nat (sum_list (map snd ?vs))) \<le> 1"
    unfolding dec_div_def by (intro dec.rnd_le) auto
  then show ?thesis using pos unfolding indicator_agreement_def Let_def
    by (auto simp: dec_div_nonneg)
qed

section \<open>Properties\<close>

text \<open>
  Beliefs are bounded: with a smoothing factor in [0, 1], after any sequence of observations, however
  extreme, every update returns a snapshot whose four beliefs lie in [-1, 1].
\<close>

theorem beliefs_bounded:
  assumes "smoothing_ok (new_belief_state alpha)"
  shows "\<exists>b. fst (belief_update t m r x
       (fold (\<lambda>(t, m, r, x) bs. snd (belief_update t m r x bs)) obs (new_belief_state alpha))) = Inr b \<and>
     in_unit (be_trend b) \<and> in_unit (be_momentum b) \<and> in_unit (be_regime b) \<and> in_unit (be_edge b)"
proof -
  have "belief_inv (fold (\<lambda>(t, m, r, x) bs. snd (belief_update t m r x bs)) obs bs)" if "belief_inv bs" for bs
    using that by (induction obs arbitrary: bs) (auto intro: belief_update_inv)
  moreover have "belief_inv (new_belief_state alpha)"
    using assms by (simp add: belief_inv_def in_unit_def) (simp add: new_belief_state_def)
  ultimately have "belief_inv (fold (\<lambda>(t, m, r, x) bs. snd (belief_update t m r x bs)) obs (new_belief_state alpha))"
    by blast
  from get_beliefs_range [OF belief_update_inv [OF this, of t m r x]] show ?thesis
    by (simp add: belief_update_def Let_def split: option.split)
qed

theorem beliefs_bounded_witness:
  "\<exists>b. fst (belief_update 7 (-9) 1 (Some 3)
       (fold (\<lambda>(t, m, r, x) bs. snd (belief_update t m r x bs)) [(5, -5, 1 / 2, None)] (new_belief_state (1 / 10)))) = Inr b \<and>
     in_unit (be_trend b) \<and> in_unit (be_momentum b) \<and> in_unit (be_regime b) \<and> in_unit (be_edge b)"
  by (rule beliefs_bounded) (simp add: smoothing_ok_def new_belief_state_def dec_sub_def num_eval)

text \<open>
  The composite confidence is always a confidence: for any weights, indicators and direction string it
  is defined and lies in [0, 1], and it grows with the edge belief when the edge weight is not negative.
\<close>

theorem composite_confidence_range:
  assumes "0 \<le> cc_w_edge cc" "e \<le> e'"
  shows "\<exists>a b. composite_compute cc f dir e None = Inr a \<and> composite_compute cc f dir e' None = Inr b \<and>
     0 \<le> a \<and> a \<le> b \<and> b \<le> 1"
proof -
  let ?t = "\<lambda>e. dec_add (dec_add (dec_mul (cc_w_agreement cc) (indicator_agreement f dir)) (dec_mul (cc_w_edge cc) (historical_edge e None)))
                    (dec_mul (cc_w_quality cc) (signal_quality f dir))"
  have "historical_edge e None \<le> historical_edge e' None" "0 \<le> historical_edge e None"
    unfolding historical_edge_def option.case
    by (intro clamp_01_mono dec_div_mono_num dec_add_mono clamp_01_bounds; use assms(2) in simp)+
  then have "?t e \<le> ?t e'"
    using assms(1) by (intro dec_add_mono [OF dec_add_mono [OF order_refl dec_mul_mono] order_refl]) auto
  then have le: "clamp_01 (?t e) \<le> clamp_01 (?t e')" by (rule clamp_01_mono)
  have q: "\<exists>y. quantize 4 (clamp_01 v) = Inr y \<and> 0 \<le> y \<and> y \<le> 1" for v
    by (rule quantize_unit) (simp_all add: clamp_01_bounds)
  obtain a b where "quantize 4 (clamp_01 (?t e)) = Inr a" "0 \<le> a" "quantize 4 (clamp_01 (?t e')) = Inr b" "b \<le> 1"
    using q by metis
  then show ?thesis using quantize_mono [OF _ _ le] by (simp add: composite_compute_def Let_def)
qed

theorem composite_confidence_range_witness:
  "\<exists>a b. composite_compute default_composite [''rsi'' \<mapsto> 60] ''BUY'' 0 None = Inr a \<and>
     composite_compute default_composite [''rsi'' \<mapsto> 60] ''BUY'' 1 None = Inr b \<and> 0 \<le> a \<and> a \<le> b \<and> b \<le> 1"
  by (rule composite_confidence_range) (simp_all add: default_composite_def)

text \<open>
  The engine passes \<open>str(suggestion.direction)\<close>, which is \<open>'Direction.BUY'\<close> and not \<open>'BUY'\<close>: every BUY
  signal is scored as if it were a SELL. On a bullish dictionary that costs it all indicator votes.
\<close>

theorem engine_scores_buy_as_sell:
  "composite_compute cc f (direction_str BUY) e w = composite_compute cc f (direction_value SELL) e w \<and>
   indicator_agreement [''rsi'' \<mapsto> 60, ''macd_histogram'' \<mapsto> 1, ''stoch_k'' \<mapsto> 70] (direction_value BUY) = 1 \<and>
   indicator_agreement [''rsi'' \<mapsto> 60, ''macd_histogram'' \<mapsto> 1, ''stoch_k'' \<mapsto> 70] (direction_str BUY) = 0"
  by (simp add: composite_compute_def indicator_agreement_def signal_quality_def direction_str_def
      agreement_votes_def vote_def fget_def dec_div_def)

end
