(* ===== verification/Position_Sizing.thy ===== *)
theory Position_Sizing
  imports Market_Types
begin

text \<open>
  \<open>algo_engine/signals/position_sizer.py\<close> and \<open>algo_engine/signals/advanced_sizer.py\<close>: pip
  registries with their heuristics, the risk-per-trade sizer, the CVaR / Half-Kelly sizer and the
  Kelly estimate over the rolling trade history. The locale \<open>lot_sizer\<close> states what the engine
  needs of either sizer; both are interpreted on their definitions.
\<close>

section \<open>Pip registries\<close>

definition PIP_SIZES :: "string \<rightharpoonup> decimal" where
  "PIP_SIZES = map_of
     [(''EURUSD'', 1 / 10000), (''GBPUSD'', 1 / 10000), (''USDJPY'', 1 / 100), (''USDCHF'', 1 / 10000),
      (''AUDUSD'', 1 / 10000), (''NZDUSD'', 1 / 10000), (''USDCAD'', 1 / 10000), (''EURGBP'', 1 / 10000),
      (''EURJPY'', 1 / 100), (''GBPJPY'', 1 / 100), (''XAUUSD'', 1 / 100), (''XAGUSD'', 1 / 1000)]"

definition PIP_VALUES :: "string \<rightharpoonup> decimal" where
  "PIP_VALUES = map_of
     [(''EURUSD'', 10), (''GBPUSD'', 10), (''USDJPY'', 67 / 10), (''USDCHF'', 10), (''AUDUSD'', 10),
      (''NZDUSD'', 10), (''USDCAD'', 75 / 10), (''EURGBP'', 125 / 10), (''EURJPY'', 67 / 10),
      (''GBPJPY'', 67 / 10), (''XAUUSD'', 1), (''XAGUSD'', 50)]"

definition infer_pip_size :: "string \<Rightarrow> int option \<Rightarrow> decimal result" where
  "infer_pip_size symbol digits =
     (case digits of
        Some d \<Rightarrow> Inr (if d \<le> 3 then 1 / 100 else 1 / 10000)
      | None \<Rightarrow>
          (case PIP_SIZES symbol of
             Some p \<Rightarrow> Inr p
           | None \<Rightarrow>
               let s = str_upper symbol
               in if str_ends ''JPY'' s \<or> str_contains ''JPY'' s then Inr (1 / 100)
                  else if str_starts ''XAU'' s then Inr (1 / 100)
                  else if str_starts ''XAG'' s then Inr (1 / 1000)
                  else if list_ex (\<lambda>idx. str_contains idx s)
                            [''US30'', ''US500'', ''NAS'', ''DAX'', ''FTSE'', ''JP225''] then Inr 1
                  else if list_ex (\<lambda>c. str_contains c s) [''BTC'', ''ETH'', ''LTC'', ''XRP''] then Inr 1
                  else Inl ValueError))"

definition infer_pip_value :: "string \<Rightarrow> decimal result" where
  "infer_pip_value symbol =
     (case PIP_VALUES symbol of
        Some p \<Rightarrow> Inr p
      | None \<Rightarrow>
          let s = str_upper symbol
          in if str_ends ''JPY'' s \<or> str_contains ''JPY'' s then Inr (67 / 10)
             else if str_starts ''XAU'' s then Inr 1
             else if str_starts ''XAG'' s then Inr 50
             else if list_ex (\<lambda>idx. str_contains idx s) [''US30'', ''US500'', ''NAS'', ''DAX''] then Inr 1
             else if list_ex (\<lambda>c. str_contains c s) [''BTC'', ''ETH''] then Inr 1
             else Inl ValueError)"

text \<open>The two lookups inside the \<open>try\<close> block that both sizers open with.\<close>

definition infer_pips :: "string \<Rightarrow> (decimal \<times> decimal) result" where
  "infer_pips symbol =
     rbind (infer_pip_size symbol None) (\<lambda>psz. rbind (infer_pip_value symbol) (\<lambda>pv. Inr (psz, pv)))"

section \<open>PositionSizer\<close>

record sizer =
  ps_risk_pct :: decimal
  ps_default_equity :: decimal
  ps_min_lots :: decimal
  ps_max_lots :: decimal

definition default_sizer :: sizer where
  "default_sizer = \<lparr>ps_risk_pct = 1, ps_default_equity = 1000, ps_min_lots = 1 / 100, ps_max_lots = 10 / 100\<rparr>"

definition drawdown_scaling :: "decimal \<Rightarrow> decimal" where
  "drawdown_scaling drawdown_pct =
     (if drawdown_pct < 2 then 1 else if drawdown_pct < 4 then 5 / 10
      else if drawdown_pct < 5 then 25 / 100 else 0)"

definition raw_lots :: "sizer \<Rightarrow> decimal \<Rightarrow> decimal \<Rightarrow> decimal \<Rightarrow> decimal \<Rightarrow> decimal \<Rightarrow> decimal" where
  "raw_lots s pip_size pip_value sl_distance equity dd_factor =
     (let sl_pips = dec_div sl_distance pip_size;
          risk_amount = dec_div (dec_mul equity (ps_risk_pct s)) 100;
          risk_amount = dec_mul risk_amount dd_factor
      in dec_div risk_amount (dec_mul sl_pips pip_value))"

definition sizer_calculate ::
  "sizer \<Rightarrow> string \<Rightarrow> decimal \<Rightarrow> decimal \<Rightarrow> decimal option \<Rightarrow> decimal \<Rightarrow> decimal result" where
  "sizer_calculate s symbol entry_price stop_loss equity_arg drawdown_pct =
     (let equity = (case equity_arg of Some e \<Rightarrow> e | None \<Rightarrow> ps_default_equity s)
      in case infer_pips symbol of
           Inl _ \<Rightarrow> Inr (ps_min_lots s)
         | Inr (pip_size, pip_value) \<Rightarrow>
             let sl_distance = dec_abs (dec_sub entry_price stop_loss)
             in if sl_distance \<le> 0 \<or> pip_size \<le> 0 \<or> pip_value \<le> 0 then Inr (ps_min_lots s)
                else let dd_factor = drawdown_scaling drawdown_pct
                     in if dd_factor = 0 then Inr (ps_min_lots s)
                        else quantize 2 (clamp (ps_min_lots s) (ps_max_lots s)
                               (raw_lots s pip_size pip_value sl_distance equity dd_factor)))"

section \<open>DrawdownScaler\<close>

record drawdown_scaler =
  ds_tier1_dd :: decimal
  ds_tier1_scale :: decimal
  ds_tier2_dd :: decimal
  ds_tier2_scale :: decimal

definition drawdown_scale :: "drawdown_scaler \<Rightarrow> decimal \<Rightarrow> decimal" where
  "drawdown_scale d drawdown_pct =
     (if drawdown_pct < ds_tier1_dd d then 1
      else if drawdown_pct < ds_tier2_dd d then ds_tier1_scale d else ds_tier2_scale d)"

section \<open>AdvancedPositionSizer\<close>

record trade_record =
  tr_pnl :: decimal
  tr_direction :: string
  tr_symbol :: string

record adv_sizer =
  as_max_lots :: decimal
  as_min_lots :: decimal
  as_risk_pct :: decimal
  as_max_risk_pct :: decimal
  as_history_size :: nat
  as_use_kelly :: bool
  as_kelly_fraction :: decimal
  as_trades :: "trade_record list"

definition default_adv_sizer :: adv_sizer where
  "default_adv_sizer =
     \<lparr>as_max_lots = 10 / 100, as_min_lots = 1 / 100, as_risk_pct = 1, as_max_risk_pct = 2,
      as_history_size = 50, as_use_kelly = True, as_kelly_fraction = 5 / 10, as_trades = []\<rparr>"

definition record_trade :: "adv_sizer \<Rightarrow> trade_record \<Rightarrow> adv_sizer" where
  "record_trade a t = a\<lparr>as_trades := deque_append (as_history_size a) (as_trades a) t\<rparr>"

definition kelly_criterion :: "adv_sizer \<Rightarrow> decimal option" where
  "kelly_criterion a =
     (if length (as_trades a) < 10 then None
      else let wins = [tr_pnl t. t \<leftarrow> as_trades a, 0 < tr_pnl t];
               losses = [dec_abs (tr_pnl t). t \<leftarrow> as_trades a, tr_pnl t < 0];
               total = length wins + length losses
           in if total = 0 then None
              else if losses = [] then Some 1
              else if wins = [] then Some 0
              else let p = dec_div (of_nat (length wins)) (of_nat total);
                       q = dec_sub 1 p;
                       avg_win = dec_div (dec_sum wins) (of_nat (length wins));
                       avg_loss = dec_div (dec_sum losses) (of_nat (length losses))
                   in if avg_loss \<le> 0 then None
                      else let b = dec_div avg_win avg_loss;
                               kelly = dec_div (dec_sub (dec_mul p b) q) b
                           in if kelly \<le> 0 then Some 0 else Some kelly)"

definition adv_base_risk :: "adv_sizer \<Rightarrow> decimal \<Rightarrow> decimal \<Rightarrow> decimal" where
  "adv_base_risk a equity drawdown_pct =
     (let dd_scale = max (dec_sub 1 (dec_div drawdown_pct 10)) (3 / 10);
          base_risk = dec_mul (dec_div (dec_mul equity (as_risk_pct a)) 100) dd_scale;
          max_risk = dec_div (dec_mul equity (as_max_risk_pct a)) 100
      in if max_risk < base_risk then max_risk else base_risk)"

definition cvar_cap :: "decimal \<Rightarrow> decimal \<Rightarrow> decimal \<Rightarrow> decimal option \<Rightarrow> decimal \<Rightarrow> decimal" where
  "cvar_cap base_risk pip_size pip_value cvar lots =
     (case cvar of
        None \<Rightarrow> lots
      | Some c \<Rightarrow>
          if 0 < c \<and> 0 < dec_div c pip_size
          then let cvar_lots = dec_div base_risk (dec_mul (dec_div c pip_size) pip_value)
               in if cvar_lots < lots then cvar_lots else lots
          else lots)"

definition kelly_cap :: "adv_sizer \<Rightarrow> decimal \<Rightarrow> decimal \<Rightarrow> decimal \<Rightarrow> decimal" where
  "kelly_cap a equity pip_risk lots =
     (if as_use_kelly a
      then case kelly_criterion a of
             None \<Rightarrow> lots
           | Some f \<Rightarrow>
               if 0 < f
               then let kelly_lots = dec_div (dec_mul (dec_mul equity f) (as_kelly_fraction a)) pip_risk
                    in if kelly_lots < lots then kelly_lots else lots
               else lots
      else lots)"

definition adv_calculate ::
  "adv_sizer \<Rightarrow> string \<Rightarrow> decimal \<Rightarrow> decimal \<Rightarrow> decimal \<Rightarrow> decimal \<Rightarrow> decimal \<Rightarrow> decimal option \<Rightarrow> decimal result" where
  "adv_calculate a symbol entry_price stop_loss equity drawdown_pct confidence cvar =
     (case infer_pips symbol of
        Inl _ \<Rightarrow> Inr (as_min_lots a)
      | Inr (pip_size, pip_value) \<Rightarrow>
          let sl_distance = dec_abs (dec_sub entry_price stop_loss)
          in if sl_distance \<le> 0 \<or> pip_size \<le> 0 \<or> pip_value \<le> 0 then Inr (as_min_lots a)
             else let sl_pips = dec_div sl_distance pip_size;
                      base_risk = adv_base_risk a equity drawdown_pct;
                      pip_risk = dec_mul sl_pips pip_value;
                      lots = dec_div base_risk pip_risk;
                      lots = cvar_cap base_risk pip_size pip_value cvar lots;
                      lots = kelly_cap a equity pip_risk lots;
                      lots = dec_mul lots confidence
                  in quantize 2 (clamp (as_min_lots a) (as_max_lots a) lots))"

section \<open>What the engine needs of a sizer\<close>

locale lot_sizer =
  fixes lo hi :: decimal
    and size :: "'i \<Rightarrow> decimal result"
  assumes lo_hi: "0 < lo" "lo \<le> hi"
    and size_bounded: "\<exists>l. size i = Inr l \<and> lo \<le> l \<and> l \<le> hi"
begin

lemma size_total: "size i \<noteq> Inl e"
  using size_bounded [of i] by auto

lemma size_range: "size i = Inr l \<Longrightarrow> lo \<le> l \<and> l \<le> hi"
  using size_bounded [of i] by auto

lemma size_pos: "size i = Inr l \<Longrightarrow> 0 < l"
  using size_range lo_hi by fastforce

text \<open>Scaling a size by a factor of at most one never exceeds the cap.\<close>

lemma scaled_size_le:
  assumes "size i = Inr l" "0 \<le> f" "f \<le> 1" "dec_round hi = hi"
  shows "dec_mul l f \<le> hi"
proof -
  have "l * f \<le> hi * 1" using size_range [OF assms(1)] lo_hi assms by (intro mult_mono) auto
  then show ?thesis unfolding dec_mul_def using assms(4) by (intro dec.rnd_le) auto
qed

end

lemma quantize_clamp:
  assumes "lo \<le> hi" "on_grid n lo" "on_grid n hi" "- (10 ^ 28 - 1) \<le> lo * 10 ^ n" "hi * 10 ^ n \<le> 10 ^ 28 - 1"
  shows "\<exists>l. quantize n (clamp lo hi x) = Inr l \<and> lo \<le> l \<and> l \<le> hi"
proof -
  note b = clamp_bounds [OF assms(1), of x]
  have "lo * 10 ^ n \<le> clamp lo hi x * 10 ^ n" "clamp lo hi x * 10 ^ n \<le> hi * 10 ^ n"
    using b by (auto intro: mult_right_mono)
  then have "\<bar>clamp lo hi x * 10 ^ n\<bar> \<le> 10 ^ 28 - 1" using assms(4,5) by (intro abs_leI) linarith+
  then have "\<bar>clamp lo hi x\<bar> * 10 ^ n \<le> 10 ^ 28 - 1" by (simp add: abs_mult)
  then obtain l where l: "quantize n (clamp lo hi x) = Inr l" using quantize_defined by blast
  then show ?thesis using quantize_ge [OF l assms(2)] quantize_le [OF l assms(3)] b by auto
qed

text \<open>Lot limits that a configuration may use: whole cents of a lot, positive, ordered.\<close>

definition lot_limits :: "decimal \<Rightarrow> decimal \<Rightarrow> bool" where
  "lot_limits lo hi \<longleftrightarrow> 0 < lo \<and> lo \<le> hi \<and> on_grid 2 lo \<and> on_grid 2 hi \<and> hi \<le> 1000000"

lemma lot_limits_default [simp]: "lot_limits (1 / 100) (1 / 10)"
  by (auto simp: lot_limits_def on_grid_def intro: exI [of _ 1] exI [of _ 10])

lemma quantize_lots:
  assumes "lot_limits lo hi"
  shows "\<exists>l. quantize 2 (clamp lo hi x) = Inr l \<and> lo \<le> l \<and> l \<le> hi"
  using assms by (intro quantize_clamp) (auto simp: lot_limits_def)

lemma sizer_calculate_bounded:
  assumes "lot_limits (ps_min_lots s) (ps_max_lots s)"
  shows "\<exists>l. sizer_calculate s symb e sl eq dd = Inr l \<and> ps_min_lots s \<le> l \<and> l \<le> ps_max_lots s"
  using quantize_lots [OF assms] assms
  by (auto simp: sizer_calculate_def Let_def lot_limits_def split: sum.splits prod.splits)

lemma adv_calculate_bounded:
  assumes "lot_limits (as_min_lots a) (as_max_lots a)"
  shows "\<exists>l. adv_calculate a symb e sl eq dd conf cvar = Inr l \<and> as_min_lots a \<le> l \<and> l \<le> as_max_lots a"
  using quantize_lots [OF assms] assms
  by (auto simp: adv_calculate_def Let_def lot_limits_def split: sum.splits prod.splits)

interpretation basic_sizer: lot_sizer "1 / 100" "10 / 100"
  "\<lambda>(symb, e, sl, eq, dd). sizer_calculate default_sizer symb e sl eq dd"
  using sizer_calculate_bounded [of default_sizer]
  by unfold_locales (auto simp: default_sizer_def)

interpretation cvar_sizer: lot_sizer "1 / 100" "10 / 100"
  "\<lambda>(trades, symb, e, sl, eq, dd, conf, cvar).
     adv_calculate (default_adv_sizer\<lparr>as_trades := trades\<rparr>) symb e sl eq dd conf cvar"
proof unfold_locales
  fix i :: "trade_record list \<times> string \<times> decimal \<times> decimal \<times> decimal \<times> decimal \<times> decimal \<times> decimal option"
  show "\<exists>l. (case i of (trades, symb, e, sl, eq, dd, conf, cvar) \<Rightarrow>
      adv_calculate (default_adv_sizer\<lparr>as_trades := trades\<rparr>) symb e sl eq dd conf cvar) = Inr l \<and>
      1 / 100 \<le> l \<and> l \<le> 10 / 100"
    using adv_calculate_bounded [of "default_adv_sizer\<lparr>as_trades := fst i\<rparr>"]
    by (auto simp: default_adv_sizer_def split: prod.split)
qed auto

section \<open>Risk budget and monotonicity of the basic sizer\<close>

lemma infer_pips_pos: "infer_pips symbol = Inr (psz, pv) \<Longrightarrow> 0 < psz \<and> 0 < pv"
  by (auto simp: infer_pips_def infer_pip_size_def infer_pip_value_def PIP_SIZES_def PIP_VALUES_def Let_def
      split: if_splits option.splits)

lemma drawdown_scaling_antimono: "dd \<le> dd' \<Longrightarrow> drawdown_scaling dd' \<le> drawdown_scaling dd"
  by (auto simp: drawdown_scaling_def)

lemma drawdown_scaling_range: "0 \<le> drawdown_scaling dd" "drawdown_scaling dd \<le> 1"
  by (auto simp: drawdown_scaling_def)

lemma raw_lots_mono:
  assumes "0 < psz" "0 < pv" "0 < d" "d \<le> d'" "0 \<le> eq" "eq \<le> eq'" "0 \<le> f" "f \<le> f'" "0 \<le> ps_risk_pct s"
  shows "raw_lots s psz pv d' eq f \<le> raw_lots s psz pv d eq' f'"
proof -
  have pips: "0 < dec_div d psz" using assms by (simp add: dec_div_pos_iff)
  have "dec_div d psz \<le> dec_div d' psz" using assms by (intro dec_div_mono) auto
  then have "dec_mul (dec_div d psz) pv \<le> dec_mul (dec_div d' psz) pv"
    using pips assms by (intro dec_mul_mono) auto
  moreover have "0 < dec_mul (dec_div d psz) pv" using pips assms by (simp add: dec_mul_pos_iff)
  moreover have "dec_mul (dec_div (dec_mul eq (ps_risk_pct s)) 100) f
      \<le> dec_mul (dec_div (dec_mul eq' (ps_risk_pct s)) 100) f'"
    using assms by (intro dec_mul_mono dec_div_mono dec_div_nonneg dec_mul_nonneg) auto
  moreover have "0 \<le> dec_mul (dec_div (dec_mul eq (ps_risk_pct s)) 100) f"
    using assms by (intro dec_mul_nonneg dec_div_nonneg) auto
  ultimately show ?thesis unfolding raw_lots_def Let_def by (intro dec_div_mono) auto
qed

lemma sizer_calculate_known:
  assumes "infer_pips symb = Inr (psz, pv)" "e \<noteq> sl"
  shows "sizer_calculate s symb e sl (Some eq) dd =
     (if drawdown_scaling dd = 0 then Inr (ps_min_lots s)
      else quantize 2 (clamp (ps_min_lots s) (ps_max_lots s)
             (raw_lots s psz pv (dec_abs (dec_sub e sl)) eq (drawdown_scaling dd))))"
proof -
  have "dec_abs (dec_sub e sl) > 0"
    using assms(2) by (simp add: dec_abs_def dec.rnd_pos_iff dec_sub_eq_0)
  then show ?thesis using infer_pips_pos [OF assms(1)] assms(1)
    by (auto simp: sizer_calculate_def Let_def)
qed

text \<open>
  More equity, a closer stop or a shallower drawdown never shrink the position: the function is
  monotone through every rounding and the clamp.
\<close>

lemma sizer_calculate_mono:
  assumes lim: "lot_limits (ps_min_lots s) (ps_max_lots s)" and risk: "0 \<le> ps_risk_pct s"
    and eq: "0 \<le> eq" "eq \<le> eq'" and dd: "dd' \<le> dd"
    and dist: "dec_abs (dec_sub e' sl') \<le> dec_abs (dec_sub e sl)" and ne: "e' \<noteq> sl'" "e \<noteq> sl"
    and a: "sizer_calculate s symb e sl (Some eq) dd = Inr a"
    and b: "sizer_calculate s symb e' sl' (Some eq') dd' = Inr b"
  shows "a \<le> b"
proof (cases "infer_pips symb")
  case (Inl x)
  then show ?thesis using a b by (simp add: sizer_calculate_def)
next
  case (Inr p)
  obtain psz pv where p: "infer_pips symb = Inr (psz, pv)" using Inr by (cases p) auto
  note A = sizer_calculate_known [OF p ne(2), of s eq dd]
  note B = sizer_calculate_known [OF p ne(1), of s eq' dd']
  show ?thesis
  proof (cases "drawdown_scaling dd = 0")
    case True
    then show ?thesis
      using a A b sizer_calculate_bounded [OF lim, of symb e' sl' "Some eq'" dd'] by auto
  next
    case False
    have f: "drawdown_scaling dd \<le> drawdown_scaling dd'" using dd by (rule drawdown_scaling_antimono)
    have f0: "0 \<le> drawdown_scaling dd" by (rule drawdown_scaling_range)
    have pos: "0 < dec_abs (dec_sub e' sl')"
      using ne(1) by (simp add: dec_abs_def dec.rnd_pos_iff dec_sub_eq_0)
    have "raw_lots s psz pv (dec_abs (dec_sub e sl)) eq (drawdown_scaling dd)
        \<le> raw_lots s psz pv (dec_abs (dec_sub e' sl')) eq' (drawdown_scaling dd')"
      using infer_pips_pos [OF p] pos dist eq f f0 risk by (intro raw_lots_mono) auto
    then have "clamp (ps_min_lots s) (ps_max_lots s) (raw_lots s psz pv (dec_abs (dec_sub e sl)) eq (drawdown_scaling dd))
       \<le> clamp (ps_min_lots s) (ps_max_lots s) (raw_lots s psz pv (dec_abs (dec_sub e' sl')) eq' (drawdown_scaling dd'))"
      using lim by (intro clamp_mono) (auto simp: lot_limits_def)
    then show ?thesis using a A b B False f f0 quantize_mono by fastforce
  qed
qed

text \<open>
  Above the minimum the size is the risk budget divided by the stop's cost, up to half a cent
  of a lot of rounding.
\<close>

lemma sizer_calculate_budget:
  assumes p: "infer_pips symb = Inr (psz, pv)" and ne: "e \<noteq> sl"
    and lim: "lot_limits (ps_min_lots s) (ps_max_lots s)"
    and l: "sizer_calculate s symb e sl (Some eq) dd = Inr l" and above: "ps_min_lots s < l"
  shows "l \<le> raw_lots s psz pv (dec_abs (dec_sub e sl)) eq (drawdown_scaling dd) + 1 / 200"
proof -
  let ?r = "raw_lots s psz pv (dec_abs (dec_sub e sl)) eq (drawdown_scaling dd)"
  let ?c = "clamp (ps_min_lots s) (ps_max_lots s) ?r"
  have q: "quantize 2 ?c = Inr l"
    using sizer_calculate_known [OF p ne, of s eq dd] l above by (auto split: if_splits)
  have gt: "ps_min_lots s < ?c"
  proof (rule ccontr)
    assume "\<not> ?thesis"
    then show False using quantize_le [OF q, of "ps_min_lots s"] lim above by (auto simp: lot_limits_def)
  qed
  then have "?c \<le> ?r" by (auto simp: clamp_def split: if_splits)
  moreover have "l - ?c \<le> 1 / 200" using quantize_error [OF q] abs_ge_self [of "l - ?c"] by simp
  ultimately show ?thesis by linarith
qed

section \<open>Caps of the advanced sizer\<close>

lemma cvar_cap_le: "cvar_cap base psz pv cvar lots \<le> lots"
  by (auto simp: cvar_cap_def Let_def split: option.split)

lemma kelly_cap_le: "kelly_cap a equity pip_risk lots \<le> lots"
  by (auto simp: kelly_cap_def Let_def split: option.split)

text \<open>The Kelly cap is inactive exactly when the history shows no positive edge.\<close>

lemma kelly_cap_no_edge:
  "(\<And>f. kelly_criterion a = Some f \<Longrightarrow> f \<le> 0) \<Longrightarrow> kelly_cap a equity pip_risk lots = lots"
  by (auto simp: kelly_cap_def Let_def split: option.split)

lemma kelly_nonneg: "kelly_criterion a = Some f \<Longrightarrow> 0 \<le> f"
  by (auto simp: kelly_criterion_def Let_def split: if_splits)

lemma kelly_few_trades: "length (as_trades a) < 10 \<Longrightarrow> kelly_criterion a = None"
  by (simp add: kelly_criterion_def)

lemma record_trade_bound: "length (as_trades a) \<le> as_history_size a \<Longrightarrow>
    length (as_trades (record_trade a t)) \<le> as_history_size (record_trade a t)"
  by (simp add: record_trade_def)

lemma kelly_cap_mono: "lots \<le> lots' \<Longrightarrow> kelly_cap a equity pip_risk lots \<le> kelly_cap a equity pip_risk lots'"
  by (auto simp: kelly_cap_def Let_def split: option.split)

lemma adv_calculate_known:
  assumes "infer_pips symb = Inr (psz, pv)" "e \<noteq> sl"
  shows "adv_calculate a symb e sl eq dd conf cvar =
    (let base = adv_base_risk a eq dd; pr = dec_mul (dec_div (dec_abs (dec_sub e sl)) psz) pv
     in quantize 2 (clamp (as_min_lots a) (as_max_lots a)
          (dec_mul (kelly_cap a eq pr (cvar_cap base psz pv cvar (dec_div base pr))) conf)))"
proof -
  have "dec_abs (dec_sub e sl) > 0"
    using assms(2) by (simp add: dec_abs_def dec.rnd_pos_iff dec_sub_eq_0)
  then show ?thesis using infer_pips_pos [OF assms(1)] assms(1)
    by (auto simp: adv_calculate_def Let_def)
qed

lemma adv_calculate_caps:
  assumes lim: "lot_limits (as_min_lots a) (as_max_lots a)" and conf: "0 \<le> conf"
    and x: "adv_calculate a symb e sl eq dd conf cvar = Inr x"
    and y: "adv_calculate (a\<lparr>as_use_kelly := False\<rparr>) symb e sl eq dd conf None = Inr y"
  shows "x \<le> y"
proof (cases "(\<exists>psz pv. infer_pips symb = Inr (psz, pv)) \<and> e \<noteq> sl")
  case True
  then obtain psz pv where p: "infer_pips symb = Inr (psz, pv)" and ne: "e \<noteq> sl" by auto
  let ?b = "adv_base_risk a eq dd" and ?pr = "dec_mul (dec_div (dec_abs (dec_sub e sl)) psz) pv"
  let ?l = "dec_div ?b ?pr"
  have base: "adv_base_risk (a\<lparr>as_use_kelly := False\<rparr>) eq dd = ?b" by (simp add: adv_base_risk_def)
  have "kelly_cap a eq ?pr (cvar_cap ?b psz pv cvar ?l) \<le> ?l"
    using kelly_cap_le cvar_cap_le order_trans by blast
  then have "dec_mul (kelly_cap a eq ?pr (cvar_cap ?b psz pv cvar ?l)) conf \<le> dec_mul ?l conf"
    unfolding dec_mul_def using conf by (intro dec.rnd_mono mult_right_mono)
  then have "clamp (as_min_lots a) (as_max_lots a) (dec_mul (kelly_cap a eq ?pr (cvar_cap ?b psz pv cvar ?l)) conf)
      \<le> clamp (as_min_lots a) (as_max_lots a) (dec_mul ?l conf)"
    using lim by (intro clamp_mono) (simp_all add: lot_limits_def)
  then show ?thesis
    using x y quantize_mono unfolding adv_calculate_known [OF p ne] Let_def base
    by (simp add: cvar_cap_def kelly_cap_def [of "a\<lparr>as_use_kelly := False\<rparr>"])
next
  case False
  then have "x = as_min_lots a" "y = as_min_lots a"
    using x y by (auto simp: adv_calculate_def dec_abs_def dec_sub_def split: sum.splits)
  then show ?thesis by simp
qed

section \<open>Properties\<close>

text \<open>
  The basic sizer is total and safe: for every symbol (known or not), prices, equity and
  drawdown it returns a size between the configured minimum and maximum lots.
\<close>

theorem sizer_total_and_bounded:
  assumes "lot_limits (ps_min_lots s) (ps_max_lots s)"
  shows "\<exists>l. sizer_calculate s symbol e sl eqty dd = Inr l \<and> ps_min_lots s \<le> l \<and> l \<le> ps_max_lots s"
  using sizer_calculate_bounded [OF assms] .

theorem sizer_total_and_bounded_witness:
  "\<exists>l. sizer_calculate default_sizer ''UNKNOWN'' 1 2 None 9 = Inr l \<and> 1 / 100 \<le> l \<and> l \<le> 10 / 100"
  using sizer_total_and_bounded [of default_sizer "''UNKNOWN''" 1 2 None 9] by (simp add: default_sizer_def)

text \<open>
  The basic sizer is monotone: more equity, a stop that is not farther away and a drawdown
  that is not deeper never give fewer lots, through every rounding, tier and clamp.
\<close>

theorem sizer_monotone:
  assumes "lot_limits (ps_min_lots s) (ps_max_lots s)" "0 \<le> ps_risk_pct s"
    and "0 \<le> eqty" "eqty \<le> eqty'" "dd' \<le> dd"
    and "dec_abs (dec_sub e' sl') \<le> dec_abs (dec_sub e sl)" "e' \<noteq> sl'" "e \<noteq> sl"
  shows "\<exists>a b. sizer_calculate s symbol e sl (Some eqty) dd = Inr a \<and>
     sizer_calculate s symbol e' sl' (Some eqty') dd' = Inr b \<and> a \<le> b"
  using sizer_calculate_bounded [OF assms(1), of symbol e sl "Some eqty" dd]
    sizer_calculate_bounded [OF assms(1), of symbol e' sl' "Some eqty'" dd']
    sizer_calculate_mono [OF assms, of symbol] by blast

theorem sizer_monotone_witness:
  "\<exists>a b. sizer_calculate default_sizer ''EURUSD'' (11 / 10) (109 / 100) (Some 1000) 3 = Inr a \<and>
     sizer_calculate default_sizer ''EURUSD'' (11 / 10) (1095 / 1000) (Some 2000) 1 = Inr b \<and> a \<le> b"
  using sizer_monotone [of default_sizer 1000 2000 1 3 "11 / 10" "1095 / 1000" "11 / 10" "109 / 100" "''EURUSD''"]
  by (simp add: default_sizer_def dec_ops num_eval)



text \<open>
  The CVaR and Half-Kelly caps of the advanced sizer only ever reduce: for every history the
  result stays in the lot limits and never exceeds what the same sizer gives without Kelly and
  without a CVaR estimate.
\<close>

theorem adv_caps_only_reduce:
  assumes "lot_limits (as_min_lots a) (as_max_lots a)" "0 \<le> conf"
  shows "\<exists>x y. adv_calculate a symbol e sl eqty dd conf cvar = Inr x \<and>
     adv_calculate (a\<lparr>as_use_kelly := False\<rparr>) symbol e sl eqty dd conf None = Inr y \<and>
     as_min_lots a \<le> x \<and> x \<le> y \<and> y \<le> as_max_lots a"
  using adv_calculate_bounded [OF assms(1), of symbol e sl eqty dd conf cvar]
    adv_calculate_bounded [of "a\<lparr>as_use_kelly := False\<rparr>" symbol e sl eqty dd conf None]
    adv_calculate_caps [OF assms, of symbol e sl eqty dd cvar] assms(1)
  by auto

theorem adv_caps_only_reduce_witness:
  "\<exists>x y. adv_calculate default_adv_sizer ''EURUSD'' (11 / 10) (109 / 100) 1000 0 1 (Some (2 / 100)) = Inr x \<and>
     adv_calculate (default_adv_sizer\<lparr>as_use_kelly := False\<rparr>) ''EURUSD'' (11 / 10) (109 / 100) 1000 0 1 None = Inr y \<and>
     1 / 100 \<le> x \<and> x \<le> y \<and> y \<le> 10 / 100"
  using adv_caps_only_reduce [of default_adv_sizer 1 "''EURUSD''" "11 / 10" "109 / 100" 1000 0 "Some (2 / 100)"]
  by (simp add: default_adv_sizer_def)

text \<open>
  The Kelly cap is skipped when the estimate is zero, that is when the recorded trades show no
  edge at all: such a history sizes as if Kelly were switched off. The witness compares ten
  straight losses (0.10 lots) with a profitable history of thin edge (0.08 lots).
\<close>

theorem kelly_no_edge_is_uncapped:
  assumes "kelly_criterion a = Some 0"
  shows "adv_calculate a symbol e sl eqty dd conf cvar =
         adv_calculate (a\<lparr>as_use_kelly := False\<rparr>) symbol e sl eqty dd conf cvar"
proof -
  have "kelly_cap a eq pr l = l" "kelly_cap (a\<lparr>as_use_kelly := False\<rparr>) eq pr l = l" for eq pr l
    using kelly_cap_no_edge [of a eq pr l] assms by (simp_all add: kelly_cap_def)
  then show ?thesis by (simp add: adv_calculate_def adv_base_risk_def Let_def split: sum.split)
qed

definition sample_trade :: "decimal \<Rightarrow> trade_record" where
  "sample_trade pnl = \<lparr>tr_pnl = pnl, tr_direction = ''BUY'', tr_symbol = ''EURUSD''\<rparr>"

definition losing_history :: adv_sizer where
  "losing_history = default_adv_sizer\<lparr>as_trades := map sample_trade [-1, -1, -1, -1, -1, -1, -1, -1, -1, -1]\<rparr>"

definition thin_edge_history :: adv_sizer where
  "thin_edge_history =
     default_adv_sizer\<lparr>as_trades := map sample_trade [25, 25, 25, 25, -16, -16, -16, -16, -16, -16]\<rparr>"

theorem kelly_no_edge_is_uncapped_witness:
  "adv_calculate losing_history ''EURUSD'' (11 / 10) (109 / 100) 10000 0 1 None =
     adv_calculate (losing_history\<lparr>as_use_kelly := False\<rparr>) ''EURUSD'' (11 / 10) (109 / 100) 10000 0 1 None \<and>
   adv_calculate losing_history ''EURUSD'' (11 / 10) (109 / 100) 10000 0 1 None = Inr (10 / 100) \<and>
   adv_calculate thin_edge_history ''EURUSD'' (11 / 10) (109 / 100) 10000 0 1 None = Inr (8 / 100)"
proof -
  have p: "infer_pips ''EURUSD'' = Inr (1 / 10000, 10)"
    by (simp add: infer_pips_def infer_pip_size_def infer_pip_value_def PIP_SIZES_def PIP_VALUES_def)
  have k: "kelly_criterion losing_history = Some 0"
    by (simp add: kelly_criterion_def losing_history_def default_adv_sizer_def sample_trade_def)
  have t: "kelly_criterion thin_edge_history = Some (16 / 1000)"
    by (simp add: kelly_criterion_def thin_edge_history_def default_adv_sizer_def sample_trade_def
        dec_sum_def dec_ops num_eval Let_def)
  have kc: "kelly_cap losing_history eq pr l = l" for eq pr l
    by (rule kelly_cap_no_edge) (simp add: k)
  have tc: "kelly_cap thin_edge_history eq pr l =
      (let kl = dec_div (dec_mul (dec_mul eq (16 / 1000)) (5 / 10)) pr in if kl < l then kl else l)" for eq pr l
    unfolding kelly_cap_def t by (simp add: thin_edge_history_def default_adv_sizer_def)
  have "adv_calculate losing_history ''EURUSD'' (11 / 10) (109 / 100) 10000 0 1 None = Inr (10 / 100)"
    by (simp add: adv_calculate_known [OF p] kc)
      (simp add: cvar_cap_def adv_base_risk_def losing_history_def default_adv_sizer_def clamp_def
        quantize_def dec_ops num_eval Let_def)
  moreover have "adv_calculate thin_edge_history ''EURUSD'' (11 / 10) (109 / 100) 10000 0 1 None = Inr (8 / 100)"
    by (simp add: adv_calculate_known [OF p] tc)
      (simp add: cvar_cap_def adv_base_risk_def thin_edge_history_def default_adv_sizer_def clamp_def
        quantize_def dec_ops num_eval Let_def)
  ultimately show ?thesis using kelly_no_edge_is_uncapped [OF k] by simp
qed

end
