(* ===== verification/Signal_Guards.thy ===== *)
theory Signal_Guards
  imports Market_Types
begin

text \<open>
  \<open>algo_engine/signals/spiral_protection.py\<close> (class \<open>SpiralProtection\<close>) and
  \<open>algo_engine/signals/rate_limiter.py\<close>. Clock readings (\<open>time.monotonic\<close>, \<open>time.time\<close>) are
  arguments; differences of readings are float subtractions and rounded as such. The spiral
  guard is also given as a step relation over trade results, queries and manual resets, whose
  reachable states satisfy the cooldown invariant.
\<close>

section \<open>SpiralProtection\<close>

record spiral =
  sp_threshold :: nat
  sp_max_losses :: nat
  sp_cooldown_seconds :: int
  sp_reduction_factor :: decimal
  sp_consecutive_losses :: nat
  sp_cooldown_start :: "rat option"

definition new_spiral :: "nat \<Rightarrow> nat \<Rightarrow> int \<Rightarrow> decimal \<Rightarrow> nat option \<Rightarrow> spiral" where
  "new_spiral loss_threshold max_loss cooldown_minutes factor max_alias =
     \<lparr>sp_threshold = (case max_alias of Some m \<Rightarrow> m | None \<Rightarrow> loss_threshold),
      sp_max_losses = (case max_alias of Some m \<Rightarrow> m | None \<Rightarrow> max_loss),
      sp_cooldown_seconds = cooldown_minutes * 60, sp_reduction_factor = factor,
      sp_consecutive_losses = 0, sp_cooldown_start = None\<rparr>"

definition default_spiral :: spiral where
  "default_spiral = new_spiral 3 5 60 (5 / 10) None"

definition record_trade_result :: "rat \<Rightarrow> bool \<Rightarrow> spiral \<Rightarrow> spiral" where
  "record_trade_result now is_win s =
     (if is_win then s\<lparr>sp_consecutive_losses := 0, sp_cooldown_start := None\<rparr>
      else let s = s\<lparr>sp_consecutive_losses := sp_consecutive_losses s + 1\<rparr>
           in if sp_max_losses s \<le> sp_consecutive_losses s then s\<lparr>sp_cooldown_start := Some now\<rparr> else s)"

definition record_loss :: "rat \<Rightarrow> spiral \<Rightarrow> spiral" where
  "record_loss now s = record_trade_result now False s"

definition record_win :: "rat \<Rightarrow> spiral \<Rightarrow> spiral" where
  "record_win now s = record_trade_result now True s"

definition is_in_cooldown :: "rat \<Rightarrow> spiral \<Rightarrow> bool \<times> spiral" where
  "is_in_cooldown now s =
     (case sp_cooldown_start s of
        None \<Rightarrow> (False, s)
      | Some start \<Rightarrow>
          let elapsed = flt_round (now - start)
          in if of_int (sp_cooldown_seconds s) \<le> elapsed
             then (False, s\<lparr>sp_cooldown_start := None, sp_consecutive_losses := 0\<rparr>)
             else (True, s))"

fun reduce_steps :: "decimal \<Rightarrow> nat \<Rightarrow> decimal \<Rightarrow> decimal" where
  "reduce_steps factor 0 multiplier = multiplier"
| "reduce_steps factor (Suc n) multiplier = reduce_steps factor n (dec_mul multiplier factor)"

definition get_sizing_multiplier :: "rat \<Rightarrow> spiral \<Rightarrow> decimal result \<times> spiral" where
  "get_sizing_multiplier now s =
     (case is_in_cooldown now s of
        (True, s) \<Rightarrow> (Inr 0, s)
      | (False, s) \<Rightarrow>
          (if sp_consecutive_losses s < sp_threshold s then (Inr 1, s)
           else let steps_over = sp_consecutive_losses s - sp_threshold s;
                    multiplier = reduce_steps (sp_reduction_factor s) steps_over (sp_reduction_factor s)
                in if multiplier < 1 / 100 then (Inr 0, s) else (quantize 2 multiplier, s)))"

definition spiral_reset :: "spiral \<Rightarrow> spiral" where
  "spiral_reset s = s\<lparr>sp_consecutive_losses := 0, sp_cooldown_start := None\<rparr>"

text \<open>
  The JSON object written by \<open>_persist_to_redis\<close> (streak and wall-clock deadline) and what
  \<open>sync_from_redis\<close> makes of it; a missing key or a failed read leaves the object as it is.
\<close>

definition spiral_persist :: "rat \<Rightarrow> rat \<Rightarrow> spiral \<Rightarrow> nat \<times> rat option" where
  "spiral_persist mclock wall s =
     (sp_consecutive_losses s,
      case sp_cooldown_start s of
        None \<Rightarrow> None
      | Some start \<Rightarrow>
          let elapsed = flt_round (mclock - start);
              remaining = flt_round (of_int (sp_cooldown_seconds s) - elapsed)
          in if 0 < remaining then Some (flt_round (wall + remaining)) else None)"

definition spiral_sync :: "rat \<Rightarrow> rat \<Rightarrow> (nat \<times> rat option) option \<Rightarrow> spiral \<Rightarrow> spiral" where
  "spiral_sync mclock wall data s =
     (case data of
        None \<Rightarrow> s
      | Some (losses, cooldown_until) \<Rightarrow>
          let s = s\<lparr>sp_consecutive_losses := losses\<rparr>
          in case cooldown_until of
               None \<Rightarrow> s
             | Some until \<Rightarrow>
                 let remaining = flt_round (until - wall)
                 in if 0 < remaining
                    then s\<lparr>sp_cooldown_start :=
                            Some (flt_round (mclock - flt_round (of_int (sp_cooldown_seconds s) - remaining)))\<rparr>
                    else s\<lparr>sp_cooldown_start := None, sp_consecutive_losses := 0\<rparr>)"

section \<open>SignalRateLimiter\<close>

record rate_limiter =
  rl_max :: int
  rl_timestamps :: "rat list"

definition RL_WINDOW :: rat where
  "RL_WINDOW = 3600"

definition new_rate_limiter :: "int \<Rightarrow> rate_limiter" where
  "new_rate_limiter m = \<lparr>rl_max = m, rl_timestamps = []\<rparr>"

definition rl_cleanup :: "rat \<Rightarrow> rate_limiter \<Rightarrow> rate_limiter" where
  "rl_cleanup now r =
     (let cutoff = flt_round (now - RL_WINDOW)
      in r\<lparr>rl_timestamps := dropWhile (\<lambda>t. t < cutoff) (rl_timestamps r)\<rparr>)"

definition rl_allow :: "rat \<Rightarrow> rate_limiter \<Rightarrow> bool \<times> rate_limiter" where
  "rl_allow now r = (let r = rl_cleanup now r in (int (length (rl_timestamps r)) < rl_max r, r))"

definition rl_record :: "rat \<Rightarrow> rate_limiter \<Rightarrow> rate_limiter" where
  "rl_record now r = r\<lparr>rl_timestamps := rl_timestamps r @ [now]\<rparr>"

definition rl_current_count :: "rat \<Rightarrow> rate_limiter \<Rightarrow> nat \<times> rate_limiter" where
  "rl_current_count now r = (let r = rl_cleanup now r in (length (rl_timestamps r), r))"

definition rl_remaining :: "rat \<Rightarrow> rate_limiter \<Rightarrow> int \<times> rate_limiter" where
  "rl_remaining now r = (case rl_current_count now r of (n, r) \<Rightarrow> (max 0 (rl_max r - int n), r))"

section \<open>Lemmas: sizing multiplier\<close>

lemma reduce_steps_range:
  assumes "0 \<le> f" "f \<le> 1" "0 \<le> m" "dec_round m = m"
  shows "0 \<le> reduce_steps f n m \<and> reduce_steps f n m \<le> m"
  using assms(3,4)
proof (induction n arbitrary: m)
  case 0
  then show ?case by simp
next
  case (Suc n)
  have "0 \<le> dec_mul m f" using Suc.prems assms by (simp add: dec_mul_nonneg)
  moreover have "dec_mul m f \<le> m"
    unfolding dec_mul_def using Suc.prems assms mult_left_mono [of f 1 m] by (intro dec.rnd_le) auto
  moreover have "dec_round (dec_mul m f) = dec_mul m f" by (simp add: dec_mul_def dec.rnd_idem)
  ultimately show ?case using Suc.IH [of "dec_mul m f"] by auto
qed

lemma reduce_steps_add: "reduce_steps f (n + k) m = reduce_steps f k (reduce_steps f n m)"
  by (induction n arbitrary: m) auto

lemma reduce_steps_rep: "dec_round m = m \<Longrightarrow> dec_round (reduce_steps f n m) = reduce_steps f n m"
  by (induction n arbitrary: m) (auto simp: dec_mul_def dec.rnd_idem)

lemma reduce_steps_antimono:
  assumes "0 \<le> f" "f \<le> 1" "0 \<le> m" "dec_round m = m" "n \<le> n'"
  shows "reduce_steps f n' m \<le> reduce_steps f n m"
  using reduce_steps_range [OF assms(1,2), of "reduce_steps f n m" "n' - n"]
    reduce_steps_range [OF assms(1-4), of n] reduce_steps_rep [OF assms(4), of f n]
    reduce_steps_add [of f n "n' - n" m] assms(5) by auto

text \<open>The multiplier as a function of the streak alone, outside a cooldown.\<close>

definition streak_multiplier :: "spiral \<Rightarrow> nat \<Rightarrow> decimal result" where
  "streak_multiplier s n =
     (if n < sp_threshold s then Inr 1
      else let m = reduce_steps (sp_reduction_factor s) (n - sp_threshold s) (sp_reduction_factor s)
           in if m < 1 / 100 then Inr 0 else quantize 2 m)"

lemma get_sizing_multiplier_streak:
  assumes "is_in_cooldown now s = (False, s')"
  shows "get_sizing_multiplier now s = (streak_multiplier s' (sp_consecutive_losses s'), s')"
  using assms by (auto simp: get_sizing_multiplier_def streak_multiplier_def Let_def)

lemma is_in_cooldown_frame:
  "is_in_cooldown now s = (b, s') \<Longrightarrow>
     sp_threshold s' = sp_threshold s \<and> sp_reduction_factor s' = sp_reduction_factor s \<and>
     sp_max_losses s' = sp_max_losses s \<and> sp_cooldown_seconds s' = sp_cooldown_seconds s"
  by (auto simp: is_in_cooldown_def Let_def split: option.splits if_splits)

lemma streak_multiplier_range:
  assumes "0 \<le> sp_reduction_factor s" "sp_reduction_factor s \<le> 1"
    "dec_round (sp_reduction_factor s) = sp_reduction_factor s"
  shows "\<exists>m. streak_multiplier s n = Inr m \<and> 0 \<le> m \<and> m \<le> 1"
proof (cases "n < sp_threshold s")
  case True
  then show ?thesis by (simp add: streak_multiplier_def)
next
  case False
  let ?m = "reduce_steps (sp_reduction_factor s) (n - sp_threshold s) (sp_reduction_factor s)"
  have r: "0 \<le> ?m" "?m \<le> 1" using reduce_steps_range [OF assms(1,2,1,3), of "n - sp_threshold s"] assms(2) by auto
  have "\<bar>?m\<bar> * 10 ^ 2 \<le> 10 ^ 28 - 1" using r by simp
  then obtain q where q: "quantize 2 ?m = Inr q" using quantize_defined by blast
  have "on_grid 2 0" "on_grid 2 1" by (auto intro: on_gridI [of _ _ 0] on_gridI [of _ _ 100])
  then have "0 \<le> q" "q \<le> 1" using quantize_ge [OF q] quantize_le [OF q] r by auto
  then show ?thesis using False q by (simp add: streak_multiplier_def Let_def)
qed

lemma streak_multiplier_antimono:
  assumes f: "0 \<le> sp_reduction_factor s" "sp_reduction_factor s \<le> 1"
    "dec_round (sp_reduction_factor s) = sp_reduction_factor s"
    and n: "n \<le> n'" and a: "streak_multiplier s n = Inr a" and b: "streak_multiplier s n' = Inr b"
  shows "b \<le> a"
proof (cases "n < sp_threshold s")
  case True
  then have "a = 1" using a by (simp add: streak_multiplier_def)
  then show ?thesis using streak_multiplier_range [OF f, of n'] b by auto
next
  case False
  let ?r = "\<lambda>k. reduce_steps (sp_reduction_factor s) (k - sp_threshold s) (sp_reduction_factor s)"
  have le: "?r n' \<le> ?r n" using n by (intro reduce_steps_antimono f) auto
  have a': "(if ?r n < 1 / 100 then Inr 0 else quantize 2 (?r n)) = Inr a"
    and b': "(if ?r n' < 1 / 100 then Inr 0 else quantize 2 (?r n')) = Inr b"
    using a b False n by (auto simp: streak_multiplier_def Let_def)
  show ?thesis
  proof (cases "?r n' < 1 / 100")
    case True
    then show ?thesis using b' streak_multiplier_range [OF f, of n] a by auto
  next
    case False
    then show ?thesis using a' b' le quantize_mono by auto
  qed
qed

section \<open>Lemmas: cooldown state machine\<close>

datatype spiral_event = Trade rat bool | Query rat | Reset

text \<open>One rule per public operation that writes the guard's state.\<close>

inductive spiral_step :: "spiral \<Rightarrow> spiral_event \<Rightarrow> spiral \<Rightarrow> bool" where
  trade: "spiral_step s (Trade now w) (record_trade_result now w s)"
| query: "spiral_step s (Query now) (snd (is_in_cooldown now s))"
| reset: "spiral_step s Reset (spiral_reset s)"

inductive_simps spiral_step_simps:
  "spiral_step s (Trade now w) t" "spiral_step s (Query now) t" "spiral_step s Reset t"

inductive spiral_reach :: "spiral \<Rightarrow> spiral \<Rightarrow> bool" for s0 where
  init: "spiral_reach s0 s0"
| step: "spiral_reach s0 s \<Longrightarrow> spiral_step s e t \<Longrightarrow> spiral_reach s0 t"

text \<open>A cooldown is running only while the streak that caused it stands.\<close>

definition spiral_inv :: "spiral \<Rightarrow> bool" where
  "spiral_inv s \<longleftrightarrow> (sp_cooldown_start s \<noteq> None \<longrightarrow> sp_max_losses s \<le> sp_consecutive_losses s)"

lemma spiral_step_inv: "spiral_step s e t \<Longrightarrow> spiral_inv s \<Longrightarrow> spiral_inv t"
  by (induction rule: spiral_step.induct)
    (auto simp: spiral_inv_def record_trade_result_def spiral_reset_def is_in_cooldown_def Let_def
      split: option.splits)

lemma spiral_step_config: "spiral_step s e t \<Longrightarrow>
    sp_max_losses t = sp_max_losses s \<and> sp_threshold t = sp_threshold s \<and>
    sp_cooldown_seconds t = sp_cooldown_seconds s \<and> sp_reduction_factor t = sp_reduction_factor s"
  by (induction rule: spiral_step.induct)
    (auto simp: record_trade_result_def spiral_reset_def is_in_cooldown_def Let_def split: option.splits)

lemma spiral_reach_inv: "spiral_reach s0 s \<Longrightarrow> spiral_inv s0 \<Longrightarrow> spiral_inv s"
  by (induction rule: spiral_reach.induct) (auto intro: spiral_step_inv)

lemma new_spiral_inv [simp]: "spiral_inv (new_spiral a b c d e)"
  by (simp add: spiral_inv_def new_spiral_def)

fun record_losses :: "rat list \<Rightarrow> spiral \<Rightarrow> spiral" where
  "record_losses [] s = s"
| "record_losses (t # ts) s = record_losses ts (record_loss t s)"

lemma record_losses_frame [simp]:
  "sp_max_losses (record_losses ts s) = sp_max_losses s"
  "sp_cooldown_seconds (record_losses ts s) = sp_cooldown_seconds s"
  "sp_threshold (record_losses ts s) = sp_threshold s"
  "sp_consecutive_losses (record_losses ts s) = sp_consecutive_losses s + length ts"
  by (induction ts arbitrary: s) (simp_all add: record_loss_def record_trade_result_def Let_def)

lemma record_losses_snoc: "record_losses (ts @ [t]) s = record_loss t (record_losses ts s)"
  by (induction ts arbitrary: s) auto

lemma record_losses_cooldown:
  "sp_max_losses s \<le> sp_consecutive_losses s + length ts + 1 \<Longrightarrow>
     sp_cooldown_start (record_losses (ts @ [t]) s) = Some t"
  by (simp add: record_losses_snoc record_loss_def record_trade_result_def Let_def)

section \<open>Lemmas: the sliding window\<close>

text \<open>
  The engine's use of the limiter: \<open>allow()\<close> at one clock reading and, when granted, \<open>record()\<close>
  at a later one. The second component collects every recorded timestamp.
\<close>

definition rl_attempt :: "rate_limiter \<times> rat list \<Rightarrow> rat \<times> rat \<Rightarrow> rate_limiter \<times> rat list" where
  "rl_attempt st tt =
     (case st of (r, hist) \<Rightarrow>
        case rl_allow (fst tt) r of
          (True, r) \<Rightarrow> (rl_record (snd tt) r, hist @ [snd tt])
        | (False, r) \<Rightarrow> (r, hist))"

definition rl_run :: "int \<Rightarrow> (rat \<times> rat) list \<Rightarrow> rate_limiter \<times> rat list" where
  "rl_run m attempts = foldl rl_attempt (new_rate_limiter m, []) attempts"

text \<open>
  The deque is a suffix of the history; what was dropped is older than the cutoff of every
  later reading.
\<close>

definition rl_inv :: "rat \<Rightarrow> int \<Rightarrow> rate_limiter \<times> rat list \<Rightarrow> bool" where
  "rl_inv w m st \<longleftrightarrow>
     (case st of (r, hist) \<Rightarrow>
        rl_max r = m \<and> int (length (rl_timestamps r)) \<le> max 0 m \<and>
        (\<exists>old. hist = old @ rl_timestamps r \<and> (\<forall>h \<in> set old. h < flt_round (w - RL_WINDOW))))"

lemma rl_attempt_inv:
  assumes "rl_inv w m st" "fst tt \<le> w"
  shows "rl_inv w m (rl_attempt st tt)"
proof -
  obtain r hist where st: "st = (r, hist)" by (cases st)
  obtain old where old: "hist = old @ rl_timestamps r" "\<forall>h \<in> set old. h < flt_round (w - RL_WINDOW)"
    and m: "rl_max r = m" "int (length (rl_timestamps r)) \<le> max 0 m"
    using assms(1) by (auto simp: rl_inv_def st)
  let ?P = "\<lambda>t. t < flt_round (fst tt - RL_WINDOW)"
  let ?drop = "takeWhile ?P (rl_timestamps r)" and ?keep = "dropWhile ?P (rl_timestamps r)"
  have mono: "flt_round (fst tt - RL_WINDOW) \<le> flt_round (w - RL_WINDOW)"
    using assms(2) by (intro flt.rnd_mono) simp
  have "\<forall>h \<in> set ?drop. h < flt_round (w - RL_WINDOW)"
    using mono set_takeWhileD by fastforce
  then have old': "\<forall>h \<in> set (old @ ?drop). h < flt_round (w - RL_WINDOW)" using old by auto
  have hist: "hist = (old @ ?drop) @ ?keep" using old by simp
  have len: "int (length ?keep) \<le> max 0 m" using m length_dropWhile_le [of ?P "rl_timestamps r"] by simp
  show ?thesis
    using m len old' hist
    unfolding rl_attempt_def rl_allow_def rl_cleanup_def rl_record_def rl_inv_def st Let_def
    by (auto split: bool.split simp del: set_append append_assoc intro!: exI [of _ "old @ ?drop"])
qed

lemma rl_run_inv:
  assumes "\<forall>tt \<in> set attempts. fst tt \<le> w" "rl_inv w m st"
  shows "rl_inv w m (foldl rl_attempt st attempts)"
  using assms
proof (induction attempts arbitrary: st)
  case Nil
  then show ?case by simp
next
  case (Cons tt attempts)
  then show ?case using rl_attempt_inv [of w m st tt] by simp
qed

lemma rl_window_bound:
  assumes "\<forall>tt \<in> set attempts. fst tt \<le> w" "0 \<le> m"
  shows "int (length (filter (\<lambda>h. flt_round (w - RL_WINDOW) \<le> h) (snd (rl_run m attempts)))) \<le> m"
proof -
  have "rl_inv w m (rl_run m attempts)"
    unfolding rl_run_def using assms(1)
    by (rule rl_run_inv) (simp add: rl_inv_def new_rate_limiter_def)
  moreover obtain r hist where run: "rl_run m attempts = (r, hist)" by fastforce
  ultimately obtain old where "snd (rl_run m attempts) = old @ rl_timestamps r"
    "\<forall>h \<in> set old. h < flt_round (w - RL_WINDOW)" "int (length (rl_timestamps r)) \<le> m"
    using assms(2) by (auto simp: rl_inv_def)
  moreover from this have "filter (\<lambda>h. flt_round (w - RL_WINDOW) \<le> h) old = []"
    by (auto simp: filter_empty_conv not_le)
  moreover have "int (length (filter (\<lambda>h. flt_round (w - RL_WINDOW) \<le> h) (rl_timestamps r)))
      \<le> int (length (rl_timestamps r))" by (simp only: of_nat_le_iff length_filter_le)
  ultimately show ?thesis by (simp only: filter_append append_Nil)
qed

section \<open>Properties\<close>

text \<open>
  The loss-streak multiplier is a brake: outside a cooldown it is defined, lies in [0, 1] and
  never grows with the number of consecutive losses.
\<close>

theorem spiral_multiplier_brake:
  assumes "0 \<le> sp_reduction_factor s" "sp_reduction_factor s \<le> 1"
    "dec_round (sp_reduction_factor s) = sp_reduction_factor s" "n \<le> n'"
  shows "\<exists>a b. fst (get_sizing_multiplier now (s\<lparr>sp_consecutive_losses := n, sp_cooldown_start := None\<rparr>)) = Inr a \<and>
     fst (get_sizing_multiplier now (s\<lparr>sp_consecutive_losses := n', sp_cooldown_start := None\<rparr>)) = Inr b \<and>
     0 \<le> b \<and> b \<le> a \<and> a \<le> 1"
proof -
  let ?s = "\<lambda>k. s\<lparr>sp_consecutive_losses := k, sp_cooldown_start := None\<rparr>"
  have m: "fst (get_sizing_multiplier now (?s k)) = streak_multiplier s k" for k
    using get_sizing_multiplier_streak [of now "?s k" "?s k"]
    by (simp add: is_in_cooldown_def streak_multiplier_def)
  obtain a b where a: "streak_multiplier s n = Inr a" "0 \<le> a" "a \<le> 1"
    and b: "streak_multiplier s n' = Inr b" "0 \<le> b" "b \<le> 1"
    using streak_multiplier_range [OF assms(1-3)] by metis
  then show ?thesis using streak_multiplier_antimono [OF assms(1-4) a(1) b(1)] unfolding m by auto
qed

theorem spiral_multiplier_brake_witness:
  "\<exists>a b. fst (get_sizing_multiplier 0 (default_spiral\<lparr>sp_consecutive_losses := 3, sp_cooldown_start := None\<rparr>)) = Inr a \<and>
     fst (get_sizing_multiplier 0 (default_spiral\<lparr>sp_consecutive_losses := 4, sp_cooldown_start := None\<rparr>)) = Inr b \<and>
     0 \<le> b \<and> b \<le> a \<and> a \<le> 1"
  by (rule spiral_multiplier_brake) (simp_all add: default_spiral_def new_spiral_def num_eval)

text \<open>
  A loss streak that reaches the limit stops trading for the whole cooldown and no longer:
  after the last loss the multiplier is zero until the cooldown has elapsed, and the first query
  after that returns full size with the streak cleared.
\<close>

theorem spiral_cooldown_cycle:
  assumes "sp_max_losses s \<le> sp_consecutive_losses s + length ts + 1" "0 < sp_threshold s"
  shows "let s' = record_losses (ts @ [t]) s in
     get_sizing_multiplier now s' =
       (if flt_round (now - t) < of_int (sp_cooldown_seconds s) then (Inr 0, s')
        else (Inr 1, s'\<lparr>sp_cooldown_start := None, sp_consecutive_losses := 0\<rparr>))"
  using record_losses_cooldown [OF assms(1), of t] assms(2) record_losses_frame [of "ts @ [t]" s]
  by (simp add: get_sizing_multiplier_def is_in_cooldown_def Let_def)

theorem spiral_cooldown_cycle_witness:
  "let s' = record_losses ([0, 10, 20, 30] @ [40]) default_spiral in
     get_sizing_multiplier 100 s' =
       (if flt_round (100 - 40) < of_int (sp_cooldown_seconds default_spiral) then (Inr 0, s')
        else (Inr 1, s'\<lparr>sp_cooldown_start := None, sp_consecutive_losses := 0\<rparr>))"
  by (rule spiral_cooldown_cycle) (simp_all add: default_spiral_def new_spiral_def)

text \<open>
  In every state that trade results, queries and resets can reach from a new guard, a running
  cooldown is justified by a streak of at least the configured maximum, and the configuration has
  not changed.
\<close>

theorem spiral_reachable_cooldown:
  assumes "spiral_reach (new_spiral a b c d e) s" "fst (is_in_cooldown now s)"
  shows "sp_max_losses s \<le> sp_consecutive_losses s \<and> sp_max_losses s = sp_max_losses (new_spiral a b c d e)"
proof -
  have "spiral_inv s" using spiral_reach_inv [OF assms(1)] by simp
  moreover have "sp_cooldown_start s \<noteq> None" using assms(2) by (auto simp: is_in_cooldown_def split: option.splits)
  moreover have "sp_max_losses s = sp_max_losses (new_spiral a b c d e)"
    using assms(1) by (induction rule: spiral_reach.induct) (auto dest: spiral_step_config)
  ultimately show ?thesis by (simp add: spiral_inv_def)
qed

theorem spiral_reachable_cooldown_witness:
  "let s = record_trade_result 7 False (record_trade_result 5 False (new_spiral 1 2 60 (1 / 2) None)) in
     sp_max_losses s \<le> sp_consecutive_losses s \<and> sp_max_losses s = sp_max_losses (new_spiral 1 2 60 (1 / 2) None)"
proof -
  let ?n = "new_spiral 1 2 60 (1 / 2) None"
  let ?s = "record_trade_result 7 False (record_trade_result 5 False ?n)"
  have "spiral_reach ?n ?s"
    by (intro spiral_reach.step [OF _ spiral_step.trade] spiral_reach.init)
  moreover have "fst (is_in_cooldown 7 ?s)"
    by (simp add: is_in_cooldown_def record_trade_result_def new_spiral_def flt.rnd_0 Let_def)
  ultimately show ?thesis using spiral_reachable_cooldown unfolding Let_def by blast
qed

text \<open>
  The rate limiter enforces its window: for any sequence of attempts, where a signal is
  recorded only when \<open>allow\<close> grants it, at most \<open>max\<close> recorded signals lie in the hour before any
  clock reading that is not earlier than the attempts.
\<close>

theorem rate_limiter_window:
  assumes "\<forall>tt \<in> set attempts. fst tt \<le> w" "0 \<le> m"
  shows "int (length (filter (\<lambda>h. flt_round (w - RL_WINDOW) \<le> h) (snd (rl_run m attempts)))) \<le> m"
  using rl_window_bound [OF assms] .

theorem rate_limiter_window_witness:
  "int (length (filter (\<lambda>h. flt_round (3000 - RL_WINDOW) \<le> h)
      (snd (rl_run 2 [(0, 1), (5, 6), (10, 11), (3000, 3001)])))) \<le> 2"
  by (rule rate_limiter_window) simp_all

end
