(* ===== verification/Algo_Engine.thy ===== *)
theory Algo_Engine
  imports Validator Market_Data Regime Strategies Signal_Generator Confidence Position_Sizing Signal_Guards
begin

text \<open>
  \<open>algo_engine/engine.py\<close>: the pipeline of \<open>_process_bar_inner\<close>, composed of the other components'
  definitions in the order of the code. What the indicator modules compute (the feature pipeline, the
  multi-timeframe analyzer and the optional mathematical modules of steps 3 to 3b) enters as one
  function from the bar window to the feature dictionary (\<open>None\<close> for an empty one), and the Bayesian posteriors as another; clock
  readings, the UUID and the date of each call are in the environment record. An exception stops the
  pipeline with the state as it is at that point.
\<close>

section \<open>State and environment\<close>

record engine =
  en_bar_counter :: nat
  en_quality :: quality_checker
  en_buffer :: bar_buffer
  en_regime :: regime_classifier
  en_router :: router
  en_generator :: generator
  en_sizer :: sizer
  en_adv_sizer :: "adv_sizer option"
  en_validator :: validator
  en_spiral :: spiral
  en_rate :: rate_limiter
  en_attribution :: attribution
  en_portfolio :: portfolio
  en_belief :: "belief_state option"
  en_composite :: "composite option"
  en_maturity :: "gate option"

record env =
  ev_features :: "string \<Rightarrow> string \<Rightarrow> ohlcv list \<Rightarrow> features option"
  ev_posteriors :: "features \<Rightarrow> (string \<times> decimal) list option"
  ev_uuid :: string
  ev_signal_time :: rat
  ev_today :: string
  ev_today' :: string
  ev_spiral_now :: rat
  ev_spiral_now' :: rat
  ev_utc_hour :: int
  ev_utc_now :: utc_time
  ev_rate_now :: rat
  ev_rate_now' :: rat

section \<open>Steps 1 to 3: quality gate, buffer, features\<close>

definition ingest :: "env \<Rightarrow> string \<Rightarrow> string \<Rightarrow> ohlcv \<Rightarrow> engine \<Rightarrow> features option \<times> engine" where
  "ingest env symbol timeframe b en =
     (let (ok, q) = validate_bar b None (en_quality en);
          en = en\<lparr>en_quality := q\<rparr>
      in if \<not> ok then (None, en)
         else let (window, bb) = add_bar symbol b (en_buffer en); en = en\<lparr>en_buffer := bb\<rparr>
              in case window of
                   None \<Rightarrow> (None, en)
                 | Some bars \<Rightarrow> (ev_features env symbol timeframe bars, en))"

section \<open>Steps 4 to 6: regime, beliefs, routing, attribution\<close>

definition add_beliefs :: "features \<Rightarrow> decimal \<Rightarrow> engine \<Rightarrow> features \<times> engine" where
  "add_beliefs f regime_conf en =
     (case en_belief en of
        None \<Rightarrow> (f, en)
      | Some bs \<Rightarrow>
          (case belief_update (fget f ''feature_trend_score'' 0) (fget f ''feature_momentum_score'' 0) regime_conf None bs of
             (Inl e, bs') \<Rightarrow> (f, en\<lparr>en_belief := Some bs'\<rparr>)
           | (Inr b, bs') \<Rightarrow>
               (f(''belief_trend'' \<mapsto> be_trend b, ''belief_momentum'' \<mapsto> be_momentum b,
                  ''belief_regime'' \<mapsto> be_regime b, ''belief_edge'' \<mapsto> be_edge b),
                en\<lparr>en_belief := Some bs'\<rparr>)))"

definition decide :: "env \<Rightarrow> features \<Rightarrow> engine \<Rightarrow> (suggestion \<times> features) result \<times> engine" where
  "decide env f en =
     (let (cl, rc) = classify f (en_regime en); en = en\<lparr>en_regime := rc\<rparr>;
          posteriors = ev_posteriors env f;
          (f, en) = add_beliefs f (cl_confidence cl) en;
          regime = regime_value (cl_regime cl)
      in case (case posteriors of
                 Some ps \<Rightarrow> route_probabilistic (en_router en) ps f
               | None \<Rightarrow> route (en_router en) regime f) of
           Inl e \<Rightarrow> (Inl e, en)
         | Inr s \<Rightarrow>
             (Inr (s, f),
              en\<lparr>en_attribution := record_signal (opt_get (sug_strategy s) regime) (sug_confidence s) (en_attribution en)\<rparr>))"

section \<open>Steps 7 and 8: signal, confidence, size\<close>

text \<open>Step 7a: any exception keeps the strategy's confidence.\<close>

definition override_confidence :: "engine \<Rightarrow> features \<Rightarrow> suggestion \<Rightarrow> trading_signal \<Rightarrow> trading_signal" where
  "override_confidence en f s sig =
     (case en_composite en of
        None \<Rightarrow> sig
      | Some cc \<Rightarrow>
          (case composite_compute cc f (direction_str (sug_direction s)) (fget f ''belief_edge'' 0) None of
             Inl e \<Rightarrow> sig
           | Inr c \<Rightarrow> sig\<lparr>sig_confidence := c\<rparr>))"

definition size_position :: "engine \<Rightarrow> string \<Rightarrow> features \<Rightarrow> suggestion \<Rightarrow> decimal \<Rightarrow> decimal \<Rightarrow> portfolio_state \<Rightarrow> decimal result" where
  "size_position en symbol f s price stop_loss st =
     (case en_adv_sizer en of
        Some a \<Rightarrow> adv_calculate a symbol price stop_loss (gs_equity st) (gs_current_drawdown_pct st)
                    (sug_confidence s) (f ''cvar_1pct'')
      | None \<Rightarrow> sizer_calculate (en_sizer en) symbol price stop_loss (Some (gs_equity st)) (gs_current_drawdown_pct st))"

text \<open>Steps 8a and 8b reduce the lots by a multiplier below one, with a floor of 0.01.\<close>

definition scale_lots :: "decimal \<Rightarrow> decimal \<Rightarrow> decimal result" where
  "scale_lots factor lots =
     (if factor < 1
      then rbind (quantize 2 (dec_mul lots factor)) (\<lambda>l. Inr (if l < 1 / 100 then 1 / 100 else l))
      else Inr lots)"

definition maturity_lots :: "engine \<Rightarrow> decimal \<Rightarrow> decimal result" where
  "maturity_lots en lots =
     (case en_maturity en of None \<Rightarrow> Inr lots | Some g \<Rightarrow> scale_lots (sizing_multiplier g) lots)"

definition build_signal :: "env \<Rightarrow> string \<Rightarrow> suggestion \<Rightarrow> features \<Rightarrow> engine \<Rightarrow> trading_signal option result \<times> engine" where
  "build_signal env symbol s f en =
     (if sug_direction s = HOLD then (Inr None, en)
      else case f ''latest_close'' of
             None \<Rightarrow> (Inl KeyError, en)
           | Some price \<Rightarrow>
               (case generate_signal (en_generator en) (ev_uuid env) (ev_signal_time env) symbol s price (fget f ''atr'' 0) of
                  None \<Rightarrow> (Inr None, en)
                | Some sig \<Rightarrow>
                    let sig = override_confidence en f s sig;
                        (st, pf) = get_state (ev_today env) (en_portfolio en);
                        en = en\<lparr>en_portfolio := pf\<rparr>
                    in (rbind (size_position en symbol f s price (sig_stop_loss sig) st) (\<lambda>lots.
                        rbind (maturity_lots en lots) (\<lambda>lots.
                          Inr (Some (sig\<lparr>sig_lots := Some lots, sig_source_tier := Some TECHNICAL\<rparr>)))), en)))"

section \<open>Steps 8b to 9: spiral protection, validation, rate limit\<close>

definition to_vsignal :: "trading_signal \<Rightarrow> vsignal" where
  "to_vsignal sig =
     \<lparr>vs_direction = Some (direction_value (sig_direction sig)), vs_symbol = Some (sig_symbol sig),
      vs_confidence = Num (Fin (sig_confidence sig)), vs_spread = None,
      vs_stop_loss = Num (Fin (sig_stop_loss sig)), vs_entry_price = Num (Fin (sig_entry_price sig)),
      vs_risk_reward = Num (Fin (sig_risk_reward sig)),
      vs_suggested_lots = (case sig_lots sig of None \<Rightarrow> Absent | Some l \<Rightarrow> Num (Fin l))\<rparr>"

definition to_vstate :: "portfolio_state \<Rightarrow> vstate" where
  "to_vstate st =
     \<lparr>vp_open_position_count = Some (int (gs_open_position_count st)),
      vp_current_drawdown_pct = Num (Fin (gs_current_drawdown_pct st)),
      vp_daily_loss_pct = Num (Fin (gs_daily_loss_pct st)), vp_equity = Num (Fin (gs_equity st)),
      vp_used_margin = Num (Fin (gs_used_margin st)), vp_leverage = None,
      vp_positions_detail = Some (gs_positions_detail st)\<rparr>"

definition spiral_gate :: "env \<Rightarrow> trading_signal \<Rightarrow> engine \<Rightarrow> trading_signal option result \<times> engine" where
  "spiral_gate env sig en =
     (case is_in_cooldown (ev_spiral_now env) (en_spiral en) of
        (True, sp) \<Rightarrow> (Inr None, en\<lparr>en_spiral := sp\<rparr>)
      | (False, sp) \<Rightarrow>
          (case get_sizing_multiplier (ev_spiral_now' env) sp of
             (Inl e, sp) \<Rightarrow> (Inl e, en\<lparr>en_spiral := sp\<rparr>)
           | (Inr factor, sp) \<Rightarrow>
               (rbind (scale_lots factor (opt_get (sig_lots sig) 0)) (\<lambda>lots. Inr (Some (sig\<lparr>sig_lots := Some lots\<rparr>))),
                en\<lparr>en_spiral := sp\<rparr>)))"

definition final_gates :: "env \<Rightarrow> trading_signal \<Rightarrow> engine \<Rightarrow> trading_signal option result \<times> engine" where
  "final_gates env sig en =
     (let (st, pf) = get_state (ev_today' env) (en_portfolio en); en = en\<lparr>en_portfolio := pf\<rparr>
      in case validate (en_validator en) (ev_utc_hour env) (ev_utc_now env) (to_vsignal sig) (to_vstate st) of
           Inl e \<Rightarrow> (Inl e, en)
         | Inr (Rejected r) \<Rightarrow> (Inr None, en)
         | Inr Accepted \<Rightarrow>
             (case rl_allow (ev_rate_now env) (en_rate en) of
                (False, r) \<Rightarrow> (Inr None, en\<lparr>en_rate := r\<rparr>)
              | (True, r) \<Rightarrow> (Inr (Some sig), en\<lparr>en_rate := rl_record (ev_rate_now' env) r\<rparr>)))"

text \<open>Sequencing: an exception or an early \<open>return None\<close> ends the pipeline.\<close>

definition pipe :: "'a option result \<times> engine \<Rightarrow> ('a \<Rightarrow> engine \<Rightarrow> 'b option result \<times> engine) \<Rightarrow> 'b option result \<times> engine" where
  "pipe m k =
     (case m of
        (Inl e, en) \<Rightarrow> (Inl e, en)
      | (Inr None, en) \<Rightarrow> (Inr None, en)
      | (Inr (Some x), en) \<Rightarrow> k x en)"

definition process_bar :: "env \<Rightarrow> string \<Rightarrow> string \<Rightarrow> ohlcv \<Rightarrow> engine \<Rightarrow> trading_signal option result \<times> engine" where
  "process_bar env symbol timeframe b en =
     (let en = en\<lparr>en_bar_counter := en_bar_counter en + 1\<rparr>
      in case ingest env symbol timeframe b en of
           (None, en) \<Rightarrow> (Inr None, en)
         | (Some f, en) \<Rightarrow>
             (case decide env f en of
                (Inl e, en) \<Rightarrow> (Inl e, en)
              | (Inr (s, f), en) \<Rightarrow>
                  pipe (pipe (build_signal env symbol s f en) (spiral_gate env)) (final_gates env)))"

section \<open>Lemmas: lots\<close>

lemma on_grid_1_100: "on_grid 2 (1 / 100)"
  by (rule on_gridI [of _ _ 1]) simp

lemma scale_lots_bounds:
  assumes "1 / 100 \<le> l" "l \<le> hi" "on_grid 2 hi" "dec_round hi = hi" "0 \<le> factor" "scale_lots factor l = Inr l'"
  shows "1 / 100 \<le> l' \<and> l' \<le> hi"
proof (cases "factor < 1")
  case True
  then obtain q where q: "quantize 2 (dec_mul l factor) = Inr q" "l' = (if q < 1 / 100 then 1 / 100 else q)"
    using assms(6) by (auto simp: scale_lots_def)
  have "l * factor \<le> hi * 1" using assms True by (intro mult_mono) auto
  then have "dec_mul l factor \<le> hi" unfolding dec_mul_def using assms(4) by (intro dec.rnd_le) auto
  then have "q \<le> hi" using quantize_le [OF q(1) assms(3)] by blast
  then show ?thesis using q assms by auto
next
  case False
  then show ?thesis using assms by (simp add: scale_lots_def)
qed

lemma scale_lots_no_increase:
  assumes "on_grid 2 l" "dec_round l = l" "1 / 100 \<le> l" "0 \<le> factor" "scale_lots factor l = Inr l'"
  shows "l' \<le> l"
  using scale_lots_bounds [OF assms(3) order_refl assms(1,2,4,5)] by simp

definition engine_lots_ok :: "engine \<Rightarrow> decimal \<Rightarrow> bool" where
  "engine_lots_ok en hi \<longleftrightarrow>
     on_grid 2 hi \<and> dec_round hi = hi \<and>
     (case en_adv_sizer en of
        None \<Rightarrow> lot_limits (ps_min_lots (en_sizer en)) (ps_max_lots (en_sizer en)) \<and> ps_max_lots (en_sizer en) \<le> hi
      | Some a \<Rightarrow> lot_limits (as_min_lots a) (as_max_lots a) \<and> as_max_lots a \<le> hi)"

lemma engine_lots_ok_cong:
  "en_sizer en' = en_sizer en \<Longrightarrow> en_adv_sizer en' = en_adv_sizer en \<Longrightarrow> engine_lots_ok en' hi = engine_lots_ok en hi"
  by (cases "en_adv_sizer en") (simp_all add: engine_lots_ok_def)

lemma on_grid_pos_ge:
  assumes "on_grid 2 x" "0 < x"
  shows "1 / 100 \<le> x"
proof -
  obtain m where m: "x * 10 ^ 2 = of_int m" using assms(1) by (auto simp: on_grid_def)
  have "0 < (of_int m :: rat)" using assms(2) m by (metis mult_pos_pos zero_less_numeral zero_less_power)
  then have "1 \<le> m" by simp
  then have "(1 :: rat) \<le> of_int m" by simp
  then show ?thesis using m by simp
qed

lemma size_position_bounds:
  assumes "engine_lots_ok en hi" "size_position en symbol f s price sl st = Inr l"
  shows "1 / 100 \<le> l \<and> l \<le> hi"
proof (cases "en_adv_sizer en")
  case None
  then have lim: "lot_limits (ps_min_lots (en_sizer en)) (ps_max_lots (en_sizer en))" "ps_max_lots (en_sizer en) \<le> hi"
    using assms(1) by (simp_all add: engine_lots_ok_def)
  have "1 / 100 \<le> ps_min_lots (en_sizer en)" using lim(1) on_grid_pos_ge by (simp add: lot_limits_def)
  then show ?thesis
    using sizer_calculate_bounded [OF lim(1), of symbol price sl "Some (gs_equity st)" "gs_current_drawdown_pct st"]
      assms(2) lim(2) None by (auto simp: size_position_def)
next
  case (Some a)
  then have lim: "lot_limits (as_min_lots a) (as_max_lots a)" "as_max_lots a \<le> hi"
    using assms(1) by (simp_all add: engine_lots_ok_def)
  have "1 / 100 \<le> as_min_lots a" using lim(1) on_grid_pos_ge by (simp add: lot_limits_def)
  then show ?thesis
    using adv_calculate_bounded [OF lim(1), of symbol price sl "gs_equity st" "gs_current_drawdown_pct st" "sug_confidence s" "f ''cvar_1pct''"]
      assms(2) lim(2) Some by (auto simp: size_position_def)
qed

lemma STATE_MULTIPLIERS_nonneg: "0 \<le> sizing_multiplier g"
  by (cases "mg_state g") (simp_all add: sizing_multiplier_def)

lemma maturity_lots_bounds:
  assumes "1 / 100 \<le> l" "l \<le> hi" "on_grid 2 hi" "dec_round hi = hi" "maturity_lots en l = Inr l'"
  shows "1 / 100 \<le> l' \<and> l' \<le> hi"
  using assms scale_lots_bounds [OF assms(1-4) STATE_MULTIPLIERS_nonneg]
  by (auto simp: maturity_lots_def split: option.splits)

section \<open>Lemmas: what each step leaves alone\<close>

definition fixed_parts :: "engine \<Rightarrow> router \<times> sizer \<times> adv_sizer option \<times> validator \<times> gate option" where
  "fixed_parts en = (en_router en, en_sizer en, en_adv_sizer en, en_validator en, en_maturity en)"

lemma ingest_frame:
  assumes "ingest env symbol tf b en = (f, en')"
  shows "fixed_parts en' = fixed_parts en" "en_spiral en' = en_spiral en" "en_rate en' = en_rate en"
    "en_portfolio en' = en_portfolio en" "f \<noteq> None \<Longrightarrow> ohlc_ordered b"
  using assms
  by (auto simp: ingest_def fixed_parts_def validate_bar_def Let_def split: prod.splits option.splits if_splits)

lemma add_beliefs_frame:
  assumes "add_beliefs f c en = (f', en')"
  shows "fixed_parts en' = fixed_parts en" "en_spiral en' = en_spiral en" "en_rate en' = en_rate en"
    "en_portfolio en' = en_portfolio en" "en_regime en' = en_regime en"
  using assms by (auto simp: add_beliefs_def fixed_parts_def split: option.splits prod.splits sum.splits)

lemma decide_frame:
  assumes "decide env f en = (r, en')"
  shows "fixed_parts en' = fixed_parts en \<and> en_spiral en' = en_spiral en \<and> en_rate en' = en_rate en \<and>
    en_portfolio en' = en_portfolio en"
proof -
  obtain cl rc where c: "classify f (en_regime en) = (cl, rc)" by fastforce
  obtain f1 en1 where a: "add_beliefs f (cl_confidence cl) (en\<lparr>en_regime := rc\<rparr>) = (f1, en1)" by fastforce
  have "en' = en1 \<or> (\<exists>x. en' = en1\<lparr>en_attribution := x\<rparr>)"
    using assms by (auto simp: decide_def c a Let_def split: sum.splits option.splits)
  then show ?thesis using add_beliefs_frame [OF a] by (auto simp: fixed_parts_def)
qed

lemma build_signal_frame:
  assumes "build_signal env symbol s f en = (r, en')"
  shows "fixed_parts en' = fixed_parts en" "en_spiral en' = en_spiral en" "en_rate en' = en_rate en"
  using assms by (auto simp: build_signal_def fixed_parts_def Let_def split: if_splits option.splits prod.splits)

lemma spiral_gate_frame:
  assumes "spiral_gate env sig en = (r, en')"
  shows "fixed_parts en' = fixed_parts en" "en_rate en' = en_rate en" "en_portfolio en' = en_portfolio en"
  using assms by (auto simp: spiral_gate_def fixed_parts_def split: prod.splits bool.splits sum.splits)

section \<open>Lemmas: what each step guarantees\<close>

lemma build_signal_lots:
  assumes "build_signal env symbol s f en = (Inr (Some sig), en')" "engine_lots_ok en hi"
  shows "\<exists>l. sig_lots sig = Some l \<and> 1 / 100 \<le> l \<and> l \<le> hi" "sug_direction s \<noteq> HOLD"
proof -
  show "sug_direction s \<noteq> HOLD" using assms(1) by (auto simp: build_signal_def)
  then obtain price sig0 where p: "f ''latest_close'' = Some price"
    "generate_signal (en_generator en) (ev_uuid env) (ev_signal_time env) symbol s price (fget f ''atr'' 0) = Some sig0"
    using assms(1) by (auto simp: build_signal_def split: option.splits if_splits)
  obtain st pf where g: "get_state (ev_today env) (en_portfolio en) = (st, pf)" by fastforce
  let ?en = "en\<lparr>en_portfolio := pf\<rparr>"
  obtain l l' where l: "size_position ?en symbol f s price (sig_stop_loss (override_confidence en f s sig0)) st = Inr l"
    "maturity_lots ?en l = Inr l'" "sig_lots sig = Some l'"
    using assms(1) p g \<open>sug_direction s \<noteq> HOLD\<close> by (auto simp: build_signal_def Let_def)
  have ok: "engine_lots_ok ?en hi" using assms(2) engine_lots_ok_cong [of ?en en hi] by simp
  then have "on_grid 2 hi" "dec_round hi = hi" by (simp_all add: engine_lots_ok_def)
  then show "\<exists>l. sig_lots sig = Some l \<and> 1 / 100 \<le> l \<and> l \<le> hi"
    using size_position_bounds [OF ok l(1)] maturity_lots_bounds l(2,3) by blast
qed

definition spiral_factor_ok :: "spiral \<Rightarrow> bool" where
  "spiral_factor_ok sp \<longleftrightarrow> 0 \<le> sp_reduction_factor sp \<and> sp_reduction_factor sp \<le> 1 \<and>
     dec_round (sp_reduction_factor sp) = sp_reduction_factor sp"

lemma get_sizing_multiplier_nonneg:
  assumes "spiral_factor_ok sp" "get_sizing_multiplier now sp = (Inr m, sp')"
  shows "0 \<le> m"
proof (cases "is_in_cooldown now sp")
  case (Pair cool sp1)
  show ?thesis
  proof (cases cool)
    case True
    then show ?thesis using assms(2) Pair by (simp add: get_sizing_multiplier_def)
  next
    case False
    then have "is_in_cooldown now sp = (False, sp1)" using Pair by simp
    moreover from is_in_cooldown_frame [OF this] have "spiral_factor_ok sp1"
      using assms(1) by (simp add: spiral_factor_ok_def)
    ultimately show ?thesis
      using assms(2) get_sizing_multiplier_streak streak_multiplier_range [of sp1 "sp_consecutive_losses sp1"]
      by (auto simp: spiral_factor_ok_def)
  qed
qed

lemma spiral_gate_passes:
  assumes "spiral_gate env sig en = (Inr (Some sig'), en')" "spiral_factor_ok (en_spiral en)"
    "sig_lots sig = Some l" "1 / 100 \<le> l" "l \<le> hi" "on_grid 2 hi" "dec_round hi = hi"
  shows "\<exists>l'. sig' = sig\<lparr>sig_lots := Some l'\<rparr> \<and> 1 / 100 \<le> l' \<and> l' \<le> hi"
    "fst (is_in_cooldown (ev_spiral_now env) (en_spiral en)) = False"
proof -
  obtain cool sp where c: "is_in_cooldown (ev_spiral_now env) (en_spiral en) = (cool, sp)" by fastforce
  then have cool: "cool = False" using assms(1) by (cases cool) (auto simp: spiral_gate_def)
  show "fst (is_in_cooldown (ev_spiral_now env) (en_spiral en)) = False" using c cool by simp
  obtain r sp2 where g: "get_sizing_multiplier (ev_spiral_now' env) sp = (r, sp2)" by fastforce
  obtain m l' where m: "r = Inr m" "scale_lots m l = Inr l'" "sig' = sig\<lparr>sig_lots := Some l'\<rparr>"
    using assms(1,3) c cool g by (cases r) (auto simp: spiral_gate_def opt_get_def)
  have "spiral_factor_ok sp"
    using is_in_cooldown_frame [OF c] assms(2) by (simp add: spiral_factor_ok_def)
  then have "0 \<le> m" using get_sizing_multiplier_nonneg g m(1) by blast
  then show "\<exists>l'. sig' = sig\<lparr>sig_lots := Some l'\<rparr> \<and> 1 / 100 \<le> l' \<and> l' \<le> hi"
    using scale_lots_bounds [OF assms(4-7) _ m(2)] m(3) by blast
qed

lemma final_gates_passes:
  assumes "final_gates env sig en = (Inr (Some sig'), en')"
  shows "sig' = sig"
    "validate (en_validator en) (ev_utc_hour env) (ev_utc_now env) (to_vsignal sig)
       (to_vstate (fst (get_state (ev_today' env) (en_portfolio en)))) = Inr Accepted"
    "fst (rl_allow (ev_rate_now env) (en_rate en))"
    "en_rate en' = rl_record (ev_rate_now' env) (snd (rl_allow (ev_rate_now env) (en_rate en)))"
  using assms
  by (auto simp: final_gates_def Let_def split: prod.splits sum.splits verdict.splits bool.splits)

lemma to_vsignal_fields:
  "parse_num 0 (vs_confidence (to_vsignal sig)) = Inr (Fin (sig_confidence sig))"
  "parse_num 0 (vs_stop_loss (to_vsignal sig)) = Inr (Fin (sig_stop_loss sig))"
  "parse_num 0 (vs_entry_price (to_vsignal sig)) = Inr (Fin (sig_entry_price sig))"
  "normalise_direction (vs_direction (to_vsignal sig)) = sig_direction sig"
  by (simp_all add: to_vsignal_def normalise_direction_def)

lemma process_bar_stages:
  assumes run: "process_bar env symbol tf b en = (Inr (Some sig), en')"
  obtains f en1 s f' en2 sig1 en3 sig2 en4 where
    "ingest env symbol tf b (en\<lparr>en_bar_counter := en_bar_counter en + 1\<rparr>) = (Some f, en1)"
    "decide env f en1 = (Inr (s, f'), en2)" "build_signal env symbol s f' en2 = (Inr (Some sig1), en3)"
    "spiral_gate env sig1 en3 = (Inr (Some sig2), en4)" "final_gates env sig2 en4 = (Inr (Some sig), en')"
proof -
  let ?en0 = "en\<lparr>en_bar_counter := en_bar_counter en + 1\<rparr>"
  obtain f en1 where i: "ingest env symbol tf b ?en0 = (Some f, en1)"
    using run by (auto simp: process_bar_def Let_def split: prod.splits option.splits)
  obtain s f' en2 where d: "decide env f en1 = (Inr (s, f'), en2)"
    using run i by (auto simp: process_bar_def Let_def split: prod.splits sum.splits)
  have p: "pipe (pipe (build_signal env symbol s f' en2) (spiral_gate env)) (final_gates env) = (Inr (Some sig), en')"
    using run i d by (simp add: process_bar_def Let_def)
  obtain sig2 en4 where q: "pipe (build_signal env symbol s f' en2) (spiral_gate env) = (Inr (Some sig2), en4)"
    and fg: "final_gates env sig2 en4 = (Inr (Some sig), en')"
    using p by (auto simp: pipe_def split: prod.splits sum.splits option.splits)
  obtain sig1 en3 where bs: "build_signal env symbol s f' en2 = (Inr (Some sig1), en3)"
    and sg: "spiral_gate env sig1 en3 = (Inr (Some sig2), en4)"
    using q by (auto simp: pipe_def split: prod.splits sum.splits option.splits)
  show ?thesis by (rule that [OF i d bs sg fg])
qed

text \<open>A bar leaves the books alone, up to the daily reset of the loss counter.\<close>

definition books_kept :: "portfolio \<Rightarrow> portfolio \<Rightarrow> bool" where
  "books_kept pf pf' \<longleftrightarrow>
     pf_current_drawdown_pct pf' = pf_current_drawdown_pct pf \<and> pf_equity pf' = pf_equity pf \<and>
     pf_open_position_count pf' = pf_open_position_count pf \<and>
     (pf_daily_loss_pct pf' = pf_daily_loss_pct pf \<or> pf_daily_loss_pct pf' = 0)"

lemma books_kept_refl [simp]: "books_kept pf pf"
  by (simp add: books_kept_def)

lemma books_kept_trans [trans]: "books_kept a b \<Longrightarrow> books_kept b c \<Longrightarrow> books_kept a c"
  by (auto simp: books_kept_def)

lemma get_state_books: "books_kept pf (snd (get_state today pf))"
  by (simp add: get_state_def check_daily_reset_def books_kept_def Let_def)

lemma build_signal_books: "books_kept (en_portfolio en) (en_portfolio (snd (build_signal env symbol s f en)))"
  using get_state_books [of "en_portfolio en" "ev_today env"]
  by (auto simp: build_signal_def Let_def split: option.splits prod.splits)

lemma final_gates_books:
  "books_kept (en_portfolio en) (en_portfolio (snd (final_gates env sig en)))"
  "en_validator (snd (final_gates env sig en)) = en_validator en"
  using get_state_books [of "en_portfolio en" "ev_today' env"]
  by (auto simp: final_gates_def Let_def split: option.splits prod.splits sum.splits verdict.splits bool.splits)

lemma pipe_snd: "snd (pipe m k) = (case fst m of Inr (Some x) \<Rightarrow> snd (k x (snd m)) | _ \<Rightarrow> snd m)"
  by (cases m) (auto simp: pipe_def split: sum.splits option.splits)

lemma process_bar_books:
  "books_kept (en_portfolio en) (en_portfolio (snd (process_bar env symbol tf b en))) \<and>
   en_validator (snd (process_bar env symbol tf b en)) = en_validator en"
proof -
  let ?en0 = "en\<lparr>en_bar_counter := Suc (en_bar_counter en)\<rparr>"
  obtain f en1 where i: "ingest env symbol tf b ?en0 = (f, en1)" by fastforce
  note I = ingest_frame(1,4) [OF i]
  show ?thesis
  proof (cases f)
    case None
    then show ?thesis using I by (simp add: process_bar_def i Let_def fixed_parts_def)
  next
    case (Some f)
    obtain r en2 where d: "decide env f en1 = (r, en2)" by fastforce
    note D = decide_frame [OF d]
    show ?thesis
    proof (cases r)
      case (Inl e)
      then show ?thesis using I D Some by (simp add: process_bar_def i d Let_def fixed_parts_def)
    next
      case (Inr x)
      obtain s f' where x: "x = (s, f')" by fastforce
      obtain r3 en3 where b: "build_signal env symbol s f' en2 = (r3, en3)" by fastforce
      have B: "books_kept (en_portfolio en2) (en_portfolio en3)" "en_validator en3 = en_validator en2"
        using build_signal_books [of en2 env symbol s f'] build_signal_frame(1) [OF b] b by (simp_all add: fixed_parts_def)
      have S: "en_portfolio (snd (spiral_gate env sig en3)) = en_portfolio en3"
        "en_validator (snd (spiral_gate env sig en3)) = en_validator en3" for sig
        using spiral_gate_frame [of env sig en3] by (cases "spiral_gate env sig en3"; simp add: fixed_parts_def)+
      have F: "books_kept (en_portfolio en3) (en_portfolio (snd (final_gates env a (snd (spiral_gate env b en3)))))" for a b
        using final_gates_books(1) [of "snd (spiral_gate env b en3)" env a] S by simp
      have G: "books_kept (en_portfolio en3) (en_portfolio (snd (final_gates env a en3)))" for a
        by (rule final_gates_books(1))
      show ?thesis
        using I D B S final_gates_books(2) F G books_kept_trans [OF B(1)] Some Inr x
        by (auto simp: process_bar_def i d b Let_def fixed_parts_def pipe_snd split: sum.splits option.splits)
    qed
  qed
qed

lemma process_bar_slot:
  assumes "process_bar env symbol tf b en = (Inr (Some sig), en')"
  shows "int (pf_open_position_count (en_portfolio en)) < v_max_open_positions (en_validator en)"
  using assms
proof (cases rule: process_bar_stages)
  case (1 f en1 s f' en2 sig1 en3 sig2 en4)
  note V = validate_accepted_facts [OF final_gates_passes(2) [OF 1(5)]]
  have "en_validator en4 = en_validator en" "books_kept (en_portfolio en) (en_portfolio en4)"
    using ingest_frame [OF 1(1)] decide_frame [OF 1(2)] build_signal_frame(1) [OF 1(3)] spiral_gate_frame [OF 1(4)]
      build_signal_books [of en2 env symbol s f'] 1(3)
    by (simp_all add: fixed_parts_def)
  then show ?thesis using V by (auto simp: to_vstate_def get_state_def check_daily_reset_def books_kept_def opt_get_def Let_def split: if_split_asm)
qed

lemma process_bar_signal_safe:
  assumes run: "process_bar env symbol tf b en = (Inr (Some sig), en')"
    and lots: "engine_lots_ok en hi" and factor: "spiral_factor_ok (en_spiral en)"
  shows "ohlc_ordered b \<and>
     (sig_direction sig = BUY \<and> sig_stop_loss sig < sig_entry_price sig \<or>
      sig_direction sig = SELL \<and> sig_entry_price sig < sig_stop_loss sig) \<and>
     sig_stop_loss sig \<noteq> 0 \<and> v_min_confidence (en_validator en) \<le> sig_confidence sig \<and>
     (\<exists>l. sig_lots sig = Some l \<and> 1 / 100 \<le> l \<and> l \<le> hi) \<and>
     fst (is_in_cooldown (ev_spiral_now env) (en_spiral en)) = False \<and>
     fst (rl_allow (ev_rate_now env) (en_rate en)) \<and>
     en_rate en' = rl_record (ev_rate_now' env) (snd (rl_allow (ev_rate_now env) (en_rate en)))"
proof -
  obtain f en1 s f' en2 sig1 en3 sig2 en4 where
    i: "ingest env symbol tf b (en\<lparr>en_bar_counter := en_bar_counter en + 1\<rparr>) = (Some f, en1)" and
    d: "decide env f en1 = (Inr (s, f'), en2)" and bs: "build_signal env symbol s f' en2 = (Inr (Some sig1), en3)" and
    sg: "spiral_gate env sig1 en3 = (Inr (Some sig2), en4)" and fg: "final_gates env sig2 en4 = (Inr (Some sig), en')"
    using run by (rule process_bar_stages)
  note frames = ingest_frame [OF i] decide_frame [OF d] build_signal_frame [OF bs] spiral_gate_frame [OF sg]
  have same: "en_validator en4 = en_validator en" "en_rate en4 = en_rate en" "en_spiral en3 = en_spiral en"
    "engine_lots_ok en2 hi"
    using frames lots engine_lots_ok_cong [of en2 en hi] by (simp_all add: fixed_parts_def)
  have hi: "on_grid 2 hi" "dec_round hi = hi" using lots by (simp_all add: engine_lots_ok_def)
  obtain l where l: "sig_lots sig1 = Some l" "1 / 100 \<le> l" "l \<le> hi" using build_signal_lots(1) [OF bs same(4)] by blast
  note S = spiral_gate_passes [OF sg _ l hi, unfolded same(3), OF factor]
  note F = final_gates_passes [OF fg]
  show ?thesis
    using validate_accepted_facts [OF F(2)] S F(1,3,4) same ingest_frame(5) [OF i] unfolding to_vsignal_fields by auto
qed

section \<open>Properties\<close>


text \<open>A complete run: one bar, a trend, a BUY of 0.01 lots.\<close>

definition demo_features :: features where
  "demo_features = sample_features(''atr'' \<mapsto> 1 / 100)"

definition demo_bar :: ohlcv where
  "demo_bar = \<lparr>bar_timestamp = 0, bar_open = 1, bar_high = 2, bar_low = 1, bar_close = 2, bar_volume = 1\<rparr>"

definition demo_env :: env where
  "demo_env =
     \<lparr>ev_features = (\<lambda>_ _ _. Some demo_features), ev_posteriors = (\<lambda>_. None), ev_uuid = ''id'', ev_signal_time = 0,
      ev_today = ''d'', ev_today' = ''d'', ev_spiral_now = 0, ev_spiral_now' = 0, ev_utc_hour = 9,
      ev_utc_now = \<lparr>ut_seconds = 0, ut_weekday = 0, ut_day = 1, ut_hour = 9, ut_minute = 0\<rparr>,
      ev_rate_now = 0, ev_rate_now' = 0\<rparr>"

definition demo_engine :: engine where
  "demo_engine =
     \<lparr>en_bar_counter = 0, en_quality = new_quality_checker 5, en_buffer = new_bar_buffer 10 1,
      en_regime = new_regime_classifier 50 1, en_router = algo_router,
      en_generator = \<lparr>gn_sl_mult = 1, gn_tp_mult = 2\<rparr>, en_sizer = default_sizer, en_adv_sizer = None,
      en_validator = sample_validator\<lparr>v_correlation := None, v_session := False\<rparr>,
      en_spiral = default_spiral, en_rate = new_rate_limiter 10, en_attribution = Map.empty,
      en_portfolio = new_portfolio ''d'', en_belief = None, en_composite = None, en_maturity = None\<rparr>"

lemma demo_regime: "fst (raw_of (new_regime_classifier 50 1) demo_features) = TRENDING_UP"
  by (simp add: raw_of_def classify_raw_def new_regime_classifier_def demo_features_def sample_features_def fget_def
      in_volatility_def in_trend_def average_atr_def)

lemma demo_classify: "cl_regime (fst (classify demo_features (new_regime_classifier 50 1))) = TRENDING_UP"
proof -
  obtain c where "raw_of (new_regime_classifier 50 1) demo_features = (TRENDING_UP, c)"
    using demo_regime by (metis prod.collapse)
  then show ?thesis
    by (simp add: classify_def apply_hysteresis_def Let_def split: prod.split) (auto simp: new_regime_classifier_def)
qed

lemma demo_route:
  "route algo_router ''trending_up'' demo_features =
     Inr \<lparr>sug_direction = BUY, sug_confidence = 80 / 100, sug_strategy = Some ''trend_following_v1'', sug_order_type = None\<rparr>"
proof -
  have "trend_votes demo_features = (3, 0)" by (simp add: trend_votes_def demo_features_def sample_features_def fget_def Let_def)
  moreover have "trend_adx demo_features = 30" by (simp add: trend_adx_def demo_features_def sample_features_def fget_def)
  ultimately show ?thesis
    by (simp add: route_def algo_router_def register_strategy_def set_default_strategy_def new_router_def
        trend_following_def trend_confidence_def dec_ops num_eval SignalSuggestion_def direction_of_def
        setdefault_name_def Let_def)
qed

lemma demo_ingest:
  "\<exists>q bb. ingest demo_env ''EURUSD'' ''M5'' demo_bar (demo_engine\<lparr>en_bar_counter := 1\<rparr>) =
     (Some demo_features, demo_engine\<lparr>en_bar_counter := 1, en_quality := q, en_buffer := bb\<rparr>)"
  by (simp add: ingest_def demo_env_def demo_engine_def demo_bar_def validate_bar_def ohlc_ordered_def
      update_range_def is_spike_def price_jump_def new_quality_checker_def add_bar_def new_bar_buffer_def
      deque_append_def dec_ops num_eval Let_def)

definition demo_suggestion :: suggestion where
  "demo_suggestion =
     \<lparr>sug_direction = BUY, sug_confidence = 80 / 100, sug_strategy = Some ''trend_following_v1'', sug_order_type = None\<rparr>"

definition demo_signal :: trading_signal where
  "demo_signal =
     \<lparr>signal_id = ''id'', sig_symbol = ''EURUSD'', sig_direction = BUY, sig_confidence = 80 / 100,
      sig_entry_price = 12 / 10, sig_stop_loss = 119 / 100, sig_take_profit = 122 / 100, sig_risk_reward = 2,
      sig_order_type = ''MARKET'', sig_timestamp_ms = 0, sig_lots = Some (1 / 100), sig_source_tier = Some TECHNICAL\<rparr>"

lemma demo_decide:
  assumes "en_regime en = new_regime_classifier 50 1" "en_router en = algo_router" "en_belief en = None"
  shows "\<exists>rc a. decide demo_env demo_features en =
     (Inr (demo_suggestion, demo_features), en\<lparr>en_regime := rc, en_attribution := a\<rparr>)"
proof -
  obtain cl rc where c: "classify demo_features (new_regime_classifier 50 1) = (cl, rc)" by fastforce
  then have "cl_regime cl = TRENDING_UP" using demo_classify by simp
  then show ?thesis using assms c demo_route
    by (simp add: decide_def add_beliefs_def demo_env_def demo_suggestion_def Let_def) blast
qed

lemma demo_generate:
  "generate_signal \<lparr>gn_sl_mult = 1, gn_tp_mult = 2\<rparr> ''id'' 0 ''EURUSD'' demo_suggestion (6 / 5) (1 / 100) =
     Some (demo_signal\<lparr>sig_lots := None, sig_source_tier := None\<rparr>)"
  by (simp add: generate_signal_def stop_and_target_def risk_reward_ratio_def demo_suggestion_def demo_signal_def
      dec_ops num_eval flt.rnd_0 Let_def)

lemma demo_size:
  "sizer_calculate default_sizer ''EURUSD'' (6 / 5) (119 / 100) (Some 1000) 0 = Inr (1 / 100)"
proof -
  have p: "infer_pips ''EURUSD'' = Inr (1 / 10000, 10)"
    by (simp add: infer_pips_def infer_pip_size_def infer_pip_value_def PIP_SIZES_def PIP_VALUES_def)
  show ?thesis
    by (simp add: sizer_calculate_known [OF p] drawdown_scaling_def default_sizer_def raw_lots_def clamp_def
        quantize_def dec_ops num_eval Let_def)
qed

lemma demo_build:
  assumes "en_generator en = \<lparr>gn_sl_mult = 1, gn_tp_mult = 2\<rparr>" "en_composite en = None" "en_adv_sizer en = None"
    "en_sizer en = default_sizer" "en_maturity en = None" "en_portfolio en = new_portfolio ''d''"
  shows "build_signal demo_env ''EURUSD'' demo_suggestion demo_features en = (Inr (Some demo_signal), en)"
proof -
  have f: "demo_features ''latest_close'' = Some (6 / 5)" "fget demo_features ''atr'' 0 = 1 / 100"
    by (simp_all add: demo_features_def sample_features_def fget_def)
  have st: "snd (get_state ''d'' (new_portfolio ''d'')) = new_portfolio ''d''"
    "gs_equity (fst (get_state ''d'' (new_portfolio ''d''))) = 1000"
    "gs_current_drawdown_pct (fst (get_state ''d'' (new_portfolio ''d''))) = 0"
    by (simp_all add: get_state_def check_daily_reset_def new_portfolio_def Let_def)
  have e: "ev_uuid demo_env = ''id''" "ev_signal_time demo_env = 0" "ev_today demo_env = ''d''" by (simp_all add: demo_env_def)
  have d: "sug_direction demo_suggestion \<noteq> HOLD" by (simp add: demo_suggestion_def)
  have size: "sizer_calculate default_sizer ''EURUSD'' (6 / 5) (sig_stop_loss demo_signal) (Some 1000) 0 = Inr (1 / 100)"
    using demo_size by (simp add: demo_signal_def)
  have upd: "en\<lparr>en_portfolio := new_portfolio ''d''\<rparr> = en" using assms(6) by simp
  have fin: "demo_signal\<lparr>sig_lots := Some (1 / 100), sig_source_tier := Some TECHNICAL\<rparr> = demo_signal"
    by (simp add: demo_signal_def)
  show ?thesis
    unfolding build_signal_def e f
    using d st size fin assms upd
    by (simp add: demo_generate override_confidence_def size_position_def maturity_lots_def Let_def case_prod_beta)
qed

lemma demo_spiral: "en_spiral en = default_spiral \<Longrightarrow> spiral_gate demo_env demo_signal en = (Inr (Some demo_signal), en)"
proof -
  assume a: "en_spiral en = default_spiral"
  have "en\<lparr>en_spiral := default_spiral\<rparr> = en" using a by simp
  then show ?thesis using a
    by (simp add: spiral_gate_def is_in_cooldown_def get_sizing_multiplier_def default_spiral_def new_spiral_def
        scale_lots_def opt_get_def demo_signal_def demo_env_def)
qed

lemma demo_validate:
  "validate (sample_validator\<lparr>v_correlation := None, v_session := False\<rparr>) 9 now (to_vsignal demo_signal)
     (to_vstate (fst (get_state ''d'' (new_portfolio ''d'')))) = Inr Accepted"
proof -
  let ?v = "sample_validator\<lparr>v_correlation := None, v_session := False\<rparr>"
  let ?s = "to_vsignal demo_signal" and ?p = "to_vstate (fst (get_state ''d'' (new_portfolio ''d'')))"
  have c: "contract_size (vsymbol ?s) = 100000"
    by (simp add: contract_size_def vsymbol_def to_vsignal_def demo_signal_def opt_get_def str_starts_def)
  have p: "?p = \<lparr>vp_open_position_count = Some 0, vp_current_drawdown_pct = Num (Fin 0),
      vp_daily_loss_pct = Num (Fin 0), vp_equity = Num (Fin 1000), vp_used_margin = Num (Fin 0), vp_leverage = None,
      vp_positions_detail = Some []\<rparr>"
    by (simp add: to_vstate_def get_state_def check_daily_reset_def new_portfolio_def Let_def)
  have g: "account_leverage ?v ?p = Inr 100" "spread_gate ?v ?s = Inr True" "calendar_gate ?v ?s now = Inr True"
    "correlation_gate ?v ?s ?p BUY" "session_gate ?v 9 (4 / 5)"
    unfolding p by (simp_all add: account_leverage_def spread_gate_def calendar_gate_def correlation_gate_def
        session_gate_def sample_validator_def)
  have s: "normalise_direction (vs_direction ?s) = BUY" "vs_confidence ?s = Num (Fin (4 / 5))"
    "vs_stop_loss ?s = Num (Fin (119 / 100))" "vs_entry_price ?s = Num (Fin (6 / 5))" "vs_risk_reward ?s = Num (Fin 2)"
    "vs_suggested_lots ?s = Num (Fin (1 / 100))"
    by (simp_all add: to_vsignal_def demo_signal_def normalise_direction_def direction_of_def)
  show ?thesis
    using validate_finite_iff [of ?p 0 0 ?s "4 / 5" "119 / 100" "6 / 5" 2 1000 0 "1 / 100" ?v 100 True now True 9]
    by (simp add: g s c) (simp add: p sample_validator_def opt_get_def dec_ops num_eval)
qed

lemma demo_gates:
  assumes "en_portfolio en = new_portfolio ''d''" "en_rate en = new_rate_limiter 10"
    "en_validator en = sample_validator\<lparr>v_correlation := None, v_session := False\<rparr>"
  shows "\<exists>en'. final_gates demo_env demo_signal en = (Inr (Some demo_signal), en')"
proof -
  have a: "rl_allow 0 (new_rate_limiter 10) = (True, new_rate_limiter 10)"
    by (simp add: rl_allow_def rl_cleanup_def new_rate_limiter_def Let_def)
  have e: "ev_utc_hour demo_env = 9" "ev_rate_now demo_env = 0" "ev_today' demo_env = ''d''" by (simp_all add: demo_env_def)
  show ?thesis
    unfolding final_gates_def e using assms demo_validate a by (simp add: case_prod_beta Let_def)
qed


end
