(* ===== verification/Indicators.thy ===== *)
theory Indicators
  imports Extended_Decimals
begin

text \<open>
  \<open>algo_engine/features/technical.py\<close>: the indicator functions on lists of decimals, oldest first. A
  period is a natural number (the code treats a negative one as zero wherever it looks at the sign). The
  decorator answers every list with a NaN or infinite entry with a single zero, so the functions
  themselves are stated on finite decimals. \<open>x ** 2\<close> is taken to be correctly rounded.
\<close>

section \<open>The decorator\<close>

definition has_invalid_decimals :: "xdecimal list \<Rightarrow> bool" where
  "has_invalid_decimals values = list_ex is_special values"

fun finite_part :: "xdecimal \<Rightarrow> decimal" where
  "finite_part (Fin x) = x"
| "finite_part x = 0"

text \<open>
  \<open>validate_decimal_inputs\<close>: \<open>Inr None\<close> is the scalar \<open>ZERO\<close> it returns in place of the function's
  value (a tuple for many of them), for invalid inputs and for the two exceptions it swallows.
\<close>

definition decorated :: "'a result \<Rightarrow> 'a option result" where
  "decorated r =
     (case r of
        Inl InvalidOperation \<Rightarrow> Inr None
      | Inl ZeroDivisionError \<Rightarrow> Inr None
      | Inl e \<Rightarrow> Inl e
      | Inr v \<Rightarrow> Inr (Some v))"

definition validate_decimal_inputs ::
  "(decimal list list \<Rightarrow> 'a result) \<Rightarrow> xdecimal list list \<Rightarrow> 'a option result" where
  "validate_decimal_inputs f args =
     (if list_ex has_invalid_decimals args then Inr None else decorated (f (map (map finite_part) args)))"

lemma decorated_Inr [simp]: "decorated (Inr v) = Inr (Some v)"
  by (simp add: decorated_def)

section \<open>Moving averages\<close>

definition calculate_sma :: "decimal list \<Rightarrow> nat \<Rightarrow> decimal" where
  "calculate_sma values period =
     (if length values < period \<or> period = 0 then 0
      else dec_div (dec_sum (last_n period values)) (of_nat period))"

definition ema_multiplier :: "nat \<Rightarrow> decimal" where
  "ema_multiplier period = dec_div 2 (dec_add (of_nat period) 1)"

definition ema_step :: "decimal \<Rightarrow> decimal \<Rightarrow> decimal \<Rightarrow> decimal" where
  "ema_step multiplier ema v = dec_add (dec_mul v multiplier) (dec_mul ema (dec_sub 1 multiplier))"

definition calculate_ema :: "decimal list \<Rightarrow> nat \<Rightarrow> decimal" where
  "calculate_ema values period =
     (if length values < period \<or> period = 0 then 0
      else foldl (ema_step (ema_multiplier period)) (calculate_sma (take period values) period) (drop period values))"

definition calculate_dema :: "decimal list \<Rightarrow> nat \<Rightarrow> decimal" where
  "calculate_dema values period =
     (if length values < 2 * period \<or> period = 0 then 0
      else let ema1 = calculate_ema values period;
               ema_series = running (ema_step (ema_multiplier period)) (calculate_sma (take period values) period)
                              (drop period values)
           in if length ema_series < period then 0
              else dec_sub (dec_mul 2 ema1) (calculate_ema ema_series period))"

text \<open>Wilder's smoothing \<open>(avg * (period - 1) + x) / period\<close>.\<close>

definition wilder :: "nat \<Rightarrow> decimal \<Rightarrow> decimal \<Rightarrow> decimal" where
  "wilder period avg x =
     dec_div (dec_add (dec_mul avg (dec_sub (of_nat period) 1)) x) (of_nat period)"

section \<open>RSI and MACD\<close>

definition price_changes :: "decimal list \<Rightarrow> decimal list" where
  "price_changes closes = map2 dec_sub (tl closes) closes"

definition rsi_seed :: "nat \<Rightarrow> decimal list \<Rightarrow> decimal \<times> decimal" where
  "rsi_seed period changes =
     (dec_div (dec_sum (map (\<lambda>c. if 0 < c then c else 0) (take period changes))) (of_nat period),
      dec_div (dec_sum (map (\<lambda>c. if c < 0 then dec_abs c else 0) (take period changes))) (of_nat period))"

definition rsi_step :: "nat \<Rightarrow> decimal \<times> decimal \<Rightarrow> decimal \<Rightarrow> decimal \<times> decimal" where
  "rsi_step period gl change =
     (let current_gain = (if 0 < change then change else 0);
          current_loss = (if 0 < change then 0 else dec_abs change)
      in (wilder period (fst gl) current_gain, wilder period (snd gl) current_loss))"

definition rsi_value :: "decimal \<times> decimal \<Rightarrow> decimal" where
  "rsi_value gl =
     (if snd gl = 0 then 100
      else let rs = dec_div (fst gl) (snd gl) in dec_sub 100 (dec_div 100 (dec_add 1 rs)))"

definition calculate_rsi :: "decimal list \<Rightarrow> nat \<Rightarrow> decimal" where
  "calculate_rsi closes period =
     (if length closes < period + 1 \<or> period = 0 then 0
      else let changes = price_changes closes
           in rsi_value (foldl (rsi_step period) (rsi_seed period changes) (drop period changes)))"

definition calculate_rsi_series :: "decimal list \<Rightarrow> nat \<Rightarrow> decimal list" where
  "calculate_rsi_series closes period =
     (if length closes < period + 1 \<or> period = 0 then []
      else let changes = price_changes closes
           in map rsi_value (running (rsi_step period) (rsi_seed period changes) (drop period changes)))"

definition macd_values :: "decimal list \<Rightarrow> nat \<Rightarrow> nat \<Rightarrow> decimal list" where
  "macd_values closes fast_period slow_period =
     (let fast_mult = ema_multiplier fast_period; slow_mult = ema_multiplier slow_period;
          fast_ema = foldl (ema_step fast_mult) (calculate_sma (take fast_period closes) fast_period)
                       (drop fast_period (take slow_period closes));
          slow_ema = calculate_sma (take slow_period closes) slow_period
      in map (\<lambda>(f, s). dec_sub f s)
           (running (\<lambda>(f, s) v. (ema_step fast_mult f v, ema_step slow_mult s v)) (fast_ema, slow_ema)
              (drop slow_period closes)))"

definition calculate_macd :: "decimal list \<Rightarrow> nat \<Rightarrow> nat \<Rightarrow> nat \<Rightarrow> decimal \<times> decimal \<times> decimal" where
  "calculate_macd closes fast_period slow_period signal_period =
     (if length closes < slow_period + signal_period then (0, 0, 0)
      else let values = macd_values closes fast_period slow_period; current_macd = last values
           in if length values < signal_period then (current_macd, 0, current_macd)
              else let signal_line = calculate_ema values signal_period
                   in (current_macd, signal_line, dec_sub current_macd signal_line))"

section \<open>Square root and logarithm\<close>

fun newton_sqrt :: "nat \<Rightarrow> decimal \<Rightarrow> decimal \<Rightarrow> decimal" where
  "newton_sqrt 0 v x = x"
| "newton_sqrt (Suc n) v x = newton_sqrt n v (dec_div (dec_add x (dec_div v x)) 2)"

definition decimal_sqrt :: "decimal \<Rightarrow> decimal result" where
  "decimal_sqrt v = (if v < 0 then Inl ValueError else if v = 0 then Inr 0 else Inr (newton_sqrt 28 v v))"

definition LN2 :: decimal where
  "LN2 = 6931471805599453094172321215 / 10 ^ 28"

text \<open>Range reduction: the two loops with the exponent they count.\<close>

function halve_down :: "decimal \<Rightarrow> int \<Rightarrow> decimal \<times> int" where
  "halve_down r n = (if 2 < r then halve_down (dec_div r 2) (n + 1) else (r, n))"
  by pat_completeness auto

lemma halving_shrinks: "2 < r \<Longrightarrow> nat \<lfloor>dec_div r 2\<rfloor> < nat \<lfloor>r\<rfloor>"
proof -
  assume r: "2 < r"
  have "dec_div r 2 - r / 2 \<le> \<bar>r / 2\<bar> / 10" unfolding dec_div_def by (rule abs_le_D1 [OF dec_round_error])
  moreover have "\<bar>r / 2\<bar> = r / 2" using r by (intro abs_of_pos) linarith
  ultimately have le: "dec_div r 2 \<le> (11 / 20) * r" by linarith
  have "\<lfloor>dec_div r 2\<rfloor> < \<lfloor>r\<rfloor>"
  proof (cases "r < 3")
    case True
    have "dec_div r 2 < 2" using le True by linarith
    then have "\<lfloor>dec_div r 2\<rfloor> < 2" by (simp add: floor_less_iff)
    moreover have "2 \<le> \<lfloor>r\<rfloor>" using r by (simp add: le_floor_iff)
    ultimately show ?thesis by linarith
  next
    case False
    then have "dec_div r 2 \<le> r - 1" using le by linarith
    then have "\<lfloor>dec_div r 2\<rfloor> \<le> \<lfloor>r - 1\<rfloor>" by (rule floor_mono)
    then show ?thesis by simp
  qed
  moreover have "0 < \<lfloor>r\<rfloor>" using r by simp
  ultimately show ?thesis by (simp only: nat_mono_iff)
qed

termination halve_down
  by (relation "measure (\<lambda>(r, n). nat \<lfloor>r\<rfloor>)") (use halving_shrinks in auto)

declare halve_down.simps [simp del]

text \<open>The second loop never stops on a nonpositive value; the function is called on positive ones only.\<close>

function double_up :: "decimal \<Rightarrow> int \<Rightarrow> decimal \<times> int" where
  "double_up r n = (if 0 < r \<and> r < 1 / 2 then double_up (dec_mul r 2) (n - 1) else (r, n))"
  by pat_completeness auto

lemma doubling_grows:
  assumes "0 < r" "r < 1 / 2"
  shows "0 < dec_mul r 2" "nat \<lfloor>1 / dec_mul r 2\<rfloor> < nat \<lfloor>1 / r\<rfloor>"
proof -
  have "- (dec_mul r 2 - r * 2) \<le> \<bar>r * 2\<bar> / 10" unfolding dec_mul_def by (rule abs_le_D2 [OF dec_round_error])
  moreover have "\<bar>r * 2\<bar> = r * 2" using assms by (intro abs_of_pos) linarith
  ultimately have ge: "(18 / 10) * r \<le> dec_mul r 2" by linarith
  then show pos: "0 < dec_mul r 2" using assms by linarith
  have "1 / dec_mul r 2 \<le> 1 / ((18 / 10) * r)" using ge assms by (intro divide_left_mono) auto
  then have le: "1 / dec_mul r 2 \<le> (10 / 18) * (1 / r)" by simp
  have big: "2 < 1 / r" using assms by (simp add: pos_less_divide_eq)
  have "\<lfloor>1 / dec_mul r 2\<rfloor> < \<lfloor>1 / r\<rfloor>"
  proof (cases "1 / r < 3")
    case True
    have "1 / dec_mul r 2 < 2" using le True by linarith
    then have "\<lfloor>1 / dec_mul r 2\<rfloor> < 2" by (simp add: floor_less_iff)
    moreover have "2 \<le> \<lfloor>1 / r\<rfloor>" using big by (simp add: le_floor_iff)
    ultimately show ?thesis by linarith
  next
    case False
    then have "1 / dec_mul r 2 \<le> 1 / r - 1" using le by linarith
    then have "\<lfloor>1 / dec_mul r 2\<rfloor> \<le> \<lfloor>1 / r - 1\<rfloor>" by (rule floor_mono)
    then show ?thesis by simp
  qed
  moreover have "0 < \<lfloor>1 / r\<rfloor>" using big by simp
  ultimately show "nat \<lfloor>1 / dec_mul r 2\<rfloor> < nat \<lfloor>1 / r\<rfloor>" by (simp only: nat_mono_iff)
qed

termination double_up
  by (relation "measure (\<lambda>(r, n). nat \<lfloor>1 / r\<rfloor>)") (use doubling_grows in simp_all)

declare double_up.simps [simp del]

definition arctanh_step :: "decimal \<Rightarrow> decimal \<times> decimal \<Rightarrow> nat \<Rightarrow> decimal \<times> decimal" where
  "arctanh_step y_sq tr k =
     (let trm = dec_mul (fst tr) y_sq in (trm, dec_add (snd tr) (dec_div trm (of_nat (2 * k + 1)))))"

definition decimal_ln :: "nat \<Rightarrow> decimal \<Rightarrow> decimal" where
  "decimal_ln iterations v =
     (if v \<le> 0 then 0
      else let (reduced, n) = case_prod double_up (halve_down v 0);
               y = dec_div (dec_sub reduced 1) (dec_add reduced 1); y_sq = dec_mul y y;
               total = snd (foldl (arctanh_step y_sq) (y, y) [1..<iterations])
           in dec_add (dec_mul (of_int n) LN2) (dec_mul 2 total))"

section \<open>Channels\<close>

definition dec_sq :: "decimal \<Rightarrow> decimal" where
  "dec_sq x = dec_round (x * x)"

definition mean_square_deviation :: "decimal list \<Rightarrow> decimal \<Rightarrow> decimal \<Rightarrow> decimal" where
  "mean_square_deviation xs centre n = dec_div (dec_sum (map (\<lambda>v. dec_sq (dec_sub v centre)) xs)) n"

definition calculate_bollinger_bands ::
  "decimal list \<Rightarrow> nat \<Rightarrow> int \<Rightarrow> (decimal \<times> decimal \<times> decimal) result" where
  "calculate_bollinger_bands closes period num_std =
     (if length closes < period \<or> period = 0 then Inr (0, 0, 0)
      else let window = last_n period closes;
               middle = dec_div (dec_sum window) (of_nat period);
               variance = mean_square_deviation window middle (of_nat period)
           in rbind (decimal_sqrt variance) (\<lambda>std_dev.
                let width = dec_mul (of_int num_std) std_dev
                in Inr (dec_add middle width, middle, dec_sub middle width)))"

text \<open>A bar: high, low, close. Parallel lists are read up to the shortest.\<close>

type_synonym hlc = "decimal \<times> decimal \<times> decimal"

definition hlc_bars :: "decimal list \<Rightarrow> decimal list \<Rightarrow> decimal list \<Rightarrow> hlc list" where
  "hlc_bars highs lows closes = zip highs (zip lows closes)"

fun true_range :: "hlc \<Rightarrow> hlc \<Rightarrow> decimal" where
  "true_range (h0, l0, c0) (h, l, c) =
     max (max (dec_sub h l) (dec_abs (dec_sub h c0))) (dec_abs (dec_sub l c0))"

definition true_ranges :: "hlc list \<Rightarrow> decimal list" where
  "true_ranges bars = map2 true_range bars (tl bars)"

definition calculate_atr :: "decimal list \<Rightarrow> decimal list \<Rightarrow> decimal list \<Rightarrow> nat \<Rightarrow> decimal" where
  "calculate_atr highs lows closes period =
     (let bars = hlc_bars highs lows closes
      in if length bars < period + 1 \<or> period = 0 then 0
         else let trs = true_ranges bars
              in foldl (wilder period) (dec_div (dec_sum (take period trs)) (of_nat period)) (drop period trs))"

definition calculate_keltner_channels ::
  "decimal list \<Rightarrow> decimal list \<Rightarrow> decimal list \<Rightarrow> nat \<Rightarrow> nat \<Rightarrow> int \<Rightarrow> decimal \<times> decimal \<times> decimal" where
  "calculate_keltner_channels highs lows closes ema_period atr_period multiplier =
     (let middle = calculate_ema closes ema_period; atr = calculate_atr highs lows closes atr_period
      in if middle = 0 \<or> atr = 0 then (0, 0, 0)
         else let width = dec_mul (of_int multiplier) atr
              in (dec_add middle width, middle, dec_sub middle width))"

definition calculate_donchian_channels ::
  "decimal list \<Rightarrow> decimal list \<Rightarrow> nat \<Rightarrow> decimal \<times> decimal \<times> decimal" where
  "calculate_donchian_channels highs lows period =
     (if min (length highs) (length lows) < period \<or> period = 0 then (0, 0, 0)
      else let upper = Max (set (last_n period highs)); lower = Min (set (last_n period lows))
           in (upper, dec_div (dec_add upper lower) 2, lower))"

section \<open>Directional movement\<close>

fun plus_dm :: "hlc \<Rightarrow> hlc \<Rightarrow> decimal" where
  "plus_dm (h0, l0, c0) (h, l, c) =
     (let up_move = dec_sub h h0; down_move = dec_sub l0 l
      in if down_move < up_move \<and> 0 < up_move then up_move else 0)"

fun minus_dm :: "hlc \<Rightarrow> hlc \<Rightarrow> decimal" where
  "minus_dm (h0, l0, c0) (h, l, c) =
     (let up_move = dec_sub h h0; down_move = dec_sub l0 l
      in if up_move < down_move \<and> 0 < down_move then down_move else 0)"

record adx_state =
  smoothed_plus_dm :: decimal
  smoothed_minus_dm :: decimal
  smoothed_tr :: decimal
  dx_values :: "decimal list"

definition smooth :: "nat \<Rightarrow> decimal \<Rightarrow> decimal \<Rightarrow> decimal" where
  "smooth period s x = dec_add (dec_sub s (dec_div s (of_nat period))) x"

definition dx_of :: "decimal \<Rightarrow> decimal \<Rightarrow> decimal" where
  "dx_of plus_di minus_di =
     (let di_sum = dec_add plus_di minus_di
      in if di_sum = 0 then 0 else dec_mul (dec_div (dec_abs (dec_sub plus_di minus_di)) di_sum) 100)"

definition di_of :: "decimal \<Rightarrow> decimal \<Rightarrow> decimal" where
  "di_of dm tr = dec_mul (dec_div dm tr) 100"

fun adx_step :: "nat \<Rightarrow> adx_state \<Rightarrow> decimal \<times> decimal \<times> decimal \<Rightarrow> adx_state" where
  "adx_step period s (p, m, t) =
     (let sp = smooth period (smoothed_plus_dm s) p;
          sm = smooth period (smoothed_minus_dm s) m;
          st = smooth period (smoothed_tr s) t;
          s' = s\<lparr>smoothed_plus_dm := sp, smoothed_minus_dm := sm, smoothed_tr := st\<rparr>
      in if st = 0 then s' else s'\<lparr>dx_values := dx_values s @ [dx_of (di_of sp st) (di_of sm st)]\<rparr>)"

definition directional_moves :: "hlc list \<Rightarrow> (decimal \<times> decimal \<times> decimal) list" where
  "directional_moves bars = map2 (\<lambda>a b. (plus_dm a b, minus_dm a b, true_range a b)) bars (tl bars)"

definition adx_seed :: "(decimal \<times> decimal \<times> decimal) list \<Rightarrow> adx_state" where
  "adx_seed ms =
     \<lparr>smoothed_plus_dm = dec_sum (map fst ms), smoothed_minus_dm = dec_sum (map (fst \<circ> snd) ms),
      smoothed_tr = dec_sum (map (snd \<circ> snd) ms), dx_values = []\<rparr>"

definition calculate_adx ::
  "decimal list \<Rightarrow> decimal list \<Rightarrow> decimal list \<Rightarrow> nat \<Rightarrow> decimal \<times> decimal \<times> decimal" where
  "calculate_adx highs lows closes period =
     (let bars = hlc_bars highs lows closes
      in if length bars < 2 * period + 1 \<or> period = 0 then (0, 0, 0)
         else let ms = directional_moves bars;
                  s = foldl (adx_step period) (adx_seed (take period ms)) (drop period ms);
                  dxs = dx_values s
              in if length dxs < period then (0, 0, 0)
                 else let adx = foldl (wilder period) (dec_div (dec_sum (take period dxs)) (of_nat period))
                                  (drop period dxs)
                      in if smoothed_tr s = 0 then (adx, 0, 0)
                         else (adx, di_of (smoothed_plus_dm s) (smoothed_tr s),
                               di_of (smoothed_minus_dm s) (smoothed_tr s)))"

section \<open>Sums, means and smoothing keep their range\<close>

lemma dec_round_nat: "n < 10 ^ 28 \<Longrightarrow> dec_round (of_nat n) = of_nat n"
proof -
  assume "n < 10 ^ 28"
  then have "int n < int (10 ^ 28)" by (simp only: of_nat_less_iff)
  then show ?thesis by (intro dec_round_grid [where k = 0 and m = "int n"]) simp_all
qed

lemma dec_sum_append: "dec_sum (xs @ [x]) = dec_add (dec_sum xs) x"
  by (simp add: dec_sum_def)

lemma dec_sum_nonneg: "\<forall>x\<in>set xs. 0 \<le> x \<Longrightarrow> 0 \<le> dec_sum xs"
  unfolding dec_sum_def by (rule foldl_invariant [where P = "\<lambda>a. 0 \<le> a"]) (simp_all add: dec_add_nonneg)

lemma dec_sum_le:
  "\<forall>x\<in>set xs. x \<le> of_nat c \<Longrightarrow> c * length xs < 10 ^ 28 \<Longrightarrow> dec_sum xs \<le> of_nat (c * length xs)"
proof (induction xs rule: rev_induct)
  case (snoc x xs)
  then have "dec_sum xs \<le> of_nat (c * length xs)" "x \<le> of_nat c" by simp_all
  then have "dec_sum xs + x \<le> of_nat (c * length (xs @ [x]))" by (simp add: algebra_simps)
  then show ?case unfolding dec_sum_append dec_add_def by (rule dec.rnd_le [OF dec_round_nat [OF snoc.prems(2)]])
qed (simp add: dec_sum_def)

lemma mean_range:
  assumes "\<forall>x\<in>set xs. 0 \<le> x \<and> x \<le> of_nat c" "length xs = p" "0 < p" "c * p < 10 ^ 28"
  shows "0 \<le> dec_div (dec_sum xs) (of_nat p)" "dec_div (dec_sum xs) (of_nat p) \<le> of_nat c"
proof -
  have "0 \<le> dec_sum xs" using assms(1) by (intro dec_sum_nonneg) auto
  then show "0 \<le> dec_div (dec_sum xs) (of_nat p)" by (rule dec_div_nonneg) simp
  have "dec_sum xs \<le> of_nat (c * p)" using dec_sum_le [of xs c] assms by simp
  then have "dec_sum xs / of_nat p \<le> of_nat c" using assms(3) by (simp add: field_simps)
  moreover have "c \<le> c * p" using assms(3) by (cases p) simp_all
  then have "c < 10 ^ 28" using assms(4) by (rule le_less_trans)
  ultimately show "dec_div (dec_sum xs) (of_nat p) \<le> of_nat c"
    unfolding dec_div_def by (intro dec.rnd_le dec_round_nat)
qed

lemma wilder_nonneg:
  assumes "0 < p" "0 \<le> avg" "0 \<le> x"
  shows "0 \<le> wilder p avg x"
proof -
  have "0 \<le> dec_sub (of_nat p) 1" using assms(1) by (simp add: dec_sub_nonneg_iff)
  then show ?thesis using assms unfolding wilder_def by (intro dec_div_nonneg dec_add_nonneg dec_mul_nonneg) simp_all
qed

lemma wilder_le:
  assumes "0 < p" "0 \<le> avg" "avg \<le> of_nat c" "x \<le> of_nat c" "c * p < 10 ^ 28"
  shows "wilder p avg x \<le> of_nat c"
proof (cases "c = 0")
  case True
  then have "avg = 0" using assms by simp
  then show ?thesis using assms True
    by (simp add: wilder_def dec_mul_def dec_add_def dec_div_def dec.rnd_nonpos divide_nonpos_pos)
next
  case False
  have small: "m \<le> c * p \<Longrightarrow> dec_round (of_nat m) = of_nat m" for m
    using assms(5) by (intro dec_round_nat) (rule le_less_trans)
  have p: "p \<le> c * p" "c \<le> c * p" "c * (p - 1) \<le> c * p" using False assms(1) by simp_all
  have eq1: "dec_sub (of_nat p) 1 = of_nat (p - 1)"
    unfolding dec_sub_def using assms(1) small [OF order_trans [OF diff_le_self p(1)], of 1] by (simp add: of_nat_diff)
  have "avg * of_nat (p - 1) \<le> of_nat (c * (p - 1))" using assms by (simp add: mult_right_mono)
  then have "dec_mul avg (of_nat (p - 1)) \<le> of_nat (c * (p - 1))"
    unfolding dec_mul_def by (rule dec.rnd_le [OF small [OF p(3)]])
  then have "dec_mul avg (of_nat (p - 1)) + x \<le> of_nat (c * p)"
    using assms(1,4) by (cases p) (simp_all add: algebra_simps)
  then have "dec_add (dec_mul avg (of_nat (p - 1))) x \<le> of_nat (c * p)"
    unfolding dec_add_def by (rule dec.rnd_le [OF small [OF order_refl]])
  then have "dec_add (dec_mul avg (of_nat (p - 1))) x / of_nat p \<le> of_nat c"
    using assms(1) by (simp add: field_simps)
  then show ?thesis unfolding wilder_def eq1 unfolding dec_div_def by (rule dec.rnd_le [OF small [OF p(2)]])
qed

lemma wilder_fold_range:
  assumes "0 < p" "0 \<le> avg" "avg \<le> of_nat c" "\<forall>x\<in>set xs. 0 \<le> x \<and> x \<le> of_nat c" "c * p < 10 ^ 28"
  shows "0 \<le> foldl (wilder p) avg xs \<and> foldl (wilder p) avg xs \<le> of_nat c"
  by (rule foldl_invariant [where P = "\<lambda>a. 0 \<le> a \<and> a \<le> of_nat c"])
    (use assms in \<open>auto intro: wilder_nonneg wilder_le\<close>)

section \<open>RSI\<close>

lemma dec_abs_nonneg [simp]: "0 \<le> dec_abs x"
  by (simp add: dec_abs_def dec.rnd_nonneg)

lemma rsi_value_range:
  assumes "0 \<le> g" "0 \<le> l"
  shows "0 \<le> rsi_value (g, l) \<and> rsi_value (g, l) \<le> 100"
proof (cases "l = 0")
  case False
  let ?d = "dec_add 1 (dec_div g l)"
  have "0 \<le> dec_div g l" using assms by (rule dec_div_nonneg)
  then have d: "1 \<le> ?d" unfolding dec_add_def by (intro dec.rnd_ge) simp_all
  then have "100 / ?d \<le> 100" by (simp add: divide_le_eq)
  then have "dec_div 100 ?d \<le> 100" unfolding dec_div_def by (intro dec.rnd_le) (simp add: num_eval)
  moreover have "0 \<le> dec_div 100 ?d" using d by (intro dec_div_nonneg) simp_all
  ultimately show ?thesis using False
    by (simp add: rsi_value_def dec_sub_nonneg_iff) (simp add: dec_sub_def dec.rnd_le num_eval)
qed (simp add: rsi_value_def)

lemma rsi_seed_nonneg: "0 \<le> fst (rsi_seed p cs) \<and> 0 \<le> snd (rsi_seed p cs)"
  unfolding rsi_seed_def by (auto intro!: dec_div_nonneg dec_sum_nonneg)

lemma rsi_step_nonneg:
  "0 < p \<Longrightarrow> 0 \<le> fst gl \<and> 0 \<le> snd gl \<Longrightarrow> 0 \<le> fst (rsi_step p gl c) \<and> 0 \<le> snd (rsi_step p gl c)"
  unfolding rsi_step_def by (auto simp: Let_def intro!: wilder_nonneg)

lemma length_price_changes [simp]: "length (price_changes closes) = length closes - 1"
  by (simp add: price_changes_def)

text \<open>
  The RSI and its whole series stay inside \<open>[0, 100]\<close> for any closing prices and any period, whatever
  the rounding of the averages, the relative strength and the final quotient does.
\<close>

lemma rsi_in_range:
  shows rsi_range: "0 \<le> calculate_rsi closes period \<and> calculate_rsi closes period \<le> 100"
    and rsi_series_range: "\<forall>v\<in>set (calculate_rsi_series closes period). 0 \<le> v \<and> v \<le> 100"
proof -
  let ?P = "\<lambda>gl :: decimal \<times> decimal. 0 \<le> fst gl \<and> 0 \<le> snd gl"
  let ?cs = "price_changes closes"
  have val: "?P gl \<Longrightarrow> 0 \<le> rsi_value gl \<and> rsi_value gl \<le> 100" for gl
    using rsi_value_range [of "fst gl" "snd gl"] by simp
  show "0 \<le> calculate_rsi closes period \<and> calculate_rsi closes period \<le> 100"
  proof (cases "length closes < period + 1 \<or> period = 0")
    case False
    then have "?P (foldl (rsi_step period) (rsi_seed period ?cs) (drop period ?cs))"
      by (intro foldl_invariant [where P = ?P] rsi_seed_nonneg rsi_step_nonneg) simp_all
    then show ?thesis using val False by (simp add: calculate_rsi_def Let_def)
  qed (simp add: calculate_rsi_def)
  show "\<forall>v\<in>set (calculate_rsi_series closes period). 0 \<le> v \<and> v \<le> 100"
  proof (cases "length closes < period + 1 \<or> period = 0")
    case False
    then have "\<forall>gl\<in>set (running (rsi_step period) (rsi_seed period ?cs) (drop period ?cs)). ?P gl"
      by (intro running_invariant [where P = ?P] rsi_seed_nonneg rsi_step_nonneg) simp_all
    then show ?thesis using val False by (simp add: calculate_rsi_series_def Let_def)
  qed (auto simp: calculate_rsi_series_def)
qed

lemma running_nth: "i \<le> length xs \<Longrightarrow> running f a xs ! i = foldl f a (take i xs)"
  by (induction f a xs arbitrary: i rule: running.induct) (auto simp: nth_Cons take_Cons split: nat.splits)

lemma price_changes_take: "price_changes (take (i + 1) closes) = take i (price_changes closes)"
  unfolding price_changes_def by (rule nth_equalityI) (auto simp: nth_tl)

lemma rsi_series_nth:
  assumes "0 < period" "period \<le> i" "i < length closes"
  shows "length (calculate_rsi_series closes period) = length closes - period"
    and "calculate_rsi_series closes period ! (i - period) = calculate_rsi (take (i + 1) closes) period"
proof -
  let ?cs = "price_changes closes"
  have seed: "rsi_seed period (take i ?cs) = rsi_seed period ?cs"
    using assms(2) by (simp add: rsi_seed_def min_absorb2)
  have drp: "drop period (take i ?cs) = take (i - period) (drop period ?cs)"
    by (simp add: drop_take)
  show "length (calculate_rsi_series closes period) = length closes - period"
    using assms by (simp add: calculate_rsi_series_def Let_def)
  have "calculate_rsi_series closes period ! (i - period) =
        rsi_value (foldl (rsi_step period) (rsi_seed period ?cs) (take (i - period) (drop period ?cs)))"
    using assms by (simp add: calculate_rsi_series_def Let_def running_nth)
  also have "\<dots> = calculate_rsi (take (i + 1) closes) period"
    unfolding calculate_rsi_def price_changes_take Let_def seed drp using assms by simp
  finally show "calculate_rsi_series closes period ! (i - period) = calculate_rsi (take (i + 1) closes) period" .
qed

text \<open>
  C26. The two implementations of Wilder's RSI agree: the series has one value per bar from index
  \<open>period\<close> on, and its value at bar \<open>i\<close> is the RSI of the closes up to and including that bar.
\<close>

theorem rsi_series_pointwise:
  assumes "0 < period" "period \<le> i" "i < length closes"
  shows "length (calculate_rsi_series closes period) = length closes - period \<and>
    calculate_rsi_series closes period ! (i - period) = calculate_rsi (take (i + 1) closes) period"
  using rsi_series_nth [OF assms] by blast

theorem rsi_series_pointwise_witness:
  "calculate_rsi_series [10, 11, 10, 12] 2 ! 1 = calculate_rsi [10, 11, 10, 12] 2"
  using rsi_series_pointwise [of 2 3 "[10, 11, 10, 12]"] by (simp add: numeral_eq_Suc)

section \<open>True range, ATR and ADX\<close>

lemma true_range_nonneg: "0 \<le> true_range a b"
  by (cases a; cases b) (simp add: le_max_iff_disj)

lemma true_ranges_nonneg: "x \<in> set (true_ranges bars) \<Longrightarrow> 0 \<le> x"
  unfolding true_ranges_def by (auto simp: true_range_nonneg simp del: true_range.simps)

text \<open>The average true range is never negative, even on bars whose high is below their low.\<close>

lemma atr_nonneg: "0 \<le> calculate_atr highs lows closes period"
proof (cases "length (hlc_bars highs lows closes) < period + 1 \<or> period = 0")
  case False
  let ?trs = "true_ranges (hlc_bars highs lows closes)"
  have "0 \<le> foldl (wilder period) (dec_div (dec_sum (take period ?trs)) (of_nat period)) (drop period ?trs)"
    by (rule foldl_invariant [where P = "\<lambda>a. 0 \<le> a"])
      (use False in \<open>auto intro!: dec_div_nonneg dec_sum_nonneg wilder_nonneg
         dest!: in_set_takeD in_set_dropD true_ranges_nonneg\<close>)
  then show ?thesis using False by (simp add: calculate_atr_def Let_def)
qed (auto simp: calculate_atr_def)

definition adx_inv :: "adx_state \<Rightarrow> bool" where
  "adx_inv s \<longleftrightarrow>
     0 \<le> smoothed_plus_dm s \<and> dec_round (smoothed_plus_dm s) = smoothed_plus_dm s \<and>
     0 \<le> smoothed_minus_dm s \<and> dec_round (smoothed_minus_dm s) = smoothed_minus_dm s \<and>
     0 \<le> smoothed_tr s \<and> dec_round (smoothed_tr s) = smoothed_tr s \<and>
     (\<forall>d\<in>set (dx_values s). 0 \<le> d \<and> d \<le> 100)"

lemma dec_sum_rounded: "dec_round (dec_sum xs) = dec_sum xs"
  by (induction xs rule: rev_induct) (simp add: dec_sum_def, simp add: dec_sum_append dec_add_def dec.rnd_idem)

lemma smooth_nonneg:
  assumes "0 < p" "0 \<le> s" "dec_round s = s" "0 \<le> x"
  shows "0 \<le> smooth p s x" "dec_round (smooth p s x) = smooth p s x"
proof -
  have "s / of_nat p \<le> s" using assms by (simp add: divide_le_eq mult_le_cancel_left1)
  then have "dec_div s (of_nat p) \<le> s" unfolding dec_div_def by (rule dec.rnd_le [OF assms(3)])
  then show "0 \<le> smooth p s x" unfolding smooth_def using assms(4) by (intro dec_add_nonneg) (simp_all add: dec_sub_nonneg_iff)
  show "dec_round (smooth p s x) = smooth p s x" by (simp add: smooth_def dec_add_def dec.rnd_idem)
qed

lemma dx_of_range:
  assumes "0 \<le> p" "0 \<le> m"
  shows "0 \<le> dx_of p m \<and> dx_of p m \<le> 100"
proof (cases "dec_add p m = 0")
  case False
  let ?s = "dec_add p m" and ?d = "dec_abs (dec_sub p m)"
  have s: "0 < ?s" using False dec_add_nonneg [OF assms] by simp
  have "\<bar>p - m\<bar> \<le> p + m" using assms by linarith
  then have "dec_round \<bar>p - m\<bar> \<le> ?s" unfolding dec_add_def by (rule dec.rnd_mono)
  then have "?d \<le> ?s" by (simp add: dec_abs_def dec_sub_def dec.rnd_abs [symmetric] dec.rnd_idem)
  then have "?d / ?s \<le> 1" using s by (simp add: divide_le_eq)
  then have "dec_div ?d ?s \<le> 1" unfolding dec_div_def by (rule dec.rnd_le [OF dec_round_0_1(2)])
  moreover have "0 \<le> dec_div ?d ?s" using s by (intro dec_div_nonneg) simp_all
  ultimately have "0 \<le> dec_mul (dec_div ?d ?s) 100" "dec_mul (dec_div ?d ?s) 100 \<le> 100"
    unfolding dec_mul_def by (auto intro!: dec.rnd_nonneg dec.rnd_le simp: num_eval)
  then show ?thesis using False by (simp add: dx_of_def Let_def)
qed (simp add: dx_of_def)

lemma di_of_nonneg: "0 \<le> dm \<Longrightarrow> 0 \<le> tr \<Longrightarrow> 0 \<le> di_of dm tr"
  unfolding di_of_def by (intro dec_mul_nonneg dec_div_nonneg) simp_all

definition nonneg3 :: "decimal \<times> decimal \<times> decimal \<Rightarrow> bool" where
  "nonneg3 m \<longleftrightarrow> 0 \<le> fst m \<and> 0 \<le> fst (snd m) \<and> 0 \<le> snd (snd m)"

lemma directional_moves_nonneg: "m \<in> set (directional_moves bars) \<Longrightarrow> nonneg3 m"
proof -
  have "0 \<le> plus_dm a b" "0 \<le> minus_dm a b" for a b by (cases a; cases b; simp add: Let_def)+
  then show "m \<in> set (directional_moves bars) \<Longrightarrow> nonneg3 m"
    unfolding directional_moves_def nonneg3_def
    by (auto simp: true_range_nonneg simp del: true_range.simps plus_dm.simps minus_dm.simps)
qed

lemma adx_seed_inv: "\<forall>m\<in>set ms. nonneg3 m \<Longrightarrow> adx_inv (adx_seed ms)"
  unfolding adx_inv_def adx_seed_def nonneg3_def by (auto simp: dec_sum_rounded intro!: dec_sum_nonneg)

lemma adx_step_inv:
  assumes "0 < period" "adx_inv s" "nonneg3 m"
  shows "adx_inv (adx_step period s m)"
proof -
  obtain p q t where m: "m = (p, q, t)" by (cases m)
  have nn: "0 \<le> p" "0 \<le> q" "0 \<le> t" using assms(3) by (simp_all add: nonneg3_def m)
  have inv: "0 \<le> smoothed_plus_dm s" "dec_round (smoothed_plus_dm s) = smoothed_plus_dm s"
    "0 \<le> smoothed_minus_dm s" "dec_round (smoothed_minus_dm s) = smoothed_minus_dm s"
    "0 \<le> smoothed_tr s" "dec_round (smoothed_tr s) = smoothed_tr s"
    "\<forall>d\<in>set (dx_values s). 0 \<le> d \<and> d \<le> 100"
    using assms(2) by (simp_all add: adx_inv_def)
  note sm = smooth_nonneg [OF assms(1) inv(1,2) nn(1)] smooth_nonneg [OF assms(1) inv(3,4) nn(2)]
    smooth_nonneg [OF assms(1) inv(5,6) nn(3)]
  show ?thesis unfolding m using sm inv(7) by (auto simp: adx_inv_def Let_def intro!: dx_of_range di_of_nonneg)
qed

text \<open>
  The ADX is a strength between 0 and 100 for any prices, and the directional indices are never
  negative.
\<close>

theorem adx_in_range:
  assumes "100 * period < 10 ^ 28"
  shows "case calculate_adx highs lows closes period of
           (adx, plus_di, minus_di) \<Rightarrow> 0 \<le> adx \<and> adx \<le> 100 \<and> 0 \<le> plus_di \<and> 0 \<le> minus_di"
proof (cases "length (hlc_bars highs lows closes) < 2 * period + 1 \<or> period = 0")
  case False
  let ?ms = "directional_moves (hlc_bars highs lows closes)"
  define s where "s = foldl (adx_step period) (adx_seed (take period ?ms)) (drop period ?ms)"
  have "adx_inv s" unfolding s_def
    by (rule foldl_invariant [where P = adx_inv])
      (use False in \<open>auto intro!: adx_seed_inv adx_step_inv directional_moves_nonneg dest: in_set_takeD in_set_dropD\<close>)
  then have inv: "0 \<le> smoothed_plus_dm s" "0 \<le> smoothed_minus_dm s" "0 \<le> smoothed_tr s"
    and dx: "\<And>d. d \<in> set (dx_values s) \<Longrightarrow> 0 \<le> d \<and> d \<le> 100" by (auto simp: adx_inv_def)
  define adx where "adx = foldl (wilder period) (dec_div (dec_sum (take period (dx_values s))) (of_nat period))
                           (drop period (dx_values s))"
  have adx: "0 \<le> adx \<and> adx \<le> 100" if "\<not> length (dx_values s) < period"
  proof -
    have m: "0 \<le> dec_div (dec_sum (take period (dx_values s))) (of_nat period)"
      "dec_div (dec_sum (take period (dx_values s))) (of_nat period) \<le> of_nat 100"
      using mean_range [of "take period (dx_values s)" 100 period] dx that False assms
      by (auto dest!: in_set_takeD)
    show ?thesis using wilder_fold_range [OF _ m, of period "drop period (dx_values s)"] dx False assms
      unfolding adx_def by (auto dest!: in_set_dropD)
  qed
  show ?thesis using False adx inv unfolding calculate_adx_def Let_def
    by (simp add: s_def [symmetric] adx_def [symmetric] di_of_nonneg)
qed (auto simp: calculate_adx_def)

theorem adx_in_range_witness:
  "case calculate_adx [2, 3, 4] [1, 2, 3] [1, 3, 4] 1 of
     (adx, plus_di, minus_di) \<Rightarrow> 0 \<le> adx \<and> adx \<le> 100 \<and> 0 \<le> plus_di \<and> 0 \<le> minus_di"
  by (rule adx_in_range) simp

section \<open>Square root, logarithm and the bands\<close>

lemma newton_sqrt_pos: "0 < v \<Longrightarrow> 0 < x \<Longrightarrow> 0 < newton_sqrt n v x"
proof (induction n v x rule: newton_sqrt.induct)
  case (2 n v x)
  then have "0 < x + dec_div v x" by (intro add_pos_pos) (simp_all add: dec_div_pos_iff)
  then have "0 < dec_div (dec_add x (dec_div v x)) 2" by (simp add: dec_div_pos_iff dec_add_def dec.rnd_pos_iff)
  then show ?case using 2 by simp
qed simp

lemma decimal_sqrt_total: "0 \<le> v \<Longrightarrow> \<exists>y. decimal_sqrt v = Inr y \<and> 0 \<le> y"
  using newton_sqrt_pos [of v v 28] by (auto simp: decimal_sqrt_def)

lemma dec_round_half_power: "j \<le> 28 \<Longrightarrow> dec_round (1 / 2 ^ j) = 1 / 2 ^ j"
proof (rule dec_round_grid [where k = j and m = "5 ^ j"])
  show "1 / 2 ^ j * 10 ^ j = (of_int (5 ^ j) :: rat)"
    using power_mult_distrib [of "2 :: rat" 5 j] by simp
  assume "j \<le> 28"
  then have "(5 :: int) ^ j \<le> 5 ^ 28" by (rule power_increasing) simp
  then show "\<bar>5 ^ j\<bar> < (10 :: int) ^ 28" by simp
qed

lemma newton_sqrt_halves:
  "0 < v \<Longrightarrow> 1 / 2 ^ j \<le> x \<Longrightarrow> j + n \<le> 28 \<Longrightarrow> 1 / 2 ^ (j + n) \<le> newton_sqrt n v x"
proof (induction n v x arbitrary: j rule: newton_sqrt.induct)
  case (2 n v x)
  have x: "0 < x" using 2(3) by (rule less_le_trans [rotated]) simp
  then have "0 \<le> dec_div v x" using 2(2) by (intro dec_div_nonneg) simp_all
  then have "1 / 2 ^ j \<le> x + dec_div v x" using 2(3) by linarith
  then have "1 / 2 ^ j \<le> dec_add x (dec_div v x)"
    unfolding dec_add_def using 2(4) by (intro dec.rnd_ge dec_round_half_power) simp_all
  then have "1 / 2 ^ Suc j \<le> dec_add x (dec_div v x) / 2" by simp
  then have "1 / 2 ^ Suc j \<le> dec_div (dec_add x (dec_div v x)) 2"
    unfolding dec_div_def using 2(4) by (intro dec.rnd_ge dec_round_half_power) simp_all
  then show ?case using 2(1) [of "Suc j"] 2(2,4) by simp
qed simp

text \<open>
  Twenty-eight Newton steps from \<open>x = v\<close> do not reach the root of a small number: each step at most
  halves the estimate, so every root comes out at least \<open>2^-28\<close>, and for \<open>v < 2^-56\<close> it is strictly
  above the true root.
\<close>

theorem decimal_sqrt_floor:
  assumes "0 < v"
  shows "\<exists>y. decimal_sqrt v = Inr y \<and> 1 / 2 ^ 28 \<le> y \<and> (v < 1 / 2 ^ 56 \<longrightarrow> v < y * y)"
proof -
  let ?x = "dec_div (dec_add v (dec_div v v)) 2"
  have "1 \<le> v + dec_div v v" using assms by (simp add: dec_div_def)
  then have "1 \<le> dec_add v (dec_div v v)" unfolding dec_add_def by (rule dec.rnd_ge [OF dec_round_0_1(2)])
  then have "1 / 2 ^ 1 \<le> dec_add v (dec_div v v) / 2" by simp
  then have "1 / 2 ^ 1 \<le> ?x" unfolding dec_div_def by (intro dec.rnd_ge dec_round_half_power) simp_all
  then have "1 / 2 ^ (1 + 27) \<le> newton_sqrt 27 v ?x" by (rule newton_sqrt_halves [OF assms]) simp
  moreover have "newton_sqrt (Suc 27) v v = newton_sqrt 27 v ?x" by (rule newton_sqrt.simps)
  ultimately have "1 / 2 ^ (1 + 27) \<le> newton_sqrt 28 v v" by (simp only: Suc_numeral add_num_simps)
  moreover have "(1 :: nat) + 27 = 28" by simp
  ultimately have le: "1 / 2 ^ 28 \<le> newton_sqrt 28 v v" by (simp only:)
  have "v < y * y" if "v < 1 / 2 ^ 56" "1 / 2 ^ 28 \<le> y" for y :: rat
  proof -
    have "(1 / 2 ^ 28) * (1 / 2 ^ 28) \<le> y * y" using that(2) by (intro mult_mono order_trans [OF _ that(2)]) simp_all
    then show ?thesis using that(1) by simp
  qed
  then show ?thesis using le assms by (auto simp: decimal_sqrt_def)
qed

theorem decimal_sqrt_floor_witness:
  "\<exists>y. decimal_sqrt (1 / 10 ^ 18) = Inr y \<and> 1 / 2 ^ 28 \<le> y \<and> 1 / 10 ^ 18 < y * y"
  using decimal_sqrt_floor [of "1 / 10 ^ 18"] by auto

lemma halve_down_range: "0 < r \<Longrightarrow> 0 < fst (halve_down r n) \<and> fst (halve_down r n) \<le> 2"
  by (induction r n rule: halve_down.induct) (subst (1 2) halve_down.simps, auto simp: dec_div_pos_iff)

lemma double_up_range: "0 < r \<Longrightarrow> r \<le> 2 \<Longrightarrow> 1 / 2 \<le> fst (double_up r n) \<and> fst (double_up r n) \<le> 2"
proof (induction r n rule: double_up.induct)
  case (1 r n)
  show ?case
  proof (cases "r < 1 / 2")
    case True
    then have "dec_mul r 2 \<le> 2" unfolding dec_mul_def by (intro dec.rnd_le) (simp_all add: num_eval)
    then show ?thesis using 1 True doubling_grows(1) by (subst (1 2) double_up.simps) simp
  qed (use 1(3) in \<open>subst (1 2) double_up.simps, simp\<close>)
qed

text \<open>
  C27. The two \<open>while\<close> loops of \<open>_decimal_ln\<close> terminate on every positive argument, in spite of the rounding
  of each halving and doubling, and leave a reduced argument in \<open>[1/2, 2]\<close>, where the series converges.
\<close>

theorem range_reduction_terminates:
  assumes "0 < v"
  shows "case case_prod double_up (halve_down v 0) of (reduced, n) \<Rightarrow> 1 / 2 \<le> reduced \<and> reduced \<le> 2"
  using double_up_range [of "fst (halve_down v 0)" "snd (halve_down v 0)"] halve_down_range [OF assms, of 0]
  by (simp add: case_prod_beta)

theorem range_reduction_terminates_witness:
  "case case_prod double_up (halve_down 1000 0) of (reduced, n) \<Rightarrow> 1 / 2 \<le> reduced \<and> reduced \<le> 2"
  by (rule range_reduction_terminates) simp

definition ordered_channel :: "decimal \<times> decimal \<times> decimal \<Rightarrow> bool" where
  "ordered_channel ch = (case ch of (upper, middle, lower) \<Rightarrow> lower \<le> middle \<and> middle \<le> upper)"

lemma band_ordered:
  "dec_round m = m \<Longrightarrow> 0 \<le> w \<Longrightarrow> ordered_channel (dec_add m w, m, dec_sub m w)"
  unfolding ordered_channel_def dec_add_def dec_sub_def by (auto intro: dec.rnd_ge dec.rnd_le)

lemma mean_square_deviation_nonneg: "0 \<le> n \<Longrightarrow> 0 \<le> mean_square_deviation xs c n"
  unfolding mean_square_deviation_def by (intro dec_div_nonneg dec_sum_nonneg) (auto simp: dec_sq_def dec.rnd_nonneg)

lemma bollinger_total:
  assumes "0 \<le> num_std"
  shows "\<exists>ch. calculate_bollinger_bands closes period num_std = Inr ch \<and> ordered_channel ch"
proof (cases "length closes < period \<or> period = 0")
  case False
  let ?m = "dec_div (dec_sum (last_n period closes)) (of_nat period)"
  obtain y where y: "decimal_sqrt (mean_square_deviation (last_n period closes) ?m (of_nat period)) = Inr y" "0 \<le> y"
    using decimal_sqrt_total [OF mean_square_deviation_nonneg [OF of_nat_0_le_iff]] by blast
  have "ordered_channel (dec_add ?m (dec_mul (of_int num_std) y), ?m, dec_sub ?m (dec_mul (of_int num_std) y))"
    using assms y(2) by (intro band_ordered dec_mul_nonneg) (simp_all add: dec_div_def dec.rnd_idem)
  then show ?thesis using False y(1) by (simp add: calculate_bollinger_bands_def Let_def)
qed (auto simp: calculate_bollinger_bands_def ordered_channel_def)

lemma calculate_ema_rounded: "dec_round (calculate_ema values period) = calculate_ema values period"
proof -
  have "dec_round (foldl (ema_step k) a xs) = foldl (ema_step k) a xs" if "dec_round a = a" for k a xs
    using that by (rule foldl_invariant [where P = "\<lambda>a. dec_round a = a"]) (simp add: ema_step_def dec_add_def dec.rnd_idem)
  moreover have "dec_round (calculate_sma xs p) = calculate_sma xs p" for xs p
    by (simp add: calculate_sma_def dec_div_def dec.rnd_idem)
  ultimately show ?thesis by (simp add: calculate_ema_def)
qed

text \<open>The middle of two values whose doubles still fit 28 digits lies between them.\<close>

lemma midpoint_between:
  assumes "l \<le> u" "dec_round (2 * l) = 2 * l" "dec_round (2 * u) = 2 * u" "dec_round l = l" "dec_round u = u"
  shows "l \<le> dec_div (dec_add u l) 2" "dec_div (dec_add u l) 2 \<le> u"
proof -
  have "2 * l \<le> dec_add u l" "dec_add u l \<le> 2 * u"
    unfolding dec_add_def using assms(1) by (auto intro: dec.rnd_ge [OF assms(2)] dec.rnd_le [OF assms(3)])
  then show "l \<le> dec_div (dec_add u l) 2" "dec_div (dec_add u l) 2 \<le> u"
    unfolding dec_div_def using assms(4,5) by (auto intro: dec.rnd_ge dec.rnd_le)
qed

lemma donchian_ordered:
  assumes "\<And>i. i < length highs \<Longrightarrow> lows ! i \<le> highs ! i" "length highs = length lows"
    and "\<forall>x\<in>set highs \<union> set lows. dec_round x = x \<and> dec_round (2 * x) = 2 * x"
  shows "ordered_channel (calculate_donchian_channels highs lows period)"
proof (cases "min (length highs) (length lows) < period \<or> period = 0")
  case False
  let ?H = "set (last_n period highs)" and ?L = "set (last_n period lows)"
  let ?i = "length highs - period"
  have i: "highs ! ?i \<in> ?H" "lows ! ?i \<in> ?L"
    using False assms(2) by (auto simp: last_n_def in_set_conv_nth intro!: exI [of _ 0])
  have le: "Min ?L \<le> Max ?H" using False assms(1) [of ?i] i
    by (intro order_trans [OF Min_le [OF _ i(2)] order_trans [OF _ Max_ge [OF _ i(1)]]]) auto
  have "Min ?L \<in> set lows" "Max ?H \<in> set highs"
    using i Min_in [of ?L] Max_in [of ?H] set_last_n [of period lows] set_last_n [of period highs] by fastforce+
  then have "Min ?L \<le> dec_div (dec_add (Max ?H) (Min ?L)) 2" "dec_div (dec_add (Max ?H) (Min ?L)) 2 \<le> Max ?H"
    using midpoint_between [OF le] assms(3) by blast+
  then show ?thesis using False by (simp add: calculate_donchian_channels_def ordered_channel_def Let_def)
qed (auto simp: calculate_donchian_channels_def ordered_channel_def)

text \<open>
  Every price channel is ordered: the Bollinger bands with a nonnegative width never raise and have
  lower \<open>\<le>\<close> middle \<open>\<le>\<close> upper for any closes; so have the Keltner channels for any bars.
\<close>

theorem bands_ordered:
  assumes "0 \<le> k"
  shows "\<exists>ch. calculate_bollinger_bands closes period k = Inr ch \<and> ordered_channel ch"
    and "ordered_channel (calculate_keltner_channels highs lows closes ema_period atr_period k)"
proof -
  show "\<exists>ch. calculate_bollinger_bands closes period k = Inr ch \<and> ordered_channel ch"
    using assms by (rule bollinger_total)
  have "0 \<le> calculate_atr highs lows closes atr_period" by (rule atr_nonneg)
  then have "ordered_channel (dec_add (calculate_ema closes ema_period) (dec_mul (of_int k) (calculate_atr highs lows closes atr_period)),
      calculate_ema closes ema_period, dec_sub (calculate_ema closes ema_period) (dec_mul (of_int k) (calculate_atr highs lows closes atr_period)))"
    using assms by (intro band_ordered calculate_ema_rounded dec_mul_nonneg) simp_all
  then show "ordered_channel (calculate_keltner_channels highs lows closes ema_period atr_period k)"
    unfolding calculate_keltner_channels_def Let_def by (simp add: ordered_channel_def)
qed

theorem bands_ordered_witness:
  "\<exists>ch. calculate_bollinger_bands [10, 12, 11] 3 2 = Inr ch \<and> ordered_channel ch"
  using bands_ordered(1) [of 2 "[10, 12, 11]" 3] by simp

end
