(* ===== verification/Oscillators.thy ===== *)
theory Oscillators
  imports Indicators
begin

text \<open>
  The second half of \<open>algo_engine/features/technical.py\<close>: the windowed oscillators, the volume
  indicators, the parabolic SAR and the volatility estimators, followed by the ranges they stay in.
\<close>

section \<open>Windowed oscillators\<close>

definition stoch_k :: "decimal list \<Rightarrow> decimal list \<Rightarrow> decimal list \<Rightarrow> nat \<Rightarrow> nat \<Rightarrow> decimal" where
  "stoch_k highs lows closes k_period i =
     (let highest = Max (set (window_at k_period i highs)); lowest = Min (set (window_at k_period i lows));
          hl_range = dec_sub highest lowest
      in if hl_range = 0 then 50 else dec_mul (dec_div (dec_sub (closes ! i) lowest) hl_range) 100)"

definition calculate_stochastic ::
  "decimal list \<Rightarrow> decimal list \<Rightarrow> decimal list \<Rightarrow> nat \<Rightarrow> nat \<Rightarrow> decimal \<times> decimal" where
  "calculate_stochastic highs lows closes k_period d_period =
     (let n = min (length highs) (min (length lows) (length closes))
      in if n < k_period + d_period - 1 \<or> k_period = 0 \<or> d_period = 0 then (0, 0)
         else let k_values = map (stoch_k highs lows closes k_period) [k_period - 1..<n]
              in if length k_values < d_period then (0, 0)
                 else (last k_values, calculate_sma k_values d_period))"

definition calculate_williams_r ::
  "decimal list \<Rightarrow> decimal list \<Rightarrow> decimal list \<Rightarrow> nat \<Rightarrow> decimal" where
  "calculate_williams_r highs lows closes period =
     (if min (length highs) (min (length lows) (length closes)) < period \<or> period = 0 then 0
      else let highest = Max (set (last_n period highs)); lowest = Min (set (last_n period lows));
               hl_range = dec_sub highest lowest
           in if hl_range = 0 then - 50
              else dec_mul (dec_div (dec_sub highest (last closes)) hl_range) (- 100))"

definition calculate_roc :: "decimal list \<Rightarrow> nat \<Rightarrow> decimal" where
  "calculate_roc closes period =
     (if length closes < period + 1 \<or> period = 0 then 0
      else let old_close = closes ! (length closes - (period + 1))
           in if old_close = 0 then 0
              else dec_mul (dec_div (dec_sub (last closes) old_close) old_close) 100)"

fun typical_price :: "hlc \<Rightarrow> decimal" where
  "typical_price (h, l, c) = dec_div (dec_add (dec_add h l) c) 3"

definition calculate_cci :: "decimal list \<Rightarrow> decimal list \<Rightarrow> decimal list \<Rightarrow> nat \<Rightarrow> decimal" where
  "calculate_cci highs lows closes period =
     (let bars = hlc_bars highs lows closes
      in if length bars < period \<or> period = 0 then 0
         else let typical_prices = map typical_price (last_n period bars);
                  tp_sma = dec_div (dec_sum typical_prices) (of_nat period);
                  mean_dev = dec_div (dec_sum (map (\<lambda>tp. dec_abs (dec_sub tp tp_sma)) typical_prices)) (of_nat period)
              in if mean_dev = 0 then 0
                 else dec_div (dec_sub (last typical_prices) tp_sma) (dec_mul (15 / 1000) mean_dev))"

text \<open>
  The stochastic RSI. A window length of zero makes the loop start at index \<open>-1\<close> with an empty
  slice: \<open>min\<close> of it raises \<open>ValueError\<close>, its average \<open>0 / 0\<close> is an \<open>InvalidOperation\<close>.
\<close>

definition raw_stoch :: "decimal list \<Rightarrow> nat \<Rightarrow> nat \<Rightarrow> decimal" where
  "raw_stoch rsi_series stoch_period i =
     (let w = set (window_at stoch_period i rsi_series); rsi_range = dec_sub (Max w) (Min w)
      in if rsi_range = 0 then 100 else dec_mul (dec_div (dec_sub (rsi_series ! i) (Min w)) rsi_range) 100)"

definition window_mean :: "nat \<Rightarrow> decimal list \<Rightarrow> nat \<Rightarrow> decimal" where
  "window_mean k xs i = dec_div (dec_sum (window_at k i xs)) (of_nat k)"

definition calculate_stochastic_rsi ::
  "decimal list \<Rightarrow> nat \<Rightarrow> nat \<Rightarrow> nat \<Rightarrow> nat \<Rightarrow> (decimal \<times> decimal) result" where
  "calculate_stochastic_rsi closes rsi_period stoch_period smooth_k smooth_d =
     (let rsi_series = calculate_rsi_series closes rsi_period
      in if length rsi_series < stoch_period then Inr (0, 0)
         else if stoch_period = 0 then Inl ValueError
         else let raw = map (raw_stoch rsi_series stoch_period) [stoch_period - 1..<length rsi_series]
              in if length raw < smooth_k then Inr (0, 0)
                 else if smooth_k = 0 then Inl InvalidOperation
                 else let k_series = map (window_mean smooth_k raw) [smooth_k - 1..<length raw];
                          k_value = last k_series
                      in if k_series = [] then Inr (0, 0)
                         else if length k_series < smooth_d then Inr (k_value, 0)
                         else if smooth_d = 0 then Inl ZeroDivisionError
                         else Inr (k_value, dec_div (dec_sum (last_n smooth_d k_series)) (of_nat smooth_d)))"

fun buying_pressure :: "hlc \<Rightarrow> hlc \<Rightarrow> decimal \<times> decimal" where
  "buying_pressure (h0, l0, c0) (h, l, c) =
     (let true_low = min l c0; true_high = max h c0 in (dec_sub c true_low, dec_sub true_high true_low))"

text \<open>The slice \<open>xs[-0:]\<close> is the whole list.\<close>

definition avg_ratio :: "(decimal \<times> decimal) list \<Rightarrow> nat \<Rightarrow> decimal" where
  "avg_ratio bps period =
     (let w = (if period = 0 then bps else last_n period bps);
          bp_sum = dec_sum (map fst w); tr_sum = dec_sum (map snd w)
      in if tr_sum = 0 then 0 else dec_div bp_sum tr_sum)"

definition calculate_ultimate_oscillator ::
  "decimal list \<Rightarrow> decimal list \<Rightarrow> decimal list \<Rightarrow> nat \<Rightarrow> nat \<Rightarrow> nat \<Rightarrow> decimal" where
  "calculate_ultimate_oscillator highs lows closes period1 period2 period3 =
     (let bars = hlc_bars highs lows closes
      in if length bars < max (max period1 period2) period3 + 1 then 0
         else let bps = map2 buying_pressure bars (tl bars);
                  avg1 = avg_ratio bps period1; avg2 = avg_ratio bps period2; avg3 = avg_ratio bps period3
              in dec_div (dec_mul 100 (dec_add (dec_add (dec_mul 4 avg1) (dec_mul 2 avg2)) avg3)) 7)"

section \<open>Volume\<close>

definition obv_step :: "decimal \<Rightarrow> decimal \<times> decimal \<times> decimal \<Rightarrow> decimal" where
  "obv_step obv = (\<lambda>(prev_close, cl, vol).
     if prev_close < cl then dec_add obv vol else if cl < prev_close then dec_sub obv vol else obv)"

definition calculate_obv :: "decimal list \<Rightarrow> decimal list \<Rightarrow> decimal" where
  "calculate_obv closes volumes =
     (if min (length closes) (length volumes) < 2 then 0
      else foldl obv_step 0 (zip closes (zip (tl closes) (tl volumes))))"

definition vwap_step :: "decimal \<times> decimal \<Rightarrow> hlc \<times> decimal \<Rightarrow> decimal \<times> decimal" where
  "vwap_step t bv =
     (dec_add (fst t) (dec_mul (typical_price (fst bv)) (snd bv)), dec_add (snd t) (snd bv))"

definition calculate_vwap ::
  "decimal list \<Rightarrow> decimal list \<Rightarrow> decimal list \<Rightarrow> decimal list \<Rightarrow> decimal" where
  "calculate_vwap highs lows closes volumes =
     (let totals = foldl vwap_step (0, 0) (zip (hlc_bars highs lows closes) volumes)
      in if snd totals = 0 then 0 else dec_div (fst totals) (snd totals))"

fun mf_multiplier :: "hlc \<Rightarrow> decimal" where
  "mf_multiplier (h, l, c) = dec_div (dec_sub (dec_sub c l) (dec_sub h c)) (dec_sub h l)"

fun cmf_step :: "decimal \<times> decimal \<Rightarrow> hlc \<times> decimal \<Rightarrow> decimal \<times> decimal" where
  "cmf_step (total_mfv, total_vol) ((h, l, c), v) =
     (if dec_sub h l = 0 then (total_mfv, total_vol)
      else (dec_add total_mfv (dec_mul (mf_multiplier (h, l, c)) v), dec_add total_vol v))"

definition calculate_cmf ::
  "decimal list \<Rightarrow> decimal list \<Rightarrow> decimal list \<Rightarrow> decimal list \<Rightarrow> nat \<Rightarrow> decimal" where
  "calculate_cmf highs lows closes volumes period =
     (let bars = zip (hlc_bars highs lows closes) volumes
      in if length bars < period \<or> period = 0 then 0
         else let totals = foldl cmf_step (0, 0) (last_n period bars)
              in if snd totals = 0 then 0 else dec_div (fst totals) (snd totals))"

definition calculate_force_index :: "decimal list \<Rightarrow> decimal list \<Rightarrow> nat \<Rightarrow> decimal" where
  "calculate_force_index closes volumes period =
     (if min (length closes) (length volumes) < period + 1 \<or> period = 0 then 0
      else calculate_ema (map2 dec_mul (price_changes closes) (tl volumes)) period)"

section \<open>Parabolic SAR\<close>

record sar_state =
  is_bullish :: bool
  sar_value :: decimal
  ep :: decimal
  af :: decimal

definition sar_start :: "decimal \<Rightarrow> decimal list \<Rightarrow> decimal list \<Rightarrow> sar_state" where
  "sar_start af_start highs lows =
     (if highs ! 0 < highs ! 1 \<or> lows ! 0 < lows ! 1
      then \<lparr>is_bullish = True, sar_value = lows ! 0, ep = highs ! 0, af = af_start\<rparr>
      else \<lparr>is_bullish = False, sar_value = highs ! 0, ep = lows ! 0, af = af_start\<rparr>)"

text \<open>The next stop, kept on the far side of the last two bars.\<close>

definition next_sar :: "decimal list \<Rightarrow> decimal list \<Rightarrow> sar_state \<Rightarrow> nat \<Rightarrow> decimal" where
  "next_sar highs lows s i =
     (let raw = dec_add (sar_value s) (dec_mul (af s) (dec_sub (ep s) (sar_value s)))
      in if is_bullish s
         then if 2 \<le> i then min (min raw (lows ! (i - 1))) (lows ! (i - 2)) else min raw (lows ! (i - 1))
         else if 2 \<le> i then max (max raw (highs ! (i - 1))) (highs ! (i - 2)) else max raw (highs ! (i - 1)))"

definition sar_step ::
  "decimal \<times> decimal \<times> decimal \<Rightarrow> decimal list \<Rightarrow> decimal list \<Rightarrow> sar_state \<Rightarrow> nat \<Rightarrow> sar_state" where
  "sar_step params highs lows s i =
     (let (af_start, af_inc, af_max) = params; high_i = highs ! i; low_i = lows ! i;
          new_sar = next_sar highs lows s i
      in if is_bullish s
         then if low_i < new_sar
              then \<lparr>is_bullish = False, sar_value = ep s, ep = low_i, af = af_start\<rparr>
              else let s' = s\<lparr>sar_value := new_sar\<rparr>
                   in if ep s < high_i then s'\<lparr>ep := high_i, af := min (dec_add (af s) af_inc) af_max\<rparr> else s'
         else if new_sar < high_i
              then \<lparr>is_bullish = True, sar_value = ep s, ep = high_i, af = af_start\<rparr>
              else let s' = s\<lparr>sar_value := new_sar\<rparr>
                   in if low_i < ep s then s'\<lparr>ep := low_i, af := min (dec_add (af s) af_inc) af_max\<rparr> else s')"

definition calculate_parabolic_sar ::
  "decimal list \<Rightarrow> decimal list \<Rightarrow> decimal \<times> decimal \<times> decimal \<Rightarrow> decimal \<times> string" where
  "calculate_parabolic_sar highs lows params =
     (let n = min (length highs) (length lows)
      in if n < 2 then (0, ''unknown'')
         else let s = foldl (sar_step params highs lows) (sar_start (fst params) highs lows) [1..<n]
              in (sar_value s, if is_bullish s then ''bullish'' else ''bearish''))"

section \<open>Volatility\<close>

text \<open>The early \<open>return ZERO\<close> of the loops on a nonpositive price is a test of the window up front.\<close>

definition calculate_historical_volatility :: "decimal list \<Rightarrow> nat \<Rightarrow> int \<Rightarrow> decimal result" where
  "calculate_historical_volatility closes period annualization =
     (if length closes < period + 1 \<or> period = 0 then Inr 0
      else let w = last_n (period + 1) closes
           in if list_ex (\<lambda>c. c \<le> 0) w then Inr 0
              else let log_returns = map2 (\<lambda>prev c. decimal_ln 50 (dec_div c prev)) w (tl w);
                       mean = dec_div (dec_sum log_returns) (of_nat period);
                       variance = mean_square_deviation log_returns mean (of_nat period)
                   in if variance \<le> 0 then Inr 0
                      else rbind (decimal_sqrt variance) (\<lambda>std_dev.
                           rbind (decimal_sqrt (of_int annualization)) (\<lambda>a. Inr (dec_mul std_dev a))))"

definition calculate_parkinson_volatility ::
  "decimal list \<Rightarrow> decimal list \<Rightarrow> nat \<Rightarrow> int \<Rightarrow> decimal result" where
  "calculate_parkinson_volatility highs lows period annualization =
     (let bars = zip highs lows
      in if length bars < period \<or> period = 0 then Inr 0
         else let w = last_n period bars
              in if list_ex (\<lambda>(h, l). l \<le> 0 \<or> h \<le> 0) w then Inr 0
                 else let sum_ln_sq = dec_sum (map (\<lambda>(h, l).
                            let ln_ratio = decimal_ln 50 (dec_div h l) in dec_mul ln_ratio ln_ratio) w);
                          denominator = dec_mul (dec_mul 4 (of_nat period)) LN2
                      in if denominator = 0 then Inr 0
                         else let daily_var = dec_div sum_ln_sq denominator
                              in if daily_var \<le> 0 then Inr 0
                                 else rbind (decimal_sqrt daily_var) (\<lambda>d.
                                      rbind (decimal_sqrt (of_int annualization)) (\<lambda>a. Inr (dec_mul d a))))"

section \<open>Ranges\<close>

text \<open>A ratio of at most one in percent, and where a value lies between two bounds.\<close>

lemma percent_range:
  assumes "0 \<le> x" "x \<le> 1"
  shows "0 \<le> dec_mul x 100 \<and> dec_mul x 100 \<le> 100" "- 100 \<le> dec_mul x (- 100) \<and> dec_mul x (- 100) \<le> 0"
proof -
  show r: "0 \<le> dec_mul x 100 \<and> dec_mul x 100 \<le> 100"
    unfolding dec_mul_def using assms by (auto intro!: dec.rnd_nonneg dec.rnd_le simp: num_eval)
  have "dec_mul x (- 100) = - dec_mul x 100" by (simp add: dec_mul_def dec.rnd_minus)
  then show "- 100 \<le> dec_mul x (- 100) \<and> dec_mul x (- 100) \<le> 0" using r by simp
qed

lemma position_in_range:
  assumes "a \<le> c" "c \<le> b"
  shows "0 \<le> dec_mul (dec_div (dec_sub c a) (dec_sub b a)) 100"
    and "dec_mul (dec_div (dec_sub c a) (dec_sub b a)) 100 \<le> 100"
proof -
  have le: "0 \<le> dec_sub c a" "dec_sub c a \<le> dec_sub b a" using assms by (auto simp: dec_sub_nonneg_iff intro: dec_sub_mono)
  have "0 \<le> dec_div (dec_sub c a) (dec_sub b a)" using le by (intro dec_div_nonneg) auto
  moreover have "dec_div (dec_sub c a) (dec_sub b a) \<le> 1"
    unfolding dec_div_def by (rule dec.rnd_le) (use le in \<open>auto simp: divide_le_eq_1\<close>)
  ultimately show "0 \<le> dec_mul (dec_div (dec_sub c a) (dec_sub b a)) 100"
    "dec_mul (dec_div (dec_sub c a) (dec_sub b a)) 100 \<le> 100"
    using percent_range(1) by blast+
qed

text \<open>Bars as a market produces them: the close lies between the low and the high.\<close>

definition bars_ok :: "decimal list \<Rightarrow> decimal list \<Rightarrow> decimal list \<Rightarrow> bool" where
  "bars_ok highs lows closes \<longleftrightarrow>
     length highs = length closes \<and> length lows = length closes \<and>
     list_all (\<lambda>(h, l, c). l \<le> c \<and> c \<le> h) (hlc_bars highs lows closes)"

lemma bars_ok_nth:
  assumes "bars_ok highs lows closes" "i < length closes"
  shows "lows ! i \<le> closes ! i" "closes ! i \<le> highs ! i"
  using assms by (auto simp: bars_ok_def hlc_bars_def list_all_length)

lemma window_extremes:
  assumes "0 < k" "k \<le> i + 1" "i < length xs"
  shows "Min (set (window_at k i xs)) \<le> xs ! i" "xs ! i \<le> Max (set (window_at k i xs))"
  using nth_in_window_at [OF assms] by (auto intro: Min_le Max_ge)

lemma last_n_window: "0 < k \<Longrightarrow> k \<le> length xs \<Longrightarrow> last_n k xs = window_at k (length xs - 1) xs"
  by (simp add: last_n_def window_at_def)

lemma stoch_k_range:
  assumes "bars_ok highs lows closes" "0 < k" "k \<le> i + 1" "i < length closes"
  shows "0 \<le> stoch_k highs lows closes k i \<and> stoch_k highs lows closes k i \<le> 100"
proof -
  have len: "length highs = length closes" "length lows = length closes" using assms(1) by (simp_all add: bars_ok_def)
  have "Min (set (window_at k i lows)) \<le> closes ! i" "closes ! i \<le> Max (set (window_at k i highs))"
    using window_extremes(1) [of k i lows] window_extremes(2) [of k i highs] bars_ok_nth [OF assms(1,4)] assms(2-4) len
    by (auto intro: order_trans)
  then show ?thesis using position_in_range by (simp add: stoch_k_def Let_def)
qed

lemma sma_range:
  assumes "\<forall>x\<in>set xs. 0 \<le> x \<and> x \<le> 100" "100 * p < 10 ^ 28"
  shows "0 \<le> calculate_sma xs p \<and> calculate_sma xs p \<le> 100"
proof (cases "length xs < p \<or> p = 0")
  case False
  then show ?thesis using mean_range [of "last_n p xs" 100 p] assms set_last_n [of p xs]
    by (auto simp: calculate_sma_def)
qed (simp add: calculate_sma_def)

lemma oscillator_ranges:
  assumes "bars_ok highs lows closes" "100 * d_period < 10 ^ 28"
  shows "case calculate_stochastic highs lows closes k_period d_period of
           (k, d) \<Rightarrow> 0 \<le> k \<and> k \<le> 100 \<and> 0 \<le> d \<and> d \<le> 100"
    and "- 100 \<le> calculate_williams_r highs lows closes period \<and> calculate_williams_r highs lows closes period \<le> 0"
proof -
  have len: "length highs = length closes" "length lows = length closes" using assms(1) by (simp_all add: bars_ok_def)
  let ?ks = "map (stoch_k highs lows closes k_period) [k_period - 1..<length closes]"
  show "case calculate_stochastic highs lows closes k_period d_period of
          (k, d) \<Rightarrow> 0 \<le> k \<and> k \<le> 100 \<and> 0 \<le> d \<and> d \<le> 100"
  proof (cases "length closes < k_period + d_period - 1 \<or> k_period = 0 \<or> d_period = 0 \<or> length ?ks < d_period")
    case False
    then have r: "\<forall>x\<in>set ?ks. 0 \<le> x \<and> x \<le> 100" using stoch_k_range [OF assms(1), of k_period] by auto
    have "?ks \<noteq> []" using False by auto
    then have "last ?ks \<in> set ?ks" by (rule last_in_set)
    then show ?thesis using r sma_range [OF r assms(2)] False len
      by (simp add: calculate_stochastic_def Let_def del: set_map last_map)
  qed (auto simp: calculate_stochastic_def Let_def len)
  show "- 100 \<le> calculate_williams_r highs lows closes period \<and> calculate_williams_r highs lows closes period \<le> 0"
  proof (cases "length closes < period \<or> period = 0")
    case False
    let ?i = "length closes - 1"
    let ?a = "Min (set (last_n period lows))" and ?b = "Max (set (last_n period highs))"
    have i: "?i < length closes" "0 < period" "period \<le> ?i + 1" using False by linarith+
    have w: "last_n period lows = window_at period ?i lows" "last_n period highs = window_at period ?i highs"
      using last_n_window [of period lows] last_n_window [of period highs] False len by simp_all
    have "?a \<le> closes ! ?i" "closes ! ?i \<le> ?b" unfolding w
      using order_trans [OF window_extremes(1) [of period ?i lows] bars_ok_nth(1) [OF assms(1) i(1)]]
        order_trans [OF bars_ok_nth(2) [OF assms(1) i(1)] window_extremes(2) [of period ?i highs]] i len by simp_all
    moreover have "closes ! ?i = last closes" using False by (subst last_conv_nth) auto
    ultimately have le: "0 \<le> dec_sub ?b (last closes)" "dec_sub ?b (last closes) \<le> dec_sub ?b ?a"
      by (auto simp: dec_sub_nonneg_iff intro: dec_sub_mono)
    have "0 \<le> dec_div (dec_sub ?b (last closes)) (dec_sub ?b ?a)" using le by (intro dec_div_nonneg) auto
    moreover have "dec_div (dec_sub ?b (last closes)) (dec_sub ?b ?a) \<le> 1"
      unfolding dec_div_def by (rule dec.rnd_le) (use le in \<open>auto simp: divide_le_eq_1\<close>)
    ultimately have "- 100 \<le> dec_mul (dec_div (dec_sub ?b (last closes)) (dec_sub ?b ?a)) (- 100) \<and>
      dec_mul (dec_div (dec_sub ?b (last closes)) (dec_sub ?b ?a)) (- 100) \<le> 0"
      by (rule percent_range(2))
    then show ?thesis using False len by (simp add: calculate_williams_r_def Let_def)
  qed (simp add: calculate_williams_r_def len)
qed

text \<open>
  On bars whose close lies between low and high, the oscillators stay on their documented scales: the
  stochastic \<open>%K\<close> and \<open>%D\<close> in \<open>[0, 100]\<close> and Williams \<open>%R\<close> in \<open>[-100, 0]\<close>, rounding included.
\<close>

theorem oscillators_in_range:
  assumes "bars_ok highs lows closes" "100 * d_period < 10 ^ 28"
  shows "(case calculate_stochastic highs lows closes k_period d_period of
            (k, d) \<Rightarrow> 0 \<le> k \<and> k \<le> 100 \<and> 0 \<le> d \<and> d \<le> 100) \<and>
    - 100 \<le> calculate_williams_r highs lows closes period \<and> calculate_williams_r highs lows closes period \<le> 0"
  by (rule conjI [OF oscillator_ranges(1) [OF assms] oscillator_ranges(2) [OF assms]])

theorem oscillators_in_range_witness:
  "- 100 \<le> calculate_williams_r [3, 4, 5] [1, 2, 3] [2, 3, 5] 2 \<and> calculate_williams_r [3, 4, 5] [1, 2, 3] [2, 3, 5] 2 \<le> 0"
  using oscillators_in_range [of "[3, 4, 5]" "[1, 2, 3]" "[2, 3, 5]" 1] by (simp add: bars_ok_def hlc_bars_def)

lemma raw_stoch_range:
  assumes "0 < k" "k \<le> i + 1" "i < length rs"
  shows "0 \<le> raw_stoch rs k i \<and> raw_stoch rs k i \<le> 100"
  using position_in_range [OF window_extremes [OF assms]] by (simp add: raw_stoch_def Let_def)

lemma window_mean_range:
  assumes "\<forall>x\<in>set xs. 0 \<le> x \<and> x \<le> 100" "0 < k" "k \<le> i + 1" "i < length xs" "100 * k < 10 ^ 28"
  shows "0 \<le> window_mean k xs i \<and> window_mean k xs i \<le> 100"
proof -
  have "length (window_at k i xs) = k" using assms(2-4) by (simp add: window_at_def)
  then show ?thesis using mean_range [of "window_at k i xs" 100 k] assms set_window_at [of k i xs]
    by (auto simp: window_mean_def)
qed

text \<open>
  The stochastic RSI of positive window lengths never raises and both of its lines stay in \<open>[0, 100]\<close>,
  whatever the closes.
\<close>

lemma stochastic_rsi_total:
  assumes "0 < stoch_period" "0 < smooth_k" "0 < smooth_d" "100 * smooth_k < 10 ^ 28" "100 * smooth_d < 10 ^ 28"
  shows "\<exists>k d. calculate_stochastic_rsi closes rsi_period stoch_period smooth_k smooth_d = Inr (k, d) \<and>
           0 \<le> k \<and> k \<le> 100 \<and> 0 \<le> d \<and> d \<le> 100"
proof -
  let ?rs = "calculate_rsi_series closes rsi_period"
  define raw where "raw = map (raw_stoch ?rs stoch_period) [stoch_period - 1..<length ?rs]"
  define ks where "ks = map (window_mean smooth_k raw) [smooth_k - 1..<length raw]"
  show ?thesis
  proof (cases "length ?rs < stoch_period \<or> length raw < smooth_k")
    case False
    have raw: "\<forall>x\<in>set raw. 0 \<le> x \<and> x \<le> 100"
      unfolding raw_def using raw_stoch_range [of stoch_period _ ?rs] assms(1) by auto
    have ks: "\<forall>x\<in>set ks. 0 \<le> x \<and> x \<le> 100"
      unfolding ks_def using window_mean_range [OF raw assms(2) _ _ assms(4)] by auto
    have ne: "ks \<noteq> []" using False assms(2) by (auto simp: ks_def)
    then have k: "0 \<le> last ks" "last ks \<le> 100" using ks last_in_set by auto
    have d: "0 \<le> dec_div (dec_sum (last_n smooth_d ks)) (of_nat smooth_d)"
      "dec_div (dec_sum (last_n smooth_d ks)) (of_nat smooth_d) \<le> 100" if "\<not> length ks < smooth_d"
      using sma_range [OF ks assms(5)] that assms(3) by (simp_all add: calculate_sma_def)
    show ?thesis using False assms(1-3) ne k d
      unfolding calculate_stochastic_rsi_def Let_def raw_def [symmetric] ks_def [symmetric] by simp
  qed (use assms in \<open>auto simp: calculate_stochastic_rsi_def Let_def raw_def\<close>)
qed

lemma mf_multiplier_range:
  assumes "l \<le> c" "c \<le> h" "dec_sub h l \<noteq> 0"
  shows "\<bar>mf_multiplier (h, l, c)\<bar> \<le> 1"
proof -
  have le: "0 \<le> dec_sub c l" "dec_sub c l \<le> dec_sub h l" "0 \<le> dec_sub h c" "dec_sub h c \<le> dec_sub h l"
    using assms by (auto simp: dec_sub_nonneg_iff intro: dec_sub_mono)
  then have pos: "0 < dec_sub h l" using assms(3) by linarith
  have "dec_round (dec_sub h l) = dec_sub h l" by (simp add: dec_sub_def dec.rnd_idem)
  moreover have "\<bar>dec_sub c l - dec_sub h c\<bar> \<le> dec_sub h l" using le by linarith
  ultimately have "\<bar>dec_sub (dec_sub c l) (dec_sub h c)\<bar> \<le> dec_sub h l"
    unfolding dec_sub_def [of "dec_sub c l"] by (rule dec.rnd_abs_le)
  then have "\<bar>dec_sub (dec_sub c l) (dec_sub h c) / dec_sub h l\<bar> \<le> 1" using pos by (simp add: abs_divide)
  then show ?thesis unfolding mf_multiplier.simps dec_div_def by (rule dec.rnd_abs_le [OF dec_round_0_1(2)])
qed

lemma cmf_step_bound:
  assumes "\<bar>m\<bar> \<le> t" "l \<le> c" "c \<le> h" "0 \<le> v" "dec_round v = v"
  shows "\<bar>fst (cmf_step (m, t) ((h, l, c), v))\<bar> \<le> snd (cmf_step (m, t) ((h, l, c), v))"
proof (cases "dec_sub h l = 0")
  case False
  have "\<bar>mf_multiplier (h, l, c)\<bar> * v \<le> 1 * v" using mf_multiplier_range [OF assms(2,3) False] assms(4) by (rule mult_right_mono)
  then have "\<bar>mf_multiplier (h, l, c) * v\<bar> \<le> v" using assms(4) by (simp add: abs_mult)
  then have "\<bar>dec_mul (mf_multiplier (h, l, c)) v\<bar> \<le> v" unfolding dec_mul_def by (rule dec.rnd_abs_le [OF assms(5)])
  then have "\<bar>m + dec_mul (mf_multiplier (h, l, c)) v\<bar> \<le> t + v" using assms(1) by linarith
  then have "dec_round \<bar>m + dec_mul (mf_multiplier (h, l, c)) v\<bar> \<le> dec_round (t + v)" by (rule dec.rnd_mono)
  then show ?thesis using False by (simp add: dec_add_def dec.rnd_abs del: mf_multiplier.simps)
qed (use assms in simp)

text \<open>
  The Chaikin money flow is in \<open>[-1, 1]\<close> (the code says "approximately") on bars whose close lies
  between low and high, with nonnegative volumes of at most 28 digits.
\<close>

theorem cmf_in_range:
  assumes "bars_ok highs lows closes" "\<forall>v\<in>set volumes. 0 \<le> v \<and> dec_round v = v"
  shows "\<bar>calculate_cmf highs lows closes volumes period\<bar> \<le> 1"
proof -
  let ?bars = "zip (hlc_bars highs lows closes) volumes"
  have ok: "l \<le> c \<and> c \<le> h \<and> 0 \<le> v \<and> dec_round v = v" if "((h, l, c), v) \<in> set ?bars" for h l c v
    using that assms set_zip_leftD set_zip_rightD unfolding bars_ok_def list_all_iff by fastforce
  let ?P = "\<lambda>t :: decimal \<times> decimal. \<bar>fst t\<bar> \<le> snd t"
  have P: "?P (foldl cmf_step (0, 0) (last_n period ?bars))"
  proof (rule foldl_invariant [where P = ?P])
    fix a x assume a: "?P a" and x: "x \<in> set (last_n period ?bars)"
    obtain h l c v where e: "x = ((h, l, c), v)" by (cases x) auto
    have "((h, l, c), v) \<in> set ?bars" using x set_last_n [of period ?bars] unfolding e by blast
    from ok [OF this] show "?P (cmf_step a x)"
      using cmf_step_bound [of "fst a" "snd a" l c h v] a unfolding e by (simp only: prod.collapse)
  qed simp
  have "\<bar>dec_div m t\<bar> \<le> 1" if "\<bar>m\<bar> \<le> t" "t \<noteq> 0" for m t
  proof -
    have "0 < t" using that by linarith
    then have "\<bar>m / t\<bar> \<le> 1" using that by (simp add: abs_divide)
    then show ?thesis unfolding dec_div_def by (rule dec.rnd_abs_le [OF dec_round_0_1(2)])
  qed
  then show ?thesis using P by (simp add: calculate_cmf_def Let_def)
qed

theorem cmf_in_range_witness: "\<bar>calculate_cmf [3, 4] [1, 2] [2, 4] [100, 200] 2\<bar> \<le> 1"
  by (rule cmf_in_range) (simp_all add: bars_ok_def hlc_bars_def num_eval)

lemma dec_sum_mono: "list_all2 (\<le>) xs ys \<Longrightarrow> dec_sum xs \<le> dec_sum ys"
proof (induction xs arbitrary: ys rule: rev_induct)
  case (snoc x xs)
  then obtain y ys' where "ys = ys' @ [y]" "list_all2 (\<le>) xs ys'" "x \<le> y" by (auto simp: list_all2_append1 list_all2_Cons1)
  then show ?case using snoc.IH by (simp add: dec_sum_append dec_add_mono)
qed simp

lemma buying_pressure_le:
  assumes "c \<le> h" "l \<le> c"
  shows "0 \<le> fst (buying_pressure b (h, l, c)) \<and> fst (buying_pressure b (h, l, c)) \<le> snd (buying_pressure b (h, l, c))"
  using assms by (cases b) (auto simp: Let_def dec_sub_nonneg_iff min_def max_def intro!: dec_sub_mono)

lemma avg_ratio_range:
  assumes "\<forall>b\<in>set bps. 0 \<le> fst b \<and> fst b \<le> snd b"
  shows "0 \<le> avg_ratio bps period \<and> avg_ratio bps period \<le> 1"
proof -
  define w where "w = (if period = 0 then bps else last_n period bps)"
  have w: "\<forall>b\<in>set w. 0 \<le> fst b \<and> fst b \<le> snd b" using assms set_last_n [of period bps] by (auto simp: w_def)
  then have "list_all2 (\<le>) (map fst w) (map snd w)" by (auto simp: list_all2_map1 list_all2_map2 list.rel_refl_strong)
  then have le: "dec_sum (map fst w) \<le> dec_sum (map snd w)" by (rule dec_sum_mono)
  have nn: "0 \<le> dec_sum (map fst w)" using w by (intro dec_sum_nonneg) auto
  have "dec_div (dec_sum (map fst w)) (dec_sum (map snd w)) \<le> 1" if "dec_sum (map snd w) \<noteq> 0"
    unfolding dec_div_def by (rule dec.rnd_le) (use le nn that in \<open>auto simp: divide_le_eq_1\<close>)
  moreover have "0 \<le> dec_div (dec_sum (map fst w)) (dec_sum (map snd w))" using le nn by (intro dec_div_nonneg) auto
  ultimately show ?thesis by (simp add: avg_ratio_def Let_def w_def [symmetric])
qed

lemma ultimate_oscillator_in_range:
  assumes "bars_ok highs lows closes"
  shows "0 \<le> calculate_ultimate_oscillator highs lows closes p1 p2 p3 \<and>
         calculate_ultimate_oscillator highs lows closes p1 p2 p3 \<le> 100"
proof -
  let ?bars = "hlc_bars highs lows closes"
  define bps where "bps = map2 buying_pressure ?bars (tl ?bars)"
  have "0 \<le> fst b \<and> fst b \<le> snd b" if "b \<in> set bps" for b
  proof -
    have "b \<in> (\<lambda>(x, y). buying_pressure x y) ` set (zip ?bars (tl ?bars))" using that by (simp only: bps_def set_map)
    then obtain b0 x where x: "b = buying_pressure b0 x" "(b0, x) \<in> set (zip ?bars (tl ?bars))" by fast
    obtain h l c where "x = (h, l, c)" by (cases x)
    note b = x [unfolded this]
    then have "(h, l, c) \<in> set ?bars" using set_zip_rightD [OF b(2)] by (cases ?bars) auto
    then have "l \<le> c \<and> c \<le> h" using assms by (auto simp: bars_ok_def list_all_iff)
    then show ?thesis unfolding b(1) by (intro buying_pressure_le) simp_all
  qed
  then have r: "0 \<le> avg_ratio bps p \<and> avg_ratio bps p \<le> 1" for p by (intro avg_ratio_range) auto
  let ?u = "dec_add (dec_add (dec_mul 4 (avg_ratio bps p1)) (dec_mul 2 (avg_ratio bps p2))) (avg_ratio bps p3)"
  have four: "dec_mul 4 (avg_ratio bps p1) \<le> 4" "dec_mul 2 (avg_ratio bps p2) \<le> 2"
    unfolding dec_mul_def using r [of p1] r [of p2] by (auto intro!: dec.rnd_le simp: num_eval)
  then have "dec_add (dec_mul 4 (avg_ratio bps p1)) (dec_mul 2 (avg_ratio bps p2)) \<le> 6"
    unfolding dec_add_def by (intro dec.rnd_le) (simp_all add: num_eval)
  then have "?u \<le> 7" unfolding dec_add_def [of _ "avg_ratio bps p3"] using r [of p3]
    by (intro dec.rnd_le) (simp_all add: num_eval)
  then have "dec_mul 100 ?u \<le> 700" unfolding dec_mul_def [of 100] by (intro dec.rnd_le) (simp_all add: num_eval)
  then have "dec_div (dec_mul 100 ?u) 7 \<le> 100" unfolding dec_div_def by (intro dec.rnd_le) (simp_all add: num_eval)
  moreover have "0 \<le> dec_div (dec_mul 100 ?u) 7" using r by (intro dec_div_nonneg dec_mul_nonneg dec_add_nonneg) auto
  ultimately show ?thesis by (simp add: calculate_ultimate_oscillator_def Let_def bps_def [symmetric])
qed

section \<open>Parabolic SAR\<close>

lemma sar_step_af:
  fixes s :: sar_state
  assumes "af_start \<le> af s" "af s \<le> af_max" "0 \<le> af_inc" "dec_round af_start = af_start" "af_start \<le> af_max"
  shows "af_start \<le> af (sar_step (af_start, af_inc, af_max) highs lows s i)"
    and "af (sar_step (af_start, af_inc, af_max) highs lows s i) \<le> af_max"
proof -
  have "af_start \<le> dec_add (af s) af_inc" unfolding dec_add_def using assms(1,3,4) by (intro dec.rnd_ge) auto
  then show "af_start \<le> af (sar_step (af_start, af_inc, af_max) highs lows s i)"
    "af (sar_step (af_start, af_inc, af_max) highs lows s i) \<le> af_max"
    using assms by (simp_all add: sar_step_def Let_def)
qed

lemma sar_step_side:
  fixes s :: sar_state
  assumes "is_bullish (sar_step params highs lows s i) = is_bullish s"
  shows "if is_bullish s then sar_value (sar_step params highs lows s i) \<le> min (lows ! i) (lows ! (i - 1))
         else max (highs ! i) (highs ! (i - 1)) \<le> sar_value (sar_step params highs lows s i)"
proof -
  have "is_bullish s \<Longrightarrow> next_sar highs lows s i \<le> lows ! (i - 1)"
    "\<not> is_bullish s \<Longrightarrow> highs ! (i - 1) \<le> next_sar highs lows s i"
    by (auto simp: next_sar_def Let_def)
  then show ?thesis using assms by (cases params) (auto simp: sar_step_def Let_def split: if_splits)
qed

text \<open>
  The acceleration factor of the parabolic SAR stays between its start and its maximum over any price
  history, and after every bar that does not reverse the trend the stop is on the far side of the last
  two bars: below both lows in an uptrend, above both highs in a downtrend.
\<close>

theorem parabolic_sar_invariant:
  fixes highs lows af_start af_inc af_max
  defines "step \<equiv> sar_step (af_start, af_inc, af_max) highs lows"
  assumes "af_start \<le> af_max" "0 \<le> af_inc" "dec_round af_start = af_start"
  shows "let s = foldl step (sar_start af_start highs lows) bars
         in af_start \<le> af s \<and> af s \<le> af_max \<and>
            (is_bullish (step s i) = is_bullish s \<longrightarrow>
              (if is_bullish s then sar_value (step s i) \<le> min (lows ! i) (lows ! (i - 1))
               else max (highs ! i) (highs ! (i - 1)) \<le> sar_value (step s i)))"
proof -
  have "af_start \<le> af (foldl step (sar_start af_start highs lows) bars) \<and>
        af (foldl step (sar_start af_start highs lows) bars) \<le> af_max"
    unfolding step_def by (rule foldl_invariant [where P = "\<lambda>s :: sar_state. af_start \<le> af s \<and> af s \<le> af_max"])
      (use assms in \<open>auto simp: sar_start_def intro: sar_step_af\<close>)
  then show ?thesis unfolding Let_def step_def using sar_step_side by blast
qed

theorem parabolic_sar_invariant_witness:
  "let s = foldl (sar_step (2 / 100, 2 / 100, 20 / 100) [2, 3, 4] [1, 2, 3]) (sar_start (2 / 100) [2, 3, 4] [1, 2, 3]) [1, 2]
   in 2 / 100 \<le> af s \<and> af s \<le> 20 / 100"
  using parabolic_sar_invariant [of "2 / 100" "20 / 100" "2 / 100" "[2, 3, 4]" "[1, 2, 3]" "[1, 2]" 2]
  by (simp add: Let_def num_eval)

end
