(* ===== verification/Feature_Pipeline.thy ===== *)
theory Feature_Pipeline
  imports Oscillators Market_Types
begin

text \<open>
  \<open>algo_engine/features/pipeline.py\<close>: the indicator dictionary of one symbol, computed from its bars.
  The dictionary is split by the type of its values; its keys are those of the code. The optional macro
  features of \<open>compute_features_with_macro\<close> are not used by the engine and are left out.
\<close>

section \<open>State\<close>

record fdict =
  fd_symbol :: string
  fd_bar_count :: nat
  fd_timestamp :: int
  fd_num :: features
  fd_str :: "string \<rightharpoonup> string"
  fd_flag :: "string \<rightharpoonup> bool"

record feature_pipeline =
  rsi_period :: nat
  ema_fast_period :: nat
  ema_slow_period :: nat
  sma_period :: nat
  bb_period :: nat
  atr_period :: nat
  adx_period :: nat
  stoch_k_period :: nat
  stoch_d_period :: nat
  donchian_period :: nat
  cci_period :: nat
  volume_sma_period :: nat
  sma_long_period :: nat
  dema_period :: nat
  keltner_ema_period :: nat
  keltner_atr_period :: nat
  keltner_multiplier :: int
  cmf_period :: nat
  stoch_rsi_period :: nat
  uo_periods :: "nat \<times> nat \<times> nat"
  hist_vol_period :: nat
  parkinson_vol_period :: nat
  force_index_period :: nat
  atr_history :: "string \<rightharpoonup> decimal list"

text \<open>The constructor with the five periods that its callers set; the others keep their defaults.\<close>

definition new_feature_pipeline :: "nat \<Rightarrow> nat \<Rightarrow> nat \<Rightarrow> nat \<Rightarrow> nat \<Rightarrow> feature_pipeline" where
  "new_feature_pipeline rsi ema_fast ema_slow bb atr =
     \<lparr>rsi_period = rsi, ema_fast_period = ema_fast, ema_slow_period = ema_slow, sma_period = 20, bb_period = bb,
      atr_period = atr, adx_period = 14, stoch_k_period = 14, stoch_d_period = 3, donchian_period = 20,
      cci_period = 20, volume_sma_period = 20, sma_long_period = 200, dema_period = 20, keltner_ema_period = 20,
      keltner_atr_period = 14, keltner_multiplier = 2, cmf_period = 20, stoch_rsi_period = 14,
      uo_periods = (7, 14, 28), hist_vol_period = 20, parkinson_vol_period = 20, force_index_period = 13,
      atr_history = Map.empty\<rparr>"

section \<open>Calling a decorated indicator\<close>

text \<open>
  On finite lists. A swallowed exception becomes the scalar \<open>ZERO\<close>; where the caller unpacks a tuple that
  is a \<open>TypeError\<close>.
\<close>

definition unpack :: "'a result \<Rightarrow> 'a result" where
  "unpack r = rbind (decorated r) (\<lambda>v. case v of None \<Rightarrow> Inl TypeError | Some t \<Rightarrow> Inr t)"

definition scalar :: "decimal result \<Rightarrow> decimal result" where
  "scalar r = rbind (decorated r) (\<lambda>v. Inr (opt_get v 0))"

lemma unpack_Inr [simp]: "unpack (Inr v) = Inr v"
  by (simp add: unpack_def)

lemma scalar_Inr [simp]: "scalar (Inr v) = Inr v"
  by (simp add: scalar_def)

section \<open>Groups of entries\<close>

definition channel_entries :: "string \<Rightarrow> decimal \<times> decimal \<times> decimal \<Rightarrow> (string \<times> decimal) list" where
  "channel_entries pre ch =
     (case ch of (upper, middle, lower) \<Rightarrow>
        [(pre @ ''_upper'', upper), (pre @ ''_middle'', middle), (pre @ ''_lower'', lower)])"

definition trend_entries :: "feature_pipeline \<Rightarrow> decimal list \<Rightarrow> (string \<times> decimal) list" where
  "trend_entries p closes =
     (let (macd_line, signal_line, histogram) =
            calculate_macd closes (ema_fast_period p) (ema_slow_period p) 9
      in [(''rsi'', calculate_rsi closes (rsi_period p)),
          (''ema_fast'', calculate_ema closes (ema_fast_period p)),
          (''ema_slow'', calculate_ema closes (ema_slow_period p)),
          (''sma'', calculate_sma closes (sma_period p)),
          (''macd_line'', macd_line), (''macd_signal'', signal_line), (''macd_histogram'', histogram)])"

definition bollinger_entries :: "decimal \<Rightarrow> decimal \<times> decimal \<times> decimal \<Rightarrow> (string \<times> decimal) list" where
  "bollinger_entries last_close ch =
     (case ch of (bb_upper, bb_middle, bb_lower) \<Rightarrow>
        let ok = (bb_upper \<noteq> 0 \<and> bb_lower \<noteq> 0 \<and> bb_middle \<noteq> 0); bb_range = dec_sub bb_upper bb_lower
        in channel_entries ''bb'' ch @
           [(''bb_width'', if ok then dec_div bb_range bb_middle else 0),
            (''bb_pct_b'', if ok \<and> bb_range \<noteq> 0 then dec_div (dec_sub last_close bb_lower) bb_range else 0)])"

definition atr_sma_update :: "string \<Rightarrow> decimal \<Rightarrow> feature_pipeline \<Rightarrow> decimal \<times> feature_pipeline" where
  "atr_sma_update symbol atr p =
     (if 0 < atr
      then let h = deque_append 20 (opt_get (atr_history p symbol) []) atr
           in (dec_div (dec_sum h) (of_nat (length h)), p\<lparr>atr_history := (atr_history p)(symbol \<mapsto> h)\<rparr>)
      else (0, p))"

definition range_entries ::
  "feature_pipeline \<Rightarrow> decimal list \<Rightarrow> decimal list \<Rightarrow> decimal list \<Rightarrow> decimal list \<Rightarrow> (string \<times> decimal) list" where
  "range_entries p highs lows closes volumes =
     (let (adx, plus_di, minus_di) = calculate_adx highs lows closes (adx_period p);
          (k, d) = calculate_stochastic highs lows closes (stoch_k_period p) (stoch_d_period p)
      in [(''adx'', adx), (''plus_di'', plus_di), (''minus_di'', minus_di), (''stoch_k'', k), (''stoch_d'', d),
          (''obv'', calculate_obv closes volumes)] @
         channel_entries ''donchian'' (calculate_donchian_channels highs lows (donchian_period p)) @
         [(''williams_r'', calculate_williams_r highs lows closes 14),
          (''roc'', calculate_roc closes 10),
          (''cci'', calculate_cci highs lows closes (cci_period p))])"

definition phase_d_entries ::
  "feature_pipeline \<Rightarrow> decimal list \<Rightarrow> decimal list \<Rightarrow> decimal list \<Rightarrow> decimal list \<Rightarrow>
   (string \<times> decimal) list result" where
  "phase_d_entries p highs lows closes volumes =
     rbind (unpack (calculate_stochastic_rsi closes (rsi_period p) (stoch_rsi_period p) 3 3)) (\<lambda>(sk, sd).
     rbind (scalar (calculate_historical_volatility closes (hist_vol_period p) 252)) (\<lambda>hv.
     rbind (scalar (calculate_parkinson_volatility highs lows (parkinson_vol_period p) 252)) (\<lambda>pv.
       Inr ([(''dema'', calculate_dema closes (dema_period p))] @
            channel_entries ''keltner''
              (calculate_keltner_channels highs lows closes (keltner_ema_period p) (keltner_atr_period p)
                 (keltner_multiplier p)) @
            [(''parabolic_sar'', fst (calculate_parabolic_sar highs lows (2 / 100, 2 / 100, 20 / 100))),
             (''vwap'', calculate_vwap highs lows closes volumes),
             (''cmf'', calculate_cmf highs lows closes volumes (cmf_period p)),
             (''stoch_rsi_k'', sk), (''stoch_rsi_d'', sd),
             (''ultimate_osc'', (case uo_periods p of (p1, p2, p3) \<Rightarrow>
                calculate_ultimate_oscillator highs lows closes p1 p2 p3)),
             (''hist_vol'', hv), (''parkinson_vol'', pv),
             (''force_index'', calculate_force_index closes volumes (force_index_period p)),
             (''sma_200'', calculate_sma closes (sma_long_period p))]))))"

definition volume_ratio :: "feature_pipeline \<Rightarrow> decimal list \<Rightarrow> decimal" where
  "volume_ratio p volumes =
     (let vol_sma = calculate_sma volumes (volume_sma_period p)
      in if vol_sma = 0 then 0 else dec_div (last volumes) vol_sma)"

definition ema_trend :: "decimal \<Rightarrow> decimal \<Rightarrow> string" where
  "ema_trend fast slow =
     (if fast \<noteq> 0 \<and> slow \<noteq> 0
      then if slow < fast then ''bullish'' else if fast < slow then ''bearish'' else ''neutral''
      else ''unknown'')"

section \<open>compute\_features\<close>

definition atr_percent :: "decimal \<Rightarrow> decimal \<Rightarrow> decimal result" where
  "atr_percent atr last_close =
     (if atr = 0 then Inr 0 else rbind (dec_div_checked atr last_close) (\<lambda>q. Inr (dec_mul q 100)))"

definition numeric_entries ::
  "feature_pipeline \<Rightarrow> ohlcv list \<Rightarrow> decimal \<times> decimal \<times> decimal \<Rightarrow> decimal \<Rightarrow> decimal \<Rightarrow> (string \<times> decimal) list \<Rightarrow>
   (string \<times> decimal) list" where
  "numeric_entries p bars bb atr_sma atr_pct phase_d =
     (let closes = map bar_close bars; highs = map bar_high bars; lows = map bar_low bars; volumes = map bar_volume bars
      in [(''latest_close'', bar_close (last bars)), (''latest_high'', bar_high (last bars)),
          (''latest_low'', bar_low (last bars))] @
         trend_entries p closes @ bollinger_entries (bar_close (last bars)) bb @
         [(''atr'', calculate_atr highs lows closes (atr_period p)), (''atr_sma'', atr_sma), (''atr_pct'', atr_pct)] @
         range_entries p highs lows closes volumes @ phase_d @
         [(''volume_ratio'', volume_ratio p volumes)])"

definition text_entries :: "feature_pipeline \<Rightarrow> ohlcv list \<Rightarrow> string \<rightharpoonup> string" where
  "text_entries p bars =
     [''parabolic_sar_trend'' \<mapsto>
        snd (calculate_parabolic_sar (map bar_high bars) (map bar_low bars) (2 / 100, 2 / 100, 20 / 100)),
      ''ema_trend'' \<mapsto>
        ema_trend (calculate_ema (map bar_close bars) (ema_fast_period p)) (calculate_ema (map bar_close bars) (ema_slow_period p))]"

definition compute_features ::
  "string \<Rightarrow> ohlcv list \<Rightarrow> feature_pipeline \<Rightarrow> fdict option result \<times> feature_pipeline" where
  "compute_features symbol bars p =
     (if bars = [] then (Inr None, p)
      else let closes = map bar_close bars; highs = map bar_high bars; lows = map bar_low bars;
               volumes = map bar_volume bars
           in case unpack (calculate_bollinger_bands closes (bb_period p) 2) of
                Inl e \<Rightarrow> (Inl e, p)
              | Inr bb \<Rightarrow>
                  let atr = calculate_atr highs lows closes (atr_period p); (atr_sma, p') = atr_sma_update symbol atr p
                  in (rbind (atr_percent atr (bar_close (last bars))) (\<lambda>atr_pct.
                      rbind (phase_d_entries p highs lows closes volumes) (\<lambda>phase_d.
                        Inr (Some
                          \<lparr>fd_symbol = symbol, fd_bar_count = length bars, fd_timestamp = bar_timestamp (last bars),
                           fd_num = map_of (numeric_entries p bars bb atr_sma atr_pct phase_d),
                           fd_str = text_entries p bars, fd_flag = Map.empty\<rparr>))), p'))"

section \<open>What the dictionary holds\<close>

lemma historical_volatility_total: "\<exists>v. calculate_historical_volatility closes period 252 = Inr v"
proof -
  obtain a where "decimal_sqrt 252 = Inr a" using decimal_sqrt_total [of 252] by auto
  moreover have "0 < v \<Longrightarrow> \<exists>y. decimal_sqrt v = Inr y" for v using decimal_sqrt_total [of v] by auto
  ultimately show ?thesis by (auto simp: calculate_historical_volatility_def Let_def not_le)
qed

lemma parkinson_volatility_total: "\<exists>v. calculate_parkinson_volatility highs lows period 252 = Inr v"
proof -
  obtain a where "decimal_sqrt 252 = Inr a" using decimal_sqrt_total [of 252] by auto
  moreover have "0 < v \<Longrightarrow> \<exists>y. decimal_sqrt v = Inr y" for v using decimal_sqrt_total [of v] by auto
  ultimately show ?thesis by (auto simp: calculate_parkinson_volatility_def Let_def not_le)
qed

lemma stochastic_rsi_default:
  assumes "0 < stoch_period"
  obtains k d where "calculate_stochastic_rsi closes rp stoch_period 3 3 = Inr (k, d)"
    "0 \<le> k" "k \<le> 100" "0 \<le> d" "d \<le> 100"
  using assms stochastic_rsi_total [of stoch_period 3 3 closes rp] by auto

lemma phase_d_total:
  assumes "0 < stoch_rsi_period p"
  shows "\<exists>es. phase_d_entries p highs lows closes volumes = Inr es"
proof -
  obtain k d where "calculate_stochastic_rsi closes (rsi_period p) (stoch_rsi_period p) 3 3 = Inr (k, d)"
    using stochastic_rsi_default [OF assms] by blast
  then show ?thesis using historical_volatility_total [of closes "hist_vol_period p"]
      parkinson_volatility_total [of highs lows "parkinson_vol_period p"]
    by (auto simp: phase_d_entries_def)
qed

lemma atr_percent_total: "c \<noteq> 0 \<Longrightarrow> \<exists>q. atr_percent atr c = Inr q"
  by (simp add: atr_percent_def dec_div_checked_def)

lemma compute_features_shape:
  assumes "bars \<noteq> []" "bar_close (last bars) \<noteq> 0" "0 < stoch_rsi_period p"
  obtains fd bb a q es where "fst (compute_features symbol bars p) = Inr (Some fd)" "ordered_channel bb"
    "fd_num fd = map_of (numeric_entries p bars bb a q es)" "fd_str fd = text_entries p bars"
    "phase_d_entries p (map bar_high bars) (map bar_low bars) (map bar_close bars) (map bar_volume bars) = Inr es"
proof -
  let ?c = "map bar_close bars" and ?h = "map bar_high bars" and ?l = "map bar_low bars" and ?v = "map bar_volume bars"
  obtain bb where bb: "calculate_bollinger_bands ?c (bb_period p) 2 = Inr bb" "ordered_channel bb"
    using bollinger_total [of 2 ?c "bb_period p"] by auto
  obtain es where es: "phase_d_entries p ?h ?l ?c ?v = Inr es" using phase_d_total [OF assms(3)] by blast
  obtain q where q: "atr_percent (calculate_atr ?h ?l ?c (atr_period p)) (bar_close (last bars)) = Inr q"
    using atr_percent_total [OF assms(2)] by blast
  obtain a p' where a: "atr_sma_update symbol (calculate_atr ?h ?l ?c (atr_period p)) p = (a, p')" by fastforce
  show thesis
    by (rule that [OF _ bb(2) _ _ es, of _ a q], use assms(1) in \<open>simp add: compute_features_def Let_def bb(1) es q a\<close>) simp_all
qed

text \<open>
  The readings every later step relies on: an RSI on its scale, an ATR that is not negative, ordered bands,
  and the close of the bar that is being processed.
\<close>

definition sound_features :: "ohlcv \<Rightarrow> features \<Rightarrow> bool" where
  "sound_features b f \<longleftrightarrow>
     f ''latest_close'' = Some (bar_close b) \<and>
     (\<exists>rsi atr bu bm bl. f ''rsi'' = Some rsi \<and> 0 \<le> rsi \<and> rsi \<le> 100 \<and> f ''atr'' = Some atr \<and> 0 \<le> atr \<and>
        f ''bb_upper'' = Some bu \<and> f ''bb_middle'' = Some bm \<and> f ''bb_lower'' = Some bl \<and> bl \<le> bm \<and> bm \<le> bu)"

lemma numeric_entries_sound:
  assumes "ordered_channel bb"
  shows "sound_features (last bars) (map_of (numeric_entries p bars bb a q es))"
proof -
  obtain bu bm bl where b: "bb = (bu, bm, bl)" by (cases bb)
  show ?thesis using assms atr_nonneg rsi_range
    by (simp add: sound_features_def b numeric_entries_def trend_entries_def bollinger_entries_def channel_entries_def
        ordered_channel_def case_prod_beta Let_def)
qed

lemma compute_features_sound:
  assumes "fst (compute_features symbol bars p) = Inr (Some fd)"
  shows "bars \<noteq> []" "sound_features (last bars) (fd_num fd)"
proof -
  show ne: "bars \<noteq> []" using assms by (auto simp: compute_features_def)
  obtain bb where bb: "calculate_bollinger_bands (map bar_close bars) (bb_period p) 2 = Inr bb" "ordered_channel bb"
    using bollinger_total [of 2 "map bar_close bars" "bb_period p"] by auto
  obtain a q es where "fd_num fd = map_of (numeric_entries p bars bb a q es)"
    using assms ne by (auto simp: compute_features_def Let_def bb(1) split: prod.splits)
  then show "sound_features (last bars) (fd_num fd)" using numeric_entries_sound [OF bb(2)] by simp
qed

text \<open>
  For a nonempty history whose last close is not zero the feature dictionary is always produced, whatever
  the rounding or the shape of the bars, and it is sound: the RSI is in \<open>[0, 100]\<close>, the ATR is not negative,
  the Bollinger entries are ordered, and the close is that of the last bar.
\<close>

theorem features_well_formed:
  assumes "bars \<noteq> []" "bar_close (last bars) \<noteq> 0" "0 < stoch_rsi_period p"
  shows "\<exists>fd. fst (compute_features symbol bars p) = Inr (Some fd) \<and> sound_features (last bars) (fd_num fd)"
  using compute_features_shape [OF assms, of symbol] compute_features_sound by metis

theorem features_well_formed_witness:
  "\<exists>fd. fst (compute_features ''EURUSD'' [\<lparr>bar_timestamp = 0, bar_open = 1, bar_high = 2, bar_low = 1, bar_close = 2, bar_volume = 5\<rparr>]
         (new_feature_pipeline 14 12 26 20 14)) = Inr (Some fd) \<and> fd_num fd ''latest_close'' = Some 2"
  using features_well_formed [of "[\<lparr>bar_timestamp = 0, bar_open = 1, bar_high = 2, bar_low = 1, bar_close = 2, bar_volume = 5\<rparr>]"
      "new_feature_pipeline 14 12 26 20 14" "''EURUSD''"]
  by (auto simp: new_feature_pipeline_def sound_features_def)

end
