(* ===== verification/Feature_Scoring.thy ===== *)
theory Feature_Scoring
  imports Feature_Pipeline
begin

text \<open>
  The consumers of the feature dictionary that enrich it: \<open>features/feature_scorer.py\<close> (four scores and
  their composite), \<open>features/mtf_confirmation.py\<close> (agreement of the timeframes),
  \<open>optimization/adaptive.py\<close> (periods that follow the dominant cycle) and the quantitative part of
  \<open>features/macro_features.py\<close>.
\<close>

section \<open>FeatureScorer\<close>

record assessment =
  as_trend :: decimal
  as_momentum :: decimal
  as_volatility :: decimal
  as_volume :: decimal

definition unit_score :: "decimal \<Rightarrow> decimal result" where
  "unit_score raw = quantize 4 (clamp (- 1) 1 raw)"

definition ema_score :: "features \<Rightarrow> decimal" where
  "ema_score f =
     (let ema_fast = fget f ''ema_fast'' 0; ema_slow = fget f ''ema_slow'' 0;
          ema_diff = dec_mul (dec_div (dec_sub ema_fast ema_slow) ema_slow) 100
      in clamp (- 1) 1 (dec_mul ema_diff 2))"

definition adx_factor :: "decimal \<Rightarrow> decimal" where
  "adx_factor adx = (if 0 < adx then clamp (- (3 / 10)) (5 / 10) (dec_div (dec_sub adx 20) 30) else 0)"

definition sma_bias :: "decimal \<Rightarrow> decimal \<Rightarrow> decimal" where
  "sma_bias close sma_long =
     (if 0 < sma_long
      then clamp (- (3 / 10)) (3 / 10) (dec_mul (dec_div (dec_sub close sma_long) sma_long) 50) else 0)"

definition score_trend :: "features \<Rightarrow> decimal result" where
  "score_trend f =
     (let close = fget f ''latest_close'' 0
      in if fget f ''ema_slow'' 0 = 0 \<or> close = 0 then Inr 0
         else unit_score (dec_add (dec_mul (ema_score f) (dec_add 1 (adx_factor (fget f ''adx'' 0))))
                                  (sma_bias close (fget f ''sma_long'' 0))))"

definition score_momentum :: "features \<Rightarrow> decimal result" where
  "score_momentum f =
     (let close = fget f ''latest_close'' 1;
          rsi_score = clamp (- 1) 1 (dec_div (dec_sub (fget f ''rsi'' 50) 50) 50);
          macd_score = (if 0 < close then clamp (- 1) 1 (dec_mul (dec_div (fget f ''macd_histogram'' 0) close) 1000) else 0);
          stoch_score = clamp (- 1) 1 (dec_div (dec_sub (fget f ''stoch_k'' 50) 50) 50)
      in unit_score (dec_add (dec_add (dec_mul rsi_score (40 / 100)) (dec_mul macd_score (35 / 100)))
                             (dec_mul stoch_score (25 / 100))))"

definition score_volatility :: "features \<Rightarrow> decimal result" where
  "score_volatility f =
     (let atr = fget f ''atr'' 0; atr_sma = fget f ''atr_sma'' 0;
          atr_ratio = (if 0 < atr_sma then clamp (- 1) 1 (dec_mul (dec_sub (dec_div atr atr_sma) 1) 3) else 0);
          bb_score = clamp (- 1) 1 (dec_mul (dec_sub (fget f ''bb_width'' 0) (1 / 100)) 100)
      in unit_score (dec_add (dec_mul atr_ratio (60 / 100)) (dec_mul bb_score (40 / 100))))"

definition score_volume :: "features \<Rightarrow> decimal result" where
  "score_volume f =
     (let volume = fget f ''volume_ratio'' 0; vol_sma = fget f ''volume_sma'' 0
      in if volume = 0 \<and> \<not> 0 < vol_sma then Inr 0
         else unit_score (dec_mul (dec_sub (if volume = 0 then dec_div (fget f ''latest_volume'' 0) vol_sma else volume) 1) 2))"

definition score_features :: "features \<Rightarrow> assessment result" where
  "score_features f =
     rbind (score_trend f) (\<lambda>t. rbind (score_momentum f) (\<lambda>m.
     rbind (score_volatility f) (\<lambda>v. rbind (score_volume f) (\<lambda>vol.
       Inr \<lparr>as_trend = t, as_momentum = m, as_volatility = v, as_volume = vol\<rparr>))))"

definition assessment_composite :: "assessment \<Rightarrow> decimal result" where
  "assessment_composite a =
     quantize 4 (dec_add (dec_add (dec_add (dec_mul (as_trend a) (35 / 100)) (dec_mul (as_momentum a) (30 / 100)))
                                  (dec_mul (as_volatility a) (20 / 100)))
                         (dec_mul (as_volume a) (15 / 100)))"

definition unit_range :: "decimal \<Rightarrow> bool" where
  "unit_range x \<longleftrightarrow> - 1 \<le> x \<and> x \<le> 1"

lemma quantize_between:
  assumes "of_int lo \<le> x" "x \<le> of_int hi" "lo = - 1 \<or> lo = 0" "hi = 1"
  shows "\<exists>y. quantize 4 x = Inr y \<and> of_int lo \<le> y \<and> y \<le> of_int hi"
proof -
  have "\<bar>x\<bar> \<le> 1" using assms by auto
  then have "\<bar>x\<bar> * 10 ^ 4 \<le> 10 ^ 28 - 1" by simp
  then obtain y where y: "quantize 4 x = Inr y" using quantize_defined by blast
  have g: "on_grid 4 (of_int i)" for i by (rule on_gridI [of _ _ "i * 10 ^ 4"]) simp
  show ?thesis using y quantize_ge [OF y g assms(1)] quantize_le [OF y g assms(2)] by blast
qed

lemma quantize_unit_range: "unit_range x \<Longrightarrow> \<exists>y. quantize 4 x = Inr y \<and> unit_range y"
  using quantize_between [of "- 1" x 1] by (simp add: unit_range_def)

lemma unit_score_total: "\<exists>y. unit_score raw = Inr y \<and> unit_range y"
  unfolding unit_score_def by (rule quantize_unit_range) (simp add: unit_range_def clamp_bounds)

lemma weighted_unit:
  assumes "unit_range x" "0 \<le> w" "dec_round w = w"
  shows "- w \<le> dec_mul x w" "dec_mul x w \<le> w"
proof -
  have "\<bar>x * w\<bar> \<le> 1 * w" using assms by (auto simp: abs_mult unit_range_def simp del: mult_1 intro!: mult_right_mono)
  then have "\<bar>dec_mul x w\<bar> \<le> w" unfolding dec_mul_def using assms(3) by (intro dec.rnd_abs_le) simp_all
  then show "- w \<le> dec_mul x w" "dec_mul x w \<le> w" by auto
qed

lemma dec_add_within:
  assumes "- a \<le> x" "x \<le> a" "- b \<le> y" "y \<le> b" "dec_round (a + b) = a + b"
  shows "- (a + b) \<le> dec_add x y" "dec_add x y \<le> a + b"
proof -
  have "\<bar>dec_add x y\<bar> \<le> a + b" unfolding dec_add_def using assms by (intro dec.rnd_abs_le) linarith+
  then show "- (a + b) \<le> dec_add x y" "dec_add x y \<le> a + b" by auto
qed

lemma composite_unit:
  assumes "unit_range (as_trend a)" "unit_range (as_momentum a)" "unit_range (as_volatility a)" "unit_range (as_volume a)"
  shows "\<exists>y. assessment_composite a = Inr y \<and> unit_range y"
proof -
  have w: "dec_round (35 / 100) = 35 / 100" "dec_round (30 / 100) = 30 / 100" "dec_round (20 / 100) = 20 / 100"
    "dec_round (15 / 100) = 15 / 100" "dec_round (35 / 100 + 30 / 100) = 35 / 100 + 30 / 100"
    "dec_round (35 / 100 + 30 / 100 + 20 / 100) = 35 / 100 + 30 / 100 + 20 / 100"
    "dec_round (35 / 100 + 30 / 100 + 20 / 100 + 15 / 100) = 35 / 100 + 30 / 100 + 20 / 100 + 15 / 100"
    by (simp_all add: num_eval)
  note t = weighted_unit [OF assms(1) _ w(1)] and m = weighted_unit [OF assms(2) _ w(2)]
    and v = weighted_unit [OF assms(3) _ w(3)] and vo = weighted_unit [OF assms(4) _ w(4)]
  note s = dec_add_within [OF dec_add_within [OF dec_add_within [OF t m w(5)] v w(6)] vo w(7)]
  show ?thesis unfolding assessment_composite_def by (rule quantize_unit_range) (use s in \<open>simp add: unit_range_def\<close>)
qed

text \<open>
  The feature scorer is total: for every dictionary, with or without the keys it reads, the four scores
  and their weighted composite are returned and lie in \<open>[-1, 1]\<close>.
\<close>

theorem feature_scores_bounded:
  "\<exists>a c. score_features f = Inr a \<and> assessment_composite a = Inr c \<and> unit_range c \<and>
         unit_range (as_trend a) \<and> unit_range (as_momentum a) \<and> unit_range (as_volatility a) \<and> unit_range (as_volume a)"
proof -
  obtain t where t: "score_trend f = Inr t" "unit_range t"
    using unit_score_total by (cases "fget f ''ema_slow'' 0 = 0 \<or> fget f ''latest_close'' 0 = 0")
      (auto simp: score_trend_def Let_def unit_range_def)
  obtain m where m: "score_momentum f = Inr m" "unit_range m"
    unfolding score_momentum_def Let_def using unit_score_total by blast
  obtain v where v: "score_volatility f = Inr v" "unit_range v"
    unfolding score_volatility_def Let_def using unit_score_total by blast
  obtain vo where vo: "score_volume f = Inr vo" "unit_range vo"
    using unit_score_total by (cases "fget f ''volume_ratio'' 0 = 0 \<and> \<not> 0 < fget f ''volume_sma'' 0")
      (auto simp: score_volume_def Let_def unit_range_def simp del: not_less)
  let ?a = "\<lparr>as_trend = t, as_momentum = m, as_volatility = v, as_volume = vo\<rparr>"
  obtain c where "assessment_composite ?a = Inr c" "unit_range c" using composite_unit [of ?a] t m v vo by auto
  moreover have "score_features f = Inr ?a" using t m v vo by (simp add: score_features_def)
  ultimately show ?thesis using t m v vo by auto
qed

text \<open>
  The scorer asks for \<open>sma_long\<close>, \<open>latest_volume\<close> and \<open>volume_sma\<close>; the pipeline stores \<open>sma_200\<close> and
  neither of the others, so that the long-term bias of the trend score is always zero.
\<close>

lemma trend_score_without_long_term_context:
  assumes "bars \<noteq> []" "bar_close (last bars) \<noteq> 0" "0 < stoch_rsi_period p"
    and "fst (compute_features symbol bars p) = Inr (Some fd)" "fget (fd_num fd) ''ema_slow'' 0 \<noteq> 0"
  shows "score_trend (fd_num fd) =
    unit_score (dec_add (dec_mul (ema_score (fd_num fd)) (dec_add 1 (adx_factor (fget (fd_num fd) ''adx'' 0)))) 0)"
proof (rule compute_features_shape [OF assms(1-3), of symbol])
  fix fd' bb a q es
  assume "fst (compute_features symbol bars p) = Inr (Some fd')"
    and num: "fd_num fd' = map_of (numeric_entries p bars bb a q es)"
    and es: "phase_d_entries p (map bar_high bars) (map bar_low bars) (map bar_close bars) (map bar_volume bars) = Inr es"
  then have eq: "fd' = fd" using assms(4) by simp
  have "map_of es ''sma_long'' = None"
    using es by (auto simp: phase_d_entries_def channel_entries_def split: prod.splits)
  then have long: "fd_num fd ''sma_long'' = None" and close: "fd_num fd ''latest_close'' = Some (bar_close (last bars))"
    using num by (simp_all add: eq numeric_entries_def trend_entries_def bollinger_entries_def channel_entries_def
        range_entries_def case_prod_beta Let_def)
  show ?thesis using assms(2,5) by (simp add: score_trend_def sma_bias_def fget_def long close)
qed

section \<open>MTFConfirmation\<close>

record mtf_result =
  mr_trend :: decimal
  mr_momentum :: decimal
  mr_strength :: decimal
  mr_volatility :: decimal
  mr_ratio :: decimal

definition HTF_PREFIXES :: "string list" where
  "HTF_PREFIXES = [''m15'', ''h1'']"

text \<open>The share of positive votes; each timeframe that has the value gives one.\<close>

definition vote_share :: "bool option list \<Rightarrow> decimal" where
  "vote_share vs =
     (let cast = concat (map (\<lambda>v. case v of None \<Rightarrow> [] | Some b \<Rightarrow> [b]) vs)
      in if cast = [] then 0 else dec_div (of_nat (length (filter id cast))) (of_nat (length cast)))"

definition trend_alignment :: "fdict \<Rightarrow> bool \<Rightarrow> decimal" where
  "trend_alignment f buy =
     (let expected = (if buy then ''bullish'' else ''bearish'');
          ema_fast = fget (fd_num f) ''ema_fast'' 0; ema_slow = fget (fd_num f) ''ema_slow'' 0
      in vote_share ((if 0 < ema_fast \<and> 0 < ema_slow
                      then Some ((if ema_slow < ema_fast then ''bullish'' else ''bearish'') = expected) else None) #
           map (\<lambda>pre. map_option (\<lambda>t. t = expected) (fd_str f (pre @ ''_trend''))) HTF_PREFIXES))"

definition momentum_vote :: "string \<Rightarrow> decimal \<Rightarrow> bool" where
  "momentum_vote dir rsi = (dir = ''BUY'' \<and> 50 < rsi \<or> dir = ''SELL'' \<and> rsi < 50)"

definition positive_only :: "decimal option \<Rightarrow> decimal option" where
  "positive_only x = (case x of None \<Rightarrow> None | Some v \<Rightarrow> if 0 < v then Some v else None)"

definition momentum_alignment :: "fdict \<Rightarrow> string \<Rightarrow> decimal" where
  "momentum_alignment f dir =
     vote_share (map_option (momentum_vote dir) (fd_num f ''rsi'') #
       map (\<lambda>pre. map_option (momentum_vote dir) (positive_only (fd_num f (pre @ ''_rsi'')))) HTF_PREFIXES)"

definition strength_alignment :: "fdict \<Rightarrow> decimal" where
  "strength_alignment f =
     vote_share (map_option (\<lambda>a. 25 < a) (fd_num f ''adx'') #
       map (\<lambda>pre. map_option (\<lambda>a. 25 < a) (positive_only (fd_num f (pre @ ''_adx'')))) HTF_PREFIXES)"

definition volatility_context :: "fdict \<Rightarrow> decimal" where
  "volatility_context f =
     (case (fd_num f ''atr'', fd_num f ''atr_sma'') of
        (Some atr, Some atr_sma) \<Rightarrow> if atr_sma \<le> 0 then 5 / 10 else if atr_sma < atr then 1 else 0
      | _ \<Rightarrow> 5 / 10)"

definition mtf_confirmation :: "fdict \<Rightarrow> string \<Rightarrow> mtf_result result" where
  "mtf_confirmation f dir =
     (let tr = trend_alignment f (dir = ''BUY''); mo = momentum_alignment f dir;
          st = strength_alignment f; vo = volatility_context f
      in rbind (quantize 4 (dec_add (dec_add (dec_add (dec_mul (40 / 100) tr) (dec_mul (30 / 100) mo)) (dec_mul (20 / 100) st))
                                    (dec_mul (10 / 100) vo)))
           (\<lambda>ratio. Inr \<lparr>mr_trend = tr, mr_momentum = mo, mr_strength = st, mr_volatility = vo, mr_ratio = ratio\<rparr>))"

definition share :: "decimal \<Rightarrow> bool" where
  "share x \<longleftrightarrow> 0 \<le> x \<and> x \<le> 1"

lemma vote_share_range: "share (vote_share vs)"
proof -
  define cast where "cast = concat (map (\<lambda>v. case v of None \<Rightarrow> [] | Some b \<Rightarrow> [b :: bool]) vs)"
  have "dec_div (of_nat (length (filter id cast))) (of_nat (length cast)) \<le> 1" if "cast \<noteq> []"
    unfolding dec_div_def by (rule dec.rnd_le) (use that in \<open>auto simp: divide_le_eq_1\<close>)
  then show ?thesis by (auto simp: share_def vote_share_def Let_def cast_def [symmetric] intro: dec_div_nonneg)
qed

lemma weighted_share:
  assumes "share x" "0 \<le> w" "dec_round w = w"
  shows "0 \<le> dec_mul w x" "dec_mul w x \<le> w"
proof -
  show "0 \<le> dec_mul w x" using assms by (intro dec_mul_nonneg) (simp_all add: share_def)
  have "w * x \<le> w" using assms by (simp add: share_def mult_left_le)
  then show "dec_mul w x \<le> w" unfolding dec_mul_def by (rule dec.rnd_le [OF assms(3)])
qed

lemma dec_add_le_sum: "x \<le> a \<Longrightarrow> y \<le> b \<Longrightarrow> dec_round (a + b) = a + b \<Longrightarrow> dec_add x y \<le> a + b"
  unfolding dec_add_def by (intro dec.rnd_le) simp_all

text \<open>
  The multi-timeframe confirmation always returns, with every agreement and the weighted ratio in
  \<open>[0, 1]\<close>, for any dictionary and any direction string.
\<close>

theorem confirmation_in_unit_interval:
  "\<exists>r. mtf_confirmation f dir = Inr r \<and> share (mr_trend r) \<and> share (mr_momentum r) \<and> share (mr_strength r) \<and>
       share (mr_volatility r) \<and> share (mr_ratio r)"
proof -
  let ?tr = "trend_alignment f (dir = ''BUY'')" and ?mo = "momentum_alignment f dir"
    and ?st = "strength_alignment f" and ?vo = "volatility_context f"
  have s: "share ?tr" "share ?mo" "share ?st" "share ?vo"
    unfolding trend_alignment_def momentum_alignment_def strength_alignment_def Let_def
    by (simp_all only: vote_share_range) (auto simp: volatility_context_def share_def split: option.splits)
  have w: "dec_round (40 / 100) = 40 / 100" "dec_round (30 / 100) = 30 / 100" "dec_round (20 / 100) = 20 / 100"
    "dec_round (10 / 100) = 10 / 100" "dec_round (40 / 100 + 30 / 100) = 40 / 100 + 30 / 100"
    "dec_round (40 / 100 + 30 / 100 + 20 / 100) = 40 / 100 + 30 / 100 + 20 / 100"
    "dec_round (40 / 100 + 30 / 100 + 20 / 100 + 10 / 100) = 40 / 100 + 30 / 100 + 20 / 100 + 10 / 100"
    by (simp_all add: num_eval)
  note a = weighted_share [OF s(1) _ w(1)] weighted_share [OF s(2) _ w(2)] weighted_share [OF s(3) _ w(3)]
    weighted_share [OF s(4) _ w(4)]
  let ?sum = "dec_add (dec_add (dec_add (dec_mul (40 / 100) ?tr) (dec_mul (30 / 100) ?mo)) (dec_mul (20 / 100) ?st))
                      (dec_mul (10 / 100) ?vo)"
  have "?sum \<le> 40 / 100 + 30 / 100 + 20 / 100 + 10 / 100"
    by (intro dec_add_le_sum a w) simp_all
  moreover have "0 \<le> ?sum" by (intro dec_add_nonneg a) simp_all
  ultimately obtain y where "quantize 4 ?sum = Inr y" "share y"
    using quantize_between [of 0 ?sum 1] by (auto simp: share_def)
  then show ?thesis using s by (simp add: mtf_confirmation_def Let_def)
qed

section \<open>AdaptiveParameterTuner\<close>

record tuned_params =
  tp_rsi_period :: int
  tp_ema_fast :: int
  tp_ema_slow :: int

record tuner =
  tu_update_interval :: nat
  tu_rsi_bounds :: "int \<times> int"
  tu_ema_fast_bounds :: "int \<times> int"
  tu_ema_slow_bounds :: "int \<times> int"
  tu_bar_count :: nat
  tu_current :: tuned_params

definition new_tuner :: "nat \<Rightarrow> int \<times> int \<Rightarrow> int \<times> int \<Rightarrow> int \<times> int \<Rightarrow> tuner" where
  "new_tuner interval rsi fast slow =
     \<lparr>tu_update_interval = interval, tu_rsi_bounds = rsi, tu_ema_fast_bounds = fast, tu_ema_slow_bounds = slow,
      tu_bar_count = 0, tu_current = \<lparr>tp_rsi_period = 14, tp_ema_fast = 12, tp_ema_slow = 26\<rparr>\<rparr>"

definition int_clamp :: "int \<Rightarrow> int \<times> int \<Rightarrow> int" where
  "int_clamp v bounds = max (fst bounds) (min v (snd bounds))"

text \<open>
  \<open>round\<close> of a quotient of two integers: half to even. The modulus by an interval of zero raises. Halves
  and quarters of a cycle below \<open>2^53\<close> are exact floats.
\<close>

definition tuner_update :: "int option \<Rightarrow> tuner \<Rightarrow> tuned_params option result \<times> tuner" where
  "tuner_update dominant_cycle t =
     (let t = t\<lparr>tu_bar_count := tu_bar_count t + 1\<rparr>
      in if tu_update_interval t = 0 then (Inl ZeroDivisionError, t)
         else if tu_bar_count t mod tu_update_interval t \<noteq> 0 then (Inr None, t)
         else case dominant_cycle of
                None \<Rightarrow> (Inr None, t)
              | Some c \<Rightarrow>
                  let rsi = int_clamp (round_half_even (of_int c / 2)) (tu_rsi_bounds t);
                      fast = int_clamp (round_half_even (of_int c / 4)) (tu_ema_fast_bounds t);
                      slow = int_clamp (round_half_even (of_int c / 2)) (tu_ema_slow_bounds t);
                      fast = (if slow \<le> fast then max (fst (tu_ema_fast_bounds t)) (slow - 1) else fast);
                      params = \<lparr>tp_rsi_period = rsi, tp_ema_fast = fast, tp_ema_slow = slow\<rparr>
                  in (Inr (Some params), t\<lparr>tu_current := params\<rparr>))"

definition tuner_run :: "int option list \<Rightarrow> tuner \<Rightarrow> tuner" where
  "tuner_run cs t = foldl (\<lambda>t c. snd (tuner_update c t)) t cs"

definition in_bounds :: "int \<Rightarrow> int \<times> int \<Rightarrow> bool" where
  "in_bounds x b \<longleftrightarrow> fst b \<le> x \<and> x \<le> snd b"

definition tuner_inv :: "tuner \<Rightarrow> bool" where
  "tuner_inv t \<longleftrightarrow>
     0 < tu_update_interval t \<and> fst (tu_rsi_bounds t) \<le> snd (tu_rsi_bounds t) \<and>
     fst (tu_ema_fast_bounds t) \<le> snd (tu_ema_fast_bounds t) \<and> fst (tu_ema_slow_bounds t) \<le> snd (tu_ema_slow_bounds t) \<and>
     fst (tu_ema_fast_bounds t) < fst (tu_ema_slow_bounds t) \<and>
     in_bounds (tp_rsi_period (tu_current t)) (tu_rsi_bounds t) \<and>
     in_bounds (tp_ema_fast (tu_current t)) (tu_ema_fast_bounds t) \<and>
     in_bounds (tp_ema_slow (tu_current t)) (tu_ema_slow_bounds t) \<and>
     tp_ema_fast (tu_current t) < tp_ema_slow (tu_current t)"

lemma tuner_update_inv:
  assumes "tuner_inv t"
  shows "tuner_inv (snd (tuner_update c t)) \<and> (\<exists>p. fst (tuner_update c t) = Inr p)"
proof (cases c)
  case None
  then show ?thesis using assms by (auto simp: tuner_update_def tuner_inv_def Let_def)
next
  case (Some k)
  show ?thesis using assms unfolding tuner_update_def Some Let_def tuner_inv_def in_bounds_def int_clamp_def
    by (auto simp: max_def min_def)
qed

text \<open>
  With bounds that leave room for it, the adaptive tuner keeps every period inside its bounds and the
  fast average strictly faster than the slow one after any sequence of bars and detected cycles, negative
  and absurd ones included, and never raises.
\<close>

theorem tuner_invariant:
  assumes "tuner_inv t"
  shows "tuner_inv (tuner_run cs t) \<and> (\<exists>p. fst (tuner_update c (tuner_run cs t)) = Inr p)"
proof -
  have "tuner_inv (tuner_run cs t)"
    unfolding tuner_run_def using assms by (rule foldl_invariant) (use tuner_update_inv in blast)
  then show ?thesis using tuner_update_inv by blast
qed

theorem tuner_invariant_witness:
  "tuner_inv (tuner_run [Some 37, None, Some (- 5)] (new_tuner 1 (7, 28) (5, 25) (12, 60)))"
  by (rule conjunct1 [OF tuner_invariant]) (simp add: tuner_inv_def new_tuner_def in_bounds_def)

end
