(* ===== verification/Multi_Timeframe.thy ===== *)
theory Multi_Timeframe
  imports Feature_Scoring
begin

text \<open>
  \<open>features/mtf_analyzer.py\<close>: one buffer per symbol and timeframe, the indicators of the higher
  timeframes kept aside, and the dictionary of the primary timeframe enriched with them.
\<close>

record mtf_analyzer =
  mt_primary :: string
  mt_timeframes :: "string list"
  mt_buffers :: "string \<times> string \<rightharpoonup> ohlcv list"
  mt_htf :: "string \<rightharpoonup> (string \<times> fdict) list"
  mt_pipeline :: feature_pipeline

definition new_mtf_analyzer :: "string \<Rightarrow> mtf_analyzer" where
  "new_mtf_analyzer primary =
     \<lparr>mt_primary = primary, mt_timeframes = [''M5'', ''M15'', ''H1''], mt_buffers = Map.empty, mt_htf = Map.empty,
      mt_pipeline = new_feature_pipeline 14 12 26 20 14\<rparr>"

definition MIN_BARS :: "string \<Rightarrow> nat" where
  "MIN_BARS tf =
     opt_get (map_of [(''M1'', 100), (''M5'', 50), (''M15'', 30), (''H1'', 20), (''H4'', 15), (''D1'', 10)] tf) 50"

definition WINDOW_SIZES :: "string \<Rightarrow> nat" where
  "WINDOW_SIZES tf =
     opt_get (map_of [(''M1'', 500), (''M5'', 250), (''M15'', 150), (''H1'', 100), (''H4'', 60), (''D1'', 50)] tf) 250"

definition htf_trend :: "features \<Rightarrow> string" where
  "htf_trend f =
     (let ema_fast = fget f ''ema_fast'' 0; ema_slow = fget f ''ema_slow'' 0
      in if 0 < ema_fast \<and> 0 < ema_slow then if ema_slow < ema_fast then ''bullish'' else ''bearish''
         else ''neutral'')"

definition add_htf :: "fdict \<Rightarrow> string \<times> fdict \<Rightarrow> fdict" where
  "add_htf primary htf =
     (let pre = str_lower (fst htf); f = fd_num (snd htf)
      in primary\<lparr>fd_str := (fd_str primary)(pre @ ''_trend'' \<mapsto> htf_trend f),
                 fd_num := (fd_num primary)(pre @ ''_adx'' \<mapsto> fget f ''adx'' 0, pre @ ''_rsi'' \<mapsto> fget f ''rsi'' 0,
                                            pre @ ''_atr'' \<mapsto> fget f ''atr'' 0)\<rparr>)"

definition primary_trend :: "features \<Rightarrow> string" where
  "primary_trend f = (if fget f ''ema_slow'' 0 < fget f ''ema_fast'' 0 then ''bullish'' else ''bearish'')"

definition enrich_with_htf :: "string \<Rightarrow> (string \<times> fdict) list \<Rightarrow> fdict \<Rightarrow> fdict" where
  "enrich_with_htf primary_tf htf_data primary =
     (let p = foldl add_htf primary htf_data
      in p\<lparr>fd_flag := (fd_flag p)(''mtf_aligned'' \<mapsto>
               (opt_get (fd_str p ''h1_trend'') ''neutral'' = primary_trend (fd_num p))),
           fd_str := (fd_str p)(''primary_timeframe'' \<mapsto> primary_tf)\<rparr>)"

text \<open>The features of the bar's own timeframe; those of a higher timeframe are kept for later.\<close>

definition own_features :: "string \<Rightarrow> string \<Rightarrow> ohlcv list \<Rightarrow> mtf_analyzer \<Rightarrow> unit result \<times> mtf_analyzer" where
  "own_features symbol tf buf m =
     (if length buf < MIN_BARS tf then (Inr (), m)
      else let (r, p) = compute_features (symbol @ ''_'' @ tf) buf (mt_pipeline m); m = m\<lparr>mt_pipeline := p\<rparr>
           in case r of
                Inl e \<Rightarrow> (Inl e, m)
              | Inr None \<Rightarrow> (Inr (), m)
              | Inr (Some f) \<Rightarrow>
                  (Inr (), if tf = mt_primary m then m
                           else m\<lparr>mt_htf := (mt_htf m)(symbol \<mapsto> dict_set tf f (opt_get (mt_htf m symbol) []))\<rparr>))"

definition mtf_add_bar :: "string \<Rightarrow> string \<Rightarrow> ohlcv \<Rightarrow> mtf_analyzer \<Rightarrow> fdict option result \<times> mtf_analyzer" where
  "mtf_add_bar symbol tf b m =
     (if tf \<notin> set (mt_timeframes m) then (Inr None, m)
      else let buf = deque_append (WINDOW_SIZES tf) (opt_get (mt_buffers m (symbol, tf)) []) b;
               (r, m) = own_features symbol tf buf (m\<lparr>mt_buffers := (mt_buffers m)((symbol, tf) \<mapsto> buf)\<rparr>)
           in case r of
                Inl e \<Rightarrow> (Inl e, m)
              | Inr u \<Rightarrow>
                  (if tf \<noteq> mt_primary m \<or> length buf < MIN_BARS tf then (Inr None, m)
                   else let (r, p) = compute_features symbol buf (mt_pipeline m); m = m\<lparr>mt_pipeline := p\<rparr>
                        in case r of
                             Inl e \<Rightarrow> (Inl e, m)
                           | Inr None \<Rightarrow> (Inr None, m)
                           | Inr (Some f) \<Rightarrow>
                               (Inr (Some (enrich_with_htf (mt_primary m) (opt_get (mt_htf m symbol) []) f)), m)))"

definition mtf_bar_count :: "mtf_analyzer \<Rightarrow> string \<Rightarrow> string \<Rightarrow> nat" where
  "mtf_bar_count m symbol tf = length (opt_get (mt_buffers m (symbol, tf)) [])"

section \<open>Isolation of the timeframes\<close>

lemma own_features_buffers [simp]:
  "mt_buffers (snd (own_features symbol tf buf m)) = mt_buffers m"
  "mt_timeframes (snd (own_features symbol tf buf m)) = mt_timeframes m"
  "mt_primary (snd (own_features symbol tf buf m)) = mt_primary m"
  by (auto simp: own_features_def Let_def split: prod.splits sum.splits option.splits)

lemma mtf_add_bar_buffers:
  "mt_buffers (snd (mtf_add_bar symbol tf b m)) =
     (if tf \<in> set (mt_timeframes m)
      then (mt_buffers m)((symbol, tf) \<mapsto> deque_append (WINDOW_SIZES tf) (opt_get (mt_buffers m (symbol, tf)) []) b)
      else mt_buffers m)"
  "mt_timeframes (snd (mtf_add_bar symbol tf b m)) = mt_timeframes m"
  "mt_primary (snd (mtf_add_bar symbol tf b m)) = mt_primary m"
proof -
  define buf where "buf = deque_append (WINDOW_SIZES tf) (opt_get (mt_buffers m (symbol, tf)) []) b"
  obtain r m' where o: "own_features symbol tf buf (m\<lparr>mt_buffers := (mt_buffers m)((symbol, tf) \<mapsto> buf)\<rparr>) = (r, m')"
    by fastforce
  have m': "mt_buffers m' = (mt_buffers m)((symbol, tf) \<mapsto> buf)" "mt_timeframes m' = mt_timeframes m" "mt_primary m' = mt_primary m"
    using own_features_buffers [of symbol tf buf "m\<lparr>mt_buffers := (mt_buffers m)((symbol, tf) \<mapsto> buf)\<rparr>"] by (simp_all add: o)
  show "mt_buffers (snd (mtf_add_bar symbol tf b m)) =
     (if tf \<in> set (mt_timeframes m)
      then (mt_buffers m)((symbol, tf) \<mapsto> deque_append (WINDOW_SIZES tf) (opt_get (mt_buffers m (symbol, tf)) []) b)
      else mt_buffers m)"
    "mt_timeframes (snd (mtf_add_bar symbol tf b m)) = mt_timeframes m"
    "mt_primary (snd (mtf_add_bar symbol tf b m)) = mt_primary m"
    unfolding mtf_add_bar_def Let_def buf_def [symmetric] o
    using m' by (auto split: prod.splits sum.splits option.splits)
qed

text \<open>What the buffer of a symbol and timeframe holds after a run: the last bars of exactly that stream.\<close>

definition mtf_run :: "(string \<times> string \<times> ohlcv) list \<Rightarrow> mtf_analyzer \<Rightarrow> mtf_analyzer" where
  "mtf_run bars m = foldl (\<lambda>m (s, tf, b). snd (mtf_add_bar s tf b m)) m bars"

definition stream_of :: "string \<Rightarrow> string \<Rightarrow> (string \<times> string \<times> ohlcv) list \<Rightarrow> ohlcv list" where
  "stream_of symbol tf bars = map (snd \<circ> snd) (filter (\<lambda>x. fst x = symbol \<and> fst (snd x) = tf) bars)"

text \<open>
  The analyzer never mixes timeframes or symbols: after any interleaving of bars the buffer of a known
  timeframe holds exactly the most recent bars of its own stream, oldest first, up to its window.
\<close>

theorem mtf_buffers_isolated:
  assumes "tf \<in> set (mt_timeframes m)" "mt_buffers m = Map.empty"
  shows "opt_get (mt_buffers (mtf_run bars m) (symbol, tf)) [] = last_n (WINDOW_SIZES tf) (stream_of symbol tf bars)"
proof -
  have w: "0 < WINDOW_SIZES tf" by (simp add: WINDOW_SIZES_def)
  have tfs: "mt_timeframes (mtf_run bars m) = mt_timeframes m" for bars
    by (induction bars rule: rev_induct) (auto simp: mtf_run_def mtf_add_bar_buffers split: prod.splits)
  show ?thesis
  proof (induction bars rule: rev_induct)
    case (snoc x bars)
    obtain s t b where x: "x = (s, t, b)" by (cases x)
    have run: "mtf_run (bars @ [(s, t, b)]) m = snd (mtf_add_bar s t b (mtf_run bars m))" by (simp add: mtf_run_def x)
    show ?case
    proof (cases "s = symbol \<and> t = tf")
      case True
      then show ?thesis using snoc assms(1) w unfolding x run
        by (simp add: mtf_add_bar_buffers tfs stream_of_def deque_append_last_n)
    next
      case False
      then show ?thesis using snoc by (auto simp: run mtf_add_bar_buffers tfs stream_of_def x)
    qed
  qed (simp add: mtf_run_def stream_of_def assms(2) last_n_def)
qed

theorem mtf_buffers_isolated_witness:
  "opt_get (mt_buffers (mtf_run [(''EURUSD'', ''M5'', b), (''EURUSD'', ''H1'', b'), (''XAUUSD'', ''H1'', b)]
      (new_mtf_analyzer ''M5'')) (''EURUSD'', ''H1'')) [] = [b']"
  using mtf_buffers_isolated [of "''H1''" "new_mtf_analyzer ''M5''" "[(''EURUSD'', ''M5'', b), (''EURUSD'', ''H1'', b'), (''XAUUSD'', ''H1'', b)]" "''EURUSD''"]
  by (simp add: new_mtf_analyzer_def stream_of_def last_n_def WINDOW_SIZES_def)

end
