(* ===== verification/Feature_Stage.thy ===== *)
theory Feature_Stage
  imports Algo_Engine Multi_Timeframe
begin

text \<open>
  Steps 2 to 3b of \<open>_process_bar_inner\<close> in \<open>engine.py\<close>, as \<open>main.py\<close> wires them: the multi-timeframe
  analyzer, the feature pipeline, the optional scorer and confirmation, the optional tuner. The stage is
  put in front of the engine's pipeline, whose feature parameter it supplies. The four mathematical
  modules of \<open>_enrich_advanced_features\<close> are not wired in \<open>main.py\<close> and stay out.
\<close>

record feature_stage =
  fs_mtf :: mtf_analyzer
  fs_pipeline :: feature_pipeline
  fs_scorer :: bool
  fs_confirmation :: bool
  fs_tuner :: "tuner option"

text \<open>\<open>features.update(mtf_features)\<close>: the entries of the primary timeframe win.\<close>

definition update_features :: "fdict \<Rightarrow> fdict option \<Rightarrow> fdict" where
  "update_features f mtf =
     (case mtf of
        None \<Rightarrow> f
      | Some g \<Rightarrow> \<lparr>fd_symbol = fd_symbol g, fd_bar_count = fd_bar_count g, fd_timestamp = fd_timestamp g,
                   fd_num = fd_num f ++ fd_num g, fd_str = fd_str f ++ fd_str g, fd_flag = fd_flag f ++ fd_flag g\<rparr>)"

definition add_scores :: "fdict \<Rightarrow> fdict" where
  "add_scores f =
     (case score_features (fd_num f) of
        Inl e \<Rightarrow> f
      | Inr a \<Rightarrow>
          let num = (fd_num f)(''feature_trend_score'' \<mapsto> as_trend a, ''feature_momentum_score'' \<mapsto> as_momentum a,
                               ''feature_volatility_score'' \<mapsto> as_volatility a, ''feature_volume_score'' \<mapsto> as_volume a)
          in f\<lparr>fd_num := (case assessment_composite a of Inl e \<Rightarrow> num | Inr c \<Rightarrow> num(''feature_composite_score'' \<mapsto> c))\<rparr>)"

definition direction_hint :: "features \<Rightarrow> string" where
  "direction_hint f = (if fget f ''ema_slow'' 0 < fget f ''ema_fast'' 0 then ''BUY'' else ''SELL'')"

definition add_confirmation :: "fdict \<Rightarrow> fdict" where
  "add_confirmation f =
     (case mtf_confirmation f (direction_hint (fd_num f)) of
        Inl e \<Rightarrow> f
      | Inr r \<Rightarrow> f\<lparr>fd_num := (fd_num f)(''mtf_confirmation_ratio'' \<mapsto> mr_ratio r, ''mtf_trend_agreement'' \<mapsto> mr_trend r,
                                         ''mtf_momentum_agreement'' \<mapsto> mr_momentum r)\<rparr>)"

definition tune :: "feature_stage \<Rightarrow> unit result \<times> feature_stage" where
  "tune fs =
     (case fs_tuner fs of
        None \<Rightarrow> (Inr (), fs)
      | Some t \<Rightarrow> let (r, t) = tuner_update None t in (rbind r (\<lambda>p. Inr ()), fs\<lparr>fs_tuner := Some t\<rparr>))"

text \<open>Steps 3 to 3b on the window of the engine's buffer.\<close>

definition stage_features ::
  "string \<Rightarrow> ohlcv list \<Rightarrow> fdict option \<Rightarrow> feature_stage \<Rightarrow> fdict option result \<times> feature_stage" where
  "stage_features symbol bars mtf fs =
     (let (r, p) = compute_features symbol bars (fs_pipeline fs); fs = fs\<lparr>fs_pipeline := p\<rparr>
      in case r of
           Inl e \<Rightarrow> (Inl e, fs)
         | Inr None \<Rightarrow> (Inr None, fs)
         | Inr (Some f) \<Rightarrow>
             let f = update_features f mtf;
                 f = (if fs_scorer fs then add_scores f else f);
                 f = (if fs_confirmation fs then add_confirmation f else f);
                 (t, fs) = tune fs
             in (rbind t (\<lambda>u. Inr (Some f)), fs))"

text \<open>
  The whole bar: an exception of the analyzer leaves the engine with the bar counted and checked, one of the
  stage leaves it with the bar buffered too.
\<close>

definition run_bar ::
  "env \<Rightarrow> string \<Rightarrow> string \<Rightarrow> ohlcv \<Rightarrow> feature_stage \<times> engine \<Rightarrow> trading_signal option result \<times> feature_stage \<times> engine" where
  "run_bar env symbol tf b st =
     (let (fs, en) = st; (ok, q) = validate_bar b None (en_quality en);
          en1 = en\<lparr>en_bar_counter := en_bar_counter en + 1, en_quality := q\<rparr>
      in if \<not> ok then (Inr None, fs, en1)
         else let (mr, m) = mtf_add_bar symbol tf b (fs_mtf fs); fs = fs\<lparr>fs_mtf := m\<rparr>
              in case mr of
                   Inl e \<Rightarrow> (Inl e, fs, en1)
                 | Inr mtf \<Rightarrow>
                     let (window, bb) = add_bar symbol b (en_buffer en)
                     in case window of
                          None \<Rightarrow> (Inr None, fs, en1\<lparr>en_buffer := bb\<rparr>)
                        | Some bars \<Rightarrow>
                            (case stage_features symbol bars mtf fs of
                               (Inl e, fs) \<Rightarrow> (Inl e, fs, en1\<lparr>en_buffer := bb\<rparr>)
                             | (Inr f, fs) \<Rightarrow>
                                 let (out, en') = process_bar (env\<lparr>ev_features := \<lambda>s t bs. map_option fd_num f\<rparr>) symbol tf b en
                                 in (out, fs, en')))"

section \<open>What reaches the strategies\<close>

definition core_keys :: "string set" where
  "core_keys = {''latest_close'', ''rsi'', ''atr'', ''bb_upper'', ''bb_middle'', ''bb_lower''}"

lemma sound_features_cong:
  assumes "\<And>k. k \<in> core_keys \<Longrightarrow> g k = f k" "sound_features b f"
  shows "sound_features b g"
  using assms by (simp add: sound_features_def core_keys_def)

lemma sound_features_core: "sound_features b f \<Longrightarrow> k \<in> core_keys \<Longrightarrow> f k \<noteq> None"
  unfolding sound_features_def core_keys_def by (elim insertE conjE exE) simp_all

lemma update_features_sound:
  assumes "sound_features b (fd_num f)" "\<And>g. mtf = Some g \<Longrightarrow> sound_features b (fd_num g)"
  shows "sound_features b (fd_num (update_features f mtf))"
proof (cases mtf)
  case (Some g)
  have g: "sound_features b (fd_num g)" using assms(2) Some .
  have "(fd_num f ++ fd_num g) k = fd_num g k" if "k \<in> core_keys" for k
    using sound_features_core [OF g that] by (cases "fd_num g k") simp_all
  then have "sound_features b (fd_num f ++ fd_num g)" using g by (rule sound_features_cong)
  then show ?thesis by (simp add: update_features_def Some)
qed (use assms in \<open>simp add: update_features_def\<close>)

lemma add_scores_sound: "sound_features b (fd_num f) \<Longrightarrow> sound_features b (fd_num (add_scores f))"
  by (erule sound_features_cong [rotated])
    (simp add: add_scores_def core_keys_def Let_def split: sum.splits, elim disjE, simp_all)

lemma add_confirmation_sound: "sound_features b (fd_num f) \<Longrightarrow> sound_features b (fd_num (add_confirmation f))"
  by (erule sound_features_cong [rotated])
    (simp add: add_confirmation_def core_keys_def split: sum.splits, elim disjE, simp_all)

lemma stage_features_sound:
  assumes "stage_features symbol bars mtf fs = (Inr (Some f), fs')" "\<And>g. mtf = Some g \<Longrightarrow> sound_features (last bars) (fd_num g)"
  shows "sound_features (last bars) (fd_num f)"
proof -
  obtain g where g: "fst (compute_features symbol bars (fs_pipeline fs)) = Inr (Some g)"
    and f: "f = (let f = update_features g mtf; f = (if fs_scorer fs then add_scores f else f)
                 in if fs_confirmation fs then add_confirmation f else f)"
    using assms(1) by (auto simp: stage_features_def Let_def split: prod.splits sum.splits option.splits)
  have "sound_features (last bars) (fd_num (update_features g mtf))"
    using compute_features_sound(2) [OF g] assms(2) by (rule update_features_sound)
  then show ?thesis by (simp add: f Let_def add_scores_sound add_confirmation_sound)
qed

text \<open>No key of a higher timeframe collides with a core key.\<close>

lemma htf_key_not_core:
  assumes "k \<in> core_keys" "s \<in> {''_adx'', ''_rsi'', ''_atr''}"
  shows "pre @ s \<noteq> k"
proof
  assume "pre @ s = k"
  moreover have "length s = 4" using assms(2) by auto
  ultimately have "drop (length k - 4) k = s" by auto
  then show False using assms unfolding core_keys_def by (elim insertE) simp_all
qed

lemma add_htf_core: "k \<in> core_keys \<Longrightarrow> fd_num (add_htf p h) k = fd_num p k"
  using htf_key_not_core [of k "''_adx''" "str_lower (fst h)"] htf_key_not_core [of k "''_rsi''" "str_lower (fst h)"]
    htf_key_not_core [of k "''_atr''" "str_lower (fst h)"]
  by (simp add: add_htf_def Let_def)

lemma enrich_core: "k \<in> core_keys \<Longrightarrow> fd_num (enrich_with_htf tf hs p) k = fd_num p k"
  unfolding enrich_with_htf_def by (induction hs arbitrary: p) (simp_all add: Let_def add_htf_core)

lemma mtf_add_bar_sound:
  assumes "mtf_add_bar symbol tf b m = (Inr (Some g), m')"
  shows "sound_features b (fd_num g)"
proof -
  define buf where "buf = deque_append (WINDOW_SIZES tf) (opt_get (mt_buffers m (symbol, tf)) []) b"
  have "0 < WINDOW_SIZES tf" by (simp add: WINDOW_SIZES_def opt_get_def split: option.splits)
  then have buf: "last buf = b" by (simp add: buf_def)
  obtain p f hs ptf where f: "fst (compute_features symbol buf p) = Inr (Some f)" and g: "g = enrich_with_htf ptf hs f"
    using assms unfolding mtf_add_bar_def buf_def [symmetric]
    by (auto simp: Let_def split: if_splits prod.splits sum.splits option.splits) (metis fst_conv)
  have "sound_features b (fd_num f)" using compute_features_sound(2) [OF f] by (simp add: buf)
  then show ?thesis unfolding g by (rule sound_features_cong [rotated]) (rule enrich_core)
qed

lemma run_bar_signal:
  assumes "run_bar env symbol tf b (fs, en) = (Inr (Some sig), fs', en')"
  shows "\<exists>f. sound_features b f \<and>
           process_bar (env\<lparr>ev_features := \<lambda>s t bs. Some f\<rparr>) symbol tf b en = (Inr (Some sig), en')"
proof -
  obtain q where q: "validate_bar b None (en_quality en) = (True, q)"
    using assms by (cases "validate_bar b None (en_quality en)") (auto simp: run_bar_def Let_def split: if_splits)
  obtain mtf m where m: "mtf_add_bar symbol tf b (fs_mtf fs) = (Inr mtf, m)"
    using assms by (cases "mtf_add_bar symbol tf b (fs_mtf fs)") (auto simp: run_bar_def Let_def q split: sum.splits)
  obtain bars bb where w: "add_bar symbol b (en_buffer en) = (Some bars, bb)"
    using assms by (cases "add_bar symbol b (en_buffer en)") (auto simp: run_bar_def Let_def q m split: option.splits)
  obtain fo fs2 where st: "stage_features symbol bars mtf (fs\<lparr>fs_mtf := m\<rparr>) = (Inr fo, fs2)"
    using assms by (cases "stage_features symbol bars mtf (fs\<lparr>fs_mtf := m\<rparr>)")
      (auto simp: run_bar_def Let_def q m w split: sum.splits)
  have pb: "process_bar (env\<lparr>ev_features := \<lambda>s t bs. map_option fd_num fo\<rparr>) symbol tf b en = (Inr (Some sig), en')"
    using assms by (simp add: run_bar_def Let_def q m w st split: prod.splits)
  obtain f where f: "fo = Some f"
    using pb by (cases fo) (auto simp: process_bar_def ingest_def Let_def q w)
  have "bars \<noteq> []" using st f compute_features_sound(1)
    by (auto simp: stage_features_def Let_def split: prod.splits sum.splits option.splits) (metis fst_conv)
  then have last: "last bars = b" using w by (auto simp: add_bar_def Let_def last_deque_append' split: if_splits)
  have "sound_features (last bars) (fd_num f)"
    using st unfolding f by (rule stage_features_sound) (use m mtf_add_bar_sound last in blast)
  then show ?thesis using pb by (auto simp: f last)
qed

text \<open>A bar changes neither the books nor the validator, whatever its outcome.\<close>

lemma run_bar_books:
  assumes "run_bar env symbol tf b (fs, en) = (out, fs', en')"
  shows "books_kept (en_portfolio en) (en_portfolio en')" "en_validator en' = en_validator en"
proof -
  have P: "books_kept (en_portfolio en) (en_portfolio (snd (process_bar e symbol tf b en)))"
    "en_validator (snd (process_bar e symbol tf b en)) = en_validator en" for e
    using process_bar_books by blast+
  have "en' = snd (process_bar e symbol tf b en) \<or> en_portfolio en' = en_portfolio en \<and> en_validator en' = en_validator en"
    if "e = env\<lparr>ev_features := \<lambda>s t bs. map_option fd_num (case fst (stage_features symbol (the (fst (add_bar symbol b (en_buffer en))))
          (case fst (mtf_add_bar symbol tf b (fs_mtf fs)) of Inr m \<Rightarrow> m)
          (fs\<lparr>fs_mtf := snd (mtf_add_bar symbol tf b (fs_mtf fs))\<rparr>)) of Inr f \<Rightarrow> f)\<rparr>" for e
    using assms that by (auto simp: run_bar_def Let_def split: prod.splits if_splits sum.splits option.splits)
  then show "books_kept (en_portfolio en) (en_portfolio en')" "en_validator en' = en_validator en" using P by auto
qed

lemma run_bar_slot:
  assumes "run_bar env symbol tf b (fs, en) = (Inr (Some sig), fs', en')"
  shows "int (pf_open_position_count (en_portfolio en)) < v_max_open_positions (en_validator en)"
  using run_bar_signal [OF assms] process_bar_slot by blast


text \<open>
  The engine keeps one buffer per symbol: bars of every timeframe enter the same window, so that the
  indicators of a bar outside the primary timeframe are computed on mixed candles.
\<close>

lemma engine_buffer_ignores_timeframe: "snd (ingest env symbol tf b en) = snd (ingest env symbol tf' b en)"
  by (simp add: ingest_def Let_def split: prod.splits option.splits)

end
