(* ===== verification/Kill_Switch.thy ===== *)
theory Kill_Switch
  imports Market_Types
begin

text \<open>
  \<open>algo_engine/kill_switch.py\<close> (class \<open>KillSwitch\<close>) and \<open>DrawdownEnforcer\<close> of
  \<open>algo_engine/signals/spiral_protection.py\<close>. The Redis server is outside the program: the outcome of
  each call to it is an argument. Writes whose exceptions are all swallowed leave no trace in the
  object and have no argument. Clock readings are arguments too; \<open>dstr\<close> stands for the
  formatting of a \<open>Decimal\<close> in an f-string, which depends on trailing zeros that the model drops.
\<close>

section \<open>State\<close>

record audit_entry =
  ae_timestamp :: rat
  ae_action :: string
  ae_reason :: string
  ae_actor :: string
  ae_daily_loss_pct :: string
  ae_drawdown_pct :: string

record kill_switch =
  ks_redis :: bool
  ks_cached_active :: bool
  ks_cached_reason :: string
  ks_cache_ts :: rat
  ks_cache_ttl :: rat
  ks_audit_log :: "audit_entry list"

definition MAX_AUDIT_ENTRIES :: nat where
  "MAX_AUDIT_ENTRIES = 200"

definition new_kill_switch :: "rat \<Rightarrow> kill_switch" where
  "new_kill_switch ttl =
     \<lparr>ks_redis = False, ks_cached_active = True, ks_cached_reason = [], ks_cache_ts = 0,
      ks_cache_ttl = ttl, ks_audit_log = []\<rparr>"

text \<open>\<open>connect\<close>: the ping succeeds, or anything raises and the client is dropped.\<close>

definition ks_connect :: "rat \<Rightarrow> bool \<Rightarrow> kill_switch \<Rightarrow> kill_switch" where
  "ks_connect now ping_ok ks =
     (if ping_ok then ks\<lparr>ks_redis := True, ks_cached_active := False, ks_cache_ts := now\<rparr>
      else ks\<lparr>ks_redis := False\<rparr>)"

definition append_audit :: "audit_entry \<Rightarrow> kill_switch \<Rightarrow> kill_switch" where
  "append_audit entry ks =
     (let log = ks_audit_log ks @ [entry]
      in ks\<lparr>ks_audit_log := if MAX_AUDIT_ENTRIES < length log then last_n MAX_AUDIT_ENTRIES log else log\<rparr>)"

definition ks_activate :: "rat \<Rightarrow> rat \<Rightarrow> string \<Rightarrow> string \<Rightarrow> kill_switch \<Rightarrow> kill_switch" where
  "ks_activate now wall reason actor ks =
     append_audit
       \<lparr>ae_timestamp = wall, ae_action = ''ACTIVATED'', ae_reason = reason, ae_actor = actor,
        ae_daily_loss_pct = [], ae_drawdown_pct = []\<rparr>
       (ks\<lparr>ks_cached_active := True, ks_cached_reason := reason, ks_cache_ts := now\<rparr>)"

text \<open>
  Replies to \<open>DELETE\<close> and \<open>GET\<close>. A failure that is not a builtin \<open>ConnectionError\<close>,
  \<open>TimeoutError\<close> or \<open>OSError\<close> is not caught and escapes.
\<close>

datatype del_reply = Deleted | DelConnFailure | DelOtherFailure

datatype get_reply =
    Missing
  | Payload "bool option" "string option"
  | CorruptJson
  | GetConnFailure
  | GetOtherFailure

definition ks_deactivate :: "rat \<Rightarrow> rat \<Rightarrow> string \<Rightarrow> del_reply \<Rightarrow> kill_switch \<Rightarrow> unit result \<times> kill_switch" where
  "ks_deactivate now wall actor reply ks =
     (let ks = ks\<lparr>ks_cached_active := False, ks_cached_reason := [], ks_cache_ts := now\<rparr>
      in if ks_redis ks \<and> reply = DelOtherFailure then (Inl RedisError, ks)
         else (Inr (), append_audit
                 \<lparr>ae_timestamp = wall, ae_action = ''DEACTIVATED'', ae_reason = ''Manual deactivation'',
                  ae_actor = actor, ae_daily_loss_pct = [], ae_drawdown_pct = []\<rparr> ks))"

definition refresh_cache :: "get_reply \<Rightarrow> kill_switch \<Rightarrow> kill_switch result" where
  "refresh_cache reply ks =
     (case reply of
        Missing \<Rightarrow> Inr (ks\<lparr>ks_cached_active := False, ks_cached_reason := []\<rparr>)
      | Payload active reason \<Rightarrow>
          Inr (ks\<lparr>ks_cached_active := (case active of None \<Rightarrow> False | Some a \<Rightarrow> a),
                  ks_cached_reason := (case reason of None \<Rightarrow> [] | Some r \<Rightarrow> r)\<rparr>)
      | CorruptJson \<Rightarrow>
          Inr (ks\<lparr>ks_cached_active := True, ks_cached_reason := ''Corrupt kill switch data in Redis''\<rparr>)
      | GetConnFailure \<Rightarrow> Inr ks
      | GetOtherFailure \<Rightarrow> Inl RedisError)"

definition ks_is_active :: "rat \<Rightarrow> get_reply \<Rightarrow> kill_switch \<Rightarrow> (bool \<times> string) result \<times> kill_switch" where
  "ks_is_active now reply ks =
     (if flt_round (now - ks_cache_ts ks) < ks_cache_ttl ks
      then (Inr (ks_cached_active ks, ks_cached_reason ks), ks)
      else case (if ks_redis ks then refresh_cache reply ks else Inr ks) of
             Inl e \<Rightarrow> (Inl e, ks)
           | Inr ks \<Rightarrow> (Inr (ks_cached_active ks, ks_cached_reason ks), ks\<lparr>ks_cache_ts := now\<rparr>))"

definition check_or_raise :: "rat \<Rightarrow> get_reply \<Rightarrow> kill_switch \<Rightarrow> unit result \<times> kill_switch" where
  "check_or_raise now reply ks =
     (case ks_is_active now reply ks of
        (Inl e, ks) \<Rightarrow> (Inl e, ks)
      | (Inr (active, reason), ks) \<Rightarrow> (if active then Inl RiskLimitExceededError else Inr (), ks))"

definition trigger :: "rat \<Rightarrow> rat \<Rightarrow> string \<Rightarrow> string \<Rightarrow> string \<Rightarrow> kill_switch \<Rightarrow> kill_switch" where
  "trigger now wall reason dl dd ks =
     ks_activate now wall reason ''auto_check''
       (append_audit
          \<lparr>ae_timestamp = wall, ae_action = ''AUTO_CHECK_TRIGGERED'', ae_reason = reason,
           ae_actor = ''auto_check'', ae_daily_loss_pct = dl, ae_drawdown_pct = dd\<rparr> ks)"

definition auto_check ::
  "(decimal \<Rightarrow> string) \<Rightarrow> rat \<Rightarrow> rat \<Rightarrow> decimal \<Rightarrow> decimal \<Rightarrow> decimal \<Rightarrow> decimal \<Rightarrow> kill_switch \<Rightarrow> kill_switch" where
  "auto_check dstr now wall daily_loss_pct max_daily_loss_pct drawdown_pct max_drawdown_pct ks =
     (if max_daily_loss_pct \<le> daily_loss_pct
      then trigger now wall
             (''Perdita giornaliera limite raggiunto: '' @ dstr daily_loss_pct @ ''% >= ''
              @ dstr max_daily_loss_pct @ ''%'')
             (dstr daily_loss_pct) (dstr drawdown_pct) ks
      else if max_drawdown_pct \<le> drawdown_pct
      then trigger now wall
             (''Drawdown massimo superato: '' @ dstr drawdown_pct @ ''% >= '' @ dstr max_drawdown_pct @ ''%'')
             (dstr daily_loss_pct) (dstr drawdown_pct) ks
      else ks)"

section \<open>Hierarchical check\<close>

record hierarchical_action =
  ha_level :: int
  ha_action :: string
  ha_sizing_multiplier :: decimal
  ha_reason :: string
  ha_pause_strategy :: "string option"

definition hierarchical_check ::
  "(decimal \<Rightarrow> string) \<Rightarrow> rat \<Rightarrow> rat \<Rightarrow> decimal \<Rightarrow> string option \<Rightarrow> decimal option \<Rightarrow> kill_switch
     \<Rightarrow> hierarchical_action \<times> kill_switch" where
  "hierarchical_check dstr now wall drawdown_pct strategy_name strategy_dd_pct ks =
     (if 5 \<le> drawdown_pct
      then let reason = ''Level 3 kill: portfolio DD '' @ dstr drawdown_pct @ ''% >= 5%''
           in (\<lparr>ha_level = 3, ha_action = ''FLATTEN_ALL'', ha_sizing_multiplier = 0, ha_reason = reason,
                ha_pause_strategy = None\<rparr>,
               ks_activate now wall reason ''hierarchical_check'' ks)
      else if 3 \<le> drawdown_pct
      then let reason = ''Level 2 warning: portfolio DD '' @ dstr drawdown_pct @ ''% >= 3%''
           in (\<lparr>ha_level = 2, ha_action = ''REDUCE_SIZING'', ha_sizing_multiplier = 50 / 100,
                ha_reason = reason, ha_pause_strategy = None\<rparr>,
               append_audit
                 \<lparr>ae_timestamp = wall, ae_action = ''LEVEL2_REDUCTION'', ae_reason = reason,
                  ae_actor = ''hierarchical_check'', ae_daily_loss_pct = [],
                  ae_drawdown_pct = dstr drawdown_pct\<rparr> ks)
      else case (strategy_name, strategy_dd_pct) of
             (Some name, Some sdd) \<Rightarrow>
               (if 5 \<le> sdd
                then let reason = ''Level 1 pause: '' @ name @ '' DD '' @ dstr sdd @ ''% >= 5%''
                     in (\<lparr>ha_level = 1, ha_action = ''PAUSE_STRATEGY'', ha_sizing_multiplier = 1,
                          ha_reason = reason, ha_pause_strategy = Some name\<rparr>,
                         append_audit
                           \<lparr>ae_timestamp = wall, ae_action = ''LEVEL1_STRATEGY_PAUSE'', ae_reason = reason,
                            ae_actor = ''hierarchical_check'', ae_daily_loss_pct = [], ae_drawdown_pct = []\<rparr> ks)
                else (\<lparr>ha_level = 0, ha_action = ''NONE'', ha_sizing_multiplier = 1,
                       ha_reason = ''All risk levels within limits'', ha_pause_strategy = None\<rparr>, ks))
           | _ \<Rightarrow> (\<lparr>ha_level = 0, ha_action = ''NONE'', ha_sizing_multiplier = 1,
                    ha_reason = ''All risk levels within limits'', ha_pause_strategy = None\<rparr>, ks))"

text \<open>
  \<open>get_audit_log\<close>: the entries Redis returned, or the local buffer when there is no client or the
  read failed (\<open>None\<close>); \<open>xs[-0:]\<close> is the whole list in Python.
\<close>

definition get_audit_log :: "nat \<Rightarrow> audit_entry list option \<Rightarrow> kill_switch \<Rightarrow> audit_entry list" where
  "get_audit_log limit reply ks =
     (case (ks_redis ks, reply) of
        (True, Some entries) \<Rightarrow> entries
      | _ \<Rightarrow> (if limit = 0 then ks_audit_log ks else last_n limit (ks_audit_log ks)))"

section \<open>DrawdownEnforcer\<close>

definition enforcer_drawdown :: "decimal \<Rightarrow> decimal \<Rightarrow> decimal" where
  "enforcer_drawdown current_equity peak_equity =
     dec_mul (dec_div (dec_sub peak_equity current_equity) peak_equity) 100"

definition enforcer_check ::
  "(decimal \<Rightarrow> decimal \<Rightarrow> decimal \<Rightarrow> decimal \<Rightarrow> string) \<Rightarrow> decimal \<Rightarrow> rat \<Rightarrow> rat \<Rightarrow> decimal \<Rightarrow> decimal \<Rightarrow> kill_switch
     \<Rightarrow> unit result \<times> kill_switch" where
  "enforcer_check reason_text max_drawdown_pct now wall current_equity peak_equity ks =
     (if peak_equity \<le> 0 then (Inl ValueError, ks)
      else let drawdown_pct = enforcer_drawdown current_equity peak_equity
           in (Inr (),
               if max_drawdown_pct \<le> drawdown_pct
               then ks_activate now wall
                      (reason_text drawdown_pct max_drawdown_pct current_equity peak_equity) ''system'' ks
               else ks))"

section \<open>Runs of the switch\<close>

datatype ks_event =
    Connect rat bool
  | Activate rat rat string string
  | Deactivate rat rat string del_reply
  | IsActive rat get_reply
  | AutoCheck rat rat decimal decimal decimal decimal
  | Hierarchical rat rat decimal "string option" "decimal option"

fun ks_apply :: "(decimal \<Rightarrow> string) \<Rightarrow> ks_event \<Rightarrow> kill_switch \<Rightarrow> kill_switch" where
  "ks_apply dstr (Connect now ok) ks = ks_connect now ok ks"
| "ks_apply dstr (Activate now wall reason actor) ks = ks_activate now wall reason actor ks"
| "ks_apply dstr (Deactivate now wall actor reply) ks = snd (ks_deactivate now wall actor reply ks)"
| "ks_apply dstr (IsActive now reply) ks = snd (ks_is_active now reply ks)"
| "ks_apply dstr (AutoCheck now wall dl mdl dd mdd) ks = auto_check dstr now wall dl mdl dd mdd ks"
| "ks_apply dstr (Hierarchical now wall dd name sdd) ks = snd (hierarchical_check dstr now wall dd name sdd ks)"

inductive ks_reach :: "(decimal \<Rightarrow> string) \<Rightarrow> (ks_event \<Rightarrow> bool) \<Rightarrow> kill_switch \<Rightarrow> kill_switch \<Rightarrow> bool"
  for dstr allowed s0 where
  start: "ks_reach dstr allowed s0 s0"
| step: "ks_reach dstr allowed s0 s \<Longrightarrow> allowed e \<Longrightarrow> ks_reach dstr allowed s0 (ks_apply dstr e s)"

section \<open>Lemmas\<close>

lemma append_audit_frame [simp]:
  "ks_redis (append_audit e ks) = ks_redis ks"
  "ks_cached_active (append_audit e ks) = ks_cached_active ks"
  "ks_cached_reason (append_audit e ks) = ks_cached_reason ks"
  "ks_cache_ts (append_audit e ks) = ks_cache_ts ks"
  "ks_cache_ttl (append_audit e ks) = ks_cache_ttl ks"
  by (simp_all add: append_audit_def Let_def)

lemma append_audit_length:
  "length (ks_audit_log ks) \<le> MAX_AUDIT_ENTRIES \<Longrightarrow> length (ks_audit_log (append_audit e ks)) \<le> MAX_AUDIT_ENTRIES"
  by (simp add: append_audit_def Let_def MAX_AUDIT_ENTRIES_def)

lemma append_audit_last: "last (ks_audit_log (append_audit e ks)) = e"
  by (simp add: append_audit_def Let_def last_n_def MAX_AUDIT_ENTRIES_def last_drop)

lemma ks_activate_frame [simp]:
  "ks_redis (ks_activate n w r a ks) = ks_redis ks"
  "ks_cached_active (ks_activate n w r a ks)"
  "ks_cached_reason (ks_activate n w r a ks) = r"
  "ks_cache_ts (ks_activate n w r a ks) = n"
  by (simp_all add: ks_activate_def)

lemma trigger_frame [simp]:
  "ks_redis (trigger n w r a b ks) = ks_redis ks" "ks_cached_active (trigger n w r a b ks)"
  by (simp_all add: trigger_def)

lemma ks_apply_audit:
  assumes "length (ks_audit_log ks) \<le> MAX_AUDIT_ENTRIES"
  shows "length (ks_audit_log (ks_apply dstr e ks)) \<le> MAX_AUDIT_ENTRIES"
proof (cases e)
  case (IsActive now reply)
  then show ?thesis using assms by (simp add: ks_is_active_def refresh_cache_def split: get_reply.split)
next
  case (Hierarchical now wall dd name sdd)
  then show ?thesis using assms append_audit_length
    by (simp add: hierarchical_check_def ks_activate_def Let_def split: option.split)
qed (use assms append_audit_length in
    \<open>simp_all add: ks_connect_def ks_activate_def ks_deactivate_def auto_check_def trigger_def Let_def\<close>)

text \<open>An event that cannot open a closed switch.\<close>

fun keeps_closed :: "ks_event \<Rightarrow> bool" where
  "keeps_closed (Connect now ok) = (\<not> ok)"
| "keeps_closed (Deactivate now wall actor reply) = False"
| "keeps_closed (IsActive now Missing) = False"
| "keeps_closed (IsActive now (Payload active reason)) = (active = Some True)"
| "keeps_closed e = True"

lemma ks_apply_keeps_closed:
  assumes "ks_cached_active ks" "keeps_closed e"
  shows "ks_cached_active (ks_apply dstr e ks)"
proof (cases e)
  case (IsActive now reply)
  then show ?thesis using assms by (cases reply) (simp_all add: ks_is_active_def refresh_cache_def)
next
  case (Hierarchical now wall dd name sdd)
  then show ?thesis using assms by (simp add: hierarchical_check_def Let_def split: option.split)
qed (use assms in \<open>simp_all add: ks_connect_def auto_check_def\<close>)

lemma ks_reach_keeps_closed:
  "ks_reach dstr keeps_closed s0 s \<Longrightarrow> ks_cached_active s0 \<Longrightarrow> ks_cached_active s"
  by (induction rule: ks_reach.induct) (auto intro: ks_apply_keeps_closed)

lemma check_or_raise_closed:
  assumes "ks_cached_active ks" "keeps_closed (IsActive now reply)"
  shows "fst (check_or_raise now reply ks) \<noteq> Inr ()"
  using assms by (cases reply) (simp_all add: check_or_raise_def ks_is_active_def refresh_cache_def)

text \<open>Without a client the reply is not read at all.\<close>

fun never_connects :: "ks_event \<Rightarrow> bool" where
  "never_connects (Connect now ok) = (\<not> ok)"
| "never_connects (Deactivate now wall actor reply) = False"
| "never_connects e = True"

lemma ks_apply_offline:
  assumes "ks_cached_active ks" "\<not> ks_redis ks" "never_connects e"
  shows "ks_cached_active (ks_apply dstr e ks) \<and> \<not> ks_redis (ks_apply dstr e ks)"
  using assms
  by (cases e) (simp_all add: ks_connect_def ks_is_active_def auto_check_def hierarchical_check_def Let_def
      split: option.split)

lemma ks_reach_offline:
  "ks_reach dstr never_connects s0 s \<Longrightarrow> ks_cached_active s0 \<Longrightarrow> \<not> ks_redis s0 \<Longrightarrow>
     ks_cached_active s \<and> \<not> ks_redis s"
  by (induction rule: ks_reach.induct) (auto dest: ks_apply_offline)

text \<open>The three bands of the hierarchical check.\<close>

lemma hierarchical_global:
  "5 \<le> dd \<Longrightarrow> hierarchical_check dstr now wall dd name sdd ks = (a, ks') \<Longrightarrow>
     ha_level a = 3 \<and> ha_sizing_multiplier a = 0 \<and> ks_cached_active ks'"
  by (auto simp: hierarchical_check_def Let_def)

lemma hierarchical_portfolio:
  "3 \<le> dd \<Longrightarrow> dd < 5 \<Longrightarrow> hierarchical_check dstr now wall dd name sdd ks = (a, ks') \<Longrightarrow>
     ha_level a = 2 \<and> ha_sizing_multiplier a = 1 / 2 \<and> ks_cached_active ks' = ks_cached_active ks"
  by (auto simp: hierarchical_check_def Let_def)

lemma hierarchical_strategy:
  "dd < 3 \<Longrightarrow> hierarchical_check dstr now wall dd name sdd ks = (a, ks') \<Longrightarrow>
     (ha_level a = 1 \<or> ha_level a = 0 \<and> ks' = ks) \<and> ha_sizing_multiplier a = 1 \<and>
     ks_cached_active ks' = ks_cached_active ks"
  by (auto simp: hierarchical_check_def Let_def split: option.splits if_splits)

section \<open>Properties\<close>

text \<open>
  C7. Fail-closed start: a switch that has not connected to Redis blocks trading. Whatever is asked
  of it (failed connections, activations, automatic and hierarchical checks, queries) short of a
  manual deactivation, every check raises \<open>RiskLimitExceededError\<close>.
\<close>

theorem kill_switch_fail_closed:
  assumes "ks_reach dstr never_connects (new_kill_switch ttl) ks"
  shows "fst (check_or_raise now reply ks) = Inl RiskLimitExceededError"
proof -
  have "ks_cached_active ks \<and> \<not> ks_redis ks"
    using ks_reach_offline [OF assms] by (simp add: new_kill_switch_def)
  then show ?thesis by (simp add: check_or_raise_def ks_is_active_def)
qed

theorem kill_switch_fail_closed_witness:
  "fst (check_or_raise 100 Missing (ks_apply (\<lambda>_. ''x'') (Connect 3 False) (new_kill_switch 1))) =
     Inl RiskLimitExceededError"
  by (rule kill_switch_fail_closed [of "\<lambda>_. ''x''" 1]) (intro ks_reach.step ks_reach.start, simp)

text \<open>
  C8. An activated switch stays closed: after \<open>activate\<close>, no sequence of failed connections, further
  checks and queries lets a check pass, as long as nobody deactivates it and Redis answers with an
  active payload, corrupt data or an error. An absent key is the exception (next property).
\<close>

theorem kill_switch_stays_closed:
  assumes "ks_reach dstr keeps_closed (ks_activate t w reason actor ks0) ks" "keeps_closed (IsActive now reply)"
  shows "fst (check_or_raise now reply ks) \<noteq> Inr ()"
  using check_or_raise_closed [OF ks_reach_keeps_closed [OF assms(1)] assms(2)] by simp

theorem kill_switch_stays_closed_witness:
  "fst (check_or_raise 9 CorruptJson (ks_apply (\<lambda>_. ''x'') (IsActive 5 GetConnFailure)
      (ks_activate 1 1 ''stop'' ''manual'' (ks_connect 0 True (new_kill_switch 1))))) \<noteq> Inr ()"
  by (rule kill_switch_stays_closed [of "\<lambda>_. ''x''" 1 1 "''stop''" "''manual''" "ks_connect 0 True (new_kill_switch 1)"],
      intro ks_reach.step ks_reach.start) simp_all

text \<open>
  The exception is real: when the write of an activation to Redis fails (the error is swallowed),
  the first query after the cache lifetime finds no key and reopens trading, whatever the reason
  for the activation was.
\<close>

theorem kill_switch_lost_activation:
  assumes "ks_redis ks0" "ks_cache_ttl ks0 \<le> flt_round (now - t)"
  shows "fst (check_or_raise now Missing (ks_activate t w reason actor ks0)) = Inr ()"
  using assms by (simp add: check_or_raise_def ks_is_active_def refresh_cache_def ks_activate_def not_less)

theorem kill_switch_lost_activation_witness:
  "fst (check_or_raise 3 Missing (ks_activate 1 1 ''drawdown'' ''system'' (ks_connect 0 True (new_kill_switch 1)))) = Inr ()"
  using kill_switch_lost_activation [of "ks_connect 0 True (new_kill_switch 1)" 3 1 1 "''drawdown''" "''system''"]
    flt_round_int [of 2]
  by (simp add: ks_connect_def new_kill_switch_def)

text \<open>
  \<open>auto_check\<close> trips the switch exactly when the daily loss or the drawdown reaches its limit;
  otherwise it changes nothing. A trip is recorded and blocks the next check inside the cache
  lifetime.
\<close>

theorem auto_check_trips_iff:
  "let ks' = auto_check dstr now wall dl mdl dd mdd ks in
     (if mdl \<le> dl \<or> mdd \<le> dd
      then ks_cached_active ks' \<and> ks_cache_ts ks' = now \<and>
           ae_action (last (ks_audit_log ks')) = ''ACTIVATED'' \<and>
           ae_actor (last (ks_audit_log ks')) = ''auto_check''
      else ks' = ks)"
  by (simp add: auto_check_def trigger_def ks_activate_def append_audit_last Let_def)

text \<open>
  The hierarchical check escalates: the level is 3 from 5% portfolio drawdown, 2 from 3%, 1 for a
  paused strategy and 0 otherwise; only level 3 activates the switch (and then zero sizing is
  returned); a deeper portfolio drawdown never returns a larger multiplier.
\<close>

theorem hierarchical_escalation:
  assumes "dd \<le> dd'"
  shows "let r = hierarchical_check dstr now wall dd name sdd ks;
             r' = hierarchical_check dstr now wall dd' name sdd ks in
     ha_sizing_multiplier (fst r') \<le> ha_sizing_multiplier (fst r) \<and>
     (2 \<le> ha_level (fst r) \<longrightarrow> ha_level (fst r) \<le> ha_level (fst r')) \<and>
     (ha_level (fst r) = 3 \<longleftrightarrow> 5 \<le> dd) \<and> (ha_level (fst r) = 2 \<longleftrightarrow> 3 \<le> dd \<and> dd < 5) \<and>
     (ha_level (fst r) = 3 \<longrightarrow> ks_cached_active (snd r) \<and> ha_sizing_multiplier (fst r) = 0) \<and>
     (ha_level (fst r) \<noteq> 3 \<longrightarrow> ks_cached_active (snd r) = ks_cached_active ks) \<and>
     (ha_level (fst r) = 0 \<longrightarrow> snd r = ks)"
proof -
  obtain a k where r: "hierarchical_check dstr now wall dd name sdd ks = (a, k)" by fastforce
  obtain a' k' where r': "hierarchical_check dstr now wall dd' name sdd ks = (a', k')" by fastforce
  consider "dd < 3" | "3 \<le> dd" "dd < 5" | "5 \<le> dd" by linarith
  then show ?thesis
  proof cases
    case 1
    have "ha_sizing_multiplier a' \<le> 1"
      using hierarchical_global [OF _ r'] hierarchical_strategy [OF _ r'] hierarchical_portfolio [OF _ _ r'] by (cases "dd' < 3"; cases "5 \<le> dd'") auto
    then show ?thesis using 1 hierarchical_strategy [OF 1 r] unfolding Let_def r r' by auto
  next
    case 2
    have "ha_sizing_multiplier a' \<le> 1 / 2 \<and> 2 \<le> ha_level a'"
      using 2 assms hierarchical_global [OF _ r'] hierarchical_portfolio [OF _ _ r'] by (cases "5 \<le> dd'") auto
    then show ?thesis using 2 hierarchical_portfolio [OF 2 r] unfolding Let_def r r' by auto
  next
    case 3
    then have "ha_sizing_multiplier a' = 0 \<and> ha_level a' = 3" using assms hierarchical_global [OF _ r'] by simp
    then show ?thesis using 3 hierarchical_global [OF 3 r] unfolding Let_def r r' by auto
  qed
qed

theorem hierarchical_escalation_witness:
  "let r = hierarchical_check (\<lambda>_. ''x'') 0 0 2 None None (new_kill_switch 1);
       r' = hierarchical_check (\<lambda>_. ''x'') 0 0 4 None None (new_kill_switch 1) in
     ha_sizing_multiplier (fst r') \<le> ha_sizing_multiplier (fst r) \<and>
     (2 \<le> ha_level (fst r) \<longrightarrow> ha_level (fst r) \<le> ha_level (fst r')) \<and>
     (ha_level (fst r) = 3 \<longleftrightarrow> 5 \<le> (2 :: decimal)) \<and> (ha_level (fst r) = 2 \<longleftrightarrow> 3 \<le> (2 :: decimal) \<and> (2 :: decimal) < 5) \<and>
     (ha_level (fst r) = 3 \<longrightarrow> ks_cached_active (snd r) \<and> ha_sizing_multiplier (fst r) = 0) \<and>
     (ha_level (fst r) \<noteq> 3 \<longrightarrow> ks_cached_active (snd r) = ks_cached_active (new_kill_switch 1)) \<and>
     (ha_level (fst r) = 0 \<longrightarrow> snd r = new_kill_switch 1)"
  by (rule hierarchical_escalation) simp

text \<open>
  The audit buffer never holds more than 200 entries, after any sequence of operations on a
  new switch, and the newest entry is always kept.
\<close>

theorem kill_switch_audit_bounded:
  assumes "ks_reach dstr (\<lambda>_. True) (new_kill_switch ttl) ks"
  shows "length (ks_audit_log ks) \<le> 200 \<and> last (ks_audit_log (append_audit e ks)) = e"
proof -
  have "length (ks_audit_log ks) \<le> MAX_AUDIT_ENTRIES"
    using assms by (induction rule: ks_reach.induct) (auto intro: ks_apply_audit simp: new_kill_switch_def)
  then show ?thesis by (simp add: MAX_AUDIT_ENTRIES_def append_audit_last)
qed

theorem kill_switch_audit_bounded_witness:
  "\<forall>e. length (ks_audit_log (ks_activate 1 1 ''r'' ''a'' (new_kill_switch 1))) \<le> 200 \<and>
     last (ks_audit_log (append_audit e (ks_activate 1 1 ''r'' ''a'' (new_kill_switch 1)))) = e"
proof
  fix e
  have "ks_reach (\<lambda>_. ''x'') (\<lambda>_. True) (new_kill_switch 1)
      (ks_apply (\<lambda>_. ''x'') (Activate 1 1 ''r'' ''a'') (new_kill_switch 1))"
    by (intro ks_reach.step ks_reach.start) simp
  then show "length (ks_audit_log (ks_activate 1 1 ''r'' ''a'' (new_kill_switch 1))) \<le> 200 \<and>
     last (ks_audit_log (append_audit e (ks_activate 1 1 ''r'' ''a'' (new_kill_switch 1)))) = e"
    using kill_switch_audit_bounded [of "\<lambda>_. ''x''" 1] by simp
qed

end
