(* ===== verification/Broker.thy ===== *)
theory Broker
  imports Extended_Decimals
begin

text \<open>
  \<open>mt5_bridge/connector.py\<close> (class \<open>MT5Connector\<close>): the calls the order manager and the position
  tracker make. The MetaTrader5 package is not part of the repository; what it answers during one call of
  the bridge is a record \<open>terminal\<close>, an argument of every definition. Prices, volumes and money are the
  decimals that \<open>to_decimal\<close> makes of the package's floats.
\<close>

section \<open>Errors of the bridge\<close>

text \<open>The reason text of a \<open>SignalRejectedError\<close> is represented by the check that raised it.\<close>

datatype order_rejection =
    Duplicate | TooOld | BadDirection | LotsNotPositive | NoStopLoss
  | BuyStopSide | BuyTargetSide | SellStopSide | SellTargetSide
  | PositionLimit | SpreadTooHigh | NoMargin | DrawdownLimit | DailyLossLimit

datatype bridge_error = SignalRejectedError order_rejection | BrokerError | Uncaught pyexc

type_synonym 'a bridge = "bridge_error + 'a"

fun py :: "'a result \<Rightarrow> 'a bridge" where
  "py (Inl e) = Inl (Uncaught e)"
| "py (Inr x) = Inr x"

lemma py_eq [simp]:
  "py r = Inr x \<longleftrightarrow> r = Inr x" "py r = Inl (Uncaught e) \<longleftrightarrow> r = Inl e"
  "py r \<noteq> Inl BrokerError" "py r \<noteq> Inl (SignalRejectedError j)"
  by (cases r; auto)+

section \<open>The terminal\<close>

record symbol_info =
  si_bid :: decimal
  si_ask :: decimal
  si_spread :: int
  si_digits :: int
  si_trade_contract_size :: decimal
  si_volume_min :: decimal
  si_volume_max :: decimal
  si_volume_step :: decimal

record account_info =
  ac_balance :: decimal
  ac_equity :: decimal
  ac_margin :: decimal
  ac_free_margin :: decimal
  ac_profit :: decimal
  ac_leverage :: int

record position =
  po_ticket :: int
  po_symbol :: string
  po_type :: string
  po_volume :: decimal
  po_price_open :: decimal
  po_price_current :: decimal
  po_sl :: decimal
  po_tp :: decimal
  po_profit :: decimal
  po_swap :: decimal
  po_commission :: decimal
  po_time :: int
  po_magic :: int
  po_comment :: string

record tick =
  tk_bid :: decimal
  tk_ask :: decimal

datatype trade_action = TRADE_ACTION_DEAL | TRADE_ACTION_PENDING

datatype order_kind = ORDER_TYPE_BUY | ORDER_TYPE_SELL | ORDER_TYPE_BUY_LIMIT | ORDER_TYPE_SELL_LIMIT

text \<open>
  The request dictionaries; the constant entries \<open>type_time\<close> and \<open>type_filling\<close> are left out. A
  \<open>float\<close> made of a special decimal stays special.
\<close>

record order_request =
  rq_action :: trade_action
  rq_symbol :: string
  rq_volume :: xdecimal
  rq_kind :: order_kind
  rq_price :: xdecimal
  rq_sl :: xdecimal
  rq_tp :: xdecimal
  rq_deviation :: int
  rq_magic :: int
  rq_comment :: string

record sltp_request =
  sr_position :: int
  sr_symbol :: string
  sr_sl :: decimal
  sr_tp :: decimal
  sr_magic :: int

record order_reply =
  rp_retcode :: int
  rp_order :: int
  rp_price :: decimal
  rp_volume :: decimal

record deal =
  dl_profit :: decimal
  dl_price :: decimal
  dl_commission :: decimal
  dl_swap :: decimal

record terminal =
  tm_connected :: bool
  tm_installed :: bool
  tm_retcode_done :: int
  tm_account :: "account_info option"
  tm_symbol :: "string \<Rightarrow> symbol_info option"
  tm_positions :: "position list option"
  tm_position :: "int \<Rightarrow> position option"
  tm_tick :: "string \<Rightarrow> tick option"
  tm_calc_margin :: "order_kind \<Rightarrow> string \<Rightarrow> xdecimal \<Rightarrow> decimal \<Rightarrow> decimal option"
  tm_order_send :: "order_request \<Rightarrow> order_reply option"
  tm_sltp_send :: "sltp_request \<Rightarrow> order_reply option"
  tm_deals :: "int \<Rightarrow> deal list option"

fun xflt :: "xdecimal \<Rightarrow> xdecimal" where
  "xflt (Fin x) = Fin (flt_round x)"
| "xflt x = x"

section \<open>The connector\<close>

text \<open>\<open>_ensure_connected()\<close> and \<open>import MetaTrader5\<close>, with which every query starts.\<close>

definition ensure_ready :: "terminal \<Rightarrow> unit bridge" where
  "ensure_ready t =
     (if \<not> tm_connected t then Inl BrokerError
      else if \<not> tm_installed t then Inl (Uncaught ImportError) else Inr ())"

definition get_account_info :: "terminal \<Rightarrow> account_info bridge" where
  "get_account_info t =
     rbind (ensure_ready t) (\<lambda>_. case tm_account t of None \<Rightarrow> Inl BrokerError | Some a \<Rightarrow> Inr a)"

definition get_symbol_info :: "terminal \<Rightarrow> string \<Rightarrow> symbol_info option bridge" where
  "get_symbol_info t symbol = rbind (ensure_ready t) (\<lambda>_. Inr (tm_symbol t symbol))"

definition get_open_positions :: "terminal \<Rightarrow> position list bridge" where
  "get_open_positions t = rbind (ensure_ready t) (\<lambda>_. Inr (opt_get (tm_positions t) []))"

definition check_margin :: "terminal \<Rightarrow> string \<Rightarrow> string \<Rightarrow> xdecimal \<Rightarrow> (decimal \<times> decimal) option bridge" where
  "check_margin t symbol dir lots =
     rbind (ensure_ready t) (\<lambda>_.
       case tm_tick t symbol of
         None \<Rightarrow> Inr None
       | Some tk \<Rightarrow>
           (case tm_calc_margin t (if dir = ''BUY'' then ORDER_TYPE_BUY else ORDER_TYPE_SELL) symbol lots
                   (if dir = ''BUY'' then tk_ask tk else tk_bid tk) of
              None \<Rightarrow> Inr None
            | Some margin \<Rightarrow>
                (case tm_account t of
                   None \<Rightarrow> Inr None
                 | Some a \<Rightarrow> if ac_free_margin a < margin then Inl BrokerError
                             else Inr (Some (margin, ac_free_margin a)))))"

text \<open>\<open>modify_position_sl\<close>: the request it sends, if any, and whether the terminal acknowledged it.\<close>

definition modify_position_sl :: "terminal \<Rightarrow> int \<Rightarrow> decimal \<Rightarrow> sltp_request option \<times> bool bridge" where
  "modify_position_sl t ticket new_sl =
     (case ensure_ready t of
        Inl e \<Rightarrow> (None, Inl e)
      | Inr _ \<Rightarrow>
          (case tm_position t ticket of
             None \<Rightarrow> (None, Inr False)
           | Some pos \<Rightarrow>
               let rq = \<lparr>sr_position = ticket, sr_symbol = po_symbol pos, sr_sl = new_sl,
                         sr_tp = flt_round (po_tp pos), sr_magic = po_magic pos\<rparr>
               in (Some rq,
                   Inr (case tm_sltp_send t rq of
                          None \<Rightarrow> False
                        | Some rp \<Rightarrow> rp_retcode rp = tm_retcode_done t))))"

section \<open>Lemmas\<close>

lemma ensure_ready_ok: "ensure_ready t = Inr u \<longleftrightarrow> tm_connected t \<and> tm_installed t"
  by (auto simp: ensure_ready_def)

lemma get_symbol_info_ok:
  "get_symbol_info t symbol = Inr i \<longleftrightarrow> tm_connected t \<and> tm_installed t \<and> i = tm_symbol t symbol"
  by (auto simp: get_symbol_info_def ensure_ready_ok)

lemma get_open_positions_ok:
  "get_open_positions t = Inr ps \<longleftrightarrow> tm_connected t \<and> tm_installed t \<and> ps = opt_get (tm_positions t) []"
  by (auto simp: get_open_positions_def ensure_ready_ok)

lemma get_account_info_ok:
  "get_account_info t = Inr a \<longleftrightarrow> tm_connected t \<and> tm_installed t \<and> tm_account t = Some a"
  by (auto simp: get_account_info_def ensure_ready_ok split: option.splits)

text \<open>A quoted margin within the free margin is all that an accepted margin check means.\<close>

lemma check_margin_ok:
  assumes "check_margin t symbol dir lots = Inr r" "tm_tick t symbol = Some tk" "tm_account t = Some a"
    and "tm_calc_margin t (if dir = ''BUY'' then ORDER_TYPE_BUY else ORDER_TYPE_SELL) symbol lots
           (if dir = ''BUY'' then tk_ask tk else tk_bid tk) = Some margin"
  shows "margin \<le> ac_free_margin a"
  using assms by (auto simp: check_margin_def split: if_splits)

end
