(* ===== verification/Order_Manager.thy ===== *)
theory Order_Manager
  imports Broker
begin

text \<open>
  \<open>mt5_bridge/order_manager.py\<close> (class \<open>OrderManager\<close>): de-duplication, the pre-trade checks, the lot
  clamp and the submission of market and limit orders. A call takes the terminal's answers and its three
  clock readings and returns the requests it sent, its outcome and the new manager; the lock around
  \<open>execute_signal\<close> makes calls sequential, so a history is a list of calls.
\<close>

section \<open>State and input\<close>

record order_manager =
  om_max_lot_size :: decimal
  om_max_position_count :: int
  om_dedup_window_sec :: int
  om_max_spread_points :: int
  om_signal_max_age_sec :: int
  om_max_daily_loss_pct :: decimal
  om_max_drawdown_pct :: decimal
  om_recent :: "string \<rightharpoonup> rat"

text \<open>The signal dictionary, numeric entries as they come from outside.\<close>

record order_signal =
  os_signal_id :: string
  os_symbol :: "string option"
  os_direction :: "string option"
  os_suggested_lots :: num_field
  os_stop_loss :: num_field
  os_take_profit :: num_field
  os_entry_price :: num_field
  os_limit_price :: num_field
  os_timestamp_ms :: "int option"
  os_order_type :: "string option"

text \<open>The result dictionary; \<open>None\<close> for an absent entry or the empty order id.\<close>

record exec_result =
  ex_status :: string
  ex_order_id :: "int option"
  ex_error_code :: "int option"
  ex_executed_price :: decimal
  ex_requested_price :: "xdecimal option"
  ex_slippage :: decimal
  ex_volume :: "xdecimal option"

section \<open>Lot clamp\<close>

text \<open>\<open>x // y\<close> for decimals truncates toward zero and needs a quotient of at most 28 digits.\<close>

definition dec_floordiv :: "decimal \<Rightarrow> decimal \<Rightarrow> decimal result" where
  "dec_floordiv x y =
     (let q = (if 0 \<le> x / y then \<lfloor>x / y\<rfloor> else \<lceil>x / y\<rceil>)
      in if 10 ^ 28 \<le> \<bar>q\<bar> then Inl InvalidOperation else Inr (of_int q))"

fun floor_to_step :: "xdecimal \<Rightarrow> decimal \<Rightarrow> xdecimal result" where
  "floor_to_step (Fin x) step = rbind (dec_floordiv x step) (\<lambda>q. Inr (Fin (dec_mul q step)))"
| "floor_to_step x step = Inr x"

definition clamp_lot_size :: "order_manager \<Rightarrow> terminal \<Rightarrow> xdecimal \<Rightarrow> string \<Rightarrow> xdecimal bridge" where
  "clamp_lot_size om t lots symbol =
     rbind (py (xless (Fin (om_max_lot_size om)) lots)) (\<lambda>over.
     let lots = (if over then Fin (om_max_lot_size om) else lots)
     in rbind (get_symbol_info t symbol) (\<lambda>info.
        case info of
          None \<Rightarrow> Inr lots
        | Some i \<Rightarrow>
            rbind (if 0 < si_volume_step i then py (floor_to_step lots (si_volume_step i)) else Inr lots) (\<lambda>lots.
            rbind (py (xless lots (Fin (si_volume_min i)))) (\<lambda>under.
              Inr (if under then Fin (si_volume_min i) else lots)))))"

section \<open>Pre-trade checks\<close>

definition refuse_if :: "bool \<Rightarrow> order_rejection \<Rightarrow> unit bridge" where
  "refuse_if b r = guard b (SignalRejectedError r)"

definition check_age :: "order_manager \<Rightarrow> rat \<Rightarrow> order_signal \<Rightarrow> unit bridge" where
  "check_age om now s =
     (case os_timestamp_ms s of
        None \<Rightarrow> Inr ()
      | Some ms \<Rightarrow>
          if 0 < om_signal_max_age_sec om
          then refuse_if (of_int (om_signal_max_age_sec om) < flt_round (now - flt_round (of_int ms / 1000))) TooOld
          else Inr ())"

definition check_direction :: "order_signal \<Rightarrow> unit bridge" where
  "check_direction s = refuse_if (opt_get (os_direction s) [] \<notin> {''BUY'', ''SELL''}) BadDirection"

definition check_positive :: "num_field \<Rightarrow> order_rejection \<Rightarrow> unit bridge" where
  "check_positive field r =
     rbind (py (parse_num 0 field)) (\<lambda>x. rbind (py (xge (Fin 0) x)) (\<lambda>b. refuse_if b r))"

text \<open>The coherence of stop and target with the entry price, when the signal has one.\<close>

definition check_levels :: "order_signal \<Rightarrow> unit bridge" where
  "check_levels s =
     rbind (py (parse_num 0 (os_stop_loss s))) (\<lambda>sl.
     rbind (py (parse_num 0 (os_take_profit s))) (\<lambda>tp.
     rbind (py (parse_num 0 (os_entry_price s))) (\<lambda>entry.
     rbind (py (xless (Fin 0) entry)) (\<lambda>has_entry.
       if \<not> has_entry \<or> opt_get (os_direction s) [] \<notin> {''BUY'', ''SELL''} then Inr ()
       else if opt_get (os_direction s) [] = ''BUY''
       then rbind (py (xge sl entry)) (\<lambda>b. rbind (refuse_if b BuyStopSide) (\<lambda>_.
            rbind (py (xless (Fin 0) tp)) (\<lambda>has_tp.
              if has_tp then rbind (py (xge entry tp)) (\<lambda>b. refuse_if b BuyTargetSide) else Inr ())))
       else rbind (py (xge entry sl)) (\<lambda>b. rbind (refuse_if b SellStopSide) (\<lambda>_.
            rbind (py (xless (Fin 0) tp)) (\<lambda>has_tp.
              if has_tp then rbind (py (xge tp entry)) (\<lambda>b. refuse_if b SellTargetSide) else Inr ())))))))"

definition check_position_count :: "order_manager \<Rightarrow> terminal \<Rightarrow> unit bridge" where
  "check_position_count om t =
     rbind (get_open_positions t) (\<lambda>ps. refuse_if (om_max_position_count om \<le> int (length ps)) PositionLimit)"

definition check_spread :: "order_manager \<Rightarrow> terminal \<Rightarrow> order_signal \<Rightarrow> unit bridge" where
  "check_spread om t s =
     rbind (get_symbol_info t (opt_get (os_symbol s) [])) (\<lambda>info.
       case info of
         None \<Rightarrow> Inr ()
       | Some i \<Rightarrow> refuse_if (om_max_spread_points om < si_spread i) SpreadTooHigh)"

definition check_free_margin :: "order_manager \<Rightarrow> terminal \<Rightarrow> order_signal \<Rightarrow> unit bridge" where
  "check_free_margin om t s =
     (let symbol = opt_get (os_symbol s) []; dir = opt_get (os_direction s) []
      in rbind (py (parse_num 0 (os_suggested_lots s))) (\<lambda>lots.
         rbind (clamp_lot_size om t lots symbol) (\<lambda>lots_val.
         if symbol \<noteq> [] \<and> dir \<in> {''BUY'', ''SELL''}
         then rbind (py (xless (Fin 0) lots_val)) (\<lambda>pos.
                if \<not> pos then Inr ()
                else case check_margin t symbol dir (xflt lots_val) of
                       Inl BrokerError \<Rightarrow> Inl (SignalRejectedError NoMargin)
                     | Inl e \<Rightarrow> Inl e
                     | Inr _ \<Rightarrow> Inr ())
         else Inr ())))"

definition account_drawdown_pct :: "account_info \<Rightarrow> decimal" where
  "account_drawdown_pct a = dec_mul (dec_div (dec_sub (ac_balance a) (ac_equity a)) (ac_balance a)) 100"

definition account_daily_loss_pct :: "account_info \<Rightarrow> decimal" where
  "account_daily_loss_pct a =
     (if ac_profit a < 0 then dec_mul (dec_div (ac_profit a) (ac_balance a)) (- 100) else 0)"

text \<open>The \<open>except Exception\<close> clause: an unavailable account is logged and the check passes.\<close>

definition check_account_limits :: "order_manager \<Rightarrow> terminal \<Rightarrow> unit bridge" where
  "check_account_limits om t =
     (case get_account_info t of
        Inl e \<Rightarrow> Inr ()
      | Inr a \<Rightarrow>
          if 0 < ac_balance a
          then rbind (refuse_if (om_max_drawdown_pct om \<le> account_drawdown_pct a) DrawdownLimit) (\<lambda>_.
               refuse_if (om_max_daily_loss_pct om \<le> account_daily_loss_pct a) DailyLossLimit)
          else Inr ())"

definition validate_signal :: "order_manager \<Rightarrow> terminal \<Rightarrow> rat \<Rightarrow> order_signal \<Rightarrow> unit bridge" where
  "validate_signal om t now s =
     rbind (check_age om now s) (\<lambda>_.
     rbind (check_direction s) (\<lambda>_.
     rbind (check_positive (os_suggested_lots s) LotsNotPositive) (\<lambda>_.
     rbind (check_positive (os_stop_loss s) NoStopLoss) (\<lambda>_.
     rbind (check_levels s) (\<lambda>_.
     rbind (check_position_count om t) (\<lambda>_.
     rbind (check_spread om t s) (\<lambda>_.
     rbind (check_free_margin om t s) (\<lambda>_.
     check_account_limits om t))))))))"

section \<open>Submission\<close>

definition rejected_result :: "order_reply \<Rightarrow> exec_result" where
  "rejected_result rp =
     \<lparr>ex_status = ''REJECTED'', ex_order_id = None, ex_error_code = Some (rp_retcode rp), ex_executed_price = 0,
      ex_requested_price = None, ex_slippage = 0, ex_volume = None\<rparr>"

definition submit_order ::
  "terminal \<Rightarrow> string \<Rightarrow> string \<Rightarrow> xdecimal \<Rightarrow> xdecimal \<Rightarrow> xdecimal \<Rightarrow> string \<Rightarrow> order_request list \<times> exec_result bridge" where
  "submit_order t symbol dir lots sl tp comment =
     (if \<not> tm_installed t then ([], Inl BrokerError)
      else case tm_tick t symbol of
        None \<Rightarrow> ([], Inl BrokerError)
      | Some tk \<Rightarrow>
          let price = (if dir = ''BUY'' then tk_ask tk else tk_bid tk);
              rq = \<lparr>rq_action = TRADE_ACTION_DEAL, rq_symbol = symbol, rq_volume = xflt lots,
                    rq_kind = (if dir = ''BUY'' then ORDER_TYPE_BUY else ORDER_TYPE_SELL), rq_price = Fin price,
                    rq_sl = xflt sl, rq_tp = xflt tp, rq_deviation = 20, rq_magic = 123456, rq_comment = comment\<rparr>
          in ([rq],
              case tm_order_send t rq of
                None \<Rightarrow> Inl BrokerError
              | Some rp \<Rightarrow>
                  if rp_retcode rp \<noteq> tm_retcode_done t then Inr (rejected_result rp)
                  else let raw_slippage = dec_sub (rp_price rp) price
                       in Inr \<lparr>ex_status = ''FILLED'', ex_order_id = Some (rp_order rp), ex_error_code = None,
                               ex_executed_price = rp_price rp, ex_requested_price = Some (Fin price),
                               ex_slippage = (if dir = ''BUY'' then raw_slippage else dec_neg raw_slippage),
                               ex_volume = Some (Fin (rp_volume rp))\<rparr>))"

definition submit_limit_order ::
  "terminal \<Rightarrow> string \<Rightarrow> string \<Rightarrow> xdecimal \<Rightarrow> xdecimal \<Rightarrow> xdecimal \<Rightarrow> xdecimal \<Rightarrow> string \<Rightarrow> order_request list \<times> exec_result bridge" where
  "submit_limit_order t symbol dir lots price sl tp comment =
     (if \<not> tm_installed t then ([], Inl BrokerError)
      else let rq = \<lparr>rq_action = TRADE_ACTION_PENDING, rq_symbol = symbol, rq_volume = xflt lots,
                     rq_kind = (if dir = ''BUY'' then ORDER_TYPE_BUY_LIMIT else ORDER_TYPE_SELL_LIMIT),
                     rq_price = xflt price, rq_sl = xflt sl, rq_tp = xflt tp, rq_deviation = 20,
                     rq_magic = 123456, rq_comment = comment\<rparr>
           in ([rq],
               case tm_order_send t rq of
                 None \<Rightarrow> Inl BrokerError
               | Some rp \<Rightarrow>
                   if rp_retcode rp \<noteq> tm_retcode_done t then Inr (rejected_result rp)
                   else Inr \<lparr>ex_status = ''PENDING'', ex_order_id = Some (rp_order rp), ex_error_code = None,
                             ex_executed_price = 0, ex_requested_price = Some price, ex_slippage = 0,
                             ex_volume = Some lots\<rparr>))"

section \<open>execute\_signal\<close>

text \<open>The clock readings of one call: in the age check, at registration and in the clean-up.\<close>

record clocks =
  ck_validate :: rat
  ck_register :: rat
  ck_cleanup :: rat

definition cleanup_old_signals :: "rat \<Rightarrow> order_manager \<Rightarrow> order_manager" where
  "cleanup_old_signals now om =
     om\<lparr>om_recent := (\<lambda>sid. case om_recent om sid of
          None \<Rightarrow> None
        | Some ts \<Rightarrow> if of_int (om_dedup_window_sec om) < flt_round (now - ts) then None else Some ts)\<rparr>"

fun required :: "num_field \<Rightarrow> xdecimal result" where
  "required Absent = Inl KeyError"
| "required (Num x) = Inr x"
| "required Garbage = Inl InvalidOperation"

definition limit_price_of :: "order_signal \<Rightarrow> xdecimal result" where
  "limit_price_of s = parse_num 0 (if os_limit_price s = Absent then os_entry_price s else os_limit_price s)"

text \<open>The part of \<open>_execute_signal_locked\<close> between registration and clean-up.\<close>

definition submit_signal :: "order_manager \<Rightarrow> terminal \<Rightarrow> order_signal \<Rightarrow> order_request list \<times> exec_result bridge" where
  "submit_signal om t s =
     (case (case os_symbol s of None \<Rightarrow> Inl (Uncaught KeyError) | Some symbol \<Rightarrow>
            case os_direction s of None \<Rightarrow> Inl (Uncaught KeyError) | Some dir \<Rightarrow>
            rbind (py (required (os_suggested_lots s))) (\<lambda>x.
            rbind (clamp_lot_size om t x symbol) (\<lambda>lots.
            rbind (py (required (os_stop_loss s))) (\<lambda>sl.
            rbind (py (required (os_take_profit s))) (\<lambda>tp. Inr (symbol, dir, lots, sl, tp)))))) of
        Inl e \<Rightarrow> ([], Inl e)
      | Inr (symbol, dir, lots, sl, tp) \<Rightarrow>
          let comment = ''MONEYMAKER:'' @ take 8 (os_signal_id s)
          in if opt_get (os_order_type s) ''MARKET'' = ''LIMIT''
             then (case limit_price_of s of
                     Inl e \<Rightarrow> ([], Inl (Uncaught e))
                   | Inr price \<Rightarrow> submit_limit_order t symbol dir lots price sl tp comment)
             else submit_order t symbol dir lots sl tp comment)"

definition execute_signal ::
  "terminal \<Rightarrow> clocks \<Rightarrow> order_signal \<Rightarrow> order_manager \<Rightarrow> order_request list \<times> exec_result bridge \<times> order_manager" where
  "execute_signal t ck s om =
     (if om_recent om (os_signal_id s) \<noteq> None then ([], Inl (SignalRejectedError Duplicate), om)
      else case validate_signal om t (ck_validate ck) s of
        Inl e \<Rightarrow> ([], Inl e, om)
      | Inr _ \<Rightarrow>
          let om = om\<lparr>om_recent := (om_recent om)(os_signal_id s \<mapsto> ck_register ck)\<rparr>
          in case submit_signal om t s of
               (sent, Inl e) \<Rightarrow> (sent, Inl e, om)
             | (sent, Inr r) \<Rightarrow> (sent, Inr r, cleanup_old_signals (ck_cleanup ck) om))"

section \<open>Lemmas: the lot clamp\<close>

lemma xless_0_cases: "xless (Fin 0) x = Inr True \<Longrightarrow> x = PosInf \<or> (\<exists>v. x = Fin v \<and> 0 < v)"
  by (cases x) auto

lemma dec_floordiv_le:
  assumes "dec_floordiv x step = Inr q" "0 \<le> x" "0 < step"
  shows "0 \<le> q" "q * step \<le> x"
proof -
  have q: "q = of_int \<lfloor>x / step\<rfloor>"
    using assms by (auto simp: dec_floordiv_def Let_def split: if_splits)
  show "0 \<le> q" unfolding q using assms by simp
  have "q \<le> x / step" unfolding q by simp
  then show "q * step \<le> x" using assms by (simp add: pos_le_divide_eq)
qed

text \<open>The clamped size of a positive request: at most the maximum unless the symbol's minimum is larger.\<close>

lemma clamp_lot_size_bounds:
  assumes "clamp_lot_size om t x symbol = Inr l" "xless (Fin 0) x = Inr True"
    and "dec_round (om_max_lot_size om) = om_max_lot_size om" "0 \<le> om_max_lot_size om"
  shows "\<exists>v. l = Fin v \<and> 0 \<le> v \<and>
     (case tm_symbol t symbol of
        None \<Rightarrow> v \<le> om_max_lot_size om
      | Some i \<Rightarrow> si_volume_min i \<le> v \<and> (v \<le> om_max_lot_size om \<or> v = si_volume_min i))"
proof -
  let ?m = "om_max_lot_size om"
  obtain over where o: "xless (Fin ?m) x = Inr over"
    using assms(1) by (auto simp: clamp_lot_size_def)
  define y where "y = (if over then ?m else (case x of Fin v \<Rightarrow> v | _ \<Rightarrow> ?m))"
  have y: "(if over then Fin ?m else x) = Fin y" "0 \<le> y" "y \<le> ?m"
    using xless_0_cases [OF assms(2)] o assms(4) by (auto simp: y_def split: if_splits)
  note c = assms(1) [unfolded clamp_lot_size_def o py.simps rbind.simps Let_def y(1)]
  show ?thesis
  proof (cases "tm_symbol t symbol")
    case None
    then show ?thesis using c y by (auto simp: get_symbol_info_ok)
  next
    case (Some i)
    obtain z where z: "(if 0 < si_volume_step i then py (floor_to_step (Fin y) (si_volume_step i)) else Inr (Fin y)) = Inr z"
        "rbind (py (xless z (Fin (si_volume_min i)))) (\<lambda>under. Inr (if under then Fin (si_volume_min i) else z)) = Inr l"
      using c Some by (auto simp: get_symbol_info_ok)
    have "\<exists>w. z = Fin w \<and> 0 \<le> w \<and> w \<le> ?m"
    proof (cases "0 < si_volume_step i")
      case True
      then obtain q where q: "dec_floordiv y (si_volume_step i) = Inr q" "z = Fin (dec_mul q (si_volume_step i))"
        using z(1) by auto
      note f = dec_floordiv_le [OF q(1) y(2) True]
      have "dec_mul q (si_volume_step i) \<le> ?m"
        unfolding dec_mul_def using f y assms(3) by (intro dec.rnd_le) auto
      then show ?thesis using q f True by (simp add: dec_mul_nonneg)
    next
      case False
      then show ?thesis using z(1) y by auto
    qed
    then show ?thesis using z(2) Some by (auto split: if_splits)
  qed
qed

section \<open>Lemmas: what a validated signal satisfies\<close>

lemma refuse_if_ok [simp]: "refuse_if b r = Inr u \<longleftrightarrow> \<not> b"
  by (simp add: refuse_if_def)

lemma check_positive_ok:
  "check_positive field r = Inr u \<Longrightarrow> \<exists>x. parse_num 0 field = Inr x \<and> xless (Fin 0) x = Inr True"
  by (auto simp: check_positive_def xge_def)

lemma required_of_parsed: "parse_num 0 field = Inr x \<Longrightarrow> xless (Fin 0) x = Inr True \<Longrightarrow> required field = Inr x"
  by (cases field) auto

text \<open>Stop and target against a positive entry price.\<close>

lemma check_levels_ok:
  assumes "check_levels s = Inr u" "parse_num 0 (os_stop_loss s) = Inr sl" "parse_num 0 (os_entry_price s) = Inr (Fin e)"
    "0 < e" "os_direction s = Some dir" "dir \<in> {''BUY'', ''SELL''}"
  shows "if dir = ''BUY'' then xless sl (Fin e) = Inr True else xless (Fin e) sl = Inr True"
  using assms by (auto simp: check_levels_def xge_def split: if_splits)

definition risk_limits_ok :: "order_manager \<Rightarrow> terminal \<Rightarrow> bool" where
  "risk_limits_ok om t \<longleftrightarrow>
     int (length (opt_get (tm_positions t) [])) < om_max_position_count om \<and>
     (\<forall>a. tm_account t = Some a \<longrightarrow> 0 < ac_balance a \<longrightarrow>
        account_drawdown_pct a < om_max_drawdown_pct om \<and> account_daily_loss_pct a < om_max_daily_loss_pct om)"

lemma validate_signal_ok:
  assumes "validate_signal om t now s = Inr u"
  shows "tm_connected t" "tm_installed t" "risk_limits_ok om t"
    and "\<exists>dir. os_direction s = Some dir \<and> dir \<in> {''BUY'', ''SELL''}"
    and "\<exists>x. required (os_suggested_lots s) = Inr x \<and> xless (Fin 0) x = Inr True"
    and "\<exists>x. parse_num 0 (os_stop_loss s) = Inr x \<and> required (os_stop_loss s) = Inr x \<and> xless (Fin 0) x = Inr True"
    and "\<exists>u. check_levels s = Inr u" "\<exists>u. check_spread om t s = Inr u" "\<exists>u. check_age om now s = Inr u"
proof -
  have C: "\<exists>u. check_age om now s = Inr u" "\<exists>u. check_direction s = Inr u"
    "\<exists>u. check_positive (os_suggested_lots s) LotsNotPositive = Inr u"
    "\<exists>u. check_positive (os_stop_loss s) NoStopLoss = Inr u" "\<exists>u. check_levels s = Inr u"
    "\<exists>u. check_position_count om t = Inr u" "\<exists>u. check_spread om t s = Inr u"
    "\<exists>u. check_account_limits om t = Inr u"
    using assms by (auto simp: validate_signal_def)
  show r: "tm_connected t" "tm_installed t"
    using C(6) by (auto simp: check_position_count_def get_open_positions_ok)
  show "risk_limits_ok om t"
    using C(6,8) r by (auto simp: risk_limits_ok_def check_position_count_def get_open_positions_ok
        check_account_limits_def get_account_info_def ensure_ready_def not_le split: sum.splits if_splits)
  show "\<exists>dir. os_direction s = Some dir \<and> dir \<in> {''BUY'', ''SELL''}"
    using C(2) by (cases "os_direction s") (auto simp: check_direction_def)
  show "\<exists>x. required (os_suggested_lots s) = Inr x \<and> xless (Fin 0) x = Inr True"
    using C(3) check_positive_ok required_of_parsed by blast
  show "\<exists>x. parse_num 0 (os_stop_loss s) = Inr x \<and> required (os_stop_loss s) = Inr x \<and> xless (Fin 0) x = Inr True"
    using C(4) check_positive_ok required_of_parsed by blast
  show "\<exists>u. check_levels s = Inr u" "\<exists>u. check_spread om t s = Inr u" "\<exists>u. check_age om now s = Inr u"
    using C by auto
qed

section \<open>Lemmas: what is sent\<close>

lemma submit_order_sent:
  "(sent, r) = submit_order t symbol dir lots sl tp c \<Longrightarrow> rq \<in> set sent \<Longrightarrow>
     sent = [rq] \<and> rq_symbol rq = symbol \<and> rq_volume rq = xflt lots \<and> rq_sl rq = xflt sl \<and> rq_tp rq = xflt tp \<and>
     rq_kind rq = (if dir = ''BUY'' then ORDER_TYPE_BUY else ORDER_TYPE_SELL)"
  by (auto simp: submit_order_def Let_def split: if_splits option.splits)

lemma submit_limit_order_sent:
  "(sent, r) = submit_limit_order t symbol dir lots price sl tp c \<Longrightarrow> rq \<in> set sent \<Longrightarrow>
     sent = [rq] \<and> rq_symbol rq = symbol \<and> rq_volume rq = xflt lots \<and> rq_sl rq = xflt sl \<and> rq_tp rq = xflt tp \<and>
     rq_kind rq = (if dir = ''BUY'' then ORDER_TYPE_BUY_LIMIT else ORDER_TYPE_SELL_LIMIT)"
  by (auto simp: submit_limit_order_def Let_def split: if_splits option.splits)

definition kind_of :: "string \<Rightarrow> order_kind set" where
  "kind_of dir = (if dir = ''BUY'' then {ORDER_TYPE_BUY, ORDER_TYPE_BUY_LIMIT} else {ORDER_TYPE_SELL, ORDER_TYPE_SELL_LIMIT})"

lemma submit_signal_sent:
  assumes sub: "(sent, r) = submit_signal om t s" and rq: "rq \<in> set sent"
  shows "\<exists>symbol dir x lots sl. os_symbol s = Some symbol \<and> os_direction s = Some dir \<and>
     required (os_suggested_lots s) = Inr x \<and> clamp_lot_size om t x symbol = Inr lots \<and>
     required (os_stop_loss s) = Inr sl \<and>
     sent = [rq] \<and> rq_symbol rq = symbol \<and> rq_volume rq = xflt lots \<and> rq_sl rq = xflt sl \<and> rq_kind rq \<in> kind_of dir"
proof -
  obtain symbol where 1: "os_symbol s = Some symbol" using sub rq by (cases "os_symbol s") (auto simp: submit_signal_def)
  obtain dir where 2: "os_direction s = Some dir" using sub rq 1 by (cases "os_direction s") (auto simp: submit_signal_def)
  obtain x where 3: "required (os_suggested_lots s) = Inr x"
    using sub rq 1 2 by (cases "required (os_suggested_lots s)") (auto simp: submit_signal_def)
  obtain lots where 4: "clamp_lot_size om t x symbol = Inr lots"
    using sub rq 1 2 3 by (cases "clamp_lot_size om t x symbol") (auto simp: submit_signal_def)
  obtain sl where 5: "required (os_stop_loss s) = Inr sl"
    using sub rq 1 2 3 4 by (cases "required (os_stop_loss s)") (auto simp: submit_signal_def)
  obtain tp where 6: "required (os_take_profit s) = Inr tp"
    using sub rq 1 2 3 4 5 by (cases "required (os_take_profit s)") (auto simp: submit_signal_def)
  let ?c = "''MONEYMAKER:'' @ take 8 (os_signal_id s)"
  show ?thesis
  proof (cases "opt_get (os_order_type s) ''MARKET'' = ''LIMIT''")
    case True
    then obtain price where "limit_price_of s = Inr price"
      using sub rq 1 2 3 4 5 6 by (cases "limit_price_of s") (auto simp: submit_signal_def Let_def)
    then have "(sent, r) = submit_limit_order t symbol dir lots price sl tp ?c"
      using sub True 1 2 3 4 5 6 by (simp add: submit_signal_def Let_def)
    from submit_limit_order_sent [OF this rq] show ?thesis using 1 2 3 4 5 by (auto simp: kind_of_def)
  next
    case False
    then have "(sent, r) = submit_order t symbol dir lots sl tp ?c"
      using sub 1 2 3 4 5 6 by (simp add: submit_signal_def Let_def)
    from submit_order_sent [OF this rq] show ?thesis using 1 2 3 4 5 by (auto simp: kind_of_def)
  qed
qed

text \<open>The three ways a call can end.\<close>

lemma execute_signal_cases:
  assumes "execute_signal t ck s om = (sent, r, om')"
  obtains (unseen_invalid) "sent = []" "om' = om"
  | (submitted) "om_recent om (os_signal_id s) = None" "validate_signal om t (ck_validate ck) s = Inr ()"
      "(sent, r) = submit_signal (om\<lparr>om_recent := (om_recent om)(os_signal_id s \<mapsto> ck_register ck)\<rparr>) t s"
      "om' = om\<lparr>om_recent := (om_recent om)(os_signal_id s \<mapsto> ck_register ck)\<rparr> \<or>
       om' = cleanup_old_signals (ck_cleanup ck) (om\<lparr>om_recent := (om_recent om)(os_signal_id s \<mapsto> ck_register ck)\<rparr>)"
  using assms by (auto simp: execute_signal_def Let_def split: if_splits sum.splits prod.splits)

lemma recent_irrelevant [simp]:
  "clamp_lot_size (om\<lparr>om_recent := m\<rparr>) = clamp_lot_size om"
  by (intro ext) (simp add: clamp_lot_size_def cong: if_cong)

section \<open>Every order that is sent has passed every check\<close>

text \<open>
  C5. An order request reaches the broker only for a signal id that is not remembered, on a connected
  terminal below the position cap and, when the account can be read, below the drawdown and daily-loss
  limits; the spread is within its bound; the order kind is the signal's direction; its volume is the
  clamped lot size, at most the configured maximum unless the symbol's own minimum is larger; its stop is
  positive, and below the entry for a BUY and above it for a SELL whenever the signal states an entry.
\<close>

theorem order_request_sound:
  assumes run: "execute_signal t ck s om = (sent, r, om')" and rq: "rq \<in> set sent"
    and cap: "dec_round (om_max_lot_size om) = om_max_lot_size om" "0 \<le> om_max_lot_size om"
  shows "om_recent om (os_signal_id s) = None \<and> sent = [rq] \<and> tm_connected t \<and> risk_limits_ok om t \<and>
     (\<forall>i. tm_symbol t (rq_symbol rq) = Some i \<longrightarrow> si_spread i \<le> om_max_spread_points om) \<and>
     (\<exists>dir sl v. os_direction s = Some dir \<and> dir \<in> {''BUY'', ''SELL''} \<and> rq_kind rq \<in> kind_of dir \<and>
        required (os_stop_loss s) = Inr sl \<and> rq_sl rq = xflt sl \<and> xless (Fin 0) sl = Inr True \<and>
        (\<forall>e. os_entry_price s = Num (Fin e) \<and> 0 < e \<longrightarrow>
           (if dir = ''BUY'' then xless sl (Fin e) = Inr True else xless (Fin e) sl = Inr True)) \<and>
        rq_volume rq = Fin (flt_round v) \<and> 0 \<le> v \<and>
        (case tm_symbol t (rq_symbol rq) of
           None \<Rightarrow> v \<le> om_max_lot_size om
         | Some i \<Rightarrow> si_volume_min i \<le> v \<and> (v \<le> om_max_lot_size om \<or> v = si_volume_min i)))"
proof -
  let ?om = "om\<lparr>om_recent := (om_recent om)(os_signal_id s \<mapsto> ck_register ck)\<rparr>"
  have new: "om_recent om (os_signal_id s) = None" and v: "validate_signal om t (ck_validate ck) s = Inr ()"
    and sub: "(sent, r) = submit_signal ?om t s"
    using execute_signal_cases [OF run] rq by force+
  obtain symbol dir x lots sl where f: "os_symbol s = Some symbol" "os_direction s = Some dir"
    "required (os_suggested_lots s) = Inr x" "clamp_lot_size om t x symbol = Inr lots"
    "required (os_stop_loss s) = Inr sl" "sent = [rq]" "rq_symbol rq = symbol" "rq_volume rq = xflt lots"
    "rq_sl rq = xflt sl" "rq_kind rq \<in> kind_of dir"
    using submit_signal_sent [OF sub rq] by auto
  note V = validate_signal_ok [OF v]
  have dir: "dir \<in> {''BUY'', ''SELL''}" using V(4) f(2) by auto
  have x: "xless (Fin 0) x = Inr True" using V(5) f(3) by auto
  have sl: "parse_num 0 (os_stop_loss s) = Inr sl" "xless (Fin 0) sl = Inr True" using V(6) f(5) by auto
  obtain w where w: "lots = Fin w" "0 \<le> w"
    "case tm_symbol t symbol of None \<Rightarrow> w \<le> om_max_lot_size om
     | Some i \<Rightarrow> si_volume_min i \<le> w \<and> (w \<le> om_max_lot_size om \<or> w = si_volume_min i)"
    using clamp_lot_size_bounds [OF f(4) x cap] by blast
  have spread: "\<forall>i. tm_symbol t symbol = Some i \<longrightarrow> si_spread i \<le> om_max_spread_points om"
    using V(8) f(1) by (auto simp: check_spread_def get_symbol_info_ok not_less)
  have side: "if dir = ''BUY'' then xless sl (Fin e) = Inr True else xless (Fin e) sl = Inr True"
    if "os_entry_price s = Num (Fin e)" "0 < e" for e
    using check_levels_ok [of s _ sl e dir] V(7) that f(2) sl(1) dir by auto
  show ?thesis using new f V(1,3) dir sl w spread side by auto
qed

text \<open>A sample manager, terminal and signal.\<close>

definition sample_om :: order_manager where
  "sample_om =
     \<lparr>om_max_lot_size = 1, om_max_position_count = 5, om_dedup_window_sec = 300, om_max_spread_points = 30,
      om_signal_max_age_sec = 30, om_max_daily_loss_pct = 2, om_max_drawdown_pct = 10, om_recent = Map.empty\<rparr>"

definition sample_symbol :: symbol_info where
  "sample_symbol =
     \<lparr>si_bid = 1, si_ask = 1, si_spread = 10, si_digits = 5, si_trade_contract_size = 100000,
      si_volume_min = 1 / 100, si_volume_max = 100, si_volume_step = 1 / 100\<rparr>"

definition sample_terminal :: terminal where
  "sample_terminal =
     \<lparr>tm_connected = True, tm_installed = True, tm_retcode_done = 10009, tm_account = None,
      tm_symbol = (\<lambda>_. Some sample_symbol), tm_positions = None, tm_position = (\<lambda>_. None),
      tm_tick = (\<lambda>_. Some \<lparr>tk_bid = 1, tk_ask = 1\<rparr>), tm_calc_margin = (\<lambda>_ _ _ _. None),
      tm_order_send = (\<lambda>_. Some \<lparr>rp_retcode = 10009, rp_order = 7, rp_price = 1, rp_volume = 1\<rparr>),
      tm_sltp_send = (\<lambda>_. None), tm_deals = (\<lambda>_. None)\<rparr>"

definition sample_signal :: order_signal where
  "sample_signal =
     \<lparr>os_signal_id = ''s1'', os_symbol = Some ''EURUSD'', os_direction = Some ''BUY'', os_suggested_lots = Num (Fin 3),
      os_stop_loss = Num (Fin (1 / 2)), os_take_profit = Num (Fin 2), os_entry_price = Num (Fin 1),
      os_limit_price = Absent, os_timestamp_ms = None, os_order_type = None\<rparr>"

lemma sample_clamp: "clamp_lot_size sample_om sample_terminal (Fin 3) symbol = Inr (Fin 1)"
  by (simp add: clamp_lot_size_def get_symbol_info_def ensure_ready_def sample_om_def sample_terminal_def
      sample_symbol_def dec_floordiv_def dec_mul_def num_eval)

lemma sample_validates_any:
  assumes "e \<in> {Absent, Num (Fin 1)}"
  shows "validate_signal (sample_om\<lparr>om_recent := m\<rparr>) sample_terminal now
     (sample_signal\<lparr>os_signal_id := i, os_entry_price := e\<rparr>) = Inr ()"
proof -
  let ?om = "sample_om\<lparr>om_recent := m\<rparr>" and ?s = "sample_signal\<lparr>os_signal_id := i, os_entry_price := e\<rparr>"
  have m: "check_free_margin ?om sample_terminal ?s = Inr ()"
    using sample_clamp [of "''EURUSD''"]
    by (simp add: check_free_margin_def sample_signal_def check_margin_def ensure_ready_def)
      (simp add: sample_terminal_def)
  have l: "check_levels ?s = Inr ()"
    using assms by (elim insertE emptyE) (simp_all add: check_levels_def sample_signal_def refuse_if_def)
  show ?thesis
    unfolding validate_signal_def m l rbind.simps
    by (simp add: check_age_def check_direction_def check_positive_def check_position_count_def check_spread_def
        check_account_limits_def get_account_info_def get_open_positions_def get_symbol_info_def ensure_ready_def
        refuse_if_def sample_signal_def sample_om_def sample_terminal_def sample_symbol_def)
qed

lemma sample_signal_entry: "sample_signal\<lparr>os_signal_id := i, os_entry_price := Num (Fin 1)\<rparr> = sample_signal\<lparr>os_signal_id := i\<rparr>"
  by (simp add: sample_signal_def)

lemma sample_validates: "validate_signal sample_om sample_terminal 0 sample_signal = Inr ()"
  using sample_validates_any [of "Num (Fin 1)" "om_recent sample_om" 0 "os_signal_id sample_signal"]
  unfolding sample_signal_entry by simp

lemma sample_submit:
  "submit_signal (sample_om\<lparr>om_recent := m\<rparr>) sample_terminal (sample_signal\<lparr>os_signal_id := i, os_entry_price := e\<rparr>) =
     ([\<lparr>rq_action = TRADE_ACTION_DEAL, rq_symbol = ''EURUSD'', rq_volume = Fin 1, rq_kind = ORDER_TYPE_BUY,
       rq_price = Fin 1, rq_sl = Fin (1 / 2), rq_tp = Fin 2, rq_deviation = 20, rq_magic = 123456,
       rq_comment = ''MONEYMAKER:'' @ take 8 i\<rparr>],
      Inr \<lparr>ex_status = ''FILLED'', ex_order_id = Some 7, ex_error_code = None, ex_executed_price = 1,
           ex_requested_price = Some (Fin 1), ex_slippage = 0, ex_volume = Some (Fin 1)\<rparr>)"
  using sample_clamp [of "''EURUSD''"]
  by (simp add: submit_signal_def submit_order_def sample_signal_def sample_terminal_def dec_ops num_eval)

definition sample_request :: "string \<Rightarrow> order_request" where
  "sample_request i =
     \<lparr>rq_action = TRADE_ACTION_DEAL, rq_symbol = ''EURUSD'', rq_volume = Fin 1, rq_kind = ORDER_TYPE_BUY,
      rq_price = Fin 1, rq_sl = Fin (1 / 2), rq_tp = Fin 2, rq_deviation = 20, rq_magic = 123456,
      rq_comment = ''MONEYMAKER:'' @ take 8 i\<rparr>"

definition sample_fill :: exec_result where
  "sample_fill =
     \<lparr>ex_status = ''FILLED'', ex_order_id = Some 7, ex_error_code = None, ex_executed_price = 1,
      ex_requested_price = Some (Fin 1), ex_slippage = 0, ex_volume = Some (Fin 1)\<rparr>"

lemma sample_execute_any:
  assumes "m i = None" "e \<in> {Absent, Num (Fin 1)}"
  shows "execute_signal sample_terminal ck (sample_signal\<lparr>os_signal_id := i, os_entry_price := e\<rparr>) (sample_om\<lparr>om_recent := m\<rparr>) =
     ([sample_request i], Inr sample_fill,
      cleanup_old_signals (ck_cleanup ck) (sample_om\<lparr>om_recent := m(i \<mapsto> ck_register ck)\<rparr>))"
  using assms sample_submit [where m = "m(i \<mapsto> ck_register ck)" and i = i and e = e]
  by (simp add: execute_signal_def sample_validates_any sample_request_def sample_fill_def Let_def)

lemmas sample_execute = sample_execute_any [where e = "Num (Fin 1)", unfolded sample_signal_entry, simplified]

theorem order_request_sound_witness:
  "\<exists>sent r om' rq. execute_signal sample_terminal \<lparr>ck_validate = 0, ck_register = 0, ck_cleanup = 0\<rparr> sample_signal sample_om
       = (sent, r, om') \<and> rq \<in> set sent \<and> rq_kind rq = ORDER_TYPE_BUY \<and> risk_limits_ok sample_om sample_terminal"
proof -
  let ?ck = "\<lparr>ck_validate = 0, ck_register = 0, ck_cleanup = 0\<rparr> :: clocks"
  have e: "sample_signal\<lparr>os_signal_id := os_signal_id sample_signal\<rparr> = sample_signal"
    "sample_om\<lparr>om_recent := Map.empty\<rparr> = sample_om" by (simp_all add: sample_om_def)
  obtain r om' where run: "execute_signal sample_terminal ?ck sample_signal sample_om = ([sample_request ''s1''], r, om')"
    using sample_execute [of Map.empty "os_signal_id sample_signal" ?ck] unfolding e by (auto simp: sample_signal_def)
  have rq: "sample_request ''s1'' \<in> set [sample_request ''s1'']" "rq_kind (sample_request ''s1'') = ORDER_TYPE_BUY"
    by (simp_all add: sample_request_def)
  have cap: "dec_round (om_max_lot_size sample_om) = om_max_lot_size sample_om" "0 \<le> om_max_lot_size sample_om"
    by (simp_all add: sample_om_def)
  show ?thesis using order_request_sound [OF run rq(1) cap] run rq by blast
qed

section \<open>A signal is executed at most once per window\<close>

text \<open>A history of calls and its log: signal id, registration time and the requests sent.\<close>

type_synonym order_call = "terminal \<times> clocks \<times> order_signal"

fun run_orders :: "order_call list \<Rightarrow> order_manager \<Rightarrow> (string \<times> rat \<times> order_request list) list" where
  "run_orders [] om = []"
| "run_orders ((t, ck, s) # cs) om =
     (case execute_signal t ck s om of
        (sent, r, om') \<Rightarrow> (os_signal_id s, ck_register ck, sent) # run_orders cs om')"

fun clocks_ordered :: "rat \<Rightarrow> order_call list \<Rightarrow> bool" where
  "clocks_ordered now [] = True"
| "clocks_ordered now ((t, ck, s) # cs) =
     (now \<le> ck_register ck \<and> ck_register ck \<le> ck_cleanup ck \<and> clocks_ordered (ck_cleanup ck) cs)"

text \<open>An id that was sent at time \<open>r\<close> is remembered, or its window is over.\<close>

definition remembered :: "string \<Rightarrow> rat \<Rightarrow> rat \<Rightarrow> order_manager \<Rightarrow> bool" where
  "remembered sid r now om \<longleftrightarrow>
     om_recent om sid = Some r \<or> of_int (om_dedup_window_sec om) < flt_round (now - r)"

lemma window_kept [simp]: "om_dedup_window_sec (cleanup_old_signals now om) = om_dedup_window_sec om"
  by (simp add: cleanup_old_signals_def)

lemma remembered_later:
  "remembered sid r now om \<Longrightarrow> now \<le> now' \<Longrightarrow> om' = om \<Longrightarrow> remembered sid r now' om'"
  unfolding remembered_def using flt.rnd_mono [of "now - r" "now' - r"] by auto

lemma remembered_cleanup:
  "remembered sid r now om \<Longrightarrow> now \<le> now' \<Longrightarrow> remembered sid r now' (cleanup_old_signals now' om)"
  using remembered_later [of sid r now om now' om] by (auto simp: remembered_def cleanup_old_signals_def)

lemma execute_signal_window:
  "execute_signal t ck s om = (sent, r, om') \<Longrightarrow> om_dedup_window_sec om' = om_dedup_window_sec om"
  by (elim execute_signal_cases) auto

lemma execute_signal_remembers:
  assumes run: "execute_signal t ck s om = (sent, q, om')" and t: "now \<le> ck_register ck" "ck_register ck \<le> ck_cleanup ck"
    and r: "remembered sid r now om"
  shows "remembered sid r (ck_cleanup ck) om'"
    and "os_signal_id s = sid \<Longrightarrow> sent \<noteq> [] \<Longrightarrow> of_int (om_dedup_window_sec om) < flt_round (ck_register ck - r)"
proof -
  let ?om = "om\<lparr>om_recent := (om_recent om)(os_signal_id s \<mapsto> ck_register ck)\<rparr>"
  have le: "now \<le> ck_cleanup ck" using t by simp
  show "remembered sid r (ck_cleanup ck) om'"
    using run
  proof (cases rule: execute_signal_cases)
    case unseen_invalid
    then show ?thesis using remembered_later [OF r le] by simp
  next
    case submitted
    have "remembered sid r now ?om" using r submitted(1) by (auto simp: remembered_def)
    then show ?thesis using submitted(4) remembered_later [OF _ le] remembered_cleanup [OF _ le] by blast
  qed
  assume id: "os_signal_id s = sid" and sent: "sent \<noteq> []"
  have "om_recent om sid = None" using run sent id by (cases rule: execute_signal_cases) auto
  then show "of_int (om_dedup_window_sec om) < flt_round (ck_register ck - r)"
    using remembered_later [OF r t(1) refl] by (simp add: remembered_def)
qed

lemma execute_signal_registers:
  assumes run: "execute_signal t ck s om = (sent, q, om')" and t: "ck_register ck \<le> ck_cleanup ck" and "sent \<noteq> []"
  shows "remembered (os_signal_id s) (ck_register ck) (ck_cleanup ck) om'"
  using run
proof (cases rule: execute_signal_cases)
  case submitted
  let ?om = "om\<lparr>om_recent := (om_recent om)(os_signal_id s \<mapsto> ck_register ck)\<rparr>"
  have "remembered (os_signal_id s) (ck_register ck) (ck_register ck) ?om" by (simp add: remembered_def)
  then show ?thesis using submitted(4) remembered_later [OF _ t] remembered_cleanup [OF _ t] by blast
qed (use assms in simp)

lemma run_orders_remembered:
  assumes "clocks_ordered now cs" "remembered sid r now om"
    and "(sid, r', sent) \<in> set (run_orders cs om)" "sent \<noteq> []"
  shows "of_int (om_dedup_window_sec om) < flt_round (r' - r)"
  using assms
proof (induction cs arbitrary: now om)
  case (Cons c cs)
  obtain t ck s where c: "c = (t, ck, s)" by (cases c)
  obtain sent0 q om' where e: "execute_signal t ck s om = (sent0, q, om')" using prod_cases3 by blast
  have o: "now \<le> ck_register ck" "ck_register ck \<le> ck_cleanup ck" "clocks_ordered (ck_cleanup ck) cs"
    using Cons.prems(1) c by auto
  note R = execute_signal_remembers [OF e o(1,2) Cons.prems(2)]
  consider "os_signal_id s = sid" "r' = ck_register ck" "sent = sent0" | "(sid, r', sent) \<in> set (run_orders cs om')"
    using Cons.prems(3) c e by auto
  then show ?case
  proof cases
    case 1
    then show ?thesis using R(2) Cons.prems(4) by simp
  next
    case 2
    show ?thesis using Cons.IH [OF o(3) R(1) 2 Cons.prems(4)] execute_signal_window [OF e] by simp
  qed
qed simp

lemma run_orders_gap:
  assumes "clocks_ordered now cs" "i < j" "j < length cs"
    and "run_orders cs om ! i = (sid, r, sent)" "run_orders cs om ! j = (sid, r', sent')"
    and "sent \<noteq> []" "sent' \<noteq> []"
  shows "of_int (om_dedup_window_sec om) < flt_round (r' - r)"
proof -
  have len: "length (run_orders cs om) = length cs" for cs om
    by (induction cs om rule: run_orders.induct) (auto split: prod.splits)
  show ?thesis
    using assms
  proof (induction i arbitrary: cs om j now)
    case 0
    then obtain c cs' j' where cs: "cs = c # cs'" "j = Suc j'" by (cases cs; cases j) auto
    obtain t ck s where c: "c = (t, ck, s)" by (cases c)
    obtain sent0 q om' where e: "execute_signal t ck s om = (sent0, q, om')" using prod_cases3 by blast
    have i: "sid = os_signal_id s" "r = ck_register ck" "sent = sent0" and j: "run_orders cs' om' ! j' = (sid, r', sent')"
      using 0 cs c e by auto
    have "(sid, r', sent') \<in> set (run_orders cs' om')"
      using j 0 cs len by (metis Suc_less_eq length_Cons nth_mem)
    moreover have "remembered sid r (ck_cleanup ck) om'"
      using execute_signal_registers [OF e] 0 cs c i by simp
    ultimately show ?case
      using run_orders_remembered [of "ck_cleanup ck" cs' sid r om' r' sent'] 0 cs c execute_signal_window [OF e] by simp
  next
    case (Suc i)
    then obtain c cs' j' where cs: "cs = c # cs'" "j = Suc j'" by (cases cs; cases j) auto
    obtain t ck s where c: "c = (t, ck, s)" by (cases c)
    obtain sent0 q om' where e: "execute_signal t ck s om = (sent0, q, om')" using prod_cases3 by blast
    show ?case
      using Suc.IH [of "ck_cleanup ck" cs' j' om'] Suc.prems cs c e execute_signal_window [OF e] by simp
  qed
qed

text \<open>
  C6. No double execution: in any history of calls with a clock that does not run backwards, whatever the
  terminal answers and whichever calls fail, two requests sent for the same signal id are more than the
  de-duplication window apart.
\<close>

theorem no_double_execution:
  assumes "clocks_ordered now cs" "0 \<le> om_dedup_window_sec om" "om_dedup_window_sec om < 2 ^ 53"
    and "i < j" "j < length cs" "run_orders cs om ! i = (sid, r, sent)" "run_orders cs om ! j = (sid, r', sent')"
    and "sent \<noteq> []" "sent' \<noteq> []"
  shows "of_int (om_dedup_window_sec om) < r' - r"
proof -
  have "of_int (om_dedup_window_sec om) < flt_round (r' - r)" using run_orders_gap assms(1,4-9) by blast
  moreover have "flt_round (of_int (om_dedup_window_sec om)) = of_int (om_dedup_window_sec om)"
    using assms(2,3) by (intro flt_round_int) simp
  ultimately show ?thesis
    using flt.rnd_mono [of "r' - r" "of_int (om_dedup_window_sec om)"] by (cases "r' - r \<le> of_int (om_dedup_window_sec om)") auto
qed

text \<open>Id \<open>s1\<close> is sent at 0, forgotten by the clean-up at 350, and sent again at 400.\<close>

theorem no_double_execution_witness:
  "(300 :: rat) < 400 - 0 \<and>
   (\<exists>r1 r2 r3. run_orders
      [(sample_terminal, \<lparr>ck_validate = 0, ck_register = 0, ck_cleanup = 0\<rparr>, sample_signal\<lparr>os_signal_id := ''s1''\<rparr>),
       (sample_terminal, \<lparr>ck_validate = 0, ck_register = 350, ck_cleanup = 350\<rparr>, sample_signal\<lparr>os_signal_id := ''s2''\<rparr>),
       (sample_terminal, \<lparr>ck_validate = 0, ck_register = 400, ck_cleanup = 400\<rparr>, sample_signal\<lparr>os_signal_id := ''s1''\<rparr>)]
      sample_om = [(''s1'', 0, [r1]), (''s2'', 350, [r2]), (''s1'', 400, [r3])])"
proof -
  let ?cs = "[(sample_terminal, \<lparr>ck_validate = 0, ck_register = 0, ck_cleanup = 0\<rparr>, sample_signal\<lparr>os_signal_id := ''s1''\<rparr>),
       (sample_terminal, \<lparr>ck_validate = 0, ck_register = 350, ck_cleanup = 350\<rparr>, sample_signal\<lparr>os_signal_id := ''s2''\<rparr>),
       (sample_terminal, \<lparr>ck_validate = 0, ck_register = 400, ck_cleanup = 400\<rparr>, sample_signal\<lparr>os_signal_id := ''s1''\<rparr>)]
       :: order_call list"
  have o0: "sample_om = sample_om\<lparr>om_recent := Map.empty\<rparr>" by (simp add: sample_om_def)
  have w: "om_dedup_window_sec sample_om = 300" by (simp add: sample_om_def)
  have c1: "cleanup_old_signals 0 (sample_om\<lparr>om_recent := [''s1'' \<mapsto> 0]\<rparr>) = sample_om\<lparr>om_recent := [''s1'' \<mapsto> 0]\<rparr>"
    by (simp add: cleanup_old_signals_def w fun_eq_iff num_eval)
  have c2: "cleanup_old_signals 350 (sample_om\<lparr>om_recent := [''s1'' \<mapsto> 0, ''s2'' \<mapsto> 350]\<rparr>) =
      sample_om\<lparr>om_recent := [''s2'' \<mapsto> 350]\<rparr>"
    by (simp add: cleanup_old_signals_def w fun_eq_iff num_eval)
  have e1: "execute_signal sample_terminal \<lparr>ck_validate = 0, ck_register = 0, ck_cleanup = 0\<rparr> (sample_signal\<lparr>os_signal_id := ''s1''\<rparr>)
      sample_om = ([sample_request ''s1''], Inr sample_fill, sample_om\<lparr>om_recent := [''s1'' \<mapsto> 0]\<rparr>)"
    using sample_execute [of Map.empty "''s1''" "\<lparr>ck_validate = 0, ck_register = 0, ck_cleanup = 0\<rparr>"] c1 o0 by simp
  have run: "run_orders ?cs sample_om = [(''s1'', 0, [sample_request ''s1'']), (''s2'', 350, [sample_request ''s2'']),
      (''s1'', 400, [sample_request ''s1''])]"
    by (simp add: e1 sample_execute c2)
  have "of_int (om_dedup_window_sec sample_om) < (400 :: rat) - 0"
    by (rule no_double_execution [of 0 ?cs sample_om 0 2 "''s1''" 0 "[sample_request ''s1'']" 400 "[sample_request ''s1'']"])
      (simp_all only: run, simp_all add: sample_om_def)
  then show ?thesis using run by (simp add: w)
qed

section \<open>What an unreadable account switches off\<close>

lemma check_positive_reasons:
  "check_positive field r = Inl (SignalRejectedError j) \<Longrightarrow> j = r"
  by (auto simp: check_positive_def refuse_if_def rbind_eq_Inl)

lemma check_levels_reasons:
  "check_levels s = Inl (SignalRejectedError j) \<Longrightarrow> j \<in> {BuyStopSide, BuyTargetSide, SellStopSide, SellTargetSide}"
  by (auto simp: check_levels_def refuse_if_def rbind_eq_Inl split: if_splits)

lemma check_age_reasons: "check_age om now s = Inl (SignalRejectedError j) \<Longrightarrow> j = TooOld"
  by (auto simp: check_age_def refuse_if_def split: option.splits if_splits)

lemma check_spread_reasons: "check_spread om t s = Inl (SignalRejectedError j) \<Longrightarrow> j = SpreadTooHigh"
  by (auto simp: check_spread_def get_symbol_info_def ensure_ready_def refuse_if_def rbind_eq_Inl split: option.splits if_splits)

lemma clamp_never_refuses: "clamp_lot_size om t x symbol \<noteq> Inl (SignalRejectedError j)"
  by (auto simp: clamp_lot_size_def get_symbol_info_def ensure_ready_def rbind_eq_Inl Let_def split: option.splits if_splits)

lemma blind_margin:
  assumes "tm_account t = None" "tm_connected t"
  shows "check_free_margin om t s \<noteq> Inl (SignalRejectedError j)"
  using assms clamp_never_refuses [of om t]
  by (auto simp: check_free_margin_def check_margin_def ensure_ready_def rbind_eq_Inl Let_def
      split: option.splits if_splits)

lemma check_position_count_reasons: "check_position_count om t = Inl (SignalRejectedError j) \<Longrightarrow> j = PositionLimit"
  by (auto simp: check_position_count_def get_open_positions_def ensure_ready_def refuse_if_def rbind_eq_Inl split: if_splits)

lemma check_free_margin_reasons: "check_free_margin om t s = Inl (SignalRejectedError j) \<Longrightarrow> j = NoMargin"
  using clamp_never_refuses [of om t]
  by (auto simp: check_free_margin_def rbind_eq_Inl Let_def check_margin_def ensure_ready_def
      split: if_splits sum.splits bridge_error.splits option.splits)

lemma check_account_limits_reasons:
  "check_account_limits om t = Inl (SignalRejectedError j) \<Longrightarrow> j \<in> {DrawdownLimit, DailyLossLimit}"
  by (auto simp: check_account_limits_def refuse_if_def rbind_eq_Inl split: sum.splits if_splits)

lemma validate_signal_reasons:
  assumes "validate_signal om t now s = Inl (SignalRejectedError j)"
  shows "check_age om now s = Inl (SignalRejectedError j) \<or> check_levels s = Inl (SignalRejectedError j) \<or>
     check_position_count om t = Inl (SignalRejectedError j) \<or>
     check_free_margin om t s = Inl (SignalRejectedError j) \<or> check_account_limits om t = Inl (SignalRejectedError j) \<or>
     j \<in> {BadDirection, LotsNotPositive, NoStopLoss, SpreadTooHigh}"
  using assms check_positive_reasons [of "os_suggested_lots s" LotsNotPositive j] check_positive_reasons [of "os_stop_loss s" NoStopLoss j]
    check_spread_reasons [of om t s j]
  unfolding validate_signal_def rbind_eq_Inl by (auto simp: check_direction_def refuse_if_def)

text \<open>
  The exposure limits fail open: while the terminal answers neither the positions query nor the account
  query (the connector then reports no open position and no account), no signal is ever refused by the
  position cap, the margin check, the drawdown limit or the daily-loss limit, whatever is really open and
  however large the loss.
\<close>

theorem order_limits_fail_open:
  assumes "tm_positions t = None" "tm_account t = None" "tm_connected t" "0 < om_max_position_count om"
    and "j \<in> {PositionLimit, NoMargin, DrawdownLimit, DailyLossLimit}"
  shows "validate_signal om t now s \<noteq> Inl (SignalRejectedError j)"
proof
  assume v: "validate_signal om t now s = Inl (SignalRejectedError j)"
  have "check_account_limits om t = Inr ()"
    using assms(2,3) by (simp add: check_account_limits_def get_account_info_def ensure_ready_def)
  with validate_signal_reasons [OF v] show False
    using assms blind_margin [OF assms(2,3), of om s j] check_age_reasons [of om now s j] check_levels_reasons [of s j]
    by (auto simp: check_position_count_def get_open_positions_def ensure_ready_def refuse_if_def rbind_eq_Inl split: if_splits)
qed

text \<open>In the sample the same signal is refused as soon as the account can be read.\<close>

theorem order_limits_fail_open_witness:
  "validate_signal sample_om sample_terminal 0 sample_signal = Inr () \<and>
   validate_signal sample_om sample_terminal 0 sample_signal \<noteq> Inl (SignalRejectedError DrawdownLimit) \<and>
   check_account_limits sample_om (sample_terminal\<lparr>tm_account := Some \<lparr>ac_balance = 1000, ac_equity = 500,
      ac_margin = 0, ac_free_margin = 500, ac_profit = - 500, ac_leverage = 100\<rparr>\<rparr>)
     = Inl (SignalRejectedError DrawdownLimit)"
proof -
  have "validate_signal sample_om sample_terminal 0 sample_signal \<noteq> Inl (SignalRejectedError DrawdownLimit)"
    by (rule order_limits_fail_open) (simp_all add: sample_terminal_def sample_om_def)
  moreover have "check_account_limits sample_om (sample_terminal\<lparr>tm_account := Some \<lparr>ac_balance = 1000, ac_equity = 500,
      ac_margin = 0, ac_free_margin = 500, ac_profit = - 500, ac_leverage = 100\<rparr>\<rparr>)
     = Inl (SignalRejectedError DrawdownLimit)"
    by (simp add: check_account_limits_def get_account_info_def ensure_ready_def sample_om_def sample_terminal_def
        account_drawdown_pct_def refuse_if_def dec_ops num_eval)
  ultimately show ?thesis using sample_validates by simp
qed

end
