(* ===== verification/Token_Bucket.thy ===== *)
theory Token_Bucket
  imports Decimals
begin

text \<open>
  \<open>moneymaker_common/ratelimit.py\<close>: the token bucket in its two implementations, the in-memory dictionary
  of \<open>InMemoryRateLimiter\<close> and the Lua script of \<open>RedisRateLimiter\<close>. Redis itself is not in the repository:
  its store is the map the script reads and writes (an expired key is an absent one), and its integer
  replies truncate a Lua number, as its documentation states. The locale states what a client of either
  may rely on: how many calls pass at one instant.
\<close>

section \<open>Configuration\<close>

record rate_limit_config =
  tb_requests_per_window :: int
  tb_window_seconds :: int
  tb_burst_size :: int

definition refill_rate :: "rate_limit_config \<Rightarrow> rat result" where
  "refill_rate c =
     (if tb_window_seconds c = 0 then Inl ZeroDivisionError
      else Inr (flt_round (of_int (tb_requests_per_window c) / of_int (tb_window_seconds c))))"

definition max_tokens :: "rate_limit_config \<Rightarrow> int" where
  "max_tokens c = tb_requests_per_window c + tb_burst_size c"

text \<open>\<open>RateLimitPresets\<close>.\<close>

definition preset :: "int \<Rightarrow> int \<Rightarrow> int \<Rightarrow> rate_limit_config" where
  "preset requests window burst =
     \<lparr>tb_requests_per_window = requests, tb_window_seconds = window, tb_burst_size = burst\<rparr>"

definition PUBLIC_API :: rate_limit_config where "PUBLIC_API = preset 60 60 10"
definition INTERNAL_SERVICE :: rate_limit_config where "INTERNAL_SERVICE = preset 1000 60 100"
definition TRADING :: rate_limit_config where "TRADING = preset 10 60 5"
definition HEALTH_CHECK :: rate_limit_config where "HEALTH_CHECK = preset 300 60 50"
definition STRICT :: rate_limit_config where "STRICT = preset 5 60 2"

definition trunc_int :: "rat \<Rightarrow> int" where
  "trunc_int x = (if 0 \<le> x then \<lfloor>x\<rfloor> else \<lceil>x\<rceil>)"

section \<open>The in-memory limiter\<close>

record mem_limiter =
  ml_config :: rate_limit_config
  ml_buckets :: "string \<rightharpoonup> rat \<times> rat"

definition new_mem_limiter :: "rate_limit_config \<Rightarrow> mem_limiter" where
  "new_mem_limiter c = \<lparr>ml_config = c, ml_buckets = Map.empty\<rparr>"

definition mem_key :: "string \<Rightarrow> string \<Rightarrow> string" where
  "mem_key identifier endpoint = endpoint @ '':'' @ identifier"

text \<open>\<open>check\<close>: (allowed, retry after, remaining tokens).\<close>

definition mem_check :: "string \<Rightarrow> string \<Rightarrow> rat \<Rightarrow> mem_limiter \<Rightarrow> (bool \<times> rat \<times> int) result \<times> mem_limiter" where
  "mem_check identifier endpoint now l =
     (let c = ml_config l; key = mem_key identifier endpoint;
          (tokens, last_update) =
            (case ml_buckets l key of Some b \<Rightarrow> b | None \<Rightarrow> (flt_round (of_int (max_tokens c)), now));
          elapsed = flt_round (now - last_update)
      in case refill_rate c of
           Inl e \<Rightarrow> (Inl e, l)
         | Inr rate \<Rightarrow>
             let tokens = min (of_int (max_tokens c)) (flt_round (tokens + flt_round (elapsed * rate)))
             in if 1 \<le> tokens
                then let tokens = flt_round (tokens - 1)
                     in (Inr (True, 0, trunc_int tokens), l\<lparr>ml_buckets := (ml_buckets l)(key \<mapsto> (tokens, now))\<rparr>)
                else (if rate = 0 then Inl ZeroDivisionError
                      else Inr (False, flt_round (flt_round (1 - tokens) / rate), trunc_int tokens),
                      l\<lparr>ml_buckets := (ml_buckets l)(key \<mapsto> (tokens, now))\<rparr>))"

section \<open>The Redis limiter\<close>

text \<open>The Lua script on the hash stored under the key; Lua numbers are doubles.\<close>

definition token_bucket_script :: "int \<Rightarrow> rat \<Rightarrow> rat \<Rightarrow> (rat \<times> rat) option \<Rightarrow> (rat \<times> rat) \<times> (rat \<times> rat)" where
  "token_bucket_script max_toks rate now stored =
     (let (stored_tokens, last_update) = (case stored of None \<Rightarrow> (of_int max_toks, now) | Some b \<Rightarrow> b);
          elapsed = flt_round (now - last_update);
          refilled = of_int \<lfloor>flt_round (elapsed * rate)\<rfloor>;
          tokens = min (of_int max_toks) (flt_round (stored_tokens + refilled))
      in if 1 \<le> tokens
         then let tokens = flt_round (tokens - 1) in ((tokens, 0), (tokens, now))
         else let wait_time = flt_round (flt_round (1 - tokens) / rate)
              in ((tokens, wait_time), (stored_tokens, now)))"

record redis_limiter =
  rr_config :: rate_limit_config
  rr_store :: "string \<rightharpoonup> rat \<times> rat"

text \<open>
  \<open>check\<close>, with the key the client hashes to and whether Redis answers. Both numbers of the reply reach
  Python as truncated integers; any exception lets the request pass.
\<close>

definition redis_check :: "string \<Rightarrow> bool \<Rightarrow> rat \<Rightarrow> redis_limiter \<Rightarrow> (bool \<times> rat \<times> int) result \<times> redis_limiter" where
  "redis_check key reachable now l =
     (let c = rr_config l
      in case refill_rate c of
           Inl e \<Rightarrow> (Inr (True, 0, max_tokens c), l)
         | Inr rate \<Rightarrow>
             if \<not> reachable then (Inr (True, 0, max_tokens c), l)
             else let (reply, b) = token_bucket_script (max_tokens c) rate now (rr_store l key);
                      retry_after = of_int (trunc_int (snd reply))
                  in (Inr (retry_after = 0, retry_after, trunc_int (fst reply)),
                      l\<lparr>rr_store := (rr_store l)(key \<mapsto> b)\<rparr>))"

text \<open>\<open>check_or_raise\<close> of both classes.\<close>

definition check_outcome :: "(bool \<times> rat \<times> int) result \<Rightarrow> int result" where
  "check_outcome r =
     rbind r (\<lambda>(allowed, retry_after, remaining).
       if allowed then Inr remaining else Inl (RateLimitExceededError retry_after))"

section \<open>The contract of a token bucket\<close>

text \<open>
  \<open>settled k now s\<close>: the bucket of client \<open>k\<close> is fresh or was last touched at \<open>now\<close>. Then exactly
  \<open>budget k s\<close> further calls of that client pass at that instant.
\<close>

locale token_bucket =
  fixes allow :: "string \<Rightarrow> rat \<Rightarrow> 's \<Rightarrow> bool \<times> 's"
    and settled :: "string \<Rightarrow> rat \<Rightarrow> 's \<Rightarrow> bool"
    and budget :: "string \<Rightarrow> 's \<Rightarrow> nat"
  assumes allow_iff: "settled k now s \<Longrightarrow> fst (allow k now s) \<longleftrightarrow> 0 < budget k s"
    and allow_settled: "settled k now s \<Longrightarrow> settled k now (snd (allow k now s))"
    and allow_budget: "settled k now s \<Longrightarrow> budget k (snd (allow k now s)) = budget k s - 1"
begin

fun burst :: "nat \<Rightarrow> string \<Rightarrow> rat \<Rightarrow> 's \<Rightarrow> bool list" where
  "burst 0 k now s = []"
| "burst (Suc n) k now s = fst (allow k now s) # burst n k now (snd (allow k now s))"

lemma burst_exact:
  "settled k now s \<Longrightarrow> burst n k now s = replicate (min n (budget k s)) True @ replicate (n - budget k s) False"
proof (induction n arbitrary: s)
  case (Suc n)
  note IH = Suc.IH [OF allow_settled [OF Suc.prems]]
  show ?case
    using allow_iff [OF Suc.prems] allow_budget [OF Suc.prems] IH
    by (cases "budget k s") auto
qed simp

end

section \<open>Both limiters satisfy the contract\<close>

definition usable :: "rate_limit_config \<Rightarrow> bool" where
  "usable c \<longleftrightarrow> 0 < tb_requests_per_window c \<and> 0 < tb_window_seconds c \<and> 0 \<le> tb_burst_size c \<and> max_tokens c < 2 ^ 53"

lemma usable_rate: "usable c \<Longrightarrow> \<exists>rate. refill_rate c = Inr rate \<and> 0 < rate"
  by (simp add: usable_def refill_rate_def flt.rnd_pos)

lemma flt_round_nat: "int n < 2 ^ 53 \<Longrightarrow> flt_round (of_nat n) = of_nat n"
  using flt_round_int [of "int n"] by simp

definition mem_allow :: "string \<Rightarrow> rat \<Rightarrow> mem_limiter \<Rightarrow> bool \<times> mem_limiter" where
  "mem_allow k now l = (case mem_check k ''ExecuteTrade'' now l of (r, l') \<Rightarrow> ((case r of Inr (ok, _) \<Rightarrow> ok | Inl _ \<Rightarrow> False), l'))"

definition mem_budget :: "string \<Rightarrow> mem_limiter \<Rightarrow> nat" where
  "mem_budget k l =
     (case ml_buckets l (mem_key k ''ExecuteTrade'') of
        None \<Rightarrow> nat (max_tokens (ml_config l)) | Some (tokens, touched) \<Rightarrow> nat \<lfloor>tokens\<rfloor>)"

definition mem_settled :: "string \<Rightarrow> rat \<Rightarrow> mem_limiter \<Rightarrow> bool" where
  "mem_settled k now l \<longleftrightarrow> usable (ml_config l) \<and>
     (case ml_buckets l (mem_key k ''ExecuteTrade'') of
        None \<Rightarrow> True
      | Some (tokens, touched) \<Rightarrow> touched = now \<and> tokens = of_nat (nat \<lfloor>tokens\<rfloor>) \<and> tokens \<le> of_int (max_tokens (ml_config l)))"

text \<open>A settled bucket with \<open>n\<close> tokens behaves as the counter \<open>n\<close>.\<close>

lemma mem_check_settled:
  assumes "mem_settled k now l"
  shows "mem_check k ''ExecuteTrade'' now l =
     (let n = mem_budget k l; rate = (case refill_rate (ml_config l) of Inr r \<Rightarrow> r | Inl _ \<Rightarrow> 0);
          m = (if 0 < n then n - 1 else 0)
      in (Inr (0 < n, if 0 < n then 0 else flt_round (1 / rate), int m),
          l\<lparr>ml_buckets := (ml_buckets l)(mem_key k ''ExecuteTrade'' \<mapsto> (of_nat m, now))\<rparr>))"
proof -
  let ?M = "max_tokens (ml_config l)" and ?n = "mem_budget k l"
  have u: "usable (ml_config l)" "0 < ?M" "?M < 2 ^ 53" using assms by (auto simp: mem_settled_def usable_def max_tokens_def)
  obtain rate where r: "refill_rate (ml_config l) = Inr rate" "0 < rate" using usable_rate u(1) by blast
  have n: "int ?n \<le> ?M" "(case ml_buckets l (mem_key k ''ExecuteTrade'') of Some b \<Rightarrow> b | None \<Rightarrow> (flt_round (of_int ?M), now)) = (of_nat ?n, now)"
    using assms u flt_round_int [of ?M]
    by (auto simp: mem_settled_def mem_budget_def le_floor_iff floor_le_iff split: option.splits) linarith?
  have f: "flt_round (of_nat ?n) = of_nat ?n" "flt_round (of_nat (?n - 1)) = of_nat (?n - 1)" "flt_round 1 = 1"
    using n(1) u(3) by (auto intro!: flt_round_nat simp: num_eval)
  have mn: "min (of_int ?M) (of_nat ?n) = (of_nat ?n :: rat)" using n(1) by (simp add: min_def) linarith?
  show ?thesis
  proof (cases "?n")
    case 0
    then show ?thesis using r n f mn by (simp add: mem_check_def Let_def flt.rnd_0 trunc_int_def)
  next
    case (Suc m)
    have fm: "flt_round (of_nat m) = of_nat m" using f(2) Suc by simp
    then show ?thesis using r n f mn Suc by (simp add: mem_check_def Let_def flt.rnd_0 trunc_int_def)
  qed
qed

interpretation mem: token_bucket mem_allow mem_settled mem_budget
proof
  fix k now l assume s: "mem_settled k now l"
  note c = mem_check_settled [OF s]
  show "fst (mem_allow k now l) \<longleftrightarrow> 0 < mem_budget k l" by (simp add: mem_allow_def c Let_def)
  have M: "int (mem_budget k l) \<le> max_tokens (ml_config l)"
    using s by (auto simp: mem_settled_def mem_budget_def usable_def max_tokens_def split: option.splits) linarith?
  then have M': "int (mem_budget k l - 1) \<le> max_tokens (ml_config l)" by simp
  then have "(of_nat (mem_budget k l - 1) :: rat) \<le> of_int (max_tokens (ml_config l))" by linarith
  then show "mem_settled k now (snd (mem_allow k now l))"
    using s by (auto simp: mem_allow_def c Let_def mem_settled_def usable_def max_tokens_def split: option.splits)
  show "mem_budget k (snd (mem_allow k now l)) = mem_budget k l - 1"
    by (simp add: mem_allow_def c Let_def mem_budget_def [of k "ml_buckets_update _ _"])
qed

definition new_redis_limiter :: "rate_limit_config \<Rightarrow> redis_limiter" where
  "new_redis_limiter c = \<lparr>rr_config = c, rr_store = Map.empty\<rparr>"

definition redis_allow :: "string \<Rightarrow> rat \<Rightarrow> redis_limiter \<Rightarrow> bool \<times> redis_limiter" where
  "redis_allow k now l = (case redis_check k True now l of (r, l') \<Rightarrow> ((case r of Inr (ok, _) \<Rightarrow> ok | Inl _ \<Rightarrow> False), l'))"

definition redis_budget :: "string \<Rightarrow> redis_limiter \<Rightarrow> nat" where
  "redis_budget k l =
     (case rr_store l k of None \<Rightarrow> nat (max_tokens (rr_config l)) | Some (tokens, touched) \<Rightarrow> nat \<lfloor>tokens\<rfloor>)"

text \<open>A client of Redis is held back only when a token takes at least a second.\<close>

definition slow :: "rate_limit_config \<Rightarrow> bool" where
  "slow c \<longleftrightarrow> usable c \<and> (case refill_rate c of Inr rate \<Rightarrow> rate \<le> 1 | Inl _ \<Rightarrow> False)"

definition redis_settled :: "string \<Rightarrow> rat \<Rightarrow> redis_limiter \<Rightarrow> bool" where
  "redis_settled k now l \<longleftrightarrow> slow (rr_config l) \<and>
     (case rr_store l k of
        None \<Rightarrow> True
      | Some (tokens, touched) \<Rightarrow> touched = now \<and> tokens = of_nat (nat \<lfloor>tokens\<rfloor>) \<and> tokens \<le> of_int (max_tokens (rr_config l)))"

lemma wait_at_least_one: "0 < rate \<Longrightarrow> rate \<le> 1 \<Longrightarrow> trunc_int (flt_round (1 / rate)) \<noteq> 0"
proof -
  assume r: "0 < rate" "rate \<le> 1"
  have "1 \<le> flt_round (1 / rate)" by (rule flt.rnd_ge) (use r in \<open>simp_all add: num_eval\<close>)
  then show ?thesis by (simp add: trunc_int_def) linarith
qed

lemma redis_allow_settled:
  assumes "redis_settled k now l"
  shows "redis_allow k now l =
     (let n = redis_budget k l
      in (0 < n, l\<lparr>rr_store := (rr_store l)(k \<mapsto> (of_nat (n - 1), now))\<rparr>))"
proof -
  let ?M = "max_tokens (rr_config l)" and ?n = "redis_budget k l"
  have u: "usable (rr_config l)" "0 < ?M" "?M < 2 ^ 53"
    using assms by (auto simp: redis_settled_def slow_def usable_def max_tokens_def)
  obtain rate where r: "refill_rate (rr_config l) = Inr rate" "0 < rate" "rate \<le> 1"
    using usable_rate [OF u(1)] assms by (auto simp: redis_settled_def slow_def)
  have n: "int ?n \<le> ?M" "(case rr_store l k of None \<Rightarrow> (of_int ?M, now) | Some b \<Rightarrow> b) = (of_nat ?n, now)"
    using assms u by (auto simp: redis_settled_def redis_budget_def le_floor_iff floor_le_iff split: option.splits) linarith?
  have f: "flt_round (of_nat ?n) = of_nat ?n" "flt_round (of_nat (?n - 1)) = of_nat (?n - 1)" "flt_round 1 = 1"
    using n(1) u(3) by (auto intro!: flt_round_nat simp: num_eval)
  have mn: "min (of_int ?M) (of_nat ?n) = (of_nat ?n :: rat)" using n(1) by (simp add: min_def) linarith?
  show ?thesis
  proof (cases "?n")
    case 0
    then show ?thesis using r n f mn wait_at_least_one [OF r(2,3)]
      by (simp add: redis_allow_def redis_check_def token_bucket_script_def Let_def flt.rnd_0)
  next
    case (Suc m)
    have fm: "flt_round (of_nat m) = of_nat m" using f(2) Suc by simp
    then show ?thesis using r n f mn Suc
      by (simp add: redis_allow_def redis_check_def token_bucket_script_def Let_def flt.rnd_0 trunc_int_def)
  qed
qed

interpretation redis: token_bucket redis_allow redis_settled redis_budget
proof
  fix k now l assume s: "redis_settled k now l"
  note c = redis_allow_settled [OF s]
  show "fst (redis_allow k now l) \<longleftrightarrow> 0 < redis_budget k l" by (simp add: c Let_def)
  have "int (redis_budget k l) \<le> max_tokens (rr_config l)"
    using s by (auto simp: redis_settled_def redis_budget_def slow_def usable_def max_tokens_def split: option.splits) linarith?
  then have "int (redis_budget k l - 1) \<le> max_tokens (rr_config l)" by simp
  then have "(of_nat (redis_budget k l - 1) :: rat) \<le> of_int (max_tokens (rr_config l))" by linarith
  then show "redis_settled k now (snd (redis_allow k now l))"
    using s by (auto simp: c Let_def redis_settled_def split: option.splits)
  show "redis_budget k (snd (redis_allow k now l)) = redis_budget k l - 1"
    by (simp add: c Let_def redis_budget_def [of k "rr_store_update _ _"])
qed

section \<open>Properties\<close>

text \<open>
  Both implementations enforce the same burst: of any number of calls that a new client makes at one
  instant, exactly \<open>requests_per_window + burst_size\<close> pass, the first ones, provided a token takes at least
  a second to regenerate.
\<close>

theorem limiters_agree_on_burst:
  assumes "slow c"
  shows "mem.burst n k now (new_mem_limiter c) =
       replicate (min n (nat (max_tokens c))) True @ replicate (n - nat (max_tokens c)) False \<and>
     redis.burst n k now (new_redis_limiter c) = mem.burst n k now (new_mem_limiter c)"
proof -
  have m: "mem_settled k now (new_mem_limiter c)" "mem_budget k (new_mem_limiter c) = nat (max_tokens c)"
    using assms by (simp_all add: mem_settled_def mem_budget_def new_mem_limiter_def slow_def)
  have r: "redis_settled k now (new_redis_limiter c)" "redis_budget k (new_redis_limiter c) = nat (max_tokens c)"
    using assms by (simp_all add: redis_settled_def redis_budget_def new_redis_limiter_def)
  show ?thesis using mem.burst_exact [OF m(1)] redis.burst_exact [OF r(1)] m(2) r(2) by simp
qed

lemma slow_TRADING: "slow TRADING"
proof -
  have "flt_round (1 / 6) \<le> 1" by (rule flt.rnd_le) (simp_all add: num_eval)
  then show ?thesis
    by (simp add: slow_def usable_def refill_rate_def TRADING_def preset_def max_tokens_def)
qed

theorem limiters_agree_on_burst_witness:
  "redis.burst 17 ''10.0.0.1'' 0 (new_redis_limiter TRADING) = replicate 15 True @ [False, False]"
proof -
  have "max_tokens TRADING = 15" by (simp add: TRADING_def preset_def max_tokens_def)
  then show ?thesis using limiters_agree_on_burst [OF slow_TRADING, of 17 "''10.0.0.1''" 0]
    by (simp add: numeral_2_eq_2)
qed

text \<open>A sequence of calls of one client to the Redis limiter.\<close>

fun redis_poll :: "string \<Rightarrow> rat list \<Rightarrow> redis_limiter \<Rightarrow> bool list" where
  "redis_poll k [] l = []"
| "redis_poll k (now # ts) l = (case redis_allow k now l of (ok, l') \<Rightarrow> ok # redis_poll k ts l')"

fun gaps_short :: "rat \<Rightarrow> rat \<Rightarrow> rat list \<Rightarrow> bool" where
  "gaps_short rate t0 [] = True"
| "gaps_short rate t0 (now # ts) =
     (t0 \<le> now \<and> flt_round (flt_round (now - t0) * rate) < 1 \<and> gaps_short rate now ts)"



text \<open>
  The Redis limiter never refuses anyone when two or more tokens regenerate per second (the presets for
  internal services and health checks): the waiting time of an empty bucket is below one second, Redis
  truncates it to zero, and zero means allowed.
\<close>

theorem redis_fast_limits_inert:
  assumes "usable (rr_config l)" "refill_rate (rr_config l) = Inr rate" "2 \<le> rate"
    and "\<forall>toks t. rr_store l k = Some (toks, t) \<longrightarrow> 0 \<le> toks \<and> t \<le> now"
  shows "fst (redis_allow k now l)"
proof -
  let ?M = "max_tokens (rr_config l)"
  obtain toks t where b: "(case rr_store l k of None \<Rightarrow> (of_int ?M, now) | Some b \<Rightarrow> b) = (toks, t)" by fastforce
  have M: "0 < ?M" using assms(1) by (auto simp: usable_def max_tokens_def)
  have t: "0 \<le> toks" "t \<le> now" using b assms(4) M by (auto split: option.splits)
  define x where "x = min (of_int ?M) (flt_round (toks + of_int \<lfloor>flt_round (flt_round (now - t) * rate)\<rfloor>))"
  have x0: "0 \<le> x" unfolding x_def using t assms(3) M by (simp add: flt.rnd_nonneg)
  show ?thesis
  proof (cases "1 \<le> x")
    case True
    then show ?thesis using assms(2) b
      by (simp add: redis_allow_def redis_check_def token_bucket_script_def Let_def x_def [symmetric] trunc_int_def del: min.bounded_iff)
  next
    case False
    define w where "w = flt_round (flt_round (1 - x) / rate)"
    have f: "0 \<le> flt_round (1 - x)" "flt_round (1 - x) \<le> 1"
      using False x0 by (auto intro: flt.rnd_nonneg flt.rnd_le simp: num_eval)
    have "flt_round (1 - x) / rate \<le> 1 / 2" using f assms(3) by (intro frac_le) auto
    then have "w \<le> 1 / 2" unfolding w_def by (intro flt.rnd_le) (simp_all add: num_eval)
    moreover have "0 \<le> w" unfolding w_def using f assms(3) by (intro flt.rnd_nonneg) auto
    ultimately have "trunc_int w = 0" by (simp add: trunc_int_def floor_eq_iff)
    then show ?thesis using assms(2) b False
      by (simp add: redis_allow_def redis_check_def token_bucket_script_def Let_def x_def [symmetric] w_def del: min.bounded_iff)
  qed
qed

theorem redis_fast_limits_inert_witness:
  "fst (redis_allow ''c'' 0 \<lparr>rr_config = HEALTH_CHECK, rr_store = [''c'' \<mapsto> (0, 0)]\<rparr>)"
proof -
  have "refill_rate HEALTH_CHECK = Inr 5" by (simp add: refill_rate_def HEALTH_CHECK_def preset_def num_eval)
  then show ?thesis
    using redis_fast_limits_inert [of "\<lparr>rr_config = HEALTH_CHECK, rr_store = [''c'' \<mapsto> (0, 0)]\<rparr>" 5 "''c''" 0]
    by (simp add: HEALTH_CHECK_def preset_def usable_def max_tokens_def)
qed

end
