(* ===== verification/Execution_Server.thy ===== *)
theory Execution_Server
  imports Order_Manager Token_Bucket
begin

text \<open>
  \<open>mt5_bridge/grpc_server.py\<close>: the dictionary-based \<open>ExecutionServicer\<close> and the
  \<open>GRPCExecutionServicer\<close> that puts the rate limiter in front of it and translates the protobuf
  messages. The gRPC runtime is not in the repository: whether \<open>context.abort\<close>, called without
  \<open>await\<close>, ends the handler is an argument (it does on a synchronous server; on the \<open>grpc.aio\<close> server
  that \<open>ExecutionServer.start\<close> creates it only builds a coroutine). The hash in the Redis key is an argument
  as well.
\<close>

section \<open>Messages\<close>

text \<open>The numeric strings of the protobuf signal: empty when unset, possibly malformed.\<close>

datatype proto_num = Blank | Written xdecimal | Malformed

fun field_of :: "proto_num \<Rightarrow> num_field" where
  "field_of Blank = Garbage"
| "field_of (Written x) = Num x"
| "field_of Malformed = Garbage"

record trade_request =
  tq_signal_id :: string
  tq_symbol :: string
  tq_direction :: int
  tq_suggested_lots :: proto_num
  tq_stop_loss :: proto_num
  tq_take_profit :: proto_num

datatype reason = NoReason | RefusedBy order_rejection | BrokerFailure

text \<open>The result dictionary of \<open>execute_trade\<close>, with the keys \<open>ExecuteTrade\<close> reads.\<close>

record trade_outcome =
  ot_status :: string
  ot_order_id :: "int option"
  ot_signal_id :: "string option"
  ot_executed_price :: decimal
  ot_volume :: "xdecimal option"
  ot_slippage :: decimal
  ot_reason :: reason

record trade_execution =
  te_order_id :: "int option"
  te_signal_id :: string
  te_symbol :: string
  te_executed_price :: decimal
  te_quantity :: xdecimal
  te_stop_loss :: proto_num
  te_take_profit :: proto_num
  te_status :: int
  te_slippage_pips :: decimal
  te_rejection_reason :: reason

definition PROTO_DIRECTION_TO_STR :: "int \<Rightarrow> string" where
  "PROTO_DIRECTION_TO_STR d =
     opt_get (map_of [(0, ''HOLD''), (1, ''BUY''), (2, ''SELL''), (3, ''HOLD'')] d) ''HOLD''"

definition STATUS_STR_TO_PROTO :: "string \<Rightarrow> int" where
  "STATUS_STR_TO_PROTO s =
     opt_get (map_of [(''PENDING'', 1), (''FILLED'', 2), (''PARTIALLY_FILLED'', 3), (''REJECTED'', 4),
                      (''CANCELLED'', 5), (''EXPIRED'', 6), (''ERROR'', 7), (''UNKNOWN'', 0)] s) 0"

section \<open>ExecutionServicer\<close>

definition refusal :: "string \<Rightarrow> string \<Rightarrow> reason \<Rightarrow> trade_outcome" where
  "refusal signal_id status why =
     \<lparr>ot_status = status, ot_order_id = None, ot_signal_id = Some signal_id, ot_executed_price = 0,
      ot_volume = None, ot_slippage = 0, ot_reason = why\<rparr>"

definition execute_trade ::
  "terminal \<Rightarrow> clocks \<Rightarrow> order_signal \<Rightarrow> order_manager \<Rightarrow> order_request list \<times> trade_outcome result \<times> order_manager" where
  "execute_trade t ck s om =
     (let s = (if os_suggested_lots s = Absent then s\<lparr>os_suggested_lots := Num (Fin (1 / 100))\<rparr> else s)
      in case execute_signal t ck s om of
           (sent, r, om') \<Rightarrow>
             (sent,
              (case r of
                 Inr x \<Rightarrow> Inr \<lparr>ot_status = ex_status x, ot_order_id = ex_order_id x, ot_signal_id = None,
                              ot_executed_price = ex_executed_price x, ot_volume = ex_volume x,
                              ot_slippage = ex_slippage x, ot_reason = NoReason\<rparr>
               | Inl (SignalRejectedError j) \<Rightarrow> Inr (refusal (os_signal_id s) ''REJECTED'' (RefusedBy j))
               | Inl BrokerError \<Rightarrow> Inr (refusal (os_signal_id s) ''ERROR'' BrokerFailure)
               | Inl (Uncaught e) \<Rightarrow> Inl e),
              om'))"

section \<open>GRPCExecutionServicer\<close>

text \<open>\<open>str.split\<close> on one character; indexing past the end is the exception that yields \<open>unknown\<close>.\<close>

fun str_split :: "char \<Rightarrow> string \<Rightarrow> string list" where
  "str_split c [] = [[]]"
| "str_split c (x # xs) =
     (if x = c then [] # str_split c xs
      else case str_split c xs of [] \<Rightarrow> [[x]] | p # ps \<Rightarrow> (x # p) # ps)"

definition split_item :: "char \<Rightarrow> nat \<Rightarrow> string \<Rightarrow> string option" where
  "split_item c n s = (let parts = str_split c s in if n < length parts then Some (parts ! n) else None)"

definition extract_client_id :: "string \<Rightarrow> string" where
  "extract_client_id peer =
     (if str_starts ''ipv4:'' peer then opt_get (split_item (CHR '':'') 1 peer) ''unknown''
      else if str_starts ''ipv6:'' peer
      then (case split_item (CHR ''['') 1 peer of
              None \<Rightarrow> ''unknown''
            | Some p \<Rightarrow> opt_get (split_item (CHR '']'') 0 p) ''unknown'')
      else ''unknown'')"

text \<open>The dictionary \<open>ExecuteTrade\<close> builds from the request: no time stamp, entry price or order type.\<close>

definition order_dict :: "trade_request \<Rightarrow> order_signal" where
  "order_dict q =
     \<lparr>os_signal_id = tq_signal_id q, os_symbol = Some (tq_symbol q),
      os_direction = Some (PROTO_DIRECTION_TO_STR (tq_direction q)),
      os_suggested_lots = (if tq_suggested_lots q = Blank then Num (Fin (1 / 100)) else field_of (tq_suggested_lots q)),
      os_stop_loss = field_of (tq_stop_loss q), os_take_profit = field_of (tq_take_profit q),
      os_entry_price = Absent, os_limit_price = Absent, os_timestamp_ms = None, os_order_type = None\<rparr>"

definition to_execution :: "trade_request \<Rightarrow> trade_outcome \<Rightarrow> trade_execution" where
  "to_execution q r =
     \<lparr>te_order_id = ot_order_id r, te_signal_id = opt_get (ot_signal_id r) (tq_signal_id q), te_symbol = tq_symbol q,
      te_executed_price = ot_executed_price r, te_quantity = opt_get (ot_volume r) (Fin 0),
      te_stop_loss = tq_stop_loss q, te_take_profit = tq_take_profit q, te_status = STATUS_STR_TO_PROTO (ot_status r),
      te_slippage_pips = ot_slippage r, te_rejection_reason = ot_reason r\<rparr>"

datatype limiter = InMemory mem_limiter | RedisBacked redis_limiter

definition redis_key :: "(string \<Rightarrow> string) \<Rightarrow> string \<Rightarrow> string \<Rightarrow> string" where
  "redis_key hash identifier endpoint = ''ratelimit:mt5bridge:mt5_bridge:'' @ endpoint @ '':'' @ hash identifier"

definition limiter_check ::
  "(string \<Rightarrow> string) \<Rightarrow> bool \<Rightarrow> rat \<Rightarrow> string \<Rightarrow> limiter \<Rightarrow> int result \<times> limiter" where
  "limiter_check hash reachable now client l =
     (case l of
        InMemory m \<Rightarrow> (case mem_check client ''ExecuteTrade'' now m of (r, m') \<Rightarrow> (check_outcome r, InMemory m'))
      | RedisBacked m \<Rightarrow>
          (case redis_check (redis_key hash client ''ExecuteTrade'') reachable now m of
             (r, m') \<Rightarrow> (check_outcome r, RedisBacked m')))"

datatype rpc_error = ResourceExhausted rat | Internal pyexc

record call_env =
  ce_abort_raises :: bool
  ce_hash :: "string \<Rightarrow> string"
  ce_redis_reachable :: bool
  ce_limiter_now :: rat
  ce_peer :: string
  ce_terminal :: terminal
  ce_clocks :: clocks

record servicer =
  sv_limiter :: "limiter option"
  sv_orders :: order_manager

definition forward_trade ::
  "call_env \<Rightarrow> trade_request \<Rightarrow> servicer \<Rightarrow> order_request list \<times> (rpc_error + trade_execution) \<times> servicer" where
  "forward_trade env q sv =
     (case execute_trade (ce_terminal env) (ce_clocks env) (order_dict q) (sv_orders sv) of
        (sent, r, om') \<Rightarrow>
          (sent, (case r of Inl e \<Rightarrow> Inl (Internal e) | Inr x \<Rightarrow> Inr (to_execution q x)), sv\<lparr>sv_orders := om'\<rparr>))"

definition ExecuteTrade ::
  "call_env \<Rightarrow> trade_request \<Rightarrow> servicer \<Rightarrow> order_request list \<times> (rpc_error + trade_execution) \<times> servicer" where
  "ExecuteTrade env q sv =
     (case sv_limiter sv of
        None \<Rightarrow> forward_trade env q sv
      | Some l \<Rightarrow>
          (case limiter_check (ce_hash env) (ce_redis_reachable env) (ce_limiter_now env) (extract_client_id (ce_peer env)) l of
             (r, l') \<Rightarrow>
               let sv = sv\<lparr>sv_limiter := Some l'\<rparr>
               in case r of
                    Inr _ \<Rightarrow> forward_trade env q sv
                  | Inl (RateLimitExceededError retry_after) \<Rightarrow>
                      if ce_abort_raises env then ([], Inl (ResourceExhausted retry_after), sv)
                      else forward_trade env q sv
                  | Inl e \<Rightarrow> ([], Inl (Internal e), sv)))"

section \<open>Health\<close>

text \<open>
  \<open>CheckHealth\<close> reads \<open>self._order_manager\<close>; a missing attribute is an exception, caught as not connected.
\<close>

datatype health = HEALTHY | UNHEALTHY

definition grpc_servicer_attributes :: "string list" where
  "grpc_servicer_attributes = [''_servicer'', ''_rate_limiter'']"

definition CheckHealth :: "terminal \<Rightarrow> health" where
  "CheckHealth t =
     (let connected = (''_order_manager'' \<in> set grpc_servicer_attributes \<and> tm_connected t)
      in if connected then HEALTHY else UNHEALTHY)"

section \<open>Lemmas\<close>

lemma str_split_nonempty: "str_split c s \<noteq> []"
  by (induction c s rule: str_split.induct) (auto split: list.split)

lemma split_item_0: "split_item c 0 s = Some (hd (str_split c s))"
  using str_split_nonempty [of c s] by (simp add: split_item_def hd_conv_nth)

text \<open>Joining the parts of a split gives the string back.\<close>

fun str_join :: "char \<Rightarrow> string list \<Rightarrow> string" where
  "str_join c [] = []"
| "str_join c [p] = p"
| "str_join c (p # q # ps) = p @ c # str_join c (q # ps)"

lemma str_join_Cons: "ps \<noteq> [] \<Longrightarrow> str_join c (p # ps) = p @ c # str_join c ps"
  by (cases ps) auto

lemma str_join_split: "str_join c (str_split c s) = s"
proof (induction c s rule: str_split.induct)
  case (2 c x xs)
  show ?case
  proof (cases "x = c")
    case True
    then show ?thesis using 2 str_split_nonempty [of c xs] by (simp add: str_join_Cons)
  next
    case False
    obtain p ps where s: "str_split c xs = p # ps" using str_split_nonempty [of c xs] by (cases "str_split c xs") auto
    then show ?thesis using 2 False by (cases ps) auto
  qed
qed simp

lemma str_split_no_sep: "p \<in> set (str_split c s) \<Longrightarrow> c \<notin> set p"
proof (induction c s arbitrary: p rule: str_split.induct)
  case (2 c x xs)
  then show ?case by (auto split: if_splits list.splits)
qed simp

lemma str_split_append: "c \<notin> set p \<Longrightarrow> str_split c (p @ c # s) = p # str_split c s"
  by (induction p) auto

lemma str_split_plain: "c \<notin> set p \<Longrightarrow> str_split c p = [p]"
  by (induction p) auto

lemma order_dict_simps [simp]:
  "os_timestamp_ms (order_dict q) = None" "os_entry_price (order_dict q) = Absent"
  "os_order_type (order_dict q) = None" "os_signal_id (order_dict q) = tq_signal_id q"
  "os_suggested_lots (order_dict q) \<noteq> Absent"
  by (cases "tq_suggested_lots q"; simp add: order_dict_def)+

lemma status_filled [simp]: "STATUS_STR_TO_PROTO ''FILLED'' = 2" "STATUS_STR_TO_PROTO ''REJECTED'' = 4"
  "STATUS_STR_TO_PROTO ''PENDING'' = 1" "STATUS_STR_TO_PROTO ''ERROR'' = 7"
  by (simp_all add: STATUS_STR_TO_PROTO_def)

lemma submit_order_result:
  assumes "submit_order t symbol dir lots sl tp c = (sent, Inr x)"
  shows "\<exists>rq rp. sent = [rq] \<and> tm_order_send t rq = Some rp \<and>
     (if rp_retcode rp = tm_retcode_done t then ex_status x = ''FILLED'' \<and> ex_executed_price x = rp_price rp
      else ex_status x = ''REJECTED'')"
  using assms by (auto simp: submit_order_def rejected_result_def Let_def split: if_splits option.splits)

lemma submit_signal_market:
  assumes "os_order_type s = None" "submit_signal om t s = (sent, Inr x)"
  shows "\<exists>symbol dir lots sl tp c. submit_order t symbol dir lots sl tp c = (sent, Inr x)"
  using assms by (clarsimp simp: submit_signal_def Let_def split: sum.splits prod.splits) blast

lemma execute_trade_filled:
  assumes "execute_trade t ck s om = (sent, Inr r, om')" "os_order_type s = None" "STATUS_STR_TO_PROTO (ot_status r) = 2"
  shows "\<exists>rq rp. sent = [rq] \<and> tm_order_send t rq = Some rp \<and> rp_retcode rp = tm_retcode_done t \<and>
     ot_executed_price r = rp_price rp"
proof -
  define s1 where "s1 = (if os_suggested_lots s = Absent then s\<lparr>os_suggested_lots := Num (Fin (1 / 100))\<rparr> else s)"
  have mk: "os_order_type s1 = None" using assms(2) by (simp add: s1_def)
  obtain q where e: "execute_signal t ck s1 om = (sent, q, om')"
    using assms(1) by (auto simp: execute_trade_def s1_def Let_def split: prod.splits)
  obtain x where x: "q = Inr x" "ot_status r = ex_status x" "ot_executed_price r = ex_executed_price x"
    using assms(1,3) e by (auto simp: execute_trade_def s1_def [symmetric] refusal_def split: sum.splits bridge_error.splits)
  obtain om1 where "submit_signal om1 t s1 = (sent, Inr x)"
    using e x(1) by (auto simp: execute_signal_def Let_def split: if_splits sum.splits prod.splits)
  then obtain symbol dir lots sl tp c where "submit_order t symbol dir lots sl tp c = (sent, Inr x)"
    using submit_signal_market [OF mk] by blast
  from submit_order_result [OF this] show ?thesis using x assms(3) by (auto split: if_splits)
qed

section \<open>Properties\<close>

text \<open>
  C12. The receipt is honest: an execution reported to the client as filled stands for exactly one request sent
  to the broker, which the broker acknowledged as done, at the price the receipt states.
\<close>

theorem receipt_is_honest:
  assumes "ExecuteTrade env q sv = (sent, Inr e, sv')" "te_status e = 2"
  shows "\<exists>rq rp. sent = [rq] \<and> tm_order_send (ce_terminal env) rq = Some rp \<and>
     rp_retcode rp = tm_retcode_done (ce_terminal env) \<and> te_executed_price e = rp_price rp"
proof -
  obtain sv1 where f: "forward_trade env q sv1 = (sent, Inr e, sv')"
    using assms(1) by (auto simp: ExecuteTrade_def Let_def split: option.splits prod.splits sum.splits pyexc.splits if_splits)
  then obtain r om' where r: "execute_trade (ce_terminal env) (ce_clocks env) (order_dict q) (sv_orders sv1) = (sent, Inr r, om')"
    and e: "e = to_execution q r"
    by (auto simp: forward_trade_def split: prod.splits sum.splits)
  have "STATUS_STR_TO_PROTO (ot_status r) = 2" using assms(2) e by (simp add: to_execution_def)
  from execute_trade_filled [OF r _ this] show ?thesis using e by (simp add: to_execution_def)
qed

definition sample_trade_request :: trade_request where
  "sample_trade_request =
     \<lparr>tq_signal_id = ''s1'', tq_symbol = ''EURUSD'', tq_direction = 1, tq_suggested_lots = Written (Fin 3),
      tq_stop_loss = Written (Fin (1 / 2)), tq_take_profit = Written (Fin 2)\<rparr>"

definition sample_env :: "bool \<Rightarrow> call_env" where
  "sample_env raises =
     \<lparr>ce_abort_raises = raises, ce_hash = (\<lambda>x. x), ce_redis_reachable = False, ce_limiter_now = 0,
      ce_peer = ''ipv4:10.0.0.1:5000'', ce_terminal = sample_terminal,
      ce_clocks = \<lparr>ck_validate = 0, ck_register = 0, ck_cleanup = 0\<rparr>\<rparr>"

lemma sample_forward:
  "\<exists>sv'. forward_trade (sample_env raises) sample_trade_request \<lparr>sv_limiter = l, sv_orders = sample_om\<rparr> =
     ([sample_request ''s1''],
      Inr \<lparr>te_order_id = Some 7, te_signal_id = ''s1'', te_symbol = ''EURUSD'', te_executed_price = 1,
           te_quantity = Fin 1, te_stop_loss = Written (Fin (1 / 2)), te_take_profit = Written (Fin 2), te_status = 2,
           te_slippage_pips = 0, te_rejection_reason = NoReason\<rparr>, sv')"
proof -
  have d: "order_dict sample_trade_request = sample_signal\<lparr>os_signal_id := ''s1'', os_entry_price := Absent\<rparr>"
    by (simp add: order_dict_def sample_trade_request_def sample_signal_def PROTO_DIRECTION_TO_STR_def)
  have e: "execute_signal sample_terminal \<lparr>ck_validate = 0, ck_register = 0, ck_cleanup = 0\<rparr>
      (sample_signal\<lparr>os_signal_id := ''s1'', os_entry_price := Absent\<rparr>) sample_om =
      ([sample_request ''s1''], Inr sample_fill, cleanup_old_signals 0 (sample_om\<lparr>om_recent := [''s1'' \<mapsto> 0]\<rparr>))"
    using sample_execute_any [where m = Map.empty and i = "''s1''" and e = Absent
        and ck = "\<lparr>ck_validate = 0, ck_register = 0, ck_cleanup = 0\<rparr>"]
    by (simp add: sample_om_def)
  show ?thesis
    by (simp add: forward_trade_def execute_trade_def d sample_env_def e to_execution_def Let_def)
      (simp add: sample_signal_def sample_trade_request_def sample_fill_def)
qed

theorem receipt_is_honest_witness:
  "\<exists>e sv'. ExecuteTrade (sample_env False) sample_trade_request \<lparr>sv_limiter = None, sv_orders = sample_om\<rparr> =
       ([sample_request ''s1''], Inr e, sv') \<and> te_status e = 2 \<and>
     (\<exists>rp. tm_order_send sample_terminal (sample_request ''s1'') = Some rp \<and> te_executed_price e = rp_price rp)"
proof -
  obtain e sv' where run: "ExecuteTrade (sample_env False) sample_trade_request \<lparr>sv_limiter = None, sv_orders = sample_om\<rparr> =
       ([sample_request ''s1''], Inr e, sv')" and st: "te_status e = 2"
    using sample_forward [of False None] by (auto simp: ExecuteTrade_def)
  have t: "ce_terminal (sample_env False) = sample_terminal" by (simp add: sample_env_def)
  show ?thesis using receipt_is_honest [OF run st] run st unfolding t by auto
qed

text \<open>
  Freshness and level coherence are never checked on the gRPC path: the dictionary built from the request
  carries neither a time stamp nor an entry price, so the outcome of validation does not depend on the
  clock, and no request is ever refused for its age or for a stop or target on the wrong side.
\<close>

theorem grpc_path_skips_freshness:
  "validate_signal om t now (order_dict q) = validate_signal om t now' (order_dict q) \<and>
   validate_signal om t now (order_dict q) \<noteq> Inl (SignalRejectedError TooOld) \<and>
   validate_signal om t now (order_dict q) \<noteq> Inl (SignalRejectedError BuyStopSide) \<and>
   validate_signal om t now (order_dict q) \<noteq> Inl (SignalRejectedError BuyTargetSide) \<and>
   validate_signal om t now (order_dict q) \<noteq> Inl (SignalRejectedError SellStopSide) \<and>
   validate_signal om t now (order_dict q) \<noteq> Inl (SignalRejectedError SellTargetSide)"
proof -
  have age: "check_age om now (order_dict q) = Inr ()" for now by (simp add: check_age_def)
  have lev: "check_levels (order_dict q) \<noteq> Inl (SignalRejectedError j)" for j
    by (auto simp: check_levels_def rbind_eq_Inl)
  have other: "validate_signal om t now (order_dict q) = Inl (SignalRejectedError j) \<Longrightarrow>
      j \<in> {BadDirection, LotsNotPositive, NoStopLoss, PositionLimit, SpreadTooHigh, NoMargin, DrawdownLimit, DailyLossLimit}" for j
    using lev [of j] validate_signal_reasons [of om t now "order_dict q" j] age [of now]
      check_position_count_reasons [of om t j] check_free_margin_reasons [of om t "order_dict q" j]
      check_account_limits_reasons [of om t j] by auto
  have "validate_signal om t now (order_dict q) = validate_signal om t now' (order_dict q)"
    by (simp add: validate_signal_def age)
  then show ?thesis using other by blast
qed

text \<open>
  The rate limit on trades depends on \<open>abort\<close> raising. Where it does, a client over its limit is turned
  away without any effect on orders; where it does not, as on the \<open>grpc.aio\<close> server the bridge starts, the
  request over the limit is executed like any other.
\<close>

theorem rate_limit_needs_raising_abort:
  assumes "sv_limiter sv = Some l"
    and "limiter_check (ce_hash env) (ce_redis_reachable env) (ce_limiter_now env) (extract_client_id (ce_peer env)) l
           = (Inl (RateLimitExceededError after), l')"
  shows "(ce_abort_raises env \<longrightarrow>
            ExecuteTrade env q sv = ([], Inl (ResourceExhausted after), sv\<lparr>sv_limiter := Some l'\<rparr>)) \<and>
         (\<not> ce_abort_raises env \<longrightarrow> ExecuteTrade env q sv = forward_trade env q (sv\<lparr>sv_limiter := Some l'\<rparr>))"
  using assms by (simp add: ExecuteTrade_def Let_def)

theorem rate_limit_needs_raising_abort_witness:
  "\<exists>l e sv'. fst (limiter_check (\<lambda>x. x) False 0 ''10.0.0.1'' l) = Inl (RateLimitExceededError 1) \<and>
     ExecuteTrade (sample_env False) sample_trade_request \<lparr>sv_limiter = Some l, sv_orders = sample_om\<rparr> =
       ([sample_request ''s1''], Inr e, sv') \<and> te_status e = 2"
proof -
  let ?m = "\<lparr>ml_config = PUBLIC_API, ml_buckets = [mem_key ''10.0.0.1'' ''ExecuteTrade'' \<mapsto> (0, 0)]\<rparr>"
  have id: "extract_client_id (ce_peer (sample_env False)) = ''10.0.0.1''"
    by (simp add: sample_env_def extract_client_id_def str_starts_def split_item_def)
  obtain m' where m: "mem_check ''10.0.0.1'' ''ExecuteTrade'' 0 ?m = (Inr (False, 1, 0), m')"
    by (simp add: mem_check_def PUBLIC_API_def preset_def refill_rate_def max_tokens_def num_eval trunc_int_def Let_def)
  have lim: "limiter_check (ce_hash (sample_env False)) (ce_redis_reachable (sample_env False))
      (ce_limiter_now (sample_env False)) (extract_client_id (ce_peer (sample_env False))) (InMemory ?m)
      = (Inl (RateLimitExceededError 1), InMemory m')"
    unfolding id by (simp add: limiter_check_def sample_env_def m check_outcome_def)
  let ?sv = "\<lparr>sv_limiter = Some (InMemory ?m), sv_orders = sample_om\<rparr>"
  have "ExecuteTrade (sample_env False) sample_trade_request ?sv = forward_trade (sample_env False) sample_trade_request (?sv\<lparr>sv_limiter := Some (InMemory m')\<rparr>)"
    using rate_limit_needs_raising_abort [of ?sv "InMemory ?m" "sample_env False" 1 "InMemory m'" sample_trade_request] lim
    by (simp add: sample_env_def)
  then obtain e sv' where "ExecuteTrade (sample_env False) sample_trade_request ?sv = ([sample_request ''s1''], Inr e, sv')" "te_status e = 2"
    using sample_forward [of False "Some (InMemory m')"] by auto
  moreover have "fst (limiter_check (\<lambda>x. x) False 0 ''10.0.0.1'' (InMemory ?m)) = Inl (RateLimitExceededError 1)"
    by (simp add: limiter_check_def m check_outcome_def)
  ultimately show ?thesis by blast
qed

lemma check_health_unhealthy: "CheckHealth t = UNHEALTHY"
  by (simp add: CheckHealth_def grpc_servicer_attributes_def)

end
