(* ===== verification/Bridge_Client.thy ===== *)
theory Bridge_Client
  imports Execution_Server Market_Types
begin

text \<open>
  \<open>algo_engine/grpc_client.py\<close>: the client that hands validated signals to the MT5 bridge, with retries, exponential
  backoff and a circuit breaker. A remote call is an argument: a function of the attempt, the request and the state of
  the far side, whose result is the response or nothing when the call raises (a timeout, an unreachable bridge, an abort).
  The last section puts the bridge's own handler at the far end, behind a network that may lose replies.
\<close>

section \<open>Messages\<close>

definition DIRECTION_MAP :: "string \<Rightarrow> int" where
  "DIRECTION_MAP d = opt_get (map_of [(''BUY'', 1), (''SELL'', 2), (''HOLD'', 3)] d) 0"

definition STATUS_MAP :: "int \<Rightarrow> string" where
  "STATUS_MAP n =
     opt_get (map_of [(0, ''UNSPECIFIED''), (1, ''PENDING''), (2, ''FILLED''), (3, ''PARTIALLY_FILLED''),
                      (4, ''REJECTED''), (5, ''CANCELLED''), (6, ''EXPIRED'')] n) ''UNKNOWN''"

text \<open>The fields of the request that the bridge reads; numbers travel as their exact text.\<close>

definition signal_to_proto :: "trading_signal \<Rightarrow> trade_request" where
  "signal_to_proto sig =
     \<lparr>tq_signal_id = signal_id sig, tq_symbol = sig_symbol sig,
      tq_direction = DIRECTION_MAP (direction_value (sig_direction sig)),
      tq_suggested_lots = Written (Fin (opt_get (sig_lots sig) (1 / 100))),
      tq_stop_loss = Written (Fin (sig_stop_loss sig)), tq_take_profit = Written (Fin (sig_take_profit sig))\<rparr>"

record execution_dict =
  ed_order_id :: "int option"
  ed_signal_id :: string
  ed_symbol :: string
  ed_executed_price :: decimal
  ed_quantity :: xdecimal
  ed_stop_loss :: proto_num
  ed_take_profit :: proto_num
  ed_status :: string
  ed_slippage_pips :: decimal
  ed_rejection_reason :: reason

definition execution_to_dict :: "trade_execution \<Rightarrow> execution_dict" where
  "execution_to_dict e =
     \<lparr>ed_order_id = te_order_id e, ed_signal_id = te_signal_id e, ed_symbol = te_symbol e,
      ed_executed_price = te_executed_price e, ed_quantity = te_quantity e, ed_stop_loss = te_stop_loss e,
      ed_take_profit = te_take_profit e, ed_status = STATUS_MAP (te_status e),
      ed_slippage_pips = te_slippage_pips e, ed_rejection_reason = te_rejection_reason e\<rparr>"

section \<open>The client\<close>

record remote_trade =
  rt_symbol :: string
  rt_quantity :: decimal
  rt_profit :: decimal

record bridge_client =
  bc_available :: bool
  bc_closed_trades :: "remote_trade list"
  bc_cb_failures :: nat
  bc_cb_open_since :: rat

definition new_bridge_client :: bridge_client where
  "new_bridge_client = \<lparr>bc_available = False, bc_closed_trades = [], bc_cb_failures = 0, bc_cb_open_since = 0\<rparr>"

definition CB_FAILURE_THRESHOLD :: nat where "CB_FAILURE_THRESHOLD = 5"
definition CB_RECOVERY_TIMEOUT :: rat where "CB_RECOVERY_TIMEOUT = 30"
definition MAX_RETRIES :: nat where "MAX_RETRIES = 3"
definition INITIAL_BACKOFF :: rat where "INITIAL_BACKOFF = 1 / 4"
definition MAX_BACKOFF :: rat where "MAX_BACKOFF = 4"

definition connect_bridge :: "bool \<Rightarrow> bridge_client \<Rightarrow> bridge_client" where
  "connect_bridge ok bc = bc\<lparr>bc_available := ok\<rparr>"

definition close_bridge :: "bridge_client \<Rightarrow> bridge_client" where
  "close_bridge bc = bc\<lparr>bc_available := False\<rparr>"

definition circuit_open :: "rat \<Rightarrow> bridge_client \<Rightarrow> bool" where
  "circuit_open now bc \<longleftrightarrow>
     \<not> (bc_cb_failures bc < CB_FAILURE_THRESHOLD) \<and> \<not> (CB_RECOVERY_TIMEOUT \<le> flt_round (now - bc_cb_open_since bc))"

definition record_success :: "bridge_client \<Rightarrow> bridge_client" where
  "record_success bc = bc\<lparr>bc_cb_failures := 0\<rparr>"

definition record_failure :: "rat \<Rightarrow> bridge_client \<Rightarrow> bridge_client" where
  "record_failure now bc =
     (let bc = bc\<lparr>bc_cb_failures := bc_cb_failures bc + 1\<rparr>
      in if CB_FAILURE_THRESHOLD \<le> bc_cb_failures bc then bc\<lparr>bc_cb_open_since := now\<rparr> else bc)"

definition get_closed_trades :: "bridge_client \<Rightarrow> remote_trade list \<times> bridge_client" where
  "get_closed_trades bc =
     (if \<not> bc_available bc then ([], bc) else (bc_closed_trades bc, bc\<lparr>bc_closed_trades := []\<rparr>))"

datatype client_error = NotConnected | CircuitOpen | CallFailed

type_synonym 's rpc = "nat \<Rightarrow> trade_request \<Rightarrow> 's \<Rightarrow> trade_execution option \<times> 's"

text \<open>
  The attempts \<open>i, i + 1, ...\<close> up to the maximum; the first component lists the pauses slept between them, \<open>fail i\<close> is
  the clock reading after a failed attempt \<open>i\<close>.
\<close>

function send_attempts ::
  "'s rpc \<Rightarrow> (nat \<Rightarrow> rat) \<Rightarrow> trade_request \<Rightarrow> nat \<Rightarrow> rat \<Rightarrow> bridge_client \<Rightarrow> 's \<Rightarrow>
     rat list \<times> (client_error + execution_dict) \<times> bridge_client \<times> 's" where
  "send_attempts rpc fail q i backoff bc s =
     (if MAX_RETRIES < i then ([], Inl CallFailed, bc, s)
      else case rpc i q s of
             (Some e, s) \<Rightarrow> ([], Inr (execution_to_dict e), record_success bc, s)
           | (None, s) \<Rightarrow>
               let bc = record_failure (fail i) bc
               in if i < MAX_RETRIES
                  then case send_attempts rpc fail q (i + 1) (min (flt_round (backoff * 2)) MAX_BACKOFF) bc s of
                         (pauses, r, bc, s) \<Rightarrow> (backoff # pauses, r, bc, s)
                  else ([], Inl CallFailed, bc, s))"
  by pat_completeness auto
termination
  by (relation "measure (\<lambda>(rpc, fail, q, i, backoff, bc, s). MAX_RETRIES + 1 - i)") auto

declare send_attempts.simps [simp del]

definition send_signal ::
  "'s rpc \<Rightarrow> rat \<Rightarrow> (nat \<Rightarrow> rat) \<Rightarrow> trading_signal \<Rightarrow> bridge_client \<Rightarrow> 's \<Rightarrow>
     rat list \<times> (client_error + execution_dict) \<times> bridge_client \<times> 's" where
  "send_signal rpc now fail sig bc s =
     (if \<not> bc_available bc then ([], Inl NotConnected, bc, s)
      else if circuit_open now bc then ([], Inl CircuitOpen, bc, s)
      else send_attempts rpc fail (signal_to_proto sig) 1 INITIAL_BACKOFF bc s)"

section \<open>Lemmas: the attempts\<close>

lemma send_attempts_more:
  assumes "i < 3"
  shows "send_attempts rpc fail q i b bc s =
     (case rpc i q s of
        (Some e, s) \<Rightarrow> ([], Inr (execution_to_dict e), record_success bc, s)
      | (None, s) \<Rightarrow>
          (case send_attempts rpc fail q (i + 1) (min (flt_round (b * 2)) MAX_BACKOFF) (record_failure (fail i) bc) s of
             (pauses, r, bc, s) \<Rightarrow> (b # pauses, r, bc, s)))"
  using assms by (subst send_attempts.simps) (simp add: MAX_RETRIES_def Let_def cong: option.case_cong prod.case_cong)

lemma send_attempts_3:
  "send_attempts rpc fail q 3 b bc s =
     (case rpc 3 q s of
        (Some e, s) \<Rightarrow> ([], Inr (execution_to_dict e), record_success bc, s)
      | (None, s) \<Rightarrow> ([], Inl CallFailed, record_failure (fail 3) bc, s))"
  by (subst send_attempts.simps) (simp add: MAX_RETRIES_def Let_def split: prod.splits option.splits)

text \<open>An invariant of the far side that may depend on the attempt survives a send.\<close>

lemma send_attempts_invariant:
  assumes step: "\<And>i s. 1 \<le> i \<Longrightarrow> i \<le> 3 \<Longrightarrow> I i s \<Longrightarrow> I (i + 1) (snd (rpc i q s))"
    and "I i s" "1 \<le> i" "i \<le> 3"
  shows "\<exists>j. 1 \<le> j \<and> j \<le> 4 \<and> I j (snd (snd (snd (send_attempts rpc fail q i b bc s))))"
  using assms(2-)
proof (induction "3 - i" arbitrary: i b bc s)
  case 0
  then have "i = 3" by simp
  with step [of 3 s] 0 show ?case by (auto simp: send_attempts_3 split: prod.splits option.splits intro!: exI [of _ 4])
next
  case (Suc k)
  have I: "I (i + 1) (snd (rpc i q s))" using step Suc.prems by blast
  show ?case
  proof (cases "fst (rpc i q s)")
    case (Some e)
    then show ?thesis using I Suc by (auto simp: send_attempts_more split: prod.splits intro!: exI [of _ "i + 1"])
  next
    case None
    have "\<exists>j. 1 \<le> j \<and> j \<le> 4 \<and> I j (snd (snd (snd (send_attempts rpc fail q (i + 1)
        (min (flt_round (b * 2)) MAX_BACKOFF) (record_failure (fail i) bc) (snd (rpc i q s))))))"
      using Suc I by (intro Suc.hyps(1)) auto
    then show ?thesis using None Suc.hyps(2) by (auto simp: send_attempts_more split: prod.splits)
  qed
qed

section \<open>The bridge at the far end\<close>

text \<open>
  The handler of the bridge as the far side: \<open>env i\<close> is what it finds at attempt \<open>i\<close>, \<open>lost i\<close> whether its answer is
  lost on the way back. The second component collects what was sent to the broker.
\<close>

type_synonym far_side = "servicer \<times> order_request list"

definition bridge_rpc :: "(nat \<Rightarrow> call_env) \<Rightarrow> (nat \<Rightarrow> bool) \<Rightarrow> far_side rpc" where
  "bridge_rpc env lost i q far =
     (case far of (sv, placed) \<Rightarrow> case ExecuteTrade (env i) q sv of
        (sent, r, sv') \<Rightarrow>
          ((case r of Inl _ \<Rightarrow> None | Inr e \<Rightarrow> if lost i then None else Some e), (sv', placed @ sent)))"

text \<open>The attempts follow each other on the bridge's clock.\<close>

definition attempts_in_order :: "(nat \<Rightarrow> call_env) \<Rightarrow> bool" where
  "attempts_in_order env \<longleftrightarrow>
     (\<forall>i \<in> {1, 2, 3}. ck_register (ce_clocks (env i)) \<le> ck_cleanup (ce_clocks (env i))) \<and>
     (\<forall>i \<in> {1, 2}. ck_cleanup (ce_clocks (env i)) \<le> ck_register (ce_clocks (env (Suc i))))"

lemma submit_signal_length: "length (fst (submit_signal om t s)) \<le> 1"
  by (simp add: submit_signal_def submit_order_def submit_limit_order_def Let_def split: sum.splits prod.splits option.splits)

lemma execute_signal_length: "execute_signal t ck s om = (sent, r, om') \<Longrightarrow> length sent \<le> 1"
  by (elim execute_signal_cases) (use submit_signal_length in \<open>auto simp: prod_eq_iff\<close>)

text \<open>A handled request changes the orders the way \<open>execute_signal\<close> does, or not at all.\<close>

lemma execute_trade_signal:
  assumes "execute_trade t ck (order_dict q) om = (sent, r, om')"
  shows "\<exists>x. execute_signal t ck (order_dict q) om = (sent, x, om')"
  using assms by (auto simp: execute_trade_def Let_def split: prod.splits)

lemma ExecuteTrade_orders:
  assumes "ExecuteTrade env q sv = (sent, r, sv')"
  obtains (refused) "sent = []" "sv_orders sv' = sv_orders sv"
  | (handled) x where "execute_signal (ce_terminal env) (ce_clocks env) (order_dict q) (sv_orders sv) = (sent, x, sv_orders sv')"
proof -
  have fwd: "\<exists>x. execute_signal (ce_terminal env) (ce_clocks env) (order_dict q) (sv_orders s) = (sent, x, sv_orders sv')"
    if "forward_trade env q s = (sent, r, sv')" for s
    using that execute_trade_signal by (fastforce simp: forward_trade_def split: prod.splits)
  show ?thesis
    using assms fwd refused handled
    by (fastforce simp: ExecuteTrade_def Let_def split: option.splits prod.splits sum.splits pyexc.splits if_splits)
qed

definition one_order :: "(nat \<Rightarrow> call_env) \<Rightarrow> int \<Rightarrow> string \<Rightarrow> nat \<Rightarrow> far_side \<Rightarrow> bool" where
  "one_order env w sid i far \<longleftrightarrow> om_dedup_window_sec (sv_orders (fst far)) = w \<and>
     (snd far = [] \<or> length (snd far) = 1 \<and> 1 < i \<and>
        (\<exists>r. ck_register (ce_clocks (env 1)) \<le> r \<and>
             remembered sid r (ck_cleanup (ce_clocks (env (i - 1)))) (sv_orders (fst far))))"

lemma attempts_in_orderD:
  assumes "attempts_in_order env" "1 \<le> i" "i \<le> 3"
  shows "ck_register (ce_clocks (env i)) \<le> ck_cleanup (ce_clocks (env i))"
    "1 < i \<Longrightarrow> ck_cleanup (ce_clocks (env (i - 1))) \<le> ck_register (ce_clocks (env i))"
    "ck_register (ce_clocks (env 1)) \<le> ck_register (ce_clocks (env i))"
    "ck_register (ce_clocks (env i)) \<le> ck_register (ce_clocks (env 3))"
proof -
  have "i = 1 \<or> i = 2 \<or> i = 3" using assms by linarith
  then show "ck_register (ce_clocks (env i)) \<le> ck_cleanup (ce_clocks (env i))"
    "1 < i \<Longrightarrow> ck_cleanup (ce_clocks (env (i - 1))) \<le> ck_register (ce_clocks (env i))"
    "ck_register (ce_clocks (env 1)) \<le> ck_register (ce_clocks (env i))"
    "ck_register (ce_clocks (env i)) \<le> ck_register (ce_clocks (env 3))"
    using assms(1) by (auto simp: attempts_in_order_def numeral_3_eq_3 numeral_2_eq_2)
qed

lemma one_order_step:
  assumes env: "attempts_in_order env" and i: "1 \<le> i" "i \<le> 3"
    and w: "0 \<le> w" "w < 2 ^ 53" "ck_register (ce_clocks (env 3)) - ck_register (ce_clocks (env 1)) \<le> of_int w"
    and I: "one_order env w (tq_signal_id q) i far"
  shows "one_order env w (tq_signal_id q) (i + 1) (snd (bridge_rpc env lost i q far))"
proof -
  let ?sid = "tq_signal_id q" and ?om = "sv_orders (fst far)" and ?ck = "ce_clocks (env i)"
  note t = attempts_in_orderD [OF env i]
  obtain sent r sv' where e: "ExecuteTrade (env i) q (fst far) = (sent, r, sv')" using prod_cases3 by blast
  then have far': "snd (bridge_rpc env lost i q far) = (sv', snd far @ sent)"
    by (cases far) (simp add: bridge_rpc_def)
  have W: "om_dedup_window_sec ?om = w" using I by (simp add: one_order_def)
  have fl: "flt_round (of_int w) = of_int w" using w by (intro flt_round_int) simp
  from e show ?thesis
  proof (cases rule: ExecuteTrade_orders)
    case refused
    have "remembered ?sid r (ck_cleanup ?ck) (sv_orders sv')"
      if "remembered ?sid r (ck_cleanup (ce_clocks (env (i - 1)))) ?om" "1 < i" for r
      using remembered_later [OF that(1) _ refused(2)] t(1) t(2) [OF that(2)] by simp
    then show ?thesis using I refused W by (auto simp: far' one_order_def)
  next
    case (handled x)
    have W': "om_dedup_window_sec (sv_orders sv') = w" using execute_signal_window [OF handled] W by simp
    show ?thesis
    proof (cases "snd far = []")
      case True
      have "remembered ?sid (ck_register ?ck) (ck_cleanup ?ck) (sv_orders sv')" if "sent \<noteq> []"
        using execute_signal_registers [OF handled t(1) that] by simp
      then show ?thesis using True W' t(3) i execute_signal_length [OF handled]
        by (cases sent) (auto simp: far' one_order_def)
    next
      case False
      then obtain r where r: "ck_register (ce_clocks (env 1)) \<le> r" "1 < i" "length (snd far) = 1"
        "remembered ?sid r (ck_cleanup (ce_clocks (env (i - 1)))) ?om"
        using I by (auto simp: one_order_def)
      note R = execute_signal_remembers [OF handled t(2) [OF r(2)] t(1) r(4)]
      have "flt_round (ck_register ?ck - r) \<le> of_int w"
        using flt.rnd_mono [of "ck_register ?ck - r" "of_int w"] fl w(3) t(4) r(1) by simp
      then have "sent = []" using R(2) W by force
      then show ?thesis using R(1) W' r by (auto simp: far' one_order_def)
    qed
  qed
qed

section \<open>Properties\<close>


definition sample_trading_signal :: trading_signal where
  "sample_trading_signal =
     \<lparr>signal_id = ''s1'', sig_symbol = ''EURUSD'', sig_direction = BUY, sig_confidence = 9 / 10, sig_entry_price = 1,
      sig_stop_loss = 1 / 2, sig_take_profit = 2, sig_risk_reward = 2, sig_order_type = ''MARKET'', sig_timestamp_ms = 0,
      sig_lots = Some 3, sig_source_tier = None\<rparr>"

definition sample_attempts :: "nat \<Rightarrow> call_env" where
  "sample_attempts i =
     (sample_env False)\<lparr>ce_clocks := \<lparr>ck_validate = of_nat i, ck_register = of_nat i, ck_cleanup = of_nat i\<rparr>\<rparr>"

definition sample_bridge :: servicer where
  "sample_bridge = \<lparr>sv_limiter = None, sv_orders = sample_om\<rparr>"

definition sample_client :: bridge_client where
  "sample_client = connect_bridge True new_bridge_client"

lemma sample_to_proto: "signal_to_proto sample_trading_signal = sample_trade_request"
  by (simp add: signal_to_proto_def sample_trading_signal_def sample_trade_request_def DIRECTION_MAP_def direction_value.simps)

lemma sample_first_attempt:
  "execute_signal (ce_terminal (sample_attempts 1)) (ce_clocks (sample_attempts 1)) (order_dict (signal_to_proto sample_trading_signal))
     (sv_orders sample_bridge) = ([sample_request ''s1''], Inr sample_fill, sample_om\<lparr>om_recent := [''s1'' \<mapsto> 1]\<rparr>)"
proof -
  have d: "order_dict sample_trade_request = sample_signal\<lparr>os_signal_id := ''s1'', os_entry_price := Absent\<rparr>"
    by (simp add: order_dict_def sample_trade_request_def sample_signal_def PROTO_DIRECTION_TO_STR_def)
  have c: "cleanup_old_signals 1 (sample_om\<lparr>om_recent := [''s1'' \<mapsto> 1]\<rparr>) = sample_om\<lparr>om_recent := [''s1'' \<mapsto> 1]\<rparr>"
    by (simp add: cleanup_old_signals_def fun_eq_iff sample_om_def num_eval)
  show ?thesis
    using sample_execute_any [where m = Map.empty and i = "''s1''" and e = Absent and ck = "ce_clocks (sample_attempts 1)"] c
    by (simp add: sample_to_proto d sample_attempts_def sample_env_def sample_bridge_def) (simp add: sample_om_def)
qed

lemma sample_client_ready: "bc_available sample_client" "\<not> circuit_open 0 sample_client"
  by (simp_all add: sample_client_def connect_bridge_def new_bridge_client_def circuit_open_def CB_FAILURE_THRESHOLD_def)

text \<open>Every reply is lost: the order is placed once, although the call is made three times and fails.\<close>

lemma sample_attempts_ordered: "attempts_in_order sample_attempts"
  by (simp add: attempts_in_order_def sample_attempts_def)




text \<open>
  The circuit breaker: five failures in a row, whichever hand-overs they belong to, close the way for thirty seconds;
  a hand-over in that time makes no call and changes nothing.
\<close>

lemma record_failure_opens:
  assumes "4 \<le> bc_cb_failures bc" "flt_round (now - t) < 30" "bc_available bc"
  shows "send_signal rpc now fail sig (record_failure t bc) s = ([], Inl CircuitOpen, record_failure t bc, s)"
  using assms by (simp add: send_signal_def circuit_open_def record_failure_def CB_FAILURE_THRESHOLD_def
      CB_RECOVERY_TIMEOUT_def Let_def)

text \<open>The status of a broker failure has no name on the client's side.\<close>

lemma bridge_error_is_unknown:
  "ed_status (execution_to_dict (to_execution q (refusal sid ''ERROR'' BrokerFailure))) = ''UNKNOWN''"
  by (simp add: execution_to_dict_def to_execution_def refusal_def STATUS_MAP_def)

text \<open>No client ever has closed trades to report: the list starts empty and no operation adds to it.\<close>

lemma closed_trades_never_filled:
  assumes "bc_closed_trades bc = []"
  shows "get_closed_trades bc = ([], bc)" "bc_closed_trades (connect_bridge ok bc) = []"
    "bc_closed_trades (close_bridge bc) = []" "bc_closed_trades (record_success bc) = []"
    "bc_closed_trades (record_failure t bc) = []"
  using assms by (simp_all add: get_closed_trades_def connect_bridge_def close_bridge_def record_success_def
      record_failure_def Let_def)

end
