(* ===== verification/Alerting.thy ===== *)
theory Alerting
  imports Decimals
begin

text \<open>
  \<open>algo_engine/alerting/dispatcher.py\<close>, which limits the rate of equal alerts, and the health checks of
  \<open>moneymaker_common/health.py\<close>. Channels are outside the program: their exceptions are gathered and logged, so
  that a send is what is handed to every channel.
\<close>

section \<open>Alert dispatcher\<close>

datatype alert_level = Info | Warning | Critical

fun level_value :: "alert_level \<Rightarrow> string" where
  "level_value Info = ''info''"
| "level_value Warning = ''warning''"
| "level_value Critical = ''critical''"

text \<open>The UTF-8 bytes of the three symbols.\<close>

fun level_emoji :: "alert_level \<Rightarrow> string" where
  "level_emoji Info = [CHR 0xE2, CHR 0x84, CHR 0xB9, CHR 0xEF, CHR 0xB8, CHR 0x8F]"
| "level_emoji Warning = [CHR 0xE2, CHR 0x9A, CHR 0xA0, CHR 0xEF, CHR 0xB8, CHR 0x8F]"
| "level_emoji Critical = [CHR 0xF0, CHR 0x9F, CHR 0x9A, CHR 0xA8]"

record dispatcher =
  ad_channels :: nat
  ad_min_interval :: rat
  ad_critical_min_interval :: rat
  ad_last_sent :: "string \<Rightarrow> rat option"

definition new_dispatcher :: "rat \<Rightarrow> rat \<Rightarrow> dispatcher" where
  "new_dispatcher min_interval critical =
     \<lparr>ad_channels = 0, ad_min_interval = min_interval, ad_critical_min_interval = critical, ad_last_sent = (\<lambda>k. None)\<rparr>"

definition add_channel :: "dispatcher \<Rightarrow> dispatcher" where
  "add_channel d = d\<lparr>ad_channels := ad_channels d + 1\<rparr>"

record alert =
  al_level :: alert_level
  al_title :: string
  al_body :: string
  al_context :: string
  al_now :: rat

definition alert_key :: "alert \<Rightarrow> string" where
  "alert_key a =
     level_value (al_level a) @ '':'' @ al_title a @ (if al_context a = [] then [] else '':'' @ al_context a)"

definition alert_interval :: "dispatcher \<Rightarrow> alert_level \<Rightarrow> rat" where
  "alert_interval d l = (if l = Critical then ad_critical_min_interval d else ad_min_interval d)"

definition formatted_title :: "alert \<Rightarrow> string" where
  "formatted_title a = level_emoji (al_level a) @ '' ['' @ str_upper (level_value (al_level a)) @ ''] '' @ al_title a"

text \<open>The result is what every channel is given, if anything.\<close>

definition alert_send :: "alert \<Rightarrow> dispatcher \<Rightarrow> (string \<times> string) option \<times> dispatcher" where
  "alert_send a d =
     (if ad_channels d = 0 then (None, d)
      else let key = alert_key a; now = al_now a; last_time = opt_get (ad_last_sent d key) 0
           in if flt_round (now - last_time) < alert_interval d (al_level a) then (None, d)
              else let sent = (ad_last_sent d)(key \<mapsto> now); cutoff = flt_round (now - 3600)
                   in (Some (formatted_title a, al_body a),
                       d\<lparr>ad_last_sent := (\<lambda>k. case sent k of None \<Rightarrow> None | Some v \<Rightarrow> if cutoff < v then Some v else None)\<rparr>))"

fun send_all :: "alert list \<Rightarrow> dispatcher \<Rightarrow> alert list \<times> dispatcher" where
  "send_all [] d = ([], d)"
| "send_all (a # as) d =
     (let (out, d) = alert_send a d; (delivered, d) = send_all as d
      in (case out of None \<Rightarrow> delivered | Some m \<Rightarrow> a # delivered, d))"

section \<open>Lemmas\<close>

lemma flt_round_error: "\<bar>flt_round x - x\<bar> * 2 ^ 53 \<le> \<bar>x\<bar>"
  using round_sig_error [of 2 53 x] unfolding flt_round_def by simp

lemma cutoff_bound:
  assumes "0 \<le> now" "now < 2 ^ 53" "t \<le> flt_round (now - 3600)"
  shows "t \<le> now - 3599"
proof -
  have "\<bar>now - 3600\<bar> \<le> 2 ^ 53" using assms(1,2) by (simp add: abs_le_iff)
  then have "\<bar>flt_round (now - 3600) - (now - 3600)\<bar> \<le> 1"
    using flt_round_error [of "now - 3600"] by simp
  then show ?thesis using assms(3) by linarith
qed

text \<open>What the dispatcher still knows of an alert delivered in the past.\<close>

definition recalled :: "dispatcher \<Rightarrow> rat \<Rightarrow> alert \<Rightarrow> bool" where
  "recalled d now a \<longleftrightarrow>
     al_now a \<le> now - 3599 \<or> (\<exists>t. ad_last_sent d (alert_key a) = Some t \<and> al_now a \<le> t)"

lemma alert_send_intervals [simp]:
  "alert_interval (snd (alert_send a d)) = alert_interval d"
  by (auto simp: alert_send_def alert_interval_def Let_def)

lemma alert_send_remembered:
  assumes "recalled d now b" "now \<le> al_now a" "0 \<le> al_now a" "al_now a < 2 ^ 53" "al_now b \<le> now"
  shows "recalled (snd (alert_send a d)) (al_now a) b"
proof (cases "fst (alert_send a d)")
  case None
  then have "snd (alert_send a d) = d" by (auto simp: alert_send_def Let_def split: if_splits)
  then show ?thesis using assms(1,2) by (auto simp: recalled_def)
next
  case (Some m)
  then have d': "ad_last_sent (snd (alert_send a d)) k =
      (case ((ad_last_sent d)(alert_key a \<mapsto> al_now a)) k of
         None \<Rightarrow> None | Some v \<Rightarrow> if flt_round (al_now a - 3600) < v then Some v else None)" for k
    by (auto simp: alert_send_def Let_def split: if_splits)
  show ?thesis
  proof (cases "al_now b \<le> al_now a - 3599")
    case False
    then obtain t where t: "ad_last_sent d (alert_key b) = Some t" "al_now b \<le> t"
      using assms(1,2) by (auto simp: recalled_def)
    let ?v = "if alert_key b = alert_key a then al_now a else t"
    have v: "al_now b \<le> ?v" using t(2) assms(2,5) by auto
    have "\<not> ?v \<le> flt_round (al_now a - 3600)" using cutoff_bound [OF assms(3,4)] v False by fastforce
    then have "ad_last_sent (snd (alert_send a d)) (alert_key b) = Some ?v"
      using t(1) by (cases "alert_key b = alert_key a") (simp_all add: d' not_le)
    then show ?thesis using v unfolding recalled_def by blast
  qed (simp add: recalled_def)
qed

lemma alert_send_delivers:
  assumes "fst (alert_send a d) = Some m" "0 \<le> al_now a" "al_now a < 2 ^ 53"
  shows "recalled (snd (alert_send a d)) (al_now a) a"
proof -
  have "\<not> al_now a \<le> flt_round (al_now a - 3600)" using cutoff_bound [OF assms(2,3), of "al_now a"] by auto
  then have "ad_last_sent (snd (alert_send a d)) (alert_key a) = Some (al_now a)"
    using assms(1) by (auto simp: alert_send_def Let_def split: if_splits)
  then show ?thesis by (simp add: recalled_def)
qed

definition sane_intervals :: "dispatcher \<Rightarrow> bool" where
  "sane_intervals d \<longleftrightarrow>
     (\<forall>l. alert_interval d l \<le> 3599 \<and> flt_round (alert_interval d l) = alert_interval d l)"

lemma spaced_from_past:
  assumes "recalled d now b" "fst (alert_send a d) = Some m" "now \<le> al_now a" "sane_intervals d" "alert_key b = alert_key a"
  shows "alert_interval d (al_level a) \<le> flt_round (al_now a - al_now b)"
proof (cases "al_now b \<le> now - 3599")
  case True
  have i: "alert_interval d (al_level a) \<le> 3599" "flt_round (alert_interval d (al_level a)) = alert_interval d (al_level a)"
    using assms(4) unfolding sane_intervals_def by blast+
  have "alert_interval d (al_level a) \<le> al_now a - al_now b" using i(1) True assms(3) by linarith
  then show ?thesis using i(2) by (intro flt.rnd_ge)
next
  case False
  then obtain t where t: "ad_last_sent d (alert_key a) = Some t" "al_now b \<le> t"
    using assms(1,5) by (auto simp: recalled_def)
  then have "alert_interval d (al_level a) \<le> flt_round (al_now a - t)"
    using assms(2) by (auto simp: alert_send_def Let_def split: if_splits)
  also have "\<dots> \<le> flt_round (al_now a - al_now b)" using t(2) by (intro flt.rnd_mono) simp
  finally show ?thesis .
qed

fun spaced :: "dispatcher \<Rightarrow> alert list \<Rightarrow> bool" where
  "spaced d [] = True"
| "spaced d (b # as) =
     ((\<forall>a\<in>set as. alert_key a = alert_key b \<longrightarrow> alert_interval d (al_level a) \<le> flt_round (al_now a - al_now b)) \<and> spaced d as)"

lemma spaced_cong: "alert_interval d = alert_interval d' \<Longrightarrow> spaced d as = spaced d' as"
  by (induction as) simp_all

lemma send_all_spaced:
  assumes "sorted (map al_now as)" "\<forall>a\<in>set as. 0 \<le> al_now a \<and> al_now a < 2 ^ 53" "sane_intervals d"
    and "\<forall>b\<in>P. recalled d now b \<and> al_now b \<le> now" "\<forall>a\<in>set as. now \<le> al_now a"
  shows "spaced d (fst (send_all as d)) \<and>
    (\<forall>b\<in>P. \<forall>a\<in>set (fst (send_all as d)). alert_key a = alert_key b \<longrightarrow>
       alert_interval d (al_level a) \<le> flt_round (al_now a - al_now b))"
  using assms
proof (induction as arbitrary: d P now)
  case (Cons a as)
  let ?d = "snd (alert_send a d)"
  let ?P = "if fst (alert_send a d) = None then P else insert a P"
  have a: "now \<le> al_now a" "0 \<le> al_now a" "al_now a < 2 ^ 53" using Cons.prems by auto
  have P: "\<forall>b\<in>?P. recalled ?d (al_now a) b \<and> al_now b \<le> al_now a"
  proof
    fix b
    assume "b \<in> ?P"
    then consider "b \<in> P" | "b = a" "fst (alert_send a d) \<noteq> None" by (auto split: if_splits)
    then show "recalled ?d (al_now a) b \<and> al_now b \<le> al_now a"
    proof cases
      case 1
      then have "recalled d now b" "al_now b \<le> now" using Cons.prems(4) by auto
      then show ?thesis using alert_send_remembered [OF _ a] a(1) by auto
    next
      case 2
      then show ?thesis using alert_send_delivers [OF _ a(2,3)] by auto
    qed
  qed
  have sane: "sane_intervals ?d" using Cons.prems(3) by (simp add: sane_intervals_def)
  have IH: "spaced ?d (fst (send_all as ?d)) \<and>
      (\<forall>b\<in>?P. \<forall>c\<in>set (fst (send_all as ?d)). alert_key c = alert_key b \<longrightarrow>
         alert_interval ?d (al_level c) \<le> flt_round (al_now c - al_now b))"
    by (rule Cons.IH [OF _ _ sane P]) (use Cons.prems(1,2) in auto)
  have sp: "spaced d (fst (send_all as ?d))" using IH spaced_cong [OF alert_send_intervals, of a d] by blast
  have out: "fst (send_all (a # as) d) =
      (if fst (alert_send a d) = None then fst (send_all as ?d) else a # fst (send_all as ?d))"
    by (auto split: prod.splits option.splits)
  have new: "alert_interval d (al_level a) \<le> flt_round (al_now a - al_now b)"
    if "fst (alert_send a d) \<noteq> None" "b \<in> P" "alert_key a = alert_key b" for b
    using spaced_from_past [of d now b a] that a(1) Cons.prems(3,4) by auto
  show ?case
  proof (cases "fst (alert_send a d) = None")
    case True
    then show ?thesis using IH sp unfolding out by (simp del: send_all.simps)
  next
    case False
    have "\<forall>c\<in>set (fst (send_all as ?d)). alert_key c = alert_key a \<longrightarrow>
        alert_interval d (al_level c) \<le> flt_round (al_now c - al_now a)"
      using IH False by simp
    then show ?thesis using False IH sp new unfolding out by (simp del: send_all.simps)
  qed
qed simp

lemma spaced_nth:
  "spaced d as \<Longrightarrow> i < j \<Longrightarrow> j < length as \<Longrightarrow> alert_key (as ! j) = alert_key (as ! i) \<Longrightarrow>
   alert_interval d (al_level (as ! j)) \<le> flt_round (al_now (as ! j) - al_now (as ! i))"
proof (induction as arbitrary: i j)
  case (Cons a as)
  then show ?case by (cases i; cases j) auto
qed simp

section \<open>Health checks\<close>

datatype health_status = Healthy | Degraded | Unhealthy

record health_result =
  hr_status :: health_status
  hr_message :: string
  hr_details :: "(string \<times> string) list"
  hr_uptime :: rat

text \<open>A check is what calling it gives: nothing, or the text of the exception it raises.\<close>

record health_checker =
  hc_service_name :: string
  hc_start_time :: rat
  hc_ready :: bool
  hc_checks :: "(string \<times> string option) list"

definition set_ready :: "bool \<Rightarrow> health_checker \<Rightarrow> health_checker" where
  "set_ready ready h = h\<lparr>hc_ready := ready\<rparr>"

definition register_check :: "string \<Rightarrow> string option \<Rightarrow> health_checker \<Rightarrow> health_checker" where
  "register_check name check h = h\<lparr>hc_checks := dict_set name check (hc_checks h)\<rparr>"

definition uptime :: "rat \<Rightarrow> health_checker \<Rightarrow> rat" where
  "uptime now h = flt_round (now - hc_start_time h)"

definition liveness :: "rat \<Rightarrow> health_checker \<Rightarrow> health_result" where
  "liveness now h = \<lparr>hr_status = Healthy, hr_message = ''vivo'', hr_details = [], hr_uptime = uptime now h\<rparr>"

definition readiness :: "rat \<Rightarrow> health_checker \<Rightarrow> health_result" where
  "readiness now h =
     (if hc_ready h then \<lparr>hr_status = Healthy, hr_message = ''pronto'', hr_details = [], hr_uptime = uptime now h\<rparr>
      else \<lparr>hr_status = Unhealthy, hr_message = ''non pronto'', hr_details = [], hr_uptime = uptime now h\<rparr>)"

definition health_step :: "(string \<times> string) list \<times> health_status \<Rightarrow> string \<times> string option \<Rightarrow> (string \<times> string) list \<times> health_status" where
  "health_step st chk =
     (let (details, overall) = st; (name, outcome) = chk
      in case outcome of
           None \<Rightarrow> (dict_set name ''ok'' details, overall)
         | Some e \<Rightarrow> (dict_set name (''errore: '' @ e) details, Unhealthy))"

definition deep_check :: "rat \<Rightarrow> health_checker \<Rightarrow> health_result" where
  "deep_check now h =
     (let (details, overall) = foldl health_step ([], Healthy) (hc_checks h)
      in \<lparr>hr_status = overall,
          hr_message = (if overall = Healthy then ''tutti i controlli superati'' else ''alcuni controlli falliti''),
          hr_details = details, hr_uptime = uptime now h\<rparr>)"

lemma health_fold:
  "foldl health_step (d, st) cs = (d', st') \<Longrightarrow>
   (st' = Healthy \<longleftrightarrow> st = Healthy \<and> (\<forall>c\<in>set cs. snd c = None)) \<and> fst ` set d' = fst ` set d \<union> fst ` set cs"
proof (induction cs arbitrary: d st)
  case (Cons c cs)
  obtain d1 st1 where 1: "health_step (d, st) c = (d1, st1)" by fastforce
  obtain v where "d1 = dict_set (fst c) v d" and st1: "st1 = Healthy \<longleftrightarrow> st = Healthy \<and> snd c = None"
    using 1 by (cases c; cases "snd c") (auto simp: health_step_def)
  then have "fst ` set d1 = insert (fst c) (fst ` set d)" by simp
  then show ?case using Cons.IH [of d1 st1] Cons.prems 1 st1 by auto
qed simp

text \<open>The deep check is healthy exactly when no dependency raises, and it reports on every dependency.\<close>

lemma deep_check_spec:
  "hr_status (deep_check now h) = Healthy \<longleftrightarrow> (\<forall>c\<in>set (hc_checks h). snd c = None)"
  "fst ` set (hr_details (deep_check now h)) = fst ` set (hc_checks h)"
  using health_fold [of "[]" Healthy "hc_checks h"] by (auto simp: deep_check_def split: prod.splits)

section \<open>Properties\<close>

text \<open>
  Rate limit of alerts: in any history of sends with readings of the monotonic clock in order, two delivered alerts
  with the same level, title and context are at least the interval of their level apart, although the memory of old
  alerts is pruned.
\<close>

theorem alerts_spaced:
  assumes "sorted (map al_now as)" "\<forall>a\<in>set as. 0 \<le> al_now a \<and> al_now a < 2 ^ 53" "sane_intervals d"
    and "i < j" "j < length (fst (send_all as d))"
    and "alert_key (fst (send_all as d) ! j) = alert_key (fst (send_all as d) ! i)"
  shows "alert_interval d (al_level (fst (send_all as d) ! j))
    \<le> flt_round (al_now (fst (send_all as d) ! j) - al_now (fst (send_all as d) ! i))"
proof -
  have "spaced d (fst (send_all as d))"
    using send_all_spaced [OF assms(1-3), of "{}" 0] assms(2) by simp
  then show ?thesis using assms(4-6) by (rule spaced_nth)
qed

definition sample_alert :: "rat \<Rightarrow> alert" where
  "sample_alert t = \<lparr>al_level = Warning, al_title = ''Drawdown'', al_body = [], al_context = [], al_now = t\<rparr>"

theorem alerts_spaced_witness:
  "let d = add_channel (new_dispatcher 30 5); out = fst (send_all [sample_alert 100, sample_alert 110, sample_alert 140] d)
   in map al_now out = [100, 140] \<and> alert_interval d Warning \<le> flt_round (al_now (out ! 1) - al_now (out ! 0))"
proof -
  define d where "d = add_channel (new_dispatcher 30 5)"
  have out: "fst (send_all [sample_alert 100, sample_alert 110, sample_alert 140] d) = [sample_alert 100, sample_alert 140]"
    by (simp add: d_def alert_send_def add_channel_def new_dispatcher_def alert_interval_def sample_alert_def alert_key_def
        num_eval Let_def flt.rnd_minus)
  have "sane_intervals d"
    by (simp add: sane_intervals_def alert_interval_def d_def add_channel_def new_dispatcher_def num_eval)
  then have "alert_interval d (al_level (fst (send_all [sample_alert 100, sample_alert 110, sample_alert 140] d) ! 1)) \<le>
      flt_round (al_now (fst (send_all [sample_alert 100, sample_alert 110, sample_alert 140] d) ! 1) -
        al_now (fst (send_all [sample_alert 100, sample_alert 110, sample_alert 140] d) ! 0))"
    by (intro alerts_spaced) (simp_all add: out del: send_all.simps, simp_all add: sample_alert_def alert_key_def)
  then have "alert_interval d Warning \<le> flt_round (140 - 100)" unfolding out by (simp add: sample_alert_def)
  then show ?thesis unfolding Let_def d_def [symmetric] out by (simp add: sample_alert_def)
qed

end
