(* ===== verification/Audit_Trail.thy ===== *)
theory Audit_Trail
  imports Prelude "HOL-Library.Word" "HOL-Library.Multiset"
begin

unbundle bit_operations_syntax

text \<open>
  \<open>moneymaker_common/audit.py\<close> and \<open>audit_pg.py\<close>: the hash-chained audit trail and its buffered
  PostgreSQL backend. Texts are their UTF-8 bytes; the details of an entry are their JSON text and its timestamp the
  ISO text. SHA-256 is the function of the standard \<open>hashlib\<close>. The outcome of every database write is an
  argument.
\<close>

section \<open>SHA-256\<close>

text \<open>The round constants and the initial state, as numbers.\<close>

definition SHA_K :: "32 word list" where
  "SHA_K =
     [1116352408, 1899447441, 3049323471, 3921009573, 961987163, 1508970993, 2453635748, 2870763221,
      3624381080, 310598401, 607225278, 1426881987, 1925078388, 2162078206, 2614888103, 3248222580,
      3835390401, 4022224774, 264347078, 604807628, 770255983, 1249150122, 1555081692, 1996064986,
      2554220882, 2821834349, 2952996808, 3210313671, 3336571891, 3584528711, 113926993, 338241895,
      666307205, 773529912, 1294757372, 1396182291, 1695183700, 1986661051, 2177026350, 2456956037,
      2730485921, 2820302411, 3259730800, 3345764771, 3516065817, 3600352804, 4094571909, 275423344,
      430227734, 506948616, 659060556, 883997877, 958139571, 1322822218, 1537002063, 1747873779,
      1955562222, 2024104815, 2227730452, 2361852424, 2428436474, 2756734187, 3204031479, 3329325298]"

definition SHA_H :: "32 word list" where
  "SHA_H =
     [1779033703, 3144134277, 1013904242, 2773480762, 1359893119, 2600822924, 528734635, 1541459225]"

definition rotr :: "nat \<Rightarrow> 32 word \<Rightarrow> 32 word" where
  "rotr n w = drop_bit n w OR push_bit (32 - n) w"

definition big_endian :: "nat \<Rightarrow> nat \<Rightarrow> nat list" where
  "big_endian k n = map (\<lambda>i. n div 256 ^ (k - 1 - i) mod 256) [0..<k]"

text \<open>The message, a one bit, zeros up to 56 bytes modulo 64 and the length in bits.\<close>

definition sha_pad :: "nat list \<Rightarrow> nat list" where
  "sha_pad bytes =
     bytes @ 128 # replicate ((119 - length bytes mod 64) mod 64) 0 @ big_endian 8 (8 * length bytes)"

fun sha_words :: "nat list \<Rightarrow> 32 word list" where
  "sha_words (a # b # c # d # bytes) = of_nat (((a * 256 + b) * 256 + c) * 256 + d) # sha_words bytes"
| "sha_words bytes = []"

fun sha_schedule :: "nat \<Rightarrow> 32 word list \<Rightarrow> 32 word list" where
  "sha_schedule 0 ws = ws"
| "sha_schedule (Suc n) ws =
     (let w15 = ws ! (length ws - 15); w2 = ws ! (length ws - 2);
          s0 = rotr 7 w15 XOR rotr 18 w15 XOR drop_bit 3 w15;
          s1 = rotr 17 w2 XOR rotr 19 w2 XOR drop_bit 10 w2
      in sha_schedule n (ws @ [ws ! (length ws - 16) + s0 + ws ! (length ws - 7) + s1]))"

fun sha_round :: "32 word list \<Rightarrow> 32 word \<times> 32 word \<Rightarrow> 32 word list" where
  "sha_round [a, b, c, d, e, f, g, h] (k, w) =
     (let S1 = rotr 6 e XOR rotr 11 e XOR rotr 25 e; ch = (e AND f) XOR (NOT e AND g);
          t1 = h + S1 + ch + k + w;
          S0 = rotr 2 a XOR rotr 13 a XOR rotr 22 a; maj = (a AND b) XOR (a AND c) XOR (b AND c)
      in [t1 + S0 + maj, a, b, c, d + t1, e, f, g])"
| "sha_round state kw = state"

definition sha_block :: "32 word list \<Rightarrow> 32 word list \<Rightarrow> 32 word list" where
  "sha_block state block = map2 (+) state (foldl sha_round state (zip SHA_K (sha_schedule 48 block)))"

fun sha_blocks :: "nat \<Rightarrow> 32 word list \<Rightarrow> 32 word list \<Rightarrow> 32 word list" where
  "sha_blocks 0 state ws = state"
| "sha_blocks (Suc n) state ws = sha_blocks n (sha_block state (take 16 ws)) (drop 16 ws)"

definition hex_digit :: "nat \<Rightarrow> char" where
  "hex_digit n = ''0123456789abcdef'' ! n"

definition hex32 :: "32 word \<Rightarrow> string" where
  "hex32 w = map (\<lambda>i. hex_digit (unat w div 16 ^ (7 - i) mod 16)) [0..<8]"

definition sha256 :: "string \<Rightarrow> string" where
  "sha256 text =
     (let ws = sha_words (sha_pad (map of_char text))
      in concat (map hex32 (sha_blocks (length ws div 16) SHA_H ws)))"

lemma length_sha_round: "length (sha_round state kw) = length state"
  by (cases "(state, kw)" rule: sha_round.cases) (simp_all add: Let_def)

lemma length_foldl_sha_round: "length (foldl sha_round state kws) = length state"
  by (induction kws arbitrary: state) (simp_all add: length_sha_round)

lemma length_sha_blocks: "length (sha_blocks n state ws) = length state"
  by (induction n arbitrary: state ws) (simp_all add: sha_block_def length_foldl_sha_round)

lemma length_sha256: "length (sha256 text) = 64"
proof -
  have "length (concat (map hex32 xs)) = 8 * length xs" for xs by (induction xs) (simp_all add: hex32_def)
  then show ?thesis by (simp add: sha256_def Let_def length_sha_blocks SHA_H_def)
qed

section \<open>Entries\<close>

record audit_record =
  au_service :: string
  au_action :: string
  au_entity_type :: "string option"
  au_entity_id :: "string option"
  au_details :: string
  au_timestamp :: string
  au_prev_hash :: string
  au_hash :: string

definition audit_payload :: "string \<Rightarrow> string \<Rightarrow> string \<Rightarrow> string \<Rightarrow> string \<Rightarrow> string" where
  "audit_payload prev service action details_json time_iso =
     prev @ ''|'' @ service @ ''|'' @ action @ ''|'' @ details_json @ ''|'' @ time_iso"

definition compute_audit_hash :: "string \<Rightarrow> string \<Rightarrow> string \<Rightarrow> string \<Rightarrow> string \<Rightarrow> string" where
  "compute_audit_hash prev service action details_json time_iso =
     sha256 (audit_payload prev service action details_json time_iso)"

text \<open>What a caller passes to \<open>log\<close>, with the clock reading; no details are an empty JSON object.\<close>

record audit_call =
  ac_action :: string
  ac_details :: "string option"
  ac_entity_type :: "string option"
  ac_entity_id :: "string option"
  ac_now :: string

definition make_entry :: "string \<Rightarrow> string \<Rightarrow> audit_call \<Rightarrow> audit_record" where
  "make_entry service last_hash c =
     (let details = opt_get (ac_details c) ''{}''
      in \<lparr>au_service = service, au_action = ac_action c, au_entity_type = ac_entity_type c,
          au_entity_id = ac_entity_id c, au_details = details, au_timestamp = ac_now c, au_prev_hash = last_hash,
          au_hash = compute_audit_hash last_hash service (ac_action c) details (ac_now c)\<rparr>)"

section \<open>The PostgreSQL trail\<close>

record pg_trail =
  pt_service :: string
  pt_last_hash :: string
  pt_pool :: bool
  pt_buffer :: "audit_record list"
  pt_max_buffer_size :: nat
  pt_drops :: nat

definition new_pg_trail :: "string \<Rightarrow> bool \<Rightarrow> nat \<Rightarrow> pg_trail" where
  "new_pg_trail service pool max_buffer_size =
     \<lparr>pt_service = service, pt_last_hash = ''GENESIS'', pt_pool = pool, pt_buffer = [],
      pt_max_buffer_size = max_buffer_size, pt_drops = 0\<rparr>"

definition set_pool :: "bool \<Rightarrow> pg_trail \<Rightarrow> pg_trail" where
  "set_pool pool t = t\<lparr>pt_pool := pool\<rparr>"

text \<open>\<open>connect\<close>: a failure of any kind leaves the trail as it was.\<close>

definition connect_pool :: "bool \<Rightarrow> pg_trail \<Rightarrow> pg_trail" where
  "connect_pool ok t = (if ok then t\<lparr>pt_pool := True\<rparr> else t)"

definition audit_persist :: "audit_record \<Rightarrow> pg_trail \<Rightarrow> unit result \<times> pg_trail" where
  "audit_persist entry t =
     (if pt_max_buffer_size t \<le> length (pt_buffer t)
      then case pt_buffer t of
             [] \<Rightarrow> (Inl IndexError, t)
           | b # bs \<Rightarrow> (Inr (), t\<lparr>pt_buffer := bs @ [entry], pt_drops := pt_drops t + 1\<rparr>)
      else (Inr (), t\<lparr>pt_buffer := pt_buffer t @ [entry]\<rparr>))"

definition audit_log :: "audit_call \<Rightarrow> pg_trail \<Rightarrow> audit_record result \<times> pg_trail" where
  "audit_log c t =
     (let entry = make_entry (pt_service t) (pt_last_hash t) c
      in case audit_persist entry (t\<lparr>pt_last_hash := au_hash entry\<rparr>) of
           (Inl e, t) \<Rightarrow> (Inl e, t)
         | (Inr u, t) \<Rightarrow> (Inr entry, t))"

text \<open>The table grows by every insertion that succeeds; its rows are in the order of their serial ids.\<close>

definition log_async :: "audit_call \<Rightarrow> bool \<Rightarrow> pg_trail \<times> audit_record list \<Rightarrow> audit_record result \<times> pg_trail \<times> audit_record list" where
  "log_async c write_ok st =
     (let (t, table) = st
      in case audit_log c t of
           (Inl e, t) \<Rightarrow> (Inl e, t, table)
         | (Inr entry, t) \<Rightarrow>
             if pt_pool t \<and> write_ok
             then (Inr entry, t\<lparr>pt_buffer := remove1 entry (pt_buffer t)\<rparr>, table @ [entry])
             else (Inr entry, t, table))"

fun write_all :: "(audit_record \<times> bool) list \<Rightarrow> audit_record list \<times> audit_record list" where
  "write_all [] = ([], [])"
| "write_all ((entry, ok) # es) =
     (let (written, remaining) = write_all es
      in if ok then (entry # written, remaining) else (written, entry # remaining))"

text \<open>\<open>ok i\<close> is the outcome of the \<open>i\<close>-th insertion of a flush.\<close>

definition flush_buffer :: "(nat \<Rightarrow> bool) \<Rightarrow> pg_trail \<times> audit_record list \<Rightarrow> nat \<times> pg_trail \<times> audit_record list" where
  "flush_buffer ok st =
     (let (t, table) = st
      in if pt_buffer t = [] \<or> \<not> pt_pool t then (0, t, table)
         else let (written, remaining) = write_all (zip (pt_buffer t) (map ok [0..<length (pt_buffer t)]))
              in (length written, t\<lparr>pt_buffer := remaining\<rparr>, table @ written))"

section \<open>Chains\<close>

text \<open>What an auditor checks: every entry names the hash of its predecessor and carries its own.\<close>

definition sealed :: "audit_record \<Rightarrow> bool" where
  "sealed e \<longleftrightarrow>
     au_hash e = compute_audit_hash (au_prev_hash e) (au_service e) (au_action e) (au_details e) (au_timestamp e)"

fun chain_ok :: "string \<Rightarrow> audit_record list \<Rightarrow> bool" where
  "chain_ok prev [] = True"
| "chain_ok prev (e # es) = (au_prev_hash e = prev \<and> sealed e \<and> chain_ok (au_hash e) es)"

definition chain_end :: "string \<Rightarrow> audit_record list \<Rightarrow> string" where
  "chain_end prev es = (if es = [] then prev else au_hash (last es))"

lemma chain_ok_append:
  "chain_ok prev (es @ [e]) \<longleftrightarrow> chain_ok prev es \<and> au_prev_hash e = chain_end prev es \<and> sealed e"
  by (induction es arbitrary: prev) (auto simp: chain_end_def)

lemma sealed_make_entry: "sealed (make_entry service prev c)" "au_prev_hash (make_entry service prev c) = prev"
  by (simp_all add: sealed_def make_entry_def Let_def)

lemma length_sealed_hash: "sealed e \<Longrightarrow> length (au_hash e) = 64"
  by (simp add: sealed_def compute_audit_hash_def length_sha256)

lemma chain_end_length: "chain_ok prev es \<Longrightarrow> es \<noteq> [] \<Longrightarrow> length (chain_end prev es) = 64"
  by (induction es rule: rev_induct) (auto simp: chain_ok_append chain_end_def length_sealed_hash)

section \<open>Tampering\<close>

definition payload_of :: "audit_record \<Rightarrow> string" where
  "payload_of e = audit_payload (au_prev_hash e) (au_service e) (au_action e) (au_details e) (au_timestamp e)"

lemma sealed_payload: "sealed e \<longleftrightarrow> au_hash e = sha256 (payload_of e)"
  by (simp add: sealed_def compute_audit_hash_def payload_of_def)

text \<open>The separator is absent from the fields around the free-form details.\<close>

definition plain_fields :: "audit_record \<Rightarrow> bool" where
  "plain_fields e \<longleftrightarrow>
     CHR ''|'' \<notin> set (au_service e) \<and> CHR ''|'' \<notin> set (au_action e) \<and> CHR ''|'' \<notin> set (au_timestamp e)"

definition sealed_fields :: "audit_record \<Rightarrow> string list" where
  "sealed_fields e = [au_prev_hash e, au_service e, au_action e, au_details e, au_timestamp e, au_hash e]"

lemma split_first: "c \<notin> set xs \<Longrightarrow> c \<notin> set ys \<Longrightarrow> xs @ c # us = ys @ c # vs \<longleftrightarrow> xs = ys \<and> us = vs"
proof (induction xs arbitrary: ys)
  case Nil
  then show ?case by (cases ys) auto
next
  case (Cons x xs)
  then show ?case by (cases ys) auto
qed

lemma split_last: "c \<notin> set us \<Longrightarrow> c \<notin> set vs \<Longrightarrow> xs @ c # us = ys @ c # vs \<longleftrightarrow> xs = ys \<and> us = vs"
proof -
  assume "c \<notin> set us" "c \<notin> set vs"
  then have "rev us @ c # rev xs = rev vs @ c # rev ys \<longleftrightarrow> rev us = rev vs \<and> rev xs = rev ys" by (intro split_first) auto
  moreover have "xs @ c # us = ys @ c # vs \<longleftrightarrow> rev us @ c # rev xs = rev vs @ c # rev ys"
    using rev_is_rev_conv [of "xs @ c # us" "ys @ c # vs"] by simp
  ultimately show ?thesis by auto
qed

lemma payload_inj:
  assumes "payload_of e = payload_of f" "length (au_prev_hash e) = length (au_prev_hash f)" "plain_fields e" "plain_fields f"
  shows "au_prev_hash e = au_prev_hash f \<and> au_service e = au_service f \<and> au_action e = au_action f \<and>
    au_details e = au_details f \<and> au_timestamp e = au_timestamp f"
proof -
  have "au_prev_hash e = au_prev_hash f"
    and 1: "au_service e @ CHR ''|'' # au_action e @ CHR ''|'' # au_details e @ CHR ''|'' # au_timestamp e =
     au_service f @ CHR ''|'' # au_action f @ CHR ''|'' # au_details f @ CHR ''|'' # au_timestamp f"
    using assms(1,2) by (simp_all add: payload_of_def audit_payload_def)
  moreover have "au_service e = au_service f"
    and 2: "au_action e @ CHR ''|'' # au_details e @ CHR ''|'' # au_timestamp e =
     au_action f @ CHR ''|'' # au_details f @ CHR ''|'' # au_timestamp f"
    using 1 split_first [of "CHR ''|''" "au_service e" "au_service f"] assms(3,4) by (simp_all add: plain_fields_def)
  moreover have "au_action e = au_action f"
    and 3: "au_details e @ CHR ''|'' # au_timestamp e = au_details f @ CHR ''|'' # au_timestamp f"
    using 2 split_first [of "CHR ''|''" "au_action e" "au_action f"] assms(3,4) by (simp_all add: plain_fields_def)
  ultimately show ?thesis
    using split_last [of "CHR ''|''" "au_timestamp e" "au_timestamp f" "au_details e" "au_details f"] assms(3,4)
    by (simp add: plain_fields_def)
qed

definition collision :: "audit_record \<Rightarrow> audit_record \<Rightarrow> bool" where
  "collision e f \<longleftrightarrow> payload_of e \<noteq> payload_of f \<and> sha256 (payload_of e) = sha256 (payload_of f)"


definition sample_call :: "string \<Rightarrow> audit_call" where
  "sample_call now = \<lparr>ac_action = ''signal_generated'', ac_details = None, ac_entity_type = None, ac_entity_id = None, ac_now = now\<rparr>"


text \<open>The entity an entry is about is not part of the sealed text: rewriting it leaves the chain intact.\<close>

lemma sealed_entity: "sealed (e\<lparr>au_entity_type := t, au_entity_id := i\<rparr>) = sealed e"
  by (simp add: sealed_def)

lemma entity_not_sealed:
  "chain_ok prev es \<Longrightarrow> chain_ok prev (map (\<lambda>e. e\<lparr>au_entity_type := t e, au_entity_id := i e\<rparr>) es)"
  by (induction es arbitrary: prev) (simp_all add: sealed_entity)

section \<open>Every sequence of operations\<close>

text \<open>\<open>audit_reach service pool n t table logged\<close>: trail, table and all entries ever made, in order.\<close>

inductive audit_reach :: "string \<Rightarrow> bool \<Rightarrow> nat \<Rightarrow> pg_trail \<Rightarrow> audit_record list \<Rightarrow> audit_record list \<Rightarrow> bool"
  for service pool n where
  start: "audit_reach service pool n (new_pg_trail service pool n) [] []"
| log: "audit_reach service pool n t table logged \<Longrightarrow> audit_log c t = (Inr e, t') \<Longrightarrow>
    audit_reach service pool n t' table (logged @ [e])"
| log_async: "audit_reach service pool n t table logged \<Longrightarrow> log_async c ok (t, table) = (Inr e, t', table') \<Longrightarrow>
    audit_reach service pool n t' table' (logged @ [e])"
| flush: "audit_reach service pool n t table logged \<Longrightarrow> flush_buffer outcomes (t, table) = (k, t', table') \<Longrightarrow>
    audit_reach service pool n t' table' logged"
| pool: "audit_reach service pool n t table logged \<Longrightarrow> audit_reach service pool n (connect_pool ok t) table logged"

definition accounted :: "pg_trail \<Rightarrow> audit_record list \<Rightarrow> audit_record list \<Rightarrow> bool" where
  "accounted t table logged \<longleftrightarrow>
     mset table + mset (pt_buffer t) \<subseteq># mset logged \<and>
     length table + length (pt_buffer t) + pt_drops t = length logged \<and>
     length (pt_buffer t) \<le> pt_max_buffer_size t \<and>
     chain_ok ''GENESIS'' logged \<and> pt_last_hash t = chain_end ''GENESIS'' logged"

lemma audit_log_cases:
  assumes "audit_log c t = (Inr e, t')"
  shows "e = make_entry (pt_service t) (pt_last_hash t) c \<and>
    (\<exists>b bs. pt_max_buffer_size t \<le> length (pt_buffer t) \<and> pt_buffer t = b # bs \<and>
       t' = t\<lparr>pt_last_hash := au_hash e, pt_buffer := bs @ [e], pt_drops := pt_drops t + 1\<rparr>) \<or>
    e = make_entry (pt_service t) (pt_last_hash t) c \<and>
    (length (pt_buffer t) < pt_max_buffer_size t \<and> t' = t\<lparr>pt_last_hash := au_hash e, pt_buffer := pt_buffer t @ [e]\<rparr>)"
  using assms by (auto simp: audit_log_def audit_persist_def Let_def split: if_splits list.splits)

lemma audit_log_accounted:
  assumes "audit_log c t = (Inr e, t')" "accounted t table logged"
  shows "accounted t' table (logged @ [e])" "e \<in> set (pt_buffer t')" "pt_max_buffer_size t' = pt_max_buffer_size t"
proof -
  have e: "e = make_entry (pt_service t) (pt_last_hash t) c" using audit_log_cases [OF assms(1)] by blast
  have chain: "chain_ok ''GENESIS'' (logged @ [e])" "au_hash e = chain_end ''GENESIS'' (logged @ [e])"
    using assms(2) sealed_make_entry by (simp_all add: chain_ok_append accounted_def e) (simp add: chain_end_def)
  have sub: "mset table + mset (pt_buffer t) \<subseteq># mset logged" using assms(2) by (simp add: accounted_def)
  consider b bs where "pt_max_buffer_size t \<le> length (pt_buffer t)" "pt_buffer t = b # bs"
      "t' = t\<lparr>pt_last_hash := au_hash e, pt_buffer := bs @ [e], pt_drops := pt_drops t + 1\<rparr>"
    | "length (pt_buffer t) < pt_max_buffer_size t" "t' = t\<lparr>pt_last_hash := au_hash e, pt_buffer := pt_buffer t @ [e]\<rparr>"
    using audit_log_cases [OF assms(1)] by blast
  then have "accounted t' table (logged @ [e]) \<and> e \<in> set (pt_buffer t') \<and> pt_max_buffer_size t' = pt_max_buffer_size t"
  proof cases
    case 1
    have "mset table + mset bs \<subseteq># mset table + mset (pt_buffer t)" by (simp add: 1(2))
    then have "mset table + mset bs \<subseteq># mset logged" using sub by (blast intro: subset_mset.order_trans)
    then show ?thesis
      using chain assms(2) 1 by (simp_all add: accounted_def)
  next
    case 2
    then show ?thesis
      using chain assms(2) by (simp_all add: accounted_def)
  qed
  then show "accounted t' table (logged @ [e])" "e \<in> set (pt_buffer t')" "pt_max_buffer_size t' = pt_max_buffer_size t" by blast+
qed

lemma log_async_accounted:
  assumes "log_async c ok (t, table) = (Inr e, t', table')" "accounted t table logged"
  shows "accounted t' table' (logged @ [e])"
proof -
  obtain t1 where l: "audit_log c t = (Inr e, t1)"
    and r: "(t', table') = (if pt_pool t1 \<and> ok then (t1\<lparr>pt_buffer := remove1 e (pt_buffer t1)\<rparr>, table @ [e]) else (t1, table))"
    using assms(1) by (auto simp: log_async_def split: prod.splits sum.splits if_splits)
  note a = audit_log_accounted [OF l assms(2)]
  show ?thesis
  proof (cases "pt_pool t1 \<and> ok")
    case True
    then have t': "t' = t1\<lparr>pt_buffer := remove1 e (pt_buffer t1)\<rparr>" "table' = table @ [e]" using r by simp_all
    have "mset (pt_buffer t1) = add_mset e (mset (remove1 e (pt_buffer t1)))" using a(2) by simp
    then have "add_mset e (mset table + mset (remove1 e (pt_buffer t1))) = mset table + mset (pt_buffer t1)" by simp
    moreover have "mset table + mset (pt_buffer t1) \<subseteq># add_mset e (mset logged)" using a(1) by (simp add: accounted_def)
    ultimately have "add_mset e (mset table + mset (remove1 e (pt_buffer t1))) \<subseteq># add_mset e (mset logged)" by (simp only:)
    then have "mset table + mset (remove1 e (pt_buffer t1)) \<subseteq># mset logged" by (simp only: mset_subset_eq_add_mset_cancel)
    moreover have "length (remove1 e (pt_buffer t1)) + 1 = length (pt_buffer t1)"
      using a(2) length_pos_if_in_set [OF a(2)] by (simp add: length_remove1)
    ultimately show ?thesis using a(1) unfolding accounted_def by (simp add: t' del: mset_remove1)
  qed (use a(1) r in auto)
qed

lemma write_all_mset: "write_all es = (w, r) \<Longrightarrow> mset w + mset r = mset (map fst es)"
  by (induction es arbitrary: w r rule: write_all.induct) (auto split: prod.splits if_splits)

lemma flush_accounted:
  assumes "flush_buffer outcomes (t, table) = (k, t', table')" "accounted t table logged"
  shows "accounted t' table' logged"
proof (cases "pt_buffer t = [] \<or> \<not> pt_pool t")
  case False
  let ?es = "zip (pt_buffer t) (map outcomes [0..<length (pt_buffer t)])"
  obtain w r where wr: "write_all ?es = (w, r)" by fastforce
  then have t': "t' = t\<lparr>pt_buffer := r\<rparr>" "table' = table @ w"
    using assms(1) False by (auto simp: flush_buffer_def)
  have m: "mset w + mset r = mset (pt_buffer t)" using write_all_mset [OF wr] by simp
  then have "size (mset w + mset r) = size (mset (pt_buffer t))" by simp
  then have "length w + length r = length (pt_buffer t)" by simp
  then show ?thesis using assms(2) m unfolding accounted_def t' by (simp add: add.assoc)
qed (use assms in \<open>auto simp: flush_buffer_def\<close>)


lemma sample_audit_reach:
  "\<exists>t e. audit_reach ''algo-engine'' True 1 t [e] [e] \<and> pt_drops t = 0"
proof -
  let ?e = "make_entry ''algo-engine'' ''GENESIS'' (sample_call ''2026-01-01T00:00:00+00:00'')"
  have "log_async (sample_call ''2026-01-01T00:00:00+00:00'') True (new_pg_trail ''algo-engine'' True 1, []) =
      (Inr ?e, (new_pg_trail ''algo-engine'' True 1)\<lparr>pt_last_hash := au_hash ?e\<rparr>, [?e])"
    by (simp add: log_async_def audit_log_def audit_persist_def new_pg_trail_def Let_def)
  from audit_reach.log_async [OF audit_reach.start this] show ?thesis
    by (intro exI conjI) (simp_all, simp add: new_pg_trail_def)
qed


text \<open>
  A failed insertion breaks the chain of the table: when the first \<open>log_async\<close> cannot write and the
  second can, a later flush puts the first entry behind the second, and the rows in id order are no longer a chain.
\<close>

theorem failed_write_breaks_table:
  "let (r1, t1, table1) = log_async c1 False (new_pg_trail service True 10000, []);
       (r2, t2, table2) = log_async c2 True (t1, table1);
       (k, t3, table3) = flush_buffer (\<lambda>i. True) (t2, table2)
   in \<exists>e1 e2. r1 = Inr e1 \<and> r2 = Inr e2 \<and> table3 = [e2, e1] \<and> chain_ok ''GENESIS'' [e1, e2] \<and> \<not> chain_ok ''GENESIS'' table3"
proof -
  define e1 where "e1 = make_entry service ''GENESIS'' c1"
  define e2 where "e2 = make_entry service (au_hash e1) c2"
  have "au_prev_hash e1 = ''GENESIS''" "au_prev_hash e2 = au_hash e1" "length (au_hash e1) = 64"
    using length_sealed_hash [OF sealed_make_entry(1)] by (simp_all add: e1_def e2_def sealed_make_entry)
  then have ne: "e1 \<noteq> e2" "au_prev_hash e2 \<noteq> ''GENESIS''" by auto
  have 1: "log_async c1 False (new_pg_trail service True 10000, []) =
      (Inr e1, (new_pg_trail service True 10000)\<lparr>pt_last_hash := au_hash e1, pt_buffer := [e1]\<rparr>, [])"
    by (simp add: log_async_def audit_log_def audit_persist_def new_pg_trail_def Let_def e1_def)
  have 2: "log_async c2 True ((new_pg_trail service True 10000)\<lparr>pt_last_hash := au_hash e1, pt_buffer := [e1]\<rparr>, []) =
      (Inr e2, (new_pg_trail service True 10000)\<lparr>pt_last_hash := au_hash e2, pt_buffer := [e1]\<rparr>, [e2])"
    using ne(1) by (simp add: log_async_def audit_log_def audit_persist_def new_pg_trail_def Let_def e2_def)
  have 3: "flush_buffer (\<lambda>i. True) ((new_pg_trail service True 10000)\<lparr>pt_last_hash := au_hash e2, pt_buffer := [e1]\<rparr>, [e2]) =
      (1, (new_pg_trail service True 10000)\<lparr>pt_last_hash := au_hash e2, pt_buffer := []\<rparr>, [e2, e1])"
    by (simp add: flush_buffer_def new_pg_trail_def)
  have "chain_ok ''GENESIS'' [e1, e2]" by (simp add: e1_def e2_def sealed_make_entry)
  then show ?thesis using ne by (simp add: 1 2 3)
qed

text \<open>A restarted service begins at \<open>GENESIS\<close> again: its first row does not continue the table.\<close>

lemma restart_forks_chain:
  assumes "chain_ok ''GENESIS'' table" "table \<noteq> []"
    and "log_async c True (new_pg_trail service True 10000, table) = (Inr e, t', table')"
  shows "\<not> chain_ok ''GENESIS'' table'"
proof -
  have "e = make_entry service ''GENESIS'' c" "table' = table @ [e]"
    using assms(3) by (auto simp: log_async_def audit_log_def audit_persist_def new_pg_trail_def Let_def)
  then show ?thesis using chain_end_length [OF assms(1,2)]
    by (auto simp: chain_ok_append sealed_make_entry)
qed

end
