(* ===== verification/Main_Loop.thy ===== *)
theory Main_Loop
  imports Feature_Stage Kill_Switch Bridge_Client Alerting Audit_Trail
begin

text \<open>
  \<open>algo_engine/main.py\<close>: one iteration of the loop of \<open>run_engine\<close>, composed of the other components in the order of the
  code. What the outside supplies in one iteration (message, clock readings, replies of Redis, remote calls, JSON texts) is a
  record of inputs. The loop counter, logs and metrics are left out, and what \<open>persist_to_redis\<close> writes is read back only
  at start-up.
\<close>

section \<open>State and inputs\<close>

record settings =
  st_max_daily_loss_pct :: decimal
  st_max_drawdown_pct :: decimal

text \<open>
  The subscriber is missing, the message has fewer than two frames, or it has a topic and a payload whose parse is the
  result of \<open>parse_bar_message\<close>.
\<close>

datatype message = Standalone | ShortFrame | Frames string "(string \<times> string \<times> ohlcv) result"

record app =
  ap_bar_counter :: nat
  ap_kill :: kill_switch
  ap_stage :: feature_stage
  ap_engine :: engine
  ap_audit :: pg_trail
  ap_bridge :: "bridge_client option"
  ap_alerts :: dispatcher

record 's inputs =
  in_check :: "rat \<times> get_reply"
  in_message :: message
  in_env :: env
  in_today :: string
  in_auto :: "rat \<times> rat"
  in_recheck :: "rat \<times> get_reply"
  in_generated_text :: "trading_signal \<Rightarrow> string"
  in_generated_at :: string
  in_rpc :: "'s rpc"
  in_send_now :: rat
  in_failed_at :: "nat \<Rightarrow> rat"
  in_dispatched_text :: "trading_signal \<Rightarrow> execution_dict \<Rightarrow> string"
  in_dispatched_at :: string
  in_opened_text :: "trading_signal \<Rightarrow> string"
  in_alert_at :: rat
  in_trade_at :: rat
  in_today' :: string
  in_enforce :: "rat \<times> rat"
  in_dstr :: "decimal \<Rightarrow> string"
  in_reason :: "decimal \<Rightarrow> decimal \<Rightarrow> decimal \<Rightarrow> decimal \<Rightarrow> string"

section \<open>Steps of an iteration\<close>

definition signal_audit :: "string \<Rightarrow> string \<Rightarrow> string \<Rightarrow> trading_signal \<Rightarrow> audit_call" where
  "signal_audit action details now sig =
     \<lparr>ac_action = action, ac_details = Some details, ac_entity_type = Some ''signal'',
      ac_entity_id = Some (signal_id sig), ac_now = now\<rparr>"

definition alert_app :: "alert_level \<Rightarrow> string \<Rightarrow> string \<Rightarrow> rat \<Rightarrow> app \<Rightarrow> app" where
  "alert_app level title body now ap =
     ap\<lparr>ap_alerts := snd (alert_send \<lparr>al_level = level, al_title = title, al_body = body, al_context = [], al_now = now\<rparr>
                             (ap_alerts ap))\<rparr>"

definition set_portfolio :: "portfolio \<Rightarrow> app \<Rightarrow> app" where
  "set_portfolio pf ap = ap\<lparr>ap_engine := (ap_engine ap)\<lparr>en_portfolio := pf\<rparr>\<rparr>"

definition book_fill :: "'s inputs \<Rightarrow> string \<Rightarrow> trading_signal \<Rightarrow> app \<Rightarrow> app" where
  "book_fill i symbol sig ap =
     alert_app Info (''Trade Opened: '' @ symbol) (in_opened_text i sig) (in_alert_at i)
       (set_portfolio
          (record_fill symbol (opt_get (sig_lots sig) 0) (direction_value (sig_direction sig)) (en_portfolio (ap_engine ap)))
          ap)"

text \<open>The hand-over to the bridge; whatever it raises is caught. The first component is the outcome of \<open>send_signal\<close>, if it was called.\<close>

definition dispatch_signal ::
  "'s inputs \<Rightarrow> string \<Rightarrow> trading_signal \<Rightarrow> app \<Rightarrow> 's \<Rightarrow> (client_error + execution_dict) option \<times> app \<times> 's" where
  "dispatch_signal i symbol sig ap s =
     (case ap_bridge ap of
        None \<Rightarrow> (None, ap, s)
      | Some bc \<Rightarrow>
          if \<not> bc_available bc then (None, ap, s)
          else case send_signal (in_rpc i) (in_send_now i) (in_failed_at i) sig bc s of
                 (pauses, r, bc, s) \<Rightarrow>
                   let ap = ap\<lparr>ap_bridge := Some bc\<rparr>
                   in case r of
                        Inl e \<Rightarrow> (Some r, ap, s)
                      | Inr d \<Rightarrow>
                          (case audit_log (signal_audit ''signal_dispatched'' (in_dispatched_text i sig d) (in_dispatched_at i) sig)
                                  (ap_audit ap) of
                             (Inl e, t) \<Rightarrow> (Some r, ap\<lparr>ap_audit := t\<rparr>, s)
                           | (Inr entry, t) \<Rightarrow>
                               let ap = ap\<lparr>ap_audit := t\<rparr>
                               in (Some r, if ed_status d = ''FILLED'' then book_fill i symbol sig ap else ap, s)))"

definition book_close :: "rat \<Rightarrow> remote_trade \<Rightarrow> engine \<Rightarrow> engine" where
  "book_close now rt en =
     en\<lparr>en_portfolio := record_close (rt_symbol rt) (rt_quantity rt) (rt_profit rt) [] (en_portfolio en),
        en_spiral := record_trade_result now (0 < rt_profit rt) (en_spiral en)\<rparr>"

definition poll_closed :: "'s inputs \<Rightarrow> app \<Rightarrow> app" where
  "poll_closed i ap =
     (case ap_bridge ap of
        None \<Rightarrow> ap
      | Some bc \<Rightarrow>
          if ap_bar_counter ap mod 10 = 0 \<and> bc_available bc
          then let (trades, bc) = get_closed_trades bc
               in ap\<lparr>ap_bridge := Some bc, ap_engine := foldl (\<lambda>en rt. book_close (in_trade_at i) rt en) (ap_engine ap) trades\<rparr>
          else ap)"

text \<open>\<open>portfolio_state\<close> has no key \<open>peak_equity\<close>: the default of 1000 is always taken. A \<open>ValueError\<close> is caught.\<close>

definition enforce_drawdown :: "settings \<Rightarrow> 's inputs \<Rightarrow> app \<Rightarrow> app" where
  "enforce_drawdown cfg i ap =
     (let (st, pf) = get_state (in_today' i) (en_portfolio (ap_engine ap)); ap = set_portfolio pf ap; (now, wall) = in_enforce i
      in ap\<lparr>ap_kill := snd (enforcer_check (in_reason i) (st_max_drawdown_pct cfg) now wall (gs_equity st) 1000 (ap_kill ap))\<rparr>)"

definition auto_check_app :: "settings \<Rightarrow> 's inputs \<Rightarrow> app \<Rightarrow> app" where
  "auto_check_app cfg i ap =
     (let (st, pf) = get_state (in_today i) (en_portfolio (ap_engine ap)); ap = set_portfolio pf ap; (now, wall) = in_auto i
      in ap\<lparr>ap_kill := auto_check (in_dstr i) now wall (gs_daily_loss_pct st) (st_max_daily_loss_pct cfg)
                         (gs_current_drawdown_pct st) (st_max_drawdown_pct cfg) (ap_kill ap)\<rparr>)"

text \<open>What is done with a signal the engine returns.\<close>

definition handle_signal ::
  "settings \<Rightarrow> 's inputs \<Rightarrow> string \<Rightarrow> trading_signal \<Rightarrow> app \<Rightarrow> 's \<Rightarrow> (client_error + execution_dict) option \<times> app \<times> 's" where
  "handle_signal cfg i symbol sig ap s =
     (let ap = auto_check_app cfg i ap; (now, reply) = in_recheck i
      in case ks_is_active now reply (ap_kill ap) of
           (Inl e, ks) \<Rightarrow> (None, ap\<lparr>ap_kill := ks\<rparr>, s)
         | (Inr (True, why), ks) \<Rightarrow>
             (None, alert_app Critical ''Kill Switch Activated'' ''Kill switch auto-activated. Trading suspended.'' (in_alert_at i)
                      (ap\<lparr>ap_kill := ks\<rparr>), s)
         | (Inr (False, why), ks) \<Rightarrow>
             let ap = ap\<lparr>ap_kill := ks\<rparr>
             in case audit_log (signal_audit ''signal_generated'' (in_generated_text i sig) (in_generated_at i) sig) (ap_audit ap) of
                  (Inl e, t) \<Rightarrow> (None, ap\<lparr>ap_audit := t\<rparr>, s)
                | (Inr entry, t) \<Rightarrow>
                    (case dispatch_signal i symbol sig (ap\<lparr>ap_audit := t\<rparr>) s of
                       (r, ap, s) \<Rightarrow> (r, enforce_drawdown cfg i (poll_closed i ap), s)))"

definition turn ::
  "settings \<Rightarrow> 's inputs \<Rightarrow> app \<Rightarrow> 's \<Rightarrow> (client_error + execution_dict) option \<times> app \<times> 's" where
  "turn cfg i ap s =
     (let (now, reply) = in_check i
      in case ks_is_active now reply (ap_kill ap) of
           (Inl e, ks) \<Rightarrow> (None, ap\<lparr>ap_kill := ks\<rparr>, s)
         | (Inr (True, why), ks) \<Rightarrow> (None, ap\<lparr>ap_kill := ks\<rparr>, s)
         | (Inr (False, why), ks) \<Rightarrow>
             let ap = ap\<lparr>ap_kill := ks\<rparr>
             in case in_message i of
                  Standalone \<Rightarrow> (None, ap, s)
                | ShortFrame \<Rightarrow> (None, ap, s)
                | Frames topic payload \<Rightarrow>
                    if determine_message_type topic \<noteq> ''bar'' then (None, ap, s)
                    else let ap = ap\<lparr>ap_bar_counter := ap_bar_counter ap + 1\<rparr>
                         in case payload of
                              Inl e \<Rightarrow> (None, ap, s)
                            | Inr (symbol, timeframe, b) \<Rightarrow>
                                (case run_bar (in_env i) symbol timeframe b (ap_stage ap, ap_engine ap) of
                                   (out, fs, en) \<Rightarrow>
                                     let ap = ap\<lparr>ap_stage := fs, ap_engine := en\<rparr>
                                     in case out of
                                          Inl e \<Rightarrow> (None, ap, s)
                                        | Inr None \<Rightarrow> (None, ap, s)
                                        | Inr (Some sig) \<Rightarrow> handle_signal cfg i symbol sig ap s))"

fun turns :: "settings \<Rightarrow> 's inputs list \<Rightarrow> app \<Rightarrow> 's \<Rightarrow> (client_error + execution_dict) option list \<times> app \<times> 's" where
  "turns cfg [] ap s = ([], ap, s)"
| "turns cfg (i # is) ap s =
     (case turn cfg i ap s of (r, ap, s) \<Rightarrow> case turns cfg is ap s of (rs, ap, s) \<Rightarrow> (r # rs, ap, s))"

section \<open>Lemmas: what a step does to the books\<close>

text \<open>The state the service starts in, as far as its risk metrics go, with the counters of a step relative to it.\<close>

definition blind :: "app \<Rightarrow> bool" where
  "blind ap \<longleftrightarrow>
     pf_current_drawdown_pct (en_portfolio (ap_engine ap)) = 0 \<and> pf_daily_loss_pct (en_portfolio (ap_engine ap)) = 0 \<and>
     pf_equity (en_portfolio (ap_engine ap)) = 1000 \<and> 0 < pt_max_buffer_size (ap_audit ap) \<and>
     (case ap_bridge ap of None \<Rightarrow> True | Some bc \<Rightarrow> bc_closed_trades bc = [])"

definition open_count :: "app \<Rightarrow> nat" where
  "open_count ap = pf_open_position_count (en_portfolio (ap_engine ap))"

definition max_open :: "app \<Rightarrow> int" where
  "max_open ap = v_max_open_positions (en_validator (ap_engine ap))"

definition stays_blind :: "nat \<Rightarrow> app \<Rightarrow> app \<Rightarrow> bool" where
  "stays_blind n ap ap' \<longleftrightarrow>
     blind ap' \<and> ks_audit_log (ap_kill ap') = ks_audit_log (ap_kill ap) \<and> max_open ap' = max_open ap \<and>
     open_count ap' = open_count ap + n"

text \<open>Steps compose; the next one may rely on the state the last one left.\<close>

lemma stays_blind_before: "stays_blind 0 a b \<Longrightarrow> (blind b \<Longrightarrow> stays_blind n b c) \<Longrightarrow> stays_blind n a c"
  by (simp add: stays_blind_def)

lemma stays_blind_after: "stays_blind n a b \<Longrightarrow> (blind b \<Longrightarrow> stays_blind 0 b c) \<Longrightarrow> stays_blind n a c"
  by (simp add: stays_blind_def)

lemma stays_blind_refl: "blind ap \<Longrightarrow> stays_blind 0 ap ap"
  by (simp add: stays_blind_def)

lemmas blind_defs = stays_blind_def blind_def open_count_def max_open_def

lemma is_active_frame:
  assumes "ks_is_active now reply ks = (r, ks')"
  shows "ks_audit_log ks' = ks_audit_log ks" "ks_cache_ttl ks' = ks_cache_ttl ks" "ks_redis ks' = ks_redis ks"
  using assms by (auto simp: ks_is_active_def refresh_cache_def split: if_splits sum.splits get_reply.splits)

lemma is_active_stays:
  "ks_is_active now reply (ap_kill ap) = (r, ks) \<Longrightarrow> blind ap \<Longrightarrow> stays_blind 0 ap (ap\<lparr>ap_kill := ks\<rparr>)"
  using is_active_frame(1) [of now reply "ap_kill ap" r ks] by (simp add: blind_defs)

lemma set_portfolio_stays:
  "books_kept (en_portfolio (ap_engine ap)) pf \<Longrightarrow> blind ap \<Longrightarrow> stays_blind 0 ap (set_portfolio pf ap)"
  by (auto simp: blind_defs books_kept_def set_portfolio_def)

lemma alert_stays: "blind ap \<Longrightarrow> stays_blind 0 ap (alert_app level title body now ap)"
  by (simp add: blind_defs alert_app_def)

lemma audit_log_frame:
  assumes "audit_log c t = (r, t')" "0 < pt_max_buffer_size t"
  shows "pt_max_buffer_size t' = pt_max_buffer_size t" "\<exists>entry. r = Inr entry"
  using assms by (auto simp: audit_log_def audit_persist_def Let_def split: sum.splits list.splits if_splits)

lemma audit_stays:
  "audit_log c (ap_audit ap) = (r, t) \<Longrightarrow> blind ap \<Longrightarrow> stays_blind 0 ap (ap\<lparr>ap_audit := t\<rparr>)"
  using audit_log_frame(1) [of c "ap_audit ap" r t] by (simp add: blind_defs)

lemma auto_check_idle:
  assumes "blind ap" "0 < st_max_daily_loss_pct cfg" "0 < st_max_drawdown_pct cfg"
  shows "auto_check_app cfg i ap = set_portfolio (snd (get_state (in_today i) (en_portfolio (ap_engine ap)))) ap"
  using assms by (cases "in_auto i")
    (auto simp: auto_check_app_def auto_check_def blind_def get_state_def check_daily_reset_def set_portfolio_def Let_def)

lemma auto_check_stays:
  assumes "blind ap" "0 < st_max_daily_loss_pct cfg" "0 < st_max_drawdown_pct cfg"
  shows "stays_blind 0 ap (auto_check_app cfg i ap)"
  unfolding auto_check_idle [OF assms] by (rule set_portfolio_stays [OF get_state_books assms(1)])

lemma enforcer_never_fires: "0 < m \<Longrightarrow> enforcer_check txt m now wall 1000 1000 ks = (Inr (), ks)"
  by (simp add: enforcer_check_def enforcer_drawdown_def dec_ops num_eval)

lemma enforce_stays:
  assumes "blind ap" "0 < st_max_drawdown_pct cfg"
  shows "stays_blind 0 ap (enforce_drawdown cfg i ap)"
proof -
  obtain st pf where g: "get_state (in_today' i) (en_portfolio (ap_engine ap)) = (st, pf)" by fastforce
  have b: "stays_blind 0 ap (set_portfolio pf ap)"
    using get_state_books [of "en_portfolio (ap_engine ap)" "in_today' i"] g set_portfolio_stays assms(1) by simp
  then have "gs_equity st = 1000" using g by (auto simp: blind_defs set_portfolio_def get_state_def Let_def)
  then have "enforce_drawdown cfg i ap = set_portfolio pf ap"
    using enforcer_never_fires [OF assms(2)] g by (simp add: enforce_drawdown_def Let_def split: prod.splits)
  then show ?thesis using b by simp
qed

lemma poll_stays:
  assumes "blind ap"
  shows "stays_blind 0 ap (poll_closed i ap)"
proof (cases "ap_bridge ap")
  case (Some bc)
  then have "bc_closed_trades bc = []" using assms by (simp add: blind_def)
  then show ?thesis using closed_trades_never_filled(1) [of bc] assms Some
    by (simp add: poll_closed_def stays_blind_refl) (simp add: blind_defs)
qed (use assms in \<open>simp add: poll_closed_def stays_blind_refl\<close>)

lemma send_attempts_closed_trades:
  "bc_closed_trades bc = [] \<Longrightarrow> bc_closed_trades (fst (snd (snd (send_attempts rpc fail q i b bc s)))) = []"
proof (induction rpc fail q i b bc s rule: send_attempts.induct)
  case (1 rpc fail q i backoff bc s)
  then show ?case
    by (subst send_attempts.simps)
      (simp add: Let_def closed_trades_never_filled split: option.splits prod.splits, metis fst_conv snd_conv)
qed

lemma send_signal_closed_trades:
  "send_signal rpc now fail sig bc s = (pauses, r, bc', s') \<Longrightarrow> bc_closed_trades bc = [] \<Longrightarrow> bc_closed_trades bc' = []"
  using send_attempts_closed_trades [of bc rpc fail "signal_to_proto sig" 1 INITIAL_BACKOFF s]
  by (auto simp: send_signal_def split: if_splits)

definition filled :: "(client_error + execution_dict) option \<Rightarrow> bool" where
  "filled r \<longleftrightarrow> (case r of Some (Inr d) \<Rightarrow> ed_status d = ''FILLED'' | _ \<Rightarrow> False)"

lemma book_fill_stays: "blind ap \<Longrightarrow> stays_blind 1 ap (book_fill i symbol sig ap)"
  by (simp add: blind_defs book_fill_def alert_app_def set_portfolio_def record_fill_def Let_def)

lemma dispatch_stays:
  assumes "blind ap" "dispatch_signal i symbol sig ap s = (r, ap', s')"
  shows "stays_blind (if filled r then 1 else 0) ap ap'"
proof (cases "\<exists>bc. ap_bridge ap = Some bc \<and> bc_available bc")
  case True
  then obtain bc where bc: "ap_bridge ap = Some bc" "bc_available bc" by blast
  obtain pauses q bc' s1 where run: "send_signal (in_rpc i) (in_send_now i) (in_failed_at i) sig bc s = (pauses, q, bc', s1)"
    by (metis prod.exhaust)
  let ?ap = "ap\<lparr>ap_bridge := Some bc'\<rparr>"
  have a: "stays_blind 0 ap ?ap"
    using send_signal_closed_trades [OF run] assms(1) bc(1) by (simp add: blind_defs)
  show ?thesis
  proof (cases q)
    case (Inl e)
    then have "r = Some q" "ap' = ?ap" using assms(2) run bc by (auto simp: dispatch_signal_def Let_def)
    then show ?thesis using a Inl by (simp add: filled_def)
  next
    case (Inr d)
    obtain e t where l: "audit_log (signal_audit ''signal_dispatched'' (in_dispatched_text i sig d) (in_dispatched_at i) sig)
        (ap_audit ?ap) = (e, t)" by fastforce
    have b: "blind ?ap" using a by (simp add: stays_blind_def)
    then obtain entry where e: "e = Inr entry" using audit_log_frame(2) [OF l] by (auto simp: blind_def)
    let ?ap2 = "?ap\<lparr>ap_audit := t\<rparr>"
    have s: "stays_blind 0 ap ?ap2" by (rule stays_blind_after [OF a audit_stays [OF l]])
    then have f: "stays_blind 1 ap (book_fill i symbol sig ?ap2)" by (rule stays_blind_before [OF _ book_fill_stays])
    have "r = Some q" "ap' = (if ed_status d = ''FILLED'' then book_fill i symbol sig ?ap2 else ?ap2)"
      using assms(2) run bc Inr l e by (auto simp: dispatch_signal_def Let_def)
    then show ?thesis using s f Inr by (simp add: filled_def)
  qed
next
  case False
  then have "r = None" "ap' = ap" using assms(2) by (auto simp: dispatch_signal_def split: option.splits)
  then show ?thesis using assms(1) by (simp add: filled_def stays_blind_refl)
qed

lemma handle_signal_stays:
  assumes "blind ap" "0 < st_max_daily_loss_pct cfg" "0 < st_max_drawdown_pct cfg"
    and "handle_signal cfg i symbol sig ap s = (r, ap', s')"
  shows "stays_blind (if filled r then 1 else 0) ap ap'"
proof -
  let ?ap1 = "auto_check_app cfg i ap"
  have 1: "stays_blind 0 ap ?ap1" by (rule auto_check_stays [OF assms(1-3)])
  obtain x ks where k: "ks_is_active (fst (in_recheck i)) (snd (in_recheck i)) (ap_kill ?ap1) = (x, ks)" by fastforce
  let ?ap2 = "?ap1\<lparr>ap_kill := ks\<rparr>"
  have 2: "stays_blind 0 ap ?ap2" by (rule stays_blind_after [OF 1 is_active_stays [OF k]])
  show ?thesis
  proof (cases "\<exists>why. x = Inr (False, why)")
    case True
    obtain e t where l: "audit_log (signal_audit ''signal_generated'' (in_generated_text i sig) (in_generated_at i) sig)
        (ap_audit ?ap2) = (e, t)" by fastforce
    let ?ap3 = "?ap2\<lparr>ap_audit := t\<rparr>"
    have b2: "blind ?ap2" using 2 by (simp add: stays_blind_def)
    then obtain entry where e: "e = Inr entry" using audit_log_frame(2) [OF l] by (auto simp: blind_def)
    have 3: "stays_blind 0 ap ?ap3" by (rule stays_blind_after [OF 2 audit_stays [OF l]])
    obtain r4 ap4 s4 where d: "dispatch_signal i symbol sig ?ap3 s = (r4, ap4, s4)" by (metis prod.exhaust)
    have 4: "stays_blind (if filled r4 then 1 else 0) ap ap4" by (rule stays_blind_before [OF 3 dispatch_stays [OF _ d]])
    have 5: "stays_blind (if filled r4 then 1 else 0) ap (poll_closed i ap4)" by (rule stays_blind_after [OF 4 poll_stays])
    have 6: "stays_blind (if filled r4 then 1 else 0) ap (enforce_drawdown cfg i (poll_closed i ap4))"
      by (rule stays_blind_after [OF 5 enforce_stays [OF _ assms(3)]])
    have "r = r4 \<and> ap' = enforce_drawdown cfg i (poll_closed i ap4)"
      using assms(4) True k l e d by (cases "in_recheck i") (auto simp: handle_signal_def Let_def)
    then show ?thesis using 6 by simp
  next
    case False
    have a: "stays_blind 0 ap (alert_app l t b n ?ap2)" for l t b n by (rule stays_blind_after [OF 2 alert_stays])
    have "r = None \<and> (ap' = ?ap2 \<or> ap' = alert_app Critical ''Kill Switch Activated''
        ''Kill switch auto-activated. Trading suspended.'' (in_alert_at i) ?ap2)"
      using assms(4) False k by (cases "in_recheck i") (auto simp: handle_signal_def Let_def split: sum.splits bool.splits)
    then show ?thesis using 2 a by (auto simp: filled_def)
  qed
qed

lemma run_bar_stays:
  assumes "blind ap" "run_bar env symbol tf b (ap_stage ap, ap_engine ap) = (out, fs, en)"
  shows "stays_blind 0 ap (ap\<lparr>ap_stage := fs, ap_engine := en\<rparr>)"
  using run_bar_books [OF assms(2)] assms(1) by (auto simp: blind_defs books_kept_def)

lemma turn_stays:
  assumes "blind ap" "0 < st_max_daily_loss_pct cfg" "0 < st_max_drawdown_pct cfg" "turn cfg i ap s = (r, ap', s')"
  shows "stays_blind (if filled r then 1 else 0) ap ap' \<and> (filled r \<longrightarrow> int (open_count ap) < max_open ap)"
proof -
  obtain x ks where k: "ks_is_active (fst (in_check i)) (snd (in_check i)) (ap_kill ap) = (x, ks)" by fastforce
  let ?ap1 = "ap\<lparr>ap_kill := ks\<rparr>"
  have 1: "stays_blind 0 ap ?ap1" by (rule is_active_stays [OF k assms(1)])
  show ?thesis
  proof (cases "\<exists>why topic symbol tf b. x = Inr (False, why) \<and> in_message i = Frames topic (Inr (symbol, tf, b)) \<and>
      determine_message_type topic = ''bar''")
    case True
    then obtain why topic symbol tf b where c: "x = Inr (False, why)" "in_message i = Frames topic (Inr (symbol, tf, b))"
      "determine_message_type topic = ''bar''" by blast
    let ?ap2 = "?ap1\<lparr>ap_bar_counter := ap_bar_counter ?ap1 + 1\<rparr>"
    have 2: "stays_blind 0 ap ?ap2" using 1 by (simp add: blind_defs)
    obtain out fs en where run: "run_bar (in_env i) symbol tf b (ap_stage ap, ap_engine ap) = (out, fs, en)"
      by (metis prod.exhaust)
    let ?ap3 = "?ap2\<lparr>ap_stage := fs, ap_engine := en\<rparr>"
    have 3: "stays_blind 0 ap ?ap3" by (rule stays_blind_after [OF 2 run_bar_stays [where tf = tf]]) (use run in simp_all)
    show ?thesis
    proof (cases "\<exists>sig. out = Inr (Some sig)")
      case True
      then obtain sig where sig: "out = Inr (Some sig)" by blast
      have h: "handle_signal cfg i symbol sig ?ap3 s = (r, ap', s')"
        using assms(4) k c run sig by (cases "in_check i") (simp add: turn_def Let_def)
      have "stays_blind (if filled r then 1 else 0) ap ap'"
        by (rule stays_blind_before [OF 3 handle_signal_stays [OF _ assms(2,3) h]])
      then show ?thesis using run_bar_slot [OF run [unfolded sig]] by (simp add: open_count_def max_open_def)
    next
      case False
      have "r = None \<and> ap' = ?ap3"
        using assms(4) k c run False by (cases "in_check i") (auto simp: turn_def Let_def split: sum.splits option.splits)
      then show ?thesis using 3 by (simp add: filled_def)
    qed
  next
    case False
    have "r = None \<and> (ap' = ?ap1 \<or> ap' = ?ap1\<lparr>ap_bar_counter := Suc (ap_bar_counter ?ap1)\<rparr>)"
      using assms(4) k False
      by (cases "in_check i") (auto simp: turn_def Let_def split: sum.splits bool.splits message.splits if_splits prod.splits)
    then show ?thesis using 1 by (auto simp: filled_def blind_defs)
  qed
qed

text \<open>An iteration that does anything to the far side has handled a signal.\<close>

lemma turn_cases:
  assumes "turn cfg i ap s = (r, ap', s')" "ks_is_active (fst (in_check i)) (snd (in_check i)) (ap_kill ap) = (x, ks)"
  shows "r = None \<and> s' = s \<or>
    (\<exists>why symbol tf b sig fs en. x = Inr (False, why) \<and>
       run_bar (in_env i) symbol tf b (ap_stage ap, ap_engine ap) = (Inr (Some sig), fs, en) \<and>
       handle_signal cfg i symbol sig
         (ap\<lparr>ap_kill := ks, ap_bar_counter := Suc (ap_bar_counter ap), ap_stage := fs, ap_engine := en\<rparr>) s = (r, ap', s'))"
  using assms
  by (cases "in_check i")
    (auto simp: turn_def Let_def split: sum.splits bool.splits message.splits if_splits prod.splits option.splits)

text \<open>An invariant of single iterations carries over to runs of the loop.\<close>

lemma turns_stay:
  assumes "blind ap" "0 < st_max_daily_loss_pct cfg" "0 < st_max_drawdown_pct cfg" "turns cfg is ap s = (rs, ap', s')"
  shows "stays_blind (length (filter filled rs)) ap ap' \<and> int (open_count ap') \<le> max (max_open ap) (int (open_count ap))"
  using assms(1,4)
proof (induction "is" arbitrary: ap s rs)
  case Nil
  then show ?case by (auto simp: stays_blind_refl)
next
  case (Cons i "is")
  obtain r ap1 s1 where t: "turn cfg i ap s = (r, ap1, s1)" by (metis prod.exhaust)
  obtain rs1 where u: "turns cfg is ap1 s1 = (rs1, ap', s')" and rs: "rs = r # rs1"
    using Cons.prems(2) t by (auto split: prod.splits)
  note T = turn_stays [OF Cons.prems(1) assms(2,3) t]
  then have "blind ap1" by (simp add: stays_blind_def)
  from Cons.IH [OF this u] T show ?case
    by (cases "filled r") (auto simp: rs stays_blind_def)
qed

section \<open>Properties\<close>

text \<open>
  C10. An order leaves the engine only through two checks of the kill switch: an iteration that reaches the bridge has
  found the switch inactive both before it read the bar and after the automatic check, and the drawdown on the books was
  below its limit, whatever the bar, the signal and the far side are. The automatic check counts as long as the second look
  at the switch falls within the life of the cache.
\<close>

theorem orders_pass_both_checks:
  assumes "flt_round (fst (in_recheck i) - fst (in_auto i)) < ks_cache_ttl (ap_kill ap)"
  shows "case turn cfg i ap s of (r, ap', s') \<Rightarrow>
     r = None \<and> s' = s \<or>
     (case in_check i of (now, reply) \<Rightarrow> case ks_is_active now reply (ap_kill ap) of (x, ks) \<Rightarrow>
        (\<exists>why. x = Inr (False, why)) \<and> pf_current_drawdown_pct (en_portfolio (ap_engine ap)) < st_max_drawdown_pct cfg \<and>
        (case in_recheck i of (now', reply') \<Rightarrow> \<exists>why. fst (ks_is_active now' reply' ks) = Inr (False, why)))"
proof -
  obtain now reply where n: "in_check i = (now, reply)" by fastforce
  obtain x ks where k: "ks_is_active now reply (ap_kill ap) = (x, ks)" by fastforce
  obtain r ap' s' where t: "turn cfg i ap s = (r, ap', s')" by (metis prod.exhaust)
  obtain now' reply' where n': "in_recheck i = (now', reply')" by fastforce
  obtain auto wall where a: "in_auto i = (auto, wall)" by fastforce
  have ttl: "ks_cache_ttl ks = ks_cache_ttl (ap_kill ap)" using is_active_frame(2) [OF k] .
  show ?thesis
  proof (cases "r = None \<and> s' = s")
    case False
    then obtain why symbol tf b sig fs en where x: "x = Inr (False, why)"
      and run: "run_bar (in_env i) symbol tf b (ap_stage ap, ap_engine ap) = (Inr (Some sig), fs, en)"
      and h: "handle_signal cfg i symbol sig
          (ap\<lparr>ap_kill := ks, ap_bar_counter := Suc (ap_bar_counter ap), ap_stage := fs, ap_engine := en\<rparr>) s = (r, ap', s')"
      using turn_cases [OF t] n k by auto
    obtain st pf where g: "get_state (in_today i) (en_portfolio en) = (st, pf)" by fastforce
    have dd: "gs_current_drawdown_pct st = pf_current_drawdown_pct (en_portfolio (ap_engine ap))"
      using g run_bar_books(1) [OF run] by (auto simp: get_state_def check_daily_reset_def books_kept_def Let_def)
    let ?ks2 = "auto_check (in_dstr i) auto wall (gs_daily_loss_pct st) (st_max_daily_loss_pct cfg)
                  (gs_current_drawdown_pct st) (st_max_drawdown_pct cfg) ks"
    have act: "\<exists>why. fst (ks_is_active now' reply' ?ks2) = Inr (False, why)"
    proof (rule ccontr)
      assume no: "\<not> ?thesis"
      obtain y ks3 where y: "ks_is_active now' reply' ?ks2 = (y, ks3)" by fastforce
      have "r = None \<and> s' = s"
        using h no y by (auto simp: handle_signal_def auto_check_app_def set_portfolio_def g a n' Let_def
            split: sum.splits bool.splits)
      then show False using False by blast
    qed
    have trig: "fst (ks_is_active now' reply' (trigger auto wall u v w ks)) = Inr (True, u)" for u v w
      using assms ttl by (simp add: ks_is_active_def trigger_def a n' ks_activate_def append_audit_def Let_def)
    have "gs_current_drawdown_pct st < st_max_drawdown_pct cfg \<and> ?ks2 = ks"
      using act trig by (auto simp: auto_check_def split: if_splits)
    then show ?thesis using t n k x n' act dd by simp
  qed (use t in simp)
qed

text \<open>
  Samples: a service that has just connected, and the answers it gets from a Redis server whose flag is clear (or set).
\<close>

definition sample_settings :: settings where
  "sample_settings = \<lparr>st_max_daily_loss_pct = 2, st_max_drawdown_pct = 5\<rparr>"

definition sample_stage :: feature_stage where
  "sample_stage = \<lparr>fs_mtf = new_mtf_analyzer ''M5'', fs_pipeline = new_feature_pipeline 14 12 26 20 14, fs_scorer = False, fs_confirmation = False,
     fs_tuner = None\<rparr>"

definition sample_app :: app where
  "sample_app =
     \<lparr>ap_bar_counter = 0, ap_kill = ks_connect 0 True (new_kill_switch 1), ap_stage = sample_stage, ap_engine = demo_engine,
      ap_audit = new_pg_trail ''algo-engine'' False 1000, ap_bridge = Some sample_client,
      ap_alerts = new_dispatcher 30 5\<rparr>"

definition sample_inputs :: "bool option \<Rightarrow> message \<Rightarrow> far_side inputs" where
  "sample_inputs flag msg =
     \<lparr>in_check = (2, Payload flag None), in_message = msg, in_env = demo_env, in_today = ''2024-01-01'', in_auto = (4, 4),
      in_recheck = (4, Payload flag None), in_generated_text = (\<lambda>_. ''{}''), in_generated_at = ''t1'',
      in_rpc = bridge_rpc sample_attempts (\<lambda>_. False), in_send_now = 4, in_failed_at = of_nat,
      in_dispatched_text = (\<lambda>_ _. ''{}''), in_dispatched_at = ''t2'', in_opened_text = (\<lambda>_. ''opened''), in_alert_at = 100,
      in_trade_at = 100, in_today' = ''2024-01-01'', in_enforce = (5, 5), in_dstr = (\<lambda>_. []), in_reason = (\<lambda>_ _ _ _. [])\<rparr>"

lemma sample_blind: "blind sample_app"
  by (simp add: blind_def sample_app_def demo_engine_def new_portfolio_def new_pg_trail_def sample_client_def
      connect_bridge_def new_bridge_client_def)

text \<open>A signal that is handled: it is sent, filled and booked.\<close>

lemma sample_sent:
  "\<exists>d sv'. send_signal (bridge_rpc sample_attempts (\<lambda>_. False)) 4 of_nat sample_trading_signal sample_client (sample_bridge, []) =
     ([], Inr d, sample_client, sv', [sample_request ''s1'']) \<and> ed_status d = ''FILLED''"
proof -
  let ?q = "signal_to_proto sample_trading_signal"
  have c: "\<not> circuit_open 4 sample_client" "record_success sample_client = sample_client"
    by (simp_all add: sample_client_def connect_bridge_def new_bridge_client_def circuit_open_def CB_FAILURE_THRESHOLD_def
        record_success_def)
  obtain e sv' where "ExecuteTrade (sample_attempts 1) ?q sample_bridge = ([sample_request ''s1''], Inr e, sv')" "te_status e = 2"
    using sample_first_attempt
    by (simp add: ExecuteTrade_def forward_trade_def execute_trade_def sample_bridge_def to_execution_def sample_fill_def Let_def)
  then show ?thesis
    using c sample_client_ready(1)
    by (simp add: send_signal_def send_attempts_more bridge_rpc_def execution_to_dict_def STATUS_MAP_def)
qed

lemma sample_handled:
  "\<exists>d ap' sv'. handle_signal sample_settings (sample_inputs (Some False) ShortFrame) ''EURUSD'' sample_trading_signal sample_app
       (sample_bridge, []) = (Some (Inr d), ap', sv', [sample_request ''s1'']) \<and> ed_status d = ''FILLED'' \<and>
     open_count ap' = open_count sample_app + 1"
proof -
  let ?i = "sample_inputs (Some False) ShortFrame"
  obtain r ap' sv' placed where
    h: "handle_signal sample_settings ?i ''EURUSD'' sample_trading_signal sample_app (sample_bridge, []) = (r, ap', sv', placed)"
    by (metis prod.exhaust)
  have pos: "0 < st_max_daily_loss_pct sample_settings" "0 < st_max_drawdown_pct sample_settings"
    by (simp_all add: sample_settings_def)
  obtain d sv1 where s: "send_signal (bridge_rpc sample_attempts (\<lambda>_. False)) 4 of_nat sample_trading_signal sample_client
      (sample_bridge, []) = ([], Inr d, sample_client, sv1, [sample_request ''s1''])" "ed_status d = ''FILLED''"
    using sample_sent by blast
  have "r = Some (Inr d) \<and> placed = [sample_request ''s1'']"
    using h unfolding handle_signal_def auto_check_idle [OF sample_blind pos]
    by (simp add: sample_app_def set_portfolio_def sample_inputs_def ks_connect_def new_kill_switch_def ks_is_active_def
        refresh_cache_def num_eval audit_log_def audit_persist_def new_pg_trail_def dispatch_signal_def sample_client_ready(1) s
        Let_def split: prod.splits)
  moreover have "filled r \<longrightarrow> open_count ap' = open_count sample_app + 1"
    using handle_signal_stays [OF sample_blind pos h] by (simp add: stays_blind_def)
  ultimately show ?thesis using h s(2) by (simp add: filled_def)
qed

text \<open>A drawdown over the limit on the books: nothing leaves, although Redis reports the switch as inactive.\<close>

theorem orders_pass_both_checks_witness:
  "\<exists>ap' far. turn sample_settings (sample_inputs (Some False) (Frames ''bar.EURUSD'' (Inr (''EURUSD'', ''M5'', demo_bar))))
     (set_portfolio ((new_portfolio ''d'')\<lparr>pf_current_drawdown_pct := 6\<rparr>) sample_app) (sample_bridge, []) = (None, ap', far) \<and>
     far = (sample_bridge, [])"
proof -
  let ?i = "sample_inputs (Some False) (Frames ''bar.EURUSD'' (Inr (''EURUSD'', ''M5'', demo_bar)))"
  let ?ap = "set_portfolio ((new_portfolio ''d'')\<lparr>pf_current_drawdown_pct := 6\<rparr>) sample_app"
  obtain r ap' far where t: "turn sample_settings ?i ?ap (sample_bridge, []) = (r, ap', far)" by (metis prod.exhaust)
  have "flt_round (fst (in_recheck ?i) - fst (in_auto ?i)) < ks_cache_ttl (ap_kill ?ap)"
    by (simp add: sample_inputs_def set_portfolio_def sample_app_def ks_connect_def new_kill_switch_def num_eval)
  from orders_pass_both_checks [where cfg = sample_settings and i = ?i and ap = ?ap and s = "(sample_bridge, [])", OF this] have "r = None \<and> far = (sample_bridge, [])"
    unfolding t by (simp add: sample_settings_def set_portfolio_def split: prod.splits)
  then show ?thesis using t by blast
qed

text \<open>
  The risk feedback is dead: however long the service runs and whatever bars, signals, fills, losses and clocks it meets,
  from a fresh start the drawdown, the daily loss and the equity on its books never move, so that neither the automatic check
  nor the drawdown enforcer ever activates the kill switch (its log stays as it was), and the open-position counter counts the
  fills since the start, since no close is ever booked.
\<close>

theorem risk_feedback_is_dead:
  assumes "blind ap" "0 < st_max_daily_loss_pct cfg" "0 < st_max_drawdown_pct cfg" "turns cfg is ap s = (rs, ap', s')"
  shows "pf_current_drawdown_pct (en_portfolio (ap_engine ap')) = 0 \<and> pf_daily_loss_pct (en_portfolio (ap_engine ap')) = 0 \<and>
     pf_equity (en_portfolio (ap_engine ap')) = 1000 \<and> ks_audit_log (ap_kill ap') = ks_audit_log (ap_kill ap) \<and>
     open_count ap' = open_count ap + length (filter filled rs)"
  using turns_stay [OF assms] by (simp add: stays_blind_def blind_def)

theorem risk_feedback_is_dead_witness:
  "\<exists>rs ap' s'. turns sample_settings [sample_inputs None ShortFrame, sample_inputs (Some False)
       (Frames ''bar.EURUSD'' (Inr (''EURUSD'', ''M5'', demo_bar)))] sample_app (sample_bridge, []) = (rs, ap', s') \<and>
     pf_current_drawdown_pct (en_portfolio (ap_engine ap')) = 0 \<and> ks_audit_log (ap_kill ap') = []"
proof -
  obtain rs ap' s' where t: "turns sample_settings [sample_inputs None ShortFrame, sample_inputs (Some False)
       (Frames ''bar.EURUSD'' (Inr (''EURUSD'', ''M5'', demo_bar)))] sample_app (sample_bridge, []) = (rs, ap', s')"
    by (metis prod.exhaust)
  have "ks_audit_log (ap_kill sample_app) = []" by (simp add: sample_app_def ks_connect_def new_kill_switch_def)
  then show ?thesis
    using risk_feedback_is_dead [OF sample_blind _ _ t] t by (auto simp: sample_settings_def)
qed

text \<open>
  C34. The engine falls silent: the positions it may fill between two restarts are bounded by the configured maximum of
  simultaneously open positions, because the counter the validator compares with that maximum never comes down.
\<close>

theorem fills_until_restart_bounded:
  assumes "blind ap" "0 < st_max_daily_loss_pct cfg" "0 < st_max_drawdown_pct cfg" "turns cfg is ap s = (rs, ap', s')"
  shows "int (open_count ap + length (filter filled rs)) \<le>
     max (v_max_open_positions (en_validator (ap_engine ap))) (int (open_count ap))"
  using turns_stay [OF assms] by (simp add: stays_blind_def max_open_def)

theorem fills_until_restart_bounded_witness:
  "\<exists>rs ap' s'. turns sample_settings [sample_inputs (Some False) (Frames ''bar.EURUSD'' (Inr (''EURUSD'', ''M5'', demo_bar)))]
       sample_app (sample_bridge, []) = (rs, ap', s') \<and> int (length (filter filled rs)) \<le> 5"
proof -
  obtain rs ap' s' where t: "turns sample_settings [sample_inputs (Some False) (Frames ''bar.EURUSD'' (Inr (''EURUSD'', ''M5'', demo_bar)))]
       sample_app (sample_bridge, []) = (rs, ap', s')" by (metis prod.exhaust)
  have "v_max_open_positions (en_validator (ap_engine sample_app)) = 5" "open_count sample_app = 0"
    by (simp_all add: sample_app_def demo_engine_def sample_validator_def open_count_def new_portfolio_def)
  then show ?thesis
    using fills_until_restart_bounded [OF sample_blind _ _ t] t by (auto simp: sample_settings_def)
qed

end
