(* ===== verification/Trade_Simulator.thy ===== *)
theory Trade_Simulator
  imports Market_Types "HOL-Library.Multiset"
begin

text \<open>
  \<open>backtesting/simulator.py\<close>: simulated fills with spread, slippage and commission, stop and target hits
  per bar, the equity curve and the trade log. The random position id is an argument of the fill.
\<close>

section \<open>State\<close>

record open_position =
  op_id :: string
  op_signal_id :: string
  op_symbol :: string
  op_direction :: string
  op_entry_price :: decimal
  op_stop_loss :: decimal
  op_take_profit :: decimal
  op_lots :: decimal
  op_entry_timestamp :: int
  op_commission :: decimal

record closed_trade =
  tr_position :: open_position
  tr_exit_price :: decimal
  tr_pnl :: decimal
  tr_exit_timestamp :: int
  tr_exit_reason :: string

record simulator =
  sm_initial_equity :: decimal
  sm_spread_pips :: decimal
  sm_slippage_pips :: decimal
  sm_commission_per_lot :: decimal
  sm_pip_value :: decimal
  sm_equity :: decimal
  sm_open :: "open_position list"
  sm_curve :: "decimal list"
  sm_log :: "closed_trade list"

definition new_simulator :: "decimal \<Rightarrow> decimal \<Rightarrow> decimal \<Rightarrow> decimal \<Rightarrow> decimal \<Rightarrow> simulator" where
  "new_simulator initial spread slippage commission pip =
     \<lparr>sm_initial_equity = initial, sm_spread_pips = spread, sm_slippage_pips = slippage,
      sm_commission_per_lot = commission, sm_pip_value = pip, sm_equity = initial, sm_open = [],
      sm_curve = [initial], sm_log = []\<rparr>"

section \<open>Fills\<close>

definition fill_price :: "simulator \<Rightarrow> decimal \<Rightarrow> string \<Rightarrow> decimal result" where
  "fill_price sm signal_price dir =
     rbind (quantize 8 (dec_div (dec_mul (sm_spread_pips sm) (sm_pip_value sm)) 2)) (\<lambda>half_spread.
       let slippage = dec_mul (sm_slippage_pips sm) (sm_pip_value sm)
       in Inr (if dir = ''BUY'' \<or> dir = ''Direction.BUY''
               then dec_add (dec_add signal_price half_spread) slippage
               else dec_sub (dec_sub signal_price half_spread) slippage))"

text \<open>The direction is \<open>str()\<close> of the enumeration member; missing lots default to 0.01.\<close>

definition open_sim_position :: "string \<Rightarrow> trading_signal \<Rightarrow> ohlcv \<Rightarrow> simulator \<Rightarrow> unit result \<times> simulator" where
  "open_sim_position uuid sig b sm =
     (let dir = direction_str (sig_direction sig); lots = opt_get (sig_lots sig) (1 / 100)
      in case rbind (fill_price sm (sig_entry_price sig) dir) (\<lambda>fill.
              rbind (quantize 2 (dec_mul (sm_commission_per_lot sm) lots)) (\<lambda>commission. Inr (fill, commission))) of
           Inl e \<Rightarrow> (Inl e, sm)
         | Inr (fill, commission) \<Rightarrow>
             (Inr (), sm\<lparr>sm_equity := dec_sub (sm_equity sm) commission,
                sm_open := sm_open sm @
                  [\<lparr>op_id = uuid, op_signal_id = signal_id sig, op_symbol = sig_symbol sig, op_direction = dir,
                    op_entry_price = fill, op_stop_loss = sig_stop_loss sig, op_take_profit = sig_take_profit sig,
                    op_lots = lots, op_entry_timestamp = bar_timestamp b, op_commission = commission\<rparr>]\<rparr>))"

definition sim_is_buy :: "string \<Rightarrow> bool" where
  "sim_is_buy dir = str_contains ''BUY'' (str_upper dir)"

definition opposite_direction :: "string \<Rightarrow> string" where
  "opposite_direction dir = (if sim_is_buy dir then ''SELL'' else ''BUY'')"

section \<open>Exits\<close>

definition calculate_pnl :: "simulator \<Rightarrow> open_position \<Rightarrow> decimal \<Rightarrow> decimal result" where
  "calculate_pnl sm pos exit_price =
     (let price_diff = (if sim_is_buy (op_direction pos) then dec_sub exit_price (op_entry_price pos)
                        else dec_sub (op_entry_price pos) exit_price)
      in rbind (dec_div_checked price_diff (sm_pip_value sm)) (\<lambda>pips.
           quantize 2 (dec_mul (dec_mul pips 10) (op_lots pos))))"

definition close_sim_position ::
  "open_position \<Rightarrow> decimal \<Rightarrow> string \<Rightarrow> int \<Rightarrow> simulator \<Rightarrow> unit result \<times> simulator" where
  "close_sim_position pos exit_price reason t sm =
     (case calculate_pnl sm pos exit_price of
        Inl e \<Rightarrow> (Inl e, sm)
      | Inr pnl \<Rightarrow>
          (Inr (), sm\<lparr>sm_equity := dec_add (sm_equity sm) pnl,
             sm_log := sm_log sm @
               [\<lparr>tr_position = pos, tr_exit_price = exit_price, tr_pnl = pnl, tr_exit_timestamp = t, tr_exit_reason = reason\<rparr>]\<rparr>))"

text \<open>The exit of a position on a bar: the stop first, then the target.\<close>

definition exit_on_bar :: "ohlcv \<Rightarrow> open_position \<Rightarrow> (decimal \<times> string) option" where
  "exit_on_bar b pos =
     (let sl = op_stop_loss pos; tp = op_take_profit pos
      in if sim_is_buy (op_direction pos)
         then if 0 < sl \<and> bar_low b \<le> sl then Some (sl, ''stop_loss'')
              else if 0 < tp \<and> tp \<le> bar_high b then Some (tp, ''take_profit'') else None
         else if 0 < sl \<and> sl \<le> bar_high b then Some (sl, ''stop_loss'')
              else if 0 < tp \<and> bar_low b \<le> tp then Some (tp, ''take_profit'') else None)"

text \<open>The loop over the positions; an exception leaves what was closed before it recorded.\<close>

fun close_hits :: "ohlcv \<Rightarrow> open_position list \<Rightarrow> simulator \<Rightarrow> unit result \<times> simulator" where
  "close_hits b [] sm = (Inr (), sm)"
| "close_hits b (pos # ps) sm =
     (case exit_on_bar b pos of
        None \<Rightarrow> close_hits b ps sm
      | Some (price, reason) \<Rightarrow>
          (case close_sim_position pos price reason (bar_timestamp b) sm of
             (Inl e, sm) \<Rightarrow> (Inl e, sm)
           | (Inr u, sm) \<Rightarrow> close_hits b ps sm))"

definition sim_process_bar :: "ohlcv \<Rightarrow> simulator \<Rightarrow> unit result \<times> simulator" where
  "sim_process_bar b sm =
     (case close_hits b (sm_open sm) sm of
        (Inl e, sm) \<Rightarrow> (Inl e, sm)
      | (Inr u, sm) \<Rightarrow>
          (Inr (), sm\<lparr>sm_open := filter (\<lambda>p. exit_on_bar b p = None) (sm_open sm), sm_curve := sm_curve sm @ [sm_equity sm]\<rparr>))"

fun close_each :: "ohlcv \<Rightarrow> open_position list \<Rightarrow> simulator \<Rightarrow> unit result \<times> simulator" where
  "close_each b [] sm = (Inr (), sm)"
| "close_each b (pos # ps) sm =
     (case fill_price sm (bar_close b) (opposite_direction (op_direction pos)) of
        Inl e \<Rightarrow> (Inl e, sm)
      | Inr price \<Rightarrow>
          (case close_sim_position pos price ''end_of_backtest'' (bar_timestamp b) sm of
             (Inl e, sm) \<Rightarrow> (Inl e, sm)
           | (Inr u, sm) \<Rightarrow> close_each b ps sm))"

definition close_all_positions :: "ohlcv \<Rightarrow> simulator \<Rightarrow> unit result \<times> simulator" where
  "close_all_positions b sm =
     (case close_each b (sm_open sm) sm of
        (Inl e, sm) \<Rightarrow> (Inl e, sm)
      | (Inr u, sm) \<Rightarrow> (Inr (), sm\<lparr>sm_open := []\<rparr>))"

section \<open>Fills are against the trader\<close>

lemma direction_str_is_buy: "sim_is_buy (direction_str d) \<longleftrightarrow> d = BUY"
  by (cases d) (simp_all add: sim_is_buy_def direction_str_def str_upper_def upper_char_def str_starts_def)

lemma fill_price_adverse:
  assumes "fill_price sm price (direction_str d) = Inr fill" "d \<noteq> HOLD"
    and "0 \<le> sm_spread_pips sm" "0 \<le> sm_slippage_pips sm" "0 \<le> sm_pip_value sm" "dec_round price = price"
  shows "if d = BUY then price \<le> fill else fill \<le> price"
proof -
  have "0 \<le> dec_div (dec_mul (sm_spread_pips sm) (sm_pip_value sm)) 2"
    using assms(3,5) by (intro dec_div_nonneg dec_mul_nonneg) simp_all
  obtain hs where hs: "quantize 8 (dec_div (dec_mul (sm_spread_pips sm) (sm_pip_value sm)) 2) = Inr hs"
    and fill: "fill = (if d = BUY then dec_add (dec_add price hs) (dec_mul (sm_slippage_pips sm) (sm_pip_value sm))
                       else dec_sub (dec_sub price hs) (dec_mul (sm_slippage_pips sm) (sm_pip_value sm)))"
    using assms(1,2) by (cases d) (auto simp: fill_price_def Let_def direction_str_def)
  have "on_grid 8 0" by (rule on_gridI [of _ _ 0]) simp
  then have hs0: "0 \<le> hs" using quantize_ge [OF hs] \<open>0 \<le> dec_div _ 2\<close> by blast
  have sl0: "0 \<le> dec_mul (sm_slippage_pips sm) (sm_pip_value sm)" using assms(4,5) by (rule dec_mul_nonneg)
  have up: "price \<le> dec_add price hs" and down: "dec_sub price hs \<le> price"
    unfolding dec_add_def dec_sub_def using hs0 by (auto intro: dec.rnd_ge [OF assms(6)] dec.rnd_le [OF assms(6)])
  have fix_up: "dec_round (dec_add price hs) = dec_add price hs" and fix_down: "dec_round (dec_sub price hs) = dec_sub price hs"
    by (simp_all add: dec_add_def dec_sub_def dec.rnd_idem)
  have "dec_add price hs \<le> dec_add (dec_add price hs) (dec_mul (sm_slippage_pips sm) (sm_pip_value sm))"
    unfolding dec_add_def [of "dec_add price hs"] using sl0 by (intro dec.rnd_ge [OF fix_up]) simp
  moreover have "dec_sub (dec_sub price hs) (dec_mul (sm_slippage_pips sm) (sm_pip_value sm)) \<le> dec_sub price hs"
    unfolding dec_sub_def [of "dec_sub price hs"] using sl0 by (intro dec.rnd_le [OF fix_down]) simp
  ultimately show ?thesis using up down fill by auto
qed

section \<open>The ledger\<close>

text \<open>Amounts in cents below \<open>10^26\<close> are exact decimals, so that adding them does not round.\<close>

lemma dec_round_cents:
  assumes "on_grid 2 x" "\<bar>x\<bar> < 10 ^ 26"
  shows "dec_round x = x"
proof -
  obtain m where m: "x * 10 ^ 2 = of_int m" using assms(1) by (auto simp: on_grid_def)
  have "\<bar>of_int m :: rat\<bar> < 10 ^ 28" using assms(2) unfolding m [symmetric] by (simp add: abs_mult)
  then have "of_int \<bar>m\<bar> < (of_int (10 ^ 28) :: rat)" by simp
  then have "\<bar>m\<bar> < 10 ^ 28" by (simp only: of_int_less_iff)
  then show ?thesis using m by (intro dec_round_grid)
qed

definition total_pnl :: "closed_trade list \<Rightarrow> decimal" where
  "total_pnl ts = sum_list (map tr_pnl ts)"

definition abs_pnl :: "closed_trade list \<Rightarrow> decimal" where
  "abs_pnl ts = sum_list (map (\<lambda>t. \<bar>tr_pnl t\<bar>) ts)"

lemma pnl_simps [simp]:
  "total_pnl [] = 0" "total_pnl (ts @ us) = total_pnl ts + total_pnl us" "total_pnl (t # ts) = tr_pnl t + total_pnl ts"
  "abs_pnl [] = 0" "abs_pnl (ts @ us) = abs_pnl ts + abs_pnl us" "abs_pnl (t # ts) = \<bar>tr_pnl t\<bar> + abs_pnl ts"
  by (simp_all add: total_pnl_def abs_pnl_def)

lemma abs_pnl_nonneg [simp]: "0 \<le> abs_pnl ts"
  unfolding abs_pnl_def by (rule sum_list_nonneg) auto

text \<open>What a batch of closes does: new trades in order, and the equity moves by their exact sum.\<close>

definition closes :: "simulator \<Rightarrow> simulator \<Rightarrow> closed_trade list \<Rightarrow> bool" where
  "closes sm sm' ts \<longleftrightarrow>
     sm' = sm\<lparr>sm_equity := sm_equity sm', sm_log := sm_log sm @ ts\<rparr> \<and> (\<forall>t\<in>set ts. on_grid 2 (tr_pnl t)) \<and>
     (on_grid 2 (sm_equity sm) \<and> \<bar>sm_equity sm\<bar> + abs_pnl ts < 10 ^ 26 \<longrightarrow>
        sm_equity sm' = sm_equity sm + total_pnl ts \<and> on_grid 2 (sm_equity sm'))"

lemma closes_refl: "closes sm sm []"
  by (simp add: closes_def)

lemma close_sim_position_closes:
  assumes "close_sim_position pos price reason t sm = (Inr u, sm')"
  shows "\<exists>tr. closes sm sm' [tr] \<and> tr_position tr = pos"
proof -
  obtain pnl where pnl: "calculate_pnl sm pos price = Inr pnl"
    and sm': "sm' = sm\<lparr>sm_equity := dec_add (sm_equity sm) pnl,
       sm_log := sm_log sm @ [\<lparr>tr_position = pos, tr_exit_price = price, tr_pnl = pnl, tr_exit_timestamp = t, tr_exit_reason = reason\<rparr>]\<rparr>"
    using assms by (auto simp: close_sim_position_def split: sum.splits)
  have g: "on_grid 2 pnl" using pnl by (auto simp: calculate_pnl_def Let_def dest: quantize_grid)
  have "dec_round (sm_equity sm + pnl) = sm_equity sm + pnl \<and> on_grid 2 (sm_equity sm + pnl)"
    if "on_grid 2 (sm_equity sm)" "\<bar>sm_equity sm\<bar> + \<bar>pnl\<bar> < 10 ^ 26"
    using that g by (auto intro!: dec_round_cents on_grid_add)
  then show ?thesis unfolding closes_def sm' using g by (auto simp: dec_add_def)
qed

lemma abs_total_pnl: "\<bar>total_pnl ts\<bar> \<le> abs_pnl ts"
  by (induction ts) auto

lemma closes_trans:
  assumes "closes sm sm1 ts" "closes sm1 sm2 us"
  shows "closes sm sm2 (ts @ us)"
proof -
  have log: "sm_log sm1 = sm_log sm @ ts"
    using arg_cong [OF assms(1) [unfolded closes_def, THEN conjunct1], of sm_log] by simp
  have "sm2 = sm1\<lparr>sm_equity := sm_equity sm2, sm_log := sm_log sm1 @ us\<rparr>"
    using assms(2) by (simp add: closes_def)
  also have "\<dots> = sm\<lparr>sm_equity := sm_equity sm2, sm_log := sm_log sm @ ts @ us\<rparr>"
    by (subst assms(1) [unfolded closes_def, THEN conjunct1]) (simp add: log)
  finally have 1: "sm2 = sm\<lparr>sm_equity := sm_equity sm2, sm_log := sm_log sm @ ts @ us\<rparr>" .
  have 2: "\<forall>t\<in>set (ts @ us). on_grid 2 (tr_pnl t)"
    using assms by (auto simp: closes_def)
  have 3: "sm_equity sm2 = sm_equity sm + total_pnl (ts @ us) \<and> on_grid 2 (sm_equity sm2)"
    if h: "on_grid 2 (sm_equity sm)" "\<bar>sm_equity sm\<bar> + abs_pnl (ts @ us) < 10 ^ 26"
  proof -
    have l: "\<bar>sm_equity sm\<bar> + abs_pnl ts < 10 ^ 26" using h(2) abs_pnl_nonneg [of us] unfolding pnl_simps by linarith
    then have "sm_equity sm1 = sm_equity sm + total_pnl ts \<and> on_grid 2 (sm_equity sm1)"
      using assms(1) h(1) unfolding closes_def by blast
    then have e: "sm_equity sm1 = sm_equity sm + total_pnl ts" "on_grid 2 (sm_equity sm1)" by blast+
    have "\<bar>sm_equity sm1\<bar> + abs_pnl us < 10 ^ 26"
      using h(2) abs_total_pnl [of ts] unfolding e(1) pnl_simps by linarith
    then show ?thesis using assms(2) e(2) unfolding closes_def pnl_simps e(1) by (metis add.assoc)
  qed
  show ?thesis unfolding closes_def using 1 2 3 by blast
qed

lemma close_hits_closes:
  assumes "close_hits b ps sm = (Inr u, sm')"
  shows "\<exists>ts. closes sm sm' ts \<and> map tr_position ts = filter (\<lambda>p. exit_on_bar b p \<noteq> None) ps"
  using assms
proof (induction ps arbitrary: sm)
  case Nil
  then have "closes sm sm' [] \<and> map tr_position [] = []" by (simp add: closes_refl)
  then show ?case by fastforce
next
  case (Cons p ps)
  show ?case
  proof (cases "exit_on_bar b p")
    case None
    then show ?thesis using Cons by simp
  next
    case (Some pr)
    then obtain price reason where pr: "exit_on_bar b p = Some (price, reason)" by (cases pr) auto
    then obtain v sm1 where c: "close_sim_position p price reason (bar_timestamp b) sm = (Inr v, sm1)"
      and r: "close_hits b ps sm1 = (Inr u, sm')" using Cons.prems by (auto split: prod.splits sum.splits)
    obtain tr where tr: "closes sm sm1 [tr]" "tr_position tr = p" using close_sim_position_closes [OF c] by blast
    obtain ts where ts: "closes sm1 sm' ts" "map tr_position ts = filter (\<lambda>p. exit_on_bar b p \<noteq> None) ps"
      using Cons.IH [OF r] by blast
    have "closes sm sm' ([tr] @ ts)" using tr(1) ts(1) by (rule closes_trans)
    then show ?thesis using tr(2) ts(2) pr by (intro exI [of _ "tr # ts"]) simp
  qed
qed

lemma close_each_closes:
  assumes "close_each b ps sm = (Inr u, sm')"
  shows "\<exists>ts. closes sm sm' ts \<and> map tr_position ts = ps"
  using assms
proof (induction ps arbitrary: sm)
  case Nil
  then have "closes sm sm' [] \<and> map tr_position [] = []" by (simp add: closes_refl)
  then show ?case by fastforce
next
  case (Cons p ps)
  then obtain price v sm1 where c: "close_sim_position p price ''end_of_backtest'' (bar_timestamp b) sm = (Inr v, sm1)"
    and r: "close_each b ps sm1 = (Inr u, sm')" by (auto split: prod.splits sum.splits)
  obtain tr where tr: "closes sm sm1 [tr]" "tr_position tr = p" using close_sim_position_closes [OF c] by blast
  obtain ts where ts: "closes sm1 sm' ts" "map tr_position ts = ps" using Cons.IH [OF r] by blast
  have "closes sm sm' ([tr] @ ts)" using tr(1) ts(1) by (rule closes_trans)
  then show ?case using tr(2) ts(2) by (intro exI [of _ "tr # ts"]) simp
qed

text \<open>
  The books of a simulator: every position ever opened is either still open or in the trade log, and the equity is
  the initial equity plus the profits of the log minus the commissions of all positions. The sums are exact as long
  as the amounts together stay below \<open>10^26\<close>.
\<close>

definition booked :: "simulator \<Rightarrow> open_position list" where
  "booked sm = map tr_position (sm_log sm) @ sm_open sm"

definition commissions :: "open_position multiset \<Rightarrow> decimal" where
  "commissions M = sum_mset (image_mset op_commission M)"

definition turnover :: "simulator \<Rightarrow> decimal" where
  "turnover sm = \<bar>sm_initial_equity sm\<bar> + abs_pnl (sm_log sm) + sum_mset (image_mset (\<lambda>p. \<bar>op_commission p\<bar>) (mset (booked sm)))"

definition ledger :: "simulator \<Rightarrow> bool" where
  "ledger sm \<longleftrightarrow>
     (\<forall>p\<in>#mset (booked sm). on_grid 2 (op_commission p)) \<and>
     (on_grid 2 (sm_initial_equity sm) \<and> turnover sm < 10 ^ 26 \<longrightarrow>
        on_grid 2 (sm_equity sm) \<and>
        sm_equity sm = sm_initial_equity sm + total_pnl (sm_log sm) - commissions (mset (booked sm)))"

lemma ledger_new: "ledger (new_simulator initial spread slippage commission pip)"
  by (simp add: ledger_def new_simulator_def booked_def commissions_def)

lemma abs_commissions: "\<bar>commissions M\<bar> \<le> sum_mset (image_mset (\<lambda>p. \<bar>op_commission p\<bar>) M)"
  unfolding commissions_def by (induction M) auto

lemma ledger_closes:
  assumes "ledger sm" "closes sm sm' ts" "mset (map tr_position ts) + mset still = mset (sm_open sm)"
  shows "ledger (sm'\<lparr>sm_open := still, sm_curve := c\<rparr>)"
proof -
  define sm'' where "sm'' = sm'\<lparr>sm_open := still, sm_curve := c\<rparr>"
  have fields: "sm_log sm' = sm_log sm @ ts" "sm_initial_equity sm' = sm_initial_equity sm"
    using arg_cong [OF assms(2) [unfolded closes_def, THEN conjunct1], of sm_log]
      arg_cong [OF assms(2) [unfolded closes_def, THEN conjunct1], of sm_initial_equity] by simp_all
  have same: "mset (booked sm'') = mset (booked sm)"
    using assms(3) by (simp add: booked_def sm''_def fields add.assoc)
  have turn: "turnover sm'' = turnover sm + abs_pnl ts"
    unfolding turnover_def same by (simp add: sm''_def fields)
  have "on_grid 2 (sm_equity sm'') \<and>
      sm_equity sm'' = sm_initial_equity sm'' + total_pnl (sm_log sm'') - commissions (mset (booked sm''))"
    if h: "on_grid 2 (sm_initial_equity sm'')" "turnover sm'' < 10 ^ 26"
  proof -
    have g: "on_grid 2 (sm_initial_equity sm)" "turnover sm + abs_pnl ts < 10 ^ 26"
      using h by (simp_all only: turn) (simp add: sm''_def fields)
    then have "turnover sm < 10 ^ 26" using abs_pnl_nonneg [of ts] by linarith
    then have e: "on_grid 2 (sm_equity sm)"
        "sm_equity sm = sm_initial_equity sm + total_pnl (sm_log sm) - commissions (mset (booked sm))"
      using assms(1) g(1) unfolding ledger_def by blast+
    have "\<bar>sm_equity sm\<bar> \<le> turnover sm"
      unfolding e(2) turnover_def using abs_total_pnl [of "sm_log sm"] abs_commissions [of "mset (booked sm)"] by linarith
    then have "\<bar>sm_equity sm\<bar> + abs_pnl ts < 10 ^ 26" using g(2) by linarith
    then have "sm_equity sm' = sm_equity sm + total_pnl ts \<and> on_grid 2 (sm_equity sm')"
      using assms(2) e(1) unfolding closes_def by blast
    then have "on_grid 2 (sm_equity sm')"
        "sm_equity sm' = sm_initial_equity sm + total_pnl (sm_log sm) - commissions (mset (booked sm)) + total_pnl ts"
      unfolding e(2) [symmetric] by blast+
    then show ?thesis unfolding same by (simp add: sm''_def fields)
  qed
  then show ?thesis using assms(1) unfolding ledger_def sm''_def [symmetric] same by blast
qed

lemma sim_process_bar_books:
  assumes "sim_process_bar b sm = (Inr u, sm')" "ledger sm"
  shows "ledger sm'" "mset (booked sm') = mset (booked sm)"
proof -
  obtain v sm1 where c: "close_hits b (sm_open sm) sm = (Inr v, sm1)"
    and sm': "sm' = sm1\<lparr>sm_open := filter (\<lambda>p. exit_on_bar b p = None) (sm_open sm1), sm_curve := sm_curve sm1 @ [sm_equity sm1]\<rparr>"
    using assms(1) by (auto simp: sim_process_bar_def split: prod.splits sum.splits)
  obtain ts where ts: "closes sm sm1 ts" "map tr_position ts = filter (\<lambda>p. exit_on_bar b p \<noteq> None) (sm_open sm)"
    using close_hits_closes [OF c] by blast
  have "sm_open sm1 = sm_open sm" "sm_log sm1 = sm_log sm @ ts"
    using arg_cong [OF ts(1) [unfolded closes_def, THEN conjunct1], of sm_open]
      arg_cong [OF ts(1) [unfolded closes_def, THEN conjunct1], of sm_log] by simp_all
  moreover have split: "mset (map tr_position ts) + mset (filter (\<lambda>p. exit_on_bar b p = None) (sm_open sm)) = mset (sm_open sm)"
    unfolding ts(2) using multiset_partition [of "mset (sm_open sm)" "\<lambda>p. exit_on_bar b p \<noteq> None"] by simp
  ultimately show "ledger sm'" "mset (booked sm') = mset (booked sm)"
    unfolding sm' using ledger_closes [OF assms(2) ts(1) split] by (simp_all add: booked_def add.assoc)
qed

lemma close_all_positions_curve:
  assumes "close_all_positions b sm = (Inr u, sm')"
  shows "sm_curve sm' = sm_curve sm"
proof -
  obtain v sm1 where c: "close_each b (sm_open sm) sm = (Inr v, sm1)" and sm': "sm' = sm1\<lparr>sm_open := []\<rparr>"
    using assms by (auto simp: close_all_positions_def split: prod.splits sum.splits)
  obtain ts where ts: "closes sm sm1 ts" using close_each_closes [OF c] by blast
  show ?thesis using arg_cong [OF ts [unfolded closes_def, THEN conjunct1], of sm_curve] by (simp add: sm')
qed

lemma close_all_positions_books:
  assumes "close_all_positions b sm = (Inr u, sm')" "ledger sm"
  shows "ledger sm'" "mset (booked sm') = mset (booked sm)" "sm_open sm' = []" "sm_curve sm' = sm_curve sm"
proof -
  obtain v sm1 where c: "close_each b (sm_open sm) sm = (Inr v, sm1)" and sm': "sm' = sm1\<lparr>sm_open := []\<rparr>"
    using assms(1) by (auto simp: close_all_positions_def split: prod.splits sum.splits)
  obtain ts where ts: "closes sm sm1 ts" "map tr_position ts = sm_open sm" using close_each_closes [OF c] by blast
  have f: "sm_log sm1 = sm_log sm @ ts" "sm_curve sm1 = sm_curve sm"
    using arg_cong [OF ts(1) [unfolded closes_def, THEN conjunct1], of sm_log]
      arg_cong [OF ts(1) [unfolded closes_def, THEN conjunct1], of sm_curve] by simp_all
  have "ledger (sm1\<lparr>sm_open := [], sm_curve := sm_curve sm1\<rparr>)"
    by (rule ledger_closes [OF assms(2) ts(1)]) (simp add: ts(2))
  moreover have "sm1\<lparr>sm_open := [], sm_curve := sm_curve sm1\<rparr> = sm1\<lparr>sm_open := []\<rparr>" by simp
  ultimately have "ledger (sm1\<lparr>sm_open := []\<rparr>)" by (simp only:)
  then show "ledger sm'" "mset (booked sm') = mset (booked sm)" "sm_open sm' = []" "sm_curve sm' = sm_curve sm"
    unfolding sm' by (simp_all add: booked_def f ts(2))
qed

lemma open_sim_position_books:
  assumes "open_sim_position uuid sig b sm = (Inr u, sm')" "ledger sm"
  shows "ledger sm'" "\<exists>p. mset (booked sm') = add_mset p (mset (booked sm)) \<and> op_signal_id p = signal_id sig"
proof -
  define lots where "lots = opt_get (sig_lots sig) (1 / 100)"
  obtain fill c p where c: "quantize 2 (dec_mul (sm_commission_per_lot sm) lots) = Inr c"
    and sm': "sm' = sm\<lparr>sm_equity := dec_sub (sm_equity sm) c, sm_open := sm_open sm @ [p]\<rparr>"
    and p: "op_commission p = c" "op_signal_id p = signal_id sig"
    using assms(1) by (auto simp: open_sim_position_def Let_def lots_def split: sum.splits)
  have booked: "mset (booked sm') = add_mset p (mset (booked sm))" by (simp add: sm' booked_def)
  have g: "on_grid 2 c" using c by (rule quantize_grid)
  have "on_grid 2 (sm_equity sm') \<and>
      sm_equity sm' = sm_initial_equity sm' + total_pnl (sm_log sm') - commissions (mset (booked sm'))"
    if h: "on_grid 2 (sm_initial_equity sm')" "turnover sm' < 10 ^ 26"
  proof -
    have turn: "turnover sm' = turnover sm + \<bar>c\<bar>" unfolding turnover_def booked by (simp add: sm' p)
    then have "turnover sm < 10 ^ 26" using h(2) by linarith
    moreover have "on_grid 2 (sm_initial_equity sm)" using h(1) by (simp add: sm')
    ultimately have e: "on_grid 2 (sm_equity sm)"
        "sm_equity sm = sm_initial_equity sm + total_pnl (sm_log sm) - commissions (mset (booked sm))"
      using assms(2) unfolding ledger_def by blast+
    have "\<bar>sm_equity sm - c\<bar> \<le> turnover sm'"
      unfolding turn unfolding e(2) turnover_def
      using abs_total_pnl [of "sm_log sm"] abs_commissions [of "mset (booked sm)"] by linarith
    moreover have "on_grid 2 (sm_equity sm - c)"
      using on_grid_add [OF e(1) on_grid_minus [OF g]] by simp
    ultimately have "dec_round (sm_equity sm - c) = sm_equity sm - c" using h(2) by (intro dec_round_cents) (auto intro: le_less_trans)
    then show ?thesis using \<open>on_grid 2 (sm_equity sm - c)\<close>
      unfolding booked by (simp add: sm' dec_sub_def e(2) commissions_def p)
  qed
  then show "ledger sm'" using assms(2) g p(1) unfolding ledger_def booked by auto
  show "\<exists>p. mset (booked sm') = add_mset p (mset (booked sm)) \<and> op_signal_id p = signal_id sig" using booked p(2) by blast
qed

end
