(* ===== verification/Backtest_Metrics.thy ===== *)
theory Backtest_Metrics
  imports Indicators Trade_Simulator
begin

text \<open>
  \<open>backtesting/metrics.py\<close>: returns, drawdown, Sharpe and Sortino ratios and the trade statistics of a run. The
  detours through \<open>float\<close> are modelled: square roots are correctly rounded, \<open>str\<close> of a float is its shortest
  decimal that reads back as the same float. The power function of the C library is an argument.
\<close>

section \<open>Square roots and printing of floats\<close>

fun isqrt :: "nat \<Rightarrow> nat" where
  "isqrt n =
     (if n = 0 then 0
      else let r = 2 * isqrt (n div 4) in if (r + 1) * (r + 1) \<le> n then r + 1 else r)"

declare isqrt.simps [simp del]

text \<open>\<open>math.sqrt\<close>: at least 59 bits of the root and a sticky bit for the rest, rounded once.\<close>

definition flt_sqrt :: "rat \<Rightarrow> rat" where
  "flt_sqrt x =
     (if x \<le> 0 then 0
      else let k = nat (60 - expo 2 x div 2); m = nat \<lfloor>x * 4 ^ k\<rfloor>; n = isqrt m
           in flt_round (of_nat (2 * n + of_bool (of_nat (n * n) \<noteq> x * 4 ^ k)) / (2 * 2 ^ k)))"

text \<open>\<open>Decimal(str(x))\<close> of a float.\<close>

definition flt_decimal :: "rat \<Rightarrow> decimal" where
  "flt_decimal x =
     round_sig 10 (opt_get (find (\<lambda>p. flt_round (round_sig 10 p x) = x) [1..<18]) 17) x"

text \<open>\<open>round(x, n)\<close> of a float.\<close>

definition py_round :: "nat \<Rightarrow> rat \<Rightarrow> rat" where
  "py_round n x = flt_round (of_int (round_half_even (x * 10 ^ n)) / 10 ^ n)"

lemma py_round_nonneg: "0 \<le> x \<Longrightarrow> 0 \<le> py_round n x"
  unfolding py_round_def using round_half_even_mono [of 0 "x * 10 ^ n"]
  by (intro flt.rnd_nonneg divide_nonneg_nonneg) (auto simp: round_half_even_of_int [of 0, simplified])

lemma round_sig_nonneg: "0 < p \<Longrightarrow> 0 \<le> x \<Longrightarrow> 0 \<le> round_sig 10 p x"
  using round_sig_mono [of 10 p 0 x] by simp

lemma flt_decimal_nonneg: "0 \<le> x \<Longrightarrow> 0 \<le> flt_decimal x"
  by (auto simp: flt_decimal_def opt_get_def find_Some_iff split: option.split intro!: round_sig_nonneg)

section \<open>Results\<close>

record backtest_result =
  br_equity_curve :: "decimal list"
  br_initial_equity :: decimal
  br_final_equity :: decimal
  br_trade_log :: "closed_trade list"
  br_total_trades :: nat
  br_bars_processed :: nat
  br_total_return_pct :: decimal
  br_annualized_return_pct :: decimal
  br_sharpe_ratio :: decimal
  br_sortino_ratio :: decimal
  br_calmar_ratio :: decimal
  br_max_drawdown_pct :: decimal
  br_max_drawdown_value :: decimal
  br_win_rate :: decimal
  br_profit_factor :: decimal
  br_avg_trade_pnl :: decimal
  br_avg_trade_duration_bars :: decimal
  br_winning_trades :: nat
  br_losing_trades :: nat
  br_gross_profit :: decimal
  br_gross_loss :: decimal

definition initial_result :: "decimal list \<Rightarrow> closed_trade list \<Rightarrow> nat \<Rightarrow> decimal \<Rightarrow> backtest_result" where
  "initial_result curve trades bars initial =
     \<lparr>br_equity_curve = curve, br_initial_equity = initial,
      br_final_equity = (if curve = [] then initial else last curve), br_trade_log = trades,
      br_total_trades = length trades, br_bars_processed = bars, br_total_return_pct = 0, br_annualized_return_pct = 0,
      br_sharpe_ratio = 0, br_sortino_ratio = 0, br_calmar_ratio = 0, br_max_drawdown_pct = 0, br_max_drawdown_value = 0,
      br_win_rate = 0, br_profit_factor = 0, br_avg_trade_pnl = 0, br_avg_trade_duration_bars = 0, br_winning_trades = 0,
      br_losing_trades = 0, br_gross_profit = 0, br_gross_loss = 0\<rparr>"

section \<open>Returns and ratios\<close>

definition bar_return :: "decimal \<Rightarrow> decimal \<Rightarrow> decimal result" where
  "bar_return prev cur = (if prev = 0 then Inr 0 else quantize 8 (dec_div (dec_sub cur prev) prev))"

fun compute_returns :: "decimal list \<Rightarrow> decimal list result" where
  "compute_returns (x # y # ys) =
     rbind (bar_return x y) (\<lambda>r. rbind (compute_returns (y # ys)) (\<lambda>rs. Inr (r # rs)))"
| "compute_returns xs = Inr []"

definition total_return_pct :: "decimal \<Rightarrow> decimal \<Rightarrow> decimal result" where
  "total_return_pct initial final =
     (if initial = 0 then Inr 0 else quantize 4 (dec_mul (dec_div (dec_sub final initial) initial) 100))"

definition annualized_return :: "(rat \<Rightarrow> rat \<Rightarrow> rat result) \<Rightarrow> decimal \<Rightarrow> nat \<Rightarrow> decimal result" where
  "annualized_return c_pow tot periods =
     (if periods = 0 then Inr 0
      else let growth = dec_add 1 (dec_div tot 100)
           in if growth \<le> 0 then Inr (- 100)
              else rbind (c_pow (flt_round growth) (flt_round (252 / of_nat periods))) (\<lambda>p.
                     quantize 4 (dec_mul (dec_sub (flt_decimal p) 1) 100)))"

definition mean_of :: "decimal list \<Rightarrow> decimal" where
  "mean_of xs = (if xs = [] then 0 else dec_div (dec_sum xs) (of_nat (length xs)))"

definition sample_std :: "decimal list \<Rightarrow> decimal result" where
  "sample_std xs =
     (let n = length xs
      in if n < 2 then Inr 0
         else let m = dec_div (dec_sum xs) (of_nat n);
                  variance = dec_div (dec_sum (map (\<lambda>v. dec_sq (dec_sub v m)) xs)) (of_nat (n - 1))
              in quantize 8 (flt_decimal (flt_sqrt (flt_round variance))))"

definition downside_deviation :: "decimal list \<Rightarrow> decimal result" where
  "downside_deviation xs = sample_std (filter (\<lambda>v. v < 0) xs)"

text \<open>\<open>_SQRT_252\<close> is \<open>Decimal(str(math.sqrt(252)))\<close>.\<close>

definition SQRT_252 :: decimal where
  "SQRT_252 = 15874507866387544 / 10 ^ 15"

definition daily_risk_free :: "decimal \<Rightarrow> decimal result" where
  "daily_risk_free risk_free = quantize 8 (dec_div risk_free 252)"

definition ratio_over :: "decimal \<Rightarrow> decimal list \<Rightarrow> decimal \<Rightarrow> decimal result" where
  "ratio_over daily_rf returns deviation =
     (if deviation = 0 then Inr 0
      else quantize 4 (dec_mul (dec_div (dec_sub (mean_of returns) daily_rf) deviation) SQRT_252))"

definition sharpe_ratio :: "decimal \<Rightarrow> decimal list \<Rightarrow> decimal result" where
  "sharpe_ratio daily_rf returns =
     (if length returns < 2 then Inr 0 else rbind (sample_std returns) (ratio_over daily_rf returns))"

definition sortino_ratio :: "decimal \<Rightarrow> decimal list \<Rightarrow> decimal result" where
  "sortino_ratio daily_rf returns =
     (if length returns < 2 then Inr 0 else rbind (downside_deviation returns) (ratio_over daily_rf returns))"

section \<open>Drawdown\<close>

definition drawdown_step :: "decimal \<times> decimal \<times> decimal \<Rightarrow> decimal \<Rightarrow> decimal \<times> decimal \<times> decimal" where
  "drawdown_step st equity =
     (let (peak, max_pct, max_value) = st; peak = (if peak < equity then equity else peak)
      in if 0 < peak
         then let value = dec_sub peak equity; pct = dec_mul (dec_div value peak) 100
              in if max_pct < pct then (peak, pct, value) else (peak, max_pct, max_value)
         else (peak, max_pct, max_value))"

definition max_drawdown :: "decimal list \<Rightarrow> (decimal \<times> decimal) result" where
  "max_drawdown curve =
     (case curve of
        [] \<Rightarrow> Inr (0, 0)
      | e # es \<Rightarrow>
          let (peak, pct, value) = foldl drawdown_step (e, 0, 0) curve
          in rbind (quantize 4 pct) (\<lambda>p. rbind (quantize 4 value) (\<lambda>v. Inr (p, v))))"

section \<open>Trades\<close>

definition trade_durations :: "closed_trade list \<Rightarrow> int list" where
  "trade_durations trades =
     map (\<lambda>t. tr_exit_timestamp t - op_entry_timestamp (tr_position t))
       (filter (\<lambda>t. 0 < op_entry_timestamp (tr_position t) \<and> 0 < tr_exit_timestamp t) trades)"

definition compute_trade_metrics :: "closed_trade list \<Rightarrow> backtest_result \<Rightarrow> backtest_result result" where
  "compute_trade_metrics trades r =
     (if trades = [] then Inr r
      else let winning = filter (\<lambda>p. 0 < p) (map tr_pnl trades); losing = filter (\<lambda>p. p < 0) (map tr_pnl trades);
               gross_profit = dec_sum winning; gross_loss = dec_abs (dec_sum losing); durations = trade_durations trades
           in rbind (if 0 < br_total_trades r
                     then quantize 4 (dec_mul (dec_div (of_nat (length winning)) (of_nat (br_total_trades r))) 100)
                     else Inr (br_win_rate r)) (\<lambda>win_rate.
              rbind (if 0 < gross_loss then quantize 4 (dec_div gross_profit gross_loss) else Inr (br_profit_factor r)) (\<lambda>profit_factor.
              rbind (dec_div_checked (dec_sum (map tr_pnl trades)) (of_nat (br_total_trades r))) (\<lambda>avg. rbind (quantize 4 avg) (\<lambda>avg_pnl.
              rbind (if durations = [] then Inr (br_avg_trade_duration_bars r)
                     else quantize 2 (dec_div (of_int (sum_list durations)) (of_nat (length durations)))) (\<lambda>duration.
              Inr (r\<lparr>br_winning_trades := length winning, br_losing_trades := length losing, br_win_rate := win_rate,
                     br_gross_profit := gross_profit, br_gross_loss := gross_loss, br_profit_factor := profit_factor,
                     br_avg_trade_pnl := avg_pnl, br_avg_trade_duration_bars := duration\<rparr>)))))))"

section \<open>The report\<close>

definition compute_metrics ::
  "(rat \<Rightarrow> rat \<Rightarrow> rat result) \<Rightarrow> decimal \<Rightarrow> decimal list \<Rightarrow> closed_trade list \<Rightarrow> nat \<Rightarrow> decimal \<Rightarrow> backtest_result result" where
  "compute_metrics c_pow risk_free curve trades bars initial =
     (let r = initial_result curve trades bars initial
      in rbind (daily_risk_free risk_free) (\<lambda>rf.
         if length curve < 2 then Inr r
         else rbind (compute_returns curve) (\<lambda>returns.
              rbind (total_return_pct initial (br_final_equity r)) (\<lambda>tot.
              rbind (annualized_return c_pow tot (length returns)) (\<lambda>annual.
              rbind (max_drawdown curve) (\<lambda>(dd_pct, dd_value).
              rbind (if returns = [] then Inr 0 else sharpe_ratio rf returns) (\<lambda>sharpe.
              rbind (if returns = [] then Inr 0 else sortino_ratio rf returns) (\<lambda>sortino.
              rbind (if 0 < dd_pct then quantize 4 (dec_div annual dd_pct) else Inr 0) (\<lambda>calmar.
              compute_trade_metrics trades
                (r\<lparr>br_total_return_pct := tot, br_annualized_return_pct := annual, br_max_drawdown_pct := dd_pct,
                   br_max_drawdown_value := dd_value, br_sharpe_ratio := sharpe, br_sortino_ratio := sortino,
                   br_calmar_ratio := calmar\<rparr>))))))))))"

section \<open>Lemmas: square roots\<close>

lemma isqrt_bounds: "isqrt n * isqrt n \<le> n \<and> n < (isqrt n + 1) * (isqrt n + 1)"
proof (induction n rule: isqrt.induct)
  case (1 n)
  show ?case
  proof (cases "n = 0")
    case False
    define r where "r = 2 * isqrt (n div 4)"
    have IH: "isqrt (n div 4) * isqrt (n div 4) \<le> n div 4" "n div 4 < (isqrt (n div 4) + 1) * (isqrt (n div 4) + 1)"
      using 1 False by blast+
    have "r * r = 4 * (isqrt (n div 4) * isqrt (n div 4))" by (simp add: r_def)
    then have lo: "r * r \<le> n" using IH(1) by linarith
    have "4 * (n div 4) + 4 \<le> 4 * ((isqrt (n div 4) + 1) * (isqrt (n div 4) + 1))" using IH(2) by linarith
    also have "\<dots> = (r + 2) * (r + 2)" by (simp add: r_def algebra_simps)
    finally have hi: "n < (r + 2) * (r + 2)" by linarith
    have "isqrt n = (if (r + 1) * (r + 1) \<le> n then r + 1 else r)"
      using False by (subst isqrt.simps) (simp add: r_def Let_def)
    then show ?thesis using lo hi by auto
  qed (simp add: isqrt.simps [of 0])
qed

lemma isqrt_0_iff: "isqrt n = 0 \<longleftrightarrow> n = 0"
  using isqrt_bounds [of n] by (auto simp: isqrt.simps [of 0])

lemma flt_sqrt_nonneg: "0 \<le> flt_sqrt x"
  by (auto simp: flt_sqrt_def Let_def intro!: flt.rnd_nonneg)

section \<open>Lemmas: drawdown\<close>

text \<open>The drawdown at a point of the curve, against the highest equity up to there.\<close>

definition peak_at :: "decimal list \<Rightarrow> nat \<Rightarrow> decimal" where
  "peak_at curve i = Max (set (take (Suc i) curve))"

definition drawdown_at :: "decimal list \<Rightarrow> nat \<Rightarrow> decimal" where
  "drawdown_at curve i =
     (if 0 < peak_at curve i
      then dec_mul (dec_div (dec_sub (peak_at curve i) (curve ! i)) (peak_at curve i)) 100 else 0)"

definition worst_drawdown :: "decimal list \<Rightarrow> decimal" where
  "worst_drawdown curve = Max (insert 0 (drawdown_at curve ` {..<length curve}))"

lemma peak_at_append: "i < length xs \<Longrightarrow> peak_at (xs @ [x]) i = peak_at xs i"
  by (simp add: peak_at_def)

lemma drawdown_at_append: "i < length xs \<Longrightarrow> drawdown_at (xs @ [x]) i = drawdown_at xs i"
  by (simp add: drawdown_at_def peak_at_append nth_append)

lemma worst_drawdown_append:
  "worst_drawdown (xs @ [x]) = max (worst_drawdown xs) (drawdown_at (xs @ [x]) (length xs))"
proof -
  have "drawdown_at (xs @ [x]) ` {..<length (xs @ [x])} =
      insert (drawdown_at (xs @ [x]) (length xs)) (drawdown_at xs ` {..<length xs})"
    by (auto simp: lessThan_Suc drawdown_at_append image_iff)
  then have "insert 0 (drawdown_at (xs @ [x]) ` {..<length (xs @ [x])}) =
      insert (drawdown_at (xs @ [x]) (length xs)) (insert 0 (drawdown_at xs ` {..<length xs}))"
    by (simp add: insert_commute)
  then show ?thesis unfolding worst_drawdown_def by (simp add: max.commute)
qed

lemma drawdown_scan:
  assumes "curve \<noteq> []"
  shows "\<exists>v. foldl drawdown_step (hd curve, 0, 0) curve = (Max (set curve), worst_drawdown curve, v) \<and>
           (v = 0 \<or> (\<exists>i<length curve. v = dec_sub (peak_at curve i) (curve ! i) \<and> drawdown_at curve i = worst_drawdown curve))"
  using assms
proof (induction curve rule: rev_induct)
  case (snoc x xs)
  show ?case
  proof (cases "xs = []")
    case True
    then show ?thesis by (auto simp: drawdown_step_def Let_def worst_drawdown_def drawdown_at_def peak_at_def dec_ops dec.rnd_0 lessThan_Suc)
  next
    case False
    then obtain v where f: "foldl drawdown_step (hd xs, 0, 0) xs = (Max (set xs), worst_drawdown xs, v)"
      and v: "v = 0 \<or> (\<exists>i<length xs. v = dec_sub (peak_at xs i) (xs ! i) \<and> drawdown_at xs i = worst_drawdown xs)"
      using snoc.IH by blast
    let ?n = "length xs" and ?c = "xs @ [x]"
    have "Max (set ?c) = max x (Max (set xs))" using False by (simp add: Max_insert)
    then have peak: "(if Max (set xs) < x then x else Max (set xs)) = Max (set ?c)" "peak_at ?c ?n = Max (set ?c)"
      by (auto simp: peak_at_def max_def simp del: Max_less_iff)
    have at_n: "?c ! ?n = x" by simp
    have w0: "0 \<le> worst_drawdown xs" by (simp add: worst_drawdown_def)
    define P where "P = Max (set ?c)"
    have d: "drawdown_at ?c ?n = (if 0 < P then dec_mul (dec_div (dec_sub P x) P) 100 else 0)"
      unfolding drawdown_at_def peak(2) at_n P_def ..
    have "drawdown_step (Max (set xs), worst_drawdown xs, v) x =
        (P, max (worst_drawdown xs) (drawdown_at ?c ?n), if worst_drawdown xs < drawdown_at ?c ?n then dec_sub P x else v)"
      using w0 unfolding d drawdown_step_def Let_def split peak(1) P_def [symmetric] by (auto simp: max_def)
    then have step: "foldl drawdown_step (hd ?c, 0, 0) ?c =
        (Max (set ?c), worst_drawdown ?c, if worst_drawdown xs < drawdown_at ?c ?n then dec_sub (peak_at ?c ?n) x else v)"
      using False f unfolding worst_drawdown_append peak(2) P_def by simp
    show ?thesis
    proof (cases "worst_drawdown xs < drawdown_at ?c ?n")
      case True
      then have "drawdown_at ?c ?n = worst_drawdown ?c" by (simp add: worst_drawdown_append)
      then show ?thesis unfolding step using True by (intro exI conjI refl disjI2 exI [of _ ?n]) auto
    next
      case no: False
      then have "worst_drawdown ?c = worst_drawdown xs" by (simp add: worst_drawdown_append)
      then have "v = 0 \<or> (\<exists>i<length ?c. v = dec_sub (peak_at ?c i) (?c ! i) \<and> drawdown_at ?c i = worst_drawdown ?c)"
        using v by (auto simp: nth_append peak_at_append drawdown_at_append)
      then show ?thesis unfolding step using no by auto
    qed
  qed
qed simp

definition sane_equity :: "decimal \<Rightarrow> bool" where
  "sane_equity e \<longleftrightarrow> 0 \<le> e \<and> e < 10 ^ 23 \<and> dec_round e = e"

lemma peak_at_props:
  assumes "i < length curve"
  shows "peak_at curve i \<in> set curve" "curve ! i \<le> peak_at curve i"
proof -
  have "set (take (Suc i) curve) \<noteq> {}" using assms by auto
  then have "peak_at curve i \<in> set (take (Suc i) curve)" unfolding peak_at_def by (intro Max_in) auto
  then show "peak_at curve i \<in> set curve" by (rule in_set_takeD)
  have "curve ! i \<in> set (take (Suc i) curve)" using assms by (auto simp: in_set_conv_nth intro!: exI [of _ i])
  then show "curve ! i \<le> peak_at curve i" unfolding peak_at_def by (intro Max_ge) auto
qed

lemma drawdown_at_bounds:
  assumes "\<forall>e\<in>set curve. sane_equity e" "i < length curve"
  shows "0 \<le> drawdown_at curve i" "drawdown_at curve i \<le> 100"
    and "0 \<le> dec_sub (peak_at curve i) (curve ! i)" "dec_sub (peak_at curve i) (curve ! i) < 10 ^ 23"
proof -
  let ?p = "peak_at curve i" and ?e = "curve ! i"
  have p: "sane_equity ?p" and e: "sane_equity ?e" "?e \<le> ?p"
    using assms peak_at_props [OF assms(2)] by auto
  show sub: "0 \<le> dec_sub ?p ?e" using e(2) by (simp add: dec_sub_nonneg_iff)
  have le: "dec_sub ?p ?e \<le> ?p" unfolding dec_sub_def using p e(1) by (intro dec.rnd_le) (auto simp: sane_equity_def)
  then show "dec_sub ?p ?e < 10 ^ 23" using p by (auto simp: sane_equity_def)
  show "0 \<le> drawdown_at curve i" using sub by (auto simp: drawdown_at_def intro!: dec_mul_nonneg dec_div_nonneg)
  have "dec_mul (dec_div (dec_sub ?p ?e) ?p) 100 \<le> 100" if "0 < ?p"
  proof -
    have "dec_div (dec_sub ?p ?e) ?p \<le> 1" unfolding dec_div_def using le that by (intro dec.rnd_le) auto
    then show ?thesis unfolding dec_mul_def by (intro dec.rnd_le) (simp_all add: num_eval)
  qed
  then show "drawdown_at curve i \<le> 100" by (simp add: drawdown_at_def)
qed

lemma worst_drawdown_bounds:
  assumes "\<forall>e\<in>set curve. sane_equity e"
  shows "0 \<le> worst_drawdown curve" "worst_drawdown curve \<le> 100"
  using drawdown_at_bounds [OF assms] by (auto simp: worst_drawdown_def)

section \<open>Lemmas: trade statistics\<close>

lemma percent_bounds:
  assumes "quantize 4 (dec_mul (dec_div (of_nat m) (of_nat n)) 100) = Inr p" "m \<le> n" "0 < n"
  shows "0 \<le> p \<and> p \<le> 100"
proof -
  have grid: "on_grid 4 0" "on_grid 4 100" using on_gridI [of 0 4 0] on_gridI [of 100 4 1000000] by simp_all
  have "dec_div (of_nat m) (of_nat n) \<le> 1" unfolding dec_div_def using assms(2,3) by (intro dec.rnd_le) auto
  then have "dec_mul (dec_div (of_nat m) (of_nat n)) 100 \<le> 100"
    unfolding dec_mul_def by (intro dec.rnd_le) (simp_all add: num_eval)
  moreover have "0 \<le> dec_mul (dec_div (of_nat m) (of_nat n)) 100" by (intro dec_mul_nonneg dec_div_nonneg) auto
  ultimately show ?thesis using quantize_ge [OF assms(1) grid(1)] quantize_le [OF assms(1) grid(2)] by blast
qed

lemma filter_signs_length:
  fixes xs :: "decimal list"
  shows "length (filter (\<lambda>p. 0 < p) xs) + length (filter (\<lambda>p. p < 0) xs) \<le> length xs"
  by (induction xs) auto

definition sound_trade_statistics :: "backtest_result \<Rightarrow> bool" where
  "sound_trade_statistics r \<longleftrightarrow>
     0 \<le> br_win_rate r \<and> br_win_rate r \<le> 100 \<and> br_winning_trades r + br_losing_trades r \<le> br_total_trades r \<and>
     0 \<le> br_profit_factor r \<and> 0 \<le> br_gross_profit r \<and> 0 \<le> br_gross_loss r"

lemma compute_trade_metrics_sound:
  assumes "compute_trade_metrics trades r = Inr r'" "br_total_trades r = length trades" "sound_trade_statistics r"
  shows "sound_trade_statistics r'"
    "br_max_drawdown_pct r' = br_max_drawdown_pct r \<and> br_final_equity r' = br_final_equity r \<and>
     br_total_trades r' = br_total_trades r \<and> br_total_return_pct r' = br_total_return_pct r"
proof -
  let ?w = "filter (\<lambda>p. 0 < p) (map tr_pnl trades)" and ?l = "filter (\<lambda>p. p < 0) (map tr_pnl trades)"
  have "sound_trade_statistics r' \<and> br_max_drawdown_pct r' = br_max_drawdown_pct r \<and> br_final_equity r' = br_final_equity r \<and>
     br_total_trades r' = br_total_trades r \<and> br_total_return_pct r' = br_total_return_pct r"
  proof (cases "trades = []")
    case False
    then have n: "0 < length trades" by simp
    obtain wr pf avg du where wr: "quantize 4 (dec_mul (dec_div (of_nat (length ?w)) (of_nat (length trades))) 100) = Inr wr"
      and pf: "(if 0 < dec_abs (dec_sum ?l) then quantize 4 (dec_div (dec_sum ?w) (dec_abs (dec_sum ?l)))
                else Inr (br_profit_factor r)) = Inr pf"
      and r': "r' = r\<lparr>br_winning_trades := length ?w, br_losing_trades := length ?l, br_win_rate := wr,
        br_gross_profit := dec_sum ?w, br_gross_loss := dec_abs (dec_sum ?l), br_profit_factor := pf,
        br_avg_trade_pnl := avg, br_avg_trade_duration_bars := du\<rparr>"
      using assms(1) False unfolding compute_trade_metrics_def Let_def assms(2) by (simp only: if_False n if_True rbind_eq_Inr) auto
    have "length ?w \<le> length trades" using filter_signs_length [of "map tr_pnl trades"] by simp
    then have "0 \<le> wr \<and> wr \<le> 100" using wr n by (intro percent_bounds)
    moreover have gp: "0 \<le> dec_sum ?w" by (rule dec_sum_nonneg) auto
    moreover have gl: "0 \<le> dec_abs (dec_sum ?l)" by (simp add: dec_abs_def dec.rnd_nonneg)
    moreover have "on_grid 4 0" by (rule on_gridI [of _ _ 0]) simp
    then have "0 \<le> pf"
      using pf quantize_ge [of 4 _ pf 0] dec_div_nonneg [OF gp gl] assms(3)
      by (auto simp: sound_trade_statistics_def split: if_splits)
    ultimately show ?thesis using filter_signs_length [of "map tr_pnl trades"] unfolding r'
      by (simp add: sound_trade_statistics_def assms(2))
  qed (use assms in \<open>simp add: compute_trade_metrics_def\<close>)
  then show "sound_trade_statistics r'"
    "br_max_drawdown_pct r' = br_max_drawdown_pct r \<and> br_final_equity r' = br_final_equity r \<and>
     br_total_trades r' = br_total_trades r \<and> br_total_return_pct r' = br_total_return_pct r" by blast+
qed

lemma initial_result_sound: "sound_trade_statistics (initial_result curve trades bars initial)"
  by (simp add: sound_trade_statistics_def initial_result_def)

lemma compute_metrics_trades:
  assumes "compute_metrics c_pow risk_free curve trades bars initial = Inr r" "\<not> length curve < 2"
  obtains p v r0 where "max_drawdown curve = Inr (p, v)" "compute_trade_metrics trades r0 = Inr r"
    "sound_trade_statistics r0" "br_total_trades r0 = length trades" "br_max_drawdown_pct r0 = p"
    "br_final_equity r0 = (if curve = [] then initial else last curve)"
proof -
  let ?r = "initial_result curve trades bars initial"
  obtain p v tot annual sharpe sortino calmar where dd: "max_drawdown curve = Inr (p, v)"
    and t: "compute_trade_metrics trades (?r\<lparr>br_total_return_pct := tot, br_annualized_return_pct := annual,
        br_max_drawdown_pct := p, br_max_drawdown_value := v, br_sharpe_ratio := sharpe, br_sortino_ratio := sortino,
        br_calmar_ratio := calmar\<rparr>) = Inr r"
    using assms unfolding compute_metrics_def Let_def
    by (simp only: rbind_eq_Inr if_False case_prod_unfold) (elim exE conjE, metis prod.collapse)
  show thesis
    by (rule that [OF dd t]) (use initial_result_sound [of curve trades bars initial] in
      \<open>simp_all add: sound_trade_statistics_def initial_result_def\<close>)
qed

lemma compute_metrics_final_equity:
  assumes "compute_metrics c_pow risk_free curve trades bars initial = Inr r" "curve \<noteq> []"
  shows "br_final_equity r = last curve"
proof (cases "length curve < 2")
  case True
  then show ?thesis using assms by (auto simp: compute_metrics_def Let_def initial_result_def)
next
  case False
  show ?thesis
    by (rule compute_metrics_trades [OF assms(1) False]) (use compute_trade_metrics_sound(2) assms(2) in auto)
qed

section \<open>Properties\<close>

text \<open>
  The drawdown scan of a report: for a curve of nonnegative equities it always returns, the percentage is the
  largest fall from the highest equity so far, over all points of the curve and rounded to four places, and it lies
  between 0 and 100.
\<close>

theorem max_drawdown_spec:
  assumes "curve \<noteq> []" "\<forall>e\<in>set curve. sane_equity e"
  shows "\<exists>p v. max_drawdown curve = Inr (p, v) \<and> quantize 4 (worst_drawdown curve) = Inr p \<and> 0 \<le> p \<and> p \<le> 100 \<and> 0 \<le> v"
proof -
  obtain x xs where c: "curve = x # xs" using assms(1) by (cases curve) auto
  obtain v where f: "foldl drawdown_step (x, 0, 0) curve = (Max (set curve), worst_drawdown curve, v)"
    and "v = 0 \<or> (\<exists>i<length curve. v = dec_sub (peak_at curve i) (curve ! i) \<and> drawdown_at curve i = worst_drawdown curve)"
    using drawdown_scan [OF assms(1)] by (auto simp: c)
  then have v: "0 \<le> v" "v < 10 ^ 23" using drawdown_at_bounds(3,4) [OF assms(2)] by auto
  note w = worst_drawdown_bounds [OF assms(2)]
  obtain p where p: "quantize 4 (worst_drawdown curve) = Inr p" using quantize_defined [of "worst_drawdown curve" 4] w by auto
  obtain q where q: "quantize 4 v = Inr q" using quantize_defined [of v 4] v by auto
  have grid: "on_grid 4 0" "on_grid 4 100" using on_gridI [of 0 4 0] on_gridI [of 100 4 1000000] by simp_all
  have "0 \<le> p" "p \<le> 100" "0 \<le> q"
    using quantize_ge [OF p grid(1) w(1)] quantize_le [OF p grid(2) w(2)] quantize_ge [OF q grid(1) v(1)] by blast+
  then show ?thesis using p q f by (simp add: max_drawdown_def c Let_def)
qed

theorem max_drawdown_spec_witness:
  "\<exists>p v. max_drawdown [100, 120, 90, 130] = Inr (p, v) \<and> quantize 4 (worst_drawdown [100, 120, 90, 130]) = Inr p \<and>
     0 \<le> p \<and> p \<le> 100 \<and> 0 \<le> v"
  by (rule max_drawdown_spec) (simp_all add: sane_equity_def num_eval)

text \<open>
  A report that is produced at all is consistent: the win rate and, for nonnegative curves, the maximum drawdown
  are percentages, winners and losers do not outnumber the trades, profit factor and gross amounts are nonnegative, and
  the final equity is the last point of the curve.
\<close>

theorem report_consistent:
  assumes "compute_metrics c_pow risk_free curve trades bars initial = Inr r" "\<forall>e\<in>set curve. sane_equity e" "curve \<noteq> []"
  shows "0 \<le> br_win_rate r \<and> br_win_rate r \<le> 100 \<and> 0 \<le> br_max_drawdown_pct r \<and> br_max_drawdown_pct r \<le> 100 \<and>
    br_winning_trades r + br_losing_trades r \<le> br_total_trades r \<and> br_total_trades r = length trades \<and>
    0 \<le> br_profit_factor r \<and> 0 \<le> br_gross_profit r \<and> 0 \<le> br_gross_loss r \<and> br_final_equity r = last curve"
proof (cases "length curve < 2")
  case True
  then have "r = initial_result curve trades bars initial"
    using assms(1) by (auto simp: compute_metrics_def Let_def)
  then show ?thesis using assms(3) by (simp add: initial_result_def)
next
  case False
  obtain p v r0 where dd: "max_drawdown curve = Inr (p, v)" and t: "compute_trade_metrics trades r0 = Inr r"
    "br_total_trades r0 = length trades" "sound_trade_statistics r0"
    and r0: "br_max_drawdown_pct r0 = p" "br_final_equity r0 = (if curve = [] then initial else last curve)"
    using compute_metrics_trades [OF assms(1) False] by metis
  note stats = compute_trade_metrics_sound [OF t]
  note w = worst_drawdown_bounds [OF assms(2)]
  have grid: "on_grid 4 0" "on_grid 4 100" using on_gridI [of 0 4 0] on_gridI [of 100 4 1000000] by simp_all
  obtain x xs where c: "curve = x # xs" using assms(3) by (cases curve) auto
  obtain u where "foldl drawdown_step (x, 0, 0) curve = (Max (set curve), worst_drawdown curve, u)"
    using drawdown_scan [OF assms(3)] by (auto simp: c)
  then have q: "quantize 4 (worst_drawdown curve) = Inr p" using dd by (simp add: max_drawdown_def c Let_def)
  have "0 \<le> p" "p \<le> 100" using quantize_ge [OF q grid(1) w(1)] quantize_le [OF q grid(2) w(2)] by blast+
  then show ?thesis using stats assms(3) t(2) r0 by (simp add: sound_trade_statistics_def)
qed

lemma flt_decimal_1: "flt_decimal 1 = 1"
proof -
  have r: "round_sig 10 (Suc 0) 1 = 1" by (rule round_sig_exact [where m = 1 and k = 0]) simp_all
  then show ?thesis by (simp add: flt_decimal_def upt_conv_Cons num_eval)
qed

definition sample_closed_trade :: closed_trade where
  "sample_closed_trade =
     \<lparr>tr_position = \<lparr>op_id = ''p'', op_signal_id = ''s'', op_symbol = ''EURUSD'', op_direction = ''Direction.BUY'', op_entry_price = 1,
        op_stop_loss = 0, op_take_profit = 2, op_lots = 1, op_entry_timestamp = 1, op_commission = 5\<rparr>,
      tr_exit_price = 2, tr_pnl = 20, tr_exit_timestamp = 3, tr_exit_reason = ''take_profit''\<rparr>"

theorem report_consistent_witness:
  "\<exists>r. compute_metrics (\<lambda>x y. Inr 1) (252 / 100) [100, 120] [sample_closed_trade] 1 100 = Inr r \<and> br_win_rate r = 100 \<and>
     br_final_equity r = 120 \<and> 0 \<le> br_win_rate r \<and> 0 \<le> br_max_drawdown_pct r"
proof -
  have "quantize 4 (1 / 5) = Inr (1 / 5)" "quantize 8 (1 / 5) = Inr (1 / 5)" "quantize 8 (1 / 100) = Inr (1 / 100)"
    by (rule quantize_exact; simp add: on_grid_def; intro exI [of _ 2000] exI [of _ 20000000] exI [of _ 1000000]; simp)+
  then obtain r where r: "compute_metrics (\<lambda>x y. Inr 1) (252 / 100) [100, 120] [sample_closed_trade] 1 100 = Inr r"
      "br_win_rate r = 100" "br_final_equity r = 120"
    by (simp add: compute_metrics_def initial_result_def daily_risk_free_def bar_return_def total_return_pct_def
        annualized_return_def flt_decimal_1 max_drawdown_def drawdown_step_def Let_def dec_ops num_eval sharpe_ratio_def
        sortino_ratio_def compute_trade_metrics_def sample_closed_trade_def dec_sum_def trade_durations_def quantize_def dec_div_checked_def)
  show ?thesis using r report_consistent [OF r(1)] by (auto simp: sane_equity_def num_eval)
qed

end
