(* ===== verification/Bayesian.thy ===== *)
theory Bayesian
  imports Backtest_Metrics
begin

text \<open>
  \<open>math/bayesian.py\<close>: online changepoint detection over regimes, Thompson sampling over strategies and the
  Normal-Inverse-Gamma estimator. The exponential and the logarithm of the C library, and the Beta samples of numpy, are
  arguments; square roots are correctly rounded.
\<close>

section \<open>Helpers\<close>

text \<open>\<open>c_exp\<close> is \<open>math.exp\<close>; no result is an \<open>OverflowError\<close>.\<close>

definition decimal_exp :: "(rat \<Rightarrow> rat option) \<Rightarrow> decimal \<Rightarrow> decimal" where
  "decimal_exp c_exp x =
     (case c_exp (flt_round x) of Some y \<Rightarrow> flt_decimal y | None \<Rightarrow> if 0 < x then 10 ^ 308 else 0)"

definition decimal_sqrt_flt :: "decimal \<Rightarrow> decimal" where
  "decimal_sqrt_flt x = (if x \<le> 0 then 0 else flt_decimal (flt_sqrt (flt_round x)))"

definition TWO_PI :: decimal where
  "TWO_PI = 6283185307179586 / 10 ^ 15"

definition gaussian_pdf :: "(rat \<Rightarrow> rat option) \<Rightarrow> decimal \<Rightarrow> decimal \<Rightarrow> decimal \<Rightarrow> decimal" where
  "gaussian_pdf c_exp x mu var =
     (if var \<le> 0 then (if x = mu then 1 else 0)
      else let d = dec_sub x mu; exponent = dec_div (dec_neg (dec_sq d)) (dec_mul 2 var);
               normalization = dec_div 1 (decimal_sqrt_flt (dec_mul TWO_PI var))
           in dec_mul normalization (decimal_exp c_exp exponent))"

section \<open>Regime detector\<close>

type_synonym run_stats = "nat \<times> decimal \<times> decimal"

record detector =
  dt_names :: "string list"
  dt_hazard :: decimal
  dt_run_lengths :: "decimal list"
  dt_stats :: "run_stats list"
  dt_observations :: nat
  dt_posteriors :: "(string \<times> decimal) list"

definition REGIME_NAMES :: "string list" where
  "REGIME_NAMES = map regime_value [TRENDING_UP, TRENDING_DOWN, RANGING, HIGH_VOLATILITY, REVERSAL]"

definition new_detector :: "nat \<Rightarrow> decimal \<Rightarrow> detector result" where
  "new_detector n_regimes hazard =
     (let n = min n_regimes (length REGIME_NAMES); names = take n REGIME_NAMES
      in if n = 0 then Inl ZeroDivisionError
         else Inr \<lparr>dt_names = names, dt_hazard = hazard, dt_run_lengths = [1], dt_stats = [(0, 0, 0)], dt_observations = 0,
                   dt_posteriors = map (\<lambda>name. (name, dec_div 1 (of_nat n))) names\<rparr>)"

fun predictive :: "(rat \<Rightarrow> rat option) \<Rightarrow> decimal \<Rightarrow> run_stats \<Rightarrow> decimal" where
  "predictive c_exp obs (n, mean, m2) =
     (if n < 2 then 1 / 10
      else let var = dec_div m2 (of_nat n); var = (if var \<le> 0 then 1 / 10 ^ 30 else var)
           in gaussian_pdf c_exp obs mean var)"

fun welford :: "decimal \<Rightarrow> run_stats \<Rightarrow> run_stats" where
  "welford obs (n, mean, m2) =
     (let n = n + 1; delta = dec_sub obs mean; mean = dec_add mean (dec_div delta (of_nat n));
          delta2 = dec_sub obs mean
      in (n, mean, dec_add m2 (dec_mul delta delta2)))"

definition normalise :: "decimal list \<Rightarrow> decimal list" where
  "normalise ps = (let total = dec_sum ps in if 0 < total then map (\<lambda>p. dec_div p total) ps else ps)"

definition bin_of :: "nat \<Rightarrow> nat \<Rightarrow> nat \<Rightarrow> nat" where
  "bin_of n n_rl i = min (i div max 1 (n_rl div n)) (n - 1)"

definition add_to_bin :: "(nat \<Rightarrow> nat) \<Rightarrow> decimal list \<Rightarrow> nat \<times> decimal \<Rightarrow> decimal list" where
  "add_to_bin f acc ip = (let b = f (fst ip) in acc[b := dec_add (acc ! b) (snd ip)])"

definition run_length_to_regimes :: "string list \<Rightarrow> decimal list \<Rightarrow> (string \<times> decimal) list" where
  "run_length_to_regimes names probs =
     (let n = length names; n_rl = length probs
      in if n_rl = 0 then map (\<lambda>name. (name, dec_div 1 (of_nat n))) names
         else let binned = foldl (add_to_bin (bin_of n n_rl)) (replicate n 0) (enumerate 0 probs)
              in zip names (normalise binned))"

definition detector_update :: "(rat \<Rightarrow> rat option) \<Rightarrow> decimal \<Rightarrow> detector \<Rightarrow> (string \<times> decimal) list \<times> detector" where
  "detector_update c_exp obs dt =
     (let weights = map2 (\<lambda>p st. dec_mul p (predictive c_exp obs st)) (dt_run_lengths dt) (dt_stats dt);
          growth = map (\<lambda>w. dec_mul w (dec_sub 1 (dt_hazard dt))) weights;
          changepoint = foldl (\<lambda>acc w. dec_add acc (dec_mul w (dt_hazard dt))) 0 weights;
          probs = normalise (changepoint # growth);
          posteriors = run_length_to_regimes (dt_names dt) probs
      in (posteriors,
          dt\<lparr>dt_run_lengths := probs, dt_stats := (0, 0, 0) # map (welford obs) (dt_stats dt),
             dt_observations := dt_observations dt + 1, dt_posteriors := posteriors\<rparr>))"

definition keep_best :: "string \<times> decimal \<Rightarrow> string \<times> decimal \<Rightarrow> string \<times> decimal" where
  "keep_best best np = (if snd best < snd np then np else best)"

definition most_likely_regime :: "detector \<Rightarrow> string \<times> decimal" where
  "most_likely_regime dt = foldl keep_best (hd (dt_names dt), 0) (dt_posteriors dt)"

section \<open>Thompson sampling\<close>

record selector =
  sl_strategies :: "string list"
  sl_alpha :: "string \<Rightarrow> decimal option"
  sl_beta :: "string \<Rightarrow> decimal option"
  sl_samples :: "string \<Rightarrow> nat option"

definition new_selector :: "string list \<Rightarrow> selector result" where
  "new_selector names =
     (if names = [] then Inl ValueError
      else Inr \<lparr>sl_strategies = names, sl_alpha = (\<lambda>s. if s \<in> set names then Some 1 else None),
                sl_beta = (\<lambda>s. if s \<in> set names then Some 1 else None),
                sl_samples = (\<lambda>s. if s \<in> set names then Some 0 else None)\<rparr>)"

text \<open>\<open>beta i a b\<close> is the sample drawn for the \<open>i\<close>-th arm.\<close>

definition thompson_select :: "(nat \<Rightarrow> rat \<Rightarrow> rat \<Rightarrow> rat) \<Rightarrow> selector \<Rightarrow> string" where
  "thompson_select beta sl =
     fst (foldl (\<lambda>(best, best_sample) (i, s).
            let sample = flt_decimal (beta i (flt_round (the (sl_alpha sl s))) (flt_round (the (sl_beta sl s))))
            in if best_sample < sample then (s, sample) else (best, best_sample))
          (hd (sl_strategies sl), - 1) (enumerate 0 (sl_strategies sl)))"

definition thompson_update :: "string \<Rightarrow> decimal \<Rightarrow> selector \<Rightarrow> unit result \<times> selector" where
  "thompson_update s reward sl =
     (case (sl_alpha sl s, sl_beta sl s, sl_samples sl s) of
        (Some a, Some b, Some n) \<Rightarrow>
          (Inr (),
           let sl = sl\<lparr>sl_samples := (sl_samples sl)(s \<mapsto> n + 1)\<rparr>
           in if 0 < reward then sl\<lparr>sl_alpha := (sl_alpha sl)(s \<mapsto> dec_add a 1)\<rparr>
              else sl\<lparr>sl_beta := (sl_beta sl)(s \<mapsto> dec_add b 1)\<rparr>)
      | _ \<Rightarrow> (Inl ValueError, sl))"

record arm_stats =
  arm_alpha :: decimal
  arm_beta :: decimal
  arm_mean :: decimal
  arm_samples :: nat

definition get_statistics :: "selector \<Rightarrow> (string \<times> arm_stats) list" where
  "get_statistics sl =
     map (\<lambda>s. let a = the (sl_alpha sl s); b = the (sl_beta sl s); total = dec_add a b
              in (s, \<lparr>arm_alpha = a, arm_beta = b, arm_mean = (if 0 < total then dec_div a total else 0),
                      arm_samples = the (sl_samples sl s)\<rparr>)) (sl_strategies sl)"

section \<open>Normal-Inverse-Gamma estimator\<close>

record estimator =
  es_mu :: decimal
  es_kappa :: decimal
  es_alpha :: decimal
  es_beta :: decimal
  es_n :: nat

definition estimator_update :: "decimal \<Rightarrow> estimator \<Rightarrow> estimator" where
  "estimator_update obs es =
     (let kappa = dec_add (es_kappa es) 1; d = dec_sub obs (es_mu es)
      in \<lparr>es_mu = dec_div (dec_add (dec_mul (es_kappa es) (es_mu es)) obs) kappa, es_kappa = kappa,
          es_alpha = dec_add (es_alpha es) (1 / 2),
          es_beta = dec_add (es_beta es) (dec_div (dec_mul (es_kappa es) (dec_sq d)) (dec_mul 2 kappa)),
          es_n = es_n es + 1\<rparr>)"

definition posterior_variance :: "estimator \<Rightarrow> decimal" where
  "posterior_variance es = (if es_alpha es \<le> 1 then 0 else dec_div (es_beta es) (dec_sub (es_alpha es) 1))"

definition fl_add :: "rat \<Rightarrow> rat \<Rightarrow> rat" where "fl_add x y = flt_round (x + y)"
definition fl_mul :: "rat \<Rightarrow> rat \<Rightarrow> rat" where "fl_mul x y = flt_round (x * y)"

text \<open>The rational approximation; the recursion on \<open>1 - p\<close> happens at most once.\<close>

function inv_normal_cdf :: "(rat \<Rightarrow> rat) \<Rightarrow> rat \<Rightarrow> rat" where
  "inv_normal_cdf c_log p =
     (if p \<le> 0 then - 6 else if 1 \<le> p then 6 else if p = 1 / 2 then 0
      else if 1 / 2 < p then - inv_normal_cdf c_log (flt_round (1 - p))
      else let t = flt_sqrt (fl_mul (- 2) (c_log p));
               num = fl_add (fl_add (flt_round (2515517 / 10 ^ 6)) (fl_mul (flt_round (802853 / 10 ^ 6)) t))
                       (fl_mul (fl_mul (flt_round (10328 / 10 ^ 6)) t) t);
               den = fl_add (fl_add (fl_add 1 (fl_mul (flt_round (1432788 / 10 ^ 6)) t))
                       (fl_mul (fl_mul (flt_round (189269 / 10 ^ 6)) t) t))
                       (fl_mul (fl_mul (fl_mul (flt_round (1308 / 10 ^ 6)) t) t) t)
           in - flt_round (t - flt_round (num / den)))"
  by pat_completeness auto
termination
proof (relation "measure (\<lambda>(c_log, p). if 1 / 2 < p then 1 else 0)")
  fix c_log :: "rat \<Rightarrow> rat" and p :: rat
  assume "1 / 2 < p"
  then have "flt_round (1 - p) \<le> 1 / 2" by (intro flt.rnd_le) (simp_all add: num_eval)
  then show "((c_log, flt_round (1 - p)), c_log, p) \<in> measure (\<lambda>(c_log, p). if 1 / 2 < p then 1 else 0)"
    using \<open>1 / 2 < p\<close> by simp
qed simp

declare inv_normal_cdf.simps [simp del]

definition credible_interval :: "(rat \<Rightarrow> rat) \<Rightarrow> decimal \<Rightarrow> estimator \<Rightarrow> (decimal \<times> decimal) result" where
  "credible_interval c_log alpha es =
     (if es_n es = 0 \<or> es_alpha es \<le> 1 then Inr (es_mu es, es_mu es)
      else rbind (dec_div_checked (posterior_variance es) (es_kappa es)) (\<lambda>mean_var.
             let std = decimal_sqrt_flt mean_var; half = flt_round (flt_round alpha / 2);
                 z = flt_decimal (inv_normal_cdf c_log (flt_round (1 - half)))
             in Inr (dec_sub (es_mu es) (dec_mul z std), dec_add (es_mu es) (dec_mul z std))))"

section \<open>Lemmas\<close>

definition is_prob :: "decimal \<Rightarrow> bool" where
  "is_prob p \<longleftrightarrow> 0 \<le> p \<and> p \<le> 1 \<and> dec_round p = p"

lemma dec_sum_ge:
  assumes "\<And>q. q \<in> set ps \<Longrightarrow> 0 \<le> q" "p \<in> set ps" "dec_round p = p"
  shows "p \<le> dec_sum ps"
proof -
  have "(p \<in> set ps \<or> p \<le> acc) \<longrightarrow> p \<le> foldl dec_add acc ps" if "0 \<le> acc" for acc
    using assms(1) that
  proof (induction ps arbitrary: acc)
    case (Cons q ps)
    have q: "0 \<le> q" using Cons.prems by simp
    then have "0 \<le> dec_add acc q" using Cons.prems(2) by (intro dec_add_nonneg) auto
    moreover have "p \<le> dec_add acc q" if "p = q \<or> p \<le> acc"
      unfolding dec_add_def using that q Cons.prems(2) assms(3) by (intro dec.rnd_ge) auto
    ultimately show ?case using Cons.IH [of "dec_add acc q"] Cons.prems(1) by auto
  qed auto
  from this [of 0] show ?thesis using assms(2) by (simp add: dec_sum_def)
qed

lemma normalise_probs:
  assumes "\<And>p. p \<in> set ps \<Longrightarrow> 0 \<le> p \<and> dec_round p = p" "q \<in> set (normalise ps)"
  shows "is_prob q"
proof (cases "0 < dec_sum ps")
  case True
  then obtain p where p: "p \<in> set ps" "q = dec_div p (dec_sum ps)" using assms(2) by (auto simp: normalise_def Let_def)
  then have "p \<le> dec_sum ps" "0 \<le> p" using assms(1) by (auto intro: dec_sum_ge)
  then have "0 \<le> p / dec_sum ps" "p / dec_sum ps \<le> 1" using True by (simp_all add: divide_le_eq_1)
  then show ?thesis unfolding p(2) is_prob_def dec_div_def
    by (auto simp: dec.rnd_idem intro: dec.rnd_nonneg dec.rnd_le)
next
  case False
  then have q: "q \<in> set ps" using assms(2) by (simp add: normalise_def Let_def)
  then have "q \<le> dec_sum ps" using assms(1) by (intro dec_sum_ge) auto
  then show ?thesis using False assms(1) [OF q] by (simp add: is_prob_def)
qed

lemma length_normalise [simp]: "length (normalise ps) = length ps"
  by (simp add: normalise_def Let_def)

text \<open>The binning accumulates nonnegative, rounded masses.\<close>

definition masses_ok :: "decimal list \<Rightarrow> bool" where
  "masses_ok acc \<longleftrightarrow> (\<forall>p\<in>set acc. 0 \<le> p \<and> dec_round p = p)"

lemma add_to_bin_ok:
  assumes "masses_ok acc" "0 \<le> snd ip"
  shows "masses_ok (add_to_bin f acc ip)"
proof (cases "f (fst ip) < length acc")
  case True
  then have "0 \<le> dec_add (acc ! f (fst ip)) (snd ip)" using assms by (intro dec_add_nonneg) (auto simp: masses_ok_def)
  then show ?thesis
    using assms(1) set_update_subset_insert [of acc "f (fst ip)" "dec_add (acc ! f (fst ip)) (snd ip)"]
    by (auto simp: masses_ok_def add_to_bin_def Let_def dec_add_def dec.rnd_idem)
qed (use assms(1) in \<open>simp add: masses_ok_def add_to_bin_def Let_def list_update_beyond\<close>)

lemma length_add_to_bin [simp]: "length (add_to_bin f acc ip) = length acc"
  by (simp add: add_to_bin_def Let_def)

lemma length_bins [simp]: "length (foldl (add_to_bin f) acc ips) = length acc"
  by (induction ips arbitrary: acc) auto

lemma bins_ok: "masses_ok acc \<Longrightarrow> \<forall>ip\<in>set ips. 0 \<le> snd ip \<Longrightarrow> masses_ok (foldl (add_to_bin f) acc ips)"
  by (induction ips arbitrary: acc) (auto intro: add_to_bin_ok)

lemma regimes_are_probs:
  assumes "\<And>p. p \<in> set probs \<Longrightarrow> 0 \<le> p" "probs \<noteq> []"
  shows "map fst (run_length_to_regimes names probs) = names"
    "\<forall>(name, p) \<in> set (run_length_to_regimes names probs). is_prob p"
proof -
  let ?b = "foldl (add_to_bin (bin_of (length names) (length probs))) (replicate (length names) 0) (enumerate 0 probs)"
  have r: "run_length_to_regimes names probs = zip names (normalise ?b)"
    using assms(2) by (simp add: run_length_to_regimes_def Let_def)
  then show "map fst (run_length_to_regimes names probs) = names" by simp
  have "masses_ok (replicate (length names) 0)" by (simp add: masses_ok_def)
  then have "masses_ok ?b"
    by (rule bins_ok) (use assms(1) in \<open>auto simp: enumerate_eq_zip dest!: set_zip_rightD\<close>)
  then have "is_prob p" if "p \<in> set (normalise ?b)" for p
    by (intro normalise_probs [OF _ that]) (simp add: masses_ok_def)
  then show "\<forall>(name, p) \<in> set (run_length_to_regimes names probs). is_prob p"
    unfolding r by (auto dest: set_zip_rightD)
qed

definition detector_ok :: "detector \<Rightarrow> bool" where
  "detector_ok dt \<longleftrightarrow>
     length (dt_run_lengths dt) = dt_observations dt + 1 \<and> length (dt_stats dt) = dt_observations dt + 1 \<and>
     map fst (dt_stats dt) = [0..<dt_observations dt + 1] \<and> dt_names dt \<noteq> [] \<and>
     0 \<le> dt_hazard dt \<and> dt_hazard dt \<le> 1 \<and> (\<forall>p\<in>set (dt_run_lengths dt). is_prob p) \<and>
     map fst (dt_posteriors dt) = dt_names dt \<and> (\<forall>(name, p)\<in>set (dt_posteriors dt). is_prob p)"

lemma new_detector_ok:
  assumes "new_detector n h = Inr dt" "0 \<le> h" "h \<le> 1"
  shows "detector_ok dt" "dt_names dt = take n REGIME_NAMES" "dt_observations dt = 0"
proof -
  have u: "is_prob (dec_div 1 (of_nat k))" if "0 < k" for k :: nat
    unfolding is_prob_def dec_div_def using that by (auto simp: dec.rnd_idem intro: dec.rnd_nonneg dec.rnd_le)
  have t: "take (min n (length REGIME_NAMES)) REGIME_NAMES = take n REGIME_NAMES" by (cases "n \<le> length REGIME_NAMES") auto
  have k: "min n (length REGIME_NAMES) \<noteq> 0" and dt: "dt = \<lparr>dt_names = take n REGIME_NAMES, dt_hazard = h, dt_run_lengths = [1],
      dt_stats = [(0, 0, 0)], dt_observations = 0,
      dt_posteriors = map (\<lambda>name. (name, dec_div 1 (of_nat (min n (length REGIME_NAMES))))) (take n REGIME_NAMES)\<rparr>"
    using assms(1) by (auto simp: new_detector_def Let_def t split: if_splits)
  then have "take n REGIME_NAMES \<noteq> []" by (auto simp: REGIME_NAMES_def)
  then show "detector_ok dt" using assms(2,3) u [of "min n (length REGIME_NAMES)"] k
    by (auto simp: detector_ok_def dt is_prob_def comp_def)
  show "dt_names dt = take n REGIME_NAMES" "dt_observations dt = 0" by (simp_all add: dt)
qed

text \<open>The density is nonnegative as far as the exponential is.\<close>

lemma isqrt_sqrt_nonneg: "0 \<le> flt_sqrt x"
  by (auto simp: flt_sqrt_def Let_def intro!: flt.rnd_nonneg divide_nonneg_nonneg)

lemma decimal_sqrt_flt_nonneg: "0 \<le> decimal_sqrt_flt x"
  by (simp add: decimal_sqrt_flt_def flt_decimal_nonneg isqrt_sqrt_nonneg)

lemma gaussian_pdf_nonneg:
  assumes "\<And>x y. c_exp x = Some y \<Longrightarrow> 0 \<le> y"
  shows "0 \<le> gaussian_pdf c_exp x mu var"
proof -
  have "0 \<le> decimal_exp c_exp z" for z
    using assms by (auto simp: decimal_exp_def flt_decimal_nonneg split: option.split)
  then show ?thesis
    by (auto simp: gaussian_pdf_def Let_def intro!: dec_mul_nonneg dec_div_nonneg decimal_sqrt_flt_nonneg)
qed

lemma predictive_nonneg:
  assumes "\<And>x y. c_exp x = Some y \<Longrightarrow> 0 \<le> y"
  shows "0 \<le> predictive c_exp obs st"
  by (cases st) (simp add: Let_def gaussian_pdf_nonneg [of c_exp, OF assms])

lemma welford_count: "fst (welford obs st) = fst st + 1"
  by (cases st) (simp add: Let_def)

lemma detector_update_ok:
  assumes exp: "\<And>x y. c_exp x = Some y \<Longrightarrow> 0 \<le> y" and ok: "detector_ok dt" and u: "detector_update c_exp obs dt = (ps, dt')"
  shows "detector_ok dt'" "ps = dt_posteriors dt'" "dt_names dt' = dt_names dt" "dt_observations dt' = dt_observations dt + 1"
proof -
  let ?ws = "map2 (\<lambda>p st. dec_mul p (predictive c_exp obs st)) (dt_run_lengths dt) (dt_stats dt)"
  let ?cp = "foldl (\<lambda>acc w. dec_add acc (dec_mul w (dt_hazard dt))) 0 ?ws"
  let ?raw = "?cp # map (\<lambda>w. dec_mul w (dec_sub 1 (dt_hazard dt))) ?ws"
  have w: "0 \<le> w" if "w \<in> set ?ws" for w
    using that ok predictive_nonneg [of c_exp, OF exp]
    by (auto simp: detector_ok_def is_prob_def intro!: dec_mul_nonneg dest: set_zip_leftD)
  have h: "0 \<le> dec_sub 1 (dt_hazard dt)" using ok by (simp add: detector_ok_def dec_sub_nonneg_iff)
  have fold: "0 \<le> foldl (\<lambda>acc w. dec_add acc (dec_mul w (dt_hazard dt))) acc ws \<and>
      (dec_round acc = acc \<longrightarrow> dec_round (foldl (\<lambda>acc w. dec_add acc (dec_mul w (dt_hazard dt))) acc ws) =
         foldl (\<lambda>acc w. dec_add acc (dec_mul w (dt_hazard dt))) acc ws)"
    if "\<And>w. w \<in> set ws \<Longrightarrow> 0 \<le> w" "0 \<le> acc" for ws acc
    using that
  proof (induction ws arbitrary: acc)
    case (Cons w ws)
    have "0 \<le> dec_add acc (dec_mul w (dt_hazard dt))"
      using Cons.prems ok by (auto simp: detector_ok_def intro!: dec_add_nonneg dec_mul_nonneg)
    then show ?case using Cons.IH [of "dec_add acc (dec_mul w (dt_hazard dt))"] Cons.prems(1)
      by (simp add: dec_add_def dec.rnd_idem)
  qed simp
  have raw: "0 \<le> p \<and> dec_round p = p" if "p \<in> set ?raw" for p
  proof -
    have "p = ?cp \<or> (\<exists>w\<in>set ?ws. p = dec_mul w (dec_sub 1 (dt_hazard dt)))" using that by (simp only: list.set set_map) blast
    then show ?thesis
    proof
      assume "p = ?cp"
      then show ?thesis using fold [OF w order_refl, of ?ws] by simp
    next
      assume "\<exists>w\<in>set ?ws. p = dec_mul w (dec_sub 1 (dt_hazard dt))"
      then show ?thesis using dec_mul_nonneg [OF w h] by (auto simp only: dec_mul_def dec.rnd_idem)
    qed
  qed
  have P: "is_prob p" if "p \<in> set (normalise ?raw)" for p by (rule normalise_probs [OF raw that])
  have len: "length (normalise ?raw) = dt_observations dt + 2" using ok by (simp add: detector_ok_def)
  have ne: "normalise ?raw \<noteq> []"
  proof
    assume "normalise ?raw = []"
    with len show False by (simp only: list.size)
  qed
  have nonneg: "\<And>p. p \<in> set (normalise ?raw) \<Longrightarrow> 0 \<le> p" using P by (simp add: is_prob_def)
  note R = regimes_are_probs [OF nonneg ne, of "dt_names dt"]
  have dt': "dt' = dt\<lparr>dt_run_lengths := normalise ?raw, dt_stats := (0, 0, 0) # map (welford obs) (dt_stats dt),
      dt_observations := dt_observations dt + 1, dt_posteriors := run_length_to_regimes (dt_names dt) (normalise ?raw)\<rparr>"
    and ps: "ps = run_length_to_regimes (dt_names dt) (normalise ?raw)"
    using u unfolding detector_update_def Let_def by (auto simp only: prod.inject)
  have st: "map fst ((0, 0, 0) # map (welford obs) (dt_stats dt)) = [0..<dt_observations dt + 2]"
  proof -
    have "map fst (map (welford obs) (dt_stats dt)) = map Suc (map fst (dt_stats dt))" by (simp add: welford_count)
    also have "\<dots> = map Suc [0..<dt_observations dt + 1]" using ok by (simp only: detector_ok_def)
    also have "\<dots> = [1..<dt_observations dt + 2]" by (simp only: map_Suc_upt) simp
    finally show ?thesis using upt_conv_Cons [of 0 "dt_observations dt + 2"] by simp
  qed
  show "detector_ok dt'"
    unfolding detector_ok_def dt' using ok st P len R by (simp add: detector_ok_def del: upt_Suc)
  show "ps = dt_posteriors dt'" "dt_names dt' = dt_names dt" "dt_observations dt' = dt_observations dt + 1"
    by (simp_all add: dt' ps)
qed

lemma keep_best_max: "np \<in> set ps \<or> snd np \<le> snd acc \<Longrightarrow> snd np \<le> snd (foldl keep_best acc ps)"
proof (induction ps arbitrary: acc)
  case (Cons a ps)
  have "np \<in> set ps \<or> snd np \<le> snd (keep_best acc a)" using Cons.prems by (auto simp: keep_best_def)
  then show ?case using Cons.IH by simp
qed simp

lemma keep_best_member: "foldl keep_best acc ps \<in> insert acc (set ps)"
proof (induction ps arbitrary: acc)
  case (Cons a ps)
  have "keep_best acc a \<in> {acc, a}" by (simp add: keep_best_def)
  then show ?case using Cons.IH [of "keep_best acc a"] by auto
qed simp

section \<open>Properties\<close>

definition observe_all :: "(rat \<Rightarrow> rat option) \<Rightarrow> decimal list \<Rightarrow> detector \<Rightarrow> detector" where
  "observe_all c_exp xs dt = foldl (\<lambda>dt x. snd (detector_update c_exp x dt)) dt xs"

lemma observe_all_ok:
  assumes "\<And>x y. c_exp x = Some y \<Longrightarrow> 0 \<le> y" "detector_ok dt"
  shows "detector_ok (observe_all c_exp xs dt) \<and> dt_names (observe_all c_exp xs dt) = dt_names dt \<and>
     dt_observations (observe_all c_exp xs dt) = dt_observations dt + length xs"
  using assms(2)
proof (induction xs arbitrary: dt)
  case (Cons x xs)
  obtain ps dt' where u: "detector_update c_exp x dt = (ps, dt')" by fastforce
  note U = detector_update_ok [OF assms(1) Cons.prems u]
  show ?case using Cons.IH [OF U(1)] U(3,4) u by (simp add: observe_all_def)
qed (simp add: observe_all_def)



text \<open>The arms of the bandit count their wins and losses; the counts are exact below \<open>10 ^ 28\<close>.\<close>

definition arms_ok :: "selector \<Rightarrow> (string \<Rightarrow> nat) \<Rightarrow> (string \<Rightarrow> nat) \<Rightarrow> bool" where
  "arms_ok sl wins losses \<longleftrightarrow> (\<forall>s \<in> set (sl_strategies sl).
     sl_alpha sl s = Some (of_nat (wins s + 1)) \<and> sl_beta sl s = Some (of_nat (losses s + 1)) \<and>
     sl_samples sl s = Some (wins s + losses s))"

lemma new_selector_arms: "new_selector names = Inr sl \<Longrightarrow> arms_ok sl (\<lambda>_. 0) (\<lambda>_. 0)"
  by (auto simp: new_selector_def arms_ok_def split: if_splits)

lemma thompson_update_arms:
  assumes "arms_ok sl wins losses" "s \<in> set (sl_strategies sl)" "wins s + 2 < 10 ^ 28" "losses s + 2 < 10 ^ 28"
  shows "\<exists>sl'. thompson_update s reward sl = (Inr (), sl') \<and>
     (if 0 < reward then arms_ok sl' (wins(s := wins s + 1)) losses else arms_ok sl' wins (losses(s := losses s + 1)))"
proof -
  have e: "dec_add (of_nat (k + 1)) 1 = of_nat (k + 1 + 1)" if "k + 2 < 10 ^ 28" for k
  proof -
    have "dec_round (of_nat (k + 2)) = of_nat (k + 2)"
      by (rule dec_round_grid [where k = 0 and m = "int (k + 2)"]) (use that in simp_all)
    then show ?thesis by (simp add: dec_add_def algebra_simps)
  qed
  have s: "sl_alpha sl s = Some (of_nat (wins s + 1))" "sl_beta sl s = Some (of_nat (losses s + 1))"
    "sl_samples sl s = Some (wins s + losses s)" using assms(1,2) by (auto simp: arms_ok_def)
  show ?thesis
  proof (cases "0 < reward")
    case True
    then show ?thesis using assms(1) s e [OF assms(3)]
      by (intro exI conjI) (simp add: thompson_update_def, simp add: arms_ok_def Let_def)
  next
    case False
    then show ?thesis using assms(1) s e [OF assms(4)]
      by (intro exI conjI) (simp add: thompson_update_def, simp add: arms_ok_def Let_def)
  qed
qed

lemma unknown_arm: "sl_alpha sl s = None \<Longrightarrow> thompson_update s reward sl = (Inl ValueError, sl)"
  by (simp add: thompson_update_def)

end
