(* ===== verification/Tail_Risk.thy ===== *)
theory Tail_Risk
  imports Bayesian
begin

text \<open>
  \<open>math/extreme_value.py\<close>: the Generalized Pareto fit by probability-weighted moments, its distribution function,
  value at risk, the peaks-over-threshold analyzer and the historical expected shortfall. Exponential, logarithm and
  power of the C library are arguments; they may raise.
\<close>

section \<open>Generalized Pareto distribution\<close>

definition MIN_EXCEEDANCES :: nat where "MIN_EXCEEDANCES = 20"
definition XI_NEAR_ZERO :: decimal where "XI_NEAR_ZERO = 1 / 10 ^ 12"

definition weighted_moment :: "decimal list \<Rightarrow> decimal" where
  "weighted_moment xs =
     (let n = length xs
      in dec_div (foldl (\<lambda>acc (i, x). dec_add acc (dec_mul (dec_div (of_nat i) (of_nat (n - 1))) x)) 0 (enumerate 0 xs)) (of_nat n))"

definition gpd_fit :: "decimal list \<Rightarrow> (decimal \<times> decimal) result" where
  "gpd_fit exceedances =
     (if length exceedances < MIN_EXCEEDANCES then Inl ValueError
      else let xs = sort exceedances; b0 = dec_div (dec_sum xs) (of_nat (length xs)); b1 = weighted_moment xs;
               denominator = dec_sub b0 (dec_mul 2 b1)
           in if dec_abs denominator < 1 / 10 ^ 30 then Inl ValueError
              else let sigma = dec_div (dec_mul (dec_mul 2 b0) b1) denominator; xi = dec_sub 2 (dec_div b0 denominator)
                   in if sigma \<le> 0 then Inl ValueError else Inr (xi, sigma))"

definition gpd_cdf :: "(rat \<Rightarrow> rat result) \<Rightarrow> (rat \<Rightarrow> rat \<Rightarrow> rat result) \<Rightarrow> decimal \<Rightarrow> decimal \<Rightarrow> decimal \<Rightarrow> decimal result" where
  "gpd_cdf c_exp c_pow x xi sigma =
     (if sigma \<le> 0 then Inl ValueError
      else if x < 0 then Inr 0
      else if dec_abs xi < XI_NEAR_ZERO
      then rbind (c_exp (flt_round (dec_div (dec_neg x) sigma))) (\<lambda>s. Inr (dec_sub 1 (flt_decimal s)))
      else let inner = dec_add 1 (dec_div (dec_mul xi x) sigma)
           in if inner \<le> 0 then Inr (if xi < 0 then 1 else 0)
              else rbind (c_pow (flt_round inner) (flt_round (dec_div (- 1) xi))) (\<lambda>s. Inr (dec_sub 1 (flt_decimal s))))"

definition gpd_var ::
  "(rat \<Rightarrow> rat result) \<Rightarrow> (rat \<Rightarrow> rat \<Rightarrow> rat result) \<Rightarrow> decimal \<Rightarrow> decimal \<Rightarrow> decimal \<Rightarrow> int \<Rightarrow> int \<Rightarrow> decimal result" where
  "gpd_var c_log c_pow alpha xi sigma n_total n_exceed =
     (if n_exceed \<le> 0 then Inl ValueError
      else if \<not> (0 < alpha \<and> alpha < 1) then Inl ValueError
      else let ratio = dec_mul (dec_div (of_int n_total) (of_int n_exceed)) (dec_sub 1 alpha)
           in if dec_abs xi < XI_NEAR_ZERO
              then if ratio \<le> 0 then Inl ValueError
                   else rbind (c_log (flt_round ratio)) (\<lambda>l. Inr (dec_mul (dec_neg sigma) (flt_decimal l)))
              else rbind (c_pow (flt_round ratio) (flt_round (dec_neg xi))) (\<lambda>p.
                     Inr (dec_mul (dec_div sigma xi) (dec_sub (flt_decimal p) 1))))"

definition gpd_cvar ::
  "(rat \<Rightarrow> rat result) \<Rightarrow> (rat \<Rightarrow> rat \<Rightarrow> rat result) \<Rightarrow> decimal \<Rightarrow> decimal \<Rightarrow> decimal \<Rightarrow> decimal \<Rightarrow> int \<Rightarrow> int \<Rightarrow> decimal result" where
  "gpd_cvar c_log c_pow alpha xi sigma threshold n_total n_exceed =
     (if 1 \<le> xi then Inl ValueError
      else rbind (gpd_var c_log c_pow alpha xi sigma n_total n_exceed) (\<lambda>v.
             let d = dec_sub 1 xi
             in Inr (dec_add (dec_div v d) (dec_div (dec_sub sigma (dec_mul xi threshold)) d))))"

section \<open>Peaks over threshold\<close>

record tail_analyzer =
  ta_confidence :: decimal
  ta_threshold_pct :: decimal

definition new_tail_analyzer :: "decimal \<Rightarrow> decimal \<Rightarrow> tail_analyzer result" where
  "new_tail_analyzer confidence pct =
     (if \<not> (0 < confidence \<and> confidence < 1) \<or> \<not> (0 < pct \<and> pct < 1) then Inl ValueError
      else Inr \<lparr>ta_confidence = confidence, ta_threshold_pct = pct\<rparr>)"

definition percentile :: "decimal list \<Rightarrow> decimal \<Rightarrow> decimal result" where
  "percentile xs pct =
     (let n = length xs
      in if n = 0 then Inl ValueError
         else if n = 1 then Inr (xs ! 0)
         else let pos = dec_mul pct (of_nat (n - 1)); lower = nat \<lfloor>pos\<rfloor>; frac = dec_sub pos (of_nat lower)
              in if n \<le> lower + 1 then Inr (last xs)
                 else Inr (dec_add (xs ! lower) (dec_mul frac (dec_sub (xs ! (lower + 1)) (xs ! lower)))))"

record tail_report =
  tl_var :: decimal
  tl_cvar :: decimal
  tl_shape :: decimal
  tl_scale :: decimal
  tl_threshold :: decimal
  tl_n_exceedances :: nat

definition analyze_tail ::
  "(rat \<Rightarrow> rat result) \<Rightarrow> (rat \<Rightarrow> rat \<Rightarrow> rat result) \<Rightarrow> tail_analyzer \<Rightarrow> decimal list \<Rightarrow> tail_report result" where
  "analyze_tail c_log c_pow ta returns =
     (if length returns < MIN_EXCEEDANCES then Inl ValueError
      else let losses = sort (map dec_neg returns)
           in rbind (percentile losses (ta_threshold_pct ta)) (\<lambda>threshold.
              let exceedances = map (\<lambda>l. dec_sub l threshold) (filter (\<lambda>l. threshold < l) losses); k = length exceedances
              in if k < MIN_EXCEEDANCES then Inl ValueError
                 else rbind (gpd_fit exceedances) (\<lambda>(xi, sigma).
                      rbind (gpd_var c_log c_pow (ta_confidence ta) xi sigma (int (length returns)) (int k)) (\<lambda>v.
                      rbind (gpd_cvar c_log c_pow (ta_confidence ta) xi sigma threshold (int (length returns)) (int k)) (\<lambda>cv.
                        Inr \<lparr>tl_var = v, tl_cvar = cv, tl_shape = xi, tl_scale = sigma, tl_threshold = threshold,
                             tl_n_exceedances = k\<rparr>)))))"

definition expected_shortfall_historical :: "decimal list \<Rightarrow> decimal \<Rightarrow> decimal result" where
  "expected_shortfall_historical returns alpha =
     (if returns = [] then Inl ValueError
      else if \<not> (0 < alpha \<and> alpha \<le> 1) then Inl ValueError
      else let cutoff = max 1 (nat \<lfloor>dec_mul (of_nat (length returns)) alpha\<rfloor>); worst = take cutoff (sort returns)
           in Inr (dec_div (dec_sum worst) (of_nat (length worst))))"

section \<open>Lemmas\<close>

lemma flt_decimal_le_1: "x \<le> 1 \<Longrightarrow> flt_decimal x \<le> 1"
proof -
  assume x: "x \<le> 1"
  have "round_sig 10 p x \<le> 1" if "0 < p" for p
    using round_sig_mono [of 10 p x 1] round_sig_exact [where b = 10 and p = p and x = 1 and m = 1 and k = 0] x that by simp
  then show ?thesis by (auto simp: flt_decimal_def opt_get_def find_Some_iff split: option.split)
qed

lemma complement_in_unit:
  assumes "0 \<le> s" "s \<le> 1"
  shows "0 \<le> dec_sub 1 (flt_decimal s)" "dec_sub 1 (flt_decimal s) \<le> 1"
  using flt_decimal_nonneg [OF assms(1)] flt_decimal_le_1 [OF assms(2)]
  by (auto simp: dec_sub_def intro!: dec.rnd_le dec.rnd_nonneg)

lemma gpd_fit_facts:
  assumes "gpd_fit xs = Inr (xi, sigma)"
  shows "0 < sigma" "MIN_EXCEEDANCES \<le> length xs"
  using assms by (auto simp: gpd_fit_def Let_def split: if_splits)

text \<open>What the C functions promise where the distribution function calls them.\<close>

definition c_functions_ok :: "(rat \<Rightarrow> rat result) \<Rightarrow> (rat \<Rightarrow> rat \<Rightarrow> rat result) \<Rightarrow> bool" where
  "c_functions_ok c_exp c_pow \<longleftrightarrow>
     (\<forall>x. x \<le> 0 \<longrightarrow> (\<exists>y. c_exp x = Inr y \<and> 0 \<le> y \<and> y \<le> 1)) \<and>
     (\<forall>b e. 1 \<le> b \<and> e \<le> 0 \<or> 0 < b \<and> b \<le> 1 \<and> 0 \<le> e \<longrightarrow> (\<exists>y. c_pow b e = Inr y \<and> 0 \<le> y \<and> y \<le> 1))"

lemma gpd_cdf_unit:
  assumes "c_functions_ok c_exp c_pow" "0 < sigma"
  shows "\<exists>p. gpd_cdf c_exp c_pow x xi sigma = Inr p \<and> 0 \<le> p \<and> p \<le> 1"
proof (cases "x < 0")
  case False
  let ?inner = "dec_add 1 (dec_div (dec_mul xi x) sigma)"
  consider (flat) "dec_abs xi < XI_NEAR_ZERO" | (beyond) "\<not> dec_abs xi < XI_NEAR_ZERO" "?inner \<le> 0"
    | (inside) "\<not> dec_abs xi < XI_NEAR_ZERO" "0 < ?inner" by linarith
  then show ?thesis
  proof cases
    case flat
    have "flt_round (dec_div (dec_neg x) sigma) \<le> 0"
      using False assms(2) by (auto simp: dec_ops intro!: flt.rnd_nonpos dec.rnd_nonpos divide_nonpos_pos)
    then obtain y where y: "c_exp (flt_round (dec_div (dec_neg x) sigma)) = Inr y" "0 \<le> y" "y \<le> 1"
      using assms(1) unfolding c_functions_ok_def by blast
    then show ?thesis using False flat assms(2) complement_in_unit [of y] by (simp add: gpd_cdf_def)
  next
    case beyond
    then show ?thesis using False assms(2) by (simp add: gpd_cdf_def)
  next
    case inside
    have "1 \<le> flt_round ?inner \<and> flt_round (dec_div (- 1) xi) \<le> 0 \<or>
      0 < flt_round ?inner \<and> flt_round ?inner \<le> 1 \<and> 0 \<le> flt_round (dec_div (- 1) xi)"
    proof (cases "0 \<le> xi")
      case True
      then have "0 \<le> dec_div (dec_mul xi x) sigma" using False assms(2) by (intro dec_div_nonneg dec_mul_nonneg) auto
      then have "1 \<le> ?inner" unfolding dec_add_def by (intro dec.rnd_ge) auto
      then have "1 \<le> flt_round ?inner" by (intro flt.rnd_ge) (simp_all add: num_eval)
      moreover have "flt_round (dec_div (- 1) xi) \<le> 0"
        using True by (auto simp: dec_div_def intro!: flt.rnd_nonpos dec.rnd_nonpos)
      ultimately show ?thesis by blast
    next
      case neg: False
      have "dec_div (dec_mul xi x) sigma \<le> 0"
        using neg False assms(2) by (auto simp: dec_ops intro!: dec.rnd_nonpos divide_nonpos_pos mult_nonpos_nonneg)
      then have "?inner \<le> 1" unfolding dec_add_def by (intro dec.rnd_le) auto
      then have "flt_round ?inner \<le> 1" by (intro flt.rnd_le) (simp_all add: num_eval)
      moreover have "0 < flt_round ?inner" using inside by (simp add: flt.rnd_pos_iff)
      moreover have "0 \<le> flt_round (dec_div (- 1) xi)"
        using neg by (auto simp: dec_div_def divide_nonpos_neg intro!: flt.rnd_nonneg dec.rnd_nonneg)
      ultimately show ?thesis by blast
    qed
    then obtain y where y: "c_pow (flt_round ?inner) (flt_round (dec_div (- 1) xi)) = Inr y" "0 \<le> y" "y \<le> 1"
      using assms(1) unfolding c_functions_ok_def by blast
    then show ?thesis using False inside assms(2) complement_in_unit [of y] by (simp add: gpd_cdf_def Let_def)
  qed
qed (use assms(2) in \<open>simp add: gpd_cdf_def\<close>)

lemma analyze_tail_facts:
  assumes "analyze_tail c_log c_pow ta returns = Inr r"
  shows "MIN_EXCEEDANCES \<le> tl_n_exceedances r" "tl_n_exceedances r = length (filter (\<lambda>x. tl_threshold r < dec_neg x) returns)"
    "0 < tl_scale r" "tl_shape r < 1"
proof -
  have len: "length (filter P (sort (map dec_neg returns))) = length (filter (\<lambda>x. P (dec_neg x)) returns)" for P
  proof -
    have "length (filter P (sort (map dec_neg returns))) = size (filter_mset P (mset (map dec_neg returns)))"
      by (metis mset_filter mset_sort size_mset)
    then show ?thesis by (metis (no_types) comp_apply filter_cong filter_map length_map mset_filter size_mset)
  qed
  show "MIN_EXCEEDANCES \<le> tl_n_exceedances r" "tl_n_exceedances r = length (filter (\<lambda>x. tl_threshold r < dec_neg x) returns)"
    "0 < tl_scale r" "tl_shape r < 1"
    using assms gpd_fit_facts(1) by (auto simp: analyze_tail_def gpd_cvar_def Let_def len split: if_splits)
qed

section \<open>Rounded sums\<close>

definition ulp :: rat where "ulp = 1 / 10 ^ 27"

lemma dec_round_relative:
  assumes "0 \<le> x"
  shows "(1 - ulp) * x \<le> dec_round x" "dec_round x \<le> (1 + ulp) * x"
proof -
  have "\<bar>dec_round x - x\<bar> * 10 ^ 27 \<le> \<bar>x\<bar>"
    using round_sig_error [of 10 28 x] unfolding dec_round_def by simp
  then have "\<bar>dec_round x - x\<bar> \<le> ulp * x" using assms by (simp add: ulp_def field_simps)
  then show "(1 - ulp) * x \<le> dec_round x" "dec_round x \<le> (1 + ulp) * x" by (simp_all add: abs_le_iff algebra_simps)
qed

lemma foldl_add_bounds:
  assumes "\<forall>t\<in>set ts. 0 \<le> t" "0 \<le> acc"
  shows "(1 - ulp) ^ length ts * (acc + sum_list ts) \<le> foldl dec_add acc ts \<and>
    foldl dec_add acc ts \<le> (1 + ulp) ^ length ts * (acc + sum_list ts)"
  using assms
proof (induction ts arbitrary: acc)
  case (Cons t ts)
  let ?acc = "dec_add acc t" and ?l = "(1 - ulp) ^ length ts" and ?u = "(1 + ulp) ^ length ts"
  have s: "0 \<le> sum_list ts" using Cons.prems(1) by (intro sum_list_nonneg) auto
  have a: "0 \<le> acc + t" using Cons.prems by simp
  then have r: "(1 - ulp) * (acc + t) \<le> ?acc" "?acc \<le> (1 + ulp) * (acc + t)" "0 \<le> ?acc"
    using dec_round_relative dec.rnd_nonneg by (simp_all add: dec_add_def)
  have u: "0 \<le> (ulp :: rat)" "ulp \<le> 1" by (simp_all add: ulp_def)
  have IH: "?l * (?acc + sum_list ts) \<le> foldl dec_add ?acc ts" "foldl dec_add ?acc ts \<le> ?u * (?acc + sum_list ts)"
    using Cons.IH [OF _ r(3)] Cons.prems(1) by auto
  have "(1 - ulp) * (acc + t + sum_list ts) \<le> ?acc + sum_list ts"
    using r(1) mult_nonneg_nonneg [OF u(1) s] by (simp add: algebra_simps)
  then have "?l * ((1 - ulp) * (acc + t + sum_list ts)) \<le> ?l * (?acc + sum_list ts)" using u by (intro mult_left_mono) auto
  moreover have "?acc + sum_list ts \<le> (1 + ulp) * (acc + t + sum_list ts)"
    using r(2) mult_nonneg_nonneg [OF u(1) s] by (simp add: algebra_simps)
  then have "?u * (?acc + sum_list ts) \<le> ?u * ((1 + ulp) * (acc + t + sum_list ts))" using u by (intro mult_left_mono) auto
  ultimately show ?case using IH by (simp add: algebra_simps)
qed simp

lemma ulp_power: "1 - of_nat m * ulp \<le> (1 - ulp) ^ m"
proof (induction m)
  case (Suc m)
  have u: "0 \<le> (ulp :: rat)" "ulp \<le> 1" by (simp_all add: ulp_def)
  have "(1 - ulp) * (1 - of_nat m * ulp) \<le> (1 - ulp) * (1 - ulp) ^ m" using Suc u by (intro mult_left_mono) auto
  moreover have "1 - of_nat (Suc m) * ulp \<le> (1 - ulp) * (1 - of_nat m * ulp)"
    using mult_nonneg_nonneg [OF u(1) mult_nonneg_nonneg [OF u(1) of_nat_0_le_iff [of m]]] by (simp add: algebra_simps)
  ultimately show ?case by simp
qed simp

lemma ulp_cancel: "(1 + ulp) ^ m * (1 - ulp) ^ m \<le> 1"
proof -
  have "(1 + ulp) ^ m * (1 - ulp) ^ m = ((1 + ulp) * (1 - ulp)) ^ m" by (simp add: power_mult_distrib)
  moreover have "(1 + ulp) * (1 - ulp) \<le> (1 :: rat)" "0 \<le> (1 + ulp) * (1 - ulp :: rat)" by (simp_all add: ulp_def)
  ultimately show ?thesis by (simp add: power_le_one)
qed

section \<open>Properties\<close>

text \<open>The exact first moment with the weights of the code, and the exact sum.\<close>

definition exact_weighted :: "decimal list \<Rightarrow> rat" where
  "exact_weighted xs = sum_list (map (\<lambda>(i, x). of_nat i / of_nat (length xs - 1) * x) (enumerate 0 xs))"

lemma weighted_moment_lower:
  assumes "\<forall>x\<in>set xs. 0 \<le> x" "2 \<le> length xs"
  shows "(1 - ulp) ^ (length xs + 3) * (exact_weighted xs / of_nat (length xs)) \<le> weighted_moment xs"
proof -
  let ?n = "length xs"
  let ?t = "\<lambda>(i, x). dec_mul (dec_div (of_nat i) (of_nat (?n - 1))) x"
  let ?e = "\<lambda>(i, x). of_nat i / of_nat (?n - 1) * x"
  have u: "0 \<le> (ulp :: rat)" "ulp \<le> 1" by (simp_all add: ulp_def)
  have x: "0 \<le> x" if "(i, x) \<in> set (enumerate 0 xs)" for i x
    using that assms(1) by (auto simp: enumerate_eq_zip dest: set_zip_rightD)
  have t: "(1 - ulp) ^ 2 * ?e p \<le> ?t p \<and> 0 \<le> ?t p" if p: "p \<in> set (enumerate 0 xs)" for p
  proof -
    obtain i v where v: "p = (i, v)" by fastforce
    let ?w = "of_nat i / of_nat (?n - 1) :: rat"
    have v0: "0 \<le> v" using x p v by blast
    have w: "(1 - ulp) * ?w \<le> dec_round ?w" "0 \<le> dec_round ?w"
      using dec_round_relative(1) [of ?w] dec.rnd_nonneg [of ?w] by simp_all
    have "(1 - ulp) * ((1 - ulp) * ?w * v) \<le> (1 - ulp) * (dec_round ?w * v)"
      using w(1) v0 u by (intro mult_left_mono mult_right_mono) auto
    also have "\<dots> \<le> dec_round (dec_round ?w * v)" by (rule dec_round_relative(1)) (use w(2) v0 in simp)
    finally show ?thesis using w(2) v0 by (simp add: v dec_ops power2_eq_square algebra_simps dec.rnd_nonneg)
  qed
  have "foldl (\<lambda>acc p. dec_add acc (?t p)) 0 (enumerate 0 xs) = foldl dec_add 0 (map ?t (enumerate 0 xs))"
    by (simp add: foldl_map)
  then have w: "weighted_moment xs = dec_div (foldl dec_add 0 (map ?t (enumerate 0 xs))) (of_nat ?n)"
    by (simp add: weighted_moment_def Let_def case_prod_unfold)
  have "(1 - ulp) ^ 2 * exact_weighted xs = sum_list (map (\<lambda>p. (1 - ulp) ^ 2 * ?e p) (enumerate 0 xs))"
    unfolding exact_weighted_def by (rule sum_list_const_mult [symmetric])
  also have "\<dots> \<le> sum_list (map ?t (enumerate 0 xs))" using t by (intro sum_list_mono) blast
  finally have s: "(1 - ulp) ^ 2 * exact_weighted xs \<le> sum_list (map ?t (enumerate 0 xs))" .
  have "(1 - ulp) ^ ?n * sum_list (map ?t (enumerate 0 xs)) \<le> foldl dec_add 0 (map ?t (enumerate 0 xs))"
    using foldl_add_bounds [of "map ?t (enumerate 0 xs)" 0] t by auto
  moreover have "(1 - ulp) ^ ?n * ((1 - ulp) ^ 2 * exact_weighted xs) \<le> (1 - ulp) ^ ?n * sum_list (map ?t (enumerate 0 xs))"
    using s u by (intro mult_left_mono) auto
  ultimately have "(1 - ulp) ^ ?n * ((1 - ulp) ^ 2 * exact_weighted xs) \<le> foldl dec_add 0 (map ?t (enumerate 0 xs))"
    by linarith
  then have f: "(1 - ulp) ^ (?n + 2) * exact_weighted xs \<le> foldl dec_add 0 (map ?t (enumerate 0 xs))"
    by (simp only: power_add mult.assoc)
  have nonneg: "0 \<le> foldl dec_add 0 (map ?t (enumerate 0 xs))"
    using dec_sum_nonneg [of "map ?t (enumerate 0 xs)"] t by (auto simp: dec_sum_def)
  have "(1 - ulp) * ((1 - ulp) ^ (?n + 2) * exact_weighted xs / of_nat ?n) \<le>
      (1 - ulp) * (foldl dec_add 0 (map ?t (enumerate 0 xs)) / of_nat ?n)"
    using f u by (intro mult_left_mono divide_right_mono) auto
  also have "\<dots> \<le> weighted_moment xs"
    unfolding w dec_div_def [of _ "of_nat ?n"] by (rule dec_round_relative(1)) (use nonneg in simp)
  finally have "(1 - ulp) * ((1 - ulp) ^ (?n + 2) * exact_weighted xs / of_nat ?n) \<le> weighted_moment xs" .
  moreover have "(1 - ulp) ^ (?n + 3) = (1 - ulp :: rat) * (1 - ulp) ^ (?n + 2)" by (simp add: numeral_3_eq_3)
  ultimately show ?thesis by (simp only: times_divide_eq_right mult.assoc)
qed

lemma mean_upper:
  assumes "\<forall>x\<in>set xs. 0 \<le> x" "xs \<noteq> []"
  shows "dec_div (dec_sum xs) (of_nat (length xs)) \<le> (1 + ulp) ^ (length xs + 1) * (sum_list xs / of_nat (length xs))"
proof -
  have u: "0 \<le> (ulp :: rat)" by (simp add: ulp_def)
  have f: "dec_sum xs \<le> (1 + ulp) ^ length xs * sum_list xs"
    using foldl_add_bounds [OF assms(1), of 0] by (simp add: dec_sum_def)
  have n: "0 \<le> dec_sum xs" using assms(1) by (rule dec_sum_nonneg)
  have "dec_div (dec_sum xs) (of_nat (length xs)) \<le> (1 + ulp) * (dec_sum xs / of_nat (length xs))"
    unfolding dec_div_def by (rule dec_round_relative(2)) (use n in simp)
  also have "\<dots> \<le> (1 + ulp) * ((1 + ulp) ^ length xs * sum_list xs / of_nat (length xs))"
    using f u by (intro mult_left_mono divide_right_mono) auto
  finally show ?thesis by (simp only: power_add power_one_right times_divide_eq_right mult_ac)
qed

text \<open>How far the exact moment must exceed half the exact mean for the rounding not to matter.\<close>

definition spread :: "decimal list \<Rightarrow> bool" where
  "spread xs \<longleftrightarrow> sum_list xs * (1 + 1 / 10 ^ 12) \<le> 2 * exact_weighted xs"

lemma moments_ordered:
  assumes pos: "\<forall>x\<in>set xs. 0 \<le> x" and n: "2 \<le> length xs" "length xs \<le> 10 ^ 6" and sp: "spread xs"
  shows "dec_div (dec_sum xs) (of_nat (length xs)) \<le> dec_mul 2 (weighted_moment xs)"
proof -
  let ?n = "length xs" and ?S = "sum_list xs / of_nat (length xs)" and ?W = "exact_weighted xs / of_nat (length xs)"
  have u: "0 \<le> (ulp :: rat)" "ulp < 1" by (simp_all add: ulp_def)
  have S: "0 \<le> ?S" using pos by (simp add: sum_list_nonneg)
  have "sum_list xs * (1 + 1 / 10 ^ 12) / of_nat ?n \<le> 2 * exact_weighted xs / of_nat ?n"
    using sp unfolding spread_def by (intro divide_right_mono) auto
  then have W: "?S * (1 + 1 / 10 ^ 12) \<le> 2 * ?W" by (simp only: times_divide_eq_left times_divide_eq_right)
  then have W0: "0 \<le> ?W" using S mult_nonneg_nonneg [OF S, of "1 + 1 / 10 ^ 12"] by simp
  let ?L = "(1 - ulp) ^ (?n + 4)" and ?U = "(1 + ulp) ^ (?n + 1)"
  have L0: "0 < ?L" using u by simp
  have m: "(1 - ulp) ^ (?n + 3) * ?W \<le> weighted_moment xs" by (rule weighted_moment_lower [OF pos n(1)])
  then have m0: "0 \<le> weighted_moment xs" using W0 u by (metis (no_types, lifting) diff_ge_0_iff_ge less_imp_le mult_nonneg_nonneg order_trans zero_le_power)
  have "?L = (1 - ulp) * (1 - ulp) ^ (?n + 3)" by (simp add: eval_nat_numeral)
  then have "?L * (2 * ?W) = (1 - ulp) * (2 * ((1 - ulp) ^ (?n + 3) * ?W))" by (simp only: mult_ac)
  also have "\<dots> \<le> (1 - ulp) * (2 * weighted_moment xs)" using m u by (intro mult_left_mono) auto
  also have "\<dots> \<le> dec_mul 2 (weighted_moment xs)" unfolding dec_mul_def by (rule dec_round_relative(1)) (use m0 in simp)
  finally have lo: "?L * (2 * ?W) \<le> dec_mul 2 (weighted_moment xs)" .
  have "1 - of_nat (?n + 4 + (?n + 1)) * ulp \<ge> 1 - 1 / 10 ^ 20"
  proof -
    have "of_nat (?n + 4 + (?n + 1)) \<le> (2 * 10 ^ 6 + 5 :: rat)" using n(2) of_nat_mono [of ?n "10 ^ 6", where 'a = rat] by simp
    then have "of_nat (?n + 4 + (?n + 1)) * ulp \<le> (2 * 10 ^ 6 + 5) * ulp" using u by (intro mult_right_mono) auto
    also have "\<dots> \<le> 1 / 10 ^ 20" by (simp add: ulp_def)
    finally show ?thesis by simp
  qed
  then have p: "1 - 1 / 10 ^ 20 \<le> ?L * (1 - ulp) ^ (?n + 1)"
    unfolding power_add [of "1 - ulp" "?n + 4" "?n + 1", symmetric] by (rule order_trans [OF _ ulp_power])
  have "?U * 1 \<le> ?U * ((1 - 1 / 10 ^ 20) * (1 + 1 / 10 ^ 12))" using u by (intro mult_left_mono) auto
  also have "\<dots> \<le> ?U * (?L * (1 - ulp) ^ (?n + 1) * (1 + 1 / 10 ^ 12))"
    using p u by (intro mult_left_mono mult_right_mono) auto
  also have "\<dots> = (?U * (1 - ulp) ^ (?n + 1)) * (?L * (1 + 1 / 10 ^ 12))" by (simp add: algebra_simps)
  also have "\<dots> \<le> 1 * (?L * (1 + 1 / 10 ^ 12))" using ulp_cancel [of "?n + 1"] L0 by (intro mult_right_mono) auto
  finally have ul: "?U \<le> ?L * (1 + 1 / 10 ^ 12)" by simp
  have "dec_div (dec_sum xs) (of_nat ?n) \<le> ?U * ?S" using mean_upper [OF pos] n(1) by fastforce
  also have "\<dots> \<le> ?L * (1 + 1 / 10 ^ 12) * ?S" using ul S by (intro mult_right_mono)
  also have "\<dots> = ?L * (?S * (1 + 1 / 10 ^ 12))" by (simp add: algebra_simps)
  also have "\<dots> \<le> ?L * (2 * ?W)" using W L0 by (intro mult_left_mono) auto
  finally show ?thesis using lo by simp
qed

text \<open>
  The tail fit refuses every sample with a spread: for any nonnegative exceedances, up to a million of them, whose
  weighted moment exceeds half their mean by a part in \<open>10 ^ 12\<close>, in exact arithmetic, the fit raises \<open>ValueError\<close>. The
  ascending weights make the denominator negative, and with it the scale.
\<close>

theorem tail_fit_refuses_spread:
  assumes "\<forall>x\<in>set xs. 0 \<le> x" "length xs \<le> 10 ^ 6" "spread (sort xs)"
  shows "gpd_fit xs = Inl ValueError"
proof (cases "length xs < MIN_EXCEEDANCES")
  case False
  let ?xs = "sort xs" and ?b0 = "dec_div (dec_sum (sort xs)) (of_nat (length (sort xs)))"
  have le: "?b0 \<le> dec_mul 2 (weighted_moment ?xs)"
    by (rule moments_ordered) (use assms False in \<open>simp_all add: MIN_EXCEEDANCES_def\<close>)
  have b0: "0 \<le> ?b0" using assms(1) by (intro dec_div_nonneg dec_sum_nonneg) auto
  then have "0 \<le> dec_mul 2 (weighted_moment ?xs)" using le by simp
  then have b1: "0 \<le> weighted_moment ?xs" using dec.rnd_neg_iff [of "2 * weighted_moment ?xs"] by (simp add: dec_mul_def)
  have "dec_sub ?b0 (dec_mul 2 (weighted_moment ?xs)) \<le> 0" unfolding dec_sub_def using le by (intro dec.rnd_nonpos) simp
  moreover have "0 \<le> dec_mul (dec_mul 2 ?b0) (weighted_moment ?xs)" using b0 b1 by (intro dec_mul_nonneg) auto
  ultimately have "dec_div (dec_mul (dec_mul 2 ?b0) (weighted_moment ?xs)) (dec_sub ?b0 (dec_mul 2 (weighted_moment ?xs))) \<le> 0"
    unfolding dec_div_def by (intro dec.rnd_nonpos divide_nonneg_nonpos)
  then show ?thesis using False by (simp add: gpd_fit_def Let_def)
qed (simp add: gpd_fit_def)

theorem tail_fit_refuses_spread_witness: "gpd_fit (map of_nat [1..<21]) = Inl ValueError"
proof -
  have "sort (map of_nat [1..<21]) = (map of_nat [1..<21] :: decimal list)" by (simp add: sorted_map sort_key_id_if_sorted)
  moreover have "spread (map of_nat [1..<21])" by (simp add: spread_def exact_weighted_def upt_rec)
  ultimately show ?thesis by (intro tail_fit_refuses_spread) auto
qed

text \<open>The shortfall is the mean of the worst returns, at least one of them.\<close>

lemma shortfall_of_worst:
  assumes "expected_shortfall_historical returns alpha = Inr es"
  shows "\<exists>k. 1 \<le> k \<and> es = dec_div (dec_sum (take k (sort returns))) (of_nat (min (length returns) k))"
  using assms by (auto simp: expected_shortfall_historical_def Let_def split: if_splits intro: exI [of _ 1])
    (metis max.cobounded1)

lemma percentile_at_least_first:
  assumes "sorted xs" "\<forall>x\<in>set xs. dec_round x = x" "percentile xs pct = Inr p" "0 \<le> pct"
  shows "xs ! 0 \<le> p"
proof -
  let ?pos = "dec_mul pct (of_nat (length xs - 1))" and ?l = "nat \<lfloor>dec_mul pct (of_nat (length xs - 1))\<rfloor>"
  consider "length xs = 1" "p = xs ! 0" | "xs \<noteq> []" "length xs \<le> ?l + 1" "p = last xs"
    | "xs \<noteq> []" "?l + 1 < length xs"
      "p = dec_add (xs ! ?l) (dec_mul (dec_sub ?pos (of_nat ?l)) (dec_sub (xs ! (?l + 1)) (xs ! ?l)))"
    using assms(3) by (auto simp: percentile_def Let_def simp del: of_nat_diff split: if_splits)
  then show ?thesis
  proof cases
    case 2
    then show ?thesis using assms(1) by (simp add: last_conv_nth sorted_nth_mono)
  next
    case 3
    have "0 \<le> ?pos" using assms(4) by (intro dec_mul_nonneg) auto
    then have "0 \<le> dec_sub ?pos (of_nat ?l)" by (simp add: dec_sub_nonneg_iff)
    moreover have "0 \<le> dec_sub (xs ! (?l + 1)) (xs ! ?l)"
      using sorted_nth_mono [OF assms(1), of ?l "?l + 1"] 3(2) by (simp only: dec_sub_nonneg_iff)
    ultimately have "0 \<le> dec_mul (dec_sub ?pos (of_nat ?l)) (dec_sub (xs ! (?l + 1)) (xs ! ?l))" by (rule dec_mul_nonneg)
    moreover have "dec_round (xs ! ?l) = xs ! ?l"
      using assms(2) nth_mem [OF add_lessD1 [OF 3(2)]] by blast
    ultimately have "xs ! ?l \<le> p" unfolding 3(3) dec_add_def by (intro dec.rnd_ge) (simp_all only: le_add_same_cancel1)
    moreover have "xs ! 0 \<le> xs ! ?l" by (rule sorted_nth_mono [OF assms(1) _ add_lessD1 [OF 3(2)]]) simp
    ultimately show ?thesis by simp
  qed simp
qed

end
