(* ===== verification/Dependence.thy ===== *)
theory Dependence
  imports Tail_Risk
begin

text \<open>
  \<open>math/copula.py\<close>: pseudo-uniform marginals by ranks, empirical tail dependence, the Gaussian copula and the rolling
  dependency analyzer. What numpy and scipy compute (the correlation of the normal scores, the normal distribution
  functions) is an argument of the definitions that use it.
\<close>

section \<open>Marginals and tails\<close>

definition MIN_OBSERVATIONS :: nat where "MIN_OBSERVATIONS = 30"
definition TAIL_DEP_THRESHOLD_DEFAULT :: decimal where "TAIL_DEP_THRESHOLD_DEFAULT = 5 / 100"
definition TAIL_DEP_HIGH :: decimal where "TAIL_DEP_HIGH = 3 / 10"

definition ranks_of :: "decimal list \<Rightarrow> nat list" where
  "ranks_of series =
     (let n = length series; indexed = sort_key (\<lambda>i. series ! i) [0..<n]
      in foldl (\<lambda>ranks (rank_val, idx). ranks[idx := rank_val]) (replicate n 0) (enumerate 1 indexed))"

definition rank_transform :: "decimal list \<Rightarrow> decimal list result" where
  "rank_transform series =
     (let n = length series
      in if n < 2 then Inl ValueError
         else Inr (map (\<lambda>r. dec_div (of_nat r) (of_nat (n + 1))) (ranks_of series)))"

definition conditional_frequency :: "(decimal \<Rightarrow> bool) \<Rightarrow> decimal list \<Rightarrow> decimal list \<Rightarrow> decimal" where
  "conditional_frequency tail u v =
     (let given = length (filter tail u)
      in if given = 0 then 0
         else dec_div (of_nat (length (filter (\<lambda>(ui, vi). tail ui \<and> tail vi) (zip u v)))) (of_nat given))"

definition tail_dependence :: "decimal list \<Rightarrow> decimal list \<Rightarrow> decimal \<Rightarrow> (decimal \<times> decimal) result" where
  "tail_dependence u v threshold =
     (if length u \<noteq> length v then Inl ValueError
      else if length u < MIN_OBSERVATIONS then Inl ValueError
      else if \<not> (0 < threshold \<and> threshold < 1 / 2) then Inl ValueError
      else let q_low = threshold; q_high = dec_sub 1 threshold
           in Inr (conditional_frequency (\<lambda>x. x \<le> q_low) u v, conditional_frequency (\<lambda>x. q_high < x) u v))"

section \<open>Gaussian copula\<close>

text \<open>
  \<open>corr_of_scores u v\<close> is \<open>Decimal(str(np.corrcoef(norm.ppf(u), norm.ppf(v))[0, 1]))\<close>, or \<open>None\<close> when one of the
  series of scores has a standard deviation below \<open>1e-15\<close>.
\<close>

definition copula_fit :: "(decimal list \<Rightarrow> decimal list \<Rightarrow> decimal option) \<Rightarrow> decimal list \<Rightarrow> decimal list \<Rightarrow> decimal result" where
  "copula_fit corr_of_scores u v =
     (if length u \<noteq> length v then Inl ValueError
      else if length u < MIN_OBSERVATIONS then Inl ValueError
      else if \<not> list_all (\<lambda>(ui, vi). 0 < ui \<and> ui < 1 \<and> 0 < vi \<and> vi < 1) (zip u v) then Inl ValueError
      else case corr_of_scores u v of
             None \<Rightarrow> Inr 0
           | Some rho \<Rightarrow> Inr (if 1 < rho then 1 else if rho < - 1 then - 1 else rho))"

definition copula_sample :: "(decimal \<Rightarrow> int \<Rightarrow> decimal list \<times> decimal list) \<Rightarrow> decimal \<Rightarrow> int \<Rightarrow> (decimal list \<times> decimal list) result" where
  "copula_sample draw rho n =
     (if \<not> (- 1 \<le> rho \<and> rho \<le> 1) then Inl ValueError else if n < 1 then Inl ValueError else Inr (draw rho n))"

definition joint_cdf :: "(rat \<Rightarrow> rat) \<Rightarrow> (rat \<Rightarrow> rat) \<Rightarrow> (rat \<Rightarrow> rat) \<Rightarrow> decimal \<Rightarrow> decimal \<Rightarrow> decimal \<Rightarrow> decimal result" where
  "joint_cdf norm_ppf norm_cdf norm_pdf u v rho =
     (if \<not> (0 < u \<and> u < 1) then Inl ValueError
      else if \<not> (0 < v \<and> v < 1) then Inl ValueError
      else if \<not> (- 1 \<le> rho \<and> rho \<le> 1) then Inl ValueError
      else if dec_abs rho < 1 / 10 ^ 12 then Inr (dec_mul u v)
      else if rho = 1 then Inr (min u v)
      else if rho = - 1 then Inr (max (dec_sub (dec_add u v) 1) 0)
      else let u_f = flt_round u; v_f = flt_round v; rho_f = flt_round rho; z_u = norm_ppf u_f; z_v = norm_ppf v_f;
               result = fl_add (fl_mul (norm_cdf z_u) (norm_cdf z_v)) (fl_mul (fl_mul rho_f (norm_pdf z_u)) (norm_pdf z_v))
           in Inr (flt_decimal (max 0 (min result (min u_f v_f)))))"

section \<open>Rolling analyzer\<close>

definition moment_step :: "decimal \<Rightarrow> decimal \<Rightarrow> decimal \<times> decimal \<times> decimal \<Rightarrow> decimal \<times> decimal \<Rightarrow> decimal \<times> decimal \<times> decimal" where
  "moment_step mean_x mean_y m p =
     (let dx = dec_sub (fst p) mean_x; dy = dec_sub (snd p) mean_y
      in (dec_add (fst m) (dec_mul dx dy), dec_add (fst (snd m)) (dec_mul dx dx), dec_add (snd (snd m)) (dec_mul dy dy)))"

definition pearson_correlation :: "decimal list \<Rightarrow> decimal list \<Rightarrow> decimal" where
  "pearson_correlation x y =
     (let n = length x
      in if n < 2 then 0
         else let mean_x = dec_div (dec_sum x) (of_nat n); mean_y = dec_div (dec_sum y) (of_nat n);
                  m = foldl (moment_step mean_x mean_y) (0, 0, 0) (zip x y); cov = fst m; var_x = fst (snd m); var_y = snd (snd m)
              in if var_x = 0 \<or> var_y = 0 then 0
                 else let denom_float = flt_sqrt (flt_round (dec_mul var_x var_y))
                      in if denom_float < flt_round (1 / 10 ^ 30) then 0
                         else let corr = flt_decimal (flt_round (flt_round cov / denom_float))
                              in if 1 < corr then 1 else if corr < - 1 then - 1 else corr)"

record dependency_analyzer =
  dp_window :: nat
  dp_x_buf :: "decimal list"
  dp_y_buf :: "decimal list"

definition new_dependency_analyzer :: "nat \<Rightarrow> dependency_analyzer result" where
  "new_dependency_analyzer window =
     (if window < MIN_OBSERVATIONS then Inl ValueError else Inr \<lparr>dp_window = window, dp_x_buf = [], dp_y_buf = []\<rparr>)"

record dependency_report =
  rp_pearson :: decimal
  rp_rank_correlation :: decimal
  rp_copula_rho :: decimal
  rp_tail_lower :: decimal
  rp_tail_upper :: decimal
  rp_tail_dependent :: bool

definition compute_report ::
  "(decimal list \<Rightarrow> decimal list \<Rightarrow> decimal option) \<Rightarrow> decimal list \<Rightarrow> decimal list \<Rightarrow> dependency_report result" where
  "compute_report corr_of_scores xs ys =
     rbind (rank_transform xs) (\<lambda>u. rbind (rank_transform ys) (\<lambda>v.
       let rho = (case copula_fit corr_of_scores u v of Inr r \<Rightarrow> r | Inl _ \<Rightarrow> 0);
           td = (case tail_dependence u v TAIL_DEP_THRESHOLD_DEFAULT of Inr t \<Rightarrow> t | Inl _ \<Rightarrow> (0, 0))
       in Inr \<lparr>rp_pearson = pearson_correlation xs ys, rp_rank_correlation = pearson_correlation u v, rp_copula_rho = rho,
               rp_tail_lower = fst td, rp_tail_upper = snd td, rp_tail_dependent = TAIL_DEP_HIGH < max (fst td) (snd td)\<rparr>))"

definition dependency_update ::
  "(decimal list \<Rightarrow> decimal list \<Rightarrow> decimal option) \<Rightarrow> decimal \<Rightarrow> decimal \<Rightarrow> dependency_analyzer \<Rightarrow>
   dependency_report option result \<times> dependency_analyzer" where
  "dependency_update corr_of_scores x y d =
     (let d' = d\<lparr>dp_x_buf := deque_append (dp_window d) (dp_x_buf d) x, dp_y_buf := deque_append (dp_window d) (dp_y_buf d) y\<rparr>
      in if length (dp_x_buf d') < dp_window d' then (Inr None, d')
         else (rbind (compute_report corr_of_scores (dp_x_buf d') (dp_y_buf d')) (\<lambda>r. Inr (Some r)), d'))"

section \<open>Ranks\<close>

lemma foldl_assign:
  assumes "distinct idx" "\<forall>i\<in>set idx. i < length ranks"
  shows "length (foldl (\<lambda>rs (r, i). rs[i := r]) ranks (enumerate s idx)) = length ranks"
    "k < length idx \<Longrightarrow> foldl (\<lambda>rs (r, i). rs[i := r]) ranks (enumerate s idx) ! (idx ! k) = s + k"
    "j \<notin> set idx \<Longrightarrow> foldl (\<lambda>rs (r, i). rs[i := r]) ranks (enumerate s idx) ! j = ranks ! j"
  using assms
proof (induction idx arbitrary: ranks s k j)
  case (Cons i idx)
  {
    case 1
    then show ?case using Cons.IH(1) [of "ranks[i := s]" "Suc s"] by simp
  next
    case 2
    then show ?case
      using Cons.IH(2) [of "k - 1" "ranks[i := s]" "Suc s"] Cons.IH(3) [of i "ranks[i := s]" "Suc s"] by (cases k) auto
  next
    case 3
    then show ?case by (simp add: Cons.IH(3))
  }
qed simp_all

lemma ranks_of_props:
  fixes series :: "decimal list"
  defines "idx \<equiv> sort_key (\<lambda>i. series ! i) [0..<length series]"
  shows "length (ranks_of series) = length series"
    "k < length series \<Longrightarrow> ranks_of series ! (idx ! k) = k + 1"
    "length idx = length series" "set idx = {0..<length series}" "distinct idx"
    "sorted (map (\<lambda>i. series ! i) idx)"
  using foldl_assign(1,2) [of idx "replicate (length series) 0"] by (simp_all add: ranks_of_def idx_def Let_def)

lemma rank_range:
  assumes "i < length series"
  shows "\<exists>k<length series. sort_key (\<lambda>i. series ! i) [0..<length series] ! k = i \<and> ranks_of series ! i = k + 1"
proof -
  have "i \<in> set (sort_key (\<lambda>i. series ! i) [0..<length series])" using assms by simp
  then obtain k where "k < length series" "sort_key (\<lambda>i. series ! i) [0..<length series] ! k = i"
    by (metis in_set_conv_nth ranks_of_props(3))
  then show ?thesis using ranks_of_props(2) by blast
qed

lemma ranks_strict:
  assumes "i < length series" "j < length series" "series ! i < series ! j"
  shows "ranks_of series ! i < ranks_of series ! j"
proof -
  let ?idx = "sort_key (\<lambda>i. series ! i) [0..<length series]"
  obtain k l where k: "k < length series" "?idx ! k = i" "ranks_of series ! i = k + 1"
    and l: "l < length series" "?idx ! l = j" "ranks_of series ! j = l + 1"
    using rank_range assms(1,2) by meson
  have "k < l"
  proof (rule ccontr)
    assume "\<not> k < l"
    then have "map (\<lambda>i. series ! i) ?idx ! l \<le> map (\<lambda>i. series ! i) ?idx ! k"
      using k(1) by (intro sorted_nth_mono ranks_of_props(6)) (simp_all add: ranks_of_props(3))
    then show False using k l assms(3) by (simp add: ranks_of_props(3))
  qed
  then show ?thesis using k l by simp
qed

lemma ranks_permutation: "mset (ranks_of series) = mset [1..<length series + 1]"
proof -
  have "inj_on (\<lambda>i. ranks_of series ! i) {0..<length series}"
    by (intro inj_onI) (metis rank_range atLeastLessThan_iff add_right_cancel)
  then have d: "distinct (ranks_of series)"
    by (auto simp: distinct_conv_nth ranks_of_props(1) inj_on_def)
  have "set (ranks_of series) \<subseteq> {1..<length series + 1}"
    using rank_range by (fastforce simp: in_set_conv_nth ranks_of_props(1))
  moreover have "card (set (ranks_of series)) = card {1..<length series + 1}"
    using distinct_card [OF d] by (simp add: ranks_of_props(1))
  ultimately have "set (ranks_of series) = set [1..<length series + 1]" unfolding set_upt by (intro card_subset_eq) auto
  then show ?thesis using d by (intro set_eq_iff_mset_eq_distinct [THEN iffD1]) auto
qed

lemma rank_gap:
  assumes "r < r'" "r' \<le> n" "n \<le> 10 ^ 20"
  shows "dec_div (of_nat r) (of_nat (n + 1)) < dec_div (of_nat r') (of_nat (n + 1))"
proof -
  let ?a = "of_nat r / of_nat (n + 1) :: rat" and ?b = "of_nat r' / of_nat (n + 1) :: rat"
  have n: "of_nat (n + 1) \<le> (10 ^ 20 + 1 :: rat)" using of_nat_mono [OF assms(3), where 'a = rat] by simp
  have "(of_nat r + 1) / of_nat (n + 1) \<le> ?b" using assms(1) by (intro divide_right_mono) (simp_all flip: of_nat_Suc)
  then have gap: "?a + 1 / of_nat (n + 1) \<le> ?b" by (simp add: add_divide_distrib)
  have b: "?b \<le> 1" "0 \<le> ?a" "0 \<le> 1 / (of_nat (n + 1) :: rat)" using assms(2) by (simp_all add: divide_le_eq_1)
  then have ab: "?a + ?b \<le> 2" using gap by linarith
  have "1 / (10 ^ 20 + 1) \<le> (1 / of_nat (n + 1) :: rat)" using n by (intro divide_left_mono) auto
  then have "2 * ulp < (1 / of_nat (n + 1) :: rat)" by (simp add: ulp_def)
  moreover have "ulp * (?a + ?b) \<le> ulp * 2" using ab by (intro mult_left_mono) (simp_all add: ulp_def)
  ultimately have "(1 + ulp) * ?a < (1 - ulp) * ?b" using gap unfolding ring_distribs by linarith
  then show ?thesis
    using dec_round_relative(2) [of ?a] dec_round_relative(1) [of ?b] b by (simp add: dec_div_def del: of_nat_add)
qed

section \<open>Properties\<close>

text \<open>
  The pseudo-uniform marginals of up to \<open>10 ^ 20\<close> observations are one value per observation, strictly inside
  \<open>(0, 1)\<close>, pairwise distinct and in the strict order of the observations, despite rounding.
\<close>

theorem marginals_in_open_unit:
  assumes "rank_transform series = Inr us" "length series \<le> 10 ^ 20"
  shows "length us = length series \<and> (\<forall>u\<in>set us. 0 < u \<and> u < 1) \<and> distinct us \<and>
    (\<forall>i<length series. \<forall>j<length series. series ! i < series ! j \<longrightarrow> us ! i < us ! j)"
proof -
  let ?n = "length series" and ?f = "\<lambda>r. dec_div (of_nat r) (of_nat (length series + 1))"
  have us: "us = map ?f (ranks_of series)" using assms(1) by (simp add: rank_transform_def Let_def split: if_splits)
  have r: "0 < r \<and> r \<le> ?n" if "r \<in> set (ranks_of series)" for r
    using that ranks_permutation [of series, THEN mset_eq_setD] by auto
  have unit: "0 < ?f r \<and> ?f r < 1" if "r \<in> set (ranks_of series)" for r
  proof -
    have "of_nat r / of_nat (?n + 1) + 1 / of_nat (?n + 1) = (of_nat (r + 1) / of_nat (?n + 1) :: rat)" by (simp add: add_divide_distrib)
    also have "\<dots> \<le> 1" using r [OF that] by (simp add: divide_le_eq_1)
    finally have le: "of_nat r / of_nat (?n + 1) + 1 / of_nat (?n + 1) \<le> (1 :: rat)" .
    have "of_nat (?n + 1) \<le> (10 ^ 20 + 1 :: rat)" using of_nat_mono [OF assms(2), where 'a = rat] by simp
    then have "1 / (10 ^ 20 + 1) \<le> (1 / of_nat (?n + 1) :: rat)" by (intro divide_left_mono) auto
    then have "ulp < (1 / of_nat (?n + 1) :: rat)" by (simp add: ulp_def)
    moreover have "ulp * (of_nat r / of_nat (?n + 1)) \<le> ulp * 1"
      using r [OF that] by (intro mult_left_mono) (simp_all add: ulp_def divide_le_eq_1)
    ultimately have "(1 + ulp) * (of_nat r / of_nat (?n + 1)) < 1" using le unfolding ring_distribs by linarith
    then have "?f r < 1" unfolding dec_div_def by (rule le_less_trans [rotated]) (rule dec_round_relative(2), simp)
    moreover have "0 < ?f r" using r [OF that] by (simp add: dec_div_pos_iff)
    ultimately show ?thesis by blast
  qed
  have mono: "?f r < ?f r'" if "r < r'" "r' \<le> ?n" for r r' by (rule rank_gap [OF that assms(2)])
  have "inj_on ?f (set (ranks_of series))"
    by (intro inj_onI) (metis mono r linorder_neqE_nat less_irrefl)
  moreover have "distinct (ranks_of series)" using ranks_permutation [of series] by (metis mset_eq_imp_distinct_iff distinct_upt)
  ultimately have "distinct us" by (simp add: us distinct_map)
  moreover have "us ! i < us ! j" if "i < ?n" "j < ?n" "series ! i < series ! j" for i j
    using that mono ranks_strict [OF that] r by (auto simp: us ranks_of_props(1) simp del: of_nat_add)
  ultimately show ?thesis using unit by (auto simp: us ranks_of_props(1) simp del: of_nat_add)
qed

theorem marginals_in_open_unit_witness:
  "\<exists>us. rank_transform [5, 3, 4] = Inr us \<and> distinct us \<and> us ! 1 < us ! 0"
proof -
  obtain us where us: "rank_transform [5, 3, 4] = Inr us" by (simp add: rank_transform_def)
  show ?thesis using marginals_in_open_unit [OF us] us by (intro exI [of _ us]) (auto dest: spec [of _ 1])
qed

lemma clamped_coefficient: "- 1 \<le> (if 1 < c then 1 else if c < - 1 then - 1 else c) \<and> (if 1 < c then 1 else if c < - 1 then - 1 else c) \<le> (1 :: rat)"
  by simp

lemma pearson_in_range: "- 1 \<le> pearson_correlation x y \<and> pearson_correlation x y \<le> 1"
  by (simp add: pearson_correlation_def Let_def)

lemma pearson_symmetric: "length x = length y \<Longrightarrow> pearson_correlation x y = pearson_correlation y x"
proof -
  assume len: "length x = length y"
  let ?swap = "\<lambda>m :: rat \<times> rat \<times> rat. (fst m, snd (snd m), fst (snd m))"
  have step: "moment_step b a (?swap m) (q, p) = ?swap (moment_step a b m (p, q))" for a b m p q
    by (simp add: moment_step_def Let_def dec_mul_def mult.commute)
  have "foldl (moment_step b a) (?swap m) (zip y x) = ?swap (foldl (moment_step a b) m (zip x y))" for a b m
    using len by (induction x y arbitrary: m rule: list_induct2) (simp_all add: step del: prod.sel)
  from this [where m = "(0, 0, 0)"] show ?thesis using len
    by (simp add: pearson_correlation_def Let_def dec_mul_def mult.commute disj_commute)
qed

lemma frequency_unit:
  assumes "length u = length v"
  shows "0 \<le> conditional_frequency tail u v \<and> conditional_frequency tail u v \<le> 1"
proof -
  have "length (filter (\<lambda>(ui, vi). tail ui \<and> tail vi) (zip u v)) \<le> length (filter tail u)"
    using assms by (induction u v rule: list_induct2) auto
  then have "(of_nat (length (filter (\<lambda>(ui, vi). tail ui \<and> tail vi) (zip u v))) / of_nat (length (filter tail u)) :: rat) \<le> 1"
    by (simp add: divide_le_eq_1)
  then show ?thesis by (auto simp: conditional_frequency_def Let_def dec_div_def intro!: dec.rnd_le dec.rnd_nonneg)
qed

lemma joint_cdf_frechet:
  assumes "joint_cdf norm_ppf norm_cdf norm_pdf u v rho = Inr p"
  shows "0 \<le> p \<and> p \<le> 1"
proof -
  have "0 \<le> dec_mul u v \<and> dec_mul u v \<le> 1" if "0 < u" "u < 1" "0 < v" "v < 1"
    using that mult_mono [of u 1 v 1] by (auto simp: dec_mul_def intro!: dec.rnd_nonneg dec.rnd_le)
  moreover have "dec_sub (dec_add u v) 1 \<le> 1" if "u < 1" "v < 1"
  proof -
    have "dec_add u v \<le> 2" using that by (auto simp: dec_add_def num_eval intro!: dec.rnd_le)
    then show ?thesis by (auto simp: dec_sub_def intro!: dec.rnd_le)
  qed
  moreover have "0 \<le> flt_decimal (max 0 (min r (min (flt_round u) (flt_round v)))) \<and>
      flt_decimal (max 0 (min r (min (flt_round u) (flt_round v)))) \<le> 1" if "u < 1" for r
  proof -
    have "flt_round u \<le> 1" using that by (intro flt.rnd_le) (simp_all add: num_eval)
    then show ?thesis by (intro conjI flt_decimal_nonneg flt_decimal_le_1) auto
  qed
  ultimately show ?thesis using assms by (auto simp: joint_cdf_def Let_def split: if_splits)
qed

definition report_in_range :: "dependency_report \<Rightarrow> bool" where
  "report_in_range r \<longleftrightarrow> - 1 \<le> rp_pearson r \<and> rp_pearson r \<le> 1 \<and> - 1 \<le> rp_rank_correlation r \<and> rp_rank_correlation r \<le> 1 \<and>
     - 1 \<le> rp_copula_rho r \<and> rp_copula_rho r \<le> 1 \<and> 0 \<le> rp_tail_lower r \<and> rp_tail_lower r \<le> 1 \<and>
     0 \<le> rp_tail_upper r \<and> rp_tail_upper r \<le> 1"

lemma compute_report_total:
  assumes "length xs = length ys" "MIN_OBSERVATIONS \<le> length xs"
  obtains r where "compute_report corr_of_scores xs ys = Inr r" "report_in_range r"
proof -
  obtain u v where uv: "rank_transform xs = Inr u" "rank_transform ys = Inr v" "length u = length xs" "length v = length ys"
    using assms by (simp add: rank_transform_def Let_def MIN_OBSERVATIONS_def ranks_of_props(1))
  have rho: "- 1 \<le> (case copula_fit corr_of_scores u v of Inr r \<Rightarrow> r | Inl _ \<Rightarrow> 0) \<and>
      (case copula_fit corr_of_scores u v of Inr r \<Rightarrow> r | Inl _ \<Rightarrow> 0) \<le> 1"
    by (auto simp: copula_fit_def split: option.split)
  have "tail_dependence u v TAIL_DEP_THRESHOLD_DEFAULT = Inr (conditional_frequency (\<lambda>x. x \<le> TAIL_DEP_THRESHOLD_DEFAULT) u v,
      conditional_frequency (\<lambda>x. dec_sub 1 TAIL_DEP_THRESHOLD_DEFAULT < x) u v)"
    using uv assms by (simp add: tail_dependence_def TAIL_DEP_THRESHOLD_DEFAULT_def Let_def)
  then show ?thesis using that uv assms rho frequency_unit [of u v] pearson_in_range
    by (simp add: compute_report_def report_in_range_def Let_def)
qed

lemma last_n_map: "last_n n (map f xs) = map f (last_n n xs)"
  by (simp add: last_n_def drop_map)

fun observe_pairs ::
  "(decimal list \<Rightarrow> decimal list \<Rightarrow> decimal option) \<Rightarrow> (decimal \<times> decimal) list \<Rightarrow> dependency_analyzer \<Rightarrow> dependency_analyzer" where
  "observe_pairs f [] d = d"
| "observe_pairs f (p # ps) d = observe_pairs f ps (snd (dependency_update f (fst p) (snd p) d))"

lemma observe_pairs_buffers:
  assumes "0 < dp_window d" "dp_x_buf d = last_n (dp_window d) (map fst qs)" "dp_y_buf d = last_n (dp_window d) (map snd qs)"
  shows "observe_pairs f ps d = d\<lparr>dp_x_buf := last_n (dp_window d) (map fst (qs @ ps)),
      dp_y_buf := last_n (dp_window d) (map snd (qs @ ps))\<rparr>"
  using assms
proof (induction ps arbitrary: d qs)
  case (Cons p ps)
  let ?d = "snd (dependency_update f (fst p) (snd p) d)"
  have "?d = d\<lparr>dp_x_buf := last_n (dp_window d) (map fst (qs @ [p])), dp_y_buf := last_n (dp_window d) (map snd (qs @ [p]))\<rparr>"
    using Cons.prems by (simp add: dependency_update_def Let_def deque_append_last_n)
  then show ?case using Cons.IH [of ?d "qs @ [p]"] Cons.prems(1) by simp
qed simp

text \<open>
  After any history of pairs the analyzer reports nothing until it has seen a full window, and from then on never
  raises: its report is the one computed from the last window of pairs, with every coefficient in its range.
\<close>

theorem dependency_report_of_window:
  fixes x y :: decimal and history :: "(decimal \<times> decimal) list" and window :: nat
  defines "pairs \<equiv> last_n window (history @ [(x, y)])"
  assumes "new_dependency_analyzer window = Inr d"
  shows "if length history + 1 < window
    then fst (dependency_update corr_of_scores x y (observe_pairs corr_of_scores history d)) = Inr None
    else \<exists>r. fst (dependency_update corr_of_scores x y (observe_pairs corr_of_scores history d)) = Inr (Some r) \<and>
      compute_report corr_of_scores (map fst pairs) (map snd pairs) = Inr r \<and> report_in_range r"
proof -
  have d: "d = \<lparr>dp_window = window, dp_x_buf = [], dp_y_buf = []\<rparr>" and w: "MIN_OBSERVATIONS \<le> window"
    using assms(2) by (auto simp: new_dependency_analyzer_def split: if_splits)
  then have "0 < window" by (simp add: MIN_OBSERVATIONS_def)
  have dw: "dp_window d = window" by (simp add: d)
  from \<open>0 < window\<close> have o: "observe_pairs corr_of_scores history d =
      d\<lparr>dp_x_buf := last_n window (map fst history), dp_y_buf := last_n window (map snd history)\<rparr>"
    using observe_pairs_buffers [of d "[]" corr_of_scores history] by (simp add: d last_n_def)
  have bufs: "deque_append window (last_n window (map fst history)) x = map fst pairs"
    "deque_append window (last_n window (map snd history)) y = map snd pairs"
    by (simp_all only: deque_append_last_n [OF \<open>0 < window\<close>] pairs_def last_n_map [symmetric] map_append list.map fst_conv snd_conv)
  show ?thesis
  proof (cases "length history + 1 < window")
    case True
    then show ?thesis by (simp add: dependency_update_def o dw bufs Let_def pairs_def)
  next
    case False
    then obtain r where "compute_report corr_of_scores (map fst pairs) (map snd pairs) = Inr r" "report_in_range r"
      using compute_report_total [of "map fst pairs" "map snd pairs" corr_of_scores] w by (auto simp: pairs_def)
    then show ?thesis using False by (simp add: dependency_update_def o dw bufs Let_def) (simp add: pairs_def)
  qed
qed

theorem dependency_report_of_window_witness:
  "fst (dependency_update (\<lambda>_ _. None) 1 2 (observe_pairs (\<lambda>_ _. None) [(3, 4)] \<lparr>dp_window = 30, dp_x_buf = [], dp_y_buf = []\<rparr>)) = Inr None"
  using dependency_report_of_window [of 30 "\<lparr>dp_window = 30, dp_x_buf = [], dp_y_buf = []\<rparr>" "[(3, 4)]" "\<lambda>_ _. None" 1 2]
  by (simp add: new_dependency_analyzer_def MIN_OBSERVATIONS_def)

text \<open>The ranks of a constant series are its positions.\<close>

lemma ranks_constant: "ranks_of (replicate n c) = [1..<n + 1]"
proof -
  have "sorted (map (\<lambda>i. replicate n c ! i) [0..<n])" by (auto simp: sorted_iff_nth_mono)
  then have idx: "sort_key (\<lambda>i. replicate n c ! i) [0..<n] = [0..<n]" by (rule sort_key_id_if_sorted)
  have "ranks_of (replicate n c) ! k = k + 1" if "k < n" for k
    using ranks_of_props(2) [of k "replicate n c"] that by (simp add: idx)
  then show ?thesis by (intro nth_equalityI) (simp_all add: ranks_of_props(1) del: upt_Suc)
qed

lemma frequency_same:
  assumes "a \<in> set u" "tail a"
  shows "conditional_frequency tail u u = 1"
proof -
  have "length (filter (\<lambda>(ui, vi). tail ui \<and> tail vi) (zip u u)) = length (filter tail u)" by (induction u) auto
  moreover have "filter tail u \<noteq> []" using assms by (auto simp: filter_empty_conv)
  ultimately show ?thesis by (simp add: conditional_frequency_def Let_def dec_div_def)
qed

text \<open>
  Two series that never move are reported as tail dependent, with both coefficients 1: ties get distinct ranks in
  the order of arrival, so both marginals are the same ramp.
\<close>

theorem constant_series_tail_dependent:
  assumes "MIN_OBSERVATIONS \<le> n"
  shows "\<exists>r. compute_report corr_of_scores (replicate n c) (replicate n d) = Inr r \<and>
    rp_tail_lower r = 1 \<and> rp_tail_upper r = 1 \<and> rp_tail_dependent r"
proof -
  let ?f = "\<lambda>r. dec_div (of_nat r) (of_nat (n + 1))"
  define u where "u = map ?f [1..<n + 1]"
  have n: "30 \<le> n" using assms by (simp add: MIN_OBSERVATIONS_def)
  have rt: "rank_transform (replicate n e) = Inr u" for e
    using n unfolding rank_transform_def by (simp add: ranks_constant u_def del: upt_Suc of_nat_add)
  have in_u: "?f k \<in> set u" if "1 \<le> k" "k \<le> n" for k
    unfolding u_def using that by (intro image_eqI [where x = k, THEN image_set [THEN equalityD1, THEN subsetD]]) auto
  have "1 / of_nat (n + 1) \<le> (1 / 30 :: rat)" using n by (intro divide_left_mono) auto
  then have low: "?f 1 \<le> 5 / 100" unfolding dec_div_def by (intro dec.rnd_le) (simp_all add: num_eval)
  have "29 / 30 \<le> (of_nat n / of_nat (n + 1) :: rat)" using n by (simp add: field_simps)
  then have "96 / 100 \<le> ?f n" unfolding dec_div_def by (intro dec.rnd_ge) (simp_all add: num_eval)
  then have high: "95 / 100 < ?f n" by (rule less_le_trans [rotated]) simp
  have "conditional_frequency (\<lambda>x. x \<le> TAIL_DEP_THRESHOLD_DEFAULT) u u = 1"
    by (rule frequency_same [OF in_u [of 1]]) (use low n in \<open>simp_all add: TAIL_DEP_THRESHOLD_DEFAULT_def\<close>)
  moreover have "dec_sub 1 TAIL_DEP_THRESHOLD_DEFAULT = 95 / 100"
    by (simp add: dec_sub_def TAIL_DEP_THRESHOLD_DEFAULT_def num_eval)
  then have "conditional_frequency (\<lambda>x. dec_sub 1 TAIL_DEP_THRESHOLD_DEFAULT < x) u u = 1"
    by (intro frequency_same [OF in_u [of n]]) (use high n in simp_all)
  moreover have "tail_dependence u u TAIL_DEP_THRESHOLD_DEFAULT = Inr (conditional_frequency (\<lambda>x. x \<le> TAIL_DEP_THRESHOLD_DEFAULT) u u,
      conditional_frequency (\<lambda>x. dec_sub 1 TAIL_DEP_THRESHOLD_DEFAULT < x) u u)"
    using n by (simp add: u_def tail_dependence_def TAIL_DEP_THRESHOLD_DEFAULT_def Let_def MIN_OBSERVATIONS_def del: upt_Suc)
  ultimately show ?thesis by (simp add: compute_report_def rt TAIL_DEP_HIGH_def)
qed

theorem constant_series_tail_dependent_witness:
  "\<exists>r. compute_report (\<lambda>_ _. None) (replicate 100 1) (replicate 100 2) = Inr r \<and> rp_tail_dependent r"
  using constant_series_tail_dependent [of 100 "\<lambda>_ _. None" 1 2] by (auto simp: MIN_OBSERVATIONS_def)

end
