(* ===== verification/Stochastic.thy ===== *)
theory Stochastic
  imports Bayesian
begin

text \<open>
  The estimators of \<open>math/stochastic.py\<close>: geometric Brownian motion, Merton jump diffusion, the empirical jump
  probability and the Heston model. The path simulations are numpy computations and are not modelled. The C library's
  exponential, logarithm and power are arguments; a \<open>Decimal\<close> power is taken as the correctly rounded product.
\<close>

section \<open>Moments\<close>

definition MIN_RETURNS :: nat where "MIN_RETURNS = 10"

definition validate_returns :: "decimal list \<Rightarrow> bool" where
  "validate_returns returns = (\<not> (returns = [] \<or> length returns < MIN_RETURNS))"

definition decimal_mean :: "decimal list \<Rightarrow> decimal" where
  "decimal_mean vs = dec_div (dec_sum vs) (of_nat (length vs))"

definition dec_pow :: "decimal \<Rightarrow> nat \<Rightarrow> decimal" where
  "dec_pow x k = dec_round (x ^ k)"

text \<open>\<open>sum((v - mean) ** k for v in vs) / n\<close>.\<close>

definition central_moment :: "nat \<Rightarrow> decimal list \<Rightarrow> decimal \<Rightarrow> decimal" where
  "central_moment k vs mean = dec_div (dec_sum (map (\<lambda>v. dec_pow (dec_sub v mean) k) vs)) (of_nat (length vs))"

definition decimal_var :: "decimal list \<Rightarrow> decimal \<Rightarrow> decimal" where
  "decimal_var vs mean = central_moment 2 vs mean"

definition decimal_std :: "decimal list \<Rightarrow> decimal \<Rightarrow> decimal" where
  "decimal_std vs mean =
     (let variance = decimal_var vs mean in if variance \<le> 0 then 0 else flt_decimal (flt_sqrt (flt_round variance)))"

section \<open>Geometric Brownian motion\<close>

definition sqrt_scale :: "nat \<Rightarrow> decimal" where
  "sqrt_scale periods_per_year = flt_decimal (flt_sqrt (of_nat periods_per_year))"

definition drift :: "decimal \<Rightarrow> nat \<Rightarrow> decimal \<Rightarrow> decimal" where
  "drift mean_r periods_per_year sigma =
     dec_add (dec_mul mean_r (of_nat periods_per_year)) (dec_mul (dec_mul (1 / 2) sigma) sigma)"

definition gbm_fit :: "decimal list \<Rightarrow> nat \<Rightarrow> decimal \<times> decimal" where
  "gbm_fit returns periods_per_year =
     (if \<not> validate_returns returns then (0, 0)
      else let mean_r = decimal_mean returns; std_r = decimal_std returns mean_r
           in if std_r = 0 then (0, 0)
              else let sigma = dec_mul std_r (sqrt_scale periods_per_year) in (drift mean_r periods_per_year sigma, sigma))"

section \<open>Merton jump diffusion\<close>

record merton_params =
  me_mu :: decimal
  me_sigma :: decimal
  me_lam :: decimal
  me_mu_j :: decimal
  me_sigma_j :: decimal

definition merton_zero :: merton_params where
  "merton_zero = \<lparr>me_mu = 0, me_sigma = 0, me_lam = 0, me_mu_j = 0, me_sigma_j = 0\<rparr>"

definition standardised :: "decimal \<Rightarrow> decimal list \<Rightarrow> decimal \<Rightarrow> decimal \<times> decimal" where
  "standardised std_r returns mean_r =
     (if std_r = 0 then (0, 0)
      else (dec_div (central_moment 3 returns mean_r) (dec_pow std_r 3),
            dec_sub (dec_div (central_moment 4 returns mean_r) (dec_pow std_r 4)) 3))"

definition merton_fit :: "(rat \<Rightarrow> rat result) \<Rightarrow> (rat \<Rightarrow> rat \<Rightarrow> rat) \<Rightarrow> decimal list \<Rightarrow> nat \<Rightarrow> merton_params result" where
  "merton_fit c_exp c_pow returns periods_per_year =
     (if \<not> validate_returns returns then Inr merton_zero
      else let mean_r = decimal_mean returns; var_r = decimal_var returns mean_r
           in if var_r = 0 then Inr merton_zero
              else let std_r = flt_decimal (flt_sqrt (flt_round var_r)); st = standardised std_r returns mean_r;
                       skew = fst st; excess_kurt = max (snd st) 0
                   in if excess_kurt = 0
                      then let sigma = dec_mul std_r (sqrt_scale periods_per_year)
                           in Inr \<lparr>me_mu = drift mean_r periods_per_year sigma, me_sigma = sigma, me_lam = 0, me_mu_j = 0, me_sigma_j = 0\<rparr>
                      else let lam_raw = dec_div excess_kurt 3; lam = max (dec_mul lam_raw (of_nat periods_per_year)) 1;
                               jump_var_fraction = dec_div lam_raw (dec_add 1 lam_raw); jump_var = dec_mul var_r jump_var_fraction;
                               diffusion_var = dec_mul var_r (dec_sub 1 jump_var_fraction);
                               sigma_j = decimal_sqrt_flt jump_var;
                               sigma = (if 0 < diffusion_var
                                        then dec_mul (decimal_sqrt_flt diffusion_var) (sqrt_scale periods_per_year) else 0);
                               mu_j = (if 0 < lam_raw then dec_div (dec_mul skew std_r) (dec_add 1 lam_raw) else 0)
                           in rbind (c_exp (fl_add (flt_round mu_j) (fl_mul (1 / 2) (c_pow (flt_round sigma_j) 2)))) (\<lambda>e.
                              let k = dec_sub (flt_decimal e) 1
                              in Inr \<lparr>me_mu = dec_add (drift mean_r periods_per_year sigma) (dec_mul lam k), me_sigma = sigma,
                                      me_lam = lam, me_mu_j = mu_j, me_sigma_j = sigma_j\<rparr>))"

text \<open>The frequency of large deviations in the last \<open>window\<close> returns; \<open>returns[-0:]\<close> is the whole list.\<close>

definition jump_probability :: "decimal list \<Rightarrow> nat \<Rightarrow> decimal \<Rightarrow> decimal result" where
  "jump_probability returns window threshold_sigma =
     (if returns = [] \<or> length returns < window then Inr 0
      else let mean_r = decimal_mean returns; std_r = decimal_std returns mean_r
           in if std_r = 0 then Inr 0
              else let threshold = dec_mul threshold_sigma std_r; recent = (if window = 0 then returns else last_n window returns);
                       jumps = length (filter (\<lambda>r. threshold < dec_abs (dec_sub r mean_r)) recent)
                   in dec_div_checked (of_nat jumps) (of_nat window))"

section \<open>Heston\<close>

record heston_params =
  he_mu :: decimal
  he_kappa :: decimal
  he_theta :: decimal
  he_xi :: decimal
  he_rho :: decimal

definition heston_zero :: heston_params where
  "heston_zero = \<lparr>he_mu = 0, he_kappa = 0, he_theta = 0, he_xi = 0, he_rho = 0\<rparr>"

definition autocorr_step :: "decimal \<Rightarrow> decimal \<times> decimal \<Rightarrow> decimal \<times> decimal \<Rightarrow> decimal \<times> decimal" where
  "autocorr_step mean_v acc p =
     (let dev_prev = dec_sub (fst p) mean_v; dev_curr = dec_sub (snd p) mean_v
      in (dec_add (fst acc) (dec_mul dev_prev dev_curr), dec_add (snd acc) (dec_mul dev_prev dev_prev)))"

definition vol_of_vol :: "decimal list \<Rightarrow> decimal \<Rightarrow> nat \<Rightarrow> decimal" where
  "vol_of_vol var_changes mean_v periods_per_year =
     (let std_dv = decimal_std var_changes (decimal_mean var_changes); dt_f = flt_round (1 / of_nat periods_per_year)
      in if 0 < flt_round mean_v \<and> 0 < dt_f
         then flt_decimal (flt_round (flt_round std_dv / flt_sqrt (fl_mul (flt_round mean_v) dt_f))) else 0)"

definition leverage :: "decimal list \<Rightarrow> decimal list \<Rightarrow> decimal" where
  "leverage aligned_returns var_changes =
     (let mean_ret = decimal_mean aligned_returns; mean_dv = decimal_mean var_changes;
          std_ret = decimal_std aligned_returns mean_ret; std_dv = decimal_std var_changes mean_dv
      in if 0 < std_ret \<and> 0 < std_dv
         then let cov_rv = dec_div (dec_sum (map (\<lambda>p. dec_mul (dec_sub (fst p) mean_ret) (dec_sub (snd p) mean_dv))
                             (zip aligned_returns var_changes))) (of_nat (length aligned_returns));
                  rho = dec_div cov_rv (dec_mul std_ret std_dv)
              in if 1 < rho then 1 else if rho < - 1 then - 1 else rho
         else 0)"

definition heston_fit :: "(rat \<Rightarrow> rat) \<Rightarrow> decimal list \<Rightarrow> decimal list \<Rightarrow> nat \<Rightarrow> heston_params" where
  "heston_fit c_log returns realized_vol_series periods_per_year =
     (if \<not> validate_returns returns then heston_zero
      else if length realized_vol_series \<noteq> length returns then heston_zero
      else if length realized_vol_series < MIN_RETURNS then heston_zero
      else let variance_series = map (\<lambda>v. dec_mul v v) realized_vol_series; scale = of_nat periods_per_year;
               mean_v = decimal_mean variance_series; theta = dec_mul mean_v scale
           in if theta = 0 then heston_zero
              else let ac = foldl (autocorr_step mean_v) (0, 0) (zip variance_series (tl variance_series))
                   in if snd ac = 0 then heston_zero
                      else let autocorr_f = max (flt_round (1 / 100)) (min (flt_round (dec_div (fst ac) (snd ac))) (flt_round (99 / 100)));
                               var_changes = map (\<lambda>p. dec_sub (snd p) (fst p)) (zip variance_series (tl variance_series));
                               mean_r = decimal_mean returns
                           in \<lparr>he_mu = (if 0 < theta then dec_add (dec_mul mean_r scale) (dec_mul (1 / 2) theta) else dec_mul mean_r scale),
                               he_kappa = flt_decimal (fl_mul (- c_log autocorr_f) scale), he_theta = theta,
                               he_xi = vol_of_vol var_changes mean_v periods_per_year,
                               he_rho = leverage (tl returns) var_changes\<rparr>)"

section \<open>Lemmas\<close>

lemma decimal_std_nonneg: "0 \<le> decimal_std vs mean"
  by (auto simp: decimal_std_def Let_def intro: flt_decimal_nonneg isqrt_sqrt_nonneg)

lemma sqrt_scale_nonneg: "0 \<le> sqrt_scale n"
  by (simp add: sqrt_scale_def flt_decimal_nonneg isqrt_sqrt_nonneg)

lemma even_moment_nonneg: "even k \<Longrightarrow> 0 \<le> central_moment k vs mean"
  unfolding central_moment_def
  by (intro dec_div_nonneg dec_sum_nonneg) (auto simp: dec_pow_def zero_le_even_power intro!: dec.rnd_nonneg)

lemma leverage_unit: "- 1 \<le> leverage rs vs \<and> leverage rs vs \<le> 1"
  by (simp add: leverage_def Let_def)

lemma vol_of_vol_nonneg: "0 \<le> vol_of_vol vs mean_v n"
  by (auto simp: vol_of_vol_def Let_def intro!: flt_decimal_nonneg flt.rnd_nonneg divide_nonneg_nonneg decimal_std_nonneg isqrt_sqrt_nonneg)

lemma flt_half: "flt_round (1 / 2) = 1 / 2" "flt_round (127 / 128) = 127 / 128"
  using flt_round_grid [of "1 / 2" 1 1] flt_round_grid [of "127 / 128" 7 127] by simp_all

section \<open>Properties\<close>

text \<open>A fitted diffusion has a positive volatility, and a refusal is the pair of zeros.\<close>

lemma gbm_fit_sound:
  assumes "gbm_fit returns n = (mu, sigma)"
  shows "0 \<le> sigma \<and> (\<not> validate_returns returns \<longrightarrow> mu = 0 \<and> sigma = 0)"
  using assms dec_mul_nonneg [OF decimal_std_nonneg sqrt_scale_nonneg]
  by (auto simp: gbm_fit_def Let_def split: if_splits)

text \<open>
  The jump model decomposes: volatilities are nonnegative, and either there is no jump part at all or at least one
  jump per year.
\<close>

lemma merton_fit_sound:
  assumes "merton_fit c_exp c_pow returns n = Inr p"
  shows "0 \<le> me_sigma p \<and> 0 \<le> me_sigma_j p \<and> (1 \<le> me_lam p \<or> me_lam p = 0 \<and> me_mu_j p = 0 \<and> me_sigma_j p = 0)"
proof -
  have "0 \<le> dec_mul (flt_decimal (flt_sqrt (flt_round v))) (sqrt_scale n)" "0 \<le> dec_mul (decimal_sqrt_flt v) (sqrt_scale n)" for v
    by (intro dec_mul_nonneg flt_decimal_nonneg isqrt_sqrt_nonneg sqrt_scale_nonneg decimal_sqrt_flt_nonneg)+
  then show ?thesis using assms decimal_sqrt_flt_nonneg
    by (auto simp: merton_fit_def merton_zero_def Let_def split: if_splits)
qed

text \<open>
  The Heston fit returns admissible parameters for every input: a nonnegative long-run variance, reversion speed and
  volatility of volatility, and a correlation in \<open>[-1, 1]\<close>; a series it cannot fit gives zeros.
\<close>

theorem heston_fit_admissible:
  assumes "\<forall>x. 0 < x \<and> x < 1 \<longrightarrow> c_log x \<le> 0"
  shows "0 \<le> he_theta (heston_fit c_log returns vols n) \<and> 0 \<le> he_kappa (heston_fit c_log returns vols n) \<and>
    0 \<le> he_xi (heston_fit c_log returns vols n) \<and> - 1 \<le> he_rho (heston_fit c_log returns vols n) \<and>
    he_rho (heston_fit c_log returns vols n) \<le> 1 \<and>
    (length vols \<noteq> length returns \<or> length returns < MIN_RETURNS \<longrightarrow> heston_fit c_log returns vols n = heston_zero)"
proof -
  have theta: "0 \<le> dec_mul (decimal_mean (map (\<lambda>v. dec_mul v v) vols)) (of_nat n)"
    unfolding decimal_mean_def by (intro dec_mul_nonneg dec_div_nonneg dec_sum_nonneg) (auto simp: dec_mul_def intro!: dec.rnd_nonneg)
  have kappa: "0 \<le> flt_decimal (fl_mul (- c_log (max (flt_round (1 / 100)) (min x (flt_round (99 / 100))))) (of_nat n))" for x
  proof -
    have "0 < flt_round (1 / 100)" by (simp add: flt.rnd_pos_iff)
    moreover have "flt_round (1 / 100) \<le> 1 / 2" by (rule flt.rnd_le) (simp_all add: flt_half)
    moreover have "flt_round (99 / 100) \<le> 127 / 128" by (rule flt.rnd_le) (simp_all add: flt_half)
    ultimately have "0 < flt_round (1 / 100)" "flt_round (1 / 100) < 1" "flt_round (99 / 100) < 1" by linarith+
    then have "c_log (max (flt_round (1 / 100)) (min x (flt_round (99 / 100)))) \<le> 0"
      by (intro assms [rule_format]) (auto simp: max_def min_def)
    then show ?thesis by (auto simp: fl_mul_def mult_nonpos_nonneg intro!: flt_decimal_nonneg flt.rnd_nonneg)
  qed
  show ?thesis
    using theta kappa vol_of_vol_nonneg leverage_unit
    by (simp add: heston_fit_def heston_zero_def validate_returns_def Let_def)
qed

theorem heston_fit_admissible_witness: "0 \<le> he_kappa (heston_fit (\<lambda>_. - 1) (replicate 12 1) (map of_nat [1..<13]) 252)"
  using heston_fit_admissible [of "\<lambda>_. - 1" "replicate 12 1" "map of_nat [1..<13]" 252] by simp

text \<open>The empirical jump frequency is a probability whenever the window is not empty; an empty window can only raise.\<close>

lemma jump_probability_unit:
  assumes "0 < window"
  obtains q where "jump_probability returns window k = Inr q" "0 \<le> q" "q \<le> 1"
proof -
  have "of_nat (length (filter P (last_n window returns))) / of_nat window \<le> (1 :: rat)" for P
    using length_filter_le [of P "last_n window returns"] assms by (simp add: divide_le_eq_1)
  then have "0 \<le> dec_div (of_nat (length (filter P (last_n window returns)))) (of_nat window) \<and>
      dec_div (of_nat (length (filter P (last_n window returns)))) (of_nat window) \<le> 1" for P
    by (auto simp: dec_div_def intro!: dec.rnd_nonneg dec.rnd_le)
  then show ?thesis using that assms by (cases "returns = [] \<or> length returns < window \<or> decimal_std returns (decimal_mean returns) = 0")
    (auto simp: jump_probability_def dec_div_checked_def Let_def cong: if_cong)
qed

end
