(* ===== verification/Walk_Forward.thy ===== *)
theory Walk_Forward
  imports Extended_Decimals "HOL-Library.Monad_Syntax"
begin

text \<open>
  Two tools that judge a strategy by its past: the walk-forward optimizer (\<open>optimization/walk_forward.py\<close>), whose
  rolling loop is a partial function because it need not end, and the tracker of the edge per trading context
  (\<open>analytics/historical_edge.py\<close>). The objective of the optimizer is an argument; it may raise.
\<close>

section \<open>Walk-forward optimizer\<close>

record wfo_window =
  in_sample_start :: nat
  in_sample_end :: nat
  out_sample_start :: nat
  out_sample_end :: nat
  is_sharpe :: decimal
  oos_sharpe :: decimal

record 'p wfo_result =
  wr_windows :: "wfo_window list"
  wr_best_params :: "'p list"
  avg_is_sharpe :: decimal
  avg_oos_sharpe :: decimal
  oos_degradation :: decimal
  wr_is_overfit :: bool

record optimizer =
  is_bars :: nat
  oos_bars :: nat
  step_bars :: nat
  window_bars :: nat

definition new_optimizer :: "nat \<Rightarrow> nat \<Rightarrow> nat \<Rightarrow> nat \<Rightarrow> optimizer" where
  "new_optimizer in_sample_days out_sample_days step_days bars_per_day =
     \<lparr>is_bars = in_sample_days * bars_per_day, oos_bars = out_sample_days * bars_per_day,
      step_bars = step_days * bars_per_day,
      window_bars = in_sample_days * bars_per_day + out_sample_days * bars_per_day\<rparr>"

text \<open>\<open>bars[a:b]\<close>, and the combinations of a parameter grid in the order of \<open>itertools.product\<close>.\<close>

definition slice :: "nat \<Rightarrow> nat \<Rightarrow> 'b list \<Rightarrow> 'b list" where
  "slice a b bars = take (b - a) (drop a bars)"

type_synonym 'v params = "(string \<times> 'v) list"

definition param_combos :: "(string \<times> 'v list) list \<Rightarrow> 'v params list" where
  "param_combos grid = map (zip (map fst grid)) (product_lists (map snd grid))"

fun grid_search ::
  "('b list \<Rightarrow> 'v params \<Rightarrow> decimal result) \<Rightarrow> 'b list \<Rightarrow> 'v params list \<Rightarrow> decimal \<times> 'v params \<Rightarrow> (decimal \<times> 'v params) result" where
  "grid_search evaluate is_slice [] best = Inr best"
| "grid_search evaluate is_slice (params # combos) best =
     rbind (evaluate is_slice params) (\<lambda>sharpe.
       grid_search evaluate is_slice combos (if fst best < sharpe then (sharpe, params) else best))"

definition one_window ::
  "('b list \<Rightarrow> 'v params \<Rightarrow> decimal result) \<Rightarrow> 'b list \<Rightarrow> 'v params list \<Rightarrow> optimizer \<Rightarrow> nat \<Rightarrow> (wfo_window \<times> 'v params) result" where
  "one_window evaluate bars combos opt offset =
     (let is_start = offset; is_end = offset + is_bars opt; oos_start = is_end; oos_end = is_end + oos_bars opt
      in rbind (grid_search evaluate (slice is_start is_end bars) combos (- 9999, [])) (\<lambda>(best_sharpe, best_params).
         rbind (evaluate (slice oos_start oos_end bars) best_params) (\<lambda>sharpe.
           Inr (\<lparr>in_sample_start = is_start, in_sample_end = is_end, out_sample_start = oos_start, out_sample_end = oos_end,
                 is_sharpe = best_sharpe, oos_sharpe = sharpe\<rparr>, best_params))))"

definition build_wfo_result :: "wfo_window list \<Rightarrow> 'v params list \<Rightarrow> 'v params wfo_result" where
  "build_wfo_result windows best_params =
     (let n = (if windows = [] then 1 else of_nat (length windows));
          avg_is = dec_div (dec_sum (map is_sharpe windows)) n; avg_oos = dec_div (dec_sum (map oos_sharpe windows)) n;
          degradation = (if avg_is \<noteq> 0 then dec_div avg_oos avg_is else 0)
      in \<lparr>wr_windows = windows, wr_best_params = best_params, avg_is_sharpe = avg_is, avg_oos_sharpe = avg_oos,
          oos_degradation = degradation, wr_is_overfit = degradation < 1 / 2\<rparr>)"

partial_function (option) roll ::
  "('b list \<Rightarrow> 'v params \<Rightarrow> decimal result) \<Rightarrow> 'b list \<Rightarrow> 'v params list \<Rightarrow> optimizer \<Rightarrow> nat \<Rightarrow>
   wfo_window list \<Rightarrow> 'v params list \<Rightarrow> (wfo_window list \<times> 'v params list) result option" where
  "roll evaluate bars combos opt offset windows best_params =
     (if offset + window_bars opt \<le> length bars
      then case one_window evaluate bars combos opt offset of
             Inl e \<Rightarrow> Some (Inl e)
           | Inr wp \<Rightarrow> roll evaluate bars combos opt (offset + step_bars opt) (windows @ [fst wp]) (best_params @ [snd wp])
      else Some (Inr (windows, best_params)))"

definition optimize ::
  "('b list \<Rightarrow> 'v params \<Rightarrow> decimal result) \<Rightarrow> 'b list \<Rightarrow> (string \<times> 'v list) list \<Rightarrow> optimizer \<Rightarrow> 'v params wfo_result result option" where
  "optimize evaluate bars grid opt =
     (if length bars < window_bars opt
      then Some (Inr \<lparr>wr_windows = [], wr_best_params = [], avg_is_sharpe = 0, avg_oos_sharpe = 0, oos_degradation = 0,
                      wr_is_overfit = True\<rparr>)
      else roll evaluate bars (param_combos grid) opt 0 [] [] \<bind>
             (\<lambda>r. Some (rbind r (\<lambda>(windows, best_params). Inr (build_wfo_result windows best_params)))))"

section \<open>Historical edge\<close>

record edge_stats =
  wins :: nat
  losses :: nat
  total_profit :: decimal
  total_loss :: decimal

definition empty_edge :: edge_stats where
  "empty_edge = \<lparr>wins = 0, losses = 0, total_profit = 0, total_loss = 0\<rparr>"

definition trade_count :: "edge_stats \<Rightarrow> nat" where
  "trade_count s = wins s + losses s"

definition edge_win_rate :: "edge_stats \<Rightarrow> decimal result" where
  "edge_win_rate s = (if trade_count s = 0 then Inr 0 else quantize 4 (dec_div (of_nat (wins s)) (of_nat (trade_count s))))"

definition avg_win :: "edge_stats \<Rightarrow> decimal" where
  "avg_win s = (if wins s = 0 then 0 else dec_div (total_profit s) (of_nat (wins s)))"

definition avg_loss :: "edge_stats \<Rightarrow> decimal" where
  "avg_loss s = (if losses s = 0 then 0 else dec_div (total_loss s) (of_nat (losses s)))"

definition expected_value :: "edge_stats \<Rightarrow> decimal result" where
  "expected_value s =
     (if trade_count s = 0 then Inr 0
      else rbind (edge_win_rate s) (\<lambda>wr. quantize 2 (dec_add (dec_mul wr (avg_win s)) (dec_mul (dec_sub 1 wr) (avg_loss s)))))"

definition profit_factor :: "edge_stats \<Rightarrow> xdecimal" where
  "profit_factor s =
     (if total_loss s = 0 then (if 0 < total_profit s then PosInf else Fin 0)
      else Fin (dec_abs (dec_div (total_profit s) (total_loss s))))"

record edge_snapshot =
  es_symbol :: string
  es_regime :: string
  es_session :: string
  es_win_rate :: decimal
  es_avg_win :: decimal
  es_avg_loss :: decimal
  es_expected_value :: decimal
  es_profit_factor :: xdecimal
  es_trade_count :: nat
  es_is_reliable :: bool

type_synonym edge_context = "string \<times> string \<times> string"

record edge_tracker =
  min_trades :: nat
  edges :: "(edge_context \<times> edge_stats) list"

definition new_edge_tracker :: "nat \<Rightarrow> edge_tracker" where
  "new_edge_tracker n = \<lparr>min_trades = n, edges = []\<rparr>"

definition edge_key :: "string \<Rightarrow> string \<Rightarrow> string \<Rightarrow> edge_context" where
  "edge_key symbol regime session = (str_upper symbol, str_lower regime, str_lower session)"

definition book_outcome :: "decimal \<Rightarrow> edge_stats \<Rightarrow> edge_stats" where
  "book_outcome profit s =
     (if 0 < profit then s\<lparr>wins := wins s + 1, total_profit := dec_add (total_profit s) profit\<rparr>
      else if profit < 0 then s\<lparr>losses := losses s + 1, total_loss := dec_add (total_loss s) profit\<rparr>
      else s)"

definition record_edge_outcome :: "string \<Rightarrow> string \<Rightarrow> string \<Rightarrow> decimal \<Rightarrow> edge_tracker \<Rightarrow> edge_tracker" where
  "record_edge_outcome symbol regime session profit t =
     (let key = edge_key symbol regime session
      in t\<lparr>edges := dict_set key (book_outcome profit (opt_get (map_of (edges t) key) empty_edge)) (edges t)\<rparr>)"

definition snapshot_of :: "nat \<Rightarrow> edge_context \<times> edge_stats \<Rightarrow> edge_snapshot result" where
  "snapshot_of n p =
     (let key = fst p; s = snd p
      in rbind (edge_win_rate s) (\<lambda>wr. rbind (expected_value s) (\<lambda>ev.
           Inr \<lparr>es_symbol = fst key, es_regime = fst (snd key), es_session = snd (snd key), es_win_rate = wr,
                es_avg_win = avg_win s, es_avg_loss = avg_loss s, es_expected_value = ev, es_profit_factor = profit_factor s,
                es_trade_count = trade_count s, es_is_reliable = n \<le> trade_count s\<rparr>)))"

definition get_edge :: "string \<Rightarrow> string \<Rightarrow> string \<Rightarrow> edge_tracker \<Rightarrow> edge_snapshot result" where
  "get_edge symbol regime session t =
     (let key = edge_key symbol regime session
      in snapshot_of (min_trades t) (key, opt_get (map_of (edges t) key) empty_edge))"

fun all_snapshots :: "nat \<Rightarrow> (edge_context \<times> edge_stats) list \<Rightarrow> edge_snapshot list result" where
  "all_snapshots n [] = Inr []"
| "all_snapshots n (p # ps) = rbind (snapshot_of n p) (\<lambda>x. rbind (all_snapshots n ps) (\<lambda>xs. Inr (x # xs)))"

definition get_all_edges :: "edge_tracker \<Rightarrow> edge_snapshot list result" where
  "get_all_edges t = all_snapshots (min_trades t) (edges t)"

text \<open>The report keeps the numbers of each context under its label; their text form is left out.\<close>

definition edge_label :: "edge_snapshot \<Rightarrow> string" where
  "edge_label x = es_symbol x @ ''|'' @ es_regime x @ ''|'' @ es_session x"

definition edge_report :: "edge_tracker \<Rightarrow> (string \<times> edge_snapshot) list result" where
  "edge_report t = rbind (get_all_edges t) (\<lambda>xs. Inr (foldl (\<lambda>report x. dict_set (edge_label x) x report) [] xs))"

section \<open>The rolling loop\<close>

lemma roll_returns:
  assumes "0 < step_bars opt"
  shows "\<exists>r. roll evaluate bars combos opt offset windows best_params = Some r"
proof (induction "length bars + 1 - offset" arbitrary: offset windows best_params rule: less_induct)
  case less
  show ?case
  proof (cases "offset + window_bars opt \<le> length bars")
    case True
    show ?thesis
    proof (cases "one_window evaluate bars combos opt offset")
      case (Inr wp)
      have "length bars + 1 - (offset + step_bars opt) < length bars + 1 - offset" using True assms by linarith
      from less [OF this] show ?thesis using True Inr by (simp add: roll.simps [of _ _ _ _ offset])
    qed (simp add: True roll.simps)
  qed (simp add: roll.simps)
qed

text \<open>With a step of zero the loop evaluates the same window for ever.\<close>

definition stuck :: "('b list \<Rightarrow> 'v params \<Rightarrow> decimal result) \<Rightarrow> 'b list \<Rightarrow> 'v params list \<Rightarrow> optimizer \<Rightarrow> nat \<Rightarrow> bool" where
  "stuck evaluate bars combos opt offset \<longleftrightarrow>
     step_bars opt = 0 \<and> offset + window_bars opt \<le> length bars \<and> (\<exists>wp. one_window evaluate bars combos opt offset = Inr wp)"

lemma roll_stuck:
  assumes "stuck evaluate bars combos opt offset"
  shows "roll evaluate bars combos opt offset windows best_params = None"
proof (rule ccontr)
  assume "roll evaluate bars combos opt offset windows best_params \<noteq> None"
  then obtain r where r: "roll evaluate bars combos opt offset windows best_params = Some r" by blast
  have "\<not> stuck evaluate bars combos opt offset"
  proof (rule roll.raw_induct [where P = "\<lambda>evaluate bars combos opt offset _ _ _. \<not> stuck evaluate bars combos opt offset", OF _ r])
    fix f evaluate bars combos opt offset windows best_params r
    assume IH: "\<And>evaluate bars combos opt offset windows best_params r. f evaluate bars combos opt offset windows best_params = Some r \<Longrightarrow>
        \<not> stuck evaluate bars combos opt offset"
      and body: "(if offset + window_bars opt \<le> length bars
        then case one_window evaluate bars combos opt offset of
               Inl e \<Rightarrow> Some (Inl e)
             | Inr wp \<Rightarrow> f evaluate bars combos opt (offset + step_bars opt) (windows @ [fst wp]) (best_params @ [snd wp])
        else Some (Inr (windows, best_params))) = Some r"
    show "\<not> stuck evaluate bars combos opt offset"
    proof
      assume st: "stuck evaluate bars combos opt offset"
      then obtain wp where "f evaluate bars combos opt offset (windows @ [fst wp]) (best_params @ [snd wp]) = Some r"
        using body by (auto simp: stuck_def)
      from IH [OF this] show False using st by blast
    qed
  qed
  then show False using assms by blast
qed

lemma grid_search_best:
  assumes "grid_search evaluate is_slice combos best = Inr (b, p)"
  shows "fst best \<le> b \<and> (\<forall>q\<in>set combos. \<exists>v. evaluate is_slice q = Inr v \<and> v \<le> b) \<and>
    ((b, p) = best \<or> p \<in> set combos \<and> evaluate is_slice p = Inr b)"
  using assms
proof (induction combos arbitrary: best)
  case (Cons q combos)
  obtain v where v: "evaluate is_slice q = Inr v"
    "grid_search evaluate is_slice combos (if fst best < v then (v, q) else best) = Inr (b, p)"
    using Cons.prems by auto
  show ?case using Cons.IH [OF v(2)] v(1) by (auto split: if_splits)
qed simp

text \<open>What a window records: its borders, the best objective on its in-sample bars and the parameters that gave it.\<close>

definition window_spec ::
  "('b list \<Rightarrow> 'v params \<Rightarrow> decimal result) \<Rightarrow> 'b list \<Rightarrow> 'v params list \<Rightarrow> optimizer \<Rightarrow> nat \<Rightarrow> wfo_window \<Rightarrow> 'v params \<Rightarrow> bool" where
  "window_spec evaluate bars combos opt offset w p \<longleftrightarrow>
     in_sample_start w = offset \<and> in_sample_end w = offset + is_bars opt \<and> out_sample_start w = in_sample_end w \<and>
     out_sample_end w = out_sample_start w + oos_bars opt \<and>
     (let seen = slice (in_sample_start w) (in_sample_end w) bars
      in (\<forall>q\<in>set combos. \<exists>v. evaluate seen q = Inr v \<and> v \<le> is_sharpe w) \<and>
         (is_sharpe w = - 9999 \<and> p = [] \<or> p \<in> set combos \<and> evaluate seen p = Inr (is_sharpe w))) \<and>
     evaluate (slice (out_sample_start w) (out_sample_end w) bars) p = Inr (oos_sharpe w)"

lemma one_window_spec:
  "one_window evaluate bars combos opt offset = Inr (w, p) \<Longrightarrow> window_spec evaluate bars combos opt offset w p"
  using grid_search_best [of evaluate _ combos "(- 9999, [])"]
  by (fastforce simp: one_window_def window_spec_def Let_def)

definition windows_ok ::
  "('b list \<Rightarrow> 'v params \<Rightarrow> decimal result) \<Rightarrow> 'b list \<Rightarrow> 'v params list \<Rightarrow> optimizer \<Rightarrow> wfo_window list \<Rightarrow> 'v params list \<Rightarrow> bool" where
  "windows_ok evaluate bars combos opt ws ps \<longleftrightarrow>
     length ps = length ws \<and>
     (\<forall>k<length ws. k * step_bars opt + window_bars opt \<le> length bars \<and>
        one_window evaluate bars combos opt (k * step_bars opt) = Inr (ws ! k, ps ! k))"

definition roll_post ::
  "('b list \<Rightarrow> 'v params \<Rightarrow> decimal result) \<Rightarrow> 'b list \<Rightarrow> 'v params list \<Rightarrow> optimizer \<Rightarrow> nat \<Rightarrow>
   wfo_window list \<Rightarrow> 'v params list \<Rightarrow> (wfo_window list \<times> 'v params list) result \<Rightarrow> bool" where
  "roll_post evaluate bars combos opt offset windows best_params r \<longleftrightarrow>
     (offset = length windows * step_bars opt \<and> windows_ok evaluate bars combos opt windows best_params \<longrightarrow>
      (\<forall>ws ps. r = Inr (ws, ps) \<longrightarrow>
         windows_ok evaluate bars combos opt ws ps \<and> length bars < length ws * step_bars opt + window_bars opt))"

lemma windows_ok_snoc:
  assumes "windows_ok evaluate bars combos opt windows best_params"
    "length windows * step_bars opt + window_bars opt \<le> length bars"
    "one_window evaluate bars combos opt (length windows * step_bars opt) = Inr wp"
  shows "windows_ok evaluate bars combos opt (windows @ [fst wp]) (best_params @ [snd wp])"
  using assms by (auto simp: windows_ok_def nth_append less_Suc_eq)

lemma roll_windows:
  assumes "roll evaluate bars combos opt offset windows best_params = Some r"
  shows "roll_post evaluate bars combos opt offset windows best_params r"
proof (rule roll.raw_induct [where P = roll_post, OF _ assms])
  fix f evaluate bars combos opt offset windows best_params r
  assume IH: "\<And>evaluate bars combos opt offset windows best_params r. f evaluate bars combos opt offset windows best_params = Some r \<Longrightarrow>
      roll_post evaluate bars combos opt offset windows best_params r"
    and body: "(if offset + window_bars opt \<le> length bars
      then case one_window evaluate bars combos opt offset of
             Inl e \<Rightarrow> Some (Inl e)
           | Inr wp \<Rightarrow> f evaluate bars combos opt (offset + step_bars opt) (windows @ [fst wp]) (best_params @ [snd wp])
      else Some (Inr (windows, best_params))) = Some r"
  show "roll_post evaluate bars combos opt offset windows best_params r"
  proof (cases "offset + window_bars opt \<le> length bars")
    case True
    show ?thesis
    proof (cases "one_window evaluate bars combos opt offset")
      case (Inr wp)
      then have "f evaluate bars combos opt (offset + step_bars opt) (windows @ [fst wp]) (best_params @ [snd wp]) = Some r"
        using body True by simp
      note post = IH [OF this]
      show ?thesis unfolding roll_post_def
      proof
        assume start: "offset = length windows * step_bars opt \<and> windows_ok evaluate bars combos opt windows best_params"
        then have "windows_ok evaluate bars combos opt (windows @ [fst wp]) (best_params @ [snd wp])"
          using True Inr by (intro windows_ok_snoc) auto
        moreover have "offset + step_bars opt = length (windows @ [fst wp]) * step_bars opt" using start by simp
        ultimately show "\<forall>ws ps. r = Inr (ws, ps) \<longrightarrow>
            windows_ok evaluate bars combos opt ws ps \<and> length bars < length ws * step_bars opt + window_bars opt"
          using post unfolding roll_post_def by blast
      qed
    qed (use body True in \<open>auto simp: roll_post_def\<close>)
  qed (use body in \<open>auto simp: roll_post_def not_le\<close>)
qed

section \<open>Properties of the optimizer\<close>

text \<open>
  C36. The optimizer returns exactly when the history is shorter than one window, the step is positive, or the objective
  raises on the first window: with a step of zero days every other call runs for ever.
\<close>

theorem walk_forward_ends_iff:
  "optimize evaluate bars grid opt \<noteq> None \<longleftrightarrow>
     length bars < window_bars opt \<or> 0 < step_bars opt \<or>
     (\<exists>e. one_window evaluate bars (param_combos grid) opt 0 = Inl e)"
proof (cases "length bars < window_bars opt \<or> 0 < step_bars opt")
  case True
  then show ?thesis using roll_returns [of opt evaluate bars "param_combos grid" 0 "[]" "[]"]
    by (auto simp: optimize_def)
next
  case False
  show ?thesis
  proof (cases "one_window evaluate bars (param_combos grid) opt 0")
    case (Inl e)
    then have "roll evaluate bars (param_combos grid) opt 0 [] [] = Some (Inl e)" using False by (subst roll.simps) simp
    then show ?thesis using Inl False by (simp add: optimize_def)
  next
    case (Inr wp)
    then have "stuck evaluate bars (param_combos grid) opt 0" using False by (simp add: stuck_def)
    then show ?thesis using Inr False by (simp add: optimize_def roll_stuck)
  qed
qed

text \<open>
  C35. A finished optimization of a long enough history has every window that fits and no other: window \<open>k\<close> starts
  \<open>k\<close> steps in, its out-of-sample bars follow its in-sample bars at once and end inside the history, its parameters
  are the best of the grid on the in-sample bars alone, and its score is their objective on the bars after those.
\<close>

theorem walk_forward_windows:
  assumes "optimize evaluate bars grid (new_optimizer i out_days s b) = Some (Inr r)" "(i + out_days) * b \<le> length bars"
  shows "length (wr_windows r) * (s * b) + (i + out_days) * b > length bars \<and>
    length (wr_best_params r) = length (wr_windows r) \<and>
    (\<forall>k<length (wr_windows r). k * (s * b) + (i + out_days) * b \<le> length bars \<and>
       window_spec evaluate bars (param_combos grid) (new_optimizer i out_days s b) (k * (s * b)) (wr_windows r ! k) (wr_best_params r ! k))"
proof -
  let ?o = "new_optimizer i out_days s b" and ?c = "param_combos grid"
  have w: "window_bars ?o = (i + out_days) * b" "step_bars ?o = s * b" by (simp_all add: new_optimizer_def algebra_simps)
  then obtain ws ps where r: "roll evaluate bars ?c ?o 0 [] [] = Some (Inr (ws, ps))" "r = build_wfo_result ws ps"
    using assms by (auto simp: optimize_def bind_eq_Some_conv split: if_splits)
  then have "windows_ok evaluate bars ?c ?o ws ps" "length bars < length ws * step_bars ?o + window_bars ?o"
    using roll_windows [OF r(1)] by (simp_all add: windows_ok_def roll_post_def)
  moreover have "wr_windows r = ws" "wr_best_params r = ps" by (simp_all add: r(2) build_wfo_result_def Let_def)
  ultimately show ?thesis by (auto simp: windows_ok_def w one_window_spec)
qed

text \<open>A strategy that loses money in sample and even more out of sample counts as not overfit.\<close>

lemma losing_strategy_not_overfit:
  assumes "optimize evaluate bars grid opt = Some (Inr r)" "avg_is_sharpe r < 0" "avg_oos_sharpe r \<le> avg_is_sharpe r"
  shows "\<not> wr_is_overfit r \<and> 1 \<le> oos_degradation r"
proof -
  obtain ws ps where r: "r = build_wfo_result ws ps"
    using assms(1,2) by (auto simp: optimize_def bind_eq_Some_conv split: if_splits)
  have "1 \<le> avg_oos_sharpe r / avg_is_sharpe r" using assms(2,3) by (simp add: le_divide_eq)
  then have "1 \<le> dec_div (avg_oos_sharpe r) (avg_is_sharpe r)" unfolding dec_div_def by (intro dec.rnd_ge) simp_all
  then show ?thesis using assms(2) by (simp add: r build_wfo_result_def Let_def)
qed

definition sample_objective :: "nat list \<Rightarrow> nat params \<Rightarrow> decimal result" where
  "sample_objective bars params = Inr (of_nat (sum_list (map snd params)))"

lemma sample_walk:
  "optimize sample_objective [5, 6, 7] [(''n'', [1, 3, 2])] (new_optimizer 1 1 1 1) =
     Some (Inr (build_wfo_result
       [\<lparr>in_sample_start = 0, in_sample_end = 1, out_sample_start = 1, out_sample_end = 2, is_sharpe = 3, oos_sharpe = 3\<rparr>,
        \<lparr>in_sample_start = 1, in_sample_end = 2, out_sample_start = 2, out_sample_end = 3, is_sharpe = 3, oos_sharpe = 3\<rparr>]
       [[(''n'', 3)], [(''n'', 3)]]))"
  by (simp add: optimize_def new_optimizer_def param_combos_def roll.simps one_window_def sample_objective_def numeral_2_eq_2 numeral_3_eq_3)

theorem walk_forward_windows_witness:
  "\<exists>r. optimize sample_objective [5, 6, 7] [(''n'', [1, 3, 2])] (new_optimizer 1 1 1 1) = Some (Inr r) \<and>
     wr_best_params r ! 1 = [(''n'', 3)] \<and>
     window_spec sample_objective [5, 6, 7] (param_combos [(''n'', [1, 3, 2])]) (new_optimizer 1 1 1 1) 1 (wr_windows r ! 1) (wr_best_params r ! 1)"
  using walk_forward_windows [OF sample_walk] sample_walk by (auto simp: build_wfo_result_def Let_def)

section \<open>Properties of the tracker\<close>

definition edge_after :: "(edge_context \<times> decimal) list \<Rightarrow> edge_context \<Rightarrow> edge_stats" where
  "edge_after outcomes key = foldl (\<lambda>s x. book_outcome (snd x) s) empty_edge (filter (\<lambda>x. fst x = key) outcomes)"

definition record_all :: "(string \<times> string \<times> string \<times> decimal) list \<Rightarrow> edge_tracker \<Rightarrow> edge_tracker" where
  "record_all outcomes t = foldl (\<lambda>t (symbol, regime, session, profit). record_edge_outcome symbol regime session profit t) t outcomes"

definition keyed :: "string \<times> string \<times> string \<times> decimal \<Rightarrow> edge_context \<times> decimal" where
  "keyed x = (case x of (symbol, regime, session, profit) \<Rightarrow> (edge_key symbol regime session, profit))"

lemma record_all_edges:
  "min_trades (record_all outcomes (new_edge_tracker n)) = n \<and>
   opt_get (map_of (edges (record_all outcomes (new_edge_tracker n))) key) empty_edge = edge_after (map keyed outcomes) key"
proof (induction outcomes rule: rev_induct)
  case Nil
  then show ?case by (simp add: record_all_def new_edge_tracker_def edge_after_def)
next
  case (snoc x outcomes)
  then show ?case
    by (cases x) (auto simp: record_all_def edge_after_def keyed_def record_edge_outcome_def Let_def)
qed

text \<open>What the statistics of a context say: counts of gains and losses, totals with the matching signs.\<close>

definition edge_sound :: "edge_stats \<Rightarrow> decimal list \<Rightarrow> bool" where
  "edge_sound s profits \<longleftrightarrow>
     wins s = length (filter (\<lambda>p. 0 < p) profits) \<and> losses s = length (filter (\<lambda>p. p < 0) profits) \<and>
     total_profit s = dec_sum (filter (\<lambda>p. 0 < p) profits) \<and> total_loss s = dec_sum (filter (\<lambda>p. p < 0) profits) \<and>
     0 \<le> total_profit s \<and> total_loss s \<le> 0"

lemma edge_after_sound: "edge_sound (edge_after outcomes key) (map snd (filter (\<lambda>x. fst x = key) outcomes))"
proof (induction outcomes rule: rev_induct)
  case (snoc x outcomes)
  then show ?case
    by (auto simp: edge_after_def edge_sound_def book_outcome_def dec_sum_def dec_add_def
      intro!: dec.rnd_nonneg dec.rnd_nonpos)
qed (simp add: edge_after_def edge_sound_def empty_edge_def dec_sum_def)

lemma edge_statistics_signs:
  assumes "edge_sound s profits"
  shows "0 \<le> avg_win s" "avg_loss s \<le> 0" "edge_win_rate s = Inr w \<Longrightarrow> 0 \<le> w \<and> w \<le> 1"
proof -
  show "0 \<le> avg_win s" using assms by (auto simp: avg_win_def edge_sound_def intro: dec_div_nonneg)
  show "avg_loss s \<le> 0"
    using assms by (auto simp: avg_loss_def edge_sound_def dec_div_def divide_nonpos_pos intro!: dec.rnd_nonpos)
  have "0 \<le> dec_div (of_nat (wins s)) (of_nat (trade_count s))" "dec_div (of_nat (wins s)) (of_nat (trade_count s)) \<le> 1"
    by (auto simp: dec_div_def trade_count_def divide_le_eq_1 intro!: dec.rnd_nonneg dec.rnd_le)
  moreover have "on_grid 4 0" "on_grid 4 1" by (simp_all add: on_gridI [of 0 4 0] on_gridI [of 1 4 10000])
  ultimately show "0 \<le> w \<and> w \<le> 1" if "edge_win_rate s = Inr w"
    using that quantize_ge quantize_le by (auto simp: edge_win_rate_def split: if_splits)
qed

text \<open>
  After any sequence of outcomes the snapshot of a context counts exactly its outcomes with a profit or a loss
  (whatever the case of the names), calls itself reliable exactly from the configured number on, and has a win rate
  in \<open>[0, 1]\<close>, a nonnegative mean gain and a nonpositive mean loss; break-even outcomes do not count.
\<close>

theorem edge_counts_outcomes:
  assumes "get_edge symbol regime session (record_all outcomes (new_edge_tracker n)) = Inr e"
  defines "mine \<equiv> \<lambda>k. length (filter (\<lambda>(s, r, t, p). edge_key s r t = edge_key symbol regime session \<and> k p) outcomes)"
  shows "es_trade_count e = mine (\<lambda>p. p \<noteq> 0) \<and> (es_is_reliable e \<longleftrightarrow> n \<le> mine (\<lambda>p. p \<noteq> 0)) \<and>
    0 \<le> es_win_rate e \<and> es_win_rate e \<le> 1 \<and> 0 \<le> es_avg_win e \<and> es_avg_loss e \<le> 0 \<and>
    (0 < mine (\<lambda>p. p \<noteq> 0) \<longrightarrow>
       quantize 4 (dec_div (of_nat (mine (\<lambda>p. 0 < p))) (of_nat (mine (\<lambda>p. p \<noteq> 0)))) = Inr (es_win_rate e))"
proof -
  let ?key = "edge_key symbol regime session" and ?s = "edge_after (map keyed outcomes) (edge_key symbol regime session)"
  define profits where "profits = map snd (filter (\<lambda>x. fst x = ?key) (map keyed outcomes))"
  have sound: "edge_sound ?s profits" unfolding profits_def by (rule edge_after_sound)
  have mine: "length (filter k profits) = mine k" for k
    unfolding profits_def mine_def by (induction outcomes) (auto simp: keyed_def)
  have split: "length (filter (\<lambda>p. 0 < p) xs) + length (filter (\<lambda>p. p < 0) xs) = length (filter (\<lambda>p. p \<noteq> 0) xs)" for xs :: "rat list"
    by (induction xs) auto
  have count: "trade_count ?s = mine (\<lambda>p. p \<noteq> 0)" "wins ?s = mine (\<lambda>p. 0 < p)"
    using sound split [of profits] by (simp_all add: edge_sound_def trade_count_def mine)
  obtain w where w: "edge_win_rate ?s = Inr w" "es_win_rate e = w" "es_avg_win e = avg_win ?s" "es_avg_loss e = avg_loss ?s"
    "es_trade_count e = trade_count ?s" "es_is_reliable e = (n \<le> trade_count ?s)"
    using assms(1) record_all_edges [of outcomes n ?key] by (auto simp: get_edge_def snapshot_of_def Let_def)
  then show ?thesis using edge_statistics_signs [OF sound] count by (auto simp: edge_win_rate_def)
qed

theorem edge_counts_outcomes_witness:
  "\<exists>e. get_edge ''xauusd'' ''TREND'' ''london'' (record_all [(''XAUUSD'', ''trend'', ''London'', 5), (''XAUUSD'', ''trend'', ''london'', 0)]
     (new_edge_tracker 30)) = Inr e \<and> es_trade_count e = 1 \<and> \<not> es_is_reliable e"
proof -
  have k: "edge_key ''xauusd'' ''TREND'' ''london'' = (''XAUUSD'', ''trend'', ''london'')"
    "edge_key ''XAUUSD'' ''trend'' ''London'' = (''XAUUSD'', ''trend'', ''london'')"
    "edge_key ''XAUUSD'' ''trend'' ''london'' = (''XAUUSD'', ''trend'', ''london'')"
    by (simp_all add: edge_key_def str_upper_def str_lower_def upper_char_def lower_char_def)
  obtain e where e: "get_edge ''xauusd'' ''TREND'' ''london'' (record_all
      [(''XAUUSD'', ''trend'', ''London'', 5), (''XAUUSD'', ''trend'', ''london'', 0)] (new_edge_tracker 30)) = Inr e"
    by (simp add: k get_edge_def record_all_def record_edge_outcome_def new_edge_tracker_def book_outcome_def empty_edge_def snapshot_of_def
      edge_win_rate_def expected_value_def trade_count_def avg_win_def avg_loss_def dec_ops quantize_def num_eval Let_def)
  show ?thesis using edge_counts_outcomes [OF e] e by (simp add: k)
qed

end
