(* ===== verification/Position_Tracker.thy ===== *)
theory Position_Tracker
  imports Broker
begin

text \<open>
  \<open>mt5_bridge/position_tracker.py\<close> (class \<open>PositionTracker\<close>): closure detection against the terminal's
  current positions, the bridge's own trailing stop, and the queries on tracked and closed positions. The
  tracked positions are a dictionary in insertion order, because closures are reported in that order.
\<close>

section \<open>State\<close>

record closed_position = position +
  cp_closed_at :: int

record position_tracker =
  pt_trailing_stop_enabled :: bool
  pt_trailing_stop_pips :: decimal
  pt_trailing_activation_pips :: decimal
  pt_known :: "(int \<times> position) list"
  pt_closed :: "closed_position list"

definition new_position_tracker :: "bool \<Rightarrow> decimal \<Rightarrow> decimal \<Rightarrow> position_tracker" where
  "new_position_tracker enabled stop_pips activation_pips =
     \<lparr>pt_trailing_stop_enabled = enabled, pt_trailing_stop_pips = stop_pips,
      pt_trailing_activation_pips = activation_pips, pt_known = [], pt_closed = []\<rparr>"

section \<open>Trailing stops\<close>

definition get_pip_size :: "terminal \<Rightarrow> string \<Rightarrow> decimal" where
  "get_pip_size t symbol =
     (case get_symbol_info t symbol of
        Inr (Some i) \<Rightarrow> (if si_digits i \<le> 3 then 1 / 100 else 1 / 10000)
      | _ \<Rightarrow>
          if str_contains ''JPY'' symbol \<or> str_contains ''XAU'' symbol \<or> str_contains ''XAG'' symbol then 1 / 100
          else if str_contains ''BTC'' symbol \<or> str_contains ''ETH'' symbol then 1 / 100
          else 1 / 10000)"

text \<open>The stop that one position asks for, if it asks for one.\<close>

definition wanted_stop :: "terminal \<Rightarrow> position_tracker \<Rightarrow> position \<Rightarrow> decimal option" where
  "wanted_stop t pt pos =
     (if po_profit pos \<le> 0 \<or> po_price_open pos = 0 \<or> po_price_current pos = 0 then None
      else let pip_size = get_pip_size t (po_symbol pos)
           in if po_type pos = ''BUY''
              then let profit_pips = dec_div (dec_sub (po_price_current pos) (po_price_open pos)) pip_size;
                       new_sl = dec_sub (po_price_current pos) (dec_mul (pt_trailing_stop_pips pt) pip_size)
                   in if profit_pips < pt_trailing_activation_pips pt then None
                      else if po_sl pos < new_sl then Some new_sl else None
              else if po_type pos = ''SELL''
              then let profit_pips = dec_div (dec_sub (po_price_open pos) (po_price_current pos)) pip_size;
                       new_sl = dec_add (po_price_current pos) (dec_mul (pt_trailing_stop_pips pt) pip_size)
                   in if profit_pips < pt_trailing_activation_pips pt then None
                      else if po_sl pos = 0 \<or> new_sl < po_sl pos then Some new_sl else None
              else None)"

text \<open>
  \<open>_update_trailing_stops\<close>: the modification requests, in order. An error of the connector ends the loop
  and leaves \<open>update\<close>.
\<close>

fun update_trailing_stops :: "terminal \<Rightarrow> position_tracker \<Rightarrow> position list \<Rightarrow> sltp_request list \<times> unit bridge" where
  "update_trailing_stops t pt [] = ([], Inr ())"
| "update_trailing_stops t pt (pos # ps) =
     (case wanted_stop t pt pos of
        None \<Rightarrow> update_trailing_stops t pt ps
      | Some new_sl \<Rightarrow>
          (case modify_position_sl t (po_ticket pos) (flt_round new_sl) of
             (rq, Inl e) \<Rightarrow> ((case rq of None \<Rightarrow> [] | Some r \<Rightarrow> [r]), Inl e)
           | (rq, Inr _) \<Rightarrow>
               (case update_trailing_stops t pt ps of
                  (rqs, r) \<Rightarrow> ((case rq of None \<Rightarrow> rqs | Some r' \<Rightarrow> r' # rqs), r))))"

section \<open>update\<close>

text \<open>A vanished position with the last deal of its history, when there is one, and the time of detection.\<close>

definition close_position :: "terminal \<Rightarrow> int \<Rightarrow> int \<times> position \<Rightarrow> closed_position" where
  "close_position t now kp =
     (case kp of (ticket, prev_pos) \<Rightarrow>
        let prev_pos =
              (case (if tm_installed t then tm_deals t ticket else None) of
                 None \<Rightarrow> prev_pos
               | Some deals \<Rightarrow>
                   if deals = [] then prev_pos
                   else let d = last deals
                        in prev_pos\<lparr>po_profit := dl_profit d, po_price_current := dl_price d,
                                    po_commission := dl_commission d, po_swap := dl_swap d\<rparr>)
        in position.extend prev_pos \<lparr>cp_closed_at = now\<rparr>)"

definition remember_all :: "position list \<Rightarrow> (int \<times> position) list \<Rightarrow> (int \<times> position) list" where
  "remember_all ps known = foldl (\<lambda>d p. dict_set (po_ticket p) p d) known ps"

definition tracker_update ::
  "terminal \<Rightarrow> int \<Rightarrow> position_tracker \<Rightarrow> sltp_request list \<times> closed_position list bridge \<times> position_tracker" where
  "tracker_update t now pt =
     (case get_open_positions t of
        Inl e \<Rightarrow> ([], Inl e, pt)
      | Inr current_positions \<Rightarrow>
          let current_tickets = set (map po_ticket current_positions);
              gone = filter (\<lambda>kp. fst kp \<notin> current_tickets) (pt_known pt);
              newly_closed = map (close_position t now) gone;
              pt = pt\<lparr>pt_known := remember_all current_positions (filter (\<lambda>kp. fst kp \<in> current_tickets) (pt_known pt)),
                      pt_closed := pt_closed pt @ newly_closed\<rparr>
          in if pt_trailing_stop_enabled pt
             then (case update_trailing_stops t pt current_positions of
                     (rqs, Inl e) \<Rightarrow> (rqs, Inl e, pt)
                   | (rqs, Inr _) \<Rightarrow> (rqs, Inr newly_closed, pt))
             else ([], Inr newly_closed, pt))"

section \<open>Queries\<close>

definition tracked_positions :: "position_tracker \<Rightarrow> position list" where
  "tracked_positions pt = map snd (pt_known pt)"

definition position_count :: "position_tracker \<Rightarrow> nat" where
  "position_count pt = length (pt_known pt)"

definition get_recently_closed :: "rat \<Rightarrow> rat \<Rightarrow> position_tracker \<Rightarrow> closed_position list" where
  "get_recently_closed now since_seconds pt =
     filter (\<lambda>p. flt_round (now - since_seconds) \<le> of_int (cp_closed_at p)) (pt_closed pt)"

record trade_result =
  tr_ticket :: int
  tr_symbol :: string
  tr_direction :: string
  tr_volume :: decimal
  tr_price_open :: decimal
  tr_price_close :: decimal
  tr_stop_loss :: decimal
  tr_take_profit :: decimal
  tr_profit :: decimal
  tr_swap :: decimal
  tr_commission :: decimal
  tr_open_time :: int
  tr_close_time :: int
  tr_magic :: int
  tr_comment :: string

definition build_trade_result :: "closed_position \<Rightarrow> trade_result" where
  "build_trade_result p =
     \<lparr>tr_ticket = po_ticket p, tr_symbol = po_symbol p, tr_direction = po_type p, tr_volume = po_volume p,
      tr_price_open = po_price_open p, tr_price_close = po_price_current p, tr_stop_loss = po_sl p,
      tr_take_profit = po_tp p, tr_profit = po_profit p, tr_swap = po_swap p, tr_commission = po_commission p,
      tr_open_time = po_time p, tr_close_time = cp_closed_at p, tr_magic = po_magic p, tr_comment = po_comment p\<rparr>"

section \<open>Lemmas: tracking\<close>

lemma fst_set_remember_all [simp]: "fst ` set (remember_all ps known) = po_ticket ` set ps \<union> fst ` set known"
  by (induction ps arbitrary: known) (auto simp: remember_all_def)

lemma distinct_remember_all: "distinct (map fst known) \<Longrightarrow> distinct (map fst (remember_all ps known))"
  by (induction ps arbitrary: known) (auto simp: remember_all_def distinct_dict_set)

lemma remember_all_Nil [simp]: "remember_all [] known = known"
  by (simp add: remember_all_def)

lemma map_of_remember_all:
  "distinct (map po_ticket ps) \<Longrightarrow> p \<in> set ps \<Longrightarrow> map_of (remember_all ps known) (po_ticket p) = Some p"
proof (induction ps rule: rev_induct)
  case (snoc q ps)
  then show ?case by (auto simp: remember_all_def) (metis image_eqI)
qed simp

lemma distinct_map_filter_fst: "distinct (map fst xs) \<Longrightarrow> distinct (map fst (filter P xs))"
  by (induction xs) auto

text \<open>The stop of a position only tightens, and only once the position is in profit.\<close>

lemma get_pip_size_pos: "0 < get_pip_size t symbol"
  by (simp add: get_pip_size_def split: sum.splits option.splits)

lemma wanted_stop_tightens:
  assumes "wanted_stop t pt pos = Some new_sl"
  shows "0 < po_profit pos \<and>
     (po_type pos = ''BUY'' \<and> po_sl pos < new_sl \<or> po_type pos = ''SELL'' \<and> (po_sl pos = 0 \<or> new_sl < po_sl pos))"
  using assms by (auto simp: wanted_stop_def Let_def split: if_splits)

lemma wanted_stop_behind_price:
  assumes "wanted_stop t pt pos = Some new_sl" "0 \<le> pt_trailing_stop_pips pt"
    "dec_round (po_price_current pos) = po_price_current pos"
  shows "if po_type pos = ''BUY'' then new_sl \<le> po_price_current pos else po_price_current pos \<le> new_sl"
proof -
  let ?d = "dec_mul (pt_trailing_stop_pips pt) (get_pip_size t (po_symbol pos))"
  have "0 \<le> ?d" using assms(2) get_pip_size_pos [of t "po_symbol pos"] by (simp add: dec_mul_nonneg)
  then have "dec_sub (po_price_current pos) ?d \<le> po_price_current pos" "po_price_current pos \<le> dec_add (po_price_current pos) ?d"
    unfolding dec_sub_def dec_add_def using assms(3) by (simp_all add: dec.rnd_le dec.rnd_ge)
  then show ?thesis using assms(1) by (auto simp: wanted_stop_def Let_def split: if_splits)
qed

lemma update_trailing_stops_requests:
  assumes "update_trailing_stops t pt ps = (rqs, r)" "rq \<in> set rqs"
  shows "\<exists>pos\<in>set ps. \<exists>new_sl. wanted_stop t pt pos = Some new_sl \<and> sr_position rq = po_ticket pos \<and> sr_sl rq = flt_round new_sl"
  using assms
proof (induction ps arbitrary: rqs r)
  case (Cons pos ps)
  show ?case
  proof (cases "wanted_stop t pt pos")
    case None
    then show ?thesis using Cons by auto
  next
    case (Some new_sl)
    then show ?thesis using Cons
      by (auto simp: modify_position_sl_def Let_def split: sum.splits prod.splits option.splits)
  qed
qed simp

lemma update_trailing_stops_ready:
  "tm_connected t \<Longrightarrow> tm_installed t \<Longrightarrow> snd (update_trailing_stops t pt ps) = Inr ()"
  by (induction ps) (auto simp: modify_position_sl_def ensure_ready_def Let_def split: option.splits prod.splits)

section \<open>Properties\<close>

text \<open>
  Closure detection: with a reachable terminal an update returns, in the order of tracking, exactly the
  tracked positions that are no longer open, appends them to the closed list, and tracks exactly the open
  tickets afterwards, each with the position the terminal reported.
\<close>

theorem tracker_update_spec:
  assumes "tm_connected t" "tm_installed t" "distinct (map fst (pt_known pt))"
    and "tm_positions t = Some ps" "distinct (map po_ticket ps)"
  shows "\<exists>rqs closed pt'. tracker_update t now pt = (rqs, Inr closed, pt') \<and>
     closed = map (close_position t now) (filter (\<lambda>kp. fst kp \<notin> po_ticket ` set ps) (pt_known pt)) \<and>
     pt_closed pt' = pt_closed pt @ closed \<and> distinct (map fst (pt_known pt')) \<and>
     fst ` set (pt_known pt') = po_ticket ` set ps \<and> position_count pt' = length ps \<and>
     (\<forall>p\<in>set ps. map_of (pt_known pt') (po_ticket p) = Some p)"
proof -
  let ?gone = "filter (\<lambda>kp. fst kp \<notin> po_ticket ` set ps) (pt_known pt)"
  let ?kept = "filter (\<lambda>kp. fst kp \<in> po_ticket ` set ps) (pt_known pt)"
  let ?pt = "pt\<lparr>pt_known := remember_all ps ?kept, pt_closed := pt_closed pt @ map (close_position t now) ?gone\<rparr>"
  have g: "get_open_positions t = Inr ps" using assms by (simp add: get_open_positions_ok)
  have u: "\<exists>rqs. tracker_update t now pt = (rqs, Inr (map (close_position t now) ?gone), ?pt)"
    using update_trailing_stops_ready [OF assms(1,2), of ?pt ps]
    by (auto simp: tracker_update_def g Let_def split: prod.splits)
  have k: "fst ` set (remember_all ps ?kept) = po_ticket ` set ps" by auto
  have d: "distinct (map fst (remember_all ps ?kept))"
    by (intro distinct_remember_all distinct_map_filter_fst assms)
  have "length (remember_all ps ?kept) = card (set (map fst (remember_all ps ?kept)))"
    using distinct_card [OF d] by simp
  also have "\<dots> = card (set (map po_ticket ps))" using k by simp
  also have "\<dots> = length ps" using distinct_card [OF assms(5)] by simp
  finally have c: "position_count ?pt = length ps" by (simp add: position_count_def)
  show ?thesis using u k d c map_of_remember_all [OF assms(5)] by fastforce
qed

definition sample_tracked_position :: "int \<Rightarrow> position" where
  "sample_tracked_position ticket =
     \<lparr>po_ticket = ticket, po_symbol = ''EURUSD'', po_type = ''BUY'', po_volume = 1, po_price_open = 1,
      po_price_current = 2, po_sl = 0, po_tp = 0, po_profit = 5, po_swap = 0, po_commission = 0, po_time = 0,
      po_magic = 123456, po_comment = []\<rparr>"

definition blank_terminal :: terminal where
  "blank_terminal =
     \<lparr>tm_connected = True, tm_installed = True, tm_retcode_done = 10009, tm_account = None, tm_symbol = (\<lambda>_. None),
      tm_positions = None, tm_position = (\<lambda>k. Some (sample_tracked_position k)), tm_tick = (\<lambda>_. None),
      tm_calc_margin = (\<lambda>_ _ _ _. None), tm_order_send = (\<lambda>_. None), tm_sltp_send = (\<lambda>_. None),
      tm_deals = (\<lambda>_. None)\<rparr>"

lemma sample_position_simps [simp]:
  "po_ticket (sample_tracked_position k) = k" "po_symbol (sample_tracked_position k) = ''EURUSD''" "po_type (sample_tracked_position k) = ''BUY''"
  "po_price_open (sample_tracked_position k) = 1" "po_price_current (sample_tracked_position k) = 2" "po_sl (sample_tracked_position k) = 0"
  "po_profit (sample_tracked_position k) = 5"
  by (simp_all add: sample_tracked_position_def)

lemma blank_terminal_simps [simp]:
  "tm_connected blank_terminal" "tm_installed blank_terminal" "tm_positions blank_terminal = None"
  "tm_symbol blank_terminal s = None" "tm_position blank_terminal k = Some (sample_tracked_position k)"
  "tm_deals blank_terminal k = None"
  by (simp_all add: blank_terminal_def)

definition tracking :: "int list \<Rightarrow> position_tracker" where
  "tracking tickets = (new_position_tracker True 50 30)\<lparr>pt_known := map (\<lambda>k. (k, sample_tracked_position k)) tickets\<rparr>"

theorem tracker_update_spec_witness:
  "\<exists>rqs pt'. tracker_update (blank_terminal\<lparr>tm_positions := Some [sample_tracked_position 2, sample_tracked_position 3]\<rparr>) 9 (tracking [1, 2])
       = (rqs, Inr [position.extend (sample_tracked_position 1) \<lparr>cp_closed_at = 9\<rparr>], pt') \<and> position_count pt' = 2"
proof -
  let ?t = "blank_terminal\<lparr>tm_positions := Some [sample_tracked_position 2, sample_tracked_position 3]\<rparr>"
  have g: "filter (\<lambda>kp. fst kp \<notin> po_ticket ` set [sample_tracked_position 2, sample_tracked_position 3]) (pt_known (tracking [1, 2]))
      = [(1, sample_tracked_position 1)]"
    by (simp add: tracking_def)
  have c: "close_position ?t 9 (1, sample_tracked_position 1) = position.extend (sample_tracked_position 1) \<lparr>cp_closed_at = 9\<rparr>"
    by (simp add: close_position_def)
  show ?thesis
    using tracker_update_spec [of ?t "tracking [1, 2]" "[sample_tracked_position 2, sample_tracked_position 3]" 9]
    unfolding g by (auto simp: c tracking_def)
qed

text \<open>
  C30. The bridge's trailing stop is a ratchet: every stop modification an update sends is for a position in
  profit and moves its stop strictly toward the price (for a SELL, or sets a first one), before the
  conversion to a float; a stop never crosses the current price.
\<close>

theorem bridge_trailing_ratchet:
  assumes "tracker_update t now pt = (rqs, r, pt')" "rq \<in> set rqs" "0 \<le> pt_trailing_stop_pips pt"
    and "\<forall>pos\<in>set (opt_get (tm_positions t) []). dec_round (po_price_current pos) = po_price_current pos"
  shows "\<exists>pos\<in>set (opt_get (tm_positions t) []). \<exists>new_sl.
     sr_position rq = po_ticket pos \<and> sr_sl rq = flt_round new_sl \<and> 0 < po_profit pos \<and>
     (po_type pos = ''BUY'' \<and> po_sl pos < new_sl \<and> new_sl \<le> po_price_current pos \<or>
      po_type pos = ''SELL'' \<and> (po_sl pos = 0 \<or> new_sl < po_sl pos) \<and> po_price_current pos \<le> new_sl)"
proof -
  let ?ps = "opt_get (tm_positions t) []"
  obtain pt1 r1 where u: "update_trailing_stops t pt1 ?ps = (rqs, r1)" "pt_trailing_stop_pips pt1 = pt_trailing_stop_pips pt"
    using assms(1,2) by (auto simp: tracker_update_def get_open_positions_ok Let_def split: sum.splits prod.splits if_splits)
  obtain pos new_sl where p: "pos \<in> set ?ps" "wanted_stop t pt1 pos = Some new_sl" "sr_position rq = po_ticket pos"
    "sr_sl rq = flt_round new_sl"
    using update_trailing_stops_requests [OF u(1) assms(2)] by blast
  have "if po_type pos = ''BUY'' then new_sl \<le> po_price_current pos else po_price_current pos \<le> new_sl"
    using wanted_stop_behind_price [OF p(2)] u(2) assms(3,4) p(1) by simp
  then show ?thesis using wanted_stop_tightens [OF p(2)] p by (intro bexI [OF _ p(1)] exI [of _ new_sl]) auto
qed

theorem bridge_trailing_ratchet_witness:
  "\<exists>rq new_sl. fst (tracker_update (blank_terminal\<lparr>tm_positions := Some [sample_tracked_position 2]\<rparr>) 9 (tracking [])) = [rq] \<and>
     sr_position rq = 2 \<and> sr_sl rq = flt_round new_sl \<and> 0 < new_sl \<and> new_sl \<le> 2"
proof -
  let ?t = "blank_terminal\<lparr>tm_positions := Some [sample_tracked_position 2]\<rparr>"
  have pip: "get_pip_size ?t ''EURUSD'' = 1 / 10000"
    by (simp add: get_pip_size_def get_symbol_info_def ensure_ready_def str_starts_def)
  have w: "wanted_stop ?t pt (sample_tracked_position 2) = Some (1995 / 1000)"
    if "pt_trailing_stop_pips pt = 50" "pt_trailing_activation_pips pt = 30" for pt
    using that by (simp add: wanted_stop_def pip dec_ops num_eval Let_def)
  obtain rqs r pt' where u: "tracker_update ?t 9 (tracking []) = (rqs, r, pt')" using prod_cases3 by blast
  have "\<exists>rq. rqs = [rq]"
    using u w by (auto simp: tracker_update_def get_open_positions_def ensure_ready_def tracking_def
        new_position_tracker_def modify_position_sl_def Let_def split: prod.splits)
  then obtain rq where rq: "rqs = [rq]" ..
  have ex: "\<exists>pos\<in>set (opt_get (tm_positions ?t) []). \<exists>new_sl.
     sr_position rq = po_ticket pos \<and> sr_sl rq = flt_round new_sl \<and> 0 < po_profit pos \<and>
     (po_type pos = ''BUY'' \<and> po_sl pos < new_sl \<and> new_sl \<le> po_price_current pos \<or>
      po_type pos = ''SELL'' \<and> (po_sl pos = 0 \<or> new_sl < po_sl pos) \<and> po_price_current pos \<le> new_sl)"
    by (rule bridge_trailing_ratchet [OF u])
      (simp_all add: rq tracking_def new_position_tracker_def num_eval)
  then show ?thesis using u rq by auto
qed

text \<open>
  A failed positions query looks like a mass closure: when the terminal answers \<open>None\<close> (what the
  package documents for an error), an update reports every tracked position as closed, records all of them
  and stops tracking them.
\<close>

theorem positions_outage_closes_all:
  assumes "tm_connected t" "tm_installed t" "tm_positions t = None"
  shows "tracker_update t now pt =
     ([], Inr (map (close_position t now) (pt_known pt)),
      pt\<lparr>pt_known := [], pt_closed := pt_closed pt @ map (close_position t now) (pt_known pt)\<rparr>)"
proof -
  have "get_open_positions t = Inr []" using assms by (simp add: get_open_positions_ok)
  then show ?thesis by (simp add: tracker_update_def Let_def)
qed

theorem positions_outage_closes_all_witness:
  "snd (snd (tracker_update blank_terminal 9 (tracking [1, 2]))) =
     (tracking [1, 2])\<lparr>pt_known := [], pt_closed := map (close_position blank_terminal 9)
        [(1, sample_tracked_position 1), (2, sample_tracked_position 2)]\<rparr>"
  using positions_outage_closes_all [of blank_terminal 9 "tracking [1, 2]"]
  by (simp add: tracking_def new_position_tracker_def)

end
