(* ===== verification/Trade_Recorder.thy ===== *)
theory Trade_Recorder
  imports Position_Tracker
begin

text \<open>
  The feedback path of the bridge: \<open>mt5_bridge/trade_recorder.py\<close> (class \<open>TradeRecorder\<close>), which stores closed trades,
  and the parts of \<open>mt5_bridge/connector.py\<close> and \<open>mt5_bridge/main.py\<close> around it: the life of the connection,
  reconnection with backoff, the monitor loop that hands closed positions to the recorder, and the cancellation of
  pending orders at shutdown. What the database, Redis and the terminal answer is an argument.
\<close>

section \<open>Trades as the recorder receives them\<close>

record raw_trade =
  rt_ticket :: int
  rt_signal_id :: "string option"
  rt_symbol :: "string option"
  rt_direction :: "string option"
  rt_volume :: num_field
  rt_price_open :: num_field
  rt_price_close :: num_field
  rt_stop_loss :: num_field
  rt_take_profit :: num_field
  rt_profit :: num_field
  rt_open_time :: int
  rt_close_time :: int

definition raw_trade_of :: "trade_result \<Rightarrow> raw_trade" where
  "raw_trade_of r =
     \<lparr>rt_ticket = tr_ticket r, rt_signal_id = None, rt_symbol = Some (tr_symbol r), rt_direction = Some (tr_direction r),
      rt_volume = Num (Fin (tr_volume r)), rt_price_open = Num (Fin (tr_price_open r)),
      rt_price_close = Num (Fin (tr_price_close r)), rt_stop_loss = Num (Fin (tr_stop_loss r)),
      rt_take_profit = Num (Fin (tr_take_profit r)), rt_profit = Num (Fin (tr_profit r)),
      rt_open_time = tr_open_time r, rt_close_time = tr_close_time r\<rparr>"

record market_context =
  mc_timeframe :: "string option"
  mc_spread_at_entry :: "xdecimal option"
  mc_regime :: "string option"
  mc_session_type :: "string option"
  mc_strategy :: "string option"
  mc_advisor_mode :: "string option"
  mc_confidence :: num_field
  mc_maturity_state :: "string option"
  mc_model_version :: "string option"

definition empty_context :: market_context where
  "empty_context =
     \<lparr>mc_timeframe = None, mc_spread_at_entry = None, mc_regime = None, mc_session_type = None, mc_strategy = None,
      mc_advisor_mode = None, mc_confidence = Absent, mc_maturity_state = None, mc_model_version = None\<rparr>"

datatype outcome_class = Win | Loss | Breakeven

text \<open>The identity of a row: the signal, or \<open>mt5_\<close> and the ticket when the trade carries none.\<close>

datatype signal_ref = Signal string | Mt5Ticket int

record trade_row =
  rw_signal_id :: signal_ref
  rw_symbol :: string
  rw_timeframe :: string
  rw_direction :: string
  rw_lots :: xdecimal
  rw_entry_price :: xdecimal
  rw_exit_price :: xdecimal
  rw_stop_loss :: xdecimal
  rw_take_profit :: xdecimal
  rw_spread_at_entry :: "xdecimal option"
  rw_outcome :: outcome_class
  rw_pnl :: xdecimal
  rw_pnl_pips :: "xdecimal option"
  rw_regime :: string
  rw_session_type :: string
  rw_strategy :: string
  rw_advisor_mode :: string
  rw_confidence :: xdecimal
  rw_maturity_state :: string
  rw_model_version :: string
  rw_opened_at :: int
  rw_closed_at :: int
  rw_dataset_split :: string

section \<open>The recorder\<close>

record recorder =
  rc_pool :: bool
  rc_connected :: bool
  rc_redis :: bool
  rc_breakeven_threshold :: decimal

definition new_recorder :: "bool \<Rightarrow> decimal \<Rightarrow> recorder" where
  "new_recorder redis threshold =
     \<lparr>rc_pool = False, rc_connected = False, rc_redis = redis, rc_breakeven_threshold = threshold\<rparr>"

definition connect_recorder :: "unit result \<Rightarrow> recorder \<Rightarrow> unit result \<times> recorder" where
  "connect_recorder create_pool rc =
     (if rc_pool rc then (Inr (), rc)
      else case create_pool of
             Inl e \<Rightarrow> (Inl e, rc)
           | Inr _ \<Rightarrow> (Inr (), rc\<lparr>rc_pool := True, rc_connected := True\<rparr>))"

definition close_recorder :: "recorder \<Rightarrow> recorder" where
  "close_recorder rc = (if rc_pool rc then rc\<lparr>rc_pool := False, rc_connected := False\<rparr> else rc)"

definition recorder_connected :: "recorder \<Rightarrow> bool" where
  "recorder_connected rc \<longleftrightarrow> rc_connected rc \<and> rc_pool rc"

text \<open>The singleton is set before the connection is tried: when that raises, it is a recorder without a pool.\<close>

definition init_trade_recorder :: "unit result \<Rightarrow> bool \<Rightarrow> recorder result \<times> recorder option" where
  "init_trade_recorder create_pool redis =
     (case connect_recorder create_pool (new_recorder redis (1 / 2)) of
        (Inl e, rc) \<Rightarrow> (Inl e, Some rc)
      | (Inr _, rc) \<Rightarrow> (Inr rc, Some rc))"

definition determine_outcome :: "recorder \<Rightarrow> raw_trade \<Rightarrow> outcome_class result" where
  "determine_outcome rc rt =
     (let profit = (case parse_num 0 (rt_profit rt) of Inl _ \<Rightarrow> Fin 0 | Inr x \<Rightarrow> x)
      in rbind (xless (Fin (rc_breakeven_threshold rc)) profit) (\<lambda>win.
           if win then Inr Win
           else rbind (xless profit (Fin (dec_neg (rc_breakeven_threshold rc)))) (\<lambda>loss.
                  Inr (if loss then Loss else Breakeven))))"

fun xdiv_pos :: "xdecimal \<Rightarrow> decimal \<Rightarrow> xdecimal" where
  "xdiv_pos (Fin x) d = Fin (dec_div x d)"
| "xdiv_pos x d = x"

definition recorder_pip_size :: "string \<Rightarrow> decimal" where
  "recorder_pip_size symbol =
     (if str_contains ''JPY'' symbol then 1 / 100
      else if str_contains ''XAU'' symbol \<or> str_contains ''GOLD'' symbol then 1 / 100
      else 1 / 10000)"

definition calculate_pnl_pips :: "raw_trade \<Rightarrow> xdecimal option" where
  "calculate_pnl_pips rt =
     (case rbind (parse_num 0 (rt_price_open rt)) (\<lambda>price_open. rbind (parse_num 0 (rt_price_close rt)) (\<lambda>price_close.
             if price_open = Fin 0 then Inr None
             else let pip_size = recorder_pip_size (opt_get (rt_symbol rt) []);
                      dir = str_upper (opt_get (rt_direction rt) ''BUY'')
                  in rbind (if dir = ''BUY'' then xsub price_close price_open else xsub price_open price_close) (\<lambda>d.
                     rbind (xquantize 2 (xdiv_pos d pip_size)) (\<lambda>p. Inr (Some p))))) of
        Inl _ \<Rightarrow> None
      | Inr p \<Rightarrow> p)"

text \<open>\<open>datetime.fromtimestamp\<close> covers the years 1 to 9999.\<close>

definition from_timestamp :: "int \<Rightarrow> int \<Rightarrow> int result" where
  "from_timestamp now s =
     (if s = 0 then Inr now else if s < - 62135596800 \<or> 253402300799 < s then Inl ValueError else Inr s)"

definition recorded_direction :: "raw_trade \<Rightarrow> string" where
  "recorded_direction rt =
     (let d = str_lower (opt_get (rt_direction rt) ''BUY'') in if d \<notin> {''buy'', ''sell''} then ''buy'' else d)"

definition row_of_trade :: "int \<Rightarrow> recorder \<Rightarrow> raw_trade \<Rightarrow> market_context option \<Rightarrow> trade_row result" where
  "row_of_trade now rc rt mkt =
     (let ctx = opt_get mkt empty_context
      in rbind (determine_outcome rc rt) (\<lambda>outcome.
         rbind (parse_num 0 (rt_profit rt)) (\<lambda>pnl.
         rbind (from_timestamp now (rt_open_time rt)) (\<lambda>opened_at.
         rbind (from_timestamp now (rt_close_time rt)) (\<lambda>closed_at.
         rbind (parse_num (1 / 100) (rt_volume rt)) (\<lambda>lots.
         rbind (parse_num 0 (rt_price_open rt)) (\<lambda>entry.
         rbind (parse_num 0 (rt_price_close rt)) (\<lambda>exit.
         rbind (parse_num 0 (rt_stop_loss rt)) (\<lambda>sl.
         rbind (parse_num 0 (rt_take_profit rt)) (\<lambda>tp.
         rbind (parse_num 0 (mc_confidence ctx)) (\<lambda>conf.
           Inr \<lparr>rw_signal_id = (case rt_signal_id rt of
                                  Some s \<Rightarrow> if s = [] then Mt5Ticket (rt_ticket rt) else Signal s
                                | None \<Rightarrow> Mt5Ticket (rt_ticket rt)),
                rw_symbol = opt_get (rt_symbol rt) [], rw_timeframe = opt_get (mc_timeframe ctx) ''M5'',
                rw_direction = recorded_direction rt, rw_lots = lots, rw_entry_price = entry, rw_exit_price = exit,
                rw_stop_loss = sl, rw_take_profit = tp, rw_spread_at_entry = mc_spread_at_entry ctx,
                rw_outcome = outcome, rw_pnl = pnl, rw_pnl_pips = calculate_pnl_pips rt,
                rw_regime = opt_get (mc_regime ctx) ''unknown'', rw_session_type = opt_get (mc_session_type ctx) ''unknown'',
                rw_strategy = opt_get (mc_strategy ctx) ''conservative'',
                rw_advisor_mode = opt_get (mc_advisor_mode ctx) ''conservative'', rw_confidence = conf,
                rw_maturity_state = opt_get (mc_maturity_state ctx) ''doubt'',
                rw_model_version = opt_get (mc_model_version ctx) [], rw_opened_at = opened_at, rw_closed_at = closed_at,
                rw_dataset_split = ''unassigned''\<rparr>)))))))))))"

record closed_trade_event =
  ev_record_id :: int
  ev_ticket :: int
  ev_symbol :: "string option"
  ev_direction :: "string option"
  ev_profit :: num_field
  ev_outcome :: outcome_class
  ev_timestamp :: int

text \<open>
  What one call does: the row it sends to the database and the event it sends to Redis, if any. An error of
  \<open>publish\<close> is swallowed inside, so its answer does not matter.
\<close>

record recorded =
  re_id :: "int option"
  re_row :: "trade_row option"
  re_event :: "closed_trade_event option"

definition record_closed_trade ::
  "(trade_row \<Rightarrow> int result) \<Rightarrow> int \<Rightarrow> recorder \<Rightarrow> raw_trade \<Rightarrow> market_context option \<Rightarrow> recorded" where
  "record_closed_trade fetchval now rc rt mkt =
     (if \<not> recorder_connected rc then \<lparr>re_id = None, re_row = None, re_event = None\<rparr>
      else case row_of_trade now rc rt mkt of
             Inl _ \<Rightarrow> \<lparr>re_id = None, re_row = None, re_event = None\<rparr>
           | Inr row \<Rightarrow>
               (case fetchval row of
                  Inl _ \<Rightarrow> \<lparr>re_id = None, re_row = Some row, re_event = None\<rparr>
                | Inr record_id \<Rightarrow>
                    (case determine_outcome rc rt of
                       Inl _ \<Rightarrow> \<lparr>re_id = None, re_row = Some row, re_event = None\<rparr>
                     | Inr outcome \<Rightarrow>
                         \<lparr>re_id = Some record_id, re_row = Some row,
                          re_event = (if rc_redis rc
                                      then Some \<lparr>ev_record_id = record_id, ev_ticket = rt_ticket rt, ev_symbol = rt_symbol rt,
                                                 ev_direction = rt_direction rt, ev_profit = rt_profit rt,
                                                 ev_outcome = outcome, ev_timestamp = now\<rparr>
                                      else None)\<rparr>)))"

section \<open>The life of the connection\<close>

text \<open>\<open>terminal_info()\<close> raises, is \<open>None\<close>, or says whether the terminal is connected.\<close>

definition is_connected :: "bool option result \<Rightarrow> bool \<Rightarrow> bool \<times> bool" where
  "is_connected terminal_info flag =
     (if \<not> flag then (False, flag)
      else case terminal_info of
             Inl _ \<Rightarrow> (False, False)
           | Inr None \<Rightarrow> (False, False)
           | Inr (Some up) \<Rightarrow> (up, flag))"

record login_env =
  le_installed :: bool
  le_initialize :: bool
  le_login :: bool

definition connect_terminal :: "login_env \<Rightarrow> bool \<Rightarrow> unit bridge \<times> bool" where
  "connect_terminal env flag =
     (if \<not> le_installed env then (Inl BrokerError, flag)
      else if \<not> le_initialize env then (Inl BrokerError, flag)
      else if \<not> le_login env then (Inl BrokerError, flag)
      else (Inr (), True))"

definition disconnect_terminal :: "bool \<Rightarrow> bool" where
  "disconnect_terminal flag = False"

text \<open>\<open>global_variable_set\<close> answers, or raises.\<close>

definition send_heartbeat :: "bool result \<Rightarrow> bool \<Rightarrow> bool" where
  "send_heartbeat global_variable_set flag = (if \<not> flag then False else case global_variable_set of Inl _ \<Rightarrow> False | Inr ok \<Rightarrow> ok)"

text \<open>The attempts of \<open>reconnect\<close> with the seconds each one sleeps first; \<open>envs k\<close> is what attempt \<open>k\<close> meets.\<close>

fun reconnect_attempts :: "(nat \<Rightarrow> login_env) \<Rightarrow> rat \<Rightarrow> nat \<Rightarrow> nat \<Rightarrow> rat \<Rightarrow> bool \<Rightarrow> bool \<times> rat list \<times> bool" where
  "reconnect_attempts envs max_delay k 0 delay flag = (False, [], flag)"
| "reconnect_attempts envs max_delay k (Suc left) delay flag =
     (case connect_terminal (envs k) (disconnect_terminal flag) of
        (Inr _, flag) \<Rightarrow> (True, [delay], flag)
      | (Inl _, flag) \<Rightarrow>
          (case reconnect_attempts envs max_delay (k + 1) left (min (flt_round (delay * 2)) max_delay) flag of
             (ok, sleeps, flag) \<Rightarrow> (ok, delay # sleeps, flag)))"

definition reconnect :: "(nat \<Rightarrow> login_env) \<Rightarrow> nat \<Rightarrow> rat \<Rightarrow> rat \<Rightarrow> bool \<Rightarrow> bool \<times> rat list \<times> bool" where
  "reconnect envs max_retries initial_delay max_delay flag = reconnect_attempts envs max_delay 1 max_retries initial_delay flag"

section \<open>The monitor loop\<close>

text \<open>Closed positions are offered to the recorder one by one, each at its own time; it never raises.\<close>

definition record_all_closed ::
  "(trade_row \<Rightarrow> int result) \<Rightarrow> int \<Rightarrow> recorder option \<Rightarrow> closed_position list \<Rightarrow> recorded list" where
  "record_all_closed fetchval now recorder gone =
     (case recorder of
        None \<Rightarrow> []
      | Some rc \<Rightarrow> if recorder_connected rc
                   then map (\<lambda>pos. record_closed_trade fetchval now rc (raw_trade_of (build_trade_result pos)) None) gone
                   else [])"

text \<open>One turn of \<open>position_monitor_loop\<close> with a terminal that answers; a raised error is logged.\<close>

definition monitor_turn ::
  "(trade_row \<Rightarrow> int result) \<Rightarrow> terminal \<Rightarrow> int \<Rightarrow> recorder option \<Rightarrow> position_tracker \<Rightarrow>
   sltp_request list \<times> recorded list \<times> position_tracker" where
  "monitor_turn fetchval t now recorder pt =
     (case tracker_update t now pt of
        (rqs, Inl e, pt) \<Rightarrow> (rqs, [], pt)
      | (rqs, Inr gone, pt) \<Rightarrow> (rqs, record_all_closed fetchval now recorder gone, pt))"

section \<open>Pending orders at shutdown\<close>

record pending_order =
  pn_ticket :: int
  pn_symbol :: string
  pn_kind :: int
  pn_volume :: decimal
  pn_price :: decimal
  pn_magic :: int

definition get_pending_orders :: "pending_order list option \<Rightarrow> terminal \<Rightarrow> pending_order list bridge" where
  "get_pending_orders orders t =
     rbind (ensure_ready t) (\<lambda>_. Inr (filter (\<lambda>o'. pn_magic o' = 123456) (opt_get orders [])))"

definition cancel_order :: "(int \<Rightarrow> int option) \<Rightarrow> terminal \<Rightarrow> int \<Rightarrow> bool bridge" where
  "cancel_order remove_send t ticket =
     rbind (ensure_ready t) (\<lambda>_. Inr (remove_send ticket = Some (tm_retcode_done t)))"

text \<open>The tickets that shutdown asks the terminal to remove.\<close>

definition cancel_pending :: "pending_order list option \<Rightarrow> terminal \<Rightarrow> int list" where
  "cancel_pending orders t = (case get_pending_orders orders t of Inl _ \<Rightarrow> [] | Inr os \<Rightarrow> map pn_ticket os)"

section \<open>Lemmas\<close>

fun_cases parse_num_ok: "parse_num d f = Inr x"

lemma raw_trade_of_fields [simp]:
  "rt_ticket (raw_trade_of r) = tr_ticket r" "rt_signal_id (raw_trade_of r) = None" "rt_symbol (raw_trade_of r) = Some (tr_symbol r)"
  "rt_volume (raw_trade_of r) = Num (Fin (tr_volume r))" "rt_price_open (raw_trade_of r) = Num (Fin (tr_price_open r))"
  "rt_price_close (raw_trade_of r) = Num (Fin (tr_price_close r))" "rt_stop_loss (raw_trade_of r) = Num (Fin (tr_stop_loss r))"
  "rt_take_profit (raw_trade_of r) = Num (Fin (tr_take_profit r))" "rt_profit (raw_trade_of r) = Num (Fin (tr_profit r))"
  "rt_open_time (raw_trade_of r) = tr_open_time r" "rt_close_time (raw_trade_of r) = tr_close_time r"
  by (simp_all add: raw_trade_of_def)

lemma determine_outcome_fin:
  "determine_outcome rc (rt\<lparr>rt_profit := Num (Fin p)\<rparr>) =
     Inr (if rc_breakeven_threshold rc < p then Win else if p < dec_neg (rc_breakeven_threshold rc) then Loss else Breakeven)"
  by (simp add: determine_outcome_def)

lemma row_of_trade_fields:
  assumes "row_of_trade now rc rt mkt = Inr row"
  shows "determine_outcome rc rt = Inr (rw_outcome row)" "parse_num 0 (rt_profit rt) = Inr (rw_pnl row)"
    "rw_direction row = recorded_direction rt" "rw_pnl_pips row = calculate_pnl_pips rt"
    "parse_num 0 (rt_price_open rt) = Inr (rw_entry_price row)" "parse_num 0 (rt_price_close rt) = Inr (rw_exit_price row)"
  using assms by (auto simp: row_of_trade_def Let_def)

text \<open>The event and the row of one call carry the same outcome, and an id is returned only for a stored row.\<close>

lemma record_closed_trade_id:
  assumes "re_id (record_closed_trade fetchval now rc rt mkt) = Some i"
  shows "recorder_connected rc \<and>
    (\<exists>row. re_row (record_closed_trade fetchval now rc rt mkt) = Some row \<and> fetchval row = Inr i \<and>
       row_of_trade now rc rt mkt = Inr row)"
  using assms by (auto simp: record_closed_trade_def split: if_splits sum.splits)

lemma record_closed_trade_event:
  assumes "re_event (record_closed_trade fetchval now rc rt mkt) = Some ev"
  shows "rc_redis rc \<and> re_id (record_closed_trade fetchval now rc rt mkt) = Some (ev_record_id ev) \<and>
    (\<exists>row. re_row (record_closed_trade fetchval now rc rt mkt) = Some row \<and> ev_outcome ev = rw_outcome row)"
  using assms row_of_trade_fields(1) [of now rc rt mkt]
  by (fastforce simp: record_closed_trade_def split: if_splits sum.splits)

section \<open>Properties\<close>

text \<open>
  An id returned by the recorder stands for one row that the database acknowledged, whose outcome is the
  classification of its own profit against the break-even threshold and whose direction is buy or sell; an event
  is published only with an id, and says the same outcome.
\<close>

theorem recorded_trade_honest:
  assumes "re_id (record_closed_trade fetchval now rc rt mkt) = Some i"
  shows "\<exists>row. re_row (record_closed_trade fetchval now rc rt mkt) = Some row \<and> fetchval row = Inr i \<and>
    rw_direction row \<in> {''buy'', ''sell''} \<and>
    (case rw_outcome row of
       Win \<Rightarrow> xless (Fin (rc_breakeven_threshold rc)) (rw_pnl row) = Inr True
     | Loss \<Rightarrow> xless (Fin (rc_breakeven_threshold rc)) (rw_pnl row) = Inr False \<and>
               xless (rw_pnl row) (Fin (dec_neg (rc_breakeven_threshold rc))) = Inr True
     | Breakeven \<Rightarrow> xless (Fin (rc_breakeven_threshold rc)) (rw_pnl row) = Inr False \<and>
               xless (rw_pnl row) (Fin (dec_neg (rc_breakeven_threshold rc))) = Inr False) \<and>
    (\<forall>ev. re_event (record_closed_trade fetchval now rc rt mkt) = Some ev \<longrightarrow>
       ev_record_id ev = i \<and> ev_outcome ev = rw_outcome row)"
proof -
  obtain row where row: "re_row (record_closed_trade fetchval now rc rt mkt) = Some row" "fetchval row = Inr i"
    "row_of_trade now rc rt mkt = Inr row"
    using record_closed_trade_id [OF assms] by blast
  have "rw_direction row \<in> {''buy'', ''sell''}"
    by (auto simp: row_of_trade_fields(3) [OF row(3)] recorded_direction_def Let_def)
  moreover have "determine_outcome rc rt = Inr (rw_outcome row)" "parse_num 0 (rt_profit rt) = Inr (rw_pnl row)"
    using row_of_trade_fields [OF row(3)] by simp_all
  moreover have "ev_record_id ev = i \<and> ev_outcome ev = rw_outcome row"
    if "re_event (record_closed_trade fetchval now rc rt mkt) = Some ev" for ev
    using record_closed_trade_event [OF that] assms row(1) by simp
  ultimately show ?thesis using row by (auto simp: determine_outcome_def Let_def split: if_splits)
qed

text \<open>
  C37. A turn of the monitor with a connected recorder offers every closed position to the database, in order and
  once, whether or not the database refuses some of them, unless a time lies outside the years 1 to 9999: the rows
  are those of the positions that the tracker reports closed.
\<close>

theorem monitor_records_each_close:
  assumes "tracker_update t now pt = (rqs, Inr gone, pt')" "recorder_connected rc"
    and "\<forall>pos\<in>set gone. - 62135596800 \<le> po_time pos \<and> po_time pos \<le> 253402300799 \<and>
      - 62135596800 \<le> cp_closed_at pos \<and> cp_closed_at pos \<le> 253402300799"
  shows "\<exists>rows. map re_row (fst (snd (monitor_turn fetchval t now (Some rc) pt))) = map Some rows \<and>
    map (\<lambda>row. (rw_signal_id row, rw_symbol row, rw_entry_price row, rw_pnl row)) rows =
    map (\<lambda>pos. (Mt5Ticket (po_ticket pos), po_symbol pos, Fin (po_price_open pos), Fin (po_profit pos))) gone"
proof -
  have turn: "fst (snd (monitor_turn fetchval t now (Some rc) pt)) =
      map (\<lambda>pos. record_closed_trade fetchval now rc (raw_trade_of (build_trade_result pos)) None) gone"
    using assms(1,2) by (simp add: monitor_turn_def record_all_closed_def)
  have "\<exists>row. re_row (record_closed_trade fetchval now rc (raw_trade_of (build_trade_result pos)) None) = Some row \<and>
      rw_signal_id row = Mt5Ticket (po_ticket pos) \<and> rw_symbol row = po_symbol pos \<and>
      rw_entry_price row = Fin (po_price_open pos) \<and> rw_pnl row = Fin (po_profit pos)" if "pos \<in> set gone" for pos
  proof -
    let ?rt = "raw_trade_of (build_trade_result pos)"
    have "from_timestamp now (rt_open_time ?rt) \<in> range Inr" "from_timestamp now (rt_close_time ?rt) \<in> range Inr"
      using assms(3) that by (auto simp: from_timestamp_def build_trade_result_def)
    then obtain a b where times: "from_timestamp now (rt_open_time ?rt) = Inr a" "from_timestamp now (rt_close_time ?rt) = Inr b"
      by blast
    have "determine_outcome rc ?rt \<in> range Inr" by (simp add: determine_outcome_def)
    then obtain outcome where det: "determine_outcome rc ?rt = Inr outcome" by blast
    have "\<exists>row. row_of_trade now rc ?rt None = Inr row \<and> rw_signal_id row = Mt5Ticket (po_ticket pos) \<and>
        rw_symbol row = po_symbol pos \<and> rw_entry_price row = Fin (po_price_open pos) \<and> rw_pnl row = Fin (po_profit pos)"
      unfolding row_of_trade_def det times by (simp add: empty_context_def build_trade_result_def)
    then show ?thesis using assms(2) by (auto simp: record_closed_trade_def split: sum.split)
  qed
  then obtain row where row: "\<And>pos. pos \<in> set gone \<Longrightarrow>
      re_row (record_closed_trade fetchval now rc (raw_trade_of (build_trade_result pos)) None) = Some (row pos) \<and>
      rw_signal_id (row pos) = Mt5Ticket (po_ticket pos) \<and> rw_symbol (row pos) = po_symbol pos \<and>
      rw_entry_price (row pos) = Fin (po_price_open pos) \<and> rw_pnl (row pos) = Fin (po_profit pos)"
    by metis
  show ?thesis by (rule exI [of _ "map row gone"]) (use row in \<open>simp add: turn\<close>)
qed

definition sample_raw_trade :: raw_trade where
  "sample_raw_trade =
     \<lparr>rt_ticket = 7, rt_signal_id = None, rt_symbol = Some ''EURUSD'', rt_direction = Some ''BUY'', rt_volume = Num (Fin 1),
      rt_price_open = Num (Fin 1), rt_price_close = Num (Fin (11 / 10)), rt_stop_loss = Absent, rt_take_profit = Absent,
      rt_profit = Num (Fin 100), rt_open_time = 0, rt_close_time = 0\<rparr>"

theorem recorded_trade_honest_witness:
  "\<exists>row. re_row (record_closed_trade (\<lambda>_. Inr 1) 5 \<lparr>rc_pool = True, rc_connected = True, rc_redis = True, rc_breakeven_threshold = 1 / 2\<rparr>
     sample_raw_trade None) = Some row \<and> rw_direction row \<in> {''buy'', ''sell''}"
proof -
  let ?rc = "\<lparr>rc_pool = True, rc_connected = True, rc_redis = True, rc_breakeven_threshold = 1 / 2\<rparr>"
  have "re_id (record_closed_trade (\<lambda>_. Inr 1) 5 ?rc sample_raw_trade None) = Some 1"
    by (simp add: record_closed_trade_def recorder_connected_def row_of_trade_def determine_outcome_def sample_raw_trade_def
      from_timestamp_def empty_context_def)
  from recorded_trade_honest [OF this] show ?thesis by blast
qed

theorem monitor_records_each_close_witness:
  "\<exists>rows. map re_row (fst (snd (monitor_turn (\<lambda>_. Inl ValueError) blank_terminal 9
       (Some \<lparr>rc_pool = True, rc_connected = True, rc_redis = False, rc_breakeven_threshold = 1 / 2\<rparr>)
       ((tracking [1, 2])\<lparr>pt_trailing_stop_enabled := False\<rparr>)))) = map Some rows \<and>
     map rw_signal_id rows = [Mt5Ticket 1, Mt5Ticket 2]"
proof -
  let ?pt = "(tracking [1, 2])\<lparr>pt_trailing_stop_enabled := False\<rparr>"
    and ?rc = "\<lparr>rc_pool = True, rc_connected = True, rc_redis = False, rc_breakeven_threshold = 1 / 2\<rparr>"
  have "\<exists>pt'. tracker_update blank_terminal 9 ?pt =
      ([], Inr (map (\<lambda>k. position.extend (sample_tracked_position k) \<lparr>cp_closed_at = 9\<rparr>) [1, 2]), pt')"
    by (simp add: tracker_update_def get_open_positions_def ensure_ready_def tracking_def new_position_tracker_def
      close_position_def Let_def)
  then obtain pt' where u: "tracker_update blank_terminal 9 ?pt =
      ([], Inr (map (\<lambda>k. position.extend (sample_tracked_position k) \<lparr>cp_closed_at = 9\<rparr>) [1, 2]), pt')" by blast
  have "recorder_connected ?rc" by (simp add: recorder_connected_def)
  moreover have "\<forall>pos\<in>set (map (\<lambda>k. position.extend (sample_tracked_position k) \<lparr>cp_closed_at = 9\<rparr>) [1, 2]).
      - 62135596800 \<le> po_time pos \<and> po_time pos \<le> 253402300799 \<and> - 62135596800 \<le> cp_closed_at pos \<and> cp_closed_at pos \<le> 253402300799"
    by (simp add: sample_tracked_position_def position.defs)
  ultimately obtain rows where "map re_row (fst (snd (monitor_turn (\<lambda>_. Inl ValueError) blank_terminal 9 (Some ?rc) ?pt))) = map Some rows"
    "map (\<lambda>row. (rw_signal_id row, rw_symbol row, rw_entry_price row, rw_pnl row)) rows =
     map (\<lambda>pos. (Mt5Ticket (po_ticket pos), po_symbol pos, Fin (po_price_open pos), Fin (po_profit pos)))
       (map (\<lambda>k. position.extend (sample_tracked_position k) \<lparr>cp_closed_at = 9\<rparr>) [1, 2])"
    using monitor_records_each_close [OF u] by blast
  then show ?thesis by (intro exI [of _ rows]) (auto simp: position.defs map_eq_Cons_conv)
qed

text \<open>
  A profit that is not a number is classified as break-even by \<open>_determine_outcome\<close>, and then the same conversion
  raises in \<open>_insert_trade_record\<close>: the trade is never stored.
\<close>

lemma garbage_profit_never_stored:
  "rt_profit rt = Garbage \<Longrightarrow>
     record_closed_trade fetchval now rc rt mkt = \<lparr>re_id = None, re_row = None, re_event = None\<rparr>"
  by (auto simp: record_closed_trade_def row_of_trade_def determine_outcome_def Let_def split: sum.split)

text \<open>A trade with an unknown direction is stored as a buy, while its pips are computed as those of a sell.\<close>

lemma unknown_direction_pips:
  assumes "str_upper d \<notin> {''BUY'', ''SELL''}" "str_lower d \<notin> {''buy'', ''sell''}"
  shows "recorded_direction (rt\<lparr>rt_direction := Some d\<rparr>) = ''buy'' \<and>
    calculate_pnl_pips (rt\<lparr>rt_direction := Some d\<rparr>) = calculate_pnl_pips (rt\<lparr>rt_direction := Some ''SELL''\<rparr>)"
proof -
  have d: "str_upper d \<noteq> ''BUY''" "str_upper ''SELL'' \<noteq> ''BUY''" using assms(1) by (simp_all add: str_upper_def upper_char_def)
  have "calculate_pnl_pips (rt\<lparr>rt_direction := Some d\<rparr>) = calculate_pnl_pips (rt\<lparr>rt_direction := Some ''SELL''\<rparr>)"
    unfolding calculate_pnl_pips_def by (simp add: d Let_def cong: if_cong)
  then show ?thesis using assms(2) by (simp add: recorded_direction_def Let_def)
qed

text \<open>A failed initialization leaves a singleton behind that is not connected and stores nothing.\<close>

lemma failed_init_leaves_idle_singleton:
  "init_trade_recorder (Inl e) redis = (Inl e, Some rc) \<Longrightarrow>
     re_row (record_closed_trade fetchval now rc rt mkt) = None"
  by (auto simp: init_trade_recorder_def connect_recorder_def new_recorder_def record_closed_trade_def recorder_connected_def)

section \<open>Properties of the connection\<close>

lemma reconnect_attempts_sleeps:
  "reconnect_attempts envs max_delay k n delay flag = (ok, sleeps, flag') \<Longrightarrow>
     length sleeps \<le> n \<and> (ok \<longrightarrow> flag') \<and> (\<not> ok \<longrightarrow> length sleeps = n \<and> (0 < n \<longrightarrow> \<not> flag'))"
  by (induction envs max_delay k n delay flag arbitrary: ok sleeps flag' rule: reconnect_attempts.induct)
    (auto simp: connect_terminal_def disconnect_terminal_def split: prod.splits if_splits)

text \<open>
  A reconnection that never succeeds blocks the process for 31 seconds with the default settings, longer than the
  30 seconds after which the guardian inside the terminal takes the bridge for dead; it leaves the connector unconnected.
\<close>

theorem failed_reconnect_blocks:
  assumes "\<forall>k. fst (connect_terminal (envs k) False) \<noteq> Inr ()"
  shows "fst (reconnect envs 5 1 60 flag) = False \<and> sum_list (fst (snd (reconnect envs 5 1 60 flag))) = 31 \<and>
    snd (snd (reconnect envs 5 1 60 flag)) = False"
proof -
  have c: "connect_terminal (envs k) False = (Inl BrokerError, False)" for k
    using assms [rule_format, of k] by (auto simp: connect_terminal_def split: if_splits)
  show ?thesis by (simp add: reconnect_def eval_nat_numeral disconnect_terminal_def c num_eval)
qed

theorem failed_reconnect_blocks_witness:
  "sum_list (fst (snd (reconnect (\<lambda>_. \<lparr>le_installed = True, le_initialize = False, le_login = False\<rparr>) 5 1 60 True))) = 31"
  using failed_reconnect_blocks [of "\<lambda>_. \<lparr>le_installed = True, le_initialize = False, le_login = False\<rparr>" True]
  by (simp add: connect_terminal_def)

text \<open>After \<open>is_connected\<close> has answered yes the flag is set; once the terminal is unreachable the flag is reset.\<close>

lemma is_connected_flag:
  "is_connected info flag = (True, flag') \<Longrightarrow> flag \<and> flag' \<and> info = Inr (Some True)"
  "is_connected (Inl e) flag = (up, flag') \<Longrightarrow> \<not> up \<and> \<not> flag'"
  by (auto simp: is_connected_def split: if_splits sum.splits option.splits)

text \<open>Shutdown removes only pending orders that carry the program's magic number, and all of them.\<close>

lemma cancel_pending_own:
  "ensure_ready t = Inr u \<Longrightarrow>
     set (cancel_pending (Some os) t) = {pn_ticket x |x. x \<in> set os \<and> pn_magic x = 123456}"
  by (auto simp: cancel_pending_def get_pending_orders_def)

end
