(* ===== verification/Macro_Data.thy ===== *)
theory Macro_Data
  imports Decimals
begin

text \<open>
  The macro-economic data path: the parsing half of \<open>external_data/providers/{cboe,fred,cftc}.py\<close>, the
  jobs of \<open>external_data/main.py\<close> that publish to Redis with a time to live, and
  \<open>algo_engine/features/macro_features.py\<close>, which reads those keys back. The HTTP responses are
  arguments; times are seconds.
\<close>

section \<open>Providers\<close>

record vix_data =
  vix_time :: rat
  vix_spot :: decimal
  is_contango :: "bool option"
  vix_regime :: nat

definition calculate_regime :: "decimal \<Rightarrow> nat" where
  "calculate_regime v = (if 25 \<le> v then 2 else if 15 \<le> v then 1 else 0)"

text \<open>
  \<open>fetch_vix\<close> of the CBOE and the Yahoo provider, after the price has been read from the response (\<open>None\<close>
  on every failure). Neither fills in the term structure.
\<close>

definition fetch_vix :: "rat \<Rightarrow> decimal option \<Rightarrow> vix_data option" where
  "fetch_vix now price =
     map_option (\<lambda>p. \<lparr>vix_time = now, vix_spot = p, is_contango = None, vix_regime = calculate_regime p\<rparr>) price"

record yield_data =
  yd_time :: rat
  rate_2y :: "decimal option"
  rate_10y :: decimal
  spread_2s10s :: "decimal option"
  is_inverted :: bool

text \<open>The latest observation of a series, where there is one.\<close>

definition fetch_yield_curve :: "rat \<Rightarrow> decimal option \<Rightarrow> decimal option \<Rightarrow> yield_data option" where
  "fetch_yield_curve now obs_2y obs_10y =
     (case obs_10y of
        None \<Rightarrow> None
      | Some r10 \<Rightarrow>
          let spread = map_option (\<lambda>r2. dec_sub r10 r2) obs_2y
          in Some \<lparr>yd_time = now, rate_2y = obs_2y, rate_10y = r10, spread_2s10s = spread,
                   is_inverted = (case spread of None \<Rightarrow> False | Some s \<Rightarrow> s < 0)\<rparr>)"

record real_rates =
  rr_time :: rat
  nominal_10y :: decimal
  breakeven_10y :: decimal
  real_rate_10y :: decimal

definition fetch_real_rates :: "rat \<Rightarrow> decimal option \<Rightarrow> decimal option \<Rightarrow> real_rates option" where
  "fetch_real_rates now nominal breakeven =
     (case (nominal, breakeven) of
        (Some n, Some b) \<Rightarrow>
          Some \<lparr>rr_time = now, nominal_10y = n, breakeven_10y = b, real_rate_10y = dec_sub n b\<rparr>
      | _ \<Rightarrow> None)"

record recession =
  rp_time :: rat
  probability_12m :: decimal
  signal_level :: nat

definition fetch_recession_probability :: "rat \<Rightarrow> decimal option \<Rightarrow> recession option" where
  "fetch_recession_probability now obs =
     map_option (\<lambda>prob. \<lparr>rp_time = now, probability_12m = prob,
                          signal_level = (if 40 \<le> prob then 2 else if 20 \<le> prob then 1 else 0)\<rparr>) obs"

text \<open>
  A row of the CFTC file: a cell is what \<open>int()\<close> makes of its text. The percentages are the floats whose
  shortest text the code turns into a \<open>Decimal\<close> and back.
\<close>

datatype cell = Blank | Number int | Junk

fun safe_int :: "(string \<Rightarrow> cell) \<Rightarrow> string list \<Rightarrow> int" where
  "safe_int row [] = 0"
| "safe_int row (k # ks) = (case row k of Number n \<Rightarrow> n | Blank \<Rightarrow> safe_int row ks | Junk \<Rightarrow> safe_int row ks)"

record cot_report =
  cot_market :: string
  asset_mgr_net :: int
  asset_mgr_pct_oi :: rat
  lev_funds_net :: int
  lev_funds_pct_oi :: rat
  total_oi :: int
  cot_sentiment :: int

definition pct_of_oi :: "int \<Rightarrow> int \<Rightarrow> rat" where
  "pct_of_oi net oi = (if 0 < oi then flt_round (flt_round (of_int \<bar>net\<bar> / of_int oi) * 100) else 0)"

definition tenth_of :: "int \<Rightarrow> rat" where
  "tenth_of oi = flt_round (of_int oi * flt_round (1 / 10))"

definition sentiment_of :: "int \<Rightarrow> int \<Rightarrow> int" where
  "sentiment_of net oi =
     (if tenth_of oi < of_int net then 1 else if of_int net < tenth_of (- oi) then - 1 else 0)"

definition parse_row :: "(string \<Rightarrow> cell) \<Rightarrow> string \<Rightarrow> cot_report option" where
  "parse_row row market =
     (let aml = safe_int row [''Asset_Mgr_Positions_Long_All'', ''AssetMgr_Positions_Long_All'', ''M_Money_Positions_Long_All''];
          ams = safe_int row [''Asset_Mgr_Positions_Short_All'', ''AssetMgr_Positions_Short_All'', ''M_Money_Positions_Short_All''];
          lfl = safe_int row [''Lev_Money_Positions_Long_All'', ''LevMoney_Positions_Long_All''];
          lfs = safe_int row [''Lev_Money_Positions_Short_All'', ''LevMoney_Positions_Short_All''];
          oi = safe_int row [''Open_Interest_All'', ''OI_All'']
      in if oi = 0 then None
         else Some \<lparr>cot_market = market, asset_mgr_net = aml - ams, asset_mgr_pct_oi = pct_of_oi (aml - ams) oi,
                    lev_funds_net = lfl - lfs, lev_funds_pct_oi = pct_of_oi (lfl - lfs) oi, total_oi = oi,
                    cot_sentiment = sentiment_of (aml - ams + (lfl - lfs)) oi\<rparr>)"

section \<open>The Redis cache\<close>

text \<open>
  JSON values as far as the two sides use them; \<open>JTime\<close> is an ISO timestamp, \<open>JText\<close> any other text.
  \<open>setex\<close> stores a value with the instant it expires at.
\<close>

datatype json = JNull | JBool bool | JNum rat | JTime rat | JText string

type_synonym payload = "(string \<times> json) list"
type_synonym cache = "string \<rightharpoonup> payload \<times> rat"

definition redis_cache_ttl_seconds :: rat where "redis_cache_ttl_seconds = 300"

text \<open>The payload stored, which the service skips without a connection (the \<open>bool\<close>).\<close>

definition save_to_redis :: "bool \<Rightarrow> rat \<Rightarrow> string \<Rightarrow> payload \<Rightarrow> cache \<Rightarrow> cache" where
  "save_to_redis online now key data c =
     (if online then c(key \<mapsto> (data, now + redis_cache_ttl_seconds)) else c)"

definition redis_get :: "rat \<Rightarrow> cache \<Rightarrow> string \<Rightarrow> payload option" where
  "redis_get now c key = (case c key of None \<Rightarrow> None | Some (data, expiry) \<Rightarrow> if now < expiry then Some data else None)"

text \<open>\<open>float(x) if x else None\<close>: a zero is stored as null.\<close>

definition float_or_none :: "decimal option \<Rightarrow> json" where
  "float_or_none x = (case x of None \<Rightarrow> JNull | Some v \<Rightarrow> if v = 0 then JNull else JNum (flt_round v))"

definition vix_payload :: "vix_data \<Rightarrow> payload" where
  "vix_payload v =
     [(''spot'', JNum (flt_round (vix_spot v))), (''regime'', JNum (of_nat (vix_regime v))),
      (''contango'', case is_contango v of None \<Rightarrow> JNull | Some b \<Rightarrow> JBool b), (''updated_at'', JTime (vix_time v))]"

definition fetch_vix_job :: "bool \<Rightarrow> rat \<Rightarrow> vix_data option \<Rightarrow> vix_data option \<Rightarrow> cache \<Rightarrow> cache" where
  "fetch_vix_job online now cboe yahoo c =
     (case (case cboe of None \<Rightarrow> yahoo | Some v \<Rightarrow> Some v) of
        None \<Rightarrow> c
      | Some v \<Rightarrow> save_to_redis online now ''macro:vix'' (vix_payload v) c)"

definition yield_payload :: "yield_data \<Rightarrow> payload" where
  "yield_payload y =
     [(''rate_2y'', float_or_none (rate_2y y)), (''rate_10y'', JNum (flt_round (rate_10y y))),
      (''spread_2s10s'', float_or_none (spread_2s10s y)), (''inverted'', JBool (is_inverted y)),
      (''updated_at'', JTime (yd_time y))]"

definition real_rates_payload :: "real_rates \<Rightarrow> payload" where
  "real_rates_payload r =
     [(''real_rate_10y'', JNum (flt_round (real_rate_10y r))), (''nominal_10y'', JNum (flt_round (nominal_10y r))),
      (''breakeven_10y'', JNum (flt_round (breakeven_10y r))), (''updated_at'', JTime (rr_time r))]"

definition recession_payload :: "recession \<Rightarrow> payload" where
  "recession_payload r =
     [(''probability_12m'', JNum (flt_round (probability_12m r))), (''signal_level'', JNum (of_nat (signal_level r))),
      (''updated_at'', JTime (rp_time r))]"

definition fetch_yield_curve_job ::
  "bool \<Rightarrow> rat \<Rightarrow> yield_data option \<Rightarrow> real_rates option \<Rightarrow> recession option \<Rightarrow> cache \<Rightarrow> cache" where
  "fetch_yield_curve_job online now yields rates rec c =
     (let save = save_to_redis online now;
          c = (case yields of None \<Rightarrow> c | Some y \<Rightarrow> save ''macro:yield_curve'' (yield_payload y) c);
          c = (case rates of None \<Rightarrow> c | Some r \<Rightarrow> save ''macro:real_rates'' (real_rates_payload r) c)
      in case rec of None \<Rightarrow> c | Some r \<Rightarrow> save ''macro:recession'' (recession_payload r) c)"

definition cot_payload :: "cot_report \<Rightarrow> payload" where
  "cot_payload r =
     [(''sentiment'', JNum (of_int (cot_sentiment r))), (''asset_mgr_pct_oi'', JNum (asset_mgr_pct_oi r)),
      (''lev_funds_net'', JNum (of_int (lev_funds_net r))), (''extreme_reading'', JBool False)]"

definition fetch_cot_job :: "bool \<Rightarrow> rat \<Rightarrow> cot_report list \<Rightarrow> cache \<Rightarrow> cache" where
  "fetch_cot_job online now reports c =
     foldl (\<lambda>c r. save_to_redis online now (''macro:cot:'' @ str_lower (cot_market r)) (cot_payload r) c) c reports"

section \<open>MacroFeatureProvider\<close>

record macro_features =
  mf_vix_spot :: rat
  mf_vix_regime :: int
  mf_vix_contango :: int
  mf_yield_slope :: rat
  mf_curve_inverted :: int
  mf_recession_prob :: rat
  mf_dxy_change :: rat
  mf_real_rate :: rat
  mf_cot_pct_oi :: rat
  mf_cot_sentiment :: int
  mf_data_age :: rat
  mf_data_stale :: bool

definition default_macro :: macro_features where
  "default_macro =
     \<lparr>mf_vix_spot = 15, mf_vix_regime = 0, mf_vix_contango = 1, mf_yield_slope = 1 / 2, mf_curve_inverted = 0,
      mf_recession_prob = flt_round (15 / 100), mf_dxy_change = 0, mf_real_rate = 1 / 2, mf_cot_pct_oi = 10,
      mf_cot_sentiment = 0, mf_data_age = 0, mf_data_stale = False\<rparr>"

definition jget :: "payload \<Rightarrow> string \<Rightarrow> json \<Rightarrow> json" where
  "jget p k d = opt_get (map_of p k) d"

text \<open>\<open>float(v)\<close> and \<open>int(v)\<close> on the values that occur, and truth values.\<close>

fun py_float :: "json \<Rightarrow> rat result" where
  "py_float (JNum x) = Inr x"
| "py_float (JBool b) = Inr (of_bool b)"
| "py_float JNull = Inl TypeError"
| "py_float (JTime t) = Inl ValueError"
| "py_float (JText s) = Inl ValueError"

definition py_int :: "json \<Rightarrow> int result" where
  "py_int v = rbind (py_float v) (\<lambda>x. Inr (if 0 \<le> x then \<lfloor>x\<rfloor> else \<lceil>x\<rceil>))"

fun truthy :: "json \<Rightarrow> bool" where
  "truthy JNull = False"
| "truthy (JBool b) = b"
| "truthy (JNum x) = (x \<noteq> 0)"
| "truthy (JTime t) = True"
| "truthy (JText s) = (s \<noteq> '''')"

definition parse_timestamp :: "rat \<Rightarrow> payload \<Rightarrow> rat" where
  "parse_timestamp now p = (case map_of p ''updated_at'' of Some (JTime t) \<Rightarrow> t | _ \<Rightarrow> now)"

text \<open>An entry that is overwritten only when the value is not null.\<close>

definition optional_float :: "payload \<Rightarrow> string \<Rightarrow> rat \<Rightarrow> rat result" where
  "optional_float p k d = (case jget p k JNull of JNull \<Rightarrow> Inr d | v \<Rightarrow> py_float v)"

text \<open>
  The assignments of \<open>get_features\<close> in order: each may raise, and what was assigned before stays. An absent
  or empty payload assigns nothing.
\<close>

type_synonym assignment = "macro_features \<Rightarrow> macro_features result"

definition present :: "payload option \<Rightarrow> (payload \<Rightarrow> assignment list) \<Rightarrow> assignment list" where
  "present data f = (case data of None \<Rightarrow> [] | Some p \<Rightarrow> if p = [] then [] else f p)"

definition assign :: "'a result \<Rightarrow> ('a \<Rightarrow> macro_features) \<Rightarrow> macro_features result" where
  "assign r f = rbind r (\<lambda>v. Inr (f v))"

definition vix_assignments :: "payload \<Rightarrow> assignment list" where
  "vix_assignments p =
     [\<lambda>f. assign (py_float (jget p ''spot'' (JNum 15))) (\<lambda>v. f\<lparr>mf_vix_spot := v\<rparr>),
      \<lambda>f. assign (py_int (jget p ''regime'' (JNum 0))) (\<lambda>v. f\<lparr>mf_vix_regime := v\<rparr>),
      \<lambda>f. Inr (f\<lparr>mf_vix_contango := of_bool (truthy (jget p ''contango'' (JBool True)))\<rparr>)]"

definition yield_assignments :: "payload \<Rightarrow> assignment list" where
  "yield_assignments p =
     [\<lambda>f. assign (optional_float p ''spread_2s10s'' (mf_yield_slope f)) (\<lambda>v. f\<lparr>mf_yield_slope := v\<rparr>),
      \<lambda>f. Inr (f\<lparr>mf_curve_inverted := of_bool (truthy (jget p ''inverted'' (JBool False)))\<rparr>)]"

definition cot_assignments :: "payload \<Rightarrow> assignment list" where
  "cot_assignments p =
     [\<lambda>f. assign (optional_float p ''asset_mgr_pct_oi'' (mf_cot_pct_oi f)) (\<lambda>v. f\<lparr>mf_cot_pct_oi := v\<rparr>),
      \<lambda>f. assign (py_int (jget p ''sentiment'' (JNum 0))) (\<lambda>v. f\<lparr>mf_cot_sentiment := v\<rparr>)]"

definition macro_assignments :: "(string \<Rightarrow> payload option) \<Rightarrow> assignment list" where
  "macro_assignments get =
     present (get ''macro:vix'') vix_assignments @
     present (get ''macro:yield_curve'') yield_assignments @
     present (get ''macro:real_rates'') (\<lambda>p.
       [\<lambda>f. assign (optional_float p ''real_rate_10y'' (mf_real_rate f)) (\<lambda>v. f\<lparr>mf_real_rate := v\<rparr>)]) @
     present (get ''macro:recession'') (\<lambda>p.
       [\<lambda>f. assign (optional_float p ''probability_12m'' (mf_recession_prob f)) (\<lambda>v. f\<lparr>mf_recession_prob := v\<rparr>)]) @
     present (get ''macro:dxy'') (\<lambda>p.
       [\<lambda>f. assign (optional_float p ''change_1h_pct'' (mf_dxy_change f)) (\<lambda>v. f\<lparr>mf_dxy_change := v\<rparr>)]) @
     present (get ''macro:cot:gold'') cot_assignments"

text \<open>The features reached, and whether no exception stopped the assignments.\<close>

fun run_assignments :: "assignment list \<Rightarrow> macro_features \<Rightarrow> macro_features \<times> bool" where
  "run_assignments [] f = (f, True)"
| "run_assignments (a # as) f = (case a f of Inl e \<Rightarrow> (f, False) | Inr f' \<Rightarrow> run_assignments as f')"

definition data_time :: "rat \<Rightarrow> payload option \<Rightarrow> rat" where
  "data_time now data = (case data of None \<Rightarrow> now | Some p \<Rightarrow> if p = [] then now else parse_timestamp now p)"

definition MAX_DATA_AGE_SECONDS :: rat where "MAX_DATA_AGE_SECONDS = 600"

definition stamp_age :: "rat \<Rightarrow> (string \<Rightarrow> payload option) \<Rightarrow> macro_features \<Rightarrow> macro_features" where
  "stamp_age now get f =
     (let oldest = min (min now (data_time now (get ''macro:vix''))) (data_time now (get ''macro:yield_curve''));
          age = now - oldest
      in f\<lparr>mf_data_age := age, mf_data_stale := (MAX_DATA_AGE_SECONDS < age)\<rparr>)"

text \<open>\<open>get_features\<close> with the provider's memory of the last complete reading.\<close>

definition get_macro_features ::
  "bool \<Rightarrow> rat \<Rightarrow> (string \<Rightarrow> payload option) \<Rightarrow> macro_features option \<Rightarrow> macro_features \<times> macro_features option" where
  "get_macro_features online now get last_features =
     (if \<not> online then (opt_get last_features default_macro, last_features)
      else let (f, complete) = run_assignments (macro_assignments get) default_macro
           in if complete then (stamp_age now get f, Some (stamp_age now get f))
              else (opt_get last_features f, last_features))"

section \<open>The feature vector and the environment tests\<close>

definition flt_unit :: "rat \<Rightarrow> rat" where
  "flt_unit x = min (max x 0) 1"

definition normalize_range :: "rat \<Rightarrow> rat \<Rightarrow> rat \<Rightarrow> rat" where
  "normalize_range shift width x = flt_unit (flt_round (flt_round (x + shift) / width))"

definition to_vector :: "macro_features \<Rightarrow> rat list" where
  "to_vector f =
     [normalize_range (- 10) 70 (mf_vix_spot f),
      flt_round (of_int (mf_vix_regime f) / 2),
      of_int (mf_vix_contango f),
      normalize_range 1 4 (mf_yield_slope f),
      of_int (mf_curve_inverted f),
      flt_unit (flt_round (mf_recession_prob f / 100)),
      normalize_range 2 4 (mf_dxy_change f),
      normalize_range 2 5 (mf_real_rate f),
      flt_unit (flt_round (mf_cot_pct_oi f / 30)),
      flt_round (flt_round (of_int (mf_cot_sentiment f) + 1) / 2)]"

definition gold_signals :: "macro_features \<Rightarrow> nat" where
  "gold_signals f =
     (if 2 \<le> mf_vix_regime f then 2 else if mf_vix_regime f = 1 then 1 else 0) +
     (if mf_curve_inverted f \<noteq> 0 then 1 else 0) +
     (if mf_real_rate f < 0 then 2 else if mf_real_rate f < 1 / 2 then 1 else 0) +
     (if mf_dxy_change f < - flt_round (2 / 10) then 1 else 0) +
     (if 0 < mf_cot_sentiment f then 1 else 0)"

definition is_gold_bullish_environment :: "macro_features \<Rightarrow> bool" where
  "is_gold_bullish_environment f = (4 \<le> gold_signals f)"

definition is_high_risk_environment :: "macro_features \<Rightarrow> bool" where
  "is_high_risk_environment f =
     (2 \<le> mf_vix_regime f \<or> mf_yield_slope f < - (1 / 2) \<or> 40 < mf_recession_prob f)"

section \<open>Publishing and reading back\<close>

lemma redis_get_saved [simp]:
  "redis_get now (save_to_redis True t k d c) k = (if now < t + redis_cache_ttl_seconds then Some d else None)"
  by (simp add: redis_get_def save_to_redis_def)

lemma redis_get_other [simp]: "k \<noteq> k' \<Longrightarrow> redis_get now (save_to_redis b t k d c) k' = redis_get now c k'"
  by (simp add: redis_get_def save_to_redis_def)

lemma redis_get_save:
  "redis_get now (save_to_redis True t k d c) k' =
     (if k' = k then if now < t + redis_cache_ttl_seconds then Some d else None else redis_get now c k')"
  by (simp add: redis_get_def save_to_redis_def)

lemma redis_get_empty [simp]: "redis_get now Map.empty k = None"
  by (simp add: redis_get_def)

lemma run_assignments_append:
  "run_assignments (as @ bs) f =
     (let (f', ok) = run_assignments as f in if ok then run_assignments bs f' else (f', False))"
  by (induction as f rule: run_assignments.induct) (auto split: sum.splits)

lemma py_int_of_int [simp]: "py_int (JNum (of_int n)) = Inr n" "py_int (JNum (of_nat m)) = Inr (int m)"
  by (simp_all add: py_int_def)

lemma fetch_jobs_keys:
  "redis_get now (fetch_vix_job b t cb y c) k = redis_get now c k" if "k \<noteq> ''macro:vix''"
  using that by (simp add: fetch_vix_job_def split: option.splits)

lemma vix_read_back:
  "run_assignments (vix_assignments (vix_payload v)) f =
     (f\<lparr>mf_vix_spot := flt_round (vix_spot v), mf_vix_regime := int (vix_regime v),
        mf_vix_contango := of_bool (is_contango v = Some True)\<rparr>, True)"
  by (simp add: vix_assignments_def vix_payload_def jget_def assign_def split: option.splits)

lemma yield_read_back:
  "run_assignments (yield_assignments (yield_payload y)) f =
     (f\<lparr>mf_yield_slope := (case spread_2s10s y of Some s \<Rightarrow> if s = 0 then mf_yield_slope f else flt_round s
                            | None \<Rightarrow> mf_yield_slope f),
        mf_curve_inverted := of_bool (is_inverted y)\<rparr>, True)"
  by (simp add: yield_assignments_def yield_payload_def jget_def assign_def optional_float_def float_or_none_def
      split: option.splits)

lemma payloads_nonempty [simp]:
  "vix_payload v \<noteq> []" "yield_payload y \<noteq> []" "real_rates_payload r \<noteq> []" "recession_payload p \<noteq> []" "cot_payload ct \<noteq> []"
  by (simp_all add: vix_payload_def yield_payload_def real_rates_payload_def recession_payload_def cot_payload_def)

lemma data_time_payload [simp]:
  "data_time now (Some (vix_payload v)) = vix_time v" "data_time now (Some (yield_payload y)) = yd_time y"
  by (simp_all add: data_time_def parse_timestamp_def) (simp_all add: vix_payload_def yield_payload_def)

lemma optional_read_back:
  "optional_float (real_rates_payload r) ''real_rate_10y'' d = Inr (flt_round (real_rate_10y r))"
  "optional_float (recession_payload p) ''probability_12m'' d = Inr (flt_round (probability_12m p))"
  by (simp_all add: optional_float_def jget_def real_rates_payload_def recession_payload_def)

text \<open>The cache after both jobs ran at time \<open>t\<close> on complete observations.\<close>

definition publish :: "rat \<Rightarrow> decimal \<Rightarrow> decimal \<Rightarrow> decimal \<Rightarrow> decimal \<Rightarrow> decimal \<Rightarrow> decimal \<Rightarrow> cache \<Rightarrow> cache" where
  "publish t v r2 r10 nominal breakeven prob c =
     fetch_yield_curve_job True t (fetch_yield_curve t (Some r2) (Some r10))
       (fetch_real_rates t (Some nominal) (Some breakeven)) (fetch_recession_probability t (Some prob))
       (fetch_vix_job True t (fetch_vix t (Some v)) None c)"

lemma published_keys:
  "redis_get now (publish t v r2 r10 n b p c) k =
     (if k \<in> {''macro:vix'', ''macro:yield_curve'', ''macro:real_rates'', ''macro:recession''}
      then if now < t + redis_cache_ttl_seconds
           then Some (if k = ''macro:vix''
                      then vix_payload \<lparr>vix_time = t, vix_spot = v, is_contango = None, vix_regime = calculate_regime v\<rparr>
                      else if k = ''macro:yield_curve''
                      then yield_payload \<lparr>yd_time = t, rate_2y = Some r2, rate_10y = r10,
                             spread_2s10s = Some (dec_sub r10 r2), is_inverted = (r10 < r2)\<rparr>
                      else if k = ''macro:real_rates''
                      then real_rates_payload \<lparr>rr_time = t, nominal_10y = n, breakeven_10y = b, real_rate_10y = dec_sub n b\<rparr>
                      else recession_payload \<lparr>rp_time = t, probability_12m = p,
                             signal_level = (if 40 \<le> p then 2 else if 20 \<le> p then 1 else 0)\<rparr>)
           else None
      else redis_get now c k)"
proof -
  have inv: "dec_sub r10 r2 < 0 \<longleftrightarrow> r10 < r2" by (simp add: dec_sub_def dec.rnd_neg_iff)
  show ?thesis
    by (simp add: publish_def fetch_yield_curve_job_def fetch_vix_job_def fetch_vix_def Let_def
        fetch_yield_curve_def fetch_real_rates_def fetch_recession_probability_def inv redis_get_save)
qed



text \<open>
  The keys live for five minutes and the yield-curve job runs once an hour: from five minutes after a run
  until the next one the engine reads the default macro environment, a calm market with a normal curve,
  whatever was published, and does not report it as stale.
\<close>

theorem macro_defaults_after_expiry:
  assumes "t + redis_cache_ttl_seconds \<le> now"
  shows "fst (get_macro_features True now (redis_get now (publish t v r2 r10 n b prob Map.empty)) mem) = default_macro"
proof -
  have "redis_get now (publish t v r2 r10 n b prob Map.empty) k = None" for k
    using assms by (simp add: published_keys)
  then show ?thesis
    by (simp add: get_macro_features_def macro_assignments_def present_def stamp_age_def data_time_def Let_def
        default_macro_def MAX_DATA_AGE_SECONDS_def)
qed

theorem macro_defaults_after_expiry_witness:
  "is_high_risk_environment (fst (get_macro_features True 299 (redis_get 299 (publish 0 40 5 3 4 2 90 Map.empty)) None)) \<and>
   \<not> is_high_risk_environment (fst (get_macro_features True 300 (redis_get 300 (publish 0 40 5 3 4 2 90 Map.empty)) None))"
proof -
  have "fst (get_macro_features True 300 (redis_get 300 (publish 0 40 5 3 4 2 90 Map.empty)) None) = default_macro"
    by (rule macro_defaults_after_expiry) (simp add: redis_cache_ttl_seconds_def)
  moreover have "flt_round (15 / 100) \<le> 1" by (rule flt.rnd_le) (simp_all add: num_eval)
  then have "\<not> is_high_risk_environment default_macro" by (simp add: is_high_risk_environment_def default_macro_def)
  moreover have "2 \<le> mf_vix_regime (fst (get_macro_features True 299 (redis_get 299 (publish 0 40 5 3 4 2 90 Map.empty)) None))"
    by (simp add: get_macro_features_def macro_assignments_def published_keys redis_cache_ttl_seconds_def present_def
        run_assignments_append vix_read_back yield_read_back assign_def optional_read_back stamp_age_def Let_def
        calculate_regime_def)
  ultimately show ?thesis by (simp add: is_high_risk_environment_def)
qed

text \<open>
  Neither VIX source knows the term structure; the null it publishes is read as backwardation, although the
  default of a missing entry is contango.
\<close>

lemma contango_always_lost:
  assumes "now < t + redis_cache_ttl_seconds" "\<And>k. k \<noteq> ''macro:vix'' \<Longrightarrow> c k = None"
  shows "mf_vix_contango (fst (get_macro_features True now
           (redis_get now (fetch_vix_job True t (fetch_vix t (Some v)) None c)) mem)) = 0"
proof -
  have "redis_get now (fetch_vix_job True t (fetch_vix t (Some v)) None c) k =
      (if k = ''macro:vix'' then Some (vix_payload \<lparr>vix_time = t, vix_spot = v, is_contango = None, vix_regime = calculate_regime v\<rparr>)
       else None)" for k
    using assms by (simp add: fetch_vix_job_def fetch_vix_def redis_get_def save_to_redis_def)
  then show ?thesis
    by (simp add: get_macro_features_def macro_assignments_def present_def run_assignments_append vix_read_back
        stamp_age_def Let_def)
qed

text \<open>The normalised vector stays in the unit cube for every reading with the regime codes of the provider.\<close>

lemma flt_unit_range: "0 \<le> flt_unit x \<and> flt_unit x \<le> 1"
  by (simp add: flt_unit_def)

lemma macro_vector_range:
  assumes "mf_vix_regime f \<in> {0, 1, 2}" "mf_vix_contango f \<in> {0, 1}" "mf_curve_inverted f \<in> {0, 1}"
    "mf_cot_sentiment f \<in> {- 1, 0, 1}"
  shows "length (to_vector f) = 10 \<and> (\<forall>x\<in>set (to_vector f). 0 \<le> x \<and> x \<le> 1)"
  using assms flt_unit_range by (auto simp: to_vector_def normalize_range_def num_eval)

end
