(* ===== verification/Feed_Inputs.thy ===== *)
theory Feed_Inputs
  imports Feature_Pipeline Macro_Data Market_Filters Market_Data Extended_Decimals
begin

text \<open>
  What enters the pipeline from outside: bar messages (\<open>parse_bar_message\<close> of \<open>zmq_adapter.py\<close>), the events file of
  \<open>features/economic_calendar.py\<close>, and the macro readings that \<open>compute_features_with_macro\<close> of
  \<open>features/pipeline.py\<close> adds to the technical features. What \<open>json.loads\<close> and \<open>datetime.fromisoformat\<close> make of a text
  is an argument.
\<close>

section \<open>Bar messages\<close>

record bar_json =
  bj_symbol :: "string option"
  bj_timeframe :: "string option"
  bj_open_time :: "string option"
  bj_open :: num_field
  bj_high :: num_field
  bj_low :: num_field
  bj_close :: num_field
  bj_volume :: num_field

record parsed_bar =
  pb_timestamp :: int
  pb_open :: xdecimal
  pb_high :: xdecimal
  pb_low :: xdecimal
  pb_close :: xdecimal
  pb_volume :: xdecimal

text \<open>\<open>d[key]\<close>, and \<open>Decimal(str(d[key]))\<close>.\<close>

fun required_entry :: "'a option \<Rightarrow> 'a result" where
  "required_entry None = Inl KeyError"
| "required_entry (Some x) = Inr x"

fun required_entry_num :: "num_field \<Rightarrow> xdecimal result" where
  "required_entry_num Absent = Inl KeyError"
| "required_entry_num Garbage = Inl InvalidOperation"
| "required_entry_num (Num x) = Inr x"

definition replace_Z :: "string \<Rightarrow> string" where
  "replace_Z s = concat (map (\<lambda>c. if c = CHR ''Z'' then ''+00:00'' else [c]) s)"

text \<open>
  \<open>from_iso s\<close> is the clock reading of \<open>fromisoformat(s)\<close>, in seconds after 1970-01-01T00:00:00 on that clock, and its
  offset from UTC in seconds. \<open>replace(tzinfo=timezone.utc)\<close> keeps the reading and drops the offset.
\<close>

definition timestamp_ms :: "rat \<times> rat \<Rightarrow> int" where
  "timestamp_ms dt = (let ms = flt_round (flt_round (fst dt) * 1000) in if 0 \<le> ms then \<lfloor>ms\<rfloor> else - \<lfloor>- ms\<rfloor>)"

definition parse_bar_message ::
  "('p \<Rightarrow> bar_json result) \<Rightarrow> (string \<Rightarrow> (rat \<times> rat) result) \<Rightarrow> 'p \<Rightarrow> (string \<times> string \<times> parsed_bar) result" where
  "parse_bar_message json_loads from_iso payload =
     rbind (json_loads payload) (\<lambda>data.
     rbind (required_entry (bj_symbol data)) (\<lambda>symbol.
     rbind (required_entry (bj_open_time data)) (\<lambda>open_time.
     rbind (from_iso (replace_Z open_time)) (\<lambda>dt.
     rbind (required_entry_num (bj_open data)) (\<lambda>op.
     rbind (required_entry_num (bj_high data)) (\<lambda>hi.
     rbind (required_entry_num (bj_low data)) (\<lambda>lo.
     rbind (required_entry_num (bj_close data)) (\<lambda>cl.
     rbind (required_entry_num (bj_volume data)) (\<lambda>vo.
       Inr (symbol, opt_get (bj_timeframe data) ''M5'',
            \<lparr>pb_timestamp = timestamp_ms dt, pb_open = op, pb_high = hi, pb_low = lo, pb_close = cl, pb_volume = vo\<rparr>))))))))))"

text \<open>A bar with finite numbers, as the rest of the pipeline takes it.\<close>

fun finite_bar :: "parsed_bar \<Rightarrow> ohlcv option" where
  "finite_bar \<lparr>pb_timestamp = t, pb_open = Fin op, pb_high = Fin hi, pb_low = Fin lo, pb_close = Fin cl, pb_volume = Fin vo\<rparr> =
     Some \<lparr>bar_timestamp = t, bar_open = op, bar_high = hi, bar_low = lo, bar_close = cl, bar_volume = vo\<rparr>"
| "finite_bar _ = None"

section \<open>The events file\<close>

datatype 'a json_file = Missing | Unreadable | Contents 'a

definition load_events :: "calendar_event list json_file \<Rightarrow> calendar_filter \<Rightarrow> calendar_filter" where
  "load_events f cf = (case f of Contents events \<Rightarrow> cf\<lparr>cf_events := events\<rparr> | _ \<Rightarrow> cf)"

definition new_calendar_filter :: "int \<Rightarrow> int \<Rightarrow> calendar_event list json_file option \<Rightarrow> calendar_filter" where
  "new_calendar_filter before after events_file =
     (let cf = \<lparr>cf_before = before, cf_after = after, cf_events = []\<rparr>
      in case events_file of None \<Rightarrow> cf | Some f \<Rightarrow> load_events f cf)"

section \<open>Macro readings in the feature dictionary\<close>

datatype macro_value = MFloat rat | MInt int | MBool bool | MVector "rat list"

definition macro_entries :: "macro_features \<Rightarrow> (string \<times> macro_value) list" where
  "macro_entries macro =
     [(''macro_vix_spot'', MFloat (mf_vix_spot macro)), (''macro_vix_regime'', MInt (mf_vix_regime macro)),
      (''macro_vix_contango'', MInt (mf_vix_contango macro)), (''macro_yield_slope_2s10s'', MFloat (mf_yield_slope macro)),
      (''macro_curve_inverted'', MInt (mf_curve_inverted macro)), (''macro_recession_prob'', MFloat (mf_recession_prob macro)),
      (''macro_dxy_change_1h_pct'', MFloat (mf_dxy_change macro)), (''macro_real_rate_10y'', MFloat (mf_real_rate macro)),
      (''macro_cot_asset_mgr_pct_oi'', MFloat (mf_cot_pct_oi macro)), (''macro_cot_sentiment'', MInt (mf_cot_sentiment macro)),
      (''macro_data_stale'', MBool (mf_data_stale macro)), (''macro_vector'', MVector (to_vector macro)),
      (''macro_gold_bullish'', MBool (is_gold_bullish_environment macro)),
      (''macro_high_risk'', MBool (is_high_risk_environment macro))]"

text \<open>
  The technical features with the macro entries beside them; the provider is its cache reader and its memory, and
  \<open>get_features\<close> never raises. The memory of the provider is part of the result.
\<close>

definition compute_features_with_macro ::
  "(bool \<times> rat \<times> (string \<Rightarrow> payload option)) option \<Rightarrow> string \<Rightarrow> ohlcv list \<Rightarrow> feature_pipeline \<Rightarrow> macro_features option \<Rightarrow>
   (fdict option \<times> (string \<rightharpoonup> macro_value)) result \<times> feature_pipeline \<times> macro_features option" where
  "compute_features_with_macro provider symbol bars p memory =
     (case compute_features symbol bars p of
        (Inl e, p') \<Rightarrow> (Inl e, p', memory)
      | (Inr features, p') \<Rightarrow>
          (case provider of
             None \<Rightarrow> (Inr (features, [''macro_available'' \<mapsto> MBool False]), p', memory)
           | Some (online, now, get) \<Rightarrow>
               (case get_macro_features online now get memory of
                  (macro, memory') \<Rightarrow> (Inr (features, map_of (macro_entries macro)), p', memory'))))"

section \<open>Lemmas\<close>

fun_cases required_entry_ok: "required_entry x = Inr y"
fun_cases required_num_ok: "required_entry_num f = Inr y"

lemma parse_bar_message_fields:
  assumes "parse_bar_message json_loads from_iso payload = Inr (symbol, timeframe, bar)"
  obtains data open_time dt where "json_loads payload = Inr data" "bj_symbol data = Some symbol"
    "bj_open_time data = Some open_time" "from_iso (replace_Z open_time) = Inr dt" "pb_timestamp bar = timestamp_ms dt"
    "bj_open data = Num (pb_open bar)" "bj_high data = Num (pb_high bar)" "bj_low data = Num (pb_low bar)"
    "bj_close data = Num (pb_close bar)" "bj_volume data = Num (pb_volume bar)"
  using assms by (auto simp: parse_bar_message_def elim!: required_entry_ok required_num_ok)

lemma replace_Z_utc: "CHR ''Z'' \<notin> set s \<Longrightarrow> replace_Z (s @ ''Z'') = s @ ''+00:00''"
  unfolding replace_Z_def by (induction s) auto

lemma timestamp_of_seconds:
  assumes "\<bar>s\<bar> * 1000 < 2 ^ 53"
  shows "timestamp_ms (of_int s, offset) = s * 1000"
proof -
  have "\<bar>s\<bar> < 2 ^ 53" "\<bar>s * 1000\<bar> < 2 ^ 53" using assms by (simp_all add: abs_mult)
  then have "flt_round (of_int s) = of_int s" "flt_round (of_int (s * 1000)) = of_int (s * 1000)" by (simp_all only: flt_round_int)
  then have "flt_round (flt_round (of_int s) * 1000) = of_int (s * 1000)" by simp
  then show ?thesis by (simp add: timestamp_ms_def Let_def flip: of_int_minus of_int_mult)
qed

text \<open>
  A time with an offset from UTC is stamped as if its clock showed UTC: the stamp misses the instant by the offset.
\<close>

lemma offset_is_dropped:
  assumes "parse_bar_message json_loads from_iso payload = Inr (symbol, timeframe, bar)" "json_loads payload = Inr data"
    "bj_open_time data = Some open_time" "from_iso (replace_Z open_time) = Inr (of_int clock, of_int offset)" "\<bar>clock\<bar> * 1000 < 2 ^ 53"
  shows "pb_timestamp bar - (clock - offset) * 1000 = offset * 1000"
proof -
  obtain dt where "from_iso (replace_Z open_time) = Inr dt" "pb_timestamp bar = timestamp_ms dt"
    using parse_bar_message_fields [OF assms(1)] assms(2,3) by (metis Inr_inject option.inject)
  then show ?thesis using assms(4) timestamp_of_seconds [OF assms(5)] by (auto simp: algebra_simps)
qed

text \<open>The macro entries leave the technical features alone, and are complete or absent.\<close>

lemma macro_keys_disjoint:
  assumes "compute_features_with_macro provider symbol bars p memory = (Inr (features, macro), p', memory')"
  shows "fst (compute_features symbol bars p) = Inr features \<and>
    (provider = None \<longleftrightarrow> macro ''macro_available'' = Some (MBool False)) \<and> (\<forall>k\<in>dom macro. str_starts ''macro_'' k)"
  using assms
  by (auto simp: compute_features_with_macro_def macro_entries_def str_starts_def split: prod.splits sum.splits option.splits if_splits)

end
