(* ===== verification/Backtest_Engine.thy ===== *)
theory Backtest_Engine
  imports Backtest_Metrics
begin

text \<open>
  \<open>backtesting/engine.py\<close>: historical bars are fed one by one to an engine, its signals to the simulator, and the
  report is computed at the end. The engine is the object handed to the constructor, an argument of the definitions:
  a step from a bar and a state to a signal or an exception (for the production engine, \<open>Feature_Stage.run_bar\<close>).
  \<open>uuid n\<close> is the random id of the \<open>n\<close>-th position.
\<close>

section \<open>State\<close>

record backtest_config =
  bc_symbol :: string
  bc_timeframe :: string
  bc_initial_equity :: decimal
  bc_spread_pips :: decimal
  bc_slippage_pips :: decimal
  bc_commission_per_lot :: decimal
  bc_pip_value :: decimal
  bc_risk_free_rate :: decimal

record 'e backtest =
  bt_engine :: 'e
  bt_config :: backtest_config
  bt_sim :: simulator
  bt_signals :: "trading_signal list"
  bt_bars :: nat

type_synonym 'e algo = "string \<Rightarrow> string \<Rightarrow> ohlcv \<Rightarrow> 'e \<Rightarrow> trading_signal option result \<times> 'e"

definition new_backtest :: "'e \<Rightarrow> backtest_config \<Rightarrow> 'e backtest" where
  "new_backtest en cfg =
     \<lparr>bt_engine = en, bt_config = cfg,
      bt_sim = new_simulator (bc_initial_equity cfg) (bc_spread_pips cfg) (bc_slippage_pips cfg)
                 (bc_commission_per_lot cfg) (bc_pip_value cfg),
      bt_signals = [], bt_bars = 0\<rparr>"

section \<open>One bar\<close>

definition ask_engine :: "'e algo \<Rightarrow> ohlcv \<Rightarrow> 'e backtest \<Rightarrow> trading_signal option result \<times> 'e backtest" where
  "ask_engine algo b bt =
     (let (r, en) = algo (bc_symbol (bt_config bt)) (bc_timeframe (bt_config bt)) b (bt_engine bt)
      in (r, bt\<lparr>bt_engine := en\<rparr>))"

definition take_signal :: "(nat \<Rightarrow> string) \<Rightarrow> ohlcv \<Rightarrow> trading_signal option \<Rightarrow> 'e backtest \<Rightarrow> unit result \<times> 'e backtest" where
  "take_signal uuid b sig bt =
     (case sig of
        None \<Rightarrow> (Inr (), bt)
      | Some s \<Rightarrow>
          let (r, sm) = open_sim_position (uuid (length (bt_signals bt))) s b (bt_sim bt)
          in (r, bt\<lparr>bt_signals := bt_signals bt @ [s], bt_sim := sm\<rparr>))"

definition check_exits :: "ohlcv \<Rightarrow> 'e backtest \<Rightarrow> unit result \<times> 'e backtest" where
  "check_exits b bt = (let (r, sm) = sim_process_bar b (bt_sim bt) in (r, bt\<lparr>bt_sim := sm\<rparr>))"

definition simulate_bar ::
  "(nat \<Rightarrow> string) \<Rightarrow> ohlcv \<Rightarrow> trading_signal option \<Rightarrow> 'e backtest \<Rightarrow> unit result \<times> 'e backtest" where
  "simulate_bar uuid b sig bt =
     (case take_signal uuid b sig bt of
        (Inl e, bt) \<Rightarrow> (Inl e, bt)
      | (Inr u, bt) \<Rightarrow> check_exits b bt)"

section \<open>The two loops\<close>

text \<open>\<open>run\<close> counts a bar before the engine sees it.\<close>

fun run_bars :: "'e algo \<Rightarrow> (nat \<Rightarrow> string) \<Rightarrow> ohlcv list \<Rightarrow> 'e backtest \<Rightarrow> unit result \<times> 'e backtest" where
  "run_bars algo uuid [] bt = (Inr (), bt)"
| "run_bars algo uuid (b # bs) bt =
     (case ask_engine algo b (bt\<lparr>bt_bars := bt_bars bt + 1\<rparr>) of
        (Inl e, bt) \<Rightarrow> (Inl e, bt)
      | (Inr sig, bt) \<Rightarrow>
          (case simulate_bar uuid b sig bt of
             (Inl e, bt) \<Rightarrow> (Inl e, bt)
           | (Inr u, bt) \<Rightarrow> run_bars algo uuid bs bt))"

text \<open>\<open>run_streaming\<close> collects the bars and counts each of them after the engine has seen it.\<close>

fun stream_bars ::
  "'e algo \<Rightarrow> (nat \<Rightarrow> string) \<Rightarrow> ohlcv list \<Rightarrow> ohlcv list \<Rightarrow> 'e backtest \<Rightarrow> ohlcv list result \<times> 'e backtest" where
  "stream_bars algo uuid collected [] bt = (Inr collected, bt)"
| "stream_bars algo uuid collected (b # bs) bt =
     (case ask_engine algo b bt of
        (Inl e, bt) \<Rightarrow> (Inl e, bt)
      | (Inr sig, bt) \<Rightarrow>
          (case simulate_bar uuid b sig (bt\<lparr>bt_bars := bt_bars bt + 1\<rparr>) of
             (Inl e, bt) \<Rightarrow> (Inl e, bt)
           | (Inr u, bt) \<Rightarrow> stream_bars algo uuid (collected @ [b]) bs bt))"

definition build_result :: "(rat \<Rightarrow> rat \<Rightarrow> rat result) \<Rightarrow> 'e backtest \<Rightarrow> backtest_result result" where
  "build_result c_pow bt =
     compute_metrics c_pow (bc_risk_free_rate (bt_config bt)) (sm_curve (bt_sim bt)) (sm_log (bt_sim bt))
       (bt_bars bt) (bc_initial_equity (bt_config bt))"

definition finish :: "(rat \<Rightarrow> rat \<Rightarrow> rat result) \<Rightarrow> ohlcv list \<Rightarrow> 'e backtest \<Rightarrow> backtest_result result \<times> 'e backtest" where
  "finish c_pow bars bt =
     (if bars = [] then (build_result c_pow bt, bt)
      else case close_all_positions (last bars) (bt_sim bt) of
             (Inl e, sm) \<Rightarrow> (Inl e, bt\<lparr>bt_sim := sm\<rparr>)
           | (Inr u, sm) \<Rightarrow> (build_result c_pow (bt\<lparr>bt_sim := sm\<rparr>), bt\<lparr>bt_sim := sm\<rparr>))"

definition backtest_run ::
  "(rat \<Rightarrow> rat \<Rightarrow> rat result) \<Rightarrow> 'e algo \<Rightarrow> (nat \<Rightarrow> string) \<Rightarrow> ohlcv list \<Rightarrow> 'e backtest \<Rightarrow> backtest_result result \<times> 'e backtest" where
  "backtest_run c_pow algo uuid bars bt =
     (if bars = [] then (build_result c_pow bt, bt)
      else case run_bars algo uuid bars bt of
             (Inl e, bt) \<Rightarrow> (Inl e, bt)
           | (Inr u, bt) \<Rightarrow> finish c_pow bars bt)"

definition run_streaming ::
  "(rat \<Rightarrow> rat \<Rightarrow> rat result) \<Rightarrow> 'e algo \<Rightarrow> (nat \<Rightarrow> string) \<Rightarrow> ohlcv list \<Rightarrow> 'e backtest \<Rightarrow> backtest_result result \<times> 'e backtest" where
  "run_streaming c_pow algo uuid bars bt =
     (case stream_bars algo uuid [] bars bt of
        (Inl e, bt) \<Rightarrow> (Inl e, bt)
      | (Inr collected, bt) \<Rightarrow> finish c_pow collected bt)"

section \<open>Lemmas: the two loops agree\<close>

text \<open>The counter takes no part in what the engine and the simulator do.\<close>

lemma ask_engine_bars:
  "ask_engine algo b (bt\<lparr>bt_bars := n\<rparr>) = (let (r, bt') = ask_engine algo b bt in (r, bt'\<lparr>bt_bars := n\<rparr>))"
  by (simp add: ask_engine_def split: prod.splits)

lemma ask_engine_count: "ask_engine algo b bt = (r, bt') \<Longrightarrow> bt_bars bt' = bt_bars bt"
  by (auto simp: ask_engine_def split: prod.splits)

lemma stream_bars_run_bars:
  "case stream_bars algo uuid collected bs bt of
     (Inl e, bt') \<Rightarrow>
       (\<exists>n. run_bars algo uuid bs bt = (Inl e, bt'\<lparr>bt_bars := n\<rparr>))
   | (Inr seen, bt') \<Rightarrow> run_bars algo uuid bs bt = (Inr (), bt') \<and> seen = collected @ bs"
proof (induction bs arbitrary: collected bt)
  case (Cons b bs)
  obtain r bt1 where a: "ask_engine algo b bt = (r, bt1)" by fastforce
  have a': "ask_engine algo b (bt\<lparr>bt_bars := bt_bars bt + 1\<rparr>) = (r, bt1\<lparr>bt_bars := bt_bars bt1 + 1\<rparr>)"
    using ask_engine_bars [where algo = algo and b = b and bt = bt and n = "bt_bars bt + 1"] ask_engine_count [OF a] by (simp add: a)
  show ?case
  proof (cases r)
    case (Inl e)
    then show ?thesis using a a' by auto
  next
    case (Inr sig)
    obtain q bt2 where s: "simulate_bar uuid b sig (bt1\<lparr>bt_bars := bt_bars bt1 + 1\<rparr>) = (q, bt2)" by fastforce
    show ?thesis
    proof (cases q)
      case Inl: (Inl e)
      have "run_bars algo uuid (b # bs) bt = (Inl e, bt2\<lparr>bt_bars := bt_bars bt2\<rparr>)" using a' s Inr Inl by simp
      then show ?thesis using a s Inr Inl by (auto intro!: exI [of _ "bt_bars bt2"])
    next
      case Inr': (Inr u)
      have "run_bars algo uuid (b # bs) bt = run_bars algo uuid bs bt2"
        "stream_bars algo uuid collected (b # bs) bt = stream_bars algo uuid (collected @ [b]) bs bt2"
        using a a' s Inr Inr' by simp_all
      then show ?thesis using Cons.IH [where collected = "collected @ [b]" and bt = bt2] by (simp only: append.simps append_assoc)
    qed
  qed
qed simp

section \<open>Lemmas: the books of a run\<close>

definition run_books :: "'e backtest \<Rightarrow> bool" where
  "run_books bt \<longleftrightarrow>
     ledger (bt_sim bt) \<and>
     image_mset op_signal_id (mset (booked (bt_sim bt))) = mset (map signal_id (bt_signals bt))"

lemma run_books_new: "run_books (new_backtest en cfg)"
  by (simp add: run_books_def new_backtest_def ledger_new) (simp add: new_simulator_def booked_def)

lemma ask_engine_books: "ask_engine algo b bt = (r, bt') \<Longrightarrow> run_books bt' \<longleftrightarrow> run_books bt"
  by (auto simp: ask_engine_def run_books_def split: prod.splits)

lemma run_books_count [simp]: "run_books (bt\<lparr>bt_bars := n\<rparr>) \<longleftrightarrow> run_books bt"
  by (simp add: run_books_def)

lemma simulate_bar_books:
  assumes "simulate_bar uuid b sig bt = (Inr u, bt')" "run_books bt"
  shows "run_books bt'"
proof -
  obtain v bt1 where t: "take_signal uuid b sig bt = (Inr v, bt1)" and c: "check_exits b bt1 = (Inr u, bt')"
    using assms(1) by (auto simp: simulate_bar_def split: prod.splits sum.splits)
  have 1: "run_books bt1"
  proof (cases sig)
    case None
    then show ?thesis using t assms(2) by (simp add: take_signal_def)
  next
    case (Some s)
    then obtain sm where o: "open_sim_position (uuid (length (bt_signals bt))) s b (bt_sim bt) = (Inr v, sm)"
      and bt1: "bt1 = bt\<lparr>bt_signals := bt_signals bt @ [s], bt_sim := sm\<rparr>"
      using t by (auto simp: take_signal_def split: prod.splits)
    have led: "ledger (bt_sim bt)" using assms(2) by (simp add: run_books_def)
    obtain p where "mset (booked sm) = add_mset p (mset (booked (bt_sim bt)))" "op_signal_id p = signal_id s"
      using open_sim_position_books(2) [OF o led] by blast
    then show ?thesis using open_sim_position_books(1) [OF o led] assms(2) by (simp add: run_books_def bt1)
  qed
  obtain sm where s: "sim_process_bar b (bt_sim bt1) = (Inr u, sm)" and bt': "bt' = bt1\<lparr>bt_sim := sm\<rparr>"
    using c by (auto simp: check_exits_def split: prod.splits)
  have led: "ledger (bt_sim bt1)" using 1 by (simp add: run_books_def)
  show ?thesis using 1 sim_process_bar_books [OF s led] by (simp add: run_books_def bt')
qed

lemma run_bars_books:
  "run_bars algo uuid bs bt = (Inr u, bt') \<Longrightarrow> run_books bt \<Longrightarrow> run_books bt'"
proof (induction bs arbitrary: bt)
  case (Cons b bs)
  obtain sig bt1 v bt2 where a: "ask_engine algo b (bt\<lparr>bt_bars := bt_bars bt + 1\<rparr>) = (Inr sig, bt1)"
    and s: "simulate_bar uuid b sig bt1 = (Inr v, bt2)" and r: "run_bars algo uuid bs bt2 = (Inr u, bt')"
    using Cons.prems(1) by (auto split: prod.splits sum.splits)
  have "run_books bt2" using simulate_bar_books [OF s] ask_engine_books [OF a] Cons.prems(2) by simp
  with r show ?case by (rule Cons.IH)
qed simp

lemma finish_books:
  assumes "finish c_pow bars bt = (Inr r, bt')" "bars \<noteq> []" "run_books bt"
  shows "run_books bt'" "sm_open (bt_sim bt') = []" "sm_curve (bt_sim bt') = sm_curve (bt_sim bt)"
    "build_result c_pow bt' = Inr r"
proof -
  obtain v sm where c: "close_all_positions (last bars) (bt_sim bt) = (Inr v, sm)"
    and bt': "bt' = bt\<lparr>bt_sim := sm\<rparr>" "build_result c_pow bt' = Inr r"
    using assms(1,2) by (auto simp: finish_def split: prod.splits sum.splits)
  have led: "ledger (bt_sim bt)" using assms(3) by (simp add: run_books_def)
  show "run_books bt'" "sm_open (bt_sim bt') = []" "sm_curve (bt_sim bt') = sm_curve (bt_sim bt)"
    using close_all_positions_books [OF c led] assms(3) by (simp_all add: bt'(1) run_books_def)
  show "build_result c_pow bt' = Inr r" by (rule bt'(2))
qed

lemma run_bars_curve:
  "run_bars algo uuid bs bt = (Inr u, bt') \<Longrightarrow> bs \<noteq> [] \<Longrightarrow>
   sm_curve (bt_sim bt') \<noteq> [] \<and> last (sm_curve (bt_sim bt')) = sm_equity (bt_sim bt')"
proof (induction bs arbitrary: bt)
  case (Cons b bs)
  obtain sig bt1 v bt2 where s: "simulate_bar uuid b sig bt1 = (Inr v, bt2)"
    and r: "run_bars algo uuid bs bt2 = (Inr u, bt')"
    using Cons.prems(1) by (auto split: prod.splits sum.splits)
  obtain bt3 where "check_exits b bt3 = (Inr v, bt2)"
    using s by (auto simp: simulate_bar_def split: prod.splits sum.splits)
  then have "sm_curve (bt_sim bt2) \<noteq> [] \<and> last (sm_curve (bt_sim bt2)) = sm_equity (bt_sim bt2)"
    by (auto simp: check_exits_def sim_process_bar_def split: prod.splits sum.splits)
  then show ?case using r Cons.IH [OF r] by (cases "bs = []") auto
qed simp

section \<open>Properties\<close>


definition sample_config :: backtest_config where
  "sample_config =
     \<lparr>bc_symbol = ''EURUSD'', bc_timeframe = ''H1'', bc_initial_equity = 10000, bc_spread_pips = 0, bc_slippage_pips = 0,
      bc_commission_per_lot = 7, bc_pip_value = 1 / 10000, bc_risk_free_rate = 252 / 10000\<rparr>"

definition sample_bar :: ohlcv where
  "sample_bar =
     \<lparr>bar_timestamp = 1, bar_open = 11 / 10, bar_high = 5 / 4, bar_low = 23 / 20, bar_close = 6 / 5, bar_volume = 1\<rparr>"

definition buy_signal :: trading_signal where
  "buy_signal =
     \<lparr>signal_id = ''s'', sig_symbol = ''EURUSD'', sig_direction = BUY, sig_confidence = 1, sig_entry_price = 11 / 10,
      sig_stop_loss = 1, sig_take_profit = 2, sig_risk_reward = 9, sig_order_type = ''MARKET'', sig_timestamp_ms = 1,
      sig_lots = Some 1, sig_source_tier = None\<rparr>"

definition always_buy :: "unit algo" where
  "always_buy symbol tf b u = (Inr (Some buy_signal), u)"

definition buy_position :: open_position where
  "buy_position =
     \<lparr>op_id = ''u'', op_signal_id = ''s'', op_symbol = ''EURUSD'', op_direction = ''Direction.BUY'', op_entry_price = 11 / 10,
      op_stop_loss = 1, op_take_profit = 2, op_lots = 1, op_entry_timestamp = 1, op_commission = 7\<rparr>"

lemma sample_run_bars:
  "run_bars always_buy (\<lambda>n. ''u'') [sample_bar] (new_backtest () sample_config) =
     (Inr (), \<lparr>bt_engine = (), bt_config = sample_config,
        bt_sim = \<lparr>sm_initial_equity = 10000, sm_spread_pips = 0, sm_slippage_pips = 0, sm_commission_per_lot = 7,
          sm_pip_value = 1 / 10000, sm_equity = 9993, sm_open = [buy_position], sm_curve = [10000, 9993], sm_log = []\<rparr>,
        bt_signals = [buy_signal], bt_bars = 1\<rparr>)"
proof -
  have buy: "sim_is_buy ''Direction.BUY''" by (simp add: sim_is_buy_def str_upper_def upper_char_def str_starts_def)
  have q: "quantize 8 0 = Inr 0" "quantize 2 7 = Inr 7"
    by (rule quantize_exact; simp add: on_grid_def; intro exI [of _ 700]; simp)+
  show ?thesis
    by (simp add: new_backtest_def new_simulator_def sample_config_def ask_engine_def always_buy_def simulate_bar_def
        take_signal_def open_sim_position_def fill_price_def buy_signal_def sample_bar_def buy_position_def q Let_def
        direction_str_def check_exits_def sim_process_bar_def exit_on_bar_def dec_ops num_eval buy)
qed

definition sample_final :: simulator where
  "sample_final =
     \<lparr>sm_initial_equity = 10000, sm_spread_pips = 0, sm_slippage_pips = 0, sm_commission_per_lot = 7,
      sm_pip_value = 1 / 10000, sm_equity = 19993, sm_open = [], sm_curve = [10000, 9993],
      sm_log = [\<lparr>tr_position = buy_position, tr_exit_price = 6 / 5, tr_pnl = 10000, tr_exit_timestamp = 1,
                 tr_exit_reason = ''end_of_backtest''\<rparr>]\<rparr>"

lemma sample_close:
  "close_all_positions sample_bar
     \<lparr>sm_initial_equity = 10000, sm_spread_pips = 0, sm_slippage_pips = 0, sm_commission_per_lot = 7,
      sm_pip_value = 1 / 10000, sm_equity = 9993, sm_open = [buy_position], sm_curve = [10000, 9993], sm_log = []\<rparr> =
   (Inr (), sample_final)"
proof -
  have buy: "sim_is_buy ''Direction.BUY''" by (simp add: sim_is_buy_def str_upper_def upper_char_def str_starts_def)
  have q: "quantize 8 0 = Inr 0" "quantize 2 10000 = Inr 10000"
    by (rule quantize_exact; simp add: on_grid_def; intro exI [of _ 1000000]; simp)+
  show ?thesis
    by (simp add: close_all_positions_def fill_price_def q Let_def sample_bar_def buy_position_def opposite_direction_def
        buy close_sim_position_def calculate_pnl_def dec_ops num_eval dec_div_checked_def sample_final_def)
qed

lemma sample_report:
  "\<exists>r. compute_metrics (\<lambda>x y. Inr 1) (252 / 10000) [10000, 9993] (sm_log sample_final) 1 10000 = Inr r"
  by (simp add: compute_metrics_def initial_result_def daily_risk_free_def bar_return_def total_return_pct_def
      annualized_return_def flt_decimal_1 max_drawdown_def drawdown_step_def Let_def dec_ops num_eval sharpe_ratio_def
      sortino_ratio_def compute_trade_metrics_def sample_final_def buy_position_def dec_sum_def trade_durations_def
      quantize_def dec_div_checked_def)

lemma sample_backtest:
  "\<exists>r bt. backtest_run (\<lambda>x y. Inr 1) always_buy (\<lambda>n. ''u'') [sample_bar] (new_backtest () sample_config) = (Inr r, bt) \<and>
     bt_sim bt = sample_final"
proof -
  have sel: "sm_curve sample_final = [10000, 9993]" "bc_risk_free_rate sample_config = 252 / 10000"
    "bc_initial_equity sample_config = 10000"
    by (simp_all add: sample_final_def sample_config_def)
  obtain r where r: "compute_metrics (\<lambda>x y. Inr 1) (252 / 10000) [10000, 9993] (sm_log sample_final) 1 10000 = Inr r"
    using sample_report by blast
  show ?thesis
    unfolding backtest_run_def sample_run_bars finish_def build_result_def
    by (simp add: sample_close) (simp only: sel, use r in simp)
qed

text \<open>
  C16. The ledger of a finished backtest: no position is left open, each signal of the engine was opened and closed
  exactly once, and the equity is the initial equity plus the profits of the trade log minus its commissions, without
  any rounding, while the amounts together stay below \<open>10^26\<close>.
\<close>

theorem backtest_ledger:
  assumes "backtest_run c_pow algo uuid bars (new_backtest en cfg) = (Inr r, bt)" "bars \<noteq> []"
  shows "sm_open (bt_sim bt) = [] \<and>
    image_mset (op_signal_id \<circ> tr_position) (mset (sm_log (bt_sim bt))) = mset (map signal_id (bt_signals bt)) \<and>
    (on_grid 2 (sm_initial_equity (bt_sim bt)) \<and> turnover (bt_sim bt) < 10 ^ 26 \<longrightarrow>
       sm_equity (bt_sim bt) = sm_initial_equity (bt_sim bt) + total_pnl (sm_log (bt_sim bt)) -
         commissions (image_mset tr_position (mset (sm_log (bt_sim bt)))))"
proof -
  obtain u bt1 where run: "run_bars algo uuid bars (new_backtest en cfg) = (Inr u, bt1)"
    and f: "finish c_pow bars bt1 = (Inr r, bt)"
    using assms by (auto simp: backtest_run_def split: prod.splits sum.splits)
  have "run_books bt1" by (rule run_bars_books [OF run run_books_new])
  note closed = finish_books [OF f assms(2) this]
  have booked: "booked (bt_sim bt) = map tr_position (sm_log (bt_sim bt))" using closed(2) by (simp add: booked_def)
  show ?thesis using closed(1,2) unfolding run_books_def ledger_def booked
    by (auto simp: multiset.map_comp)
qed

theorem backtest_ledger_witness:
  "\<exists>r bt. backtest_run (\<lambda>x y. Inr 1) always_buy (\<lambda>n. ''u'') [sample_bar] (new_backtest () sample_config) = (Inr r, bt) \<and>
     sm_equity (bt_sim bt) = 10000 + 10000 - 7"
proof -
  obtain r bt where run: "backtest_run (\<lambda>x y. Inr 1) always_buy (\<lambda>n. ''u'') [sample_bar] (new_backtest () sample_config) = (Inr r, bt)"
    and fin: "bt_sim bt = sample_final" using sample_backtest by blast
  have "on_grid 2 10000" by (rule on_gridI [of _ _ 1000000]) simp
  moreover have "turnover sample_final = 20007" by (simp add: turnover_def sample_final_def booked_def buy_position_def)
  ultimately have "sm_equity (bt_sim bt) = 10000 + 10000 - 7"
    using backtest_ledger [OF run] unfolding fin by (simp add: sample_final_def commissions_def buy_position_def)
  then show ?thesis using run by blast
qed

text \<open>
  The report is computed from the curve as it was before the positions left open were closed: its final equity is
  the equity before those closes, while their profits are in the trade statistics and in the simulator's equity.
\<close>

theorem report_ignores_final_closes:
  assumes "backtest_run c_pow algo uuid bars bt = (Inr r, bt')" "bars \<noteq> []"
  shows "\<exists>bt1. run_bars algo uuid bars bt = (Inr (), bt1) \<and> br_final_equity r = sm_equity (bt_sim bt1) \<and>
    close_all_positions (last bars) (bt_sim bt1) = (Inr (), bt_sim bt')"
proof -
  obtain bt1 where run: "run_bars algo uuid bars bt = (Inr (), bt1)" and f: "finish c_pow bars bt1 = (Inr r, bt')"
    using assms by (auto simp: backtest_run_def split: prod.splits sum.splits)
  obtain sm where c: "close_all_positions (last bars) (bt_sim bt1) = (Inr (), sm)"
    and bt': "bt' = bt1\<lparr>bt_sim := sm\<rparr>" "build_result c_pow bt' = Inr r"
    using f assms(2) by (auto simp: finish_def split: prod.splits sum.splits)
  have "sm_curve sm = sm_curve (bt_sim bt1)" by (rule close_all_positions_curve [OF c])
  moreover have "sm_curve (bt_sim bt1) \<noteq> []" "last (sm_curve (bt_sim bt1)) = sm_equity (bt_sim bt1)"
    using run_bars_curve [OF run assms(2)] by blast+
  ultimately have "br_final_equity r = sm_equity (bt_sim bt1)"
    using bt'(2) compute_metrics_final_equity unfolding build_result_def bt'(1) by fastforce
  then show ?thesis using run c bt'(1) by simp
qed

theorem report_ignores_final_closes_witness:
  "\<exists>r bt. backtest_run (\<lambda>x y. Inr 1) always_buy (\<lambda>n. ''u'') [sample_bar] (new_backtest () sample_config) = (Inr r, bt) \<and>
     br_final_equity r = 9993 \<and> sm_equity (bt_sim bt) = 19993"
proof -
  obtain r bt where run: "backtest_run (\<lambda>x y. Inr 1) always_buy (\<lambda>n. ''u'') [sample_bar] (new_backtest () sample_config) = (Inr r, bt)"
    and fin: "bt_sim bt = sample_final" using sample_backtest by blast
  have "br_final_equity r = 9993"
    using report_ignores_final_closes [OF run] by (auto simp: sample_run_bars simp del: run_bars.simps)
  then show ?thesis using run fin by (simp add: sample_final_def)
qed

end
