(* ===== verification/Macro_Scheduler.thy ===== *)
theory Macro_Scheduler
  imports Prelude
begin

text \<open>
  \<open>external_data/scheduler.py\<close>: periodic jobs with a circuit breaker. Job dictionaries are mutable objects that
  a loop captures when it starts, so they live in a store and are referred to by address. The event loop interleaves
  the calls of the service with the resumption of the jobs' tasks, each of which runs to its next \<open>await\<close>;
  whether the job's function returns or raises is part of the event.
\<close>

section \<open>State\<close>

record sched_job =
  jb_interval :: int
  jb_run_immediately :: bool
  jb_last_run :: "rat option"
  jb_run_count :: nat
  jb_error_count :: nat
  jb_consecutive_errors :: nat
  jb_max_consecutive_errors :: nat
  jb_disabled :: bool

text \<open>A task that has not begun, that sleeps in the loop with the job object it captured, or that has ended.\<close>

datatype job_task = Created | Sleeping nat | Ended

record scheduler =
  sc_store :: "nat \<Rightarrow> sched_job"
  sc_next :: nat
  sc_jobs :: "string \<Rightarrow> nat option"
  sc_running :: bool
  sc_tasks :: "string \<Rightarrow> job_task option"

definition blank_job :: sched_job where
  "blank_job =
     \<lparr>jb_interval = 0, jb_run_immediately = False, jb_last_run = None, jb_run_count = 0, jb_error_count = 0,
      jb_consecutive_errors = 0, jb_max_consecutive_errors = 1, jb_disabled = False\<rparr>"

definition new_scheduler :: scheduler where
  "new_scheduler =
     \<lparr>sc_store = (\<lambda>r. blank_job), sc_next = 0, sc_jobs = (\<lambda>i. None), sc_running = False, sc_tasks = (\<lambda>i. None)\<rparr>"

definition upd_job :: "nat \<Rightarrow> (sched_job \<Rightarrow> sched_job) \<Rightarrow> scheduler \<Rightarrow> scheduler" where
  "upd_job r f s = s\<lparr>sc_store := (sc_store s)(r := f (sc_store s r))\<rparr>"

definition set_task :: "string \<Rightarrow> job_task \<Rightarrow> scheduler \<Rightarrow> scheduler" where
  "set_task i t s = s\<lparr>sc_tasks := (sc_tasks s)(i \<mapsto> t)\<rparr>"

section \<open>Operations\<close>

definition add_job :: "string \<Rightarrow> int \<Rightarrow> bool \<Rightarrow> nat \<Rightarrow> scheduler \<Rightarrow> scheduler" where
  "add_job i interval immediately max_errors s =
     s\<lparr>sc_store := (sc_store s)(sc_next s :=
          \<lparr>jb_interval = interval, jb_run_immediately = immediately, jb_last_run = None, jb_run_count = 0,
           jb_error_count = 0, jb_consecutive_errors = 0, jb_max_consecutive_errors = max_errors, jb_disabled = False\<rparr>),
       sc_next := sc_next s + 1, sc_jobs := (sc_jobs s)(i \<mapsto> sc_next s)\<rparr>"

definition remove_job :: "string \<Rightarrow> scheduler \<Rightarrow> bool \<times> scheduler" where
  "remove_job i s =
     (if sc_jobs s i = None then (False, s)
      else (True, s\<lparr>sc_jobs := (sc_jobs s)(i := None), sc_tasks := (sc_tasks s)(i := None)\<rparr>))"

text \<open>\<open>_execute_job\<close> looks the job up again.\<close>

definition execute_job :: "string \<Rightarrow> bool \<Rightarrow> rat \<Rightarrow> scheduler \<Rightarrow> scheduler" where
  "execute_job i ok now s =
     (case sc_jobs s i of
        None \<Rightarrow> s
      | Some r \<Rightarrow>
          if ok
          then upd_job r (\<lambda>j. j\<lparr>jb_run_count := jb_run_count j + 1, jb_last_run := Some now, jb_consecutive_errors := 0\<rparr>) s
          else upd_job r (\<lambda>j.
                 let j = j\<lparr>jb_error_count := jb_error_count j + 1, jb_consecutive_errors := jb_consecutive_errors j + 1\<rparr>
                 in if jb_max_consecutive_errors j \<le> jb_consecutive_errors j then j\<lparr>jb_disabled := True\<rparr> else j) s)"

text \<open>The head of the loop, with the captured job.\<close>

definition loop_head :: "string \<Rightarrow> nat \<Rightarrow> scheduler \<Rightarrow> scheduler" where
  "loop_head i r s =
     set_task i (if sc_running s \<and> sc_jobs s i \<noteq> None \<and> \<not> jb_disabled (sc_store s r) then Sleeping r else Ended) s"

text \<open>From the start of the coroutine to its first sleep; the flag tells whether the function was called.\<close>

definition begin_task :: "string \<Rightarrow> bool \<Rightarrow> rat \<Rightarrow> scheduler \<Rightarrow> bool \<times> scheduler" where
  "begin_task i ok now s =
     (case sc_jobs s i of
        None \<Rightarrow> (False, set_task i Ended s)
      | Some r \<Rightarrow>
          if jb_disabled (sc_store s r) then (False, set_task i Ended s)
          else if jb_run_immediately (sc_store s r) then (True, loop_head i r (execute_job i ok now s))
          else (False, loop_head i r s))"

text \<open>From one sleep to the next.\<close>

definition wake_task :: "string \<Rightarrow> nat \<Rightarrow> bool \<Rightarrow> rat \<Rightarrow> scheduler \<Rightarrow> bool \<times> scheduler" where
  "wake_task i r ok now s =
     (if \<not> sc_running s \<or> sc_jobs s i = None \<or> jb_disabled (sc_store s r) then (False, set_task i Ended s)
      else (True, loop_head i r (execute_job i ok now s)))"

definition resume_task :: "string \<Rightarrow> bool \<Rightarrow> rat \<Rightarrow> scheduler \<Rightarrow> bool \<times> scheduler" where
  "resume_task i ok now s =
     (case sc_tasks s i of
        Some Created \<Rightarrow> begin_task i ok now s
      | Some (Sleeping r) \<Rightarrow> wake_task i r ok now s
      | _ \<Rightarrow> (False, s))"

definition start_scheduler :: "scheduler \<Rightarrow> scheduler" where
  "start_scheduler s =
     (if sc_running s then s
      else s\<lparr>sc_running := True,
             sc_tasks := (\<lambda>i. if sc_jobs s i \<noteq> None then Some Created else sc_tasks s i)\<rparr>)"

definition stop_scheduler :: "scheduler \<Rightarrow> scheduler" where
  "stop_scheduler s = (if sc_running s then s\<lparr>sc_running := False, sc_tasks := (\<lambda>i. None)\<rparr> else s)"

definition re_enable_job :: "string \<Rightarrow> scheduler \<Rightarrow> bool \<times> scheduler" where
  "re_enable_job i s =
     (case sc_jobs s i of
        None \<Rightarrow> (False, s)
      | Some r \<Rightarrow>
          let s = upd_job r (\<lambda>j. j\<lparr>jb_disabled := False, jb_consecutive_errors := 0\<rparr>) s
          in (True, if sc_running s \<and> (sc_tasks s i = None \<or> sc_tasks s i = Some Ended) then set_task i Created s else s))"

text \<open>The figures of one job, its last run and whether its task is alive.\<close>

definition job_stats :: "string \<Rightarrow> scheduler \<Rightarrow> (int \<times> nat \<times> nat \<times> nat \<times> bool \<times> rat option \<times> bool) option" where
  "job_stats i s =
     map_option (\<lambda>r. let j = sc_store s r
       in (jb_interval j, jb_run_count j, jb_error_count j, jb_consecutive_errors j, jb_disabled j, jb_last_run j,
           sc_tasks s i \<noteq> None \<and> sc_tasks s i \<noteq> Some Ended)) (sc_jobs s i)"

section \<open>Histories\<close>

datatype sched_event =
    Add string int bool nat
  | Remove string
  | Resume string bool rat
  | Start
  | Stop
  | ReEnable string

fun sched_step :: "sched_event \<Rightarrow> scheduler \<Rightarrow> scheduler" where
  "sched_step (Add i interval immediately k) s = add_job i interval immediately k s"
| "sched_step (Remove i) s = snd (remove_job i s)"
| "sched_step (Resume i ok now) s = snd (resume_task i ok now s)"
| "sched_step Start s = start_scheduler s"
| "sched_step Stop s = stop_scheduler s"
| "sched_step (ReEnable i) s = snd (re_enable_job i s)"

text \<open>The service registers each job once, with a positive threshold.\<close>

fun legal :: "sched_event \<Rightarrow> scheduler \<Rightarrow> bool" where
  "legal (Add i interval immediately k) s = (sc_jobs s i = None \<and> 0 < k)"
| "legal e s = True"

inductive sched_reach :: "scheduler \<Rightarrow> bool" where
  init: "sched_reach new_scheduler"
| step: "sched_reach s \<Longrightarrow> legal e s \<Longrightarrow> sched_reach (sched_step e s)"

section \<open>Invariant\<close>

definition breaker_ok :: "sched_job \<Rightarrow> bool" where
  "breaker_ok j \<longleftrightarrow>
     0 < jb_max_consecutive_errors j \<and> jb_consecutive_errors j \<le> jb_error_count j \<and>
     (jb_disabled j \<longleftrightarrow> jb_max_consecutive_errors j \<le> jb_consecutive_errors j)"

definition sched_wf :: "scheduler \<Rightarrow> bool" where
  "sched_wf s \<longleftrightarrow>
     (\<forall>i r. sc_jobs s i = Some r \<longrightarrow> r < sc_next s) \<and>
     (\<forall>i k r. sc_jobs s i = Some r \<and> sc_jobs s k = Some r \<longrightarrow> i = k) \<and>
     (\<forall>r. breaker_ok (sc_store s r)) \<and>
     (\<forall>i r. sc_tasks s i = Some (Sleeping r) \<longrightarrow> sc_jobs s i = Some r)"

lemma sched_wf_set_task:
  "sched_wf s \<Longrightarrow> (\<And>r. t = Sleeping r \<Longrightarrow> sc_jobs s i = Some r) \<Longrightarrow> sched_wf (set_task i t s)"
  by (auto simp: sched_wf_def set_task_def)

lemma sched_wf_upd_job:
  "sched_wf s \<Longrightarrow> (breaker_ok (sc_store s r) \<Longrightarrow> breaker_ok (f (sc_store s r))) \<Longrightarrow> sched_wf (upd_job r f s)"
  by (auto simp: sched_wf_def upd_job_def)

lemma upd_job_fields [simp]:
  "sc_jobs (upd_job r f s) = sc_jobs s" "sc_tasks (upd_job r f s) = sc_tasks s" "sc_running (upd_job r f s) = sc_running s"
  "sc_next (upd_job r f s) = sc_next s"
  by (simp_all add: upd_job_def)

lemma execute_job_jobs [simp]: "sc_jobs (execute_job i ok now s) = sc_jobs s"
  by (simp add: execute_job_def split: option.splits)

lemma sched_wf_execute:
  assumes "sched_wf s" "sc_jobs s i = Some r" "\<not> jb_disabled (sc_store s r)"
  shows "sched_wf (execute_job i ok now s)"
  unfolding execute_job_def assms(2) option.case
  using assms(1,3) by (auto intro!: sched_wf_upd_job simp: breaker_ok_def Let_def)

lemma sched_wf_loop_head: "sched_wf s \<Longrightarrow> sc_jobs s i = Some r \<Longrightarrow> sched_wf (loop_head i r s)"
  unfolding loop_head_def by (rule sched_wf_set_task) (auto split: if_splits)

lemma sched_wf_resume:
  assumes "sched_wf s"
  shows "sched_wf (snd (resume_task i ok now s))"
proof -
  have "sched_wf (snd (begin_task i ok now s))"
    unfolding begin_task_def using assms
    by (auto split: option.splits intro!: sched_wf_set_task sched_wf_loop_head sched_wf_execute)
  moreover have "sched_wf (snd (wake_task i r ok now s))" if "sc_tasks s i = Some (Sleeping r)" for r
    unfolding wake_task_def using assms that
    by (auto simp: sched_wf_def [of s] intro!: sched_wf_set_task sched_wf_loop_head sched_wf_execute)
  ultimately show ?thesis unfolding resume_task_def using assms by (auto split: option.splits job_task.splits)
qed

lemma sched_reach_wf: "sched_reach s \<Longrightarrow> sched_wf s"
proof (induction rule: sched_reach.induct)
  case init
  show ?case by (simp add: sched_wf_def new_scheduler_def blank_job_def breaker_ok_def)
next
  case (step s e)
  show ?case
  proof (cases e)
    case (Add i interval immediately k)
    then show ?thesis using step.IH step.hyps
      by (auto simp: sched_wf_def add_job_def breaker_ok_def) (metis less_irrefl less_SucI option.inject)+
  next
    case (Remove i)
    then show ?thesis using step.IH by (auto simp: sched_wf_def remove_job_def)
  next
    case (Resume i ok now)
    then show ?thesis using sched_wf_resume [OF step.IH] by simp
  next
    case Start
    then show ?thesis using step.IH by (auto simp: sched_wf_def start_scheduler_def)
  next
    case Stop
    then show ?thesis using step.IH by (auto simp: sched_wf_def stop_scheduler_def)
  next
    case (ReEnable i)
    have "sched_wf (upd_job r (\<lambda>j. j\<lparr>jb_disabled := False, jb_consecutive_errors := 0\<rparr>) s)" for r
      using step.IH by (rule sched_wf_upd_job) (simp add: breaker_ok_def)
    then show ?thesis using step.IH ReEnable
      by (auto simp: re_enable_job_def Let_def split: option.splits intro!: sched_wf_set_task)
  qed
qed

section \<open>Properties\<close>

text \<open>
  C23. The circuit breaker: in every reachable state of the scheduler a job's function is called only while the job is
  enabled and has failed fewer times in a row than its threshold, the call with the last permitted failure disables the
  job and ends its task, and a disabled job stays untouched by every resumption of its task.
\<close>

theorem breaker_stops_job:
  assumes "sched_reach s" "sc_jobs s i = Some r"
  shows "(fst (resume_task i ok now s) \<longrightarrow>
           \<not> jb_disabled (sc_store s r) \<and> jb_consecutive_errors (sc_store s r) < jb_max_consecutive_errors (sc_store s r)) \<and>
         (fst (resume_task i False now s) \<and> jb_consecutive_errors (sc_store s r) + 1 = jb_max_consecutive_errors (sc_store s r) \<longrightarrow>
           jb_disabled (sc_store (snd (resume_task i False now s)) r) \<and> sc_tasks (snd (resume_task i False now s)) i = Some Ended) \<and>
         (jb_disabled (sc_store s r) \<longrightarrow> sc_store (snd (resume_task i ok now s)) = sc_store s)"
proof -
  have wf: "sched_wf s" using assms(1) by (rule sched_reach_wf)
  have called: "\<not> jb_disabled (sc_store s r) \<and> snd (resume_task i ok' now s) = loop_head i r (execute_job i ok' now s)"
    if "fst (resume_task i ok' now s)" for ok'
    using that wf assms(2)
    by (auto simp: resume_task_def begin_task_def wake_task_def sched_wf_def split: option.splits job_task.splits if_splits)
  have idle: "sc_store (snd (resume_task i ok now s)) = sc_store s" if "\<not> fst (resume_task i ok now s)"
    using that by (auto simp: resume_task_def begin_task_def wake_task_def loop_head_def set_task_def
        split: option.splits job_task.splits if_splits)
  have ok: "breaker_ok (sc_store s r)" using wf by (simp add: sched_wf_def)
  have last: "jb_disabled (sc_store (loop_head i r (execute_job i False now s)) r) \<and>
      sc_tasks (loop_head i r (execute_job i False now s)) i = Some Ended"
    if "jb_consecutive_errors (sc_store s r) + 1 = jb_max_consecutive_errors (sc_store s r)"
    using that assms(2) by (simp add: loop_head_def execute_job_def upd_job_def set_task_def)
  show ?thesis using called [of ok] called [of False] idle ok last by (auto simp: breaker_ok_def)
qed

definition sample_schedule :: scheduler where
  "sample_schedule = foldl (\<lambda>s e. sched_step e s) new_scheduler [Add ''vix'' 60 True 1, Start]"

lemma sample_schedule_reach: "sched_reach sample_schedule"
proof -
  have 1: "sched_reach (sched_step (Add ''vix'' 60 True 1) new_scheduler)"
    by (rule sched_reach.step [OF sched_reach.init]) (simp add: new_scheduler_def)
  show ?thesis unfolding sample_schedule_def using sched_reach.step [OF 1, of Start] by simp
qed

theorem breaker_stops_job_witness:
  "jb_disabled (sc_store (snd (resume_task ''vix'' False 0 sample_schedule)) 0) \<and>
   sc_tasks (snd (resume_task ''vix'' False 0 sample_schedule)) ''vix'' = Some Ended"
proof -
  have "sc_jobs sample_schedule ''vix'' = Some 0" "fst (resume_task ''vix'' False 0 sample_schedule)"
    "jb_consecutive_errors (sc_store sample_schedule 0) + 1 = jb_max_consecutive_errors (sc_store sample_schedule 0)"
    by (simp_all add: sample_schedule_def new_scheduler_def add_job_def start_scheduler_def resume_task_def begin_task_def)
  then show ?thesis using breaker_stops_job [OF sample_schedule_reach, of "''vix''" 0 False 0] by blast
qed

text \<open>
  Registering a running job again defeats the breaker: the loop watches the object it captured, the calls go to the new
  one, which is disabled and called all the same.
\<close>

lemma reregistration_defeats_breaker:
  "\<exists>es. let s = foldl (\<lambda>s e. sched_step e s) new_scheduler es
        in jb_disabled (sc_store s 1) \<and> sc_jobs s ''vix'' = Some 1 \<and> fst (resume_task ''vix'' False 0 s)"
  by (rule exI [of _ "[Add ''vix'' 60 True 1, Start, Resume ''vix'' True 0, Add ''vix'' 60 True 1, Resume ''vix'' False 0]"])
    (simp add: new_scheduler_def add_job_def start_scheduler_def resume_task_def begin_task_def wake_task_def loop_head_def
      execute_job_def upd_job_def set_task_def)

end
