(* ===== verification/Text_Parsing.thy ===== *)
theory Text_Parsing
  imports Extended_Decimals
begin

text \<open>
  Text as the program reads it from files and command lines, in ASCII: white space, the lines of a file, and the
  numbers that \<open>int\<close>, \<open>float\<close> and \<open>Decimal\<close> make of a text. The console and the loaders of historical data share it.
\<close>

section \<open>White space\<close>

definition white :: "char \<Rightarrow> bool" where
  "white c \<longleftrightarrow> c = CHR '' '' \<or> (9 \<le> (of_char c :: nat) \<and> (of_char c :: nat) \<le> 13) \<or>
     (28 \<le> (of_char c :: nat) \<and> (of_char c :: nat) \<le> 31)"

text \<open>\<open>s.strip()\<close>.\<close>

definition str_strip :: "string \<Rightarrow> string" where
  "str_strip s = rev (dropWhile white (rev (dropWhile white s)))"

section \<open>Lines of a text file\<close>

abbreviation lf :: char where "lf \<equiv> CHR 0x0A"
abbreviation cr :: char where "cr \<equiv> CHR 0x0D"

text \<open>Reading in text mode: \<open>\r\n\<close> and \<open>\r\<close> become \<open>\n\<close>. The flag says that the last character was \<open>\r\<close>.\<close>

fun universal_newlines :: "bool \<Rightarrow> string \<Rightarrow> string" where
  "universal_newlines after_cr [] = []"
| "universal_newlines after_cr (c # s) =
     (if c = cr then lf # universal_newlines True s
      else if c = lf \<and> after_cr then universal_newlines False s
      else c # universal_newlines False s)"

definition line_break :: "char \<Rightarrow> bool" where
  "line_break c \<longleftrightarrow> c \<in> {lf, CHR 0x0B, CHR 0x0C, cr, CHR 0x1C, CHR 0x1D, CHR 0x1E}"

text \<open>\<open>str.splitlines()\<close>; the first argument is the line read so far.\<close>

fun splitlines :: "string \<Rightarrow> string \<Rightarrow> string list" where
  "splitlines line [] = (if line = [] then [] else [line])"
| "splitlines line (c # s) =
     (if c = cr \<and> s \<noteq> [] \<and> hd s = lf then line # splitlines [] (tl s)
      else if line_break c then line # splitlines [] s
      else splitlines (line @ [c]) s)"

section \<open>Numbers\<close>

definition is_digit :: "char \<Rightarrow> bool" where
  "is_digit c \<longleftrightarrow> c \<in> set ''0123456789''"

text \<open>A digit string with underscores, each between two digits; the sign in front of it; what stands before and after a separator.\<close>

definition digit_part :: "string \<Rightarrow> bool" where
  "digit_part s \<longleftrightarrow> s \<noteq> [] \<and> list_all (\<lambda>c. is_digit c \<or> c = CHR ''_'') s \<and> is_digit (hd s) \<and> is_digit (last s)
     \<and> \<not> str_contains ''__'' s"

fun unsigned :: "string \<Rightarrow> string" where
  "unsigned [] = []"
| "unsigned (c # s) = (if c = CHR ''+'' \<or> c = CHR ''-'' then s else c # s)"

definition split_at :: "char \<Rightarrow> string \<Rightarrow> string \<times> string option" where
  "split_at d s = (takeWhile (\<lambda>c. c \<noteq> d) s,
     (case dropWhile (\<lambda>c. c \<noteq> d) s of [] \<Rightarrow> None | c # t \<Rightarrow> Some t))"

definition mantissa :: "string \<Rightarrow> bool" where
  "mantissa s =
     (case split_at (CHR ''.'') s of
        (ip, None) \<Rightarrow> digit_part ip
      | (ip, Some fp) \<Rightarrow> (ip = [] \<or> digit_part ip) \<and> (fp = [] \<or> digit_part fp) \<and> (ip \<noteq> [] \<or> fp \<noteq> []))"

text \<open>The texts that \<open>float()\<close> accepts.\<close>

definition float_accepts :: "string \<Rightarrow> bool" where
  "float_accepts value =
     (let s = unsigned (str_lower (str_strip value))
      in s \<in> {''inf'', ''infinity'', ''nan''} \<or>
         (case split_at (CHR ''e'') s of
            (m, None) \<Rightarrow> mantissa m
          | (m, Some e) \<Rightarrow> mantissa m \<and> digit_part (unsigned e)))"

text \<open>\<open>str\<close> of a natural number and of an integer.\<close>

fun show_nat :: "nat \<Rightarrow> string" where
  "show_nat n = (if n < 10 then [char_of (48 + n)] else show_nat (n div 10) @ [char_of (48 + n mod 10)])"

declare show_nat.simps [simp del]

definition show_int :: "int \<Rightarrow> string" where
  "show_int n = (if n < 0 then ''-'' else []) @ show_nat (nat \<bar>n\<bar>)"

text \<open>The value of a digit string; underscores count for nothing.\<close>

fun digits_value :: "nat \<Rightarrow> string \<Rightarrow> nat" where
  "digits_value n [] = n"
| "digits_value n (c # s) = digits_value (if is_digit c then 10 * n + (of_char c - 48) else n) s"

fun negative :: "string \<Rightarrow> bool" where
  "negative [] = False"
| "negative (c # s) = (c = CHR ''-'')"

text \<open>\<open>int(text)\<close>.\<close>

definition int_text :: "string \<Rightarrow> int result" where
  "int_text t =
     (let s = str_strip t; d = unsigned s
      in if digit_part d then Inr ((if negative s then -1 else 1) * int (digits_value 0 d)) else Inl ValueError)"

text \<open>
  \<open>Decimal(text)\<close>: underscores are dropped, and the value is exact. A signaling NaN, which every operation but a copy
  refuses, is \<open>None\<close>; what is not a number raises.
\<close>

definition decimal_digits :: "string \<Rightarrow> bool" where
  "decimal_digits s = list_all is_digit s"

definition scaled :: "nat \<Rightarrow> int \<Rightarrow> decimal" where
  "scaled m e = (if 0 \<le> e then of_nat m * 10 ^ nat e else of_nat m / 10 ^ nat (- e))"

definition decimal_number :: "string \<Rightarrow> decimal option" where
  "decimal_number s =
     (let (m, e) = split_at (CHR ''e'') s; (ip, fp) = split_at (CHR ''.'') m; frac = opt_get fp []
      in if \<not> decimal_digits ip \<or> \<not> decimal_digits frac \<or> (ip = [] \<and> frac = []) then None
         else case e of
                None \<Rightarrow> Some (scaled (digits_value 0 (ip @ frac)) (- int (length frac)))
              | Some x \<Rightarrow>
                  if unsigned x = [] \<or> \<not> decimal_digits (unsigned x) then None
                  else Some (scaled (digits_value 0 (ip @ frac))
                         ((if negative x then -1 else 1) * int (digits_value 0 (unsigned x)) - int (length frac))))"

definition decimal_text :: "string \<Rightarrow> xdecimal option result" where
  "decimal_text t =
     (let s = str_lower (filter (\<lambda>c. c \<noteq> CHR ''_'') (str_strip t)); d = unsigned s
      in if d = ''inf'' \<or> d = ''infinity'' then Inr (Some (if negative s then NegInf else PosInf))
         else if str_starts ''nan'' d \<and> decimal_digits (drop 3 d) then Inr (Some NaN)
         else if str_starts ''snan'' d \<and> decimal_digits (drop 4 d) then Inr None
         else case decimal_number d of
                None \<Rightarrow> Inl InvalidOperation
              | Some x \<Rightarrow> Inr (Some (Fin (if negative s then - x else x))))"

section \<open>Lemmas\<close>

definition rstrip :: "string \<Rightarrow> string" where
  "rstrip s = rev (dropWhile white (rev s))"

lemma str_strip_rstrip: "str_strip s = rstrip (dropWhile white s)"
  by (simp add: str_strip_def rstrip_def)

lemma dropWhile_rstrip: "dropWhile white (rstrip s) = rstrip (dropWhile white s)"
  by (induction s) (auto simp: rstrip_def dropWhile_append dest: set_dropWhileD)

lemma rstrip_idem: "rstrip (rstrip s) = rstrip s"
  unfolding rstrip_def by (simp add: dropWhile_idem)

lemma str_strip_of_rstrip: "str_strip (rstrip s) = str_strip s"
  by (simp add: str_strip_rstrip dropWhile_rstrip rstrip_idem)

lemma rstrip_stop: "\<not> white c \<Longrightarrow> rstrip (s @ c # t) = s @ c # rstrip t"
  by (auto simp: rstrip_def dropWhile_append)

lemma str_strip_id: "list_all (\<lambda>c. \<not> white c) s \<Longrightarrow> str_strip s = s"
proof -
  assume clean: "list_all (\<lambda>c. \<not> white c) s"
  have keep: "dropWhile white t = t" if "set t = set s" for t
    using hd_in_set [of t] that clean by (cases "t = []") (auto simp: list_all_iff dropWhile_eq_self_iff)
  show "str_strip s = s" by (simp add: str_strip_def keep)
qed


lemma splitlines_line:
  "list_all (\<lambda>c. \<not> line_break c) l \<Longrightarrow> splitlines acc (l @ lf # s) = (acc @ l) # splitlines [] s"
  by (induction l arbitrary: acc) (auto simp: line_break_def)

lemma splitlines_concat:
  "list_all (list_all (\<lambda>c. \<not> line_break c)) ls \<Longrightarrow> splitlines [] (concat (map (\<lambda>l. l @ [lf]) ls)) = ls"
  by (induction ls) (auto simp: splitlines_line)

lemma splitlines_clean:
  "list_all (\<lambda>c. \<not> line_break c) acc \<Longrightarrow> list_all (list_all (\<lambda>c. \<not> line_break c)) (splitlines acc s)"
  by (induction acc s rule: splitlines.induct) (auto simp: line_break_def)

lemma universal_newlines_id: "cr \<notin> set s \<Longrightarrow> universal_newlines False s = s"
  by (induction s) auto

end
