(* ===== verification/Console.thy ===== *)
theory Console
  imports Kill_Switch Audit_Trail Text_Parsing "HOL-Library.Char_ord" "HOL-Library.List_Lexorder"
begin

text \<open>
  The operator console: \<open>registry.py\<close> (dispatch, aliases, confirmation), \<open>commands/kill.py\<close> over
  \<open>clients/redis_client.py\<close>, and the exit codes of \<open>cli/dispatch.py\<close>. A handler is a function from
  its arguments and the outside world to an outcome and a new world. Logging is left out; a hard timeout shows as the
  outcome \<open>TimedOut\<close>.
\<close>

section \<open>Commands\<close>

datatype cmd_outcome = Returned string | TimedOut string | Raised string

type_synonym 'w handler = "string list \<Rightarrow> 'w \<Rightarrow> cmd_outcome \<times> 'w"

record 'w command =
  cm_handler :: "'w handler"
  cm_help_text :: string
  cm_category :: string
  cm_aliases :: "string list"
  cm_requires_confirmation :: bool
  cm_dangerous :: bool
  cm_hidden :: bool
  cm_timeout_sec :: int

text \<open>A middleware that raises leaves the result alone.\<close>

record 'w registry =
  rg_commands :: "(string \<times> (string \<times> 'w command) list) list"
  rg_aliases :: "(string \<times> (string \<times> string)) list"
  rg_middleware :: "(string \<Rightarrow> string \<Rightarrow> string list \<Rightarrow> string \<Rightarrow> string option) list"
  rg_confirm_fn :: "(string \<Rightarrow> bool) option"

definition new_registry :: "'w registry" where
  "new_registry = \<lparr>rg_commands = [], rg_aliases = [], rg_middleware = [], rg_confirm_fn = None\<rparr>"

definition set_confirmation_handler :: "(string \<Rightarrow> bool) \<Rightarrow> 'w registry \<Rightarrow> 'w registry" where
  "set_confirmation_handler f rg = rg\<lparr>rg_confirm_fn := Some f\<rparr>"

definition commands_of :: "string \<Rightarrow> 'w registry \<Rightarrow> (string \<times> 'w command) list" where
  "commands_of category rg = opt_get (map_of (rg_commands rg) category) []"

definition register :: "string \<Rightarrow> string \<Rightarrow> 'w command \<Rightarrow> 'w registry \<Rightarrow> 'w registry" where
  "register category name cmd rg =
     rg\<lparr>rg_commands := dict_set category (dict_set name cmd (commands_of category rg)) (rg_commands rg),
        rg_aliases := foldl (\<lambda>as a. dict_set a (category, name) as) (rg_aliases rg) (cm_aliases cmd)\<rparr>"

definition find_command :: "string \<Rightarrow> string \<Rightarrow> 'w registry \<Rightarrow> 'w command option" where
  "find_command category subcmd rg = map_of (commands_of category rg) subcmd"

section \<open>Dispatch\<close>

definition join :: "string \<Rightarrow> string list \<Rightarrow> string" where
  "join sep xs = (if xs = [] then [] else foldl (\<lambda>acc x. acc @ sep @ x) (hd xs) (tl xs))"

definition available :: "(string \<times> 'w command) list \<Rightarrow> string" where
  "available cmds = join '', '' (sort (filter (\<lambda>k. k \<noteq> []) (map fst cmds)))"

definition em_dash :: string where
  "em_dash = [CHR 0xE2, CHR 0x80, CHR 0x94]"

definition confirm_label :: "string \<Rightarrow> string \<Rightarrow> 'w command \<Rightarrow> string" where
  "confirm_label category subcmd cmd =
     category @ '' '' @ subcmd @ (if cm_dangerous cmd then '' [!] DANGEROUS'' else [])"

text \<open>The gate: \<open>None\<close> lets the command pass, otherwise the answer to the operator.\<close>

definition confirmation_refusal :: "string \<Rightarrow> string \<Rightarrow> 'w command \<Rightarrow> 'w registry \<Rightarrow> string option" where
  "confirmation_refusal category subcmd cmd rg =
     (if \<not> cm_requires_confirmation cmd then None
      else case rg_confirm_fn rg of
             Some f \<Rightarrow>
               if f (confirm_label category subcmd cmd) then None
               else Some (''[cancelled] '' @ category @ '' '' @ subcmd @ '' '' @ em_dash @ '' aborted by operator.'')
           | None \<Rightarrow>
               Some (''[error] '' @ category @ '' '' @ subcmd
                     @ '' requires confirmation but no confirmation handler is configured.''))"

definition run_middleware :: "string \<Rightarrow> string \<Rightarrow> string list \<Rightarrow> 'w registry \<Rightarrow> string \<Rightarrow> string" where
  "run_middleware category subcmd args rg result =
     foldl (\<lambda>r mw. opt_get (mw category subcmd args r) r) result (rg_middleware rg)"

definition dispatch :: "string \<Rightarrow> string \<Rightarrow> string list \<Rightarrow> 'w registry \<Rightarrow> 'w \<Rightarrow> string \<times> 'w" where
  "dispatch category subcmd args rg w =
     (if map_of (rg_commands rg) category = None
      then (''[error] Unknown category '' @ [CHR 0x27] @ category @ [CHR 0x27] @ ''. Type '' @ [CHR 0x27] @ ''help'' @ [CHR 0x27] @ ''.'', w)
      else case find_command category subcmd rg of
             None \<Rightarrow>
               (''[error] Unknown sub-command '' @ [CHR 0x27] @ subcmd @ [CHR 0x27] @ '' in '' @ [CHR 0x27] @ category @ [CHR 0x27]
                @ ''. Available: '' @ available (commands_of category rg), w)
           | Some cmd \<Rightarrow>
               (case confirmation_refusal category subcmd cmd rg of
                  Some answer \<Rightarrow> (answer, w)
                | None \<Rightarrow>
                    let (outcome, w) = cm_handler cmd args w
                    in (run_middleware category subcmd args rg
                          (case outcome of
                             Returned s \<Rightarrow> s
                           | TimedOut e \<Rightarrow> ''[timeout] '' @ e
                           | Raised e \<Rightarrow> ''[error] '' @ category @ '' '' @ subcmd @ '': '' @ e), w)))"

text \<open>\<open>str.split()\<close>; the first argument is the word read so far.\<close>

fun split_words :: "string \<Rightarrow> string \<Rightarrow> string list" where
  "split_words word [] = (if word = [] then [] else [word])"
| "split_words word (c # s) =
     (if white c then (if word = [] then split_words [] s else word # split_words [] s)
      else split_words (word @ [c]) s)"

definition dispatch_interactive :: "string \<Rightarrow> 'w registry \<Rightarrow> 'w \<Rightarrow> string \<times> 'w" where
  "dispatch_interactive line rg w =
     (case split_words [] line of
        [] \<Rightarrow> ([], w)
      | part # rest \<Rightarrow>
          let token = str_lower part
          in case map_of (rg_aliases rg) token of
               Some (cat, sub) \<Rightarrow> dispatch cat sub rest rg w
             | None \<Rightarrow>
                 if find_command token [] rg \<noteq> None then dispatch token [] rest rg w
                 else let subcmd = (case rest of [] \<Rightarrow> [] | s # ss \<Rightarrow> str_lower s); args = drop 1 rest
                      in case map_of (rg_aliases rg) (str_strip (token @ '' '' @ subcmd)) of
                           Some (cat, sub) \<Rightarrow> dispatch cat sub args rg w
                         | None \<Rightarrow>
                             if subcmd = [] \<and> map_of (rg_commands rg) token \<noteq> None
                             then (''Sub-commands for '' @ [CHR 0x27] @ token @ [CHR 0x27] @ '': '' @ available (commands_of token rg), w)
                             else dispatch token subcmd args rg w)"

section \<open>Command-line mode\<close>

definition cli_exit_code :: "string \<Rightarrow> nat" where
  "cli_exit_code result =
     (if str_contains ''[cancelled]'' result then 4
      else if str_contains ''[error]'' result
      then if str_contains ''unavailable'' (str_lower result) \<or> str_contains ''not connected'' (str_lower result) then 3 else 1
      else 0)"

text \<open>The answer typed at the prompt is an argument; \<open>None\<close> is an end of input or an interrupt.\<close>

definition cli_confirm :: "string option \<Rightarrow> string \<Rightarrow> bool" where
  "cli_confirm answer label = (case answer of None \<Rightarrow> False | Some a \<Rightarrow> str_lower (str_strip a) = ''y'')"

definition run_cli :: "bool \<Rightarrow> string option \<Rightarrow> string \<Rightarrow> string \<Rightarrow> string list \<Rightarrow> 'w registry \<Rightarrow> 'w \<Rightarrow> nat \<times> 'w" where
  "run_cli yes answer category subcmd args rg w =
     (if category = [] then (2, w)
      else let (result, w) = dispatch category subcmd args
             (set_confirmation_handler (if yes then (\<lambda>label. True) else cli_confirm answer) rg) w
           in (cli_exit_code result, w))"

section \<open>Kill switch commands\<close>

text \<open>
  The world of the kill commands: whether Redis answers, whether writes and reads succeed after that, what is stored
  under the kill-switch key, and the audit table with the outcome of its statements.
\<close>

record kill_world =
  kw_ping :: bool
  kw_write_ok :: bool
  kw_read_ok :: bool
  kw_kill :: get_reply
  kw_db_ping :: bool
  kw_db_ok :: bool
  kw_table :: "audit_record list"
  kw_now :: string

text \<open>\<open>set_json\<close>, \<open>delete\<close> and \<open>get_json\<close> of the client: failures become \<open>False\<close> and \<open>None\<close>.\<close>

definition client_set :: "get_reply \<Rightarrow> kill_world \<Rightarrow> bool \<times> kill_world" where
  "client_set v w = (if kw_write_ok w then (True, w\<lparr>kw_kill := v\<rparr>) else (False, w))"

definition client_get_json :: "kill_world \<Rightarrow> (bool option \<times> string option) option" where
  "client_get_json w =
     (if \<not> kw_read_ok w then None
      else case kw_kill w of Payload active reason \<Rightarrow> Some (active, reason) | _ \<Rightarrow> None)"

definition persist_to_audit_log :: "string \<Rightarrow> string \<Rightarrow> kill_world \<Rightarrow> kill_world" where
  "persist_to_audit_log action details_json w =
     (if \<not> kw_db_ping w \<or> \<not> kw_db_ok w then w
      else let prev = (if kw_table w = [] then ''GENESIS'' else au_hash (last (kw_table w)))
           in w\<lparr>kw_table := kw_table w @
                  [\<lparr>au_service = ''console'', au_action = action, au_entity_type = Some ''kill_switch'', au_entity_id = None,
                    au_details = details_json, au_timestamp = kw_now w, au_prev_hash = prev,
                    au_hash = compute_audit_hash prev ''console'' action details_json (kw_now w)\<rparr>]\<rparr>)"

definition nl :: string where
  "nl = [CHR 0x0A]"

definition activation_message :: "string \<Rightarrow> string" where
  "activation_message reason =
     ''[error] KILL SWITCH ACTIVATED'' @ nl @ ''  Reason: '' @ reason @ nl
     @ ''  All trading halted. Positions will be closed.'' @ nl @ ''  Deactivate with: kill deactivate''"

text \<open>\<open>dumps reason\<close> is the JSON text of the details object with that reason.\<close>

definition kill_reason :: "string list \<Rightarrow> string" where
  "kill_reason args = (if args = [] then ''Manual activation from console'' else join '' '' args)"

definition kill_activate :: "(string \<Rightarrow> string) \<Rightarrow> kill_world handler" where
  "kill_activate dumps args w =
     (let reason = kill_reason args
      in if \<not> kw_ping w then (Returned ''[error] Redis not connected. Cannot activate kill switch.'', w)
         else let w = snd (client_set (Payload (Some True) (Some reason)) w)
              in (Returned (activation_message reason), persist_to_audit_log ''kill_switch_activated'' (dumps reason) w))"

definition kill_deactivate :: "kill_world handler" where
  "kill_deactivate args w =
     (if \<not> kw_ping w then (Returned ''[error] Redis not connected. Cannot deactivate kill switch.'', w)
      else let w = snd (client_set Missing w)
           in (Returned ''[success] Kill switch deactivated. Trading restored.'', persist_to_audit_log ''kill_switch_deactivated'' ''{}'' w))"

text \<open>The two further lines of the status, its time and auto-close flag, are an argument.\<close>

definition kill_status :: "string \<Rightarrow> kill_world handler" where
  "kill_status tail args w =
     (if \<not> kw_ping w then (Returned ''[warning] Redis not connected. Kill switch state unknown.'', w)
      else case client_get_json w of
             Some (Some True, reason) \<Rightarrow>
               (Returned (''[error] KILL SWITCH ACTIVE'' @ nl @ ''  Reason:       '' @ opt_get reason ''No reason provided'' @ nl @ tail), w)
           | _ \<Rightarrow> (Returned ''[success] Kill switch INACTIVE. Trading allowed.'', w))"

definition kill_command :: "kill_world handler \<Rightarrow> string \<Rightarrow> bool \<Rightarrow> bool \<Rightarrow> string list \<Rightarrow> kill_world command" where
  "kill_command h help_text confirm dangerous aliases =
     \<lparr>cm_handler = h, cm_help_text = help_text, cm_category = ''kill'', cm_aliases = aliases,
      cm_requires_confirmation = confirm, cm_dangerous = dangerous, cm_hidden = False, cm_timeout_sec = 60\<rparr>"

definition register_kill :: "(string \<Rightarrow> string) \<Rightarrow> string \<Rightarrow> kill_world registry \<Rightarrow> kill_world registry" where
  "register_kill dumps tail rg =
     register ''kill'' ''deactivate'' (kill_command kill_deactivate ''Deactivate kill switch'' True False [])
       (register ''kill'' ''activate'' (kill_command (kill_activate dumps) ''Activate kill switch (+ reason)'' True True [])
          (register ''kill'' ''status'' (kill_command (kill_status tail) ''Kill switch state'' False False [''k status'']) rg))"

section \<open>Properties of dispatch\<close>

lemma dispatch_effect:
  assumes "dispatch category subcmd args rg w = (out, w')" "w' \<noteq> w"
  shows "\<exists>cmd. find_command category subcmd rg = Some cmd \<and> confirmation_refusal category subcmd cmd rg = None \<and>
    w' = snd (cm_handler cmd args w)"
  using assms by (auto simp: dispatch_def split: if_splits option.splits prod.splits)

lemma dispatch_returns:
  assumes "map_of (rg_commands rg) category \<noteq> None" "find_command category subcmd rg = Some cmd"
    and "confirmation_refusal category subcmd cmd rg = None" "rg_middleware rg = []"
    and "cm_handler cmd args w = (Returned s, w')"
  shows "dispatch category subcmd args rg w = (s, w')"
  using assms by (auto simp: dispatch_def run_middleware_def)

text \<open>The lookup after a registration: the new command under its name, every other command unchanged.\<close>

lemma find_command_register:
  "find_command c n (register category name cmd rg) =
     (if c = category \<and> n = name then Some cmd else find_command c n rg)"
  by (auto simp: find_command_def commands_of_def register_def opt_get_def split: option.splits)

lemma commands_register:
  "map_of (rg_commands (register category name cmd rg)) c = None \<longleftrightarrow> c \<noteq> category \<and> map_of (rg_commands rg) c = None"
  by (auto simp: register_def)

lemma confirm_register [simp]: "rg_confirm_fn (register category name cmd rg) = rg_confirm_fn rg"
  by (simp add: register_def)

lemma find_kill_commands:
  "find_command ''kill'' ''activate'' (register_kill dumps tail rg) =
     Some (kill_command (kill_activate dumps) ''Activate kill switch (+ reason)'' True True [])"
  "find_command ''kill'' ''status'' (register_kill dumps tail rg) =
     Some (kill_command (kill_status tail) ''Kill switch state'' False False [''k status''])"
  "find_command ''kill'' ''deactivate'' (register_kill dumps tail rg) =
     Some (kill_command kill_deactivate ''Deactivate kill switch'' True False [])"
  by (simp_all add: register_kill_def find_command_register)

lemma kill_known: "map_of (rg_commands (register_kill dumps tail rg)) ''kill'' \<noteq> None"
  by (simp add: register_kill_def commands_register)

lemma confirm_register_kill [simp]: "rg_confirm_fn (register_kill dumps tail rg) = rg_confirm_fn rg"
  by (simp add: register_kill_def)

lemma kill_activate_written:
  assumes "kw_ping w" "kw_write_ok w"
  shows "kill_activate dumps args w =
    (Returned (activation_message (kill_reason args)),
     persist_to_audit_log ''kill_switch_activated'' (dumps (kill_reason args))
       (w\<lparr>kw_kill := Payload (Some True) (Some (kill_reason args))\<rparr>))"
  using assms by (simp add: kill_activate_def client_set_def Let_def)

definition confirmed_registry :: "(string \<Rightarrow> string) \<Rightarrow> string \<Rightarrow> kill_world registry" where
  "confirmed_registry dumps tail = set_confirmation_handler (\<lambda>label. True) (register_kill dumps tail new_registry)"

lemma confirmed_activation:
  assumes "kw_ping w" "kw_write_ok w"
  shows "dispatch ''kill'' ''activate'' args (confirmed_registry dumps tail) w =
    (activation_message (kill_reason args),
     persist_to_audit_log ''kill_switch_activated'' (dumps (kill_reason args))
       (w\<lparr>kw_kill := Payload (Some True) (Some (kill_reason args))\<rparr>))"
proof (rule dispatch_returns)
  show "map_of (rg_commands (confirmed_registry dumps tail)) ''kill'' \<noteq> None"
    using kill_known [of dumps tail new_registry] by (simp add: confirmed_registry_def set_confirmation_handler_def)
  show f: "find_command ''kill'' ''activate'' (confirmed_registry dumps tail) =
      Some (kill_command (kill_activate dumps) ''Activate kill switch (+ reason)'' True True [])"
    using find_kill_commands(1) [of dumps tail new_registry]
    by (simp add: confirmed_registry_def set_confirmation_handler_def find_command_def commands_of_def)
  show "confirmation_refusal ''kill'' ''activate''
      (kill_command (kill_activate dumps) ''Activate kill switch (+ reason)'' True True []) (confirmed_registry dumps tail) = None"
    by (simp add: confirmation_refusal_def confirmed_registry_def set_confirmation_handler_def)
  show "rg_middleware (confirmed_registry dumps tail) = []"
    by (simp add: confirmed_registry_def set_confirmation_handler_def register_kill_def register_def new_registry_def)
  show "cm_handler (kill_command (kill_activate dumps) ''Activate kill switch (+ reason)'' True True []) args w =
      (Returned (activation_message (kill_reason args)),
       persist_to_audit_log ''kill_switch_activated'' (dumps (kill_reason args))
         (w\<lparr>kw_kill := Payload (Some True) (Some (kill_reason args))\<rparr>))"
    using kill_activate_written [OF assms] by (simp add: kill_command_def)
qed

definition sample_world :: kill_world where
  "sample_world =
     \<lparr>kw_ping = True, kw_write_ok = True, kw_read_ok = True, kw_kill = Missing, kw_db_ping = False, kw_db_ok = False,
      kw_table = [], kw_now = ''2026-01-01T00:00:00+00:00''\<rparr>"

lemma sample_line: "split_words [] ''KILL activate now'' = [''KILL'', ''activate'', ''now'']"
  by (simp add: white_def)

lemma sample_aliases:
  "map_of (rg_aliases (confirmed_registry dumps tail)) = [''k status'' \<mapsto> (''kill'', ''status'')]"
  by (simp add: confirmed_registry_def set_confirmation_handler_def register_kill_def register_def kill_command_def new_registry_def)

lemma sample_kill_line:
  "\<exists>out. dispatch_interactive ''KILL activate now'' (confirmed_registry dumps tail) sample_world =
     (out, sample_world\<lparr>kw_kill := Payload (Some True) (Some ''now'')\<rparr>)"
proof -
  have low: "str_lower ''KILL'' = ''kill''" "str_lower ''activate'' = ''activate''"
    "str_strip (''kill'' @ '' '' @ ''activate'') = ''kill activate''"
    by (simp_all add: str_lower_def lower_char_def str_strip_def white_def)
  have none: "find_command ''kill'' [] (confirmed_registry dumps tail) = None"
    by (simp add: confirmed_registry_def set_confirmation_handler_def find_command_def commands_of_def register_kill_def
        register_def new_registry_def)
  have "dispatch_interactive ''KILL activate now'' (confirmed_registry dumps tail) sample_world =
      dispatch ''kill'' ''activate'' [''now''] (confirmed_registry dumps tail) sample_world"
    unfolding dispatch_interactive_def sample_line list.case Let_def low sample_aliases by (simp add: none)
  also have "\<dots> = (activation_message (kill_reason [''now'']),
      persist_to_audit_log ''kill_switch_activated'' (dumps (kill_reason [''now'']))
        (sample_world\<lparr>kw_kill := Payload (Some True) (Some (kill_reason [''now'']))\<rparr>))"
    by (rule confirmed_activation) (simp_all add: sample_world_def)
  finally show ?thesis by (simp add: persist_to_audit_log_def sample_world_def kill_reason_def join_def)
qed

text \<open>
  C24. The confirmation gate has no side door: whatever line is typed, by name, by alias or as a single word, if it changes
  anything then a registered handler ran, and a command that requires confirmation ran only after the operator's
  handler accepted its label.
\<close>

theorem confirmation_gate:
  assumes "dispatch_interactive line rg w = (out, w')" "w' \<noteq> w"
  shows "\<exists>category subcmd args cmd. find_command category subcmd rg = Some cmd \<and> w' = snd (cm_handler cmd args w) \<and>
    (cm_requires_confirmation cmd \<longrightarrow>
       (\<exists>f. rg_confirm_fn rg = Some f \<and> f (confirm_label category subcmd cmd)))"
proof -
  obtain category subcmd args where d: "dispatch category subcmd args rg w = (out, w')"
    using assms by (auto simp: dispatch_interactive_def Let_def split: list.splits option.splits if_splits)
  show ?thesis using dispatch_effect [OF d assms(2)]
    by (fastforce simp: confirmation_refusal_def split: if_splits option.splits)
qed

theorem confirmation_gate_witness:
  "\<exists>category subcmd args cmd. find_command category subcmd (confirmed_registry (\<lambda>r. ''{}'') []) = Some cmd \<and>
     sample_world\<lparr>kw_kill := Payload (Some True) (Some ''now'')\<rparr> = snd (cm_handler cmd args sample_world)"
proof -
  obtain out where out: "dispatch_interactive ''KILL activate now'' (confirmed_registry (\<lambda>r. ''{}'') []) sample_world =
      (out, sample_world\<lparr>kw_kill := Payload (Some True) (Some ''now'')\<rparr>)" using sample_kill_line by blast
  have "sample_world\<lparr>kw_kill := Payload (Some True) (Some ''now'')\<rparr> \<noteq> sample_world" by (simp add: sample_world_def)
  from confirmation_gate [OF out this] show ?thesis by blast
qed

section \<open>Properties of the kill commands\<close>

text \<open>
  The interactive console cannot trigger the kill switch: only the command-line mode installs a confirmation
  handler, so in the registry that the interactive modes boot both kill commands are refused and nothing changes.
\<close>

theorem interactive_console_cannot_kill:
  "let rg = register_kill dumps tail new_registry
   in dispatch ''kill'' ''activate'' args rg w =
        (''[error] kill activate requires confirmation but no confirmation handler is configured.'', w) \<and>
      dispatch ''kill'' ''deactivate'' args rg w =
        (''[error] kill deactivate requires confirmation but no confirmation handler is configured.'', w)"
  using kill_known [of dumps tail new_registry]
  by (simp add: Let_def dispatch_def find_kill_commands confirmation_refusal_def kill_command_def new_registry_def)

text \<open>
  C13. An activation confirmed on the command line stops the engine: after it, an engine that is connected to Redis and whose
  cached state has expired refuses to trade at its next check; the exit code of the successful activation nevertheless
  reports an error, since its message is tagged as one.
\<close>

theorem cli_activation_reaches_engine:
  assumes "kw_ping w" "kw_write_ok w" "ks_redis ks" "ks_cache_ttl ks \<le> flt_round (now - ks_cache_ts ks)"
  shows "case run_cli True None ''kill'' ''activate'' args (register_kill dumps tail new_registry) w of
      (code, w') \<Rightarrow> code \<noteq> 0 \<and> fst (check_or_raise now (kw_kill w') ks) = Inl RiskLimitExceededError"
proof -
  let ?w = "persist_to_audit_log ''kill_switch_activated'' (dumps (kill_reason args))
    (w\<lparr>kw_kill := Payload (Some True) (Some (kill_reason args))\<rparr>)"
  have "str_contains ''[error]'' (activation_message r)" for r
    by (simp add: activation_message_def str_starts_def)
  then have code: "cli_exit_code (activation_message r) \<noteq> 0" for r by (simp add: cli_exit_code_def)
  have "kw_kill ?w = Payload (Some True) (Some (kill_reason args))" by (simp add: persist_to_audit_log_def Let_def)
  then have "fst (check_or_raise now (kw_kill ?w) ks) = Inl RiskLimitExceededError"
    using assms(3,4) by (simp add: check_or_raise_def ks_is_active_def refresh_cache_def)
  then show ?thesis
    using code confirmed_activation [OF assms(1,2), of args dumps tail]
    by (simp add: run_cli_def confirmed_registry_def)
qed

theorem cli_activation_reaches_engine_witness:
  "case run_cli True None ''kill'' ''activate'' [''now''] (register_kill (\<lambda>r. ''{}'') [] new_registry) sample_world of
      (code, w') \<Rightarrow> code \<noteq> 0 \<and>
        fst (check_or_raise 10 (kw_kill w') ((new_kill_switch 5)\<lparr>ks_redis := True, ks_cached_active := False\<rparr>)) =
          Inl RiskLimitExceededError"
  by (rule cli_activation_reaches_engine)
    (simp_all add: sample_world_def new_kill_switch_def num_eval)

text \<open>
  The console misreports the switch: when the stored state is corrupt the engine fails closed while the status command
  answers that trading is allowed, and an activation whose write failed still answers that trading is halted.
\<close>

theorem console_misreports_switch:
  assumes "kw_ping w" "kw_kill w = CorruptJson" "ks_redis ks" "ks_cache_ttl ks \<le> flt_round (now - ks_cache_ts ks)"
  shows "fst (kill_status tail [] w) = Returned ''[success] Kill switch INACTIVE. Trading allowed.'' \<and>
    fst (check_or_raise now (kw_kill w) ks) = Inl RiskLimitExceededError \<and>
    fst (kill_activate dumps [reason] (w\<lparr>kw_write_ok := False, kw_kill := Missing\<rparr>)) = Returned (activation_message reason) \<and>
    kw_kill (snd (kill_activate dumps [reason] (w\<lparr>kw_write_ok := False, kw_kill := Missing\<rparr>))) = Missing"
  using assms
  by (simp add: kill_status_def client_get_json_def check_or_raise_def ks_is_active_def refresh_cache_def
      kill_activate_def client_set_def persist_to_audit_log_def join_def kill_reason_def Let_def)

theorem console_misreports_switch_witness:
  "fst (kill_status [] [] (sample_world\<lparr>kw_kill := CorruptJson\<rparr>)) = Returned ''[success] Kill switch INACTIVE. Trading allowed.'' \<and>
   fst (check_or_raise 10 CorruptJson ((new_kill_switch 5)\<lparr>ks_redis := True\<rparr>)) = Inl RiskLimitExceededError"
  using console_misreports_switch [of "sample_world\<lparr>kw_kill := CorruptJson\<rparr>" "(new_kill_switch 5)\<lparr>ks_redis := True\<rparr>" 10 "[]"]
  by (simp add: sample_world_def new_kill_switch_def num_eval)

section \<open>The console and the audit table\<close>

text \<open>The console continues the chain from the last row, so on its own it keeps the table intact.\<close>

lemma console_append_keeps_chain:
  "chain_ok ''GENESIS'' (kw_table w) \<Longrightarrow> chain_ok ''GENESIS'' (kw_table (persist_to_audit_log action details w))"
  by (simp add: persist_to_audit_log_def Let_def chain_ok_append chain_end_def sealed_def)

text \<open>A service links its rows to the hash it remembers: a console row in between breaks the chain of the table.\<close>

lemma console_breaks_service_chain:
  assumes "kw_db_ping w" "kw_db_ok w" "pt_last_hash t = chain_end ''GENESIS'' (kw_table w)" "0 < pt_max_buffer_size t"
    "pt_buffer t = []" "pt_pool t"
    and w': "w' = persist_to_audit_log action details w" "au_hash (last (kw_table w')) \<noteq> pt_last_hash t"
    and l: "log_async c True (t, kw_table w') = (Inr e, t', table')"
  shows "\<not> chain_ok ''GENESIS'' table'"
proof -
  have "table' = kw_table w' @ [make_entry (pt_service t) (pt_last_hash t) c]"
    using l assms(4-6) by (auto simp: log_async_def audit_log_def audit_persist_def Let_def)
  moreover have "kw_table w' \<noteq> []" using assms(1,2) by (simp add: w'(1) persist_to_audit_log_def Let_def)
  ultimately show ?thesis using w'(2) by (simp add: chain_ok_append sealed_make_entry chain_end_def)
qed

end
