(* ===== verification/Trailing_Stop.thy ===== *)
theory Trailing_Stop
  imports Market_Types
begin

text \<open>
  \<open>algo_engine/signals/trailing_stop.py\<close>: the four trailing modes of \<open>TrailingStopManager\<close> and
  the \<open>PositionTracker\<close> that applies them to every open symbol. The central lemma is the
  docstring's promise that a stop "only ever moves in the protective direction"; it holds for stops
  on the five-decimal grid that \<open>update\<close> itself produces, and fails for a finer initial stop.
\<close>

section \<open>State\<close>

datatype trailing_mode = ATR_TRAIL | CHANDELIER | BREAK_EVEN | PERCENTAGE

record trailing_state =
  ts_symbol :: string
  ts_direction :: string
  ts_entry_price :: decimal
  ts_current_stop :: decimal
  ts_highest_price :: decimal
  ts_lowest_price :: decimal
  ts_mode :: trailing_mode
  ts_is_break_even :: bool

record trailing_manager =
  tm_atr_mult :: decimal
  tm_chan_mult :: decimal
  tm_be_atr :: decimal
  tm_pct :: decimal

definition default_trailing_manager :: trailing_manager where
  "default_trailing_manager =
     \<lparr>tm_atr_mult = 25 / 10, tm_chan_mult = 3, tm_be_atr = 2, tm_pct = 15 / 10\<rparr>"

definition open_trailing :: "string \<Rightarrow> string \<Rightarrow> decimal \<Rightarrow> decimal \<Rightarrow> trailing_mode \<Rightarrow> trailing_state" where
  "open_trailing symbol dir entry_price initial_stop mode =
     \<lparr>ts_symbol = symbol, ts_direction = dir, ts_entry_price = entry_price,
      ts_current_stop = initial_stop, ts_highest_price = entry_price, ts_lowest_price = entry_price,
      ts_mode = mode, ts_is_break_even = False\<rparr>"

section \<open>Mode handlers\<close>

definition offset_trail :: "trailing_state \<Rightarrow> decimal \<Rightarrow> decimal \<Rightarrow> decimal \<Rightarrow> decimal" where
  "offset_trail st highest lowest offset =
     (if ts_direction st = ''BUY'' then max (dec_sub highest offset) (ts_current_stop st)
      else min (dec_add lowest offset) (ts_current_stop st))"

definition atr_trail :: "trailing_manager \<Rightarrow> trailing_state \<Rightarrow> decimal \<Rightarrow> decimal \<Rightarrow> decimal \<Rightarrow> decimal" where
  "atr_trail m st highest lowest atr = offset_trail st highest lowest (dec_mul (tm_atr_mult m) atr)"

definition chandelier :: "trailing_manager \<Rightarrow> trailing_state \<Rightarrow> decimal \<Rightarrow> decimal \<Rightarrow> decimal \<Rightarrow> decimal" where
  "chandelier m st highest lowest atr = offset_trail st highest lowest (dec_mul (tm_chan_mult m) atr)"

definition break_even ::
  "trailing_manager \<Rightarrow> trailing_state \<Rightarrow> decimal \<Rightarrow> decimal \<Rightarrow> decimal \<times> trailing_mode \<times> bool" where
  "break_even m st current_price atr =
     (let threshold = dec_mul (tm_be_atr m) atr;
          profit = (if ts_direction st = ''BUY'' then dec_sub current_price (ts_entry_price st)
                    else dec_sub (ts_entry_price st) current_price)
      in if \<not> ts_is_break_even st \<and> threshold < profit
         then (if ts_direction st = ''BUY'' then max (ts_entry_price st) (ts_current_stop st)
               else min (ts_entry_price st) (ts_current_stop st), ATR_TRAIL, True)
         else (ts_current_stop st, ts_mode st, ts_is_break_even st))"

definition percentage :: "trailing_manager \<Rightarrow> trailing_state \<Rightarrow> decimal \<Rightarrow> decimal \<Rightarrow> decimal" where
  "percentage m st highest lowest =
     (let factor = dec_div (tm_pct m) 100
      in if ts_direction st = ''BUY''
         then max (dec_mul highest (dec_sub 1 factor)) (ts_current_stop st)
         else min (dec_mul lowest (dec_add 1 factor)) (ts_current_stop st))"

text \<open>The stop, the mode and the break-even flag before the final quantisation.\<close>

definition trail_step ::
  "trailing_manager \<Rightarrow> trailing_state \<Rightarrow> decimal \<Rightarrow> decimal \<Rightarrow> decimal \<Rightarrow> decimal
     \<Rightarrow> decimal \<times> trailing_mode \<times> bool" where
  "trail_step m st current_price highest lowest atr =
     (case ts_mode st of
        ATR_TRAIL \<Rightarrow> (atr_trail m st highest lowest atr, ts_mode st, ts_is_break_even st)
      | CHANDELIER \<Rightarrow> (chandelier m st highest lowest atr, ts_mode st, ts_is_break_even st)
      | BREAK_EVEN \<Rightarrow> break_even m st current_price atr
      | PERCENTAGE \<Rightarrow> (percentage m st highest lowest, ts_mode st, ts_is_break_even st))"

definition trailing_update ::
  "trailing_manager \<Rightarrow> trailing_state \<Rightarrow> decimal \<Rightarrow> decimal \<Rightarrow> decimal \<Rightarrow> decimal \<Rightarrow> trailing_state result" where
  "trailing_update m st current_price current_high current_low atr =
     (let highest = max (ts_highest_price st) current_high;
          lowest = min (ts_lowest_price st) current_low
      in case trail_step m st current_price highest lowest atr of
           (new_stop, mode, is_be) \<Rightarrow>
             rbind (quantize 5 new_stop) (\<lambda>new_stop.
               Inr (st\<lparr>ts_current_stop := new_stop, ts_highest_price := highest,
                       ts_lowest_price := lowest, ts_mode := mode, ts_is_break_even := is_be\<rparr>)))"

definition is_stopped_out :: "trailing_state \<Rightarrow> decimal \<Rightarrow> bool" where
  "is_stopped_out st current_price =
     (if ts_direction st = ''BUY'' then current_price \<le> ts_current_stop st
      else ts_current_stop st \<le> current_price)"

section \<open>Position tracker\<close>

record trail_bar =
  tb_price :: decimal
  tb_high :: decimal
  tb_low :: decimal
  tb_atr :: decimal

text \<open>
  \<open>_positions\<close> is an insertion-ordered dictionary from symbol to state.
\<close>

type_synonym tracked = "(string \<times> trailing_state) list"

definition tracker_open ::
  "tracked \<Rightarrow> string \<Rightarrow> string \<Rightarrow> decimal \<Rightarrow> decimal \<Rightarrow> trailing_mode \<Rightarrow> tracked" where
  "tracker_open ps symbol dir entry_price initial_stop mode =
     dict_set symbol (open_trailing symbol dir entry_price initial_stop mode) ps"

definition tracker_close :: "tracked \<Rightarrow> string \<Rightarrow> tracked" where
  "tracker_close ps symbol = dict_del symbol ps"

definition tracker_get :: "tracked \<Rightarrow> string \<Rightarrow> trailing_state option" where
  "tracker_get ps symbol = map_of ps symbol"

text \<open>
  \<open>update_all\<close> walks a snapshot of the items. An exception leaves the updates made so far in
  place, so the new positions are returned in every case.
\<close>

fun update_all_loop ::
  "trailing_manager \<Rightarrow> (string \<rightharpoonup> trail_bar) \<Rightarrow> (string \<times> trailing_state) list \<Rightarrow> tracked \<Rightarrow> string list
     \<Rightarrow> tracked \<times> string list result" where
  "update_all_loop m bars [] ps stopped = (ps, Inr stopped)"
| "update_all_loop m bars ((symbol, st) # items) ps stopped =
     (case bars symbol of
        None \<Rightarrow> update_all_loop m bars items ps stopped
      | Some bar \<Rightarrow>
          (case trailing_update m st (tb_price bar) (tb_high bar) (tb_low bar) (tb_atr bar) of
             Inl e \<Rightarrow> (ps, Inl e)
           | Inr st' \<Rightarrow>
               update_all_loop m bars items (dict_set symbol st' ps)
                 (if is_stopped_out st' (tb_price bar) then stopped @ [symbol] else stopped)))"

definition update_all ::
  "trailing_manager \<Rightarrow> tracked \<Rightarrow> (string \<rightharpoonup> trail_bar) \<Rightarrow> tracked \<times> string list result" where
  "update_all m ps bars = update_all_loop m bars ps ps []"

section \<open>Lemmas: the ratchet\<close>

text \<open>\<open>tighter\<close> compares two stops of a position: up for BUY, down for SELL.\<close>

definition tighter :: "string \<Rightarrow> decimal \<Rightarrow> decimal \<Rightarrow> bool" where
  "tighter dir old new = (if dir = ''BUY'' then old \<le> new else new \<le> old)"

lemma tighter_refl [simp]: "tighter dir s s"
  by (simp add: tighter_def)

lemma tighter_trans: "tighter dir a b \<Longrightarrow> tighter dir b c \<Longrightarrow> tighter dir a c"
  by (auto simp: tighter_def split: if_splits)

lemma trail_step_tighter:
  "tighter (ts_direction st) (ts_current_stop st) (fst (trail_step m st price highest lowest atr))"
  by (auto simp: trail_step_def tighter_def atr_trail_def chandelier_def offset_trail_def break_even_def
      percentage_def Let_def split: trailing_mode.split)

lemma quantize_tighter:
  assumes "quantize n new = Inr q" "on_grid n old" "tighter dir old new"
  shows "tighter dir old q"
  using assms quantize_ge quantize_le by (auto simp: tighter_def split: if_splits)

lemma trailing_update_direction [simp]:
  "trailing_update m st p h l a = Inr st' \<Longrightarrow> ts_direction st' = ts_direction st"
  by (auto simp: trailing_update_def Let_def split: prod.splits)

lemma trailing_update_frame:
  assumes "trailing_update m st p h l a = Inr st'"
  shows "ts_symbol st' = ts_symbol st" "ts_entry_price st' = ts_entry_price st"
    "ts_highest_price st' = max (ts_highest_price st) h" "ts_lowest_price st' = min (ts_lowest_price st) l"
  using assms by (auto simp: trailing_update_def Let_def split: prod.splits)

lemma trailing_update_grid:
  "trailing_update m st p h l a = Inr st' \<Longrightarrow> on_grid 5 (ts_current_stop st')"
  by (auto simp: trailing_update_def Let_def intro: quantize_grid split: prod.splits)

lemma trailing_update_tighter:
  assumes "trailing_update m st p h l a = Inr st'" "on_grid 5 (ts_current_stop st)"
  shows "tighter (ts_direction st) (ts_current_stop st) (ts_current_stop st')"
proof -
  let ?t = "trail_step m st p (max (ts_highest_price st) h) (min (ts_lowest_price st) l) a"
  have "quantize 5 (fst ?t) = Inr (ts_current_stop st')"
    using assms(1) by (auto simp: trailing_update_def Let_def split: prod.splits)
  then show ?thesis using quantize_tighter assms(2) trail_step_tighter by blast
qed

text \<open>A whole price path: the stop after any number of updates.\<close>

fun trail_path :: "trailing_manager \<Rightarrow> trailing_state \<Rightarrow> trail_bar list \<Rightarrow> trailing_state result" where
  "trail_path m st [] = Inr st"
| "trail_path m st (b # bs) =
     rbind (trailing_update m st (tb_price b) (tb_high b) (tb_low b) (tb_atr b)) (\<lambda>st'. trail_path m st' bs)"

lemma trail_path_tighter:
  assumes "trail_path m st bs = Inr st'" "on_grid 5 (ts_current_stop st)"
  shows "tighter (ts_direction st) (ts_current_stop st) (ts_current_stop st') \<and>
    on_grid 5 (ts_current_stop st') \<and> ts_direction st' = ts_direction st"
  using assms
proof (induction bs arbitrary: st)
  case Nil
  then show ?case by simp
next
  case (Cons b bs)
  then obtain s1 where s1: "trailing_update m st (tb_price b) (tb_high b) (tb_low b) (tb_atr b) = Inr s1"
    and rest: "trail_path m s1 bs = Inr st'" by auto
  have "tighter (ts_direction st) (ts_current_stop st) (ts_current_stop s1)"
    using trailing_update_tighter [OF s1 Cons.prems(2)] .
  with Cons.IH [OF rest trailing_update_grid [OF s1]] s1 show ?case
    by (auto intro: tighter_trans)
qed

section \<open>Lemmas: the tracker\<close>

lemma tracker_get_open: "tracker_get (tracker_open ps s d e i mo) s = Some (open_trailing s d e i mo)"
  by (simp add: tracker_get_def tracker_open_def)

lemma tracker_get_close: "tracker_get (tracker_close ps s) t = (if t = s then None else tracker_get ps t)"
  by (simp add: tracker_get_def tracker_close_def)

text \<open>
  What \<open>update_all\<close> does when no update raises: each tracked symbol with a bar gets exactly its
  own update, the others keep their state, and the stopped symbols are reported in tracking order.
\<close>

definition bar_update :: "trailing_manager \<Rightarrow> (string \<rightharpoonup> trail_bar) \<Rightarrow> string \<Rightarrow> trailing_state \<Rightarrow> trailing_state result" where
  "bar_update m bars symbol st =
     (case bars symbol of None \<Rightarrow> Inr st
      | Some b \<Rightarrow> trailing_update m st (tb_price b) (tb_high b) (tb_low b) (tb_atr b))"

definition hit_by :: "(string \<rightharpoonup> trail_bar) \<Rightarrow> string \<times> trailing_state \<Rightarrow> bool" where
  "hit_by bars p = (case bars (fst p) of None \<Rightarrow> False | Some b \<Rightarrow> is_stopped_out (snd p) (tb_price b))"

lemma update_all_loop_spec:
  assumes "update_all_loop m bars items ps stopped = (ps', Inr out)" "distinct (map fst items)"
  shows "(\<forall>s. s \<notin> fst ` set items \<longrightarrow> map_of ps' s = map_of ps s) \<and>
    (\<forall>(s, st) \<in> set items. \<exists>st'. bar_update m bars s st = Inr st' \<and>
        (map_of ps' s = (if bars s = None then map_of ps s else Some st'))) \<and>
    out = stopped @ map fst (filter (hit_by bars)
      (map (\<lambda>(s, st). (s, projr (bar_update m bars s st))) items))"
  using assms
proof (induction m bars items ps stopped rule: update_all_loop.induct)
  case (1 m bars ps stopped)
  then show ?case by simp
next
  case (2 m bars symbol st items ps stopped)
  show ?case
  proof (cases "bars symbol")
    case None
    then show ?thesis using 2 by (auto simp: bar_update_def hit_by_def)
  next
    case (Some b)
    then obtain st' where st': "trailing_update m st (tb_price b) (tb_high b) (tb_low b) (tb_atr b) = Inr st'"
      using "2.prems"(1) by (auto split: sum.splits)
    let ?s = "if is_stopped_out st' (tb_price b) then stopped @ [symbol] else stopped"
    have run: "update_all_loop m bars items (dict_set symbol st' ps) ?s = (ps', Inr out)"
      using "2.prems"(1) Some st' by simp
    have bu: "bar_update m bars symbol st = Inr st'" using Some st' by (simp add: bar_update_def)
    have nin: "symbol \<notin> fst ` set items" using "2.prems"(2) by simp
    note IH = "2.IH"(2) [OF Some st' run] 
    show ?thesis using IH "2.prems"(2) nin bu Some
      by (force simp: hit_by_def)
  qed
qed

section \<open>Lemmas: updates return\<close>

text \<open>
  Magnitudes for which the final \<open>quantize\<close> cannot overflow its 28 digits: prices up to
  \<open>10^9\<close> and manager parameters up to \<open>1000\<close>.
\<close>

definition manager_ok :: "trailing_manager \<Rightarrow> bool" where
  "manager_ok m \<longleftrightarrow> \<bar>tm_atr_mult m\<bar> \<le> 1000 \<and> \<bar>tm_chan_mult m\<bar> \<le> 1000 \<and> \<bar>tm_pct m\<bar> \<le> 1000"

definition bar_ok :: "trail_bar \<Rightarrow> bool" where
  "bar_ok b \<longleftrightarrow> \<bar>tb_high b\<bar> \<le> 10 ^ 9 \<and> \<bar>tb_low b\<bar> \<le> 10 ^ 9 \<and> \<bar>tb_atr b\<bar> \<le> 10 ^ 9"

definition state_ok :: "trailing_state \<Rightarrow> bool" where
  "state_ok st \<longleftrightarrow> \<bar>ts_entry_price st\<bar> \<le> 10 ^ 9 \<and> \<bar>ts_highest_price st\<bar> \<le> 10 ^ 9 \<and>
     \<bar>ts_lowest_price st\<bar> \<le> 10 ^ 9 \<and> \<bar>ts_current_stop st\<bar> \<le> 10 ^ 13 \<and> on_grid 5 (ts_current_stop st)"

lemma dec_op_bounds:
  "\<bar>x * y\<bar> \<le> c \<Longrightarrow> dec_round c = c \<Longrightarrow> \<bar>dec_mul x y\<bar> \<le> c"
  "\<bar>x + y\<bar> \<le> c \<Longrightarrow> dec_round c = c \<Longrightarrow> \<bar>dec_add x y\<bar> \<le> c"
  "\<bar>x - y\<bar> \<le> c \<Longrightarrow> dec_round c = c \<Longrightarrow> \<bar>dec_sub x y\<bar> \<le> c"
  "\<bar>x / y\<bar> \<le> c \<Longrightarrow> dec_round c = c \<Longrightarrow> \<bar>dec_div x y\<bar> \<le> c"
  by (simp_all add: dec_ops dec.rnd_abs_le)

lemma abs_mult_le: "\<bar>x\<bar> \<le> a \<Longrightarrow> \<bar>y\<bar> \<le> b \<Longrightarrow> \<bar>x * y\<bar> \<le> (a * b :: rat)"
  unfolding abs_mult by (intro mult_mono) auto

lemma offset_trail_bound:
  assumes "\<bar>h\<bar> \<le> 10 ^ 9" "\<bar>l\<bar> \<le> 10 ^ 9" "\<bar>ts_current_stop st\<bar> \<le> 10 ^ 13" "\<bar>mult\<bar> \<le> 1000" "\<bar>a\<bar> \<le> 10 ^ 9"
  shows "\<bar>offset_trail st h l (dec_mul mult a)\<bar> \<le> 10 ^ 13"
proof -
  have "\<bar>mult * a\<bar> \<le> 10 ^ 12" using abs_mult_le [OF assms(4,5)] by simp
  then have off: "\<bar>dec_mul mult a\<bar> \<le> 10 ^ 12" by (rule dec_op_bounds) (simp add: num_eval)
  have "\<bar>dec_sub h (dec_mul mult a)\<bar> \<le> 10 ^ 13" "\<bar>dec_add l (dec_mul mult a)\<bar> \<le> 10 ^ 13"
    by (rule dec_op_bounds; use off assms in \<open>simp add: num_eval abs_le_iff\<close>)+
  then show ?thesis using assms(3) by (auto simp: offset_trail_def max_def min_def)
qed

lemma percentage_bound:
  assumes "\<bar>h\<bar> \<le> 10 ^ 9" "\<bar>l\<bar> \<le> 10 ^ 9" "\<bar>ts_current_stop st\<bar> \<le> 10 ^ 13" "\<bar>tm_pct m\<bar> \<le> 1000"
  shows "\<bar>percentage m st h l\<bar> \<le> 10 ^ 13"
proof -
  let ?f = "dec_div (tm_pct m) 100"
  have f: "\<bar>?f\<bar> \<le> 10" by (rule dec_op_bounds) (use assms in \<open>simp_all add: num_eval abs_le_iff\<close>)
  have "\<bar>dec_sub 1 ?f\<bar> \<le> 11" "\<bar>dec_add 1 ?f\<bar> \<le> 11"
    by (rule dec_op_bounds; use f in \<open>simp add: num_eval abs_le_iff\<close>)+
  then have "\<bar>h * dec_sub 1 ?f\<bar> \<le> 10 ^ 13" "\<bar>l * dec_add 1 ?f\<bar> \<le> 10 ^ 13"
    using abs_mult_le [OF assms(1)] abs_mult_le [OF assms(2)] by fastforce+
  then have "\<bar>dec_mul h (dec_sub 1 ?f)\<bar> \<le> 10 ^ 13" "\<bar>dec_mul l (dec_add 1 ?f)\<bar> \<le> 10 ^ 13"
    by (simp_all add: dec_op_bounds num_eval)
  then show ?thesis using assms(3) by (auto simp: percentage_def Let_def max_def min_def)
qed

lemma trailing_update_returns:
  assumes "manager_ok m" "bar_ok b" "state_ok st"
  shows "\<exists>st'. trailing_update m st (tb_price b) (tb_high b) (tb_low b) (tb_atr b) = Inr st' \<and> state_ok st'"
proof -
  let ?h = "max (ts_highest_price st) (tb_high b)" and ?l = "min (ts_lowest_price st) (tb_low b)"
  have hl: "\<bar>?h\<bar> \<le> 10 ^ 9" "\<bar>?l\<bar> \<le> 10 ^ 9" using assms by (auto simp: bar_ok_def state_ok_def max_def min_def)
  obtain x mode be where t: "trail_step m st (tb_price b) ?h ?l (tb_atr b) = (x, mode, be)"
    by (cases "trail_step m st (tb_price b) ?h ?l (tb_atr b)")
  have st: "\<bar>ts_current_stop st\<bar> \<le> 10 ^ 13" and a: "\<bar>tb_atr b\<bar> \<le> 10 ^ 9"
    using assms by (simp_all add: state_ok_def bar_ok_def)
  have x: "\<bar>x\<bar> \<le> 10 ^ 13"
  proof (cases "ts_mode st")
    case ATR_TRAIL
    then have "x = offset_trail st ?h ?l (dec_mul (tm_atr_mult m) (tb_atr b))"
      using t by (simp add: trail_step_def atr_trail_def)
    then show ?thesis using offset_trail_bound [OF hl st _ a] assms(1) by (simp only: manager_ok_def)
  next
    case CHANDELIER
    then have "x = offset_trail st ?h ?l (dec_mul (tm_chan_mult m) (tb_atr b))"
      using t by (simp add: trail_step_def chandelier_def)
    then show ?thesis using offset_trail_bound [OF hl st _ a] assms(1) by (simp only: manager_ok_def)
  next
    case BREAK_EVEN
    then show ?thesis using t assms
      by (auto simp: trail_step_def break_even_def state_ok_def Let_def max_def min_def split: if_splits)
  next
    case PERCENTAGE
    then have "x = percentage m st ?h ?l" using t by (simp add: trail_step_def)
    then show ?thesis using percentage_bound [OF hl st] assms(1) by (simp only: manager_ok_def)
  qed
  then obtain q where q: "quantize 5 x = Inr q" using quantize_defined [of x 5] by auto
  have x': "x \<le> 10 ^ 13" "- (10 ^ 13) \<le> x" using x by linarith+
  have "q \<le> 10 ^ 13" by (rule quantize_le [OF q _ x'(1)]) (simp add: on_gridI [of _ _ "10 ^ 18"])
  moreover have "- (10 ^ 13) \<le> q" by (rule quantize_ge [OF q _ x'(2)]) (simp add: on_gridI [of _ _ "- (10 ^ 18)"])
  ultimately have "\<bar>q\<bar> \<le> 10 ^ 13" by linarith
  then show ?thesis using t q hl assms(3) quantize_grid [OF q]
    by (auto simp: trailing_update_def state_ok_def Let_def)
qed

lemma trail_path_returns:
  assumes "manager_ok m" "\<forall>b \<in> set bs. bar_ok b" "state_ok st"
  shows "\<exists>st'. trail_path m st bs = Inr st'"
  using assms(2,3)
proof (induction bs arbitrary: st)
  case Nil
  then show ?case by simp
next
  case (Cons b bs)
  then show ?case using trailing_update_returns [OF assms(1), of b st] by fastforce
qed

lemma trail_path_ok:
  assumes "manager_ok m" "\<forall>b \<in> set bs. bar_ok b" "state_ok st" "trail_path m st bs = Inr st'"
  shows "state_ok st'"
  using assms(2-4)
proof (induction bs arbitrary: st)
  case Nil
  then show ?case by simp
next
  case (Cons b bs)
  then obtain s1 where "trailing_update m st (tb_price b) (tb_high b) (tb_low b) (tb_atr b) = Inr s1" "state_ok s1"
    using trailing_update_returns [OF assms(1), of b st] by auto
  then show ?case using Cons by auto
qed

section \<open>Properties\<close>

text \<open>
  C20. The ratchet: on any sequence of bars and in any of the four modes, every update returns
  and the stop of a position only moves in the protective direction (up for BUY, down
  otherwise), for an initial stop with at most five decimals.
\<close>

theorem trailing_stop_never_loosens:
  assumes "manager_ok m" "state_ok st" "\<forall>b \<in> set (bs @ bs'). bar_ok b"
  shows "\<exists>mid fin. trail_path m st bs = Inr mid \<and> trail_path m mid bs' = Inr fin \<and>
     tighter (ts_direction st) (ts_current_stop st) (ts_current_stop mid) \<and>
     tighter (ts_direction st) (ts_current_stop mid) (ts_current_stop fin)"
proof -
  obtain mid where mid: "trail_path m st bs = Inr mid" using trail_path_returns assms by (metis set_append UnI1)
  have ok: "state_ok mid" using trail_path_ok [OF assms(1) _ assms(2) mid] assms(3) by auto
  then obtain fin where fin: "trail_path m mid bs' = Inr fin" using trail_path_returns assms by (metis set_append UnI2)
  show ?thesis using mid fin trail_path_tighter [OF mid] trail_path_tighter [OF fin] assms(2) ok
    by (auto simp: state_ok_def)
qed

theorem trailing_stop_never_loosens_witness:
  "let st = open_trailing ''EURUSD'' ''BUY'' (11 / 10) (109 / 100) ATR_TRAIL;
       up = \<lparr>tb_price = 112 / 100, tb_high = 112 / 100, tb_low = 111 / 100, tb_atr = 4 / 1000\<rparr>;
       down = \<lparr>tb_price = 111 / 100, tb_high = 112 / 100, tb_low = 110 / 100, tb_atr = 9 / 1000\<rparr>
   in \<exists>mid fin. trail_path default_trailing_manager st [up] = Inr mid \<and>
        trail_path default_trailing_manager mid [down] = Inr fin \<and>
        tighter ''BUY'' (109 / 100) (ts_current_stop mid) \<and>
        tighter ''BUY'' (ts_current_stop mid) (ts_current_stop fin)"
  using trailing_stop_never_loosens [of default_trailing_manager
      "open_trailing ''EURUSD'' ''BUY'' (11 / 10) (109 / 100) ATR_TRAIL"
      "[\<lparr>tb_price = 112 / 100, tb_high = 112 / 100, tb_low = 111 / 100, tb_atr = 4 / 1000\<rparr>]"
      "[\<lparr>tb_price = 111 / 100, tb_high = 112 / 100, tb_low = 110 / 100, tb_atr = 9 / 1000\<rparr>]"]
  by (simp add: manager_ok_def state_ok_def bar_ok_def default_trailing_manager_def open_trailing_def
      on_gridI [of _ _ 109000])

text \<open>
  The five-decimal hypothesis is needed: a BUY stop of 1.000004 is moved down to 1.00000 by
  an update in which the trailing level itself did not move, because the result is quantised to
  five places with ROUND_HALF_EVEN after the ratchet.
\<close>

theorem trailing_stop_quantize_loosens:
  "\<exists>st'. trailing_update default_trailing_manager
       (open_trailing ''EURUSD'' ''BUY'' 1 (1000004 / 1000000) ATR_TRAIL) 1 1 1 1 = Inr st' \<and>
     ts_current_stop st' = 1 \<and> \<not> tighter ''BUY'' (1000004 / 1000000) (ts_current_stop st')"
  by (simp add: trailing_update_def trail_step_def atr_trail_def offset_trail_def open_trailing_def
      default_trailing_manager_def tighter_def quantize_def dec_ops num_eval Let_def)

text \<open>
  \<open>update_all\<close>, when no update raises, gives every tracked symbol that has a bar exactly its
  own update, leaves every other symbol alone, and reports exactly the symbols whose updated stop
  is crossed by their price, in tracking order.
\<close>

theorem update_all_spec:
  assumes "update_all m ps bars = (ps', Inr out)" "distinct (map fst ps)"
  shows "(\<forall>s. tracker_get ps' s =
             (case tracker_get ps s of None \<Rightarrow> None | Some st \<Rightarrow> Some (projr (bar_update m bars s st)))) \<and>
         out = map fst (filter (hit_by bars) (map (\<lambda>(s, st). (s, projr (bar_update m bars s st))) ps))"
proof -
  note L = update_all_loop_spec [OF assms(1) [unfolded update_all_def] assms(2)]
  have "tracker_get ps' s =
     (case tracker_get ps s of None \<Rightarrow> None | Some st \<Rightarrow> Some (projr (bar_update m bars s st)))" for s
  proof (cases "map_of ps s")
    case None
    then have "s \<notin> fst ` set ps" by (simp add: map_of_eq_None_iff)
    with L None show ?thesis by (simp add: tracker_get_def)
  next
    case (Some st)
    then have "(s, st) \<in> set ps" by (rule map_of_SomeD)
    with L Some show ?thesis by (fastforce simp: tracker_get_def bar_update_def split: option.splits)
  qed
  then show ?thesis using L by simp
qed

theorem update_all_spec_witness:
  "let ps = tracker_open (tracker_open [] ''EURUSD'' ''BUY'' 1 (99 / 100) ATR_TRAIL) ''XAUUSD'' ''SELL'' 2000 2010 CHANDELIER;
       bars = [''EURUSD'' \<mapsto> \<lparr>tb_price = 98 / 100, tb_high = 1, tb_low = 98 / 100, tb_atr = 1 / 100\<rparr>]
   in (\<forall>s. tracker_get (fst (update_all default_trailing_manager ps bars)) s =
        (case tracker_get ps s of None \<Rightarrow> None
         | Some st \<Rightarrow> Some (projr (bar_update default_trailing_manager bars s st)))) \<and>
      snd (update_all default_trailing_manager ps bars) = Inr [''EURUSD'']"
proof -
  let ?ps = "tracker_open (tracker_open [] ''EURUSD'' ''BUY'' 1 (99 / 100) ATR_TRAIL) ''XAUUSD'' ''SELL'' 2000 2010 CHANDELIER"
  let ?bars = "[''EURUSD'' \<mapsto> \<lparr>tb_price = 98 / 100, tb_high = 1, tb_low = 98 / 100, tb_atr = 1 / 100\<rparr>]"
  have out: "snd (update_all default_trailing_manager ?ps ?bars) = Inr [''EURUSD'']"
    by (simp add: update_all_def tracker_open_def open_trailing_def trailing_update_def trail_step_def
        atr_trail_def offset_trail_def default_trailing_manager_def is_stopped_out_def quantize_def dec_ops
        num_eval Let_def)
  have "distinct (map fst ?ps)" by (simp add: tracker_open_def)
  then show ?thesis
    using update_all_spec [of default_trailing_manager ?ps ?bars
        "fst (update_all default_trailing_manager ?ps ?bars)" "[''EURUSD'']"] out
    unfolding Let_def by (simp add: prod_eq_iff)
qed

end
