(* ===== verification/Factor_Strategies.thy ===== *)
theory Factor_Strategies
  imports Strategies Feature_Pipeline
begin

text \<open>
  The strategies that read more of the dictionary: \<open>strategies/multi_factor.py\<close>,
  \<open>strategies/adaptive_trend.py\<close> and \<open>strategies/ou_mean_reversion.py\<close> with the signal half of
  \<open>math/ou_process.py\<close>. The regression inside \<open>OrnsteinUhlenbeck.fit\<close> is numpy's and enters as a
  parameter; \<open>Decimal(str(x))\<close> of a \<open>Decimal\<close> is the value itself.
\<close>

section \<open>MultiFactorStrategy\<close>

record factor_weights =
  w_momentum :: decimal
  w_mean_reversion :: decimal
  w_trend :: decimal
  w_volume :: decimal
  w_mtf :: decimal

definition default_weights :: factor_weights where
  "default_weights =
     \<lparr>w_momentum = 30 / 100, w_mean_reversion = 20 / 100, w_trend = 20 / 100, w_volume = 15 / 100, w_mtf = 15 / 100\<rparr>"

definition mean_score :: "decimal list \<Rightarrow> decimal" where
  "mean_score scores = (if scores = [] then 0 else dec_div (dec_sum scores) (of_nat (length scores)))"

definition opt_score :: "decimal option \<Rightarrow> (decimal \<Rightarrow> decimal) \<Rightarrow> decimal list" where
  "opt_score x f = (case x of None \<Rightarrow> [] | Some v \<Rightarrow> [f v])"

definition rsi_bias :: "decimal \<Rightarrow> decimal" where
  "rsi_bias rsi = (if 70 < rsi then - (5 / 10) else if rsi < 30 then 5 / 10 else dec_div (dec_sub rsi 50) 50)"

definition macd_bias :: "decimal option \<Rightarrow> decimal \<Rightarrow> decimal" where
  "macd_bias atr macd_hist =
     (let magnitude = (case atr of
            Some a \<Rightarrow> if 0 < a then min (dec_div (dec_abs macd_hist) a) 1 else min (dec_abs macd_hist) 1
          | None \<Rightarrow> min (dec_abs macd_hist) 1)
      in dec_mul (if 0 \<le> macd_hist then 1 else - 1) magnitude)"

definition momentum_factor :: "features \<Rightarrow> decimal" where
  "momentum_factor f =
     mean_score (opt_score (f ''roc'') (\<lambda>roc. clamp (- 1) 1 (dec_div roc 5)) @
                 opt_score (f ''rsi'') rsi_bias @
                 opt_score (f ''macd_histogram'') (macd_bias (f ''atr'')))"

definition band_bias :: "decimal \<Rightarrow> decimal" where
  "band_bias pct_b =
     (if pct_b < 2 / 10 then dec_mul (dec_sub (2 / 10) pct_b) 5
      else if 8 / 10 < pct_b then dec_neg (dec_mul (dec_sub pct_b (8 / 10)) 5) else 0)"

definition stoch_bias :: "decimal \<Rightarrow> decimal" where
  "stoch_bias k = (if k < 20 then 1 else if 80 < k then - 1 else dec_div (dec_sub 50 k) 50)"

definition williams_bias :: "decimal \<Rightarrow> decimal" where
  "williams_bias w = (if - 20 < w then - 1 else if w < - 80 then 1 else 0)"

definition mean_reversion_factor :: "features \<Rightarrow> decimal" where
  "mean_reversion_factor f =
     mean_score (opt_score (f ''bb_pct_b'') band_bias @ opt_score (f ''stoch_k'') stoch_bias @
                 opt_score (f ''williams_r'') williams_bias @
                 opt_score (f ''ou_s_score'') (\<lambda>s. clamp (- 1) 1 (dec_div (dec_neg s) 2)))"

definition trend_sign :: "string \<Rightarrow> decimal" where
  "trend_sign t = (if t = ''bullish'' then 1 else if t = ''bearish'' then - 1 else 0)"

definition trend_factor :: "fdict \<Rightarrow> decimal" where
  "trend_factor fd =
     (let f = fd_num fd
      in mean_score
           ((case fd_str fd ''ema_trend'' of None \<Rightarrow> [] | Some t \<Rightarrow> [trend_sign t]) @
            (case (f ''adx'', f ''plus_di'', f ''minus_di'') of
               (Some adx, Some plus_di, Some minus_di) \<Rightarrow>
                 [dec_mul (if minus_di < plus_di then 5 / 10 else - (5 / 10)) (min (dec_div adx 50) 1)]
             | _ \<Rightarrow> []) @
            (case (f ''latest_close'', f ''sma_200'') of
               (Some close, Some sma_200) \<Rightarrow>
                 if 0 < sma_200 then [clamp (- 1) 1 (dec_div (dec_sub close sma_200) sma_200)] else []
             | _ \<Rightarrow> [])))"

definition volume_factor :: "features \<Rightarrow> decimal \<Rightarrow> decimal" where
  "volume_factor f other_sign =
     (case f ''volume_ratio'' of
        None \<Rightarrow> 0
      | Some v \<Rightarrow> if 15 / 10 < v then if 0 < other_sign then 1 else if other_sign < 0 then - 1 else 0 else 0)"

definition mtf_vote :: "decimal \<Rightarrow> string \<Rightarrow> decimal list" where
  "mtf_vote primary t =
     (let d = trend_sign t
      in if 0 < primary \<and> 0 < d \<or> primary < 0 \<and> d < 0 then [1] else if d \<noteq> 0 then [- 1] else [])"

definition mtf_factor :: "fdict \<Rightarrow> decimal \<Rightarrow> decimal" where
  "mtf_factor fd primary =
     mean_score (concat (map (\<lambda>k. case fd_str fd k of None \<Rightarrow> [] | Some t \<Rightarrow> mtf_vote primary t)
                           [''mtf_h1_trend'', ''mtf_m15_trend'']) @
                 opt_score (fd_num fd ''mtf_conflict_score'') (\<lambda>c. clamp (- 1) 1 (dec_neg c)))"

definition directional_composite :: "factor_weights \<Rightarrow> fdict \<Rightarrow> decimal" where
  "directional_composite w fd =
     dec_add (dec_add (dec_mul (momentum_factor (fd_num fd)) (w_momentum w))
                      (dec_mul (mean_reversion_factor (fd_num fd)) (w_mean_reversion w)))
             (dec_mul (trend_factor fd) (w_trend w))"

definition sign_of :: "decimal \<Rightarrow> decimal" where
  "sign_of x = (if 0 < x then 1 else if x < 0 then - 1 else 0)"

definition total_score :: "factor_weights \<Rightarrow> fdict \<Rightarrow> decimal" where
  "total_score w fd =
     dec_add (dec_add (directional_composite w fd)
                      (dec_mul (volume_factor (fd_num fd) (sign_of (directional_composite w fd))) (w_volume w)))
             (dec_mul (mtf_factor fd (trend_factor fd)) (w_mtf w))"

definition multi_factor :: "factor_weights \<Rightarrow> fdict \<Rightarrow> suggestion result" where
  "multi_factor w fd =
     (let total = total_score w fd; nm = Some ''multi_factor_v1''
      in if dec_abs total < 15 / 100 then SignalSuggestion (direction_value HOLD) (30 / 100) nm None
         else SignalSuggestion (direction_value (if 0 < total then BUY else SELL))
                (min (dec_add (40 / 100) (dec_mul (dec_abs total) (50 / 100))) (85 / 100)) nm None)"

section \<open>AdaptiveTrendStrategy\<close>

record adaptive_config =
  at_default_cycle :: int
  at_rsi :: "int \<times> int"
  at_ema_fast :: "int \<times> int"
  at_ema_slow :: "int \<times> int"
  at_min_confirmations :: nat

definition default_adaptive :: adaptive_config where
  "default_adaptive =
     \<lparr>at_default_cycle = 20, at_rsi = (7, 28), at_ema_fast = (5, 25), at_ema_slow = (12, 60), at_min_confirmations = 3\<rparr>"

definition clamp_int :: "int \<Rightarrow> int \<times> int \<Rightarrow> int" where
  "clamp_int v b = max (fst b) (min v (snd b))"

text \<open>The periods reported in the metadata: RSI, fast and slow average.\<close>

definition adaptive_periods :: "adaptive_config \<Rightarrow> int \<Rightarrow> int \<times> int \<times> int" where
  "adaptive_periods c cycle =
     (let rsi = clamp_int (round_half_even (of_int cycle / 2)) (at_rsi c);
          fast = clamp_int (round_half_even (of_int cycle / 4)) (at_ema_fast c);
          slow = clamp_int (round_half_even (of_int cycle / 2)) (at_ema_slow c)
      in (rsi, fast, if slow \<le> fast then fast + 2 else slow))"

definition adaptive_votes :: "features \<Rightarrow> nat \<times> nat" where
  "adaptive_votes f =
     (let (buy, sell) = trend_votes f; adx_strong = (25 < fget f ''adx'' 0); rsi = fget f ''rsi'' 0;
          buy' = (if adx_strong \<and> sell < buy then buy + 1 else buy);
          sell' = (if adx_strong \<and> buy < sell then sell + 1 else sell)
      in (if 50 < rsi then buy' + 1 else buy', if rsi < 50 then sell' + 1 else sell'))"

definition adaptive_confidence :: "features \<Rightarrow> decimal" where
  "adaptive_confidence f =
     min (dec_add (dec_add (50 / 100) (dec_div (fget f ''adx'' 0) 100)) (if f ''dominant_cycle'' = None then 0 else 5 / 100))
         (90 / 100)"

definition adaptive_trend :: "adaptive_config \<Rightarrow> features \<Rightarrow> suggestion result" where
  "adaptive_trend c f =
     (let (buy, sell) = adaptive_votes f; need = at_min_confirmations c;
          hold = (\<lambda>conf. SignalSuggestion (direction_value HOLD) conf None None)
      in if buy < need \<and> sell < need then hold (30 / 100)
         else if \<not> (need \<le> buy \<and> sell < buy) \<and> \<not> (need \<le> sell \<and> buy < sell) then hold (30 / 100)
         else let dir = (if need \<le> buy \<and> sell < buy then BUY else SELL);
                  go = SignalSuggestion (direction_value dir) (adaptive_confidence f) (Some ''adaptive_trend_v1'') None
              in case f ''hurst'' of
                   None \<Rightarrow> go
                 | Some hurst \<Rightarrow> if hurst < 45 / 100 then hold (25 / 100)
                                else if hurst < 55 / 100 then hold (30 / 100) else go)"

section \<open>OUMeanReversionStrategy\<close>

text \<open>A half-life of \<open>None\<close> is infinite.\<close>

record ou_params =
  ou_theta :: decimal
  ou_mu :: decimal
  ou_half_life :: "decimal option"
  ou_sigma_eq :: decimal
  ou_is_valid :: bool

record ou_strategy =
  ou_lookback :: nat
  ou_entry :: decimal
  ou_exit :: decimal
  ou_max_half_life :: decimal
  ou_min_half_life :: decimal
  ou_history :: "string \<rightharpoonup> decimal list"
  ou_last :: "string \<rightharpoonup> ou_params"

definition new_ou_strategy :: "nat \<Rightarrow> ou_strategy" where
  "new_ou_strategy lookback =
     \<lparr>ou_lookback = lookback, ou_entry = 15 / 10, ou_exit = 5 / 10, ou_max_half_life = 50, ou_min_half_life = 3,
      ou_history = Map.empty, ou_last = Map.empty\<rparr>"

definition s_score :: "decimal \<Rightarrow> decimal \<Rightarrow> decimal \<Rightarrow> decimal result" where
  "s_score current mu sigma_eq = (if sigma_eq \<le> 0 then Inl ValueError else Inr (dec_div (dec_sub current mu) sigma_eq))"

definition ou_confidence :: "decimal \<Rightarrow> bool \<Rightarrow> decimal" where
  "ou_confidence abs_s boost =
     (let c = min (dec_add (50 / 100) (dec_mul abs_s (10 / 100))) (85 / 100)
      in if boost then min (dec_add c (5 / 100)) (85 / 100) else c)"

definition ou_hold :: "suggestion result" where
  "ou_hold = SignalSuggestion (direction_value HOLD) (30 / 100) None None"

definition ou_decide :: "ou_strategy \<Rightarrow> features \<Rightarrow> decimal \<Rightarrow> suggestion result" where
  "ou_decide st f s =
     (let abs_s = dec_abs s; nm = Some ''ou_mean_reversion_v1''; pct_b = f ''bb_pct_b''
      in if s < dec_neg (ou_entry st)
         then SignalSuggestion (direction_value BUY) (ou_confidence abs_s (case pct_b of None \<Rightarrow> False | Some b \<Rightarrow> b < 2 / 10)) nm None
         else if ou_entry st < s
         then SignalSuggestion (direction_value SELL) (ou_confidence abs_s (case pct_b of None \<Rightarrow> False | Some b \<Rightarrow> 8 / 10 < b)) nm None
         else if abs_s < ou_exit st then SignalSuggestion (direction_value HOLD) (40 / 100) nm None
         else SignalSuggestion (direction_value HOLD) (35 / 100) nm None)"

definition ou_tradable :: "ou_strategy \<Rightarrow> ou_params \<Rightarrow> bool" where
  "ou_tradable st p =
     (ou_is_valid p \<and> 0 < ou_theta p \<and> 0 < ou_sigma_eq p \<and>
      (case ou_half_life p of None \<Rightarrow> False | Some h \<Rightarrow> ou_min_half_life st \<le> flt_round h \<and> flt_round h \<le> ou_max_half_life st))"

definition ou_analyze ::
  "(decimal list \<Rightarrow> ou_params result) \<Rightarrow> string \<Rightarrow> features \<Rightarrow> ou_strategy \<Rightarrow> suggestion result \<times> ou_strategy" where
  "ou_analyze fit symbol f st =
     (case f ''latest_close'' of
        None \<Rightarrow> (ou_hold, st)
      | Some latest_close \<Rightarrow>
          let h = deque_append (ou_lookback st) (opt_get (ou_history st symbol) []) latest_close;
              st = st\<lparr>ou_history := (ou_history st)(symbol \<mapsto> h)\<rparr>
          in if length h < ou_lookback st then (ou_hold, st)
             else case fit h of
                    Inl ValueError \<Rightarrow> (ou_hold, st)
                  | Inl e \<Rightarrow> (Inl e, st)
                  | Inr p \<Rightarrow>
                      let st = st\<lparr>ou_last := (ou_last st)(symbol \<mapsto> p)\<rparr>
                      in if \<not> ou_tradable st p then (ou_hold, st)
                         else (rbind (s_score latest_close (ou_mu p) (ou_sigma_eq p)) (\<lambda>s.
                                 case f ''hurst'' of
                                   Some hurst \<Rightarrow> if 45 / 100 \<le> hurst then ou_hold else ou_decide st f s
                                 | None \<Rightarrow> ou_decide st f s), st))"

text \<open>\<open>SpreadAnalyzer\<close>: the same score on a rolling spread.\<close>

definition spread_update ::
  "(decimal list \<Rightarrow> ou_params result) \<Rightarrow> nat \<Rightarrow> decimal \<Rightarrow> decimal list \<Rightarrow> ou_params option result \<times> decimal list" where
  "spread_update fit lookback spread window =
     (let w = deque_append lookback window spread
      in (if length w < 30 then Inr None
          else case fit w of Inl ValueError \<Rightarrow> Inr None | Inl e \<Rightarrow> Inl e | Inr p \<Rightarrow> Inr (Some p), w))"

definition spread_signal :: "decimal \<Rightarrow> ou_params \<Rightarrow> (decimal \<times> decimal option \<times> string) result" where
  "spread_signal spread p =
     (if \<not> ou_is_valid p \<or> ou_sigma_eq p \<le> 0 then Inr (0, None, ''HOLD'')
      else rbind (s_score spread (ou_mu p) (ou_sigma_eq p)) (\<lambda>score.
             Inr (score, ou_half_life p,
                  if score < - (15 / 10) then ''BUY'' else if 15 / 10 < score then ''SELL''
                  else if dec_abs score < 5 / 10 then ''CLOSE'' else ''HOLD'')))"

section \<open>The factors and their scale\<close>

lemma dec_sum_abs_le:
  "\<forall>x\<in>set xs. \<bar>x\<bar> \<le> 1 \<Longrightarrow> length xs < 10 ^ 28 \<Longrightarrow> \<bar>dec_sum xs\<bar> \<le> of_nat (length xs)"
proof (induction xs rule: rev_induct)
  case (snoc x xs)
  then have "\<bar>dec_sum xs\<bar> \<le> of_nat (length xs)" "\<bar>x\<bar> \<le> 1" by simp_all
  then have "\<bar>dec_sum xs + x\<bar> \<le> of_nat (length (xs @ [x]))" by (simp add: abs_le_iff)
  then show ?case unfolding dec_sum_append dec_add_def by (rule dec.rnd_abs_le [OF dec_round_nat [OF snoc.prems(2)]])
qed (simp add: dec_sum_def)

lemma mean_score_range:
  assumes "\<forall>x\<in>set xs. \<bar>x\<bar> \<le> 1" "length xs < 10 ^ 28"
  shows "\<bar>mean_score xs\<bar> \<le> 1"
proof (cases "xs = []")
  case False
  then have "\<bar>dec_sum xs / of_nat (length xs)\<bar> \<le> 1"
    using dec_sum_abs_le [OF assms] by (simp add: abs_divide divide_le_eq_1)
  then show ?thesis using False unfolding mean_score_def dec_div_def by (simp add: dec.rnd_abs_le)
qed (simp add: mean_score_def)

lemma abs_clamp_le_1: "\<bar>clamp (- 1) 1 x\<bar> \<le> (1 :: decimal)"
  using clamp_bounds [of "- 1" 1 x] by (simp add: abs_le_iff)

lemma rsi_bias_range: "0 \<le> rsi \<Longrightarrow> rsi \<le> 100 \<Longrightarrow> \<bar>rsi_bias rsi\<bar> \<le> 1"
proof -
  have "\<bar>dec_div (dec_sub rsi 50) 50\<bar> \<le> 1" if "30 \<le> rsi" "rsi \<le> 70"
  proof -
    have "\<bar>dec_sub rsi 50\<bar> \<le> 20" unfolding dec_sub_def using that by (intro dec.rnd_abs_le) (auto simp: num_eval)
    then show ?thesis unfolding dec_div_def by (intro dec.rnd_abs_le) (auto simp: abs_divide)
  qed
  then show ?thesis by (simp add: rsi_bias_def)
qed

lemma macd_bias_range: "\<bar>macd_bias atr h\<bar> \<le> 1"
proof -
  let ?m = "case atr of Some a \<Rightarrow> if 0 < a then min (dec_div (dec_abs h) a) 1 else min (dec_abs h) 1 | None \<Rightarrow> min (dec_abs h) 1"
  have "0 \<le> ?m \<and> ?m \<le> 1" by (auto split: option.splits intro: dec_div_nonneg)
  then have "\<bar>(if 0 \<le> h then 1 else - 1) * ?m\<bar> \<le> 1" by auto
  then show ?thesis unfolding macd_bias_def Let_def dec_mul_def by (rule dec.rnd_abs_le [rotated]) simp
qed

text \<open>The momentum, volume and timeframe factors keep the documented scale; the mean-reversion factor does not.\<close>

lemma momentum_factor_range:
  assumes "\<And>r. f ''rsi'' = Some r \<Longrightarrow> 0 \<le> r \<and> r \<le> 100"
  shows "\<bar>momentum_factor f\<bar> \<le> 1"
  unfolding momentum_factor_def
  by (rule mean_score_range) (use assms in \<open>auto simp: opt_score_def abs_clamp_le_1 rsi_bias_range macd_bias_range split: option.splits\<close>)

lemma mean_reversion_factor_escapes: "mean_reversion_factor [''bb_pct_b'' \<mapsto> - 1] = 6"
  by (simp add: mean_reversion_factor_def opt_score_def mean_score_def dec_sum_def band_bias_def dec_ops num_eval)

section \<open>What the strategies return\<close>

text \<open>
  The multi-factor strategy is total on every feature dictionary: it holds exactly below the threshold,
  otherwise its direction is the sign of the score, with a confidence between 0.475 and 0.85 however far
  the unbounded mean-reversion factor drives the score.
\<close>

theorem multi_factor_sound:
  "\<exists>s. multi_factor w fd = Inr s \<and>
       (sug_direction s = HOLD \<longleftrightarrow> dec_abs (total_score w fd) < 15 / 100) \<and>
       (sug_direction s = BUY \<longrightarrow> 0 < total_score w fd) \<and> (sug_direction s = SELL \<longrightarrow> total_score w fd < 0) \<and>
       (sug_direction s \<noteq> HOLD \<longrightarrow> 475 / 1000 \<le> sug_confidence s \<and> sug_confidence s \<le> 85 / 100)"
proof (cases "dec_abs (total_score w fd) < 15 / 100")
  case True
  then show ?thesis
    by (auto simp: multi_factor_def Let_def SignalSuggestion_def direction_of_def)
next
  case False
  let ?a = "dec_abs (total_score w fd)"
  let ?c = "min (dec_add (40 / 100) (dec_mul ?a (50 / 100))) (85 / 100)"
  have a: "15 / 100 \<le> ?a" using False by simp
  have "75 / 1000 \<le> dec_mul ?a (50 / 100)" unfolding dec_mul_def using a by (intro dec.rnd_ge) (simp_all add: num_eval)
  then have "475 / 1000 \<le> dec_add (40 / 100) (dec_mul ?a (50 / 100))"
    unfolding dec_add_def by (intro dec.rnd_ge) (simp_all add: num_eval)
  then have c: "475 / 1000 \<le> ?c" "?c \<le> 85 / 100" by simp_all
  have "total_score w fd \<noteq> 0" using a by (auto simp: dec_abs_def)
  then show ?thesis using False c
    by (cases "0 < total_score w fd") (auto simp: multi_factor_def Let_def SignalSuggestion_def direction_of_def simp del: min_less_iff_conj)
qed

theorem multi_factor_sound_witness:
  "\<exists>s. multi_factor default_weights
         \<lparr>fd_symbol = ''EURUSD'', fd_bar_count = 1, fd_timestamp = 0, fd_num = [''bb_pct_b'' \<mapsto> - 1], fd_str = Map.empty, fd_flag = Map.empty\<rparr>
       = Inr s \<and> (sug_direction s \<noteq> HOLD \<longrightarrow> sug_confidence s \<le> 85 / 100)"
  using multi_factor_sound [of default_weights
      "\<lparr>fd_symbol = ''EURUSD'', fd_bar_count = 1, fd_timestamp = 0, fd_num = [''bb_pct_b'' \<mapsto> - 1], fd_str = Map.empty, fd_flag = Map.empty\<rparr>"]
  by blast

lemma adaptive_trend_good:
  assumes "0 \<le> fget f ''adx'' 0"
  shows "good_suggestion (adaptive_trend c f)"
proof -
  have "0 \<le> dec_div (fget f ''adx'' 0) 100" using assms by (intro dec_div_nonneg) simp_all
  then have "1 / 2 \<le> dec_add (50 / 100) (dec_div (fget f ''adx'' 0) 100)"
    unfolding dec_add_def by (intro dec.rnd_ge) (simp_all add: num_eval)
  then have "1 / 2 \<le> dec_add (dec_add (50 / 100) (dec_div (fget f ''adx'' 0) 100)) (if f ''dominant_cycle'' = None then 0 else 5 / 100)"
    unfolding dec_add_def [of "dec_add (50 / 100) (dec_div (fget f ''adx'' 0) 100)"]
    by (intro dec.rnd_ge) (simp_all add: num_eval)
  then have "1 / 2 \<le> adaptive_confidence f \<and> adaptive_confidence f \<le> 9 / 10"
    by (simp add: adaptive_confidence_def)
  then show ?thesis by (simp add: adaptive_trend_def Let_def split: option.split prod.split)
qed

text \<open>
  Unlike the plain trend strategy it does not clamp the ADX: a negative one makes the constructor of the
  suggestion raise.
\<close>

lemma adaptive_trend_raises_on_negative_adx:
  "adaptive_trend default_adaptive
     [''adx'' \<mapsto> - 90, ''ema_fast'' \<mapsto> 2, ''ema_slow'' \<mapsto> 1, ''macd_histogram'' \<mapsto> 1, ''rsi'' \<mapsto> 60] = Inl ValueError"
  by (simp add: adaptive_trend_def default_adaptive_def adaptive_votes_def trend_votes_def adaptive_confidence_def
      SignalSuggestion_def direction_of_def dec_ops num_eval Let_def fget_def)

lemma adaptive_periods_ordered:
  assumes "adaptive_periods default_adaptive cycle = (rsi, fast, slow)"
  shows "7 \<le> rsi \<and> rsi \<le> 28 \<and> 5 \<le> fast \<and> fast \<le> 25 \<and> fast < slow"
  using assms by (auto simp: adaptive_periods_def default_adaptive_def clamp_int_def Let_def max_def min_def split: if_splits)

lemma ou_confidence_range: "0 \<le> a \<Longrightarrow> 1 / 2 \<le> ou_confidence a b \<and> ou_confidence a b \<le> 9 / 10"
proof -
  assume "0 \<le> a"
  then have "0 \<le> dec_mul a (10 / 100)" by (intro dec_mul_nonneg) simp_all
  then have "1 / 2 \<le> dec_add (50 / 100) (dec_mul a (10 / 100))"
    unfolding dec_add_def by (intro dec.rnd_ge) (simp_all add: num_eval)
  then have c: "1 / 2 \<le> min (dec_add (50 / 100) (dec_mul a (10 / 100))) (85 / 100)" by simp
  then have "1 / 2 \<le> dec_add (min (dec_add (50 / 100) (dec_mul a (10 / 100))) (85 / 100)) (5 / 100)"
    unfolding dec_add_def [of "min _ _"] by (intro dec.rnd_ge) (simp_all add: num_eval)
  then show ?thesis using c unfolding ou_confidence_def Let_def by (cases b) (simp_all only: if_True if_False simp_thms, linarith+)
qed

lemma ou_hold_good: "good_suggestion ou_hold"
  by (simp add: ou_hold_def)

lemma ou_decide_good: "good_suggestion (ou_decide st f s)"
  using ou_confidence_range [of "dec_abs s"] by (simp add: ou_decide_def Let_def)

lemma ou_decide_direction:
  assumes "ou_decide st f s = Inr sug"
  shows "(sug_direction sug = BUY \<longrightarrow> s < dec_neg (ou_entry st)) \<and> (sug_direction sug = SELL \<longrightarrow> ou_entry st < s)"
  using assms by (auto simp: ou_decide_def Let_def SignalSuggestion_of_value split: if_splits simp del: direction_value.simps)

lemma ou_analyze_cases:
  assumes "\<forall>h e. fit h = Inl e \<longrightarrow> e = ValueError"
  shows "fst (ou_analyze fit symbol f st) = ou_hold \<or>
    (\<exists>c p h st2. f ''latest_close'' = Some c \<and> fit h = Inr p \<and> length h = ou_lookback st \<and> ou_tradable st p \<and>
       ou_entry st2 = ou_entry st \<and>
       fst (ou_analyze fit symbol f st) = ou_decide st2 f (dec_div (dec_sub c (ou_mu p)) (ou_sigma_eq p)))"
proof (cases "f ''latest_close''")
  case (Some c)
  let ?h = "deque_append (ou_lookback st) (opt_get (ou_history st symbol) []) c"
  define st1 where "st1 = st\<lparr>ou_history := (ou_history st)(symbol \<mapsto> ?h)\<rparr>"
  show ?thesis
  proof (cases "fit ?h")
    case (Inl e)
    then have "e = ValueError" using assms by blast
    then show ?thesis using Inl Some by (simp add: ou_analyze_def Let_def)
  next
    case (Inr p)
    let ?st2 = "st1\<lparr>ou_last := (ou_last st1)(symbol \<mapsto> p)\<rparr>"
    let ?s = "dec_div (dec_sub c (ou_mu p)) (ou_sigma_eq p)"
    have tr: "ou_tradable ?st2 p = ou_tradable st p" by (simp add: ou_tradable_def st1_def cong: option.case_cong)
    have sc: "ou_tradable st p \<Longrightarrow> s_score c (ou_mu p) (ou_sigma_eq p) = Inr ?s" by (simp add: s_score_def ou_tradable_def)
    have e: "fst (ou_analyze fit symbol f st) =
        (if length ?h < ou_lookback st \<or> \<not> ou_tradable st p then ou_hold
         else case f ''hurst'' of None \<Rightarrow> ou_decide ?st2 f ?s | Some h \<Rightarrow> if 45 / 100 \<le> h then ou_hold else ou_decide ?st2 f ?s)"
      using tr sc by (simp add: ou_analyze_def Let_def Some Inr st1_def [symmetric] del: length_deque_append)
    have len: "\<not> length ?h < ou_lookback st \<Longrightarrow> length ?h = ou_lookback st" by simp
    have "ou_entry ?st2 = ou_entry st" by (simp add: st1_def)
    then have "\<lbrakk>\<not> length ?h < ou_lookback st; ou_tradable st p; fst (ou_analyze fit symbol f st) = ou_decide ?st2 f ?s\<rbrakk> \<Longrightarrow> ?thesis"
      using Some Inr len by blast
    then show ?thesis using e by (auto split: if_splits option.splits simp del: length_deque_append)
  qed
qed (simp add: ou_analyze_def)

text \<open>
  Whatever the regression returns, the Ornstein-Uhlenbeck strategy trades only on a full window whose fit
  is mean-reverting with an admissible half-life, buys only below and sells only above the fitted mean by
  the entry threshold, and its confidence stays in the band of the engine.
\<close>

theorem ou_strategy_sound:
  assumes "\<forall>h e. fit h = Inl e \<longrightarrow> e = ValueError"
  shows "\<exists>sug. fst (ou_analyze fit symbol f st) = Inr sug \<and> good_suggestion (Inr sug) \<and>
           (sug_direction sug \<noteq> HOLD \<longrightarrow>
             (\<exists>c p h s. f ''latest_close'' = Some c \<and> fit h = Inr p \<and> length h = ou_lookback st \<and> ou_tradable st p \<and>
                s = dec_div (dec_sub c (ou_mu p)) (ou_sigma_eq p) \<and>
                (sug_direction sug = BUY \<and> s < dec_neg (ou_entry st) \<or> sug_direction sug = SELL \<and> ou_entry st < s)))"
  using ou_analyze_cases [OF assms, of symbol f st]
proof (elim disjE exE conjE)
  assume "fst (ou_analyze fit symbol f st) = ou_hold"
  then show ?thesis by (simp add: ou_hold_def SignalSuggestion_def direction_of_def good_suggestion_def valid_suggestion_def)
next
  fix c h and p :: ou_params and st2 :: ou_strategy
  let ?s = "dec_div (dec_sub c (ou_mu p)) (ou_sigma_eq p)"
  assume e: "fst (ou_analyze fit symbol f st) = ou_decide st2 f ?s" and st2: "ou_entry st2 = ou_entry st"
    and r: "f ''latest_close'' = Some c" "fit h = Inr p" "length h = ou_lookback st" "ou_tradable st p"
  obtain d where d: "ou_decide st2 f ?s = Inr d" "good_suggestion (Inr d)"
    using ou_decide_good [of st2 f ?s] by (auto simp: good_suggestion_def)
  have dir: "sug_direction d \<noteq> HOLD \<Longrightarrow> sug_direction d = BUY \<and> ?s < dec_neg (ou_entry st) \<or> sug_direction d = SELL \<and> ou_entry st < ?s"
    using ou_decide_direction [OF d(1)] by (cases "sug_direction d") (simp_all add: st2)
  show ?thesis using e d dir r by metis
qed

theorem ou_strategy_sound_witness:
  "\<exists>sug. fst (ou_analyze (\<lambda>h. Inr \<lparr>ou_theta = 1 / 10, ou_mu = 10, ou_half_life = Some 7, ou_sigma_eq = 1, ou_is_valid = True\<rparr>)
            ''EURUSD'' [''latest_close'' \<mapsto> 8] (new_ou_strategy 1)) = Inr sug \<and> good_suggestion (Inr sug)"
  using ou_strategy_sound [of "\<lambda>h. Inr \<lparr>ou_theta = 1 / 10, ou_mu = 10, ou_half_life = Some 7, ou_sigma_eq = 1, ou_is_valid = True\<rparr>"
      "''EURUSD''" "[''latest_close'' \<mapsto> 8]" "new_ou_strategy 1"]
  by blast

end
