(* ===== verification/Env_File.thy ===== *)
theory Env_File
  imports Console
begin

text \<open>
  The configuration commands of the console: \<open>commands/config.py\<close> over the two files \<open>.env\<close> and
  \<open>.env.example\<close>, with the masking of \<open>console_logging.py\<close>. Text is ASCII. A file is what is stored on disk;
  \<open>Path.read_text\<close> translates its line ends. The reader of lines, the editor of one key, the validation of keys and
  values and every report are modelled; \<open>load_dotenv\<close> of the package python-dotenv is an argument.
\<close>

text \<open>\<open>line.partition("=")\<close> without the separator, and \<open>s.strip(q)\<close> for one character.\<close>

definition partition_eq :: "string \<Rightarrow> string \<times> string" where
  "partition_eq s = (takeWhile (\<lambda>c. c \<noteq> CHR ''='') s, tl (dropWhile (\<lambda>c. c \<noteq> CHR ''='') s))"

definition strip_char :: "char \<Rightarrow> string \<Rightarrow> string" where
  "strip_char q s = rev (dropWhile (\<lambda>c. c = q) (rev (dropWhile (\<lambda>c. c = q) s)))"

section \<open>Reading the file\<close>

definition unquote :: "string \<Rightarrow> string" where
  "unquote v = strip_char (CHR 0x27) (strip_char (CHR 0x22) (str_strip v))"

text \<open>What one line contributes: nothing, or a key and its value.\<close>

definition env_entry :: "string \<Rightarrow> (string \<times> string) option" where
  "env_entry raw =
     (let line = str_strip raw
      in if line = [] \<or> str_starts ''#'' line then None
         else if CHR ''='' \<in> set line
         then (case partition_eq line of (k, v) \<Rightarrow> Some (str_strip k, unquote v))
         else None)"

definition read_env_line :: "(string \<times> string) list \<Rightarrow> string \<Rightarrow> (string \<times> string) list" where
  "read_env_line env raw = (case env_entry raw of None \<Rightarrow> env | Some (k, v) \<Rightarrow> dict_set k v env)"

definition file_lines :: "string \<Rightarrow> string list" where
  "file_lines content = splitlines [] (universal_newlines False content)"

definition read_env_file :: "string option \<Rightarrow> (string \<times> string) list" where
  "read_env_file f = (case f of None \<Rightarrow> [] | Some content \<Rightarrow> foldl read_env_line [] (file_lines content))"

section \<open>Masking\<close>

definition mask_secrets :: "string \<Rightarrow> string" where
  "mask_secrets text = (if length text \<le> 4 then ''****'' else ''****'' @ last_n 4 text)"

definition SECRET_PATTERNS :: "string list" where
  "SECRET_PATTERNS = [''KEY'', ''SECRET'', ''PASSWORD'', ''TOKEN'', ''DSN'']"

definition is_secret :: "string \<Rightarrow> bool" where
  "is_secret key = list_ex (\<lambda>p. str_contains p (str_upper key)) SECRET_PATTERNS"

definition display_value :: "string \<Rightarrow> string \<Rightarrow> string" where
  "display_value key val = (if is_secret key then mask_secrets val else val)"

definition mask_entry :: "string \<times> string \<Rightarrow> string \<times> string" where
  "mask_entry kv = (fst kv, display_value (fst kv) (snd kv))"

text \<open>The log masks the string values of its own, longer list of names; other values pass.\<close>

datatype 'v log_value = StrValue string | OtherValue 'v

definition log_secret :: "string \<Rightarrow> bool" where
  "log_secret key = list_ex (\<lambda>p. str_contains p (str_upper key)) (SECRET_PATTERNS @ [''CREDENTIAL''])"

definition mask_dict :: "(string \<times> 'v log_value) list \<Rightarrow> (string \<times> 'v log_value) list" where
  "mask_dict d =
     map (\<lambda>kv. case snd kv of
                 StrValue v \<Rightarrow> (fst kv, StrValue (if log_secret (fst kv) then mask_secrets v else v))
               | OtherValue v \<Rightarrow> kv) d"

section \<open>The commands\<close>

text \<open>The two files with their paths as text, and the process environment.\<close>

record env_world =
  ew_env :: "string option"
  ew_example :: "string option"
  ew_environ :: "string \<rightharpoonup> string"
  ew_env_path :: string
  ew_example_path :: string

definition category_prefixes :: "string \<Rightarrow> string list option" where
  "category_prefixes = map_of
     [(''db'', [''MONEYMAKER_DB'', ''ADMIN_DB'', ''DATABASE'']),
      (''redis'', [''MONEYMAKER_REDIS'', ''REDIS'']),
      (''brain'', [''BRAIN_'']),
      (''mt5'', [''MT5_'']),
      (''risk'', [''MAX_'', ''RISK_'']),
      (''api'', [''POLYGON_'', ''MONEYMAKER_BINANCE'', ''API_'']),
      (''tls'', [''MONEYMAKER_TLS'', ''TLS_'']),
      (''zmq'', [''ZMQ_'', ''MONEYMAKER_ZMQ''])]"

definition in_category :: "string option \<Rightarrow> string \<Rightarrow> bool" where
  "in_category category key =
     (case category of
        None \<Rightarrow> True
      | Some c \<Rightarrow>
          if c = [] then True
          else (case category_prefixes c of
                  None \<Rightarrow> True
                | Some ps \<Rightarrow> list_ex (\<lambda>p. str_starts p (str_upper key)) ps))"

definition ljust :: "nat \<Rightarrow> string \<Rightarrow> string" where
  "ljust n s = s @ replicate (n - length s) (CHR '' '')"

definition config_view :: "env_world handler" where
  "config_view args w =
     (let env = read_env_file (ew_env w)
      in if env = [] then (Returned (''[warning] No .env file found at '' @ ew_env_path w), w)
         else let category = (case args of [] \<Rightarrow> None | a # as \<Rightarrow> Some (str_lower a));
                  lines = [''Configuration'', replicate 60 (CHR ''='')]
                    @ map (\<lambda>(key, val). ''  '' @ ljust 40 key @ '' = '' @ display_value key val)
                        (filter (\<lambda>kv. in_category category (fst kv)) (sort_key fst env))
              in if length lines = 2
                 then (Returned (''No configuration found for category '' @ [CHR 0x27] @ opt_get category ''None'' @ [CHR 0x27] @ ''.''), w)
                 else (Returned (join nl lines), w))"

datatype env_check = EnvOk | EnvEmpty | EnvMissing

definition check_key :: "(string \<times> string) list \<Rightarrow> string \<Rightarrow> env_check" where
  "check_key current key =
     (case map_of current key of
        Some v \<Rightarrow> if v \<noteq> [] then EnvOk else EnvEmpty
      | None \<Rightarrow> EnvMissing)"

fun check_label :: "env_check \<Rightarrow> string" where
  "check_label EnvOk = ''  [OK]      ''"
| "check_label EnvEmpty = ''  [EMPTY]   ''"
| "check_label EnvMissing = ''  [MISSING] ''"

definition config_validate :: "env_world handler" where
  "config_validate args w =
     (if ew_example w = None then (Returned (''[warning] No .env.example found at '' @ ew_example_path w), w)
      else let example = read_env_file (ew_example w);
               current = read_env_file (ew_env w);
               keys = sort (map fst example);
               missing = length (filter (\<lambda>k. check_key current k \<noteq> EnvOk) keys)
           in (Returned (join nl
                 ([''Configuration Validation'', replicate 60 (CHR ''='')]
                  @ map (\<lambda>k. check_label (check_key current k) @ k) keys
                  @ [if missing \<noteq> 0 then nl @ ''  '' @ show_nat missing @ '' variables missing or empty.''
                     else nl @ ''  All required variables are set.''])), w))"

text \<open>
  \<open>re.match\<close> with a final \<open>$\<close> also accepts one line feed at the end. A number is what \<open>float(value)\<close> accepts.
\<close>

definition ident_start :: "char \<Rightarrow> bool" where
  "ident_start c \<longleftrightarrow> c \<in> set ''ABCDEFGHIJKLMNOPQRSTUVWXYZabcdefghijklmnopqrstuvwxyz_''"

fun ident :: "string \<Rightarrow> bool" where
  "ident [] = False"
| "ident (c # s) = (ident_start c \<and> list_all (\<lambda>d. ident_start d \<or> is_digit d) s)"

definition allowed_key :: "string \<Rightarrow> bool" where
  "allowed_key key \<longleftrightarrow> ident key \<or> (key \<noteq> [] \<and> last key = lf \<and> ident (butlast key))"

definition forbidden_value :: "string \<Rightarrow> bool" where
  "forbidden_value v = list_ex (\<lambda>c. c \<in> {lf, cr, CHR 0x00}) v"

definition NUMERIC_KEYS :: "string list" where
  "NUMERIC_KEYS = [''MONEYMAKER_DB_PORT'', ''MONEYMAKER_REDIS_PORT'', ''DASHBOARD_PORT'', ''EXTERNAL_DATA_PORT'',
     ''BRAIN_PORT'', ''MT5_GRPC_PORT'', ''MAX_LOT_SIZE'', ''RISK_PER_TRADE'', ''MAX_DRAWDOWN_PCT'',
     ''TICK_RETENTION_DAYS'', ''BAR_RETENTION_DAYS'']"

definition quoted :: "string \<Rightarrow> string" where
  "quoted s = [CHR 0x27] @ s @ [CHR 0x27]"

definition set_key_refusal :: "string \<Rightarrow> string \<Rightarrow> string option" where
  "set_key_refusal key val =
     (if \<not> allowed_key key
      then Some (''[error] Invalid key '' @ quoted key @ ''. Keys must contain only letters, digits, and underscores.'')
      else if forbidden_value val then Some ''[error] Value must not contain newline or null characters.''
      else if key \<in> set NUMERIC_KEYS \<and> \<not> float_accepts val
      then Some (''[error] '' @ quoted key @ '' expects a numeric value, got '' @ quoted val @ ''.'')
      else None)"

definition sets_key :: "string \<Rightarrow> string \<Rightarrow> bool" where
  "sets_key key line \<longleftrightarrow> str_starts (key @ ''='') (str_strip line) \<or> str_starts (key @ '' ='') (str_strip line)"

definition edit_lines :: "string \<Rightarrow> string \<Rightarrow> string list \<Rightarrow> string list" where
  "edit_lines key val ls =
     (let new_lines = map (\<lambda>line. if sets_key key line then key @ ''='' @ val else line) ls
      in if list_ex (sets_key key) ls then new_lines else new_lines @ [key @ ''='' @ val])"

definition set_key :: "string \<Rightarrow> string \<Rightarrow> env_world \<Rightarrow> cmd_outcome \<times> env_world" where
  "set_key key val w =
     (case set_key_refusal key val of
        Some e \<Rightarrow> (Returned e, w)
      | None \<Rightarrow>
          (case ew_env w of
             None \<Rightarrow> (Returned (''[error] No .env file at '' @ ew_env_path w), w)
           | Some content \<Rightarrow>
               (Returned (''[success] Set '' @ key @ '' = '' @ display_value key val),
                w\<lparr>ew_env := Some (join nl (edit_lines key val (file_lines content)) @ nl)\<rparr>)))"

definition config_set :: "env_world handler" where
  "config_set args w =
     (if length args < 2 then (Returned ''Usage: config set KEY VALUE'', w)
      else set_key (hd args) (join '' '' (tl args)) w)"

definition config_get :: "env_world handler" where
  "config_get args w =
     (case args of
        [] \<Rightarrow> (Returned ''Usage: config get KEY'', w)
      | key # rest \<Rightarrow>
          (let val = (case map_of (read_env_file (ew_env w)) key of
                        Some v \<Rightarrow> if v \<noteq> [] then Some v else ew_environ w key
                      | None \<Rightarrow> ew_environ w key)
           in case val of
                None \<Rightarrow> (Returned (''[warning] '' @ quoted key @ '' not found in .env or environment.''), w)
              | Some v \<Rightarrow> (Returned (''  '' @ key @ '' = '' @ display_value key v), w)))"

definition config_diff :: "env_world handler" where
  "config_diff args w =
     (if ew_example w = None then (Returned ''[warning] No .env.example found.'', w)
      else let example = map fst (read_env_file (ew_example w));
               current = map fst (read_env_file (ew_env w));
               missing = sort (filter (\<lambda>k. k \<notin> set current) example);
               extra = sort (filter (\<lambda>k. k \<notin> set example) current)
           in (Returned (join nl
                 ([''Configuration Diff'', replicate 60 (CHR ''='')]
                  @ (if missing \<noteq> [] then (nl @ ''  Missing (in .env.example but not .env):'') # map (\<lambda>k. ''    - '' @ k) missing else [])
                  @ (if extra \<noteq> [] then (nl @ ''  Extra (in .env but not .env.example):'') # map (\<lambda>k. ''    + '' @ k) extra else [])
                  @ (if missing = [] \<and> extra = [] then [''  .env and .env.example have the same keys.''] else []))), w))"

definition config_broker :: "env_world handler" where
  "config_broker args w =
     (case args of [] \<Rightarrow> (Returned ''Usage: config broker API_KEY'', w)
      | a # as \<Rightarrow> config_set [''POLYGON_API_KEY'', a] w)"

definition config_risk :: "env_world handler" where
  "config_risk args w =
     (if length args < 2
      then (Returned ''Usage: config risk KEY VALUE  (e.g. config risk MAX_LOT_SIZE 0.5)'', w)
      else config_set [args ! 0, args ! 1] w)"

text \<open>\<open>load_dotenv\<close> is \<open>None\<close> when the package is missing; otherwise it maps the file and the environment to a new one.\<close>

definition config_reload :: "(string option \<Rightarrow> (string \<rightharpoonup> string) \<Rightarrow> (string \<rightharpoonup> string)) option \<Rightarrow> env_world handler" where
  "config_reload dotenv args w =
     (case dotenv of
        None \<Rightarrow> (Returned ''[warning] python-dotenv not installed. Restart services to apply changes.'', w)
      | Some load \<Rightarrow> (Returned ''[success] Configuration reloaded from .env'', w\<lparr>ew_environ := load (ew_env w) (ew_environ w)\<rparr>))"

text \<open>\<open>json.dumps(masked, indent=2)\<close> of a dictionary of strings.\<close>

definition json_char :: "char \<Rightarrow> string" where
  "json_char c =
     (let n = of_char c :: nat
      in if n = 0x22 \<or> n = 0x5C then [CHR 0x5C, c]
         else if n = 10 then [CHR 0x5C, CHR ''n''] else if n = 13 then [CHR 0x5C, CHR ''r'']
         else if n = 9 then [CHR 0x5C, CHR ''t''] else if n = 8 then [CHR 0x5C, CHR ''b'']
         else if n = 12 then [CHR 0x5C, CHR ''f'']
         else if n < 32 then [CHR 0x5C] @ ''u00'' @ [hex_digit (n div 16), hex_digit (n mod 16)]
         else [c])"

definition json_string :: "string \<Rightarrow> string" where
  "json_string s = [CHR 0x22] @ concat (map json_char s) @ [CHR 0x22]"

definition json_dumps :: "(string \<times> string) list \<Rightarrow> string" where
  "json_dumps kvs =
     (if kvs = [] then ''{}''
      else ''{'' @ nl @ join ('','' @ nl) (map (\<lambda>(k, v). ''  '' @ json_string k @ '': '' @ json_string v) kvs) @ nl @ ''}'')"

definition config_export :: "env_world handler" where
  "config_export args w =
     (let masked = map mask_entry (sort_key fst (read_env_file (ew_env w)));
          fmt = (case args of [] \<Rightarrow> ''json'' | a # as \<Rightarrow> a)
      in if fmt = ''json'' then (Returned (json_dumps masked), w)
         else (Returned (join nl (map (\<lambda>(k, v). k @ '': '' @ v) masked)), w))"

definition config_import :: "env_world handler" where
  "config_import args w =
     (case args of [] \<Rightarrow> (Returned ''Usage: config import FILE'', w)
      | a # as \<Rightarrow> (Returned (''[info] Import from '' @ quoted a
          @ '' requires manual review. Use '' @ quoted ''config set'' @ '' for individual keys.''), w))"

definition config_template :: "env_world handler" where
  "config_template args w =
     (if ew_example w = None then (Returned ''[error] No .env.example found.'', w)
      else (Returned (''[info] To generate a '' @ (case args of [] \<Rightarrow> ''development'' | a # as \<Rightarrow> a) @ '' .env:'' @ nl
              @ ''  cp '' @ ew_example_path w @ '' '' @ ew_env_path w @ nl
              @ ''  Then edit with '' @ quoted ''config set KEY VALUE''), w))"

definition config_encrypt :: "env_world handler" where
  "config_encrypt args w =
     (Returned ''[info] Encryption requires a master passphrase in the system keyring. Not yet implemented.'', w)"

definition config_decrypt :: "env_world handler" where
  "config_decrypt args w =
     (Returned ''[info] Decryption requires a master passphrase in the system keyring. Not yet implemented.'', w)"

definition config_command :: "env_world handler \<Rightarrow> string \<Rightarrow> env_world command" where
  "config_command h help_text =
     \<lparr>cm_handler = h, cm_help_text = help_text, cm_category = ''config'', cm_aliases = [],
      cm_requires_confirmation = False, cm_dangerous = False, cm_hidden = False, cm_timeout_sec = 60\<rparr>"

definition config_commands ::
  "(string option \<Rightarrow> (string \<rightharpoonup> string) \<Rightarrow> (string \<rightharpoonup> string)) option \<Rightarrow> (string \<times> env_world command) list" where
  "config_commands dotenv =
     [(''view'', config_command config_view ''Display configuration (secrets masked)''),
      (''validate'', config_command config_validate ''Validate config against .env.example''),
      (''set'', config_command config_set ''Set a configuration value''),
      (''get'', config_command config_get ''Get a configuration value''),
      (''diff'', config_command config_diff ''Compare .env with .env.example''),
      (''broker'', config_command config_broker ''Set broker API key''),
      (''risk'', config_command config_risk ''Set a risk parameter''),
      (''reload'', config_command (config_reload dotenv) ''Reload .env configuration''),
      (''export'', config_command config_export ''Export config as JSON/YAML''),
      (''import'', config_command config_import ''Import config from file''),
      (''template'', config_command config_template ''Generate .env from template''),
      (''encrypt'', config_command config_encrypt ''Encrypt .env file''),
      (''decrypt'', config_command config_decrypt ''Decrypt .env.enc file'')]"

definition register_config ::
  "(string option \<Rightarrow> (string \<rightharpoonup> string) \<Rightarrow> (string \<rightharpoonup> string)) option \<Rightarrow> env_world registry \<Rightarrow> env_world registry" where
  "register_config dotenv rg = foldl (\<lambda>rg (name, cmd). register ''config'' name cmd rg) rg (config_commands dotenv)"

section \<open>Stripping and lines\<close>

lemma foldl_join: "foldl (\<lambda>acc x. acc @ sep @ x) a xs @ sep = a @ sep @ concat (map (\<lambda>x. x @ sep) xs)"
  by (induction xs arbitrary: a) auto

lemma join_lines: "ls \<noteq> [] \<Longrightarrow> join nl ls @ nl = concat (map (\<lambda>l. l @ [lf]) ls)"
  by (cases ls) (use foldl_join [where sep = nl] in \<open>auto simp: join_def nl_def\<close>)

lemma no_break_no_cr: "list_all (\<lambda>c. \<not> line_break c) l \<Longrightarrow> cr \<notin> set l"
  by (auto simp: list_all_iff line_break_def)

text \<open>What is written line by line is read line by line.\<close>

lemma file_lines_written:
  assumes "ls \<noteq> []" "list_all (list_all (\<lambda>c. \<not> line_break c)) ls"
  shows "file_lines (join nl ls @ nl) = ls"
proof -
  have "cr \<notin> set (concat (map (\<lambda>l. l @ [lf]) ls))"
    using assms(2) by (induction ls) (auto dest: no_break_no_cr)
  then show ?thesis
    by (simp add: file_lines_def join_lines [OF assms(1)] universal_newlines_id splitlines_concat [OF assms(2)])
qed

section \<open>Keys\<close>

lemma ident_char:
  assumes "ident key" "c \<in> set key"
  shows "ident_start c \<or> is_digit c"
  using assms by (cases key) (auto simp: list_all_iff)

lemma ident_plain:
  assumes "ident_start c \<or> is_digit c"
  shows "\<not> white c" "c \<noteq> CHR ''=''" "\<not> line_break c" "c \<noteq> CHR ''#''"
  using assms by (auto simp: ident_start_def is_digit_def white_def line_break_def)

lemma ident_chars:
  assumes "ident key"
  shows "list_all (\<lambda>c. \<not> white c) key" "CHR ''='' \<notin> set key" "list_all (\<lambda>c. \<not> line_break c) key" "key \<noteq> []"
    "hd key \<noteq> CHR ''#''" "\<not> white (hd key)"
proof -
  show ne: "key \<noteq> []" using assms by auto
  show "list_all (\<lambda>c. \<not> white c) key" "list_all (\<lambda>c. \<not> line_break c) key"
    using ident_plain ident_char [OF assms] by (auto simp: list_all_iff)
  show "CHR ''='' \<notin> set key" using ident_plain(2) ident_char [OF assms] by blast
  show "hd key \<noteq> CHR ''#''" "\<not> white (hd key)"
    using ident_plain ident_char [OF assms, of "hd key"] ne by auto
qed

lemma partition_eq_key: "CHR ''='' \<notin> set k \<Longrightarrow> partition_eq (k @ CHR ''='' # v) = (k, v)"
  unfolding partition_eq_def by (induction k) auto

lemma not_comment: "key \<noteq> [] \<Longrightarrow> hd key \<noteq> CHR ''#'' \<Longrightarrow> \<not> str_starts ''#'' (key @ s)"
  by (cases key) (auto simp: str_starts_def)

lemma env_entry_stripped:
  assumes "str_strip raw = k @ CHR ''='' # v" "CHR ''='' \<notin> set k" "k \<noteq> []" "hd k \<noteq> CHR ''#''"
  shows "env_entry raw = Some (str_strip k, unquote v)"
  using assms not_comment [OF assms(3,4)] by (simp add: env_entry_def Let_def partition_eq_key)

text \<open>The line that is written, and the lines that it replaces.\<close>

lemma env_entry_written:
  assumes "ident key"
  shows "env_entry (key @ ''='' @ val) = Some (key, unquote val)"
proof -
  note k = ident_chars [OF assms]
  have nw: "\<not> white (CHR ''='')" by (simp add: white_def)
  have "dropWhile white (key @ CHR ''='' # val) = key @ CHR ''='' # val"
    using k(4,6) by (cases key) auto
  then have "str_strip (key @ CHR ''='' # val) = key @ CHR ''='' # rstrip val"
    by (simp add: str_strip_rstrip rstrip_stop [OF nw])
  from env_entry_stripped [OF this k(2,4,5)] show ?thesis
    by (simp add: str_strip_id [OF k(1)] unquote_def str_strip_of_rstrip)
qed

lemma env_entry_sets:
  assumes "ident key" "sets_key key line"
  shows "\<exists>v. env_entry line = Some (key, v)"
proof -
  note k = ident_chars [OF assms(1)]
  have pad: "str_strip (key @ '' '') = key"
    using str_strip_id [OF k(1)] k(4,6) str_strip_of_rstrip [of "key @ '' ''"]
    by (cases key) (auto simp: rstrip_def white_def str_strip_rstrip)
  from assms(2) consider
      v where "str_strip line = key @ CHR ''='' # v" | v where "str_strip line = (key @ '' '') @ CHR ''='' # v"
    unfolding sets_key_def str_starts_prefix prefix_def by auto
  then show ?thesis
  proof cases
    case 1
    then show ?thesis using env_entry_stripped [OF 1 k(2,4,5)] str_strip_id [OF k(1)] by simp
  next
    case 2
    then show ?thesis using env_entry_stripped [OF 2] k pad by simp
  qed
qed

section \<open>Editing one key\<close>

lemma read_lines_snoc: "foldl read_env_line env (ls @ [l]) = read_env_line (foldl read_env_line env ls) l"
  by simp

lemma map_of_read_env_line:
  "map_of (read_env_line env l) =
     (case env_entry l of None \<Rightarrow> map_of env | Some (k, v) \<Rightarrow> (map_of env)(k \<mapsto> v))"
  by (auto simp: read_env_line_def split: option.splits)

text \<open>Every line that gives \<open>key\<close> a value is one that the editor recognises.\<close>

definition plain_spelling :: "string \<Rightarrow> string list \<Rightarrow> bool" where
  "plain_spelling key ls \<longleftrightarrow>
     list_all (\<lambda>l. case env_entry l of None \<Rightarrow> True | Some (k, v) \<Rightarrow> k = key \<longrightarrow> sets_key key l) ls"

lemma replaced_lookup:
  assumes key: "ident key" and plain: "plain_spelling key ls"
  shows "map_of (foldl read_env_line env (map (\<lambda>line. if sets_key key line then key @ ''='' @ val else line) ls)) =
    (if list_ex (sets_key key) ls then (map_of (foldl read_env_line env ls))(key \<mapsto> unquote val)
     else map_of (foldl read_env_line env ls))"
  using plain
proof (induction ls rule: rev_induct)
  case (snoc l ls)
  have plain': "plain_spelling key ls" and l: "\<And>k v. env_entry l = Some (k, v) \<Longrightarrow> k = key \<Longrightarrow> sets_key key l"
    using snoc.prems by (auto simp: plain_spelling_def)
  show ?case
  proof (cases "sets_key key l")
    case True
    then obtain v where "env_entry l = Some (key, v)" using env_entry_sets [OF key] by blast
    then show ?thesis using True snoc.IH [OF plain'] env_entry_written [OF key, of val] by (auto simp: map_of_read_env_line fun_eq_iff)
  next
    case False
    then show ?thesis using snoc.IH [OF plain'] l by (auto simp: map_of_read_env_line fun_eq_iff split: option.splits)
  qed
qed simp

lemma edit_lines_lookup:
  assumes "ident key" "plain_spelling key ls"
  shows "map_of (foldl read_env_line [] (edit_lines key val ls)) =
    (map_of (foldl read_env_line [] ls))(key \<mapsto> unquote val)"
  using replaced_lookup [OF assms, of "[]" val] env_entry_written [OF assms(1), of val]
  by (auto simp: edit_lines_def Let_def map_of_read_env_line)

lemma edit_lines_clean:
  assumes "ident key" "list_all (\<lambda>c. \<not> line_break c) val" "list_all (list_all (\<lambda>c. \<not> line_break c)) ls"
  shows "list_all (list_all (\<lambda>c. \<not> line_break c)) (edit_lines key val ls)" "edit_lines key val ls \<noteq> []"
proof -
  have new: "list_all (\<lambda>c. \<not> line_break c) (key @ ''='' @ val)"
    using ident_chars(3) [OF assms(1)] assms(2) by (simp add: line_break_def)
  show "list_all (list_all (\<lambda>c. \<not> line_break c)) (edit_lines key val ls)"
    using assms(3) new by (auto simp: edit_lines_def Let_def list_all_iff)
  show "edit_lines key val ls \<noteq> []" by (cases ls) (auto simp: edit_lines_def Let_def)
qed

lemma file_lines_clean: "list_all (list_all (\<lambda>c. \<not> line_break c)) (file_lines content)"
  unfolding file_lines_def by (rule splitlines_clean) simp

lemma single_line_allowed:
  "list_all (\<lambda>c. \<not> line_break c) val \<Longrightarrow> CHR 0x00 \<notin> set val \<Longrightarrow> \<not> forbidden_value val"
  by (auto simp: forbidden_value_def list_all_iff list_ex_iff line_break_def)

lemma set_key_accepted:
  assumes "ident key" "list_all (\<lambda>c. \<not> line_break c) val" "CHR 0x00 \<notin> set val"
    and "key \<notin> set NUMERIC_KEYS \<or> float_accepts val" "ew_env w = Some content"
  shows "set_key key val w =
    (Returned (''[success] Set '' @ key @ '' = '' @ display_value key val),
     w\<lparr>ew_env := Some (join nl (edit_lines key val (file_lines content)) @ nl)\<rparr>)"
  using assms single_line_allowed [OF assms(2,3)] by (auto simp: set_key_def set_key_refusal_def allowed_key_def)


definition sample_env_world :: env_world where
  "sample_env_world = \<lparr>ew_env = Some (''# risk'' @ nl @ ''MAX_LOT_SIZE = 0.5'' @ nl @ ''API_KEY=abcdefgh'' @ nl), ew_example = None,
     ew_environ = Map.empty, ew_env_path = ''/.env'', ew_example_path = ''/.env.example''\<rparr>"

lemma sample_lines:
  "file_lines (''# risk'' @ nl @ ''MAX_LOT_SIZE = 0.5'' @ nl @ ''API_KEY=abcdefgh'' @ nl) =
     [''# risk'', ''MAX_LOT_SIZE = 0.5'', ''API_KEY=abcdefgh'']"
  by (simp add: file_lines_def nl_def line_break_def)

lemma sample_plain: "plain_spelling ''MAX_LOT_SIZE'' [''# risk'', ''MAX_LOT_SIZE = 0.5'', ''API_KEY=abcdefgh'']"
  by code_simp


section \<open>Secrets in reports\<close>

lemma sort_key_map: "(\<And>x. f (g x) = f x) \<Longrightarrow> sort_key f (map g xs) = map g (sort_key f xs)"
proof (induction xs)
  case (Cons x xs)
  have "insort_key f (g x) (map g ys) = map g (insort_key f x ys)" for ys
    by (induction ys) (simp_all add: Cons.prems)
  then show ?case using Cons by simp
qed simp

lemma mask_secrets_eq:
  "mask_secrets s = mask_secrets t \<longleftrightarrow>
     (length s \<le> 4 \<and> length t \<le> 4) \<or> (4 < length s \<and> 4 < length t \<and> last_n 4 s = last_n 4 t)"
proof -
  have "length (last_n 4 x) = 4" if "4 < length x" for x :: string using that by simp
  then show ?thesis by (auto simp: mask_secrets_def dest!: arg_cong [where f = length])
qed

lemma view_of_masked:
  "map (\<lambda>(key, val). ''  '' @ ljust 40 key @ '' = '' @ display_value key val) (filter (\<lambda>kv. in_category c (fst kv)) xs) =
   map (\<lambda>(key, val). ''  '' @ ljust 40 key @ '' = '' @ val) (filter (\<lambda>kv. in_category c (fst kv)) (map mask_entry xs))"
  by (induction xs) (auto simp: mask_entry_def)

lemma mask_sorted: "map mask_entry (sort_key fst env) = sort_key fst (map mask_entry env)"
  by (rule sort_key_map [symmetric]) (simp add: mask_entry_def)

text \<open>
  A report shows of a secret only its last four characters: if two configurations hold the same variables in the
  same order, with equal values where the name is not a secret, and secrets that are both of at most four characters
  or both longer with the same last four, then \<open>config view\<close> and \<open>config export\<close> print the same text, whatever
  their arguments.
\<close>

theorem reports_hide_secrets:
  assumes "list_all2 (\<lambda>(k, v) (k', v'). k = k' \<and> (if is_secret k
             then (length v \<le> 4 \<and> length v' \<le> 4) \<or> (4 < length v \<and> 4 < length v' \<and> last_n 4 v = last_n 4 v')
             else v = v')) (read_env_file (ew_env w)) (read_env_file (ew_env w'))"
    and "ew_env_path w = ew_env_path w'"
  shows "fst (config_view args w) = fst (config_view args w') \<and> fst (config_export args w) = fst (config_export args w')"
proof -
  have masks: "map mask_entry (read_env_file (ew_env w)) = map mask_entry (read_env_file (ew_env w'))"
    using assms(1)
    by (induction rule: list_all2_induct) (auto simp: mask_entry_def display_value_def mask_secrets_eq split: if_splits)
  have same: "map mask_entry (sort_key fst (read_env_file (ew_env w))) = map mask_entry (sort_key fst (read_env_file (ew_env w')))"
    using masks by (simp add: mask_sorted)
  have empty: "read_env_file (ew_env w) = [] \<longleftrightarrow> read_env_file (ew_env w') = []"
    using masks by (metis map_is_Nil_conv)
  have "fst (config_view args w) = fst (config_view args w')"
    unfolding config_view_def view_of_masked by (simp only: Let_def same empty assms(2) if_distrib [of fst] fst_conv)
  moreover have "fst (config_export args w) = fst (config_export args w')"
    by (simp add: config_export_def Let_def same if_distrib [of fst])
  ultimately show ?thesis ..
qed

lemma reports_hide_secrets_witness:
  "fst (config_view [] sample_env_world) = fst (config_view [] (sample_env_world\<lparr>ew_env := Some (''MAX_LOT_SIZE=0.5'' @ nl @ ''API_KEY=secretefgh'')\<rparr>))"
proof -
  have l: "file_lines (''MAX_LOT_SIZE=0.5'' @ nl @ ''API_KEY=secretefgh'') = [''MAX_LOT_SIZE=0.5'', ''API_KEY=secretefgh'']"
    by (simp add: file_lines_def nl_def line_break_def)
  have e: "foldl read_env_line [] [''# risk'', ''MAX_LOT_SIZE = 0.5'', ''API_KEY=abcdefgh''] = [(''MAX_LOT_SIZE'', ''0.5''), (''API_KEY'', ''abcdefgh'')]"
    "foldl read_env_line [] [''MAX_LOT_SIZE=0.5'', ''API_KEY=secretefgh''] = [(''MAX_LOT_SIZE'', ''0.5''), (''API_KEY'', ''secretefgh'')]"
    "is_secret ''API_KEY''" "\<not> is_secret ''MAX_LOT_SIZE''" "last_n 4 ''abcdefgh'' = last_n 4 ''secretefgh''"
    by code_simp+
  show ?thesis
    using reports_hide_secrets [of sample_env_world "sample_env_world\<lparr>ew_env := Some (''MAX_LOT_SIZE=0.5'' @ nl @ ''API_KEY=secretefgh'')\<rparr>" "[]"]
    by (simp add: sample_env_world_def read_env_file_def sample_lines l e del: append_Cons foldl_Cons)
qed

section \<open>What the commands touch\<close>

lemma set_key_effect:
  "set_key key val w = (out, w') \<Longrightarrow>
     ew_example w' = ew_example w \<and> ew_environ w' = ew_environ w \<and>
     (w' \<noteq> w \<longrightarrow> out = Returned (''[success] Set '' @ key @ '' = '' @ display_value key val) \<and> allowed_key key \<and> \<not> forbidden_value val)"
  by (auto simp: set_key_def set_key_refusal_def split: option.splits if_splits)

lemma config_set_effect:
  assumes "config_set args w = (out, w')"
  shows "ew_example w' = ew_example w \<and> ew_environ w' = ew_environ w \<and>
    (w' \<noteq> w \<longrightarrow> (\<exists>key val. out = Returned (''[success] Set '' @ key @ '' = '' @ display_value key val) \<and> allowed_key key))"
  using assms set_key_effect [of "hd args" "join '' '' (tl args)" w out w']
  by (auto simp: config_set_def split: if_splits)

definition writes_env :: "string \<Rightarrow> bool" where
  "writes_env sub \<longleftrightarrow> sub \<in> {''set'', ''broker'', ''risk''}"

lemma config_commands_cases:
  assumes "(sub, cmd) \<in> set (config_commands dotenv)"
  obtains (report) "cm_handler cmd \<in> {config_view, config_validate, config_get, config_diff, config_export, config_import,
      config_template, config_encrypt, config_decrypt}"
    | (edit) "writes_env sub" "cm_handler cmd \<in> {config_set, config_broker, config_risk}"
    | (reload) "sub = ''reload''" "cm_handler cmd = config_reload dotenv"
  using assms unfolding config_commands_def
  by (simp add: config_command_def writes_env_def) (elim disjE conjE, simp_all)

lemma report_unchanged:
  "h \<in> {config_view, config_validate, config_get, config_diff, config_export, config_import,
      config_template, config_encrypt, config_decrypt} \<Longrightarrow> snd (h args w) = w"
  by (auto simp: config_view_def config_validate_def config_get_def config_diff_def config_export_def config_import_def
      config_template_def config_encrypt_def config_decrypt_def Let_def split: list.splits option.splits)

lemma edit_is_set:
  "h \<in> {config_set, config_broker, config_risk} \<Longrightarrow> snd (h args w) = w \<or> (\<exists>as. h args w = config_set as w)"
  by (auto simp: config_broker_def config_risk_def split: list.splits if_splits)

lemma config_handlers:
  assumes "(sub, cmd) \<in> set (config_commands dotenv)" "cm_handler cmd args w = (out, w')"
  shows "ew_example w' = ew_example w \<and> (ew_environ w' \<noteq> ew_environ w \<longrightarrow> sub = ''reload'') \<and>
    (ew_env w' \<noteq> ew_env w \<longrightarrow> writes_env sub \<and>
       (\<exists>key val. out = Returned (''[success] Set '' @ key @ '' = '' @ display_value key val) \<and> allowed_key key))"
  using assms(1)
proof (cases rule: config_commands_cases)
  case report
  then have "w' = w" using report_unchanged [of "cm_handler cmd" args w] assms(2) by simp
  then show ?thesis by simp
next
  case edit
  from edit_is_set [OF edit(2), of args w] consider "w' = w" | as where "config_set as w = (out, w')"
    using assms(2) by force
  then show ?thesis
  proof cases
    case 2
    then show ?thesis using config_set_effect [OF 2] edit(1) by auto
  qed simp
next
  case reload
  then show ?thesis using assms(2) by (auto simp: config_reload_def split: option.splits)
qed

lemma find_register_config:
  "find_command c sub (register_config dotenv rg) =
     (if c = ''config'' then (case map_of (rev (config_commands dotenv)) sub of Some cmd \<Rightarrow> Some cmd | None \<Rightarrow> find_command c sub rg)
      else find_command c sub rg)"
proof -
  have "find_command c sub (foldl (\<lambda>rg (name, cmd). register ''config'' name cmd rg) rg cmds) =
     (if c = ''config'' then (case map_of (rev cmds) sub of Some cmd \<Rightarrow> Some cmd | None \<Rightarrow> find_command c sub rg)
      else find_command c sub rg)" for cmds :: "(string \<times> env_world command) list"
    by (induction cmds rule: rev_induct) (auto simp: find_command_register split: option.splits)
  then show ?thesis by (simp add: register_config_def)
qed

text \<open>
  The configuration file is written by three sub-commands only, and only with a success report: whatever line of
  the category \<open>config\<close> is dispatched, \<open>.env.example\<close> is untouched, the process environment changes only in
  \<open>reload\<close>, and \<open>.env\<close> changes only in \<open>set\<close>, \<open>broker\<close> and \<open>risk\<close>, which then answer
  \<open>[success] Set KEY = \<dots>\<close> for an allowed key, with the value masked if the key names a secret.
\<close>

theorem config_footprint:
  assumes "dispatch ''config'' sub args (register_config dotenv new_registry) w = (answer, w')"
  shows "ew_example w' = ew_example w \<and> (ew_environ w' \<noteq> ew_environ w \<longrightarrow> sub = ''reload'') \<and>
    (ew_env w' \<noteq> ew_env w \<longrightarrow> sub \<in> {''set'', ''broker'', ''risk''} \<and>
       (\<exists>key val. answer = ''[success] Set '' @ key @ '' = '' @ display_value key val \<and> allowed_key key))"
proof (cases "w' = w")
  case False
  let ?rg = "register_config dotenv new_registry"
  have mw: "rg_middleware ?rg = []"
    by (simp add: register_config_def config_commands_def register_def new_registry_def)
  obtain cmd where cmd: "find_command ''config'' sub ?rg = Some cmd"
    and w': "w' = snd (cm_handler cmd args w)" and ok: "confirmation_refusal ''config'' sub cmd ?rg = None"
    using dispatch_effect [OF assms False] by blast
  have cmd_in: "(sub, cmd) \<in> set (config_commands dotenv)"
    using cmd unfolding find_register_config
    by (auto simp: find_command_def commands_of_def new_registry_def split: option.splits dest!: map_of_SomeD)
  obtain out where out: "cm_handler cmd args w = (out, w')" using w' by (cases "cm_handler cmd args w") simp
  have "map_of (rg_commands ?rg) ''config'' \<noteq> None"
    using cmd by (auto simp: find_command_def commands_of_def opt_get_def split: option.splits)
  then have "answer = s" if "out = Returned s" for s
    using dispatch_returns [OF _ cmd ok mw, of args w s w'] out assms that by simp
  then show ?thesis using config_handlers [OF cmd_in out] by (auto simp: writes_env_def)
qed simp

section \<open>Limits of the editor\<close>

text \<open>A vertical tab passes the check of the value, and the reader ends a line there: one command sets two variables.\<close>

theorem vertical_tab_adds_variable:
  "let w' = snd (config_set [''NOTE'', ''x'' @ [CHR 0x0B] @ ''API_KEY=stolen''] sample_env_world)
   in map_of (read_env_file (ew_env sample_env_world)) ''API_KEY'' = Some ''abcdefgh'' \<and>
      map_of (read_env_file (ew_env w')) ''API_KEY'' = Some ''stolen''"
  by code_simp

text \<open>A line that spells the key with two blanks before the sign is kept; when it comes last its value wins.\<close>

theorem other_spelling_survives:
  "let w = sample_env_world\<lparr>ew_env := Some (''PORT=1'' @ nl @ ''PORT  = 2'' @ nl)\<rparr>; w' = snd (config_set [''PORT'', ''3''] w)
   in map_of (read_env_file (ew_env w')) ''PORT'' = Some ''2''"
  by code_simp

text \<open>A key that ends in a line feed is allowed; the variable set is the empty name.\<close>

theorem key_with_line_feed:
  "let (out, w') = config_set [''PORT'' @ nl, ''3''] sample_env_world
   in out = Returned (''[success] Set PORT'' @ nl @ '' = 3'') \<and>
      map_of (read_env_file (ew_env w')) [] = Some ''3'' \<and> map_of (read_env_file (ew_env w')) ''PORT'' = None"
  by code_simp

text \<open>A numeric limit may be set to a value that is not a number, and \<open>config risk\<close> edits any key.\<close>

theorem risk_sets_anything:
  "let w' = snd (config_risk [''MAX_LOT_SIZE'', ''nan''] sample_env_world); w'' = snd (config_risk [''API_KEY'', ''none''] w')
   in map_of (read_env_file (ew_env w'')) ''MAX_LOT_SIZE'' = Some ''nan'' \<and>
      map_of (read_env_file (ew_env w'')) ''API_KEY'' = Some ''none''"
  by code_simp

text \<open>The reports and the log do not agree on which names are secret.\<close>

theorem credential_shown:
  "\<not> is_secret ''BROKER_CREDENTIAL'' \<and> log_secret ''BROKER_CREDENTIAL''"
  by code_simp
end
