(* ===== verification/Service_Config.thy ===== *)
theory Service_Config
  imports Text_Parsing
begin

text \<open>
  What the services read from their surroundings before they trade: the secrets and their checks
  (\<open>moneymaker_common/secrets.py\<close>), the TLS credentials and channels of the gRPC link
  (\<open>moneymaker_common/grpc_credentials.py\<close> and the server start of \<open>mt5_bridge/grpc_server.py\<close>), the connection URLs
  and the validation of settings (\<open>moneymaker_common/config.py\<close>, \<open>algo_engine/config.py\<close>). The environment is a map,
  the file system a function from paths; texts are ASCII.
\<close>

section \<open>Files and environment\<close>

datatype fs_entry = NoEntry | UnreadableEntry | FileText string

type_synonym file_system = "string \<Rightarrow> fs_entry"
type_synonym environment = "string \<rightharpoonup> string"

definition path_exists :: "file_system \<Rightarrow> string \<Rightarrow> bool" where
  "path_exists fs p \<longleftrightarrow> fs p \<noteq> NoEntry"

definition getenv :: "environment \<Rightarrow> string \<Rightarrow> string \<Rightarrow> string" where
  "getenv env name dflt = opt_get (env name) dflt"

section \<open>Secrets\<close>

datatype secret_error =
    SecretMissing string string
  | SecretTooShort string nat nat
  | SecretWeak string string
  | SecretNotComplex string

definition WEAK_PATTERNS :: "string list" where
  "WEAK_PATTERNS = [''password'', ''123456'', ''admin'', ''moneymaker_dev'', ''CHANGE_ME'', ''changeme'', ''secret'',
     ''test'', ''default'', ''example'', ''qwerty'']"

definition MIN_LENGTHS :: "string \<rightharpoonup> nat" where
  "MIN_LENGTHS = map_of [(''db_password'', 16), (''redis_password'', 16), (''grafana_password'', 12), (''mt5_password'', 8),
     (''api_key'', 20), (''default'', 16)]"

definition get_min_length :: "string \<Rightarrow> nat" where
  "get_min_length secret_name = opt_get (MIN_LENGTHS secret_name) (the (MIN_LENGTHS ''default''))"

definition weak_pattern :: "string \<Rightarrow> string option" where
  "weak_pattern v = List.find (\<lambda>p. str_contains (str_lower p) (str_lower v)) WEAK_PATTERNS"

definition is_lower_letter :: "char \<Rightarrow> bool" where
  "is_lower_letter c \<longleftrightarrow> c \<in> set ''abcdefghijklmnopqrstuvwxyz''"

definition is_upper_letter :: "char \<Rightarrow> bool" where
  "is_upper_letter c \<longleftrightarrow> c \<in> set ''ABCDEFGHIJKLMNOPQRSTUVWXYZ''"

definition has_sufficient_complexity :: "string \<Rightarrow> bool" where
  "has_sufficient_complexity v \<longleftrightarrow>
     3 \<le> (if list_ex is_lower_letter v then 1 else 0) + (if list_ex is_upper_letter v then 1 else 0)
        + (if list_ex is_digit v then 1 else 0)
        + (if list_ex (\<lambda>c. \<not> is_lower_letter c \<and> \<not> is_upper_letter c \<and> \<not> is_digit c) v then 1 else (0::nat))"

text \<open>The value before validation: the mounted file if it gives a nonempty text, otherwise the environment.\<close>

definition secret_source :: "file_system \<Rightarrow> environment \<Rightarrow> string \<Rightarrow> string \<Rightarrow> string" where
  "secret_source fs env name env_var =
     (let value = (case fs (''/run/secrets/'' @ name) of FileText t \<Rightarrow> str_strip t | _ \<Rightarrow> [])
      in if value = [] then str_strip (getenv env env_var []) else value)"

definition load_secret ::
  "file_system \<Rightarrow> environment \<Rightarrow> string \<Rightarrow> string \<Rightarrow> nat option \<Rightarrow> bool \<Rightarrow> bool \<Rightarrow> secret_error + string" where
  "load_secret fs env name env_var min_length required check_complexity =
     (let min_length = opt_get min_length (get_min_length name);
          val = secret_source fs env name env_var
      in if val = [] then (if required then Inl (SecretMissing name env_var) else Inr [])
         else if length val < min_length then Inl (SecretTooShort name (length val) min_length)
         else case weak_pattern val of
                Some p \<Rightarrow> Inl (SecretWeak name p)
              | None \<Rightarrow>
                  if check_complexity \<and> \<not> has_sufficient_complexity val then Inl (SecretNotComplex name)
                  else Inr val)"

definition REQUIRED_SECRETS :: "(string \<times> string \<times> bool) list" where
  "REQUIRED_SECRETS =
     [(''db_password'', ''MONEYMAKER_DB_PASSWORD'', True), (''redis_password'', ''MONEYMAKER_REDIS_PASSWORD'', True)]"

text \<open>All errors are collected; the dictionary is returned only when there is none.\<close>

definition validate_required_secrets ::
  "file_system \<Rightarrow> environment \<Rightarrow> string \<Rightarrow> secret_error list + (string \<times> string) list" where
  "validate_required_secrets fs env environment_name =
     (let is_dev = environment_name = ''development'';
          (errors, secrets) = foldl (\<lambda>(errors, secrets) (name, env_var, check).
              case load_secret fs env name env_var (if is_dev then Some 8 else None) (\<not> is_dev) (check \<and> \<not> is_dev) of
                Inl e \<Rightarrow> (errors @ [e], secrets)
              | Inr v \<Rightarrow> (errors, dict_set name v secrets)) ([], []) REQUIRED_SECRETS
      in if errors \<noteq> [] then Inl errors else Inr secrets)"

text \<open>
  The generator draws whole candidates until one is complex enough; \<open>draw k i\<close> is the character that
  \<open>secrets.choice\<close> returns for position \<open>i\<close> of candidate \<open>k\<close>. Not returning is \<open>None\<close>.
\<close>

definition PASSWORD_ALPHABET :: string where
  "PASSWORD_ALPHABET = ''abcdefghijklmnopqrstuvwxyzABCDEFGHIJKLMNOPQRSTUVWXYZ'' @ ''0123456789'' @ ''!@#$%^&*()-_=+''"

definition candidate :: "(nat \<Rightarrow> nat \<Rightarrow> char) \<Rightarrow> int \<Rightarrow> nat \<Rightarrow> string" where
  "candidate draw len k = map (draw k) [0..<nat (if len < 16 then 16 else len)]"

partial_function (option) generate_from :: "(nat \<Rightarrow> nat \<Rightarrow> char) \<Rightarrow> int \<Rightarrow> nat \<Rightarrow> string option" where
  "generate_from draw len k =
     (let password = candidate draw len k
      in if has_sufficient_complexity password then Some password else generate_from draw len (Suc k))"

definition generate_secure_password :: "(nat \<Rightarrow> nat \<Rightarrow> char) \<Rightarrow> int \<Rightarrow> string option" where
  "generate_secure_password draw len = generate_from draw len 0"

text \<open>\<open>value[-visible:]\<close> is the whole text when \<open>visible\<close> is 0.\<close>

definition mask_secret :: "string \<Rightarrow> nat \<Rightarrow> string" where
  "mask_secret v visible =
     (if length v \<le> visible then replicate (length v) (CHR ''*'')
      else replicate (length v - visible) (CHR ''*'') @ (if visible = 0 then v else last_n visible v))"

section \<open>TLS credentials\<close>

datatype tls_error = CertNotFound | CertUnreadable | CertKeyMismatch | StrictTLS | NoGrpc

text \<open>What is handed to the gRPC library: root certificate, client key and chain; or server pair and required client roots.\<close>

datatype channel = SecureChannel string "(string \<times> string) option" | InsecureChannel
datatype server_port = SecurePort string string "string option" | InsecurePort

definition nonempty :: "string option \<Rightarrow> bool" where
  "nonempty s \<longleftrightarrow> s \<noteq> None \<and> s \<noteq> Some []"

definition must_exist :: "file_system \<Rightarrow> string \<Rightarrow> tls_error + unit" where
  "must_exist fs p = guard (\<not> path_exists fs p) CertNotFound"

definition read_bytes :: "file_system \<Rightarrow> string \<Rightarrow> tls_error + string" where
  "read_bytes fs p = (case fs p of FileText t \<Rightarrow> Inr t | UnreadableEntry \<Rightarrow> Inl CertUnreadable | NoEntry \<Rightarrow> Inl CertNotFound)"

definition load_credentials_from_files ::
  "file_system \<Rightarrow> string \<Rightarrow> string option \<Rightarrow> string option \<Rightarrow> tls_error + channel" where
  "load_credentials_from_files fs ca cert key =
     rbind (guard (nonempty cert \<noteq> nonempty key) CertKeyMismatch) (\<lambda>_.
     rbind (must_exist fs ca) (\<lambda>_. rbind (read_bytes fs ca) (\<lambda>ca_cert.
       if nonempty cert \<and> nonempty key
       then rbind (must_exist fs (the cert)) (\<lambda>_. rbind (must_exist fs (the key)) (\<lambda>_.
            rbind (read_bytes fs (the cert)) (\<lambda>client_cert. rbind (read_bytes fs (the key)) (\<lambda>client_key.
              Inr (SecureChannel ca_cert (Some (client_key, client_cert)))))))
       else Inr (SecureChannel ca_cert None))))"

definition load_server_credentials ::
  "file_system \<Rightarrow> string \<Rightarrow> string \<Rightarrow> string \<Rightarrow> bool \<Rightarrow> tls_error + server_port" where
  "load_server_credentials fs ca cert key require_client_cert =
     rbind (must_exist fs ca) (\<lambda>_. rbind (must_exist fs cert) (\<lambda>_. rbind (must_exist fs key) (\<lambda>_.
     rbind (read_bytes fs ca) (\<lambda>ca_cert. rbind (read_bytes fs cert) (\<lambda>server_cert. rbind (read_bytes fs key) (\<lambda>server_key.
       Inr (SecurePort server_key server_cert (if require_client_cert then Some ca_cert else None))))))))"

record tls_config =
  tc_enabled :: bool
  tc_ca_cert :: string
  tc_client_cert :: string
  tc_client_key :: string
  tc_server_cert :: string
  tc_server_key :: string

definition get_tls_config_from_env :: "environment \<Rightarrow> tls_config" where
  "get_tls_config_from_env env =
     \<lparr>tc_enabled = str_lower (getenv env ''MONEYMAKER_TLS_ENABLED'' ''false'') \<in> {''true'', ''1'', ''yes''},
      tc_ca_cert = getenv env ''MONEYMAKER_TLS_CA_CERT'' ''/etc/ssl/certs/ca.crt'',
      tc_client_cert = getenv env ''MONEYMAKER_TLS_CLIENT_CERT'' [],
      tc_client_key = getenv env ''MONEYMAKER_TLS_CLIENT_KEY'' [],
      tc_server_cert = getenv env ''MONEYMAKER_TLS_SERVER_CERT'' [],
      tc_server_key = getenv env ''MONEYMAKER_TLS_SERVER_KEY'' []\<rparr>"

definition env_is_production :: "environment \<Rightarrow> bool" where
  "env_is_production env \<longleftrightarrow> str_lower (getenv env ''MONEYMAKER_ENV'' []) \<in> {''production'', ''prod''}"

text \<open>The synchronous and the asynchronous constructor run the same steps.\<close>

definition create_client_channel ::
  "file_system \<Rightarrow> environment \<Rightarrow> bool \<Rightarrow> string option \<Rightarrow> string option \<Rightarrow> string option \<Rightarrow> bool option \<Rightarrow> tls_error + channel" where
  "create_client_channel fs env tls_enabled ca cert key strict_tls =
     (let strict = opt_get strict_tls (env_is_production env)
      in if tls_enabled \<and> nonempty ca \<and> path_exists fs (the ca)
         then (case load_credentials_from_files fs (the ca) cert key of
                 Inr ch \<Rightarrow> Inr ch
               | Inl CertNotFound \<Rightarrow> if strict then Inl StrictTLS else Inr InsecureChannel
               | Inl e \<Rightarrow> Inl e)
         else if tls_enabled \<and> strict then Inl StrictTLS
         else Inr InsecureChannel)"

text \<open>\<open>BridgeClient.connect\<close>: any exception leaves the client unavailable.\<close>

definition bridge_connect :: "file_system \<Rightarrow> environment \<Rightarrow> channel option" where
  "bridge_connect fs env =
     (let c = get_tls_config_from_env env
      in case create_client_channel fs env (tc_enabled c) (Some (tc_ca_cert c)) (Some (tc_client_cert c))
                (Some (tc_client_key c)) None of
           Inr ch \<Rightarrow> Some ch
         | Inl _ \<Rightarrow> None)"

text \<open>The port that \<open>ExecutionServer.start\<close> opens; without the gRPC package it opens none, other errors escape.\<close>

definition server_start :: "bool \<Rightarrow> file_system \<Rightarrow> environment \<Rightarrow> tls_error + server_port" where
  "server_start grpc_installed fs env =
     (let c = get_tls_config_from_env env
      in if \<not> grpc_installed then Inl NoGrpc
         else if tc_enabled c \<and> tc_server_cert c \<noteq> [] \<and> tc_server_key c \<noteq> []
         then (case load_server_credentials fs (tc_ca_cert c) (tc_server_cert c) (tc_server_key c) True of
                 Inl CertNotFound \<Rightarrow> Inr InsecurePort
               | r \<Rightarrow> r)
         else Inr InsecurePort)"

section \<open>Settings\<close>

text \<open>A setting of type \<open>float\<close>; comparisons with NaN are false.\<close>

datatype setting_float = FlNum rat | FlPosInf | FlNegInf | FlNaN

fun fl_le :: "rat \<Rightarrow> setting_float \<Rightarrow> bool" where
  "fl_le x (FlNum y) = (x \<le> y)"
| "fl_le x FlPosInf = True"
| "fl_le x _ = False"

fun fl_less :: "rat \<Rightarrow> setting_float \<Rightarrow> bool" where
  "fl_less x (FlNum y) = (x < y)"
| "fl_less x FlPosInf = True"
| "fl_less x _ = False"

fun fl_ge :: "rat \<Rightarrow> setting_float \<Rightarrow> bool" where
  "fl_ge x (FlNum y) = (y \<le> x)"
| "fl_ge x FlNegInf = True"
| "fl_ge x _ = False"

record base_settings =
  bs_env :: string
  bs_db_host :: string
  bs_db_port :: int
  bs_db_name :: string
  bs_db_user :: string
  bs_db_password :: string
  bs_redis_host :: string
  bs_redis_port :: int
  bs_redis_password :: string
  bs_zmq_pub_addr :: string
  bs_metrics_port :: int
  bs_tls_enabled :: bool
  bs_tls_ca_cert :: string

definition default_base_settings :: base_settings where
  "default_base_settings =
     \<lparr>bs_env = ''development'', bs_db_host = ''localhost'', bs_db_port = 5432, bs_db_name = ''moneymaker'',
      bs_db_user = ''moneymaker'', bs_db_password = [], bs_redis_host = ''localhost'', bs_redis_port = 6379,
      bs_redis_password = [], bs_zmq_pub_addr = ''tcp://localhost:5555'', bs_metrics_port = 9090,
      bs_tls_enabled = False, bs_tls_ca_cert = []\<rparr>"

text \<open>A validator passes or raises a message, which is named here.\<close>

datatype settings_error =
  DbPasswordRequired | RedisPasswordRequired | RiskPerTradeRange | DrawdownRange | DailyLossRange | ThresholdRange
  | PeriodNotPositive | MaxSignalsNotPositive | MaxLotsNotPositive | EmaOrder

definition validate_production_secrets :: "'a base_settings_scheme \<Rightarrow> settings_error + unit" where
  "validate_production_secrets st =
     (if bs_env st = ''production''
      then rbind (guard (bs_db_password st = []) DbPasswordRequired) (\<lambda>_. guard (bs_redis_password st = []) RedisPasswordRequired)
      else Inr ())"

text \<open>\<open>urllib.parse.quote_plus\<close> on ASCII.\<close>

definition unreserved :: "char \<Rightarrow> bool" where
  "unreserved c \<longleftrightarrow> is_lower_letter c \<or> is_upper_letter c \<or> is_digit c \<or> c \<in> set ''_.-~''"

definition upper_hex :: "nat \<Rightarrow> char" where
  "upper_hex n = ''0123456789ABCDEF'' ! n"

definition quote_char :: "char \<Rightarrow> string" where
  "quote_char c =
     (if unreserved c then [c] else if c = CHR '' '' then ''+''
      else [CHR ''%'', upper_hex (of_char c div 16), upper_hex (of_char c mod 16)])"

definition quote_plus :: "string \<Rightarrow> string" where
  "quote_plus s = concat (map quote_char s)"

definition ssl_params :: "'a base_settings_scheme \<Rightarrow> string" where
  "ssl_params st =
     (if bs_tls_enabled st
      then ''?sslmode=verify-full'' @ (if bs_tls_ca_cert st \<noteq> [] then ''&sslrootcert='' @ bs_tls_ca_cert st else [])
      else if bs_env st = ''production'' then ''?sslmode=require'' else ''?sslmode=prefer'')"

definition url_tail :: "'a base_settings_scheme \<Rightarrow> string" where
  "url_tail st = bs_db_host st @ '':'' @ show_int (bs_db_port st) @ ''/'' @ bs_db_name st @ ssl_params st"

definition database_url :: "'a base_settings_scheme \<Rightarrow> string" where
  "database_url st = ''postgresql://'' @ bs_db_user st @ '':'' @ quote_plus (bs_db_password st) @ ''@'' @ url_tail st"

definition database_url_async :: "'a base_settings_scheme \<Rightarrow> string" where
  "database_url_async st =
     ''postgresql+asyncpg://'' @ bs_db_user st @ '':'' @ quote_plus (bs_db_password st) @ ''@'' @ url_tail st"

definition redis_url :: "'a base_settings_scheme \<Rightarrow> string" where
  "redis_url st =
     (if bs_tls_enabled st then ''rediss'' else ''redis'') @ ''://''
     @ (if bs_redis_password st \<noteq> [] then '':'' @ quote_plus (bs_redis_password st) @ ''@'' else [])
     @ bs_redis_host st @ '':'' @ show_int (bs_redis_port st) @ ''/0''"

record algo_settings = base_settings +
  as_service_name :: string
  as_grpc_port :: int
  as_rest_port :: int
  as_algo_metrics_port :: int
  as_zmq_data_feed :: string
  as_mt5_bridge_target :: string
  as_confidence_threshold :: setting_float
  as_max_signals_per_hour :: int
  as_max_open_positions :: int
  as_max_daily_loss_pct :: setting_float
  as_max_drawdown_pct :: setting_float
  as_rsi_period :: int
  as_ema_fast :: int
  as_ema_slow :: int
  as_sma_period :: int
  as_bb_period :: int
  as_atr_period :: int
  as_primary_timeframe :: string
  as_timeframes :: string
  as_risk_per_trade_pct :: setting_float
  as_default_equity :: int
  as_default_leverage :: int
  as_max_lots :: setting_float
  as_max_exposure_per_currency :: int
  as_spiral_loss_threshold :: int
  as_spiral_max_losses :: int
  as_spiral_cooldown_minutes :: int
  as_telegram_bot_token :: string
  as_telegram_chat_id :: string
  as_calendar_file :: string
  as_calendar_before_min :: int
  as_calendar_after_min :: int

definition default_algo_settings :: algo_settings where
  "default_algo_settings = base_settings.extend default_base_settings
     (algo_settings.fields ''algo-engine'' 50057 8087 9097 ''tcp://localhost:5555'' ''localhost:50055''
        (FlNum 0.65) 10 5 (FlNum 2) (FlNum 5) 14 12 26 20 20 14 ''M5'' ''M1,M5,M15,H1''
        (FlNum 1) 1000 100 (FlNum 0.1) 3 3 5 60 [] [] [] 15 15)"

text \<open>The checks of one field each, then those of the whole object, base class first.\<close>

definition validate_fields :: "algo_settings \<Rightarrow> settings_error + unit" where
  "validate_fields st =
     rbind (guard (\<not> (fl_less 0 (as_confidence_threshold st) \<and> fl_ge 1 (as_confidence_threshold st))) ThresholdRange) (\<lambda>_.
     rbind (guard (as_max_signals_per_hour st \<le> 0) MaxSignalsNotPositive) (\<lambda>_.
     rbind (guard (\<not> (fl_le 0.5 (as_max_daily_loss_pct st) \<and> fl_ge 10 (as_max_daily_loss_pct st))) DailyLossRange) (\<lambda>_.
     rbind (guard (\<not> (fl_le 1 (as_max_drawdown_pct st) \<and> fl_ge 25 (as_max_drawdown_pct st))) DrawdownRange) (\<lambda>_.
     rbind (guard (list_ex (\<lambda>v. v \<le> 0) [as_rsi_period st, as_ema_fast st, as_ema_slow st, as_sma_period st,
              as_bb_period st, as_atr_period st]) PeriodNotPositive) (\<lambda>_.
     rbind (guard (\<not> (fl_le 0.1 (as_risk_per_trade_pct st) \<and> fl_ge 5 (as_risk_per_trade_pct st))) RiskPerTradeRange) (\<lambda>_.
       guard (fl_ge 0 (as_max_lots st)) MaxLotsNotPositive))))))"

definition validate_ema_ordering :: "algo_settings \<Rightarrow> settings_error + unit" where
  "validate_ema_ordering st = guard (as_ema_slow st \<le> as_ema_fast st) EmaOrder"

definition make_algo_settings :: "algo_settings \<Rightarrow> settings_error + algo_settings" where
  "make_algo_settings st =
     rbind (validate_fields st) (\<lambda>_. rbind (validate_production_secrets st) (\<lambda>_. rbind (validate_ema_ordering st) (\<lambda>_. Inr st)))"

text \<open>The text entries of the dumped settings, by field name; entries of other types are never masked.\<close>

definition dump_texts :: "algo_settings \<Rightarrow> (string \<times> string) list" where
  "dump_texts st =
     [(''moneymaker_env'', bs_env st), (''moneymaker_db_host'', bs_db_host st), (''moneymaker_db_name'', bs_db_name st),
      (''moneymaker_db_user'', bs_db_user st), (''moneymaker_db_password'', bs_db_password st),
      (''moneymaker_redis_host'', bs_redis_host st), (''moneymaker_redis_password'', bs_redis_password st),
      (''moneymaker_zmq_pub_addr'', bs_zmq_pub_addr st), (''moneymaker_tls_ca_cert'', bs_tls_ca_cert st),
      (''algo_service_name'', as_service_name st), (''algo_zmq_data_feed'', as_zmq_data_feed st),
      (''algo_mt5_bridge_target'', as_mt5_bridge_target st), (''algo_primary_timeframe'', as_primary_timeframe st),
      (''algo_timeframes'', as_timeframes st), (''algo_telegram_bot_token'', as_telegram_bot_token st),
      (''algo_telegram_chat_id'', as_telegram_chat_id st), (''algo_calendar_file'', as_calendar_file st)]"

definition safe_dump :: "(string \<times> string) list \<Rightarrow> (string \<times> string) list" where
  "safe_dump dumped =
     foldl (\<lambda>d key. if opt_get (map_of d key) [] \<noteq> [] then dict_set key ''***'' d else d) dumped [''algo_telegram_bot_token'']"

section \<open>Accepted secrets\<close>

definition acceptable_secret :: "nat \<Rightarrow> bool \<Rightarrow> string \<Rightarrow> bool" where
  "acceptable_secret n complex v \<longleftrightarrow> n \<le> length v \<and>
     list_all (\<lambda>p. \<not> str_contains (str_lower p) (str_lower v)) WEAK_PATTERNS \<and> (complex \<longrightarrow> has_sufficient_complexity v)"

lemma weak_pattern_None: "weak_pattern v = None \<longleftrightarrow> list_all (\<lambda>p. \<not> str_contains (str_lower p) (str_lower v)) WEAK_PATTERNS"
  by (auto simp: weak_pattern_def find_None_iff list_all_iff)

lemma load_secret_Inr:
  "load_secret fs env name env_var n required complex = Inr v \<longleftrightarrow>
     v = secret_source fs env name env_var \<and>
     (if v = [] then \<not> required else acceptable_secret (opt_get n (get_min_length name)) complex v)"
  by (auto simp: load_secret_def Let_def acceptable_secret_def not_less simp flip: weak_pattern_None split: option.splits)

text \<open>
  Secrets are accepted all together or not at all: outside development the startup check returns a dictionary
  exactly when both sources hold a value of at least sixteen characters with three kinds of characters and none of
  the weak words in it, and the dictionary then holds these two values.
\<close>

theorem required_secrets_iff:
  assumes "mode \<noteq> ''development''"
  shows "validate_required_secrets fs env mode = Inr secrets \<longleftrightarrow>
    (let db = secret_source fs env ''db_password'' ''MONEYMAKER_DB_PASSWORD'';
         redis = secret_source fs env ''redis_password'' ''MONEYMAKER_REDIS_PASSWORD''
     in acceptable_secret 16 True db \<and> acceptable_secret 16 True redis \<and>
        secrets = [(''db_password'', db), (''redis_password'', redis)])"
proof -
  have len: "get_min_length ''db_password'' = 16" "get_min_length ''redis_password'' = 16"
    by (simp_all add: get_min_length_def MIN_LENGTHS_def)
  have nonempty: "\<not> acceptable_secret 16 True []" by (simp add: acceptable_secret_def)
  let ?r1 = "load_secret fs env ''db_password'' ''MONEYMAKER_DB_PASSWORD'' None True True"
  let ?r2 = "load_secret fs env ''redis_password'' ''MONEYMAKER_REDIS_PASSWORD'' None True True"
  let ?db = "secret_source fs env ''db_password'' ''MONEYMAKER_DB_PASSWORD''"
  let ?redis = "secret_source fs env ''redis_password'' ''MONEYMAKER_REDIS_PASSWORD''"
  have each: "?r1 = Inr v \<longleftrightarrow> v = ?db \<and> acceptable_secret 16 True ?db"
    "?r2 = Inr v \<longleftrightarrow> v = ?redis \<and> acceptable_secret 16 True ?redis" for v
    unfolding load_secret_Inr len opt_get_simps using nonempty by (metis (full_types))+
  have "validate_required_secrets fs env mode = Inr secrets \<longleftrightarrow>
    (\<exists>v1 v2. ?r1 = Inr v1 \<and> ?r2 = Inr v2 \<and> secrets = [(''db_password'', v1), (''redis_password'', v2)])"
    using assms by (cases ?r1; cases ?r2) (auto simp: validate_required_secrets_def REQUIRED_SECRETS_def Let_def)
  then show ?thesis unfolding each Let_def by blast
qed

lemma required_secrets_iff_witness:
  "validate_required_secrets (\<lambda>p. NoEntry) [''MONEYMAKER_DB_PASSWORD'' \<mapsto> ''k7Gq!x2Lm0Zt9RwB'', ''MONEYMAKER_REDIS_PASSWORD'' \<mapsto> ''short''] ''production''
     \<noteq> Inr [(''db_password'', ''k7Gq!x2Lm0Zt9RwB''), (''redis_password'', ''short'')]"
proof -
  have s: "secret_source (\<lambda>p. NoEntry) [''MONEYMAKER_DB_PASSWORD'' \<mapsto> ''k7Gq!x2Lm0Zt9RwB'', ''MONEYMAKER_REDIS_PASSWORD'' \<mapsto> ''short'']
      ''redis_password'' ''MONEYMAKER_REDIS_PASSWORD'' = ''short''" by code_simp
  have a: "\<not> acceptable_secret 16 True ''short''" by (simp add: acceptable_secret_def)
  show ?thesis by (subst required_secrets_iff) (simp_all add: Let_def s a)
qed

text \<open>The generator returns as soon as a candidate is complex, and never otherwise.\<close>

lemma generate_from_found:
  assumes "\<And>j. k \<le> j \<Longrightarrow> j < k + n \<Longrightarrow> \<not> has_sufficient_complexity (candidate draw len j)"
    and "has_sufficient_complexity (candidate draw len (k + n))"
  shows "generate_from draw len k = Some (candidate draw len (k + n))"
  using assms
proof (induction n arbitrary: k)
  case 0
  then show ?case by (subst generate_from.simps) simp
next
  case (Suc n)
  have "generate_from draw len (Suc k) = Some (candidate draw len (Suc k + n))"
    by (rule Suc.IH) (use Suc.prems in auto)
  then show ?case using Suc.prems(1) [of k] by (subst generate_from.simps) simp
qed

lemma generate_from_result:
  assumes "generate_from draw len k = Some p"
  shows "\<exists>n. p = candidate draw len (k + n) \<and> has_sufficient_complexity p"
proof (rule generate_from.raw_induct [where P = "\<lambda>draw len k p. \<exists>n. p = candidate draw len (k + n) \<and> has_sufficient_complexity p", OF _ assms])
  fix rec :: "(nat \<Rightarrow> nat \<Rightarrow> char) \<Rightarrow> int \<Rightarrow> nat \<Rightarrow> string option" and draw len k p
  assume IH: "\<And>d l k p. rec d l k = Some p \<Longrightarrow> \<exists>n. p = candidate d l (k + n) \<and> has_sufficient_complexity p"
    and step: "(let password = candidate draw len k
       in if has_sufficient_complexity password then Some password else rec draw len (Suc k)) = Some p"
  show "\<exists>n. p = candidate draw len (k + n) \<and> has_sufficient_complexity p"
  proof (cases "has_sufficient_complexity (candidate draw len k)")
    case True
    then show ?thesis using step by (intro exI [of _ 0]) (simp add: Let_def)
  next
    case False
    then have "rec draw len (Suc k) = Some p" using step by (simp add: Let_def)
    from IH [OF this] obtain n where "p = candidate draw len (Suc k + n)" "has_sufficient_complexity p" by blast
    then show ?thesis by (intro exI [of _ "Suc n"]) simp
  qed
qed

text \<open>
  The password generator returns exactly when some candidate that it would draw is complex enough; what it returns
  is such a candidate, of the requested length but at least sixteen, and over the alphabet of the draws.
\<close>

theorem generated_password:
  "((\<exists>p. generate_secure_password draw len = Some p) = (\<exists>k. has_sufficient_complexity (candidate draw len k))) \<and>
   (case generate_secure_password draw len of
      None \<Rightarrow> True
    | Some p \<Rightarrow> has_sufficient_complexity p \<and> int (length p) = max 16 len \<and> set p \<subseteq> (\<Union>k. range (draw k)))"
proof -
  have found: "\<exists>p. generate_secure_password draw len = Some p" if "has_sufficient_complexity (candidate draw len k)" for k
  proof -
    define n where "n = (LEAST k. has_sufficient_complexity (candidate draw len k))"
    have "has_sufficient_complexity (candidate draw len n)" unfolding n_def by (rule LeastI [of _ k]) (rule that)
    moreover have "\<not> has_sufficient_complexity (candidate draw len j)" if "j < n" for j
      using that not_less_Least unfolding n_def by blast
    ultimately show ?thesis using generate_from_found [of 0 n draw len] by (auto simp: generate_secure_password_def)
  qed
  have result: "has_sufficient_complexity p \<and> (\<exists>n. p = candidate draw len n)" if "generate_secure_password draw len = Some p" for p
    using generate_from_result [of draw len 0 p] that by (auto simp: generate_secure_password_def)
  have shape: "int (length (candidate draw len n)) = max 16 len" "set (candidate draw len n) \<subseteq> (\<Union>k. range (draw k))" for n
    by (auto simp: candidate_def)
  show ?thesis using found result shape by (auto split: option.split) blast+
qed

text \<open>The masked text keeps the length and, for a positive count, shows that many last characters only.\<close>

lemma mask_secret_hides:
  assumes "0 < n" "length v = length v'" "last_n n v = last_n n v'" "n < length v"
  shows "mask_secret v n = mask_secret v' n"
  using assms by (simp add: mask_secret_def)

theorem mask_secret_zero: "v \<noteq> [] \<Longrightarrow> mask_secret v 0 = replicate (length v) (CHR ''*'') @ v"
  by (simp add: mask_secret_def)

lemma mask_secret_zero_witness: "mask_secret ''k7Gq'' 0 = ''****k7Gq''"
  by (subst mask_secret_zero) simp_all

section \<open>Channels\<close>

lemma load_credentials_Inr:
  "load_credentials_from_files fs ca cert key = Inr ch \<longleftrightarrow>
     nonempty cert = nonempty key \<and>
     (\<exists>r. fs ca = FileText r \<and>
        (if nonempty cert
         then \<exists>c k. fs (the cert) = FileText c \<and> fs (the key) = FileText k \<and> ch = SecureChannel r (Some (k, c))
         else ch = SecureChannel r None))"
  by (auto simp: load_credentials_from_files_def must_exist_def read_bytes_def path_exists_def split: fs_entry.splits)

lemma server_credentials_Inr:
  "load_server_credentials fs ca cert key b = Inr p \<longleftrightarrow>
     (\<exists>r c k. fs ca = FileText r \<and> fs cert = FileText c \<and> fs key = FileText k \<and>
        p = SecurePort k c (if b then Some r else None))"
  by (auto simp: load_server_credentials_def must_exist_def read_bytes_def path_exists_def split: fs_entry.splits)

text \<open>
  C40. In production a client that asks for TLS never talks in the clear: the connection is either refused, or
  encrypted under the configured root certificate, with the client pair exactly when one is configured.
\<close>

theorem production_channel_secure:
  assumes "tc_enabled (get_tls_config_from_env env)" "env_is_production env"
  shows "case bridge_connect fs env of
      None \<Rightarrow> True
    | Some InsecureChannel \<Rightarrow> False
    | Some (SecureChannel ca pair) \<Rightarrow>
        (let c = get_tls_config_from_env env
         in fs (tc_ca_cert c) = FileText ca \<and> (pair \<noteq> None) = (tc_client_cert c \<noteq> []) \<and>
            (\<forall>p\<in>set_option pair. fs (tc_client_key c) = FileText (fst p) \<and> fs (tc_client_cert c) = FileText (snd p)))"
proof -
  let ?c = "get_tls_config_from_env env"
  have "ch = r" if "create_client_channel fs env True (Some (tc_ca_cert ?c)) (Some (tc_client_cert ?c)) (Some (tc_client_key ?c)) None = Inr ch"
    "load_credentials_from_files fs (tc_ca_cert ?c) (Some (tc_client_cert ?c)) (Some (tc_client_key ?c)) = Inr r" for ch r
    using that assms by (auto simp: create_client_channel_def Let_def split: if_splits)
  moreover have "\<exists>r. load_credentials_from_files fs (tc_ca_cert ?c) (Some (tc_client_cert ?c)) (Some (tc_client_key ?c)) = Inr r"
    if "create_client_channel fs env True (Some (tc_ca_cert ?c)) (Some (tc_client_cert ?c)) (Some (tc_client_key ?c)) None = Inr ch" for ch
    using that assms by (auto simp: create_client_channel_def Let_def split: if_splits sum.splits tls_error.splits)
  ultimately have "load_credentials_from_files fs (tc_ca_cert ?c) (Some (tc_client_cert ?c)) (Some (tc_client_key ?c)) = Inr ch"
    if "bridge_connect fs env = Some ch" for ch
    using that assms(1) by (auto simp: bridge_connect_def Let_def split: sum.splits)
  then show ?thesis
    by (auto simp: load_credentials_Inr nonempty_def Let_def split: option.split channel.split if_splits)
qed

definition sample_tls_env :: environment where
  "sample_tls_env = [''MONEYMAKER_TLS_ENABLED'' \<mapsto> ''true'', ''MONEYMAKER_ENV'' \<mapsto> ''production'',
     ''MONEYMAKER_TLS_SERVER_CERT'' \<mapsto> ''/s.crt'', ''MONEYMAKER_TLS_SERVER_KEY'' \<mapsto> ''/s.key'']"

definition sample_tls_fs :: file_system where
  "sample_tls_fs p = (if p = ''/etc/ssl/certs/ca.crt'' then FileText ''CA'' else NoEntry)"

lemma production_channel_secure_witness:
  "bridge_connect sample_tls_fs sample_tls_env = Some (SecureChannel ''CA'' None) \<and>
   bridge_connect (\<lambda>p. NoEntry) sample_tls_env \<noteq> Some InsecureChannel"
proof -
  have e: "tc_enabled (get_tls_config_from_env sample_tls_env)" "env_is_production sample_tls_env"
    "bridge_connect sample_tls_fs sample_tls_env = Some (SecureChannel ''CA'' None)" by code_simp+
  then show ?thesis using production_channel_secure [OF e(1,2), of "\<lambda>p. NoEntry"] by auto
qed

text \<open>
  The server has no such rule: in production with TLS enabled, a missing certificate file or an unset certificate path
  opens the port in the clear.
\<close>

theorem production_server_insecure:
  assumes "fs (tc_server_cert (get_tls_config_from_env env)) = NoEntry \<or> tc_server_cert (get_tls_config_from_env env) = []"
  shows "server_start True fs env = Inr InsecurePort"
  using assms by (auto simp: server_start_def load_server_credentials_def must_exist_def path_exists_def Let_def guard_def)

lemma production_server_insecure_witness:
  "env_is_production sample_tls_env \<and> tc_enabled (get_tls_config_from_env sample_tls_env) \<and>
   server_start True sample_tls_fs sample_tls_env = Inr InsecurePort"
proof -
  have e: "sample_tls_fs (tc_server_cert (get_tls_config_from_env sample_tls_env)) = NoEntry"
    "env_is_production sample_tls_env" "tc_enabled (get_tls_config_from_env sample_tls_env)" by code_simp+
  then show ?thesis using production_server_insecure [of sample_tls_fs sample_tls_env] by simp
qed

section \<open>Connection URLs\<close>

text \<open>The inverse of the quoting, as the driver applies it to the password of a URL.\<close>

definition hex_value :: "char \<Rightarrow> nat" where
  "hex_value c = (if is_digit c then of_char c - 48 else of_char c - 55)"

fun unquote_plus :: "string \<Rightarrow> string" where
  "unquote_plus [] = []"
| "unquote_plus (c # s) =
     (if c = CHR ''+'' then CHR '' '' # unquote_plus s
      else if c = CHR ''%'' \<and> 2 \<le> length s
      then char_of (16 * hex_value (hd s) + hex_value (hd (tl s))) # unquote_plus (drop 2 s)
      else c # unquote_plus s)"

lemma upper_hex_value: "n < 16 \<Longrightarrow> hex_value (upper_hex n) = n"
proof -
  have "list_all (\<lambda>n. hex_value (upper_hex n) = n) [0..<16]" by code_simp
  then show "n < 16 \<Longrightarrow> hex_value (upper_hex n) = n" by (simp add: list_all_iff)
qed

lemma upper_hex_plain: "n < 16 \<Longrightarrow> unreserved (upper_hex n)"
proof -
  have "list_all (\<lambda>n. unreserved (upper_hex n)) [0..<16]" by code_simp
  then show "n < 16 \<Longrightarrow> unreserved (upper_hex n)" by (simp add: list_all_iff)
qed

lemma char_split: "of_char c div 16 < (16::nat)" "of_char c mod 16 < (16::nat)" "16 * (of_char c div 16) + of_char c mod 16 = (of_char c :: nat)"
proof -
  have "(of_char c :: nat) < 256" by simp
  then show "of_char c div 16 < (16::nat)" by linarith
qed simp_all

lemma unreserved_not_special: "unreserved c \<Longrightarrow> c \<noteq> CHR ''+'' \<and> c \<noteq> CHR ''%'' \<and> c \<noteq> CHR ''@'' \<and> c \<noteq> CHR '':'' \<and> c \<noteq> CHR ''/''"
  by (auto simp: unreserved_def is_lower_letter_def is_upper_letter_def is_digit_def)

lemma unquote_quote_char: "unquote_plus (quote_char c @ s) = c # unquote_plus s"
  using unreserved_not_special [of c] char_split [of c]
  by (auto simp: quote_char_def upper_hex_value)

lemma unquote_quote: "unquote_plus (quote_plus s) = s"
  by (induction s) (simp_all add: quote_plus_def unquote_quote_char)

lemma quote_char_chars: "d \<in> set (quote_char c) \<Longrightarrow> unreserved d \<or> d = CHR ''+'' \<or> d = CHR ''%''"
  using char_split(1,2) [of c] upper_hex_plain by (auto simp: quote_char_def split: if_splits)

lemma quote_plus_chars:
  assumes "c \<in> set (quote_plus s)"
  shows "c \<noteq> CHR ''@'' \<and> c \<noteq> CHR '':'' \<and> c \<noteq> CHR ''/''"
proof -
  obtain d where "c \<in> set (quote_char d)" using assms by (auto simp: quote_plus_def)
  from quote_char_chars [OF this] show ?thesis using unreserved_not_special by auto
qed

text \<open>
  The password travels through the database URL unharmed, whatever its characters: quoted, it holds no \<open>@\<close>,
  \<open>:\<close> or \<open>/\<close> that could end it early, and unquoting the text between the user name and the next \<open>@\<close> gives the
  password back; the same holds for the asynchronous URL.
\<close>

theorem url_password_roundtrip:
  "unquote_plus (takeWhile (\<lambda>c. c \<noteq> CHR ''@'') (drop (length (''postgresql://'' @ bs_db_user st @ '':'')) (database_url st)))
      = bs_db_password st \<and>
   unquote_plus (takeWhile (\<lambda>c. c \<noteq> CHR ''@'') (drop (length (''postgresql+asyncpg://'' @ bs_db_user st @ '':'')) (database_url_async st)))
      = bs_db_password st"
proof -
  have cut: "takeWhile (\<lambda>c. c \<noteq> CHR ''@'') (drop (length pre) (pre @ quote_plus p @ CHR ''@'' # post)) = quote_plus p" for pre p post
  proof -
    have "takeWhile (\<lambda>c. c \<noteq> CHR ''@'') (quote_plus p @ CHR ''@'' # post) = quote_plus p @ takeWhile (\<lambda>c. c \<noteq> CHR ''@'') (CHR ''@'' # post)"
      using quote_plus_chars by (intro takeWhile_append2) blast
    then show ?thesis by simp
  qed
  have urls: "database_url st = (''postgresql://'' @ bs_db_user st @ '':'') @ quote_plus (bs_db_password st) @ CHR ''@'' # url_tail st"
    "database_url_async st = (''postgresql+asyncpg://'' @ bs_db_user st @ '':'') @ quote_plus (bs_db_password st) @ CHR ''@'' # url_tail st"
    by (simp_all add: database_url_def database_url_async_def)
  show ?thesis unfolding urls cut unquote_quote by simp
qed

section \<open>Accepted settings\<close>

lemma fl_between: "fl_le x v \<and> fl_ge y v \<longleftrightarrow> (\<exists>r. v = FlNum r \<and> x \<le> r \<and> r \<le> y)"
  by (cases v) auto

lemma fl_between_strict: "fl_less x v \<and> fl_ge y v \<longleftrightarrow> (\<exists>r. v = FlNum r \<and> x < r \<and> r \<le> y)"
  by (cases v) auto

lemma fl_not_ge: "\<not> fl_ge 0 v \<longleftrightarrow> v = FlNaN \<or> v = FlPosInf \<or> (\<exists>r. v = FlNum r \<and> 0 < r)"
  by (cases v) auto

text \<open>
  Which settings an engine starts with: exactly those whose threshold, loss, drawdown and risk are numbers in their
  ranges, whose periods and signal limit are positive, whose fast average is shorter than the slow one, whose passwords
  are set when the environment is \<open>production\<close>, and whose lot limit is positive, infinite or NaN.
\<close>

theorem settings_accepted_iff:
  "make_algo_settings st = Inr st' \<longleftrightarrow> st' = st \<and>
    (\<exists>c l d r. as_confidence_threshold st = FlNum c \<and> 0 < c \<and> c \<le> 1 \<and>
       as_max_daily_loss_pct st = FlNum l \<and> 0.5 \<le> l \<and> l \<le> 10 \<and>
       as_max_drawdown_pct st = FlNum d \<and> 1 \<le> d \<and> d \<le> 25 \<and>
       as_risk_per_trade_pct st = FlNum r \<and> 0.1 \<le> r \<and> r \<le> 5) \<and>
    0 < as_max_signals_per_hour st \<and>
    list_all (\<lambda>p. 0 < p) [as_rsi_period st, as_ema_fast st, as_ema_slow st, as_sma_period st, as_bb_period st, as_atr_period st] \<and>
    as_ema_fast st < as_ema_slow st \<and>
    (bs_env st = ''production'' \<longrightarrow> bs_db_password st \<noteq> [] \<and> bs_redis_password st \<noteq> []) \<and>
    (as_max_lots st = FlNaN \<or> as_max_lots st = FlPosInf \<or> (\<exists>x. as_max_lots st = FlNum x \<and> 0 < x))"
  unfolding make_algo_settings_def validate_fields_def validate_production_secrets_def validate_ema_ordering_def
    rbind_eq_Inr guard_simps not_not fl_between fl_between_strict fl_not_ge
  by (auto simp: not_le)

text \<open>The word \<open>prod\<close> counts as production for the channels and not for the settings.\<close>

theorem prod_without_passwords:
  "let st = default_algo_settings\<lparr>bs_env := ''prod''\<rparr>
   in make_algo_settings st = Inr st \<and> ssl_params st = ''?sslmode=prefer'' \<and>
      env_is_production [''MONEYMAKER_ENV'' \<mapsto> bs_env st]"
  by code_simp

text \<open>The dump that is logged at start masks one token and shows the passwords.\<close>

theorem dump_shows_passwords:
  "map_of (safe_dump (dump_texts st)) ''moneymaker_db_password'' = Some (bs_db_password st) \<and>
   map_of (safe_dump (dump_texts st)) ''moneymaker_redis_password'' = Some (bs_redis_password st)"
  by (simp add: safe_dump_def dump_texts_def)

lemma dump_masks_token: "map_of (safe_dump (dump_texts st)) ''algo_telegram_bot_token'' \<in> {Some [], Some ''***''}"
  by (simp add: safe_dump_def dump_texts_def)
end
