(* ===== verification/Console_Audit.thy ===== *)
theory Console_Audit
  imports Env_File Service_Config
begin

text \<open>
  The audit commands of the console: the subprocess runner \<open>run_tool\<close> of \<open>runner.py\<close> and every report of
  \<open>commands/audit.py\<close>. What a subprocess prints and returns is a function of its command line and directory; the
  modes of the files and the environment are part of the world, and the saved report is its change.
\<close>

section \<open>The runner\<close>

datatype process_end = Exited int string string | ProcessTimeout | CommandMissing | ProcessError string

definition OUTPUT_TRIM_LINES :: nat where
  "OUTPUT_TRIM_LINES = 80"

definition trim_output :: "string \<Rightarrow> string list" where
  "trim_output output =
     (let lines = splitlines [] (str_strip output)
      in if OUTPUT_TRIM_LINES < length lines
         then take OUTPUT_TRIM_LINES lines @ [''... ('' @ show_nat (length lines - OUTPUT_TRIM_LINES) @ '' lines omitted)'']
         else lines)"

definition run_tool :: "process_end \<Rightarrow> string list \<Rightarrow> nat \<Rightarrow> string" where
  "run_tool outcome cmd timeout =
     (case outcome of
        Exited code out err \<Rightarrow> (if code = 0 then ''[success]'' else ''[error]'') @ '' '' @ join nl (trim_output (out @ err))
      | ProcessTimeout \<Rightarrow> ''[error] Timeout ('' @ show_nat timeout @ ''s)''
      | CommandMissing \<Rightarrow> ''[error] Command not found: '' @ hd cmd
      | ProcessError e \<Rightarrow> ''[error] '' @ e)"

section \<open>The reports\<close>

record audit_world =
  aw_exec :: "string list \<Rightarrow> string \<Rightarrow> process_end"
  aw_fs :: file_system
  aw_mode :: "string \<Rightarrow> nat option"
  aw_environ :: environment
  aw_root :: string
  aw_audit_rows :: "int option"
  aw_now :: string
  aw_saved :: "(string \<times> string) list"

text \<open>Modes are \<open>None\<close> for a missing file; the lowest nine bits count.\<close>

definition tool :: "audit_world \<Rightarrow> string list \<Rightarrow> string \<Rightarrow> string" where
  "tool w cmd cwd = run_tool (aw_exec w cmd cwd) cmd 300"

definition perm :: "nat \<Rightarrow> nat" where
  "perm mode = mode mod 512"

fun show_octal :: "nat \<Rightarrow> string" where
  "show_octal n = (if n < 8 then [char_of (48 + n)] else show_octal (n div 8) @ [char_of (48 + n mod 8)])"

declare show_octal.simps [simp del]

definition oct_text :: "nat \<Rightarrow> string" where
  "oct_text n = ''0o'' @ show_octal n"

definition env_permission_line :: "nat option \<Rightarrow> string" where
  "env_permission_line mode =
     (case mode of
        None \<Rightarrow> ''  [INFO]    No .env file found''
      | Some m \<Rightarrow> if perm m \<le> 384 then ''  [OK]      .env permissions: restricted''
                  else ''  [WARNING] .env permissions: '' @ oct_text (perm m) @ '' (should be 0o600)'')"

definition git_history_cmd :: "string list" where
  "git_history_cmd = [''git'', ''log'', ''--all'', ''-p'', ''--diff-filter=A'', ''-S'', ''PASSWORD'', ''--format=%h %s'', ''--'',
     ''*.py'', ''*.yml'', ''*.yaml'']"

definition compose_file :: "audit_world \<Rightarrow> string" where
  "compose_file w = aw_root w @ ''/infra/docker/docker-compose.yml''"

text \<open>A file that exists and cannot be read raises; the report of a readable or missing one is modelled.\<close>

definition compose_text :: "audit_world \<Rightarrow> string option" where
  "compose_text w = (case aw_fs w (compose_file w) of FileText t \<Rightarrow> Some (universal_newlines False t) | _ \<Rightarrow> None)"

definition audit_security :: "audit_world \<Rightarrow> string list" where
  "audit_security w =
     [''Security Audit'', replicate 50 (CHR ''='')]
     @ [env_permission_line (aw_mode w (aw_root w @ ''/.env''))]
     @ [if str_strip (tool w git_history_cmd (aw_root w)) \<noteq> []
        then ''  [WARNING] Potential secrets found in git history''
        else ''  [OK]      No PASSWORD strings in tracked Python/YAML files'']
     @ [''  [INFO]    TLS enabled: '' @ getenv (aw_environ w) ''MONEYMAKER_TLS_ENABLED'' ''false'']
     @ [if getenv (aw_environ w) ''MONEYMAKER_REDIS_PASSWORD'' [] \<noteq> [] then ''  [OK]      Redis password configured''
        else ''  [WARNING] Redis password not set'']
     @ (case compose_text w of
          None \<Rightarrow> []
        | Some t \<Rightarrow> [if str_contains ''privileged: true'' t then ''  [WARNING] Docker: privileged containers detected''
                     else ''  [OK]      Docker: no privileged containers''])"

definition SECRET_SCAN_PATTERNS :: "string list" where
  "SECRET_SCAN_PATTERNS = [''PRIVATE.KEY'', ''BEGIN RSA'', ''BEGIN EC'', ''sk_live_'', ''sk_test_'', ''ghp_'', ''gho_'']"

definition scan_cmd :: "bool \<Rightarrow> string \<Rightarrow> string list" where
  "scan_cmd deep pattern =
     (if deep then [''git'', ''log'', ''--all'', ''-p'', ''-S'', pattern, ''--format=%h'']
      else [''git'', ''grep'', ''-l'', pattern, ''--'', ''*.py'', ''*.yml'', ''*.yaml'', ''*.json''])"

definition scan_line :: "audit_world \<Rightarrow> bool \<Rightarrow> string \<Rightarrow> string" where
  "scan_line w deep pattern =
     (let result = str_strip (tool w (scan_cmd deep pattern) (aw_root w))
      in if result \<noteq> [] then ''  [FOUND]   Pattern '' @ quoted pattern @ '' in: '' @ take 80 result
         else ''  [CLEAN]   No '' @ quoted pattern @ '' matches'')"

definition audit_secrets :: "string list \<Rightarrow> audit_world \<Rightarrow> string list" where
  "audit_secrets args w =
     [''Secret Scan'', replicate 50 (CHR ''='')] @ map (scan_line w (''--deep'' \<in> set args)) SECRET_SCAN_PATTERNS"

definition audit_tls :: "audit_world \<Rightarrow> string list" where
  "audit_tls w =
     (let ca = getenv (aw_environ w) ''MONEYMAKER_TLS_CA_CERT'' []
      in [''TLS Audit'', replicate 40 (CHR ''='')]
         @ (if ca \<noteq> [] \<and> path_exists (aw_fs w) ca
            then [''  CA cert: '' @ ca,
                  ''  Expiry:  '' @ str_strip (tool w [''openssl'', ''x509'', ''-in'', ca, ''-noout'', ''-enddate''] (aw_root w))]
            else [''  [INFO] No TLS CA cert configured'']))"

definition audit_dependencies :: "audit_world \<Rightarrow> string list" where
  "audit_dependencies w =
     (let pip = tool w [''python3'', ''-m'', ''pip_audit''] (aw_root w); go_dir = aw_root w @ ''/services/data-ingestion''
      in [''Dependency Audit'', replicate 50 (CHR ''='')]
         @ [if str_contains ''No known vulnerabilities'' pip then ''  [OK]   Python: No known vulnerabilities''
            else if str_strip pip \<noteq> [] then ''  [WARN] Python: '' @ take 200 (str_strip pip)
            else ''  [INFO] pip-audit not installed. Run: pip install pip-audit'']
         @ (if path_exists (aw_fs w) go_dir
            then (let go = str_strip (tool w [''govulncheck'', ''./...''] go_dir)
                  in [if go \<noteq> [] then ''  [INFO] Go: '' @ take 200 go else ''  [INFO] govulncheck not available''])
            else []))"

definition permission_line :: "audit_world \<Rightarrow> string \<times> string \<Rightarrow> string" where
  "permission_line w pn =
     (case aw_mode w (fst pn) of
        None \<Rightarrow> ''  [SKIP]    '' @ fst pn @ '': not found''
      | Some m \<Rightarrow> ''  ['' @ ljust 8 (if m mod 64 = 0 then ''OK'' else ''TOO OPEN'') @ ''] '' @ snd pn @ '': '' @ oct_text (perm m))"

definition audit_permissions :: "audit_world \<Rightarrow> string list" where
  "audit_permissions w =
     [''Permission Audit'', replicate 50 (CHR ''='')]
     @ map (permission_line w) [(aw_root w @ ''/.env'', ''.env''), (aw_root w @ ''/infra/tls'', ''tls'')]"

definition docker_checks :: "(string \<times> string \<times> string) list" where
  "docker_checks =
     [(''privileged: true'', ''No privileged containers'', ''Privileged container found''),
      (''user: root'', ''No root user'', ''Root user detected''),
      (''network_mode: host'', ''No host networking'', ''Host network mode found'')]"

definition audit_docker :: "audit_world \<Rightarrow> string list" where
  "audit_docker w =
     (case compose_text w of
        None \<Rightarrow> [''[error] docker-compose.yml not found.'']
      | Some t \<Rightarrow>
          [''Docker Security Audit'', replicate 50 (CHR ''='')]
          @ map (\<lambda>(pattern, ok_msg, warn_msg). if str_contains pattern t then ''  [WARNING] '' @ warn_msg
                                              else ''  [OK]      '' @ ok_msg) docker_checks)"

definition audit_hashchain :: "audit_world \<Rightarrow> string list" where
  "audit_hashchain w =
     (let rows = opt_get (aw_audit_rows w) 0
      in if rows = 0 then [''No audit log entries to verify.'']
         else [''Hash Chain Verification'', replicate 40 (CHR ''=''), ''  Entries: '' @ show_int rows,
               ''  [info] Full hash chain verification requires sequential scan.'',
               ''  Use moneymaker_common.audit_pg for programmatic verification.''])"

definition audit_compliance :: "string list" where
  "audit_compliance =
     [''Compliance Report'', replicate 50 (CHR ''=''), [],
      ''  1. Audit Trail:      See '' @ quoted ''audit hashchain'',
      ''  2. Data Retention:   See '' @ quoted ''maint retention'',
      ''  3. Credentials:      See '' @ quoted ''audit secrets'',
      ''  4. TLS:              See '' @ quoted ''audit tls'',
      ''  5. Access Control:   See '' @ quoted ''audit permissions'',
      ''  6. Docker Security:  See '' @ quoted ''audit docker'', [],
      ''  Generate full report: audit report --format md'']"

datatype env_issue = TooShort | DefaultValue

definition env_issue_of :: "string \<times> string \<Rightarrow> env_issue option" where
  "env_issue_of kv =
     (if \<not> is_secret (fst kv) then None
      else if length (snd kv) < 16 then Some TooShort
      else if snd kv \<in> {''password'', ''changeme'', ''admin'', ''default''} then Some DefaultValue
      else None)"

definition env_issue_line :: "string \<Rightarrow> env_issue \<Rightarrow> string" where
  "env_issue_line key i =
     (case i of TooShort \<Rightarrow> ''  [WEAK]    '' @ key @ '': password too short (<16 chars)''
              | DefaultValue \<Rightarrow> ''  [DEFAULT] '' @ key @ '': using default value'')"

definition audit_env :: "audit_world \<Rightarrow> string list" where
  "audit_env w =
     (let env = sort_key fst (read_env_file (case aw_fs w (aw_root w @ ''/.env'') of FileText t \<Rightarrow> Some t | _ \<Rightarrow> None));
          issues = List.map_filter (\<lambda>kv. map_option (env_issue_line (fst kv)) (env_issue_of kv)) env
      in if env = [] then [''[warning] No .env file found.'']
         else [''Environment Audit'', replicate 50 (CHR ''='')] @ issues
              @ [if issues = [] then ''  [OK] All secrets meet minimum requirements.''
                 else nl @ ''  '' @ show_nat (length issues) @ '' issue(s) found.''])"

fun report_format :: "string list \<Rightarrow> string \<Rightarrow> string" where
  "report_format (a # b # rest) fmt = report_format (b # rest) (if a = ''--format'' then b else fmt)"
| "report_format rest fmt = fmt"

definition audit_report :: "string list \<Rightarrow> audit_world \<Rightarrow> string \<times> audit_world" where
  "audit_report args w =
     (let sections = [(''Security'', audit_security w), (''Secrets'', audit_secrets [] w), (''TLS'', audit_tls w),
            (''Permissions'', audit_permissions w), (''Docker'', audit_docker w), (''Environment'', audit_env w)];
          parts = (''# MONEYMAKER Security Audit Report'' @ nl)
            # map (\<lambda>(name, ls). nl @ ''## '' @ name @ nl @ ''```'' @ nl @ join nl ls @ nl @ ''```'' @ nl) sections;
          report = join nl parts;
          out = aw_root w @ ''/../AUDIT_REPORTS/audit_'' @ aw_now w @ ''.'' @ report_format args ''md''
      in (''[success] Audit report saved to '' @ out @ nl @ nl @ take 500 report @ ''...'',
          w\<lparr>aw_saved := aw_saved w @ [(out, report)]\<rparr>))"

section \<open>What the reports can and cannot say\<close>

lemma strip_bracket: "str_strip (CHR ''['' # s) \<noteq> []"
proof -
  have "\<not> white (CHR ''['')" by (simp add: white_def)
  then show ?thesis using rstrip_stop [of "CHR ''[''" "[]" s] by (simp add: str_strip_rstrip)
qed

lemma run_tool_never_empty: "str_strip (run_tool outcome cmd timeout) \<noteq> []"
  by (cases outcome) (auto simp: run_tool_def strip_bracket)

text \<open>
  The secret scan cannot come out clean: the runner prefixes every result with its status, so whatever the
  repository and the tools, \<open>audit secrets\<close> reports every pattern as found and \<open>audit security\<close> reports
  potential secrets in the history.
\<close>

theorem scan_never_clean:
  "audit_secrets args w =
     [''Secret Scan'', replicate 50 (CHR ''='')] @
     map (\<lambda>p. ''  [FOUND]   Pattern '' @ quoted p @ '' in: '' @
           take 80 (str_strip (tool w (scan_cmd (''--deep'' \<in> set args) p) (aw_root w)))) SECRET_SCAN_PATTERNS \<and>
   ''  [WARNING] Potential secrets found in git history'' \<in> set (audit_security w)"
  using run_tool_never_empty by (auto simp: audit_secrets_def scan_line_def audit_security_def tool_def Let_def)

text \<open>A missing audit tool is reported as a warning with the runner's error, never as not installed.\<close>

theorem missing_tool_is_warning:
  assumes "aw_exec w [''python3'', ''-m'', ''pip_audit''] (aw_root w) = CommandMissing"
  shows "''  [WARN] Python: [error] Command not found: python3'' \<in> set (audit_dependencies w)"
proof -
  have "tool w [''python3'', ''-m'', ''pip_audit''] (aw_root w) = ''[error] Command not found: python3''"
    using assms by (simp add: tool_def run_tool_def)
  moreover have "\<not> str_contains ''No known vulnerabilities'' ''[error] Command not found: python3''"
    "take 200 (str_strip ''[error] Command not found: python3'') = ''[error] Command not found: python3''"
    "str_strip ''[error] Command not found: python3'' \<noteq> []"
    by code_simp+
  ultimately show ?thesis unfolding audit_dependencies_def Let_def by simp
qed

definition bare_world :: audit_world where
  "bare_world = \<lparr>aw_exec = (\<lambda>cmd cwd. CommandMissing), aw_fs = (\<lambda>p. NoEntry), aw_mode = (\<lambda>p. None), aw_environ = Map.empty,
     aw_root = ''/p'', aw_audit_rows = None, aw_now = ''20260101_000000'', aw_saved = []\<rparr>"

lemma missing_tool_is_warning_witness:
  "''  [WARN] Python: [error] Command not found: python3'' \<in> set (audit_dependencies bare_world)"
  by (rule missing_tool_is_warning) (simp add: bare_world_def)

text \<open>The check for default passwords is dead: each of them is shorter than the minimum that is tested first.\<close>

theorem default_value_never_reported: "env_issue_of kv \<noteq> Some DefaultValue"
  by (auto simp: env_issue_of_def)

text \<open>
  The mode is compared as a number: \<open>0o477\<close>, which lets everyone read, write and execute the file, counts as
  restricted, while the permission report calls it too open.
\<close>

theorem world_writable_env_restricted:
  "env_permission_line (Some 319) = ''  [OK]      .env permissions: restricted'' \<and> oct_text (perm 319) = ''0o477'' \<and>
   permission_line (bare_world\<lparr>aw_mode := \<lambda>p. Some 319\<rparr>) (''/p/.env'', ''.env'') = ''  [TOO OPEN] .env: 0o477''"
  by code_simp

text \<open>
  The environment audit counts exactly the short secrets: for a nonempty file it prints one line for each variable
  whose name marks a secret and whose value is shorter than sixteen characters, in the order of names, and the count.
\<close>

theorem audit_env_spec:
  assumes "aw_fs w (aw_root w @ ''/.env'') = FileText content" "read_env_file (Some content) \<noteq> []"
  shows "let short = filter (\<lambda>kv. is_secret (fst kv) \<and> length (snd kv) < 16) (sort_key fst (read_env_file (Some content)))
    in audit_env w = [''Environment Audit'', replicate 50 (CHR ''='')]
         @ map (\<lambda>kv. ''  [WEAK]    '' @ fst kv @ '': password too short (<16 chars)'') short
         @ [if short = [] then ''  [OK] All secrets meet minimum requirements.''
            else nl @ ''  '' @ show_nat (length short) @ '' issue(s) found.'']"
proof -
  have issue: "env_issue_of kv = (if is_secret (fst kv) \<and> length (snd kv) < 16 then Some TooShort else None)" for kv
    by (auto simp: env_issue_of_def)
  have "List.map_filter (\<lambda>kv. map_option (env_issue_line (fst kv)) (env_issue_of kv)) env =
    map (\<lambda>kv. ''  [WEAK]    '' @ fst kv @ '': password too short (<16 chars)'') (filter (\<lambda>kv. is_secret (fst kv) \<and> length (snd kv) < 16) env)"
    for env
    by (induction env) (auto simp: List.map_filter_simps issue env_issue_line_def)
  moreover have "sort_key fst (read_env_file (Some content)) \<noteq> []"
    using assms(2) by (metis length_0_conv length_sort)
  ultimately show ?thesis by (simp add: audit_env_def assms(1) Let_def)
qed

lemma audit_env_spec_witness:
  "''  [WEAK]    API_KEY: password too short (<16 chars)'' \<in>
     set (audit_env (bare_world\<lparr>aw_fs := \<lambda>p. FileText ''API_KEY=abcdefgh''\<rparr>))"
proof -
  have r: "read_env_file (Some ''API_KEY=abcdefgh'') = [(''API_KEY'', ''abcdefgh'')]" "is_secret ''API_KEY''" by code_simp+
  have f: "aw_fs (bare_world\<lparr>aw_fs := \<lambda>p. FileText ''API_KEY=abcdefgh''\<rparr>)
      (aw_root (bare_world\<lparr>aw_fs := \<lambda>p. FileText ''API_KEY=abcdefgh''\<rparr>) @ ''/.env'') = FileText ''API_KEY=abcdefgh''" by simp
  show ?thesis using audit_env_spec [OF f] by (simp add: r Let_def)
qed

end
