(* ===== verification/Console_Controls.thy ===== *)
theory Console_Controls
  imports Console_Audit
begin

text \<open>
  The commands of the console that are meant to act on the running services: \<open>commands/brain.py\<close> (pause, resume,
  checkpoint), \<open>commands/mt5.py\<close> (autotrading, sync, trailing stop, close and modify), \<open>commands/risk.py\<close> (limits, setters,
  circuit breaker), \<open>commands/alert.py\<close> (mute, unmute, Telegram) and \<open>commands/maint.py\<close> (vacuum, reindex, cache, backup,
  pruning), over \<open>clients/redis_client.py\<close> and \<open>clients/postgres.py\<close>, whose failures become \<open>False\<close>, \<open>None\<close> and
  empty results.
\<close>

section \<open>The world of the control commands\<close>

text \<open>
  Whether Redis and the database answer, whether a write or a statement succeeds then, what is stored, what was
  published, executed and run, and the configuration file.
\<close>

record control_world =
  ct_redis_up :: bool
  ct_redis_ok :: bool
  ct_store :: "string \<rightharpoonup> string"
  ct_published :: "(string \<times> string) list"
  ct_db_up :: bool
  ct_statement_ok :: "string \<Rightarrow> bool"
  ct_row_count :: "string \<Rightarrow> int option"
  ct_executed :: "string list"
  ct_exec :: "string list \<Rightarrow> process_end"
  ct_ran :: "string list list"
  ct_environ :: environment
  ct_config :: env_world
  ct_root :: string
  ct_stamp :: string

definition store_get :: "string \<Rightarrow> control_world \<Rightarrow> string option" where
  "store_get key w = (if ct_redis_up w \<and> ct_redis_ok w then ct_store w key else None)"

definition redis_set :: "string \<Rightarrow> string \<Rightarrow> control_world \<Rightarrow> bool \<times> control_world" where
  "redis_set key val w =
     (if ct_redis_up w \<and> ct_redis_ok w then (True, w\<lparr>ct_store := (ct_store w)(key \<mapsto> val)\<rparr>) else (False, w))"

definition redis_delete :: "string \<Rightarrow> control_world \<Rightarrow> bool \<times> control_world" where
  "redis_delete key w =
     (if ct_redis_up w \<and> ct_redis_ok w then (True, w\<lparr>ct_store := (ct_store w)(key := None)\<rparr>) else (False, w))"

definition redis_publish :: "string \<Rightarrow> string \<Rightarrow> control_world \<Rightarrow> bool \<times> control_world" where
  "redis_publish ch message w =
     (if ct_redis_up w \<and> ct_redis_ok w then (True, w\<lparr>ct_published := ct_published w @ [(ch, message)]\<rparr>) else (False, w))"

definition db_execute :: "string \<Rightarrow> control_world \<Rightarrow> bool \<times> control_world" where
  "db_execute sql w =
     (if ct_db_up w \<and> ct_statement_ok w sql then (True, w\<lparr>ct_executed := ct_executed w @ [sql]\<rparr>) else (False, w))"

definition db_query_count :: "string \<Rightarrow> control_world \<Rightarrow> int option" where
  "db_query_count sql w = (if ct_db_up w then ct_row_count w sql else None)"

definition run_cmd :: "string list \<Rightarrow> control_world \<Rightarrow> string \<times> control_world" where
  "run_cmd cmd w = (run_tool (ct_exec w cmd) cmd 300, w\<lparr>ct_ran := ct_ran w @ [cmd]\<rparr>)"

section \<open>Engine and bridge\<close>

definition brain_pause :: "control_world handler" where
  "brain_pause args w =
     (let (ok, w) = redis_set ''moneymaker:brain:paused'' ''true'' w
      in (Returned (if ok then ''[success] Algo Engine signal generation PAUSED.''
                    else ''[warning] Could not pause '' @ em_dash @ '' Redis not available.''), w))"

definition brain_resume :: "control_world handler" where
  "brain_resume args w =
     (let (ok, w) = redis_delete ''moneymaker:brain:paused'' w
      in (Returned (if ok then ''[success] Algo Engine signal generation RESUMED.''
                    else ''[warning] Could not resume '' @ em_dash @ '' Redis not available.''), w))"

definition brain_checkpoint :: "control_world handler" where
  "brain_checkpoint args w =
     (let (ok, w) = redis_publish ''moneymaker:brain:commands'' ''checkpoint'' w
      in (Returned (if ok then ''[success] Checkpoint command sent to Algo Engine.''
                    else ''[warning] Could not send checkpoint command '' @ em_dash @ '' Redis not available.''), w))"

definition mt5_sync :: "control_world handler" where
  "mt5_sync args w =
     (let (ok, w) = redis_publish ''moneymaker:mt5:commands'' ''sync'' w
      in (Returned (if ok then ''[success] Sync command sent to MT5 Bridge.''
                    else ''[warning] Could not send sync command '' @ em_dash @ '' Redis not available.''), w))"

definition mt5_autotrading :: "control_world handler" where
  "mt5_autotrading args w =
     (if args \<noteq> [] \<and> str_lower (hd args) \<in> {''on'', ''off''}
      then (let val = (str_lower (hd args) = ''on'')
            in (Returned (''[success] Autotrading '' @ (if val then ''ENABLED'' else ''DISABLED'') @ ''.''),
                snd (redis_set ''moneymaker:autotrading_enabled'' (if val then ''true'' else ''false'') w)))
      else (let val = store_get ''moneymaker:autotrading_enabled'' w;
                enabled = (case val of None \<Rightarrow> True | Some v \<Rightarrow> str_lower v = ''true'')
            in (Returned (''Autotrading: '' @ (if enabled then ''ENABLED'' else ''DISABLED'')), w)))"

definition mt5_close :: "control_world handler" where
  "mt5_close args w =
     (case args of [] \<Rightarrow> (Returned ''[error] Usage: mt5 close <TICKET>'', w)
      | a # as \<Rightarrow> (Returned (''[info] Close ticket #'' @ a @ '' '' @ em_dash @ '' requires gRPC connection to MT5 Bridge.''), w))"

definition mt5_close_all :: "control_world handler" where
  "mt5_close_all args w = (Returned (''[info] Close all positions '' @ em_dash @ '' requires gRPC connection to MT5 Bridge.''), w)"

definition mt5_modify :: "control_world handler" where
  "mt5_modify args w =
     (case args of [] \<Rightarrow> (Returned ''[error] Usage: mt5 modify <TICKET> --sl <SL> --tp <TP>'', w)
      | a # as \<Rightarrow> (Returned (''[info] Modify ticket #'' @ a @ '' '' @ em_dash @ '' requires gRPC connection.''), w))"

definition mt5_trailing :: "control_world handler" where
  "mt5_trailing args w =
     (if args \<noteq> [] \<and> str_lower (hd args) \<in> {''on'', ''off''}
      then (Returned (''[info] Set TRAILING_STOP_ENABLED via: config set TRAILING_STOP_ENABLED ''
              @ (if str_lower (hd args) = ''on'' then ''True'' else ''False'')), w)
      else (Returned (''Trailing Stop Configuration'' @ nl @ replicate 40 (CHR ''='') @ nl
              @ ''  Enabled:     '' @ (if str_lower (getenv (ct_environ w) ''TRAILING_STOP_ENABLED'' ''true'') = ''true'' then ''True'' else ''False'') @ nl
              @ ''  Distance:    '' @ getenv (ct_environ w) ''TRAILING_STOP_PIPS'' ''50.0'' @ '' pips'' @ nl
              @ ''  Activation:  '' @ getenv (ct_environ w) ''TRAILING_ACTIVATION_PIPS'' ''30'' @ '' pips profit''), w))"

section \<open>Risk\<close>

definition risk_limits :: "control_world handler" where
  "risk_limits args w =
     (let e = getenv (ct_environ w)
      in (Returned (join nl
            [''Risk Limits'', replicate 40 (CHR ''=''),
             ''  Max Drawdown:     '' @ e ''MAX_DRAWDOWN_PCT'' ''10.0'' @ ''%'',
             ''  Max Daily Loss:   '' @ e ''MAX_DAILY_LOSS_PCT'' ''2.0'' @ ''%'',
             ''  Max Positions:    '' @ e ''MAX_POSITION_COUNT'' ''5'',
             ''  Max Lot Size:     '' @ e ''MAX_LOT_SIZE'' ''1.0'',
             ''  Confidence Min:   '' @ e ''BRAIN_CONFIDENCE_THRESHOLD'' ''0.65'',
             ''  Risk per Trade:   '' @ e ''BRAIN_RISK_PER_TRADE_PCT'' ''1.0'' @ ''%'',
             ''  Max Exposure/CCY: '' @ e ''BRAIN_MAX_EXPOSURE_PER_CURRENCY'' ''3'',
             ''  Spiral Threshold: '' @ e ''BRAIN_SPIRAL_LOSS_THRESHOLD'' ''3'' @ '' losses'',
             ''  Spiral Cooldown:  '' @ e ''BRAIN_SPIRAL_COOLDOWN_MINUTES'' ''60'' @ '' min'']), w))"

text \<open>
  \<open>float(text)\<close>: the exact value rounded to 53 bits; what is at most half the smallest positive number becomes 0 and
  what rounds to \<open>2^1024\<close> or more becomes infinite.
\<close>

definition float_of_rat :: "rat \<Rightarrow> setting_float" where
  "float_of_rat x =
     (if \<bar>x\<bar> \<le> 1 / 2 ^ 1075 then FlNum 0
      else let r = flt_round x in if 2 ^ 1024 \<le> r then FlPosInf else if r \<le> - (2 ^ 1024) then FlNegInf else FlNum r)"

definition float_text :: "string \<Rightarrow> setting_float option" where
  "float_text t =
     (if \<not> float_accepts t then None
      else case decimal_text t of
             Inr (Some (Fin x)) \<Rightarrow> Some (float_of_rat x)
           | Inr (Some PosInf) \<Rightarrow> Some FlPosInf
           | Inr (Some NegInf) \<Rightarrow> Some FlNegInf
           | _ \<Rightarrow> Some FlNaN)"

text \<open>The three setters with a float; \<open>show_float\<close> is \<open>str\<close> of it.\<close>

definition float_setter ::
  "(setting_float \<Rightarrow> string) \<Rightarrow> string \<Rightarrow> rat \<Rightarrow> string \<Rightarrow> string \<Rightarrow> string \<Rightarrow> string \<Rightarrow> control_world handler" where
  "float_setter show_float usage limit range_msg invalid_msg name unit args w =
     (case args of
        [] \<Rightarrow> (Returned usage, w)
      | a # as \<Rightarrow>
          (case float_text a of
             None \<Rightarrow> (Returned (invalid_msg @ a), w)
           | Some val \<Rightarrow>
               if fl_ge 0 val \<or> fl_less limit val then (Returned range_msg, w)
               else (Returned (''[info] Set '' @ name @ ''='' @ show_float val @ unit @ '' via: config set '' @ name @ '' '' @ show_float val), w)))"

definition risk_set_max_dd :: "(setting_float \<Rightarrow> string) \<Rightarrow> control_world handler" where
  "risk_set_max_dd show_float = float_setter show_float ''[error] Usage: risk set-max-dd <PERCENT>'' 50
     ''[error] Drawdown must be between 0 and 50%.'' ''[error] Invalid percentage: '' ''MAX_DRAWDOWN_PCT'' ''%''"

definition risk_set_max_lot :: "(setting_float \<Rightarrow> string) \<Rightarrow> control_world handler" where
  "risk_set_max_lot show_float = float_setter show_float ''[error] Usage: risk set-max-lot <SIZE>'' 10
     ''[error] Lot size must be between 0 and 10.'' ''[error] Invalid lot size: '' ''MAX_LOT_SIZE'' []"

definition risk_set_daily_loss :: "(setting_float \<Rightarrow> string) \<Rightarrow> control_world handler" where
  "risk_set_daily_loss show_float = float_setter show_float ''[error] Usage: risk set-daily-loss <PERCENT>'' 20
     ''[error] Daily loss must be between 0 and 20%.'' ''[error] Invalid percentage: '' ''MAX_DAILY_LOSS_PCT'' ''%''"

definition risk_set_max_pos :: "control_world handler" where
  "risk_set_max_pos args w =
     (case args of
        [] \<Rightarrow> (Returned ''[error] Usage: risk set-max-pos <N>'', w)
      | a # as \<Rightarrow>
          (case int_text a of
             Inl _ \<Rightarrow> (Returned (''[error] Invalid number: '' @ a), w)
           | Inr val \<Rightarrow>
               if val \<le> 0 \<or> 20 < val then (Returned ''[error] Position count must be between 1 and 20.'', w)
               else (Returned (''[info] Set MAX_POSITION_COUNT='' @ show_int val @ '' via: config set MAX_POSITION_COUNT '' @ show_int val), w)))"

definition risk_circuit_breaker :: "control_world handler" where
  "risk_circuit_breaker args w =
     (if args \<noteq> [] \<and> str_lower (hd args) = ''arm''
      then (Returned ''[success] Circuit breaker ARMED.'', snd (redis_set ''moneymaker:circuit_breaker'' ''ARMED'' w))
      else if args \<noteq> [] \<and> str_lower (hd args) = ''disarm''
      then (Returned ''[warning] Circuit breaker DISARMED.'', snd (redis_set ''moneymaker:circuit_breaker'' ''DISARMED'' w))
      else let s = opt_get (store_get ''moneymaker:circuit_breaker'' w) []
           in (Returned (''Circuit Breaker: ['' @ (if s = [] then ''ARMED'' else s) @ '']''), w))"

section \<open>Alerts\<close>

text \<open>\<open>payload minutes\<close> is the JSON text with the two times; a text that is no integer raises outside the \<open>try\<close>.\<close>

definition alert_mute :: "(int \<Rightarrow> string) \<Rightarrow> control_world handler" where
  "alert_mute payload args w =
     (case (case args of [] \<Rightarrow> Inr 60 | a # as \<Rightarrow> int_text a) of
        Inl _ \<Rightarrow> (Raised (''invalid literal for int() with base 10: '' @ quoted (hd args)), w)
      | Inr minutes \<Rightarrow>
          (Returned (''[success] Non-critical alerts muted for '' @ show_int minutes @ '' minutes.''),
           snd (redis_set ''moneymaker:alert_mute'' (payload minutes) w)))"

definition alert_unmute :: "control_world handler" where
  "alert_unmute args w = (Returned ''[success] Alerts unmuted.'', snd (redis_delete ''moneymaker:alert_mute'' w))"

text \<open>The last value given for an option; without arguments the command sends a test alert, which is not modelled.\<close>

fun option_value :: "string \<Rightarrow> string list \<Rightarrow> string option \<Rightarrow> string option" where
  "option_value name (a # b # rest) v = option_value name (b # rest) (if a = name then Some b else v)"
| "option_value name rest v = v"

definition alert_telegram :: "control_world handler \<Rightarrow> control_world handler" where
  "alert_telegram alert_test args w =
     (if args = [] then alert_test [''telegram''] w
      else let token = option_value ''--bot-token'' args None; chat_id = option_value ''--chat-id'' args None
           in if nonempty token \<and> nonempty chat_id
              then (let c = snd (config_set [''TELEGRAM_BOT_TOKEN'', the token] (ct_config w));
                        c = snd (config_set [''TELEGRAM_CHAT_ID'', the chat_id] c)
                    in (Returned (''[success] Telegram configured. Run '' @ quoted ''alert test telegram'' @ '' to verify.''), w\<lparr>ct_config := c\<rparr>))
              else (Returned ''Usage: alert telegram --bot-token TOKEN --chat-id ID'', w))"

section \<open>Maintenance\<close>

definition maint_vacuum :: "control_world handler" where
  "maint_vacuum args w =
     (Returned ''[success] VACUUM ANALYZE completed on all tables.'', snd (db_execute ''VACUUM ANALYZE'' w))"

definition maint_reindex :: "control_world handler" where
  "maint_reindex args w =
     (let sql = ''REINDEX DATABASE '' @ getenv (ct_environ w) ''MONEYMAKER_DB_NAME'' ''moneymaker_brain''
      in (Returned (''[success] '' @ sql @ '' completed.''), snd (db_execute sql w)))"

definition find_cmd :: "string \<Rightarrow> string \<Rightarrow> string list" where
  "find_cmd dir name = [''find'', dir, ''-type'', ''d'', ''-name'', name, ''-exec'', ''rm'', ''-rf'', ''{}'', ''+'']"

text \<open>The flush asks the client for an attribute that it does not have, so that it always takes the handler's branch.\<close>

definition maint_clear_cache :: "control_world handler" where
  "maint_clear_cache args w =
     (let w = snd (run_cmd (find_cmd (ct_root w) ''__pycache__'') w);
          w = snd (run_cmd (find_cmd (ct_root w) ''.pytest_cache'') w)
      in (Returned (join nl
            ([''Clearing caches...'', ''  Removed __pycache__ directories'', ''  Removed .pytest_cache directories'']
             @ (if ''--redis'' \<in> set args then [''  [warning] Redis flush failed''] else [])
             @ [''[success] Cache cleared.''])), w))"

definition pg_dump_cmd :: "control_world \<Rightarrow> string list" where
  "pg_dump_cmd w =
     (let e = getenv (ct_environ w)
      in [''pg_dump'', ''-h'', e ''MONEYMAKER_DB_HOST'' ''localhost'', ''-p'', e ''MONEYMAKER_DB_PORT'' ''5432'',
          ''-U'', e ''MONEYMAKER_DB_USER'' ''moneymaker_admin'', ''-d'', e ''MONEYMAKER_DB_NAME'' ''moneymaker_brain'', ''-F'', ''p''])"

text \<open>The compressed form pipes the dump through gzip: \<open>None\<close> when a program is missing, otherwise the dump's exit code.\<close>

definition maint_backup :: "(string list \<Rightarrow> string \<Rightarrow> int option) \<Rightarrow> control_world handler" where
  "maint_backup pipe args w =
     (let compress = (''--compress'' \<in> set args);
          out_file = ct_root w @ ''/../logs/moneymaker_backup_'' @ ct_stamp w @ (if compress then ''.sql.gz'' else ''.sql'')
      in if compress
         then (case pipe (pg_dump_cmd w) out_file of
                 None \<Rightarrow> (Returned ''[error] Command not found: pg_dump or gzip'', w)
               | Some code \<Rightarrow>
                   if code \<noteq> 0 then (Returned (''[error] pg_dump failed (exit '' @ show_int code @ '')''), w)
                   else (Returned (''[success] Compressed backup saved to '' @ out_file), w))
         else let (result, w) = run_cmd (pg_dump_cmd w @ [''-f'', out_file]) w
              in (Returned (''[success] Backup saved to '' @ out_file @ nl @ result), w))"

definition older_than :: "string \<Rightarrow> int \<Rightarrow> string" where
  "older_than table days = table @ '' WHERE created_at < NOW() - INTERVAL '' @ quoted (show_int days @ '' days'')"

definition prune_table :: "int \<Rightarrow> bool \<Rightarrow> string list \<times> control_world \<Rightarrow> string \<Rightarrow> string list \<times> control_world" where
  "prune_table days dry_run lw table =
     (let rows = opt_get (db_query_count (''SELECT count(*) FROM '' @ older_than table days) (snd lw)) 0
      in if dry_run
         then (fst lw @ [''  [dry-run] '' @ table @ '': would delete '' @ show_int rows @ '' rows''], snd lw)
         else (fst lw @ [''  '' @ table @ '': deleted '' @ show_int rows @ '' rows''],
               snd (db_execute (''DELETE FROM '' @ older_than table days) (snd lw))))"

definition maint_prune_old :: "control_world handler" where
  "maint_prune_old args w =
     (case args of
        [] \<Rightarrow> (Returned ''Usage: maint prune-old DAYS [--dry-run]'', w)
      | a # as \<Rightarrow>
          (case int_text a of
             Inl _ \<Rightarrow> (Raised (''invalid literal for int() with base 10: '' @ quoted a), w)
           | Inr days \<Rightarrow>
               let (lines, w) = foldl (prune_table days (''--dry-run'' \<in> set args))
                     ([''Pruning data older than '' @ show_int days @ '' days'', replicate 40 (CHR ''='')], w)
                     [''drift_log'', ''performance_snapshot'']
               in (Returned (join nl lines), w)))"

section \<open>What reaches the engine\<close>

text \<open>The keys and the environment that the engine reads (\<open>kill_switch.py\<close>, \<open>spiral_protection.py\<close>, \<open>config.py\<close>).\<close>

definition engine_view :: "control_world \<Rightarrow> string option list \<times> environment" where
  "engine_view w =
     (map (ct_store w) [''moneymaker:kill_switch'', ''moneymaker:kill_switch:audit_log'', ''moneymaker:spiral_protection''], ct_environ w)"

definition live_controls ::
  "(int \<Rightarrow> string) \<Rightarrow> (setting_float \<Rightarrow> string) \<Rightarrow> (string \<times> string \<times> control_world handler) list" where
  "live_controls payload show_float =
     [(''brain'', ''pause'', brain_pause), (''brain'', ''resume'', brain_resume), (''brain'', ''checkpoint'', brain_checkpoint),
      (''mt5'', ''sync'', mt5_sync), (''mt5'', ''autotrading'', mt5_autotrading), (''mt5'', ''close'', mt5_close),
      (''mt5'', ''close-all'', mt5_close_all), (''mt5'', ''modify'', mt5_modify), (''mt5'', ''trailing'', mt5_trailing),
      (''risk'', ''limits'', risk_limits), (''risk'', ''set-max-dd'', risk_set_max_dd show_float),
      (''risk'', ''set-max-pos'', risk_set_max_pos), (''risk'', ''set-max-lot'', risk_set_max_lot show_float),
      (''risk'', ''set-daily-loss'', risk_set_daily_loss show_float), (''risk'', ''circuit-breaker'', risk_circuit_breaker),
      (''alert'', ''mute'', alert_mute payload), (''alert'', ''unmute'', alert_unmute)]"

named_theorems redis_step \<open>what a client call changes\<close>

lemma redis_set_view [redis_step]:
  "key \<notin> {''moneymaker:kill_switch'', ''moneymaker:kill_switch:audit_log'', ''moneymaker:spiral_protection''} \<Longrightarrow>
     engine_view (snd (redis_set key val w)) = engine_view w"
  by (auto simp: redis_set_def engine_view_def)

lemma redis_delete_view [redis_step]:
  "key \<notin> {''moneymaker:kill_switch'', ''moneymaker:kill_switch:audit_log'', ''moneymaker:spiral_protection''} \<Longrightarrow>
     engine_view (snd (redis_delete key w)) = engine_view w"
  by (auto simp: redis_delete_def engine_view_def)

lemma redis_publish_view [redis_step]: "engine_view (snd (redis_publish ch message w)) = engine_view w"
  by (auto simp: redis_publish_def engine_view_def)

lemma float_setter_world [redis_step]: "snd (float_setter sf u l r i n unit args w) = w"
  by (auto simp: float_setter_def split: list.splits option.splits)

lemma redis_key_switches [redis_step]:
  "engine_view (snd (brain_pause args w)) = engine_view w" "engine_view (snd (brain_resume args w)) = engine_view w"
  "engine_view (snd (brain_checkpoint args w)) = engine_view w" "engine_view (snd (mt5_sync args w)) = engine_view w"
  using redis_set_view [of "''moneymaker:brain:paused''" "''true''" w] redis_delete_view [of "''moneymaker:brain:paused''" w]
    redis_publish_view [of "''moneymaker:brain:commands''" "''checkpoint''" w] redis_publish_view [of "''moneymaker:mt5:commands''" "''sync''" w]
  by (auto simp: brain_pause_def brain_resume_def brain_checkpoint_def mt5_sync_def split: prod.splits)


section \<open>What the answers claim\<close>

text \<open>Pausing tells the truth: success is reported exactly when the key was stored.\<close>

theorem pause_reports_truth:
  "(fst (brain_pause args w) = Returned ''[success] Algo Engine signal generation PAUSED.'') =
     (ct_redis_up w \<and> ct_redis_ok w) \<and>
   (ct_redis_up w \<and> ct_redis_ok w \<longrightarrow> store_get ''moneymaker:brain:paused'' (snd (brain_pause args w)) = Some ''true'')"
  by (auto simp: brain_pause_def redis_set_def store_get_def)

lemma pause_reports_truth_witness:
  "store_get ''moneymaker:brain:paused'' (snd (brain_pause [] (w\<lparr>ct_redis_up := True, ct_redis_ok := True\<rparr>))) = Some ''true''"
  using pause_reports_truth [of "[]" "w\<lparr>ct_redis_up := True, ct_redis_ok := True\<rparr>"] by simp

text \<open>The autotrading switch can be read back when Redis answers; when it does not, the same success is reported for nothing.\<close>

theorem autotrading_switch:
  "let (out, w') = mt5_autotrading [''off''] w
   in out = Returned ''[success] Autotrading DISABLED.'' \<and>
      (if ct_redis_up w \<and> ct_redis_ok w then fst (mt5_autotrading [] w') = Returned ''Autotrading: DISABLED''
       else w' = w \<and> fst (mt5_autotrading [] w') = Returned ''Autotrading: ENABLED'')"
proof -
  have l: "str_lower ''off'' = ''off''" "str_lower ''false'' = ''false''" by code_simp+
  show ?thesis by (simp add: mt5_autotrading_def l redis_set_def store_get_def)
qed

text \<open>
  Which limits the setters accept: a drawdown, lot size or daily loss passes exactly when its text is a float that is
  positive and not above the limit, or NaN, and the commands then only print the \<open>config set\<close> line to type; nothing is set.
\<close>

theorem limit_setters_accept:
  assumes "cap = (setter, limit)"
    and "cap \<in> {(risk_set_max_dd show_float, 50), (risk_set_max_lot show_float, 10), (risk_set_daily_loss show_float, 20)}"
  shows "snd (setter [a] w) = w \<and>
    (case fst (setter [a] w) of
       Returned s \<Rightarrow> str_starts ''[info]'' s = (\<exists>v. float_text a = Some v \<and> (v = FlNaN \<or> (\<exists>x. v = FlNum x \<and> 0 < x \<and> x \<le> limit)))
     | _ \<Rightarrow> False)"
proof -
  have accept: "\<not> (fl_ge 0 v \<or> fl_less limit v) \<longleftrightarrow> v = FlNaN \<or> (\<exists>x. v = FlNum x \<and> 0 < x \<and> x \<le> limit)" for v
    by (cases v) (auto simp: not_le not_less)
  have setter: "snd (float_setter show_float u limit r i n unit [a] w) = w \<and>
    (case fst (float_setter show_float u limit r i n unit [a] w) of
       Returned s \<Rightarrow> str_starts ''[info]'' s = (\<exists>v. float_text a = Some v \<and> (v = FlNaN \<or> (\<exists>x. v = FlNum x \<and> 0 < x \<and> x \<le> limit)))
     | _ \<Rightarrow> False)"
    if "str_starts ''[error]'' r" "str_starts ''[error]'' i" for u r i n unit
  proof -
    have prefixes: "str_starts ''[info]'' (''[info]'' @ s)" "\<not> str_starts ''[info]'' r" "\<not> str_starts ''[info]'' (i @ s)" for s
      using that by (auto simp: str_starts_prefix prefix_def append_eq_append_conv2 Cons_eq_append_conv)
    show ?thesis
    proof (cases "float_text a")
      case None
      then show ?thesis using prefixes(3) [of a] by (simp add: float_setter_def)
    next
      case (Some v)
      show ?thesis
      proof (cases "fl_ge 0 v \<or> fl_less limit v")
        case True
        then show ?thesis using Some prefixes(2) accept [of v] by (simp add: float_setter_def)
      next
        case False
        have "str_starts ''[info]'' (''[info] Set '' @ s)" for s using prefixes(1) [of "'' Set '' @ s"] by simp
        then show ?thesis using Some False accept [of v] by (simp add: float_setter_def)
      qed
    qed
  qed
  have msgs: "str_starts ''[error]'' ''[error] Drawdown must be between 0 and 50%.''" "str_starts ''[error]'' ''[error] Invalid percentage: ''"
    "str_starts ''[error]'' ''[error] Lot size must be between 0 and 10.''" "str_starts ''[error]'' ''[error] Invalid lot size: ''"
    "str_starts ''[error]'' ''[error] Daily loss must be between 0 and 20%.''"
    by code_simp+
  from assms show ?thesis
    unfolding risk_set_max_dd_def risk_set_max_lot_def risk_set_daily_loss_def
    using setter msgs by (elim insertE emptyE) auto
qed

definition quiet_world :: control_world where
  "quiet_world =
     \<lparr>ct_redis_up = False, ct_redis_ok = False, ct_store = Map.empty, ct_published = [], ct_db_up = False,
      ct_statement_ok = (\<lambda>s. True), ct_row_count = (\<lambda>s. Some 7), ct_executed = [], ct_exec = (\<lambda>c. CommandMissing), ct_ran = [],
      ct_environ = Map.empty, ct_config = sample_env_world, ct_root = ''/p'', ct_stamp = ''20260101_000000''\<rparr>"

lemma limit_setters_accept_witness:
  "fst (risk_set_max_dd (\<lambda>v. ''nan'') [''nan''] quiet_world) \<noteq> Returned ''[error] Drawdown must be between 0 and 50%.''"
proof -
  have f: "float_text ''nan'' = Some FlNaN" by code_simp
  have c: "(risk_set_max_dd (\<lambda>v. ''nan''), 50) \<in> {(risk_set_max_dd (\<lambda>v. ''nan''), 50), (risk_set_max_lot (\<lambda>v. ''nan''), 10),
      (risk_set_daily_loss (\<lambda>v. ''nan''), 20)}" by simp
  have e: "\<not> str_starts ''[info]'' ''[error] Drawdown must be between 0 and 50%.''" by code_simp
  show ?thesis using limit_setters_accept [OF refl c, of "''nan''" quiet_world] f e by auto
qed

text \<open>
  The limits shown are not those of the engine: they are read from names that the engine's settings do not have, so two
  environments that differ in the engine's own names only show the same limits.
\<close>

theorem limits_ignore_engine_settings:
  "fst (risk_limits args (w\<lparr>ct_environ := (ct_environ w)(''ALGO_'' @ name \<mapsto> v)\<rparr>)) = fst (risk_limits args w)"
  by (simp add: risk_limits_def getenv_def Let_def)

text \<open>
  \<open>alert telegram\<close> writes two variables, neither of which the engine reads, and reports success even without a
  configuration file.
\<close>

definition engine_token :: "env_world \<Rightarrow> string option list" where
  "engine_token c = map (map_of (read_env_file (ew_env c)))
     [''ALGO_TELEGRAM_BOT_TOKEN'', ''ALGO_TELEGRAM_CHAT_ID'', ''MONEYMAKER_TELEGRAM_BOT_TOKEN'', ''MONEYMAKER_TELEGRAM_CHAT_ID'']"

theorem telegram_setup_misses_engine:
  "let (out, w') = alert_telegram alert_test [''--bot-token'', ''12:AB'', ''--chat-id'', ''-7''] quiet_world
   in out = Returned (''[success] Telegram configured. Run '' @ quoted ''alert test telegram'' @ '' to verify.'') \<and>
      map_of (read_env_file (ew_env (ct_config w'))) ''TELEGRAM_BOT_TOKEN'' = Some ''12:AB'' \<and>
      engine_token (ct_config w') = engine_token (ct_config quiet_world)"
  by code_simp

theorem telegram_setup_without_file:
  assumes "ew_env (ct_config w) = None" "a \<noteq> []" "b \<noteq> []"
  shows "alert_telegram alert_test [''--bot-token'', a, ''--chat-id'', b] w =
    (Returned (''[success] Telegram configured. Run '' @ quoted ''alert test telegram'' @ '' to verify.''), w)"
proof -
  have "snd (config_set [k, v] (ct_config w)) = ct_config w" for k v
    using assms(1) by (auto simp: config_set_def set_key_def split: option.split)
  then show ?thesis using assms(2,3) by (simp add: alert_telegram_def Let_def nonempty_def)
qed

lemma telegram_setup_without_file_witness:
  "snd (alert_telegram (\<lambda>args w. (Returned [], w)) [''--bot-token'', ''12:AB'', ''--chat-id'', ''7'']
     (quiet_world\<lparr>ct_config := sample_env_world\<lparr>ew_env := None\<rparr>\<rparr>)) = quiet_world\<lparr>ct_config := sample_env_world\<lparr>ew_env := None\<rparr>\<rparr>"
  by (subst telegram_setup_without_file) simp_all

section \<open>Maintenance reports\<close>

lemma int_not_dry_run: "int_text a = Inr days \<Longrightarrow> a \<noteq> ''--dry-run''"
proof
  assume i: "int_text a = Inr days" and "a = ''--dry-run''"
  moreover have "int_text ''--dry-run'' = Inl ValueError" by code_simp
  ultimately show False by simp
qed

text \<open>
  Maintenance reports success for nothing: without a database the vacuum, the reindex and the pruning change
  nothing and still answer that they completed or deleted, and a plain backup answers that it was saved whatever the
  dump program returned, also when it is missing.
\<close>

theorem maintenance_success_unconditional:
  assumes "\<not> ct_db_up w" "int_text a = Inr days"
  shows "maint_vacuum args w = (Returned ''[success] VACUUM ANALYZE completed on all tables.'', w) \<and>
    snd (maint_reindex args w) = w \<and>
    maint_prune_old [a] w =
      (Returned (join nl [''Pruning data older than '' @ show_int days @ '' days'', replicate 40 (CHR ''=''),
         ''  drift_log: deleted 0 rows'', ''  performance_snapshot: deleted 0 rows'']), w) \<and>
    (case fst (maint_backup pipe [] w) of Returned s \<Rightarrow> str_starts ''[success] Backup saved to '' s | _ \<Rightarrow> False)"
proof -
  have zero: "show_int 0 = ''0''" by code_simp
  have "maint_prune_old [a] w =
      (Returned (join nl [''Pruning data older than '' @ show_int days @ '' days'', replicate 40 (CHR ''=''),
         ''  drift_log: deleted 0 rows'', ''  performance_snapshot: deleted 0 rows'']), w)"
    using assms int_not_dry_run [OF assms(2)]
    by (simp add: maint_prune_old_def prune_table_def db_execute_def db_query_count_def zero)
  moreover have "case fst (maint_backup pipe [] w) of Returned s \<Rightarrow> str_starts ''[success] Backup saved to '' s | _ \<Rightarrow> False"
    by (simp add: maint_backup_def run_cmd_def Let_def str_starts_prefix)
  ultimately show ?thesis using assms by (simp add: maint_vacuum_def maint_reindex_def db_execute_def Let_def)
qed

lemma maintenance_success_unconditional_witness:
  "maint_vacuum [] quiet_world = (Returned ''[success] VACUUM ANALYZE completed on all tables.'', quiet_world)"
proof -
  have "int_text ''30'' = Inr 30" by code_simp
  then show ?thesis using maintenance_success_unconditional [of quiet_world "''30''" 30 "[]" "\<lambda>c f. None"] by (simp add: quiet_world_def)
qed

text \<open>A dry run executes nothing; a real run deletes from the two tables, in their order, where the statement succeeds.\<close>

theorem prune_effect:
  assumes "int_text a = Inr days" "ct_db_up w"
  shows "ct_executed (snd (maint_prune_old (a # args) w)) = ct_executed w @
    (if ''--dry-run'' \<in> set (a # args) then []
     else filter (ct_statement_ok w) (map (\<lambda>t. ''DELETE FROM '' @ older_than t days) [''drift_log'', ''performance_snapshot'']))"
  using assms int_not_dry_run [OF assms(1)]
  by (simp add: maint_prune_old_def prune_table_def db_execute_def Let_def)

lemma prune_effect_witness:
  "ct_executed (snd (maint_prune_old [''30''] (quiet_world\<lparr>ct_db_up := True\<rparr>))) =
     [''DELETE FROM '' @ older_than ''drift_log'' 30, ''DELETE FROM '' @ older_than ''performance_snapshot'' 30]"
proof -
  have i: "int_text ''30'' = Inr 30" by code_simp
  show ?thesis using prune_effect [OF i, of "quiet_world\<lparr>ct_db_up := True\<rparr>" "[]"] by (simp add: quiet_world_def)
qed
end
