(* ===== verification/Data_Loader.thy ===== *)
theory Data_Loader
  imports Feed_Inputs Text_Parsing "HOL-Library.Multiset"
begin

text \<open>
  Historical bars: \<open>backtesting/data_loader.py\<close>. A CSV file is the list of rows that \<open>csv.reader\<close> yields; the
  dictionary reader on top of it, the conversion of a row, the skipping of invalid rows, the sort by time and the
  streaming variant are modelled. The table read from a Parquet file is an argument.
\<close>

section \<open>Rows\<close>

text \<open>
  A cell of a CSV row is a text, or \<open>None\<close> where the row is shorter than the header. The errors that the row loop
  catches are \<open>KeyError\<close>, \<open>ValueError\<close> and the decimal errors; a \<open>TypeError\<close> is not among them.
\<close>

type_synonym csv_row = "string \<rightharpoonup> string option"

definition DEFAULT_COLUMNS :: "(string \<times> string) list" where
  "DEFAULT_COLUMNS = map (\<lambda>c. (c, c)) [''timestamp'', ''open'', ''high'', ''low'', ''close'', ''volume'']"

definition column_map :: "(string \<times> string) list \<Rightarrow> (string \<times> string) list" where
  "column_map columns = foldl (\<lambda>d (k, v). dict_set k v d) DEFAULT_COLUMNS columns"

definition column :: "(string \<times> string) list \<Rightarrow> string \<Rightarrow> string" where
  "column col_map canonical = opt_get (map_of col_map canonical) canonical"

definition to_decimal_text :: "string option \<Rightarrow> xdecimal result" where
  "to_decimal_text cell =
     (case cell of
        None \<Rightarrow> Inl InvalidOperation
      | Some t \<Rightarrow> rbind (decimal_text t) (\<lambda>x. case x of None \<Rightarrow> Inl InvalidOperation | Some v \<Rightarrow> xquantize 8 v))"

definition to_int_text :: "string option \<Rightarrow> int result" where
  "to_int_text cell = (case cell of None \<Rightarrow> Inl TypeError | Some t \<Rightarrow> int_text t)"

definition row_to_bar :: "(string \<times> string) list \<Rightarrow> csv_row \<Rightarrow> parsed_bar result" where
  "row_to_bar col_map row =
     rbind (required_entry (row (column col_map ''timestamp''))) (\<lambda>c. rbind (to_int_text c) (\<lambda>ts.
     rbind (required_entry (row (column col_map ''open''))) (\<lambda>c. rbind (to_decimal_text c) (\<lambda>op.
     rbind (required_entry (row (column col_map ''high''))) (\<lambda>c. rbind (to_decimal_text c) (\<lambda>hi.
     rbind (required_entry (row (column col_map ''low''))) (\<lambda>c. rbind (to_decimal_text c) (\<lambda>lo.
     rbind (required_entry (row (column col_map ''close''))) (\<lambda>c. rbind (to_decimal_text c) (\<lambda>cl.
     rbind (required_entry (row (column col_map ''volume''))) (\<lambda>c. rbind (to_decimal_text c) (\<lambda>vo.
       Inr \<lparr>pb_timestamp = ts, pb_open = op, pb_high = hi, pb_low = lo, pb_close = cl, pb_volume = vo\<rparr>))))))))))))"

text \<open>\<open>except (KeyError, ValueError, ArithmeticError)\<close>.\<close>

definition skipped_error :: "pyexc \<Rightarrow> bool" where
  "skipped_error e \<longleftrightarrow> e \<in> {KeyError, ValueError, InvalidOperation, ZeroDivisionError}"

text \<open>\<open>csv.DictReader\<close>: empty rows are passed over, missing cells are \<open>None\<close>, surplus cells get no column of their own.\<close>

definition dict_row :: "string list \<Rightarrow> string list \<Rightarrow> csv_row" where
  "dict_row fieldnames cells =
     map_of (rev (zip fieldnames (map Some cells @ replicate (length fieldnames - length cells) None)))"

definition dict_rows :: "string list \<Rightarrow> string list list \<Rightarrow> csv_row list" where
  "dict_rows fieldnames rows = map (dict_row fieldnames) (filter (\<lambda>r. r \<noteq> []) rows)"

text \<open>The loop over the rows: the bars of the valid rows so far, and the error that leaves the loop, if any.\<close>

fun read_rows :: "('r \<Rightarrow> parsed_bar result) \<Rightarrow> 'r list \<Rightarrow> parsed_bar list \<times> pyexc option" where
  "read_rows conv [] = ([], None)"
| "read_rows conv (r # rs) =
     (case conv r of
        Inr b \<Rightarrow> (let (bars, e) = read_rows conv rs in (b # bars, e))
      | Inl e \<Rightarrow> if skipped_error e then read_rows conv rs else ([], Some e))"

section \<open>The loaders\<close>

datatype load_error = FileNotFound | NoHeader | MissingColumns "string list" | PyarrowMissing | Raised_in_row pyexc

definition finish_load :: "parsed_bar list \<times> pyexc option \<Rightarrow> load_error + parsed_bar list" where
  "finish_load r =
     (case snd r of Some e \<Rightarrow> Inl (Raised_in_row e) | None \<Rightarrow> Inr (sort_key pb_timestamp (fst r)))"

definition load_bars_from_csv ::
  "(string \<times> string) list \<Rightarrow> string list list option \<Rightarrow> load_error + parsed_bar list" where
  "load_bars_from_csv columns f =
     (case f of
        None \<Rightarrow> Inl FileNotFound
      | Some [] \<Rightarrow> Inl NoHeader
      | Some (fieldnames # rows) \<Rightarrow>
          let col_map = column_map columns;
              missing = map fst (filter (\<lambda>(canonical, actual). actual \<notin> set fieldnames) col_map)
          in if missing \<noteq> [] then Inl (MissingColumns missing)
             else finish_load (read_rows (row_to_bar col_map) (dict_rows fieldnames rows)))"

text \<open>The generator: what it yields, and the error that ends it, if any.\<close>

definition iter_bars_from_csv ::
  "(string \<times> string) list \<Rightarrow> string list list option \<Rightarrow> parsed_bar list \<times> load_error option" where
  "iter_bars_from_csv columns f =
     (case f of
        None \<Rightarrow> ([], Some FileNotFound)
      | Some [] \<Rightarrow> ([], None)
      | Some (fieldnames # rows) \<Rightarrow>
          let (bars, e) = read_rows (row_to_bar (column_map columns)) (dict_rows fieldnames rows)
          in (bars, map_option Raised_in_row e))"

text \<open>
  A value of a Parquet column. A float is given by its value, when it is finite, and by the decimal that \<open>str\<close> prints;
  \<open>int()\<close> of it truncates, and raises for an infinity or NaN.
\<close>

datatype pq_value = PqNull | PqInt int | PqDecimal xdecimal | PqText string | PqFloat "rat option" xdecimal

definition truncate_rat :: "rat \<Rightarrow> int" where
  "truncate_rat x = (if 0 \<le> x then \<lfloor>x\<rfloor> else - \<lfloor>- x\<rfloor>)"

fun pq_int :: "pq_value \<Rightarrow> int result" where
  "pq_int PqNull = Inl TypeError"
| "pq_int (PqInt n) = Inr n"
| "pq_int (PqDecimal (Fin x)) = Inr (truncate_rat x)"
| "pq_int (PqDecimal x) = Inl ValueError"
| "pq_int (PqText t) = int_text t"
| "pq_int (PqFloat (Some x) p) = Inr (truncate_rat x)"
| "pq_int (PqFloat None p) = Inl ValueError"

fun pq_decimal :: "pq_value \<Rightarrow> xdecimal result" where
  "pq_decimal PqNull = Inl InvalidOperation"
| "pq_decimal (PqInt n) = xquantize 8 (Fin (of_int n))"
| "pq_decimal (PqDecimal x) = Inr x"
| "pq_decimal (PqText t) = to_decimal_text (Some t)"
| "pq_decimal (PqFloat x p) = xquantize 8 p"

definition pq_cell :: "(string \<Rightarrow> pq_value list) \<Rightarrow> string \<Rightarrow> nat \<Rightarrow> pq_value result" where
  "pq_cell table col i = (if i < length (table col) then Inr (table col ! i) else Inl IndexError)"

definition pq_bar :: "(string \<times> string) list \<Rightarrow> (string \<Rightarrow> pq_value list) \<Rightarrow> nat \<Rightarrow> parsed_bar result" where
  "pq_bar col_map table i =
     rbind (pq_cell table (column col_map ''timestamp'') i) (\<lambda>c. rbind (pq_int c) (\<lambda>ts.
     rbind (pq_cell table (column col_map ''open'') i) (\<lambda>c. rbind (pq_decimal c) (\<lambda>op.
     rbind (pq_cell table (column col_map ''high'') i) (\<lambda>c. rbind (pq_decimal c) (\<lambda>hi.
     rbind (pq_cell table (column col_map ''low'') i) (\<lambda>c. rbind (pq_decimal c) (\<lambda>lo.
     rbind (pq_cell table (column col_map ''close'') i) (\<lambda>c. rbind (pq_decimal c) (\<lambda>cl.
     rbind (pq_cell table (column col_map ''volume'') i) (\<lambda>c. rbind (pq_decimal c) (\<lambda>vo.
       Inr \<lparr>pb_timestamp = ts, pb_open = op, pb_high = hi, pb_low = lo, pb_close = cl, pb_volume = vo\<rparr>))))))))))))"

text \<open>\<open>read_table\<close> is \<open>None\<close> when the package is missing; otherwise it gives the requested columns of the file.\<close>

definition load_bars_from_parquet ::
  "(string \<times> string) list \<Rightarrow> ('f \<Rightarrow> string list \<Rightarrow> (string \<Rightarrow> pq_value list)) option \<Rightarrow> 'f option \<Rightarrow> load_error + parsed_bar list" where
  "load_bars_from_parquet columns read_table f =
     (case read_table of
        None \<Rightarrow> Inl PyarrowMissing
      | Some read \<Rightarrow>
          (case f of
             None \<Rightarrow> Inl FileNotFound
           | Some content \<Rightarrow>
               let col_map = column_map columns; table = read content (map snd col_map);
                   row_count = length (table (column col_map ''timestamp''))
               in finish_load (read_rows (pq_bar col_map table) [0..<row_count])))"

section \<open>The row loop\<close>

text \<open>Without an error that escapes, the loop keeps the bars of the rows that convert, in their order.\<close>

definition valid_bars :: "('r \<Rightarrow> parsed_bar result) \<Rightarrow> 'r list \<Rightarrow> parsed_bar list" where
  "valid_bars conv rs = concat (map (\<lambda>r. case conv r of Inr b \<Rightarrow> [b] | Inl e \<Rightarrow> []) rs)"

definition row_escapes :: "('r \<Rightarrow> parsed_bar result) \<Rightarrow> 'r \<Rightarrow> bool" where
  "row_escapes conv r = (case conv r of Inl e \<Rightarrow> \<not> skipped_error e | Inr b \<Rightarrow> False)"

lemma read_rows_ok: "list_ex (row_escapes conv) rs \<or> read_rows conv rs = (valid_bars conv rs, None)"
  by (induction rs) (auto simp: valid_bars_def row_escapes_def split: sum.splits)

lemma read_rows_error: "snd (read_rows conv rs) = None \<longleftrightarrow> \<not> list_ex (row_escapes conv) rs"
  by (induction rs) (auto simp: row_escapes_def split: sum.splits prod.splits)

lemma read_rows_prefix:
  "snd (read_rows conv (rs @ r # rs')) = None \<or> \<not> row_escapes conv r \<or> list_ex (row_escapes conv) rs
    \<or> fst (read_rows conv (rs @ r # rs')) = valid_bars conv rs"
  by (induction rs) (auto simp: valid_bars_def row_escapes_def split: sum.splits prod.splits)

lemma finish_load_Inr:
  "finish_load (read_rows conv rs) = Inr bars \<longleftrightarrow>
     \<not> list_ex (row_escapes conv) rs \<and> bars = sort_key pb_timestamp (valid_bars conv rs)"
  using read_rows_ok [of conv rs] read_rows_error [of conv rs]
  by (auto simp: finish_load_def split: option.splits)

text \<open>The only conversion error that escapes is a missing cell in the time column.\<close>

lemma to_int_escapes: "to_int_text c = Inl e \<Longrightarrow> \<not> skipped_error e \<Longrightarrow> c = None \<and> e = TypeError"
  by (auto simp: to_int_text_def int_text_def skipped_error_def Let_def split: option.splits if_splits)

lemma decimal_text_error: "decimal_text t = Inl e \<Longrightarrow> e = InvalidOperation"
  by (auto simp: decimal_text_def Let_def split: if_splits option.splits)

lemma xquantize_error: "xquantize n x = Inl e \<Longrightarrow> e = InvalidOperation"
  by (cases x) (auto simp: rbind_eq_Inl quantize_def Let_def split: if_splits)

lemma to_decimal_error: "to_decimal_text c = Inl e \<Longrightarrow> e = InvalidOperation"
  by (auto simp: to_decimal_text_def rbind_eq_Inl split: option.splits dest: decimal_text_error xquantize_error)

lemma required_error: "required_entry x = Inl e \<Longrightarrow> e = KeyError"
  by (cases x) auto

lemma row_to_bar_escapes:
  "row_escapes (row_to_bar cm) row \<longleftrightarrow> row (column cm ''timestamp'') = Some None"
proof
  assume "row_escapes (row_to_bar cm) row"
  then obtain e where e: "row_to_bar cm row = Inl e" "\<not> skipped_error e"
    by (auto simp: row_escapes_def split: sum.splits)
  have caught: "required_entry x \<noteq> Inl e" "to_decimal_text c \<noteq> Inl e" for x :: "string option option" and c
    using e(2) required_error [of x e] to_decimal_error [of c e] by (auto simp: skipped_error_def)
  have "\<exists>c. row (column cm ''timestamp'') = Some c \<and> to_int_text c = Inl e"
    using e caught unfolding row_to_bar_def
    by (cases "row (column cm ''timestamp'')") (auto simp: rbind_eq_Inl skipped_error_def)
  then show "row (column cm ''timestamp'') = Some None" using to_int_escapes e(2) by blast
next
  assume "row (column cm ''timestamp'') = Some None"
  then show "row_escapes (row_to_bar cm) row"
    by (simp add: row_to_bar_def to_int_text_def row_escapes_def skipped_error_def)
qed

lemma loaded_cells:
  assumes "row_to_bar cm row = Inr b"
  shows "\<forall>x\<in>{pb_open b, pb_high b, pb_low b, pb_close b, pb_volume b}. x = NaN \<or> (\<exists>d. x = Fin d \<and> on_grid 8 d)"
proof -
  have cell: "x = NaN \<or> (\<exists>d. x = Fin d \<and> on_grid 8 d)" if "to_decimal_text c = Inr x" for c x
  proof -
    from that obtain v where "xquantize 8 v = Inr x"
      by (auto simp: to_decimal_text_def split: option.splits)
    then show ?thesis by (cases v) (auto dest: quantize_grid)
  qed
  show ?thesis using assms by (auto simp: row_to_bar_def dest: cell)
qed

section \<open>Loading and streaming\<close>

definition columns_present :: "(string \<times> string) list \<Rightarrow> string list \<Rightarrow> bool" where
  "columns_present columns fieldnames \<longleftrightarrow> list_all (\<lambda>(k, c). c \<in> set fieldnames) (column_map columns)"

lemma load_header:
  "load_bars_from_csv columns (Some (fieldnames # rows)) =
     (if columns_present columns fieldnames
      then finish_load (read_rows (row_to_bar (column_map columns)) (dict_rows fieldnames rows))
      else Inl (MissingColumns (map fst (filter (\<lambda>(k, c). c \<notin> set fieldnames) (column_map columns)))))"
  by (auto simp: load_bars_from_csv_def columns_present_def Let_def list_all_iff filter_empty_conv)

text \<open>
  Loading and streaming agree: for a file whose header has the mapped columns, the loader returns the bars of the
  stream sorted by time (and the very stream when the file is in chronological order), and it raises exactly when the
  stream ends in an error, with that error.
\<close>

theorem load_is_sorted_stream:
  assumes "columns_present columns fieldnames"
  shows "let (bars, err) = iter_bars_from_csv columns (Some (fieldnames # rows)) in
    load_bars_from_csv columns (Some (fieldnames # rows)) =
      (case err of Some e \<Rightarrow> Inl e | None \<Rightarrow> Inr (sort_key pb_timestamp bars)) \<and>
    (err = None \<longrightarrow> sorted (map pb_timestamp bars) \<longrightarrow> load_bars_from_csv columns (Some (fieldnames # rows)) = Inr bars)"
  using assms
  by (auto simp: load_header iter_bars_from_csv_def finish_load_def sorted_sort_id sort_key_id_if_sorted split: prod.splits option.splits)

definition sample_csv :: "string list list" where
  "sample_csv =
     [[''timestamp'', ''open'', ''high'', ''low'', ''close'', ''volume''],
      [''2000'', ''1.1'', ''1.3'', ''1.0'', ''1.2'', ''10''], [],
      [''x'', ''1.1'', ''1.3'', ''1.0'', ''1.2'', ''10''],
      [''1000'', ''1.0'', ''1.2'', ''1.0'', ''1.1'', ''7'']]"

lemma load_is_sorted_stream_witness:
  "load_bars_from_csv [] (Some sample_csv) = Inr (sort_key pb_timestamp (fst (iter_bars_from_csv [] (Some sample_csv))))"
proof -
  have "columns_present [] (hd sample_csv)" "snd (iter_bars_from_csv [] (Some sample_csv)) = None"
    "sample_csv = hd sample_csv # tl sample_csv" by code_simp+
  then show ?thesis
    using load_is_sorted_stream [of "[]" "hd sample_csv" "tl sample_csv"] by (simp add: Let_def split: prod.splits)
qed

text \<open>
  What a loaded file contains: the load succeeds exactly when the header has the mapped columns and no row is so
  short that its time cell is missing; the bars are then those of the rows that convert, each once, in increasing order
  of time and, for equal times, in file order; every price is NaN or has at most eight decimal places.
\<close>

theorem csv_load_spec:
  defines "conv \<equiv> \<lambda>columns. row_to_bar (column_map columns)"
  shows "(load_bars_from_csv columns (Some (fieldnames # rows)) = Inr bars) =
    (columns_present columns fieldnames \<and>
     list_all (\<lambda>row. row (column (column_map columns) ''timestamp'') \<noteq> Some None) (dict_rows fieldnames rows) \<and>
     mset bars = mset (valid_bars (conv columns) (dict_rows fieldnames rows)) \<and>
     sorted (map pb_timestamp bars) \<and>
     list_all (\<lambda>b. filter (\<lambda>b'. pb_timestamp b' = pb_timestamp b) bars =
                    filter (\<lambda>b'. pb_timestamp b' = pb_timestamp b) (valid_bars (conv columns) (dict_rows fieldnames rows))) bars)"
    (is "?load = (?cols \<and> ?cells \<and> ?perm \<and> ?sorted \<and> ?stable)")
proof -
  let ?vs = "valid_bars (conv columns) (dict_rows fieldnames rows)"
  have load: "?load \<longleftrightarrow> ?cols \<and> ?cells \<and> bars = sort_key pb_timestamp ?vs"
    by (auto simp: load_header finish_load_Inr row_to_bar_escapes list_all_iff list_ex_iff conv_def)
  have "bars = sort_key pb_timestamp ?vs \<longleftrightarrow> ?perm \<and> ?sorted \<and> ?stable"
  proof
    assume b: "bars = sort_key pb_timestamp ?vs"
    then show "?perm \<and> ?sorted \<and> ?stable" by (auto simp: list_all_iff sort_key_stable)
  next
    assume r: "?perm \<and> ?sorted \<and> ?stable"
    show "bars = sort_key pb_timestamp ?vs"
      using r by (intro properties_for_sort_key [symmetric]) (auto simp: list_all_iff eq_commute)
  qed
  with load show ?thesis by blast
qed

section \<open>What the checks of a row let through\<close>

text \<open>A price that reads NaN is a valid cell.\<close>

theorem nan_price_loaded:
  "load_bars_from_csv [] (Some [hd sample_csv, [''1'', ''nan'', ''1'', ''1'', ''1'', ''1'']]) =
     Inr [\<lparr>pb_timestamp = 1, pb_open = NaN, pb_high = Fin 1, pb_low = Fin 1, pb_close = Fin 1, pb_volume = Fin 1\<rparr>]"
  by code_simp

text \<open>One truncated row, where the time is the last column, loses the whole file.\<close>

theorem short_row_aborts_load:
  "load_bars_from_csv []
     (Some [[''open'', ''high'', ''low'', ''close'', ''volume'', ''timestamp''],
            [''1'', ''1'', ''1'', ''1'', ''1'', ''5''], [''1'', ''1'', ''1'']]) = Inl (Raised_in_row TypeError)"
  by code_simp

text \<open>The stream does not check the header: with a column missing it ends without a bar and without an error.\<close>

theorem stream_ignores_header:
  "iter_bars_from_csv [] (Some [[''time'', ''open'', ''high'', ''low'', ''close'', ''volume''],
      [''5'', ''1'', ''1'', ''1'', ''1'', ''1'']]) = ([], None)"
  by code_simp

end
