(* ===== verification/Information_Theory.thy ===== *)
theory Information_Theory
  imports Backtest_Metrics
begin

text \<open>
  \<open>math/information_theory.py\<close>: entropy, mutual information and divergence of binned samples, and the detector of
  distribution shifts over a fixed reference window. What numpy computes (histograms, bin edges, a float sum) and the C
  function \<open>log2\<close> are arguments; the floating-point loops over the counts are written out.
\<close>

section \<open>Measures\<close>

text \<open>\<open>round(x, 15)\<close> of a numpy scalar scales, rounds to an integer and divides, each step in double precision.\<close>

definition np_round :: "nat \<Rightarrow> rat \<Rightarrow> rat" where
  "np_round n x = flt_round (of_int (round_half_even (flt_round (x * 10 ^ n))) / 10 ^ n)"

lemma np_round_nonneg: "0 \<le> x \<Longrightarrow> 0 \<le> np_round n x"
  unfolding np_round_def using round_half_even_mono [of 0 "flt_round (x * 10 ^ n)"]
  by (intro flt.rnd_nonneg divide_nonneg_nonneg) (auto simp: round_half_even_of_int [of 0, simplified] flt.rnd_nonneg)

record histograms =
  nh_counts :: "rat list \<Rightarrow> nat \<Rightarrow> nat list"
  nh_counts2 :: "rat list \<Rightarrow> rat list \<Rightarrow> nat \<Rightarrow> nat list list"
  nh_linspace :: "rat \<Rightarrow> rat \<Rightarrow> nat \<Rightarrow> rat list"
  nh_counts_in :: "rat list \<Rightarrow> rat list \<Rightarrow> nat list"
  nh_sum :: "rat list \<Rightarrow> rat"

definition entropy_step :: "(rat \<Rightarrow> rat) \<Rightarrow> nat \<Rightarrow> rat \<Rightarrow> nat \<Rightarrow> rat" where
  "entropy_step c_log2 tot entropy c =
     (if 0 < c
      then let p = flt_round (of_nat c / of_nat tot) in flt_round (entropy - flt_round (p * c_log2 p))
      else entropy)"

definition shannon_entropy :: "histograms \<Rightarrow> (rat \<Rightarrow> rat) \<Rightarrow> decimal list \<Rightarrow> nat \<Rightarrow> decimal" where
  "shannon_entropy nh c_log2 vs n_bins =
     (if length vs < 2 then 0
      else let floats = map flt_round vs
           in if list_all (\<lambda>x. x = hd floats) floats then 0
              else let counts = nh_counts nh floats n_bins; tot = sum_list counts
                   in if tot = 0 then 0
                      else flt_decimal (np_round 15 (foldl (entropy_step c_log2 tot) 0 counts)))"

definition joint_entropy :: "histograms \<Rightarrow> (rat \<Rightarrow> rat) \<Rightarrow> rat list \<Rightarrow> rat list \<Rightarrow> nat \<Rightarrow> rat" where
  "joint_entropy nh c_log2 xs ys n_bins =
     (let counts = concat (nh_counts2 nh xs ys n_bins); tot = sum_list counts
      in if tot = 0 then 0 else foldl (entropy_step c_log2 tot) 0 counts)"

definition mutual_information :: "histograms \<Rightarrow> (rat \<Rightarrow> rat) \<Rightarrow> decimal list \<Rightarrow> decimal list \<Rightarrow> nat \<Rightarrow> decimal result" where
  "mutual_information nh c_log2 xs ys n_bins =
     (if length xs \<noteq> length ys then Inl ValueError
      else if length xs < 2 then Inr 0
      else let h_x = shannon_entropy nh c_log2 xs n_bins; h_y = shannon_entropy nh c_log2 ys n_bins;
               h_xy = flt_decimal (np_round 15 (joint_entropy nh c_log2 (map flt_round xs) (map flt_round ys) n_bins));
               mi = dec_sub (dec_add h_x h_y) h_xy
           in Inr (if mi < 0 then 0 else mi))"

definition EPSILON :: rat where
  "EPSILON = flt_round (1 / 10 ^ 15)"

text \<open>The counts of a sample inside the shared edges sum to its length, so that the division is by a positive number.\<close>

definition smoothed :: "histograms \<Rightarrow> nat list \<Rightarrow> rat list" where
  "smoothed nh counts =
     (let raw = map (\<lambda>c. flt_round (flt_round (of_nat c / of_nat (sum_list counts)) + EPSILON)) counts; s = nh_sum nh raw
      in map (\<lambda>x. flt_round (x / s)) raw)"

definition divergence_step :: "(rat \<Rightarrow> rat) \<Rightarrow> rat \<Rightarrow> rat \<times> rat \<Rightarrow> rat" where
  "divergence_step c_log2 d pq = flt_round (d + flt_round (fst pq * c_log2 (flt_round (fst pq / snd pq))))"

definition kl_divergence :: "histograms \<Rightarrow> (rat \<Rightarrow> rat) \<Rightarrow> decimal list \<Rightarrow> decimal list \<Rightarrow> nat \<Rightarrow> decimal" where
  "kl_divergence nh c_log2 p q n_bins =
     (if length p < 2 \<or> length q < 2 then 0
      else let ps = map flt_round p; qs = map flt_round q;
               global_min = min (Min (set ps)) (Min (set qs)); global_max = max (Max (set ps)) (Max (set qs))
           in if global_min = global_max then 0
              else let edges = nh_linspace nh global_min global_max (n_bins + 1);
                       divergence = foldl (divergence_step c_log2) 0
                         (zip (smoothed nh (nh_counts_in nh ps edges)) (smoothed nh (nh_counts_in nh qs edges)))
                   in flt_decimal (np_round 15 (if divergence < 0 then 0 else divergence)))"

section \<open>The shift detector\<close>

record shift_detector =
  sd_reference_window :: nat
  sd_test_window :: nat
  sd_threshold :: decimal
  sd_reference :: "decimal list"
  sd_test :: "decimal list"
  sd_total_count :: nat

definition new_shift_detector :: "nat \<Rightarrow> nat \<Rightarrow> decimal \<Rightarrow> shift_detector" where
  "new_shift_detector r t threshold =
     \<lparr>sd_reference_window = r, sd_test_window = t, sd_threshold = threshold, sd_reference = [], sd_test = [], sd_total_count = 0\<rparr>"

definition shift_update :: "histograms \<Rightarrow> (rat \<Rightarrow> rat) \<Rightarrow> decimal \<Rightarrow> shift_detector \<Rightarrow> bool \<times> shift_detector" where
  "shift_update nh c_log2 v sd =
     (let sd = sd\<lparr>sd_total_count := sd_total_count sd + 1\<rparr>
      in if sd_total_count sd \<le> sd_reference_window sd
         then (False, sd\<lparr>sd_reference := deque_append (sd_reference_window sd) (sd_reference sd) v\<rparr>)
         else let sd = sd\<lparr>sd_test := deque_append (sd_test_window sd) (sd_test sd) v\<rparr>
              in if length (sd_test sd) < sd_test_window sd then (False, sd)
                 else (sd_threshold sd < kl_divergence nh c_log2 (sd_test sd) (sd_reference sd) 20, sd))"

section \<open>Signs\<close>

lemma entropy_step_nonneg:
  assumes "\<forall>x. 0 < x \<and> x \<le> 1 \<longrightarrow> c_log2 x \<le> 0" "0 \<le> e" "c \<le> tot"
  shows "0 \<le> entropy_step c_log2 tot e c"
proof (cases "0 < c")
  case True
  define p where "p = flt_round (of_nat c / of_nat tot)"
  have "0 < p" "p \<le> 1"
    unfolding p_def using True assms(3) flt_round_int [of 1] by (auto intro!: flt.rnd_pos flt.rnd_le [of 1] simp: divide_le_eq)
  then have "flt_round (p * c_log2 p) \<le> 0" using assms(1) by (intro flt.rnd_nonpos) (auto simp: mult_le_0_iff)
  then show ?thesis using True assms(2) by (auto simp: entropy_step_def Let_def p_def [symmetric] intro!: flt.rnd_nonneg)
qed (use assms in \<open>simp add: entropy_step_def\<close>)

lemma entropy_loop_nonneg:
  assumes "\<forall>x. 0 < x \<and> x \<le> 1 \<longrightarrow> c_log2 x \<le> 0"
  shows "0 \<le> foldl (entropy_step c_log2 (sum_list counts)) 0 counts"
  by (rule foldl_invariant [where P = "\<lambda>e. 0 \<le> e"]) (auto intro: entropy_step_nonneg [OF assms] member_le_sum_list)

text \<open>
  The measures are nonnegative, whatever the histograms: for a logarithm that is not positive on the unit interval,
  entropy, mutual information (of series of equal length; otherwise \<open>ValueError\<close>) and divergence are at least 0, and a
  constant series has entropy 0.
\<close>

theorem measures_nonnegative:
  assumes "\<forall>x. 0 < x \<and> x \<le> 1 \<longrightarrow> c_log2 x \<le> 0"
  shows "0 \<le> shannon_entropy nh c_log2 xs n \<and> shannon_entropy nh c_log2 (replicate k v) n = 0 \<and>
    0 \<le> kl_divergence nh c_log2 xs ys n \<and>
    (case mutual_information nh c_log2 xs ys n of
       Inl e \<Rightarrow> e = ValueError \<and> length xs \<noteq> length ys
     | Inr mi \<Rightarrow> length xs = length ys \<and> 0 \<le> mi)"
proof -
  have "0 \<le> shannon_entropy nh c_log2 xs n"
    using entropy_loop_nonneg [OF assms] by (auto simp: shannon_entropy_def Let_def intro!: flt_decimal_nonneg np_round_nonneg)
  moreover have "shannon_entropy nh c_log2 (replicate k v) n = 0"
    by (cases k) (auto simp: shannon_entropy_def Let_def list_all_iff)
  moreover have "0 \<le> kl_divergence nh c_log2 xs ys n"
    by (auto simp: kl_divergence_def Let_def intro!: flt_decimal_nonneg np_round_nonneg)
  ultimately show ?thesis by (auto simp: mutual_information_def Let_def)
qed

section \<open>The windows of the detector\<close>

definition observe_values :: "histograms \<Rightarrow> (rat \<Rightarrow> rat) \<Rightarrow> decimal list \<Rightarrow> shift_detector \<Rightarrow> shift_detector" where
  "observe_values nh c_log2 vs sd = foldl (\<lambda>sd v. snd (shift_update nh c_log2 v sd)) sd vs"

lemma deque_append_window: "deque_append n (last_n n xs) x = last_n n (xs @ [x])"
  using deque_append_last_n [of n xs x] by (cases "n = 0") (auto simp: deque_append_def last_n_def)

lemma observed_windows:
  "observe_values nh c_log2 vs (new_shift_detector r t threshold) =
     \<lparr>sd_reference_window = r, sd_test_window = t, sd_threshold = threshold, sd_reference = take r vs,
      sd_test = last_n t (drop r vs), sd_total_count = length vs\<rparr>"
proof (induction vs rule: rev_induct)
  case Nil
  then show ?case by (simp add: observe_values_def new_shift_detector_def last_n_def)
next
  case (snoc v vs)
  have step: "observe_values nh c_log2 (vs @ [v]) sd = snd (shift_update nh c_log2 v (observe_values nh c_log2 vs sd))" for sd
    by (simp add: observe_values_def)
  show ?case
  proof (cases "length vs < r")
    case True
    then have "deque_append r vs v = vs @ [v]" by (rule deque_append_grow)
    then show ?thesis using True unfolding step snoc.IH by (simp add: shift_update_def last_n_def)
  next
    case False
    then show ?thesis unfolding step snoc.IH by (auto simp: shift_update_def Let_def deque_append_window)
  qed
qed

text \<open>
  What the shift detector compares: the reference is the first \<open>r\<close> values for ever and the test window the last
  \<open>t\<close> of the others; an observation signals a shift exactly when both windows are full and the divergence of the test
  window, this value included, from the reference exceeds the threshold.
\<close>

theorem shift_detector_windows:
  "fst (shift_update nh c_log2 v (observe_values nh c_log2 vs (new_shift_detector r t threshold))) =
     (r \<le> length vs \<and> t \<le> length vs + 1 - r \<and>
      threshold < kl_divergence nh c_log2 (last_n t (drop r (vs @ [v]))) (take r vs) 20)"
proof (cases "length vs < r")
  case True
  then show ?thesis by (simp add: observed_windows shift_update_def)
next
  case False
  then have "deque_append t (last_n t (drop r vs)) v = last_n t (drop r (vs @ [v]))"
    by (simp add: deque_append_window)
  then show ?thesis using False by (auto simp: observed_windows shift_update_def Let_def not_less Suc_diff_le)
qed

text \<open>A window of one value never detects anything: the divergence of fewer than two values is 0.\<close>

theorem short_windows_never_detect:
  assumes "t < 2 \<or> r < 2" "0 \<le> threshold"
  shows "\<not> fst (shift_update nh c_log2 v (observe_values nh c_log2 vs (new_shift_detector r t threshold)))"
proof -
  have "kl_divergence nh c_log2 (last_n t (drop r (vs @ [v]))) (take r vs) 20 = 0"
    using assms(1) by (auto simp: kl_divergence_def)
  then show ?thesis using assms(2) by (simp add: shift_detector_windows)
qed

definition no_histograms :: histograms where
  "no_histograms = \<lparr>nh_counts = (\<lambda>xs n. []), nh_counts2 = (\<lambda>xs ys n. []), nh_linspace = (\<lambda>a b n. []), nh_counts_in = (\<lambda>xs es. []), nh_sum = sum_list\<rparr>"

lemma short_windows_never_detect_witness:
  "\<not> fst (shift_update no_histograms (\<lambda>x. 0) 5 (observe_values no_histograms (\<lambda>x. 0) [1, 2, 3] (new_shift_detector 2 1 (1 / 2))))"
  by (rule short_windows_never_detect) simp_all

lemma measures_nonnegative_witness:
  "0 \<le> shannon_entropy (no_histograms\<lparr>nh_counts := \<lambda>xs n. [1, 2]\<rparr>) (\<lambda>x. x - 1) [1, 2, 3] 2"
  using measures_nonnegative [of "\<lambda>x. x - 1" "no_histograms\<lparr>nh_counts := \<lambda>xs n. [1, 2]\<rparr>" "[1, 2, 3]" 2] by simp

end
