(* ===== verification/Monte_Carlo.thy ===== *)
theory Monte_Carlo
  imports Backtest_Metrics "HOL-Library.Multiset"
begin

text \<open>
  \<open>optimization/monte_carlo.py\<close>: the robustness tests by shuffling, resampling and perturbation. The random draws and the
  statistics of numpy are arguments; the Sharpe ratio, the drawdown scan, the perturbation ranges and the combined report
  are written out in rounded arithmetic. An array that holds NaN has a NaN percentile.
\<close>

section \<open>Statistics\<close>

record numpy_stats =
  np_mean :: "rat list \<Rightarrow> rat"
  np_std :: "rat list \<Rightarrow> rat"
  np_median :: "rat list \<Rightarrow> rat"
  np_percentile :: "rat list \<Rightarrow> rat \<Rightarrow> rat"

definition mc_sharpe :: "numpy_stats \<Rightarrow> rat list \<Rightarrow> rat" where
  "mc_sharpe np returns =
     (if length returns < 2 then 0
      else let mean = np_mean np returns; std = np_std np returns
           in if std = 0 then 0 else flt_round (flt_round (mean / std) * flt_sqrt 252))"

text \<open>One step of \<open>cumprod\<close> and \<open>maximum.accumulate\<close>, with the drawdown at that point; \<open>None\<close> is NaN, from 0 / 0.\<close>

fun cum_drawdowns :: "rat \<Rightarrow> rat \<Rightarrow> rat list \<Rightarrow> rat option list" where
  "cum_drawdowns cum peak [] = []"
| "cum_drawdowns cum peak (r # rs) =
     (let cum = flt_round (cum * flt_round (1 + r)); peak = max peak cum
      in (if peak = 0 then None else Some (flt_round (flt_round (peak - cum) / peak))) # cum_drawdowns cum peak rs)"

definition drawdowns_of :: "rat list \<Rightarrow> rat option list" where
  "drawdowns_of returns =
     (case returns of
        [] \<Rightarrow> []
      | r # rs \<Rightarrow> let c = flt_round (1 + r) in (if c = 0 then None else Some 0) # cum_drawdowns c c rs)"

definition mc_max_drawdown :: "rat list \<Rightarrow> rat option" where
  "mc_max_drawdown returns =
     (let ds = drawdowns_of returns
      in if ds = [] then Some 0 else if None \<in> set ds then None else Some (Max (set (map the ds))))"

section \<open>Results\<close>

record mc_result =
  mc_n_simulations :: nat
  mc_median_sharpe :: decimal
  mc_pct_5_sharpe :: decimal
  mc_pct_95_sharpe :: decimal
  mc_pct_95_drawdown :: "decimal option"
  mc_survival_rate :: decimal
  mc_is_robust :: bool

text \<open>\<open>Decimal(str(round(x, 6)))\<close>.\<close>

definition dec6 :: "rat \<Rightarrow> decimal" where
  "dec6 x = flt_decimal (py_round 6 x)"

definition build_mc_result :: "numpy_stats \<Rightarrow> nat \<Rightarrow> rat list \<Rightarrow> rat option list \<Rightarrow> mc_result" where
  "build_mc_result np n sharpes drawdowns =
     (let pct_5_sharpe = dec6 (np_percentile np sharpes 5)
      in \<lparr>mc_n_simulations = n, mc_median_sharpe = dec6 (np_median np sharpes), mc_pct_5_sharpe = pct_5_sharpe,
          mc_pct_95_sharpe = dec6 (np_percentile np sharpes 95),
          mc_pct_95_drawdown = (if None \<in> set drawdowns then None else Some (dec6 (np_percentile np (map the drawdowns) 95))),
          mc_survival_rate = dec6 (flt_round (of_nat (length (filter (\<lambda>x. 0 < x) sharpes)) / of_nat (length sharpes))),
          mc_is_robust = (0 < pct_5_sharpe)\<rparr>)"

text \<open>\<open>draw k\<close> is the array of simulation \<open>k\<close>: a permutation, or a sample with replacement of the same size.\<close>

definition resampling_test :: "numpy_stats \<Rightarrow> nat \<Rightarrow> (nat \<Rightarrow> rat list \<Rightarrow> rat list) \<Rightarrow> decimal list \<Rightarrow> mc_result" where
  "resampling_test np n draw returns =
     (let arr = map flt_round returns; samples = map (\<lambda>k. draw k arr) [0..<n]
      in build_mc_result np n (map (mc_sharpe np) samples) (map mc_max_drawdown samples))"

definition return_shuffling :: "numpy_stats \<Rightarrow> nat \<Rightarrow> (nat \<Rightarrow> rat list \<Rightarrow> rat list) \<Rightarrow> decimal list \<Rightarrow> mc_result" where
  "return_shuffling = resampling_test"

definition bootstrap_resampling :: "numpy_stats \<Rightarrow> nat \<Rightarrow> (nat \<Rightarrow> rat list \<Rightarrow> rat list) \<Rightarrow> decimal list \<Rightarrow> mc_result" where
  "bootstrap_resampling = resampling_test"

text \<open>The range of a parameter: ten per cent around its value, cut to the allowed range.\<close>

definition perturbation_range :: "(string \<rightharpoonup> rat \<times> rat) \<Rightarrow> string \<times> rat \<Rightarrow> rat \<times> rat" where
  "perturbation_range param_ranges nv =
     (let low = flt_round (snd nv * flt_round (9 / 10)); high = flt_round (snd nv * flt_round (11 / 10))
      in case param_ranges (fst nv) of
           None \<Rightarrow> (low, high)
         | Some (p_min, p_max) \<Rightarrow> (max low p_min, min high p_max))"

text \<open>\<open>uniform k name low high\<close> is the draw of simulation \<open>k\<close>; it and the evaluation may raise.\<close>

fun perturb_params ::
  "(string \<Rightarrow> rat \<Rightarrow> rat \<Rightarrow> rat result) \<Rightarrow> (string \<rightharpoonup> rat \<times> rat) \<Rightarrow> (string \<times> rat) list \<Rightarrow> (string \<times> decimal) list result" where
  "perturb_params uniform param_ranges [] = Inr []"
| "perturb_params uniform param_ranges (nv # rest) =
     (case perturbation_range param_ranges nv of
        (low, high) \<Rightarrow>
          rbind (uniform (fst nv) low high) (\<lambda>x.
          rbind (perturb_params uniform param_ranges rest) (\<lambda>ps. Inr ((fst nv, dec6 x) # ps))))"

fun perturbation_runs ::
  "(nat \<Rightarrow> string \<Rightarrow> rat \<Rightarrow> rat \<Rightarrow> rat result) \<Rightarrow> ((string \<times> decimal) list \<Rightarrow> decimal result) \<Rightarrow> (string \<times> rat) list \<Rightarrow>
   (string \<rightharpoonup> rat \<times> rat) \<Rightarrow> nat list \<Rightarrow> rat list result" where
  "perturbation_runs uniform evaluate_fn base ranges [] = Inr []"
| "perturbation_runs uniform evaluate_fn base ranges (k # ks) =
     rbind (perturb_params (uniform k) ranges base) (\<lambda>ps. rbind (evaluate_fn ps) (\<lambda>sharpe.
     rbind (perturbation_runs uniform evaluate_fn base ranges ks) (\<lambda>rest. Inr (flt_round sharpe # rest))))"

definition parameter_perturbation ::
  "numpy_stats \<Rightarrow> nat \<Rightarrow> (nat \<Rightarrow> string \<Rightarrow> rat \<Rightarrow> rat \<Rightarrow> rat result) \<Rightarrow> ((string \<times> decimal) list \<Rightarrow> decimal result) \<Rightarrow>
   (string \<times> rat) list \<Rightarrow> (string \<rightharpoonup> rat \<times> rat) \<Rightarrow> mc_result result" where
  "parameter_perturbation np n uniform evaluate_fn base ranges =
     rbind (perturbation_runs uniform evaluate_fn base ranges [0..<n]) (\<lambda>sharpes.
       Inr (build_mc_result np n sharpes (replicate (length sharpes) (Some 0))))"

record mc_report =
  mr_shuffle :: mc_result
  mr_bootstrap :: mc_result
  mr_raw_sharpe :: decimal
  mr_profit_factor :: decimal
  mr_sharpe_suspicious :: bool
  mr_profit_factor_suspicious :: bool

definition mc_profit_factor :: "decimal list \<Rightarrow> decimal" where
  "mc_profit_factor returns =
     (let gross_profit = dec_sum (filter (\<lambda>r. 0 < r) returns); gross_loss = dec_abs (dec_sum (filter (\<lambda>r. r < 0) returns))
      in if gross_loss \<noteq> 0 then dec_div gross_profit gross_loss else 999)"

definition validate_mc_strategy ::
  "numpy_stats \<Rightarrow> nat \<Rightarrow> (nat \<Rightarrow> rat list \<Rightarrow> rat list) \<Rightarrow> (nat \<Rightarrow> rat list \<Rightarrow> rat list) \<Rightarrow> decimal list \<Rightarrow> mc_report" where
  "validate_mc_strategy np n shuffle sample returns =
     (let raw_sharpe = dec6 (mc_sharpe np (map flt_round returns)); profit_factor = mc_profit_factor returns
      in \<lparr>mr_shuffle = return_shuffling np n shuffle returns, mr_bootstrap = bootstrap_resampling np n sample returns,
          mr_raw_sharpe = raw_sharpe, mr_profit_factor = profit_factor,
          mr_sharpe_suspicious = (3 < raw_sharpe), mr_profit_factor_suspicious = (3 < profit_factor)\<rparr>)"

section \<open>Shuffling cannot degrade a Sharpe ratio\<close>

text \<open>What the statistics of numpy promise: they do not depend on the order, and those of a constant array are its value.\<close>

definition order_free :: "numpy_stats \<Rightarrow> bool" where
  "order_free np \<longleftrightarrow>
     (\<forall>xs ys. mset xs = mset ys \<longrightarrow> np_mean np xs = np_mean np ys \<and> np_std np xs = np_std np ys) \<and>
     (\<forall>n x q. 0 < n \<longrightarrow> np_percentile np (replicate n x) q = x \<and> np_median np (replicate n x) = x)"

lemma mc_sharpe_order_free:
  assumes "order_free np" "mset xs = mset ys"
  shows "mc_sharpe np xs = mc_sharpe np ys"
proof -
  have "length xs = length ys" using assms(2) by (rule mset_eq_length)
  moreover have "np_mean np xs = np_mean np ys" "np_std np xs = np_std np ys"
    using assms unfolding order_free_def by blast+
  ultimately show ?thesis by (simp add: mc_sharpe_def)
qed

text \<open>
  The shuffling test says nothing about the order of the returns: with statistics that do not depend on the order,
  every shuffle has the Sharpe ratio of the original series, so that the three percentiles are that ratio, and the
  strategy is called robust exactly when its own ratio, rounded to six places, is positive.
\<close>

theorem shuffling_is_vacuous:
  assumes "order_free np" "0 < n" "\<forall>k xs. mset (shuffle k xs) = mset xs"
  shows "let res = return_shuffling np n shuffle returns; s = mc_sharpe np (map flt_round returns)
    in mc_pct_5_sharpe res = dec6 s \<and> mc_median_sharpe res = dec6 s \<and> mc_pct_95_sharpe res = dec6 s \<and>
       mc_is_robust res = (0 < dec6 s)"
proof -
  define s where "s = mc_sharpe np (map flt_round returns)"
  have "map (mc_sharpe np) (map (\<lambda>k. shuffle k (map flt_round returns)) [0..<n]) = replicate n s"
    using mc_sharpe_order_free [OF assms(1)] assms(3) by (intro nth_equalityI) (auto simp: s_def)
  then show ?thesis
    using assms(1,2) unfolding return_shuffling_def resampling_test_def build_mc_result_def order_free_def s_def [symmetric] Let_def
    by simp
qed

definition exact_stats :: numpy_stats where
  "exact_stats = \<lparr>np_mean = (\<lambda>xs. sum_list xs / of_nat (length xs)), np_std = (\<lambda>xs. 1), np_median = hd, np_percentile = (\<lambda>xs q. hd xs)\<rparr>"

lemma shuffling_is_vacuous_witness:
  "mc_is_robust (return_shuffling exact_stats 2 (\<lambda>k xs. rev xs) [1, - 3]) = (0 < dec6 (mc_sharpe exact_stats [1, - 3]))"
proof -
  have sums: "sum_list xs = sum_list ys" if "mset xs = mset ys" for xs ys :: "rat list"
    using that by (metis sum_mset_sum_list)
  have "sum_list xs / rat_of_nat (length xs) = sum_list ys / rat_of_nat (length ys)" if "mset xs = mset ys" for xs ys
    using sums [OF that] mset_eq_length [OF that] by simp
  then have "\<forall>xs ys. mset xs = mset ys \<longrightarrow> np_mean exact_stats xs = np_mean exact_stats ys \<and> np_std exact_stats xs = np_std exact_stats ys"
    unfolding exact_stats_def numpy_stats.simps by blast
  moreover have "\<forall>n x q. 0 < n \<longrightarrow> np_percentile exact_stats (replicate n x) q = x \<and> np_median exact_stats (replicate n x) = x"
    by (simp add: exact_stats_def)
  ultimately have free: "order_free exact_stats" unfolding order_free_def by blast
  have arr: "map flt_round [1, - 3] = [1, - 3]" using flt_round_int [of 1] flt_round_int [of "- 3"] by simp
  then show ?thesis
    using shuffling_is_vacuous [OF free, of 2 "\<lambda>k xs. rev xs" "[1, - 3]"] unfolding arr Let_def by simp
qed

section \<open>Drawdowns\<close>

lemma unit_drawdown:
  assumes "0 < c" "c \<le> p" "flt_round p = p"
  shows "0 \<le> flt_round (flt_round (p - c) / p) \<and> flt_round (flt_round (p - c) / p) \<le> 1"
proof -
  have "0 \<le> flt_round (p - c)" "flt_round (p - c) \<le> p" using assms by (auto intro!: flt.rnd_nonneg flt.rnd_le)
  then show ?thesis using assms flt_round_int [of 1] by (auto intro!: flt.rnd_nonneg flt.rnd_le simp: divide_le_eq)
qed

lemma cum_drawdowns_unit:
  assumes "0 < cum" "cum \<le> peak" "flt_round peak = peak" "list_all (\<lambda>r. - 1 < r) rs"
  shows "list_all (\<lambda>d. \<exists>x. d = Some x \<and> 0 \<le> x \<and> x \<le> 1) (cum_drawdowns cum peak rs)"
  using assms
proof (induction rs arbitrary: cum peak)
  case (Cons r rs)
  define c where "c = flt_round (cum * flt_round (1 + r))"
  have "0 < flt_round (1 + r)" using Cons.prems(4) by (intro flt.rnd_pos) simp
  then have c: "0 < c" using Cons.prems(1) unfolding c_def by (intro flt.rnd_pos) simp
  have p: "c \<le> max peak c" "flt_round (max peak c) = max peak c" using Cons.prems(3) by (auto simp: max_def c_def flt.rnd_idem)
  show ?case
    using Cons.IH [OF c p] Cons.prems(4) unit_drawdown [OF c p] c by (simp add: Let_def c_def [symmetric])
qed simp

text \<open>
  The drawdown of a simulation is a fraction: for returns above a total loss it is a number between 0 and 1.
\<close>

theorem mc_drawdown_unit:
  assumes "list_all (\<lambda>r. - 1 < r) returns"
  shows "\<exists>d. mc_max_drawdown returns = Some d \<and> 0 \<le> d \<and> d \<le> 1"
proof (cases returns)
  case (Cons r rs)
  define c where "c = flt_round (1 + r)"
  have c: "0 < c" using assms Cons unfolding c_def by (intro flt.rnd_pos) simp
  have ds: "drawdowns_of returns = Some 0 # cum_drawdowns c c rs"
    using c by (simp add: drawdowns_of_def Cons Let_def c_def [symmetric])
  have unit: "list_all (\<lambda>d. \<exists>x. d = Some x \<and> 0 \<le> x \<and> x \<le> 1) (cum_drawdowns c c rs)"
    using cum_drawdowns_unit [OF c order_refl, of rs] assms Cons by (simp add: c_def flt.rnd_idem)
  let ?vs = "map the (drawdowns_of returns)"
  have "None \<notin> set (drawdowns_of returns)" "\<forall>x\<in>set ?vs. 0 \<le> x \<and> x \<le> 1" "?vs \<noteq> []"
    using unit by (auto simp: ds list_all_iff)
  then show ?thesis using ds by (auto simp: mc_max_drawdown_def Let_def)
qed (simp add: mc_max_drawdown_def drawdowns_of_def)

lemma mc_drawdown_unit_witness: "\<exists>d. mc_max_drawdown [1 / 2, - 1 / 2] = Some d \<and> 0 \<le> d \<and> d \<le> 1"
  by (rule mc_drawdown_unit) simp

text \<open>The peak starts at the first cumulative value, not at 1, so that a loss of the first period is no drawdown.\<close>

theorem first_loss_not_drawdown:
  assumes "- 1 < r"
  shows "mc_max_drawdown [r] = Some 0"
proof -
  have "0 < flt_round (1 + r)" using assms by (intro flt.rnd_pos) simp
  then show ?thesis by (simp add: mc_max_drawdown_def drawdowns_of_def Let_def)
qed

lemma first_loss_not_drawdown_witness: "mc_max_drawdown [- 9 / 10] = Some 0"
  by (rule first_loss_not_drawdown) simp

text \<open>A series without a loss has the factor 999 and is flagged as suspicious, the empty one included.\<close>

theorem no_losses_flagged:
  assumes "list_all (\<lambda>r. 0 \<le> r) returns"
  shows "mr_profit_factor_suspicious (validate_mc_strategy np n shuffle sample returns)"
proof -
  have "filter (\<lambda>r. r < 0) returns = []" using assms by (auto simp: filter_empty_conv list_all_iff)
  then show ?thesis by (simp add: validate_mc_strategy_def mc_profit_factor_def dec_sum_def dec_abs_def Let_def)
qed

lemma no_losses_flagged_witness: "mr_profit_factor_suspicious (validate_mc_strategy exact_stats 1 (\<lambda>k xs. xs) (\<lambda>k xs. xs) [])"
  by (rule no_losses_flagged) simp

section \<open>Perturbation\<close>

text \<open>A perturbed dictionary has the names of the base.\<close>

lemma perturbed_names: "perturb_params uniform ranges base = Inr ps \<Longrightarrow> map fst ps = map fst base"
  by (induction base arbitrary: ps) (auto split: prod.splits)

text \<open>For a negative parameter without limits the bounds are in the wrong order.\<close>

theorem negative_parameter_range_inverted:
  "perturbation_range Map.empty (name, - 1) = (- flt_round (9 / 10), - flt_round (11 / 10)) \<and>
   - flt_round (11 / 10) < - flt_round (9 / 10)"
proof -
  have "flt_round (15 / 16) = 15 / 16" using flt_round_grid [of "15 / 16" 4 15] by simp
  then have "flt_round (9 / 10) \<le> 15 / 16" by (rule flt.rnd_le) simp
  moreover have "1 \<le> flt_round (11 / 10)" using flt_round_int [of 1] by (intro flt.rnd_ge) simp_all
  ultimately have "flt_round (9 / 10) < flt_round (11 / 10)" by linarith
  then show ?thesis by (simp add: perturbation_range_def flt.rnd_minus flt.rnd_idem)
qed

end
