(* ===== verification/Start_Up.thy ===== *)
theory Start_Up
  imports Main_Loop Service_Config Feed_Inputs Backtest_Metrics
begin

text \<open>
  The start of \<open>run_engine\<close> in \<open>algo_engine/main.py\<close>: how the settings and what the outside answers (Redis, the audit database,
  files, the certificates of the bridge) become the state of the main loop, and what the composed service then guarantees in
  terms of its settings. Settings are read as in \<open>Service_Config\<close>. Two kinds of settings that the code accepts are outside the
  model (\<open>None\<close>): a lot limit that is infinite or not a number, and negative counts of losses.
\<close>

section \<open>From settings to the running state\<close>

record start_world =
  sw_env :: environment
  sw_files :: file_system
  sw_proto_installed :: bool
  sw_audit_ok :: bool
  sw_kill_ping :: bool
  sw_kill_clock :: rat
  sw_redis_ping :: bool
  sw_spiral_clocks :: "rat \<times> rat"
  sw_spiral_data :: "(nat \<times> rat option) option"
  sw_today :: string
  sw_daily_loss :: "decimal option"
  sw_events :: "calendar_event list json_file"

text \<open>\<open>Decimal(str(x))\<close>.\<close>

fun setting_decimal :: "setting_float \<Rightarrow> decimal option" where
  "setting_decimal (FlNum x) = Some (flt_decimal x)"
| "setting_decimal _ = None"

definition start_audit :: "start_world \<Rightarrow> algo_settings \<Rightarrow> pg_trail" where
  "start_audit w st =
     (let audit = new_pg_trail (as_service_name st) False 10000
      in case sw_env w ''ALGO_DATABASE_URL'' of
           None \<Rightarrow> audit
         | Some url \<Rightarrow> if url = [] then audit else connect_pool (sw_audit_ok w) audit)"

definition start_spiral :: "start_world \<Rightarrow> algo_settings \<Rightarrow> spiral" where
  "start_spiral w st =
     (let sp = new_spiral (nat (as_spiral_loss_threshold st)) (nat (as_spiral_max_losses st)) (as_spiral_cooldown_minutes st)
                 (5 / 10) None
      in if sw_redis_ping w then spiral_sync (fst (sw_spiral_clocks w)) (snd (sw_spiral_clocks w)) (sw_spiral_data w) sp else sp)"

definition start_pipeline :: "algo_settings \<Rightarrow> feature_pipeline" where
  "start_pipeline st =
     new_feature_pipeline (nat (as_rsi_period st)) (nat (as_ema_fast st)) (nat (as_ema_slow st)) (nat (as_bb_period st))
       (nat (as_atr_period st))"

definition start_validator :: "start_world \<Rightarrow> algo_settings \<Rightarrow> decimal \<Rightarrow> decimal \<Rightarrow> decimal \<Rightarrow> validator" where
  "start_validator w st max_dd max_loss min_conf =
     \<lparr>v_max_open_positions = as_max_open_positions st, v_max_drawdown_pct = max_dd, v_max_daily_loss_pct = max_loss,
      v_min_confidence = min_conf, v_min_risk_reward_ratio = 1,
      v_correlation = Some (of_int (as_max_exposure_per_currency st)), v_session = True,
      v_calendar = (if as_calendar_file st = [] then None
                    else Some (new_calendar_filter (as_calendar_before_min st) (as_calendar_after_min st) (Some (sw_events w)))),
      v_spread_tracker = None, v_default_leverage = 100, v_margin_buffer_pct = 80 / 100\<rparr>"

definition start_portfolio :: "start_world \<Rightarrow> portfolio" where
  "start_portfolio w =
     (let pf = new_portfolio (sw_today w) in if sw_redis_ping w then portfolio_sync (sw_daily_loss w) pf else pf)"

definition start_alerts :: "algo_settings \<Rightarrow> dispatcher" where
  "start_alerts st =
     (let d = new_dispatcher 30 5
      in if as_telegram_bot_token st \<noteq> [] \<and> as_telegram_chat_id st \<noteq> [] then add_channel d else d)"

definition start_bridge :: "start_world \<Rightarrow> bridge_client" where
  "start_bridge w =
     connect_bridge (sw_proto_installed w \<and> bridge_connect (sw_files w) (sw_env w) \<noteq> None) new_bridge_client"

text \<open>The components that \<open>run_engine\<close> does not pass to \<open>AlgoEngine\<close> are absent.\<close>

definition start_engine :: "start_world \<Rightarrow> algo_settings \<Rightarrow> decimal \<Rightarrow> decimal \<Rightarrow> validator \<Rightarrow> engine" where
  "start_engine w st risk max_lots v =
     \<lparr>en_bar_counter = 0, en_quality = new_quality_checker 5, en_buffer = new_bar_buffer 250 50,
      en_regime = new_regime_classifier 50 3, en_router = algo_router,
      en_generator = \<lparr>gn_sl_mult = 15 / 10, gn_tp_mult = 25 / 10\<rparr>,
      en_sizer = \<lparr>ps_risk_pct = risk, ps_default_equity = of_int (as_default_equity st), ps_min_lots = 1 / 100, ps_max_lots = max_lots\<rparr>,
      en_adv_sizer = None, en_validator = v, en_spiral = start_spiral w st,
      en_rate = new_rate_limiter (as_max_signals_per_hour st), en_attribution = Map.empty, en_portfolio = start_portfolio w,
      en_belief = None, en_composite = None, en_maturity = None\<rparr>"

definition start_app :: "start_world \<Rightarrow> algo_settings \<Rightarrow> (settings \<times> app) option" where
  "start_app w st =
     (case (setting_decimal (as_max_drawdown_pct st), setting_decimal (as_max_daily_loss_pct st),
            setting_decimal (as_confidence_threshold st), setting_decimal (as_risk_per_trade_pct st),
            setting_decimal (algo_settings.as_max_lots st)) of
        (Some d, Some l, Some c, Some r, Some m) \<Rightarrow>
          if 0 \<le> as_spiral_loss_threshold st \<and> 0 \<le> as_spiral_max_losses st
          then Some (\<lparr>st_max_daily_loss_pct = l, st_max_drawdown_pct = d\<rparr>,
             \<lparr>ap_bar_counter = 0, ap_kill = ks_connect (sw_kill_clock w) (sw_kill_ping w) (new_kill_switch 1),
              ap_stage = \<lparr>fs_mtf = new_mtf_analyzer (as_primary_timeframe st), fs_pipeline = start_pipeline st, fs_scorer = False,
                          fs_confirmation = False, fs_tuner = None\<rparr>,
              ap_engine = start_engine w st r m (start_validator w st d l c), ap_audit = start_audit w st,
              ap_bridge = Some (start_bridge w), ap_alerts = start_alerts st\<rparr>)
          else None
      | _ \<Rightarrow> None)"

text \<open>\<open>main\<close>: invalid settings end the process before anything is started.\<close>

definition start_service :: "start_world \<Rightarrow> algo_settings \<Rightarrow> settings_error + (settings \<times> app) option" where
  "start_service w st = rbind (make_algo_settings st) (\<lambda>st. Inr (start_app w st))"

text \<open>
  The end of \<open>run_engine\<close>, after a cancellation: the channel is closed and the audit trail is flushed once more; \<open>ok\<close> tells
  which rows the database takes.
\<close>

definition shut_down :: "(nat \<Rightarrow> bool) \<Rightarrow> app \<times> audit_record list \<Rightarrow> app \<times> audit_record list" where
  "shut_down ok st =
     (case st of (ap, table) \<Rightarrow>
        case flush_buffer ok (ap_audit ap, table) of
          (n, t, table) \<Rightarrow> (ap\<lparr>ap_bridge := map_option close_bridge (ap_bridge ap), ap_audit := t\<rparr>, table))"

section \<open>Lemmas: the limits of a running engine\<close>

text \<open>The parts of an engine that come from the settings and no step changes.\<close>

definition same_limits :: "engine \<Rightarrow> engine \<Rightarrow> bool" where
  "same_limits en en' \<longleftrightarrow>
     fixed_parts en' = fixed_parts en \<and> sp_reduction_factor (en_spiral en') = sp_reduction_factor (en_spiral en)"

lemma same_limits_refl [simp]: "same_limits en en"
  by (simp add: same_limits_def)

lemma same_limits_trans: "same_limits a b \<Longrightarrow> same_limits b c \<Longrightarrow> same_limits a c"
  by (simp add: same_limits_def)

lemma cooldown_factor: "is_in_cooldown now s = (x, s') \<Longrightarrow> sp_reduction_factor s' = sp_reduction_factor s"
  by (auto simp: is_in_cooldown_def Let_def split: option.splits if_splits)

lemma multiplier_factor: "get_sizing_multiplier now s = (x, s') \<Longrightarrow> sp_reduction_factor s' = sp_reduction_factor s"
  by (auto simp: get_sizing_multiplier_def Let_def dest: cooldown_factor split: prod.splits bool.splits if_splits)

lemma trade_result_factor [simp]: "sp_reduction_factor (record_trade_result now w s) = sp_reduction_factor s"
  by (simp add: record_trade_result_def Let_def)

lemma spiral_gate_limits: "spiral_gate env sig en = (r, en') \<Longrightarrow> same_limits en en'"
  by (auto simp: spiral_gate_def same_limits_def fixed_parts_def split: prod.splits bool.splits sum.splits
      dest!: cooldown_factor multiplier_factor)

lemma final_gates_limits: "final_gates env sig en = (r, en') \<Longrightarrow> same_limits en en'"
  by (auto simp: final_gates_def same_limits_def fixed_parts_def Let_def
      split: prod.splits bool.splits sum.splits verdict.splits)

lemma pipe_limits:
  assumes "pipe m k = (r, en')" "same_limits en (snd m)" "\<And>x e r e'. k x e = (r, e') \<Longrightarrow> same_limits e e'"
  shows "same_limits en en'"
  using assms by (auto simp: pipe_def split: prod.splits sum.splits option.splits intro: same_limits_trans)

lemma process_bar_limits:
  assumes "process_bar env symbol tf b en = (r, en')"
  shows "same_limits en en'"
proof -
  let ?en0 = "en\<lparr>en_bar_counter := Suc (en_bar_counter en)\<rparr>"
  obtain f en1 where i: "ingest env symbol tf b ?en0 = (f, en1)" by fastforce
  have I: "same_limits en en1" using ingest_frame [OF i] by (simp add: same_limits_def fixed_parts_def)
  obtain d en2 where d: "decide env (the f) en1 = (d, en2)" by fastforce
  have D: "same_limits en en2" using I decide_frame [OF d] by (simp add: same_limits_def)
  have B: "same_limits en (snd (build_signal env symbol s g en2))" for s g
    using D build_signal_frame [of env symbol s g en2] by (cases "build_signal env symbol s g en2") (simp add: same_limits_def)
  have P: "same_limits en e" if "pipe (pipe (build_signal env symbol s g en2) (spiral_gate env)) (final_gates env) = (x, e)" for s g x e
    by (rule pipe_limits [OF that pipe_limits [OF surjective_pairing B spiral_gate_limits] final_gates_limits])
  show ?thesis
    using assms I D P d by (cases f) (auto simp: process_bar_def i Let_def split: sum.splits prod.splits)
qed

lemma run_bar_limits:
  assumes "run_bar env symbol tf b (fs, en) = (out, fs', en')"
  shows "same_limits en en'"
  using assms
  by (auto simp: run_bar_def Let_def same_limits_def fixed_parts_def split: prod.splits if_splits sum.splits option.splits
      dest!: process_bar_limits [unfolded same_limits_def fixed_parts_def])

text \<open>The same of the steps of an iteration that follow the engine.\<close>

definition app_limits :: "app \<Rightarrow> app \<Rightarrow> bool" where
  "app_limits ap ap' \<longleftrightarrow> same_limits (ap_engine ap) (ap_engine ap')"

lemmas app_limits_defs = app_limits_def same_limits_def fixed_parts_def

lemma set_portfolio_limits [simp]: "app_limits ap (set_portfolio pf ap)"
  by (simp add: app_limits_defs set_portfolio_def)

lemma alert_limits [simp]: "app_limits a (alert_app level title body now ap) = app_limits a ap"
  by (simp add: app_limits_def alert_app_def)

lemma auto_check_limits: "app_limits ap (auto_check_app cfg i ap)"
  by (simp add: auto_check_app_def app_limits_defs set_portfolio_def Let_def split: prod.splits)

lemma enforce_limits: "app_limits ap (enforce_drawdown cfg i ap)"
  by (simp add: enforce_drawdown_def app_limits_defs set_portfolio_def Let_def split: prod.splits)

lemma book_fill_limits: "app_limits ap (book_fill i symbol sig ap)"
  by (simp add: book_fill_def)

lemma book_closes_limits: "same_limits en (foldl (\<lambda>en rt. book_close now rt en) en trades)"
proof (induction trades rule: rev_induct)
  case (snoc rt trades)
  then show ?case by (simp add: book_close_def same_limits_def fixed_parts_def)
qed simp

lemma poll_limits: "app_limits ap (poll_closed i ap)"
  by (simp add: poll_closed_def app_limits_def book_closes_limits split: option.splits prod.splits)

lemma app_limits_trans: "app_limits a b \<Longrightarrow> app_limits b c \<Longrightarrow> app_limits a c"
  unfolding app_limits_def by (rule same_limits_trans)

lemma dispatch_limits:
  assumes "dispatch_signal i symbol sig ap s = (r, ap', s')"
  shows "app_limits ap ap'"
proof -
  have F: "app_limits ap (book_fill i symbol sig (ap\<lparr>ap_bridge := b, ap_audit := t\<rparr>))" for b t
    using book_fill_limits [of "ap\<lparr>ap_bridge := b, ap_audit := t\<rparr>" i symbol sig] by (simp add: app_limits_def)
  show ?thesis
    using assms F by (auto simp: dispatch_signal_def Let_def app_limits_def split: option.splits if_splits prod.splits sum.splits)
qed

lemma handle_signal_limits:
  assumes "handle_signal cfg i symbol sig ap s = (r, ap', s')"
  shows "app_limits ap ap'"
proof -
  let ?ap1 = "auto_check_app cfg i ap"
  obtain x ks where k: "ks_is_active (fst (in_recheck i)) (snd (in_recheck i)) (ap_kill ?ap1) = (x, ks)" by fastforce
  obtain e t where l: "audit_log (signal_audit ''signal_generated'' (in_generated_text i sig) (in_generated_at i) sig)
      (ap_audit ?ap1) = (e, t)" by fastforce
  have A: "app_limits ap (?ap1\<lparr>ap_kill := ks\<rparr>)" "app_limits ap (?ap1\<lparr>ap_kill := ks, ap_audit := t\<rparr>)"
    using auto_check_limits [of ap cfg i] by (simp_all add: app_limits_def)
  obtain q ap2 s2 where d: "dispatch_signal i symbol sig (?ap1\<lparr>ap_kill := ks, ap_audit := t\<rparr>) s = (q, ap2, s2)"
    using prod_cases3 by blast
  have D: "app_limits ap (enforce_drawdown cfg i (poll_closed i ap2))"
    by (rule app_limits_trans [OF A(2) app_limits_trans [OF dispatch_limits [OF d] app_limits_trans [OF poll_limits enforce_limits]]])
  have "ap' \<in> {?ap1\<lparr>ap_kill := ks\<rparr>, ?ap1\<lparr>ap_kill := ks, ap_audit := t\<rparr>, enforce_drawdown cfg i (poll_closed i ap2),
      alert_app Critical ''Kill Switch Activated'' ''Kill switch auto-activated. Trading suspended.'' (in_alert_at i)
        (?ap1\<lparr>ap_kill := ks\<rparr>)}"
    using assms k l d by (cases "in_recheck i") (auto simp: handle_signal_def Let_def split: sum.splits bool.splits)
  then show ?thesis using A D by auto
qed

lemma turn_limits:
  assumes "turn cfg i ap s = (r, ap', s')"
  shows "app_limits ap ap'"
  using assms
  by (auto simp: turn_def Let_def app_limits_def split: prod.splits sum.splits bool.splits message.splits if_splits option.splits
      dest!: handle_signal_limits [unfolded app_limits_def] dest: run_bar_limits intro: same_limits_trans)

lemma turns_limits: "turns cfg is ap s = (rs, ap', s') \<Longrightarrow> app_limits ap ap'"
proof (induction "is" arbitrary: ap s rs)
  case (Cons i "is")
  then show ?case by (auto split: prod.splits dest!: turn_limits intro: app_limits_trans)
qed (simp add: app_limits_def)

section \<open>Lemmas: what starts\<close>

lemma flt_decimal_pos: "0 < x \<Longrightarrow> 0 < flt_decimal x"
  by (auto simp: flt_decimal_def opt_get_def find_Some_iff split: option.split intro!: round_sig_pos)

lemma setting_decimal_Some: "setting_decimal s = Some d \<longleftrightarrow> (\<exists>x. s = FlNum x \<and> d = flt_decimal x)"
  by (cases s) auto

lemma start_service_started:
  "start_service w st = Inr (Some (cfg, ap)) \<longleftrightarrow> make_algo_settings st = Inr st \<and> start_app w st = Some (cfg, ap)"
proof -
  have "make_algo_settings st = Inr st' \<Longrightarrow> st' = st" for st' using settings_accepted_iff by blast
  then show ?thesis by (auto simp: start_service_def)
qed

lemma start_app_parts:
  assumes "start_app w st = Some (cfg, ap)"
  obtains d l c r m where
    "setting_decimal (as_max_drawdown_pct st) = Some d" "setting_decimal (as_max_daily_loss_pct st) = Some l"
    "setting_decimal (as_confidence_threshold st) = Some c" "setting_decimal (as_risk_per_trade_pct st) = Some r"
    "setting_decimal (algo_settings.as_max_lots st) = Some m"
    "cfg = \<lparr>st_max_daily_loss_pct = l, st_max_drawdown_pct = d\<rparr>"
    "ap_engine ap = start_engine w st r m (start_validator w st d l c)" "ap_audit ap = start_audit w st"
    "ap_bridge ap = Some (start_bridge w)" "ks_audit_log (ap_kill ap) = []"
  using assms by (auto simp: start_app_def ks_connect_def new_kill_switch_def split: option.splits if_splits)

text \<open>The limits of risk are positive, since the settings were checked.\<close>

lemma started_limits_positive:
  assumes "start_service w st = Inr (Some (cfg, ap))"
  shows "0 < st_max_daily_loss_pct cfg" "0 < st_max_drawdown_pct cfg"
proof -
  have s: "make_algo_settings st = Inr st" "start_app w st = Some (cfg, ap)" using assms by (simp_all add: start_service_started)
  obtain l d where n: "as_max_daily_loss_pct st = FlNum l" "0.5 \<le> l" "as_max_drawdown_pct st = FlNum d" "1 \<le> d"
    using s(1) unfolding settings_accepted_iff by blast
  show "0 < st_max_daily_loss_pct cfg" "0 < st_max_drawdown_pct cfg"
    by (rule start_app_parts [OF s(2)]; use n in \<open>auto intro!: flt_decimal_pos\<close>)+
qed

lemma start_spiral_factor: "sp_reduction_factor (start_spiral w st) = 5 / 10"
  by (auto simp: start_spiral_def new_spiral_def spiral_sync_def Let_def split: option.splits)

lemma start_blind:
  assumes "start_app w st = Some (cfg, ap)" "sw_daily_loss w \<in> {None, Some 0}"
  shows "blind ap"
  by (rule start_app_parts [OF assms(1)])
    (use assms(2) in \<open>auto simp: blind_def start_engine_def start_portfolio_def new_portfolio_def
      portfolio_sync_def start_audit_def new_pg_trail_def connect_pool_def start_bridge_def connect_bridge_def
      new_bridge_client_def Let_def split: option.splits\<close>)

section \<open>The service obeys its settings\<close>

text \<open>
  C3. The running service obeys the settings it was started with: after any number of iterations of the main loop, with any
  bars, replies, fills and losses, a signal that the engine emits has at least the configured confidence, a stop on the
  protective side of its entry, lots between 0.01 and the configured maximum (when that is in hundredths of a lot), and there
  is a free slot among the configured number of positions.
\<close>

theorem running_service_obeys_settings:
  assumes "start_service w st = Inr (Some (cfg, ap))" "turns cfg is ap s = (rs, ap', s')"
    and "setting_decimal (algo_settings.as_max_lots st) = Some m" "lot_limits (1 / 100) m"
  shows "case run_bar env symbol tf b (ap_stage ap', ap_engine ap') of
      (Inr (Some sig), fs, en) \<Rightarrow>
        (\<exists>c. setting_decimal (as_confidence_threshold st) = Some c \<and> c \<le> sig_confidence sig) \<and>
        (\<exists>l. sig_lots sig = Some l \<and> 1 / 100 \<le> l \<and> l \<le> m) \<and>
        (sig_direction sig = BUY \<and> sig_stop_loss sig < sig_entry_price sig \<or>
         sig_direction sig = SELL \<and> sig_entry_price sig < sig_stop_loss sig) \<and>
        int (open_count ap') < as_max_open_positions st
    | _ \<Rightarrow> True"
proof -
  have st: "start_app w st = Some (cfg, ap)" using assms(1) by (simp add: start_service_started)
  obtain d l c r where parts: "setting_decimal (as_confidence_threshold st) = Some c"
    "ap_engine ap = start_engine w st r m (start_validator w st d l c)"
    by (rule start_app_parts [OF st]) (use assms(3) in auto)
  have same: "same_limits (ap_engine ap) (ap_engine ap')" using turns_limits [OF assms(2)] by (simp add: app_limits_def)
  have V: "en_validator (ap_engine ap') = start_validator w st d l c"
    using same parts(2) by (simp add: same_limits_def fixed_parts_def start_engine_def)
  have hi: "dec_round m = m" using assms(4) by (intro dec_round_cents) (auto simp: lot_limits_def)
  have lots: "engine_lots_ok (ap_engine ap') m"
    using same parts(2) assms(4) hi
    by (simp add: same_limits_def fixed_parts_def start_engine_def engine_lots_ok_def lot_limits_def)
  have "sp_reduction_factor (en_spiral (ap_engine ap')) = 5 / 10"
    using same parts(2) by (simp add: same_limits_def start_engine_def start_spiral_factor)
  then have factor: "spiral_factor_ok (en_spiral (ap_engine ap'))" unfolding spiral_factor_ok_def by (simp only:) (simp add: num_eval)
  have safe: "c \<le> sig_confidence sig \<and> (\<exists>l. sig_lots sig = Some l \<and> 1 / 100 \<le> l \<and> l \<le> m) \<and>
      (sig_direction sig = BUY \<and> sig_stop_loss sig < sig_entry_price sig \<or>
       sig_direction sig = SELL \<and> sig_entry_price sig < sig_stop_loss sig) \<and>
      int (open_count ap') < as_max_open_positions st"
    if run: "run_bar env symbol tf b (ap_stage ap', ap_engine ap') = (Inr (Some sig), fs, en)" for sig fs en
  proof -
    obtain f where "process_bar (env\<lparr>ev_features := \<lambda>s t bs. Some f\<rparr>) symbol tf b (ap_engine ap') = (Inr (Some sig), en)"
      using run_bar_signal [OF run] by blast
    note S = process_bar_signal_safe [OF this lots factor]
    show ?thesis using S run_bar_slot [OF run] by (simp add: V start_validator_def open_count_def)
  qed
  show ?thesis using safe parts(1) by (auto split: prod.splits sum.splits option.splits)
qed

definition sample_start :: start_world where
  "sample_start =
     \<lparr>sw_env = Map.empty, sw_files = (\<lambda>_. NoEntry), sw_proto_installed = True, sw_audit_ok = False, sw_kill_ping = True,
      sw_kill_clock = 0, sw_redis_ping = False, sw_spiral_clocks = (0, 0), sw_spiral_data = None, sw_today = ''2024-01-01'',
      sw_daily_loss = None, sw_events = Missing\<rparr>"

definition one_lot_settings :: algo_settings where
  "one_lot_settings = default_algo_settings\<lparr>algo_settings.as_max_lots := FlNum 1\<rparr>"

theorem running_service_obeys_settings_witness:
  "\<exists>cfg ap. start_service sample_start one_lot_settings = Inr (Some (cfg, ap)) \<and>
     (case run_bar demo_env ''EURUSD'' ''M5'' demo_bar (ap_stage ap, ap_engine ap) of
        (Inr (Some sig), fs, en) \<Rightarrow> \<exists>l. sig_lots sig = Some l \<and> 1 / 100 \<le> l \<and> l \<le> 1
      | _ \<Rightarrow> True)"
proof -
  have ok: "make_algo_settings one_lot_settings = Inr one_lot_settings"
    by (simp add: settings_accepted_iff one_lot_settings_def default_algo_settings_def default_base_settings_def
        base_settings.defs algo_settings.defs)
      (rule exI [of _ "13 / 20"], simp)
  have app: "\<exists>cfg ap. start_app sample_start one_lot_settings = Some (cfg, ap)"
    by (simp add: start_app_def one_lot_settings_def default_algo_settings_def default_base_settings_def
        base_settings.defs algo_settings.defs)
  then obtain cfg ap where st: "start_service sample_start one_lot_settings = Inr (Some (cfg, ap))"
    using ok by (auto simp: start_service_started)
  have m: "setting_decimal (algo_settings.as_max_lots one_lot_settings) = Some 1" by (simp add: one_lot_settings_def flt_decimal_1)
  have l: "lot_limits (1 / 100) 1" by (auto simp: lot_limits_def on_grid_def intro: exI [of _ 1] exI [of _ 100])
  have "turns cfg [] ap () = ([], ap, ())" by simp
  from running_service_obeys_settings [OF st this m l, of demo_env "''EURUSD''" "''M5''" demo_bar] show ?thesis
    using st by (auto split: prod.splits sum.splits option.splits)
qed

section \<open>Restarts\<close>

text \<open>
  One life of the service: it starts, runs, and stops at any point; what it leaves in Redis is the daily loss of the last
  \<open>persist_to_redis\<close>, after some of its iterations, or what was there when none happened. The key may be gone at the next start.
\<close>

record 's life =
  lf_world :: start_world
  lf_settings :: algo_settings
  lf_key_found :: bool
  lf_before :: "'s inputs list"
  lf_persisted :: bool
  lf_after :: "'s inputs list"

definition live :: "'s life \<Rightarrow> decimal option \<Rightarrow> 's \<Rightarrow> app option \<times> decimal option \<times> 's" where
  "live li stored s =
     (case start_service ((lf_world li)\<lparr>sw_daily_loss := if lf_key_found li then stored else None\<rparr>) (lf_settings li) of
        Inr (Some (cfg, ap)) \<Rightarrow>
          (case turns cfg (lf_before li) ap s of
             (rs, ap, s) \<Rightarrow>
               let stored = (if lf_persisted li then Some (snd (portfolio_persist [] (en_portfolio (ap_engine ap)))) else stored)
               in case turns cfg (lf_after li) ap s of (rs, ap, s) \<Rightarrow> (Some ap, stored, s))
      | _ \<Rightarrow> (None, stored, s))"

fun lives :: "'s life list \<Rightarrow> decimal option \<Rightarrow> 's \<Rightarrow> app option list" where
  "lives [] stored s = []"
| "lives (li # lis) stored s = (case live li stored s of (ap, stored, s) \<Rightarrow> ap # lives lis stored s)"

lemma live_blind:
  assumes "live li stored s = (r, stored', s')" "stored \<in> {None, Some 0}"
  shows "stored' \<in> {None, Some 0}" "r = Some ap \<Longrightarrow> ks_audit_log (ap_kill ap) = [] \<and> blind ap"
proof -
  let ?w = "(lf_world li)\<lparr>sw_daily_loss := if lf_key_found li then stored else None\<rparr>"
  have "stored' \<in> {None, Some 0} \<and> (\<forall>ap. r = Some ap \<longrightarrow> ks_audit_log (ap_kill ap) = [] \<and> blind ap)"
  proof (cases "\<exists>cfg ap. start_service ?w (lf_settings li) = Inr (Some (cfg, ap))")
    case True
    then obtain cfg ap where st: "start_service ?w (lf_settings li) = Inr (Some (cfg, ap))" by blast
    have start: "start_app ?w (lf_settings li) = Some (cfg, ap)" using st by (simp add: start_service_started)
    have b: "blind ap" "ks_audit_log (ap_kill ap) = []"
      using start_blind [OF start] assms(2) by simp (rule start_app_parts [OF start])
    obtain rs1 ap1 s1 where t1: "turns cfg (lf_before li) ap s = (rs1, ap1, s1)" by (metis prod.exhaust)
    obtain rs2 ap2 s2 where t2: "turns cfg (lf_after li) ap1 s1 = (rs2, ap2, s2)" by (metis prod.exhaust)
    note T1 = turns_stay [OF b(1) started_limits_positive [OF st] t1]
    then have b1: "blind ap1" by (simp add: stays_blind_def)
    note T2 = turns_stay [OF b1 started_limits_positive [OF st] t2]
    show ?thesis
      using assms st t1 t2 T1 T2 b(2) by (auto simp: live_def stays_blind_def blind_def portfolio_persist_def Let_def split: if_splits)
  next
    case False
    then show ?thesis using assms by (auto simp: live_def split: sum.splits option.splits)
  qed
  then show "stored' \<in> {None, Some 0}" "r = Some ap \<Longrightarrow> ks_audit_log (ap_kill ap) = [] \<and> blind ap" by blast+
qed

text \<open>
  C33. No restart wakes the automatic protection: over any sequence of lives of the service, each with its own valid settings,
  inputs, crashes and persisted readings, the daily loss and drawdown on the books are 0 at the end of every life and the kill
  switch was never activated by the engine.
\<close>

theorem protection_sleeps_across_restarts:
  "list_all (\<lambda>r. case r of None \<Rightarrow> True | Some ap \<Rightarrow> ks_audit_log (ap_kill ap) = [] \<and>
      pf_daily_loss_pct (en_portfolio (ap_engine ap)) = 0 \<and> pf_current_drawdown_pct (en_portfolio (ap_engine ap)) = 0)
     (lives lis None s)"
proof -
  have "list_all (\<lambda>r. \<forall>ap. r = Some ap \<longrightarrow> ks_audit_log (ap_kill ap) = [] \<and> blind ap) (lives lis stored s)"
    if "stored \<in> {None, Some 0}" for stored
    using that
  proof (induction lis arbitrary: stored s)
    case (Cons li lis)
    obtain r stored' s' where l: "live li stored s = (r, stored', s')" by (metis prod.exhaust)
    show ?case using live_blind [OF l Cons.prems] Cons.IH [of stored'] l by simp
  qed simp
  then show ?thesis by (auto simp: list_all_iff blind_def split: option.splits)
qed

section \<open>Settings without effect\<close>

text \<open>
  The period of the simple average, the list of timeframes, the leverage and the ports are accepted, documented and never
  used: a service started with other values is the same.
\<close>

theorem settings_without_effect:
  "start_app w (st\<lparr>as_sma_period := p, as_timeframes := tfs, as_default_leverage := lev, as_grpc_port := g, as_rest_port := r\<rparr>) =
   start_app w st"
  by (simp add: start_app_def start_engine_def start_validator_def start_spiral_def start_pipeline_def start_audit_def start_alerts_def
      cong: option.case_cong if_cong)

text \<open>The analyzer of other timeframes keeps the default periods whatever the settings are.\<close>

theorem analyzer_ignores_periods:
  assumes "start_app w st = Some (cfg, ap)"
  shows "mt_pipeline (fs_mtf (ap_stage ap)) = new_feature_pipeline 14 12 26 20 14"
  using assms by (auto simp: start_app_def new_mtf_analyzer_def split: option.splits if_splits)

section \<open>Shutdown\<close>

text \<open>
  Without a connection the entries that are still in memory are lost at shutdown: the last flush writes nothing. With one, every
  row is written that the database takes.
\<close>

theorem shutdown_writes:
  assumes "shut_down ok (ap, table) = (ap', table')"
  shows "(\<not> pt_pool (ap_audit ap) \<longrightarrow> table' = table \<and> pt_buffer (ap_audit ap') = pt_buffer (ap_audit ap)) \<and>
    (pt_pool (ap_audit ap) \<and> (\<forall>i. ok i) \<longrightarrow> table' = table @ pt_buffer (ap_audit ap) \<and> pt_buffer (ap_audit ap') = [])"
proof -
  have all: "write_all (zip es (map ok js)) = (es, [])" if "\<forall>i. ok i" "length js = length es" for es js
    using that by (induction es arbitrary: js) (auto simp: length_Suc_conv Let_def)
  show ?thesis
    using assms all [of "[0..<length (pt_buffer (ap_audit ap))]" "pt_buffer (ap_audit ap)"]
    by (auto simp: shut_down_def flush_buffer_def Let_def split: prod.splits if_splits)
qed

end
