(* ===== verification/Telegram.thy ===== *)
theory Telegram
  imports Alerting
begin

text \<open>
  \<open>algo_engine/alerting/telegram.py\<close>: the channel that posts an alert to the Telegram Bot API, behind the dispatcher. The
  answer to a post is an argument.
\<close>

section \<open>The channel\<close>

record telegram =
  tg_bot_token :: string
  tg_chat_id :: string
  tg_client :: bool

definition env_text :: "(string \<rightharpoonup> string) \<Rightarrow> string option \<Rightarrow> string \<Rightarrow> string" where
  "env_text env v name = (case v of Some (c # cs) \<Rightarrow> c # cs | _ \<Rightarrow> opt_get (env name) [])"

definition new_telegram :: "(string \<rightharpoonup> string) \<Rightarrow> string option \<Rightarrow> string option \<Rightarrow> telegram" where
  "new_telegram env bot_token chat_id =
     \<lparr>tg_bot_token = env_text env bot_token ''MONEYMAKER_TELEGRAM_BOT_TOKEN'',
      tg_chat_id = env_text env chat_id ''MONEYMAKER_TELEGRAM_CHAT_ID'', tg_client = False\<rparr>"

definition get_client :: "bool \<Rightarrow> telegram \<Rightarrow> bool \<times> telegram" where
  "get_client httpx_installed ch =
     (if tg_client ch then (True, ch) else if httpx_installed then (True, ch\<lparr>tg_client := True\<rparr>) else (False, ch))"

record telegram_post =
  tp_url :: string
  tp_chat_id :: string
  tp_text :: string
  tp_parse_mode :: string
  tp_disable_preview :: bool

definition telegram_request :: "telegram \<Rightarrow> string \<Rightarrow> string \<Rightarrow> telegram_post" where
  "telegram_request ch title body =
     \<lparr>tp_url = ''https://api.telegram.org/bot'' @ tg_bot_token ch @ ''/sendMessage'', tp_chat_id = tg_chat_id ch,
      tp_text = ''<b>'' @ title @ ''</b>'' @ [CHR 0x0A, CHR 0x0A] @ body, tp_parse_mode = ''HTML'', tp_disable_preview = True\<rparr>"

text \<open>The status of the response, or nothing when the post raises.\<close>

definition telegram_send :: "bool \<Rightarrow> (telegram_post \<Rightarrow> int option) \<Rightarrow> string \<Rightarrow> string \<Rightarrow> telegram \<Rightarrow> bool \<times> telegram" where
  "telegram_send httpx_installed post title body ch =
     (case get_client httpx_installed ch of
        (False, ch) \<Rightarrow> (False, ch)
      | (True, ch) \<Rightarrow> (post (telegram_request ch title body) = Some 200, ch))"

text \<open>The dispatcher with this channel: whether the alert was handed over, and then whether it arrived; the result is dropped.\<close>

definition alert_by_telegram ::
  "bool \<Rightarrow> (telegram_post \<Rightarrow> int option) \<Rightarrow> alert \<Rightarrow> dispatcher \<times> telegram \<Rightarrow> bool option \<times> dispatcher \<times> telegram" where
  "alert_by_telegram httpx_installed post a st =
     (case st of (d, ch) \<Rightarrow>
        case alert_send a d of
          (None, d) \<Rightarrow> (None, d, ch)
        | (Some (title, body), d) \<Rightarrow> (case telegram_send httpx_installed post title body ch of (ok, ch) \<Rightarrow> (Some ok, d, ch)))"

section \<open>Properties\<close>

text \<open>
  An alert arrives exactly when the client exists and the server answered 200 to a post that carries the title with its level,
  the body, and the configured chat.
\<close>

theorem telegram_arrives_iff:
  "fst (alert_by_telegram installed post a (d, ch)) = Some True \<longleftrightarrow>
     (tg_client ch \<or> installed) \<and> fst (alert_send a d) = Some (formatted_title a, al_body a) \<and>
     post \<lparr>tp_url = ''https://api.telegram.org/bot'' @ tg_bot_token ch @ ''/sendMessage'', tp_chat_id = tg_chat_id ch,
           tp_text = ''<b>'' @ formatted_title a @ ''</b>'' @ [CHR 0x0A, CHR 0x0A] @ al_body a, tp_parse_mode = ''HTML'',
           tp_disable_preview = True\<rparr> = Some 200"
  by (auto simp: alert_by_telegram_def telegram_send_def get_client_def telegram_request_def alert_send_def Let_def
      split: prod.splits option.splits if_splits)

text \<open>
  A failed alert is not repeated: the dispatcher counts an alert as sent before the channel tries, so that one that did not
  arrive, for whatever reason, suppresses the next equal alert within the interval just as one that did.
\<close>

theorem failed_alert_suppresses_next:
  assumes "fst (alert_by_telegram installed post a (d, ch)) = Some False" "0 \<le> al_now a" "al_now a < 2 ^ 53"
    and "alert_key b = alert_key a" "flt_round (al_now b - al_now a) < alert_interval d (al_level b)"
  shows "fst (alert_by_telegram installed' post' b (snd (alert_by_telegram installed post a (d, ch)))) = None"
proof -
  obtain m where m: "fst (alert_send a d) = Some m"
    using assms(1) by (auto simp: alert_by_telegram_def split: prod.splits option.splits)
  let ?d = "snd (alert_send a d)"
  have d: "fst (snd (alert_by_telegram installed post a (d, ch))) = ?d"
    by (auto simp: alert_by_telegram_def split: prod.splits option.splits)
  have "\<not> al_now a \<le> flt_round (al_now a - 3600)" using cutoff_bound [OF assms(2,3), of "al_now a"] by auto
  then have "ad_last_sent ?d (alert_key b) = Some (al_now a)"
    using m assms(4) by (auto simp: alert_send_def Let_def split: if_splits)
  moreover have "alert_interval ?d = alert_interval d" by simp
  ultimately have "fst (alert_send b ?d) = None"
    using assms(5) unfolding alert_send_def [of b] by (simp add: opt_get_def Let_def del: alert_send_intervals)
  then show ?thesis
    using d by (cases "alert_by_telegram installed post a (d, ch)") (auto simp: alert_by_telegram_def split: prod.splits)
qed

lemma failed_alert_suppresses_next_witness:
  "let d = add_channel (new_dispatcher 30 5); ch = new_telegram Map.empty (Some ''t'') (Some ''c'')
   in fst (alert_by_telegram True (\<lambda>_. Some 200) (sample_alert 110)
        (snd (alert_by_telegram True (\<lambda>_. Some 500) (sample_alert 100) (d, ch)))) = None"
proof -
  let ?d = "add_channel (new_dispatcher 30 5)" let ?ch = "new_telegram Map.empty (Some ''t'') (Some ''c'')"
  have 1: "fst (alert_by_telegram True (\<lambda>_. Some 500) (sample_alert 100) (?d, ?ch)) = Some False"
    by (simp add: alert_by_telegram_def telegram_send_def get_client_def new_telegram_def alert_send_def add_channel_def
        new_dispatcher_def alert_interval_def sample_alert_def alert_key_def opt_get_def num_eval Let_def)
  have 2: "flt_round (al_now (sample_alert 110) - al_now (sample_alert 100)) < alert_interval ?d (al_level (sample_alert 110))"
    by (simp add: sample_alert_def alert_interval_def add_channel_def new_dispatcher_def num_eval)
  show ?thesis
    unfolding Let_def by (rule failed_alert_suppresses_next [OF 1 _ _ _ 2]) (simp_all add: sample_alert_def alert_key_def)
qed

text \<open>Titles and bodies are not escaped although the text is declared as HTML: a title can close the bold element.\<close>

theorem title_is_markup:
  "tp_text (telegram_request ch (t @ ''</b><i>'' @ u @ ''</i><b>'') body) =
   ''<b>'' @ t @ ''</b><i>'' @ u @ ''</i><b></b>'' @ [CHR 0x0A, CHR 0x0A] @ body"
  by (simp add: telegram_request_def)

end
