(* ===== verification/Spec2Isabelle.thy ===== *)
theory Spec2Isabelle
  imports Main_Loop Dependence Stochastic Walk_Forward Trade_Recorder Feed_Inputs Backtest_Engine Audit_Trail
    Macro_Scheduler Console Alerting Kill_Switch Maturity_Gate Trailing_Stop Feature_Stage Order_Manager Position_Tracker
    Execution_Server Macro_Data Factor_Strategies Console_Controls Data_Loader
    Information_Theory Monte_Carlo Start_Up Telegram
begin

text \<open>
  A verification library of the trading path of \<open>invest-smart\<close> (MONEYMAKER), a system that turns market bars into
  orders on a MetaTrader 5 account. Paths below are relative to \<open>src/program/services\<close>, and \<open>common\<close> stands for
  \<open>src/program/shared/python-common/src/moneymaker_common\<close>.

  \<^bold>\<open>The program.\<close> The Go service \<open>data-ingestion\<close> publishes bars over ZMQ. \<open>algo-engine\<close> buffers them per symbol,
  computes indicators, classifies the market regime, asks a strategy for a direction, turns it into a sized signal,
  validates it against the risk limits and hands it over gRPC to \<open>mt5-bridge\<close>, which checks it again and sends an
  order to the terminal, follows the open positions and records the closed ones. \<open>external-data\<close> publishes macro
  readings to Redis, which the engine reads. The kill switch is a Redis key that the engine, the main loop and the
  operator's \<open>console\<close> share. Audit entries, rate limits and health checks live in \<open>common\<close>.

  \<^bold>\<open>Numbers.\<close> \<open>Prelude\<close> and \<open>Decimals\<close>: a \<open>Decimal\<close> of the default context is a rational rounded half-even to 28
  digits after every operation (\<open>dec_round\<close>), a \<open>float\<close> one rounded to 53 bits (\<open>flt_round\<close>). Both interpret the locale
  \<open>rounding\<close> (monotone, idempotent, odd, sign preserving), from which every bound that survives rounding is derived.
  Exponents are unbounded: overflow and underflow of both formats are not modelled, while \<open>quantize\<close> raises when its
  result needs more than 28 digits. Integer powers of decimals are taken as correctly rounded. \<open>Extended_Decimals\<close> adds
  infinities, NaN and unparsable text where a component reads its numbers from outside. \<open>Market_Types\<close> holds the
  shared enums, the bar, the feature dictionary and the signal.

  \<^bold>\<open>Errors, time, randomness, the outside.\<close> A raised exception is the left value of a sum. Clock readings, UUIDs, random
  draws, Redis replies, database results, the answers of the terminal, remote calls, the C functions \<open>exp\<close>, \<open>log\<close> and
  \<open>pow\<close>, and what numpy and scipy compute are arguments of the definitions that use them, so a theorem quantifies over
  all of them; where a law of such an argument is needed it is a hypothesis of the theorem, with a witness.

  \<^bold>\<open>Data and features\<close> (\<open>algo-engine/src/algo_engine\<close>). \<open>Feed_Inputs\<close>: \<open>parse_bar_message\<close>, the events file,
  \<open>compute_features_with_macro\<close>. \<open>Market_Data\<close>: \<open>features/data_quality.py\<close> and the \<open>BarBuffer\<close> of \<open>zmq_adapter.py\<close>,
  which is the last-n window of each symbol. \<open>Indicators\<close> and \<open>Oscillators\<close>: \<open>features/technical.py\<close>, with the square
  root and the logarithm the code computes in decimal, termination of its two range-reduction loops, the recomputation
  of the RSI series, ranges of the oscillators. \<open>Feature_Pipeline\<close>: \<open>features/pipeline.py\<close>. \<open>Multi_Timeframe\<close>,
  \<open>Feature_Scoring\<close>: \<open>features/mtf_analyzer.py\<close>, \<open>feature_scorer.py\<close>, \<open>mtf_confirmation.py\<close> and
  \<open>optimization/adaptive.py\<close>. \<open>Feature_Stage\<close>: steps 2 to 3b of \<open>engine.py\<close> in front of the rest of the pipeline.
  \<open>Macro_Data\<close> and \<open>Macro_Scheduler\<close>: the providers, jobs and scheduler of \<open>external-data\<close> and
  \<open>features/macro_features.py\<close>, with the round trip through Redis and the circuit breaker of the jobs.

  \<^bold>\<open>Decision.\<close> \<open>Regime\<close>: \<open>features/regime.py\<close> with its hysteresis. \<open>Strategies\<close>: the five base strategies and
  \<open>regime_router.py\<close>; the contract of a strategy is the locale \<open>trading_strategy\<close>, interpreted on all of them and on the
  router. \<open>Factor_Strategies\<close>: \<open>multi_factor.py\<close>, \<open>adaptive_trend.py\<close>, \<open>ou_mean_reversion.py\<close>. \<open>Confidence\<close>:
  \<open>belief_state.py\<close>, \<open>composite_confidence.py\<close>. \<open>Signal_Generator\<close>: \<open>signals/generator.py\<close> and
  \<open>analytics/attribution.py\<close>. \<open>Maturity_Gate\<close>: \<open>maturity_gate.py\<close>. \<open>Bayesian\<close>, \<open>Tail_Risk\<close>, \<open>Dependence\<close> and
  \<open>Stochastic\<close>: the decimal part of \<open>math/bayesian.py\<close>, \<open>extreme_value.py\<close>, \<open>copula.py\<close> and \<open>stochastic.py\<close>.
  \<open>Walk_Forward\<close>: \<open>optimization/walk_forward.py\<close>, whose loop is a \<open>partial_function\<close> because it runs for ever on a
  step of zero, and \<open>analytics/historical_edge.py\<close>. \<open>Monte_Carlo\<close>: \<open>optimization/monte_carlo.py\<close>. \<open>Information_Theory\<close>:
  \<open>math/information_theory.py\<close> with its detector of distribution shifts.

  \<^bold>\<open>Risk.\<close> \<open>Position_Sizing\<close>: \<open>signals/position_sizer.py\<close>, \<open>advanced_sizer.py\<close> (locale \<open>lot_sizer\<close>). \<open>Signal_Guards\<close>:
  \<open>spiral_protection.py\<close>, \<open>rate_limiter.py\<close>. \<open>Market_Filters\<close>: \<open>sessions.py\<close>, \<open>spread_tracker.py\<close>,
  \<open>economic_calendar.py\<close>, \<open>correlation.py\<close>. \<open>Portfolio\<close>: \<open>portfolio.py\<close>, refining a bag of positions (locale
  \<open>position_book\<close>). \<open>Validator\<close>: \<open>signals/validator.py\<close>, equivalent to its eleven checks. \<open>Kill_Switch\<close>:
  \<open>kill_switch.py\<close> as a transition system whose environment decides every Redis reply. \<open>Trailing_Stop\<close>:
  \<open>signals/trailing_stop.py\<close>.

  \<^bold>\<open>Composition.\<close> \<open>Algo_Engine\<close>: \<open>_process_bar_inner\<close> of \<open>engine.py\<close>. \<open>Bridge_Client\<close>: \<open>grpc_client.py\<close> with retries and
  circuit breaker, put in front of the bridge's own handler behind a network that loses replies. \<open>Main_Loop\<close>: one turn of
  \<open>run_engine\<close> in \<open>main.py\<close> and runs of turns. \<open>Start_Up\<close>: how the checked settings and the outside become the state of the
  loop, what the running service then guarantees in terms of its settings, restarts, and the shutdown. A property of single turns is carried to runs by induction on the list of
  inputs.

  \<^bold>\<open>The bridge\<close> (\<open>mt5-bridge/src/mt5_bridge\<close>). \<open>Broker\<close>: the queries of \<open>connector.py\<close>; the terminal is a record of
  answers. \<open>Order_Manager\<close>: \<open>order_manager.py\<close>. \<open>Execution_Server\<close>: both servicers of \<open>grpc_server.py\<close>.
  \<open>Position_Tracker\<close>: \<open>position_tracker.py\<close>. \<open>Trade_Recorder\<close>: \<open>trade_recorder.py\<close>, the life of the connection and the
  monitor turn of \<open>main.py\<close>.

  \<^bold>\<open>Shared and operator code.\<close> \<open>Token_Bucket\<close>: \<open>common/ratelimit.py\<close>, in memory and as the Redis script, both
  interpreting the locale \<open>token_bucket\<close>. \<open>Audit_Trail\<close>: \<open>common/audit.py\<close> and \<open>audit_pg.py\<close>, with SHA-256 written out
  over 32-bit words. \<open>Alerting\<close> and \<open>Telegram\<close>: \<open>alerting/dispatcher.py\<close>,
  \<open>telegram.py\<close>, \<open>common/health.py\<close>. \<open>Console\<close>: \<open>registry.py\<close>,
  \<open>cli/dispatch.py\<close>, \<open>commands/kill.py\<close> and \<open>clients/redis_client.py\<close> of \<open>console\<close>, down to the kill switch of the engine.
  \<open>Text_Parsing\<close>: white space, lines and the numbers read from texts. \<open>Env_File\<close>: \<open>commands/config.py\<close> over the
  \<open>.env\<close> file, with the masking of \<open>console_logging.py\<close>. \<open>Console_Audit\<close>: \<open>runner.py\<close> and \<open>commands/audit.py\<close>.
  \<open>Console_Controls\<close>: the switches of \<open>commands/brain.py\<close>, \<open>mt5.py\<close>, \<open>risk.py\<close>, \<open>alert.py\<close> and \<open>maint.py\<close>, and that none of
  them reaches what the engine reads. \<open>Service_Config\<close>: \<open>common/secrets.py\<close>, \<open>grpc_credentials.py\<close>, \<open>config.py\<close> and the
  engine's \<open>config.py\<close>, with the channel of the client and the port of the server under TLS.

  \<^bold>\<open>Backtesting.\<close> \<open>Trade_Simulator\<close>, \<open>Backtest_Metrics\<close>, \<open>Backtest_Engine\<close>: \<open>backtesting/simulator.py\<close>, \<open>metrics.py\<close>,
  \<open>engine.py\<close>, and \<open>Data_Loader\<close>: \<open>data_loader.py\<close>. The square root of the metrics is an integer root with a sticky bit, rounded once.

  \<^bold>\<open>What the lemmas show.\<close> Each theory has the invariants of its state and that every operation keeps them, the result of
  each operation on every branch, and the facts that the composed theorems use. The properties of the library are the
  theorems whose text carries a number \<open>C1\<close>, \<open>C2\<close> and so on; the theorems about defects (a bucket that starves, a
  lost reply, a risk loop without feedback, a tail fit that always raises) are proved of the same definitions.

  \<^bold>\<open>Bounds and termination.\<close> No definition uses fuel. Loops over data are structural; the range reduction of the
  logarithm is a \<open>function\<close> with a measure on the rounded argument; the retries of the client and the reconnection run down
  their attempt counter; the rolling optimizer and the password generator are partial and the exact domain of their
  termination is a theorem. Size bounds in
  hypotheses (\<open>10 ^ 6\<close> exceedances, \<open>10 ^ 20\<close> observations) keep accumulated rounding below the gap they are compared with.

  \<^bold>\<open>Not modelled.\<close> numpy and scipy numerics (\<open>math/spectral.py\<close>, \<open>fractal.py\<close>, the path simulations of
  \<open>stochastic.py\<close>, the fit of \<open>ou_process.py\<close>); HTTP, SQL and file input
  and output (the dashboard, the queries of the recorder); the reports over SQL rows, completion,
  user interface and process control of the console; logging and metrics;
  start-up of the other services; the Go service and the expert advisor in MQL5. Log lines and metrics are left out
  of every definition. Unicode case mapping is restricted to ASCII.
\<close>

end
